(* ===== verification/Kernel_Prelude.thy ===== *)
theory Kernel_Prelude
  imports Main "HOL-Library.Word"
begin

text \<open>
  What every component of the development shares: the machine integers of the 32-bit ARM
  kernels of the repository, the error numbers the system calls return, and generic facts
  on lists, sums and words that the component proofs use by simplification.

  The named collections are \<open>frame\<close> (which parts of the kernel an operation leaves alone, as
  equations) and \<open>keeps\<close> (that an operation leaves the parameters of all tasks alone, as rules).
\<close>

unbundle bit_operations_syntax

named_theorems frame \<open>parts of the kernel that an operation leaves alone\<close>
named_theorems keeps \<open>operations that leave the parameters of all tasks alone\<close>

section \<open>Machine integers\<close>

text \<open>
  \<open>unsigned int\<close>, \<open>unsigned long\<close> and \<open>u32\<close> are 32 bits wide on the ARMv7 targets of
  both trees, \<open>u64\<close> is 64 bits. A C \<open>int\<close> whose arithmetic cannot overflow
  (priorities, nice values, policies, error codes) is a HOL \<open>int\<close>.
\<close>

type_synonym u32 = "32 word"
type_synonym u64 = "64 word"
type_synonym cpu = nat    \<comment> \<open>a processor number\<close>
type_synonym tid = nat    \<comment> \<open>the address of a \<open>struct task_struct\<close>\<close>
type_synonym tgid = nat   \<comment> \<open>the address of a \<open>struct task_group\<close>\<close>
type_synonym cpumask = "nat \<Rightarrow> bool"

text \<open>C integers as conditions, and the clamped difference the accounting code computes.\<close>

definition s64_neg :: "u64 \<Rightarrow> bool" where
  "s64_neg x \<longleftrightarrow> sint x < 0"

section \<open>Error numbers\<close>

abbreviation EPERM :: int where "EPERM \<equiv> 1"
abbreviation ESRCH :: int where "ESRCH \<equiv> 3"
abbreviation EINTR :: int where "EINTR \<equiv> 4"
abbreviation ENOMEM :: int where "ENOMEM \<equiv> 12"
abbreviation EACCES :: int where "EACCES \<equiv> 13"
abbreviation EFAULT :: int where "EFAULT \<equiv> 14"
abbreviation EBUSY :: int where "EBUSY \<equiv> 16"
abbreviation EINVAL :: int where "EINVAL \<equiv> 22"
abbreviation ERESTARTSYS :: int where "ERESTARTSYS \<equiv> 512"

section \<open>Sums over queues\<close>

lemma sum_list_remove1:
  fixes f :: "'a \<Rightarrow> 'b::ab_group_add"
  shows "x \<in> set xs \<Longrightarrow> sum_list (map f (remove1 x xs)) = sum_list (map f xs) - f x"
  by (induction xs) auto

lemma length_remove1_word:
  "x \<in> set xs \<Longrightarrow> (of_nat (length (remove1 x xs)) :: 'a::len word) = of_nat (length xs) - 1"
  by (induction xs) (auto simp: length_remove1 Suc_le_eq length_pos_if_in_set)

lemma sum_list_upd_notin:
  "x \<notin> set xs \<Longrightarrow> sum_list (map (f(x := v)) xs) = sum_list (map f xs)"
  by (induction xs) auto

lemma map_upd_notin:
  "x \<notin> set xs \<Longrightarrow> map (f(x := v)) xs = map f xs"
  by (induction xs) auto

lemma sum_list_bound:
  fixes f :: "'a \<Rightarrow> nat"
  shows "(\<And>x. x \<in> set xs \<Longrightarrow> f x \<le> b) \<Longrightarrow> sum_list (map f xs) \<le> b * length xs"
  by (induction xs) (auto simp: add_mono)

section \<open>Scanning for a bit\<close>

text \<open>
  The kernel's \<open>find_next_bit(map, size, off)\<close>: the first set position from \<open>off\<close> on, or
  \<open>sz\<close> when there is none. Used on the priority bitmap of the RT class.
\<close>

function find_next_bit :: "(nat \<Rightarrow> bool) \<Rightarrow> nat \<Rightarrow> nat \<Rightarrow> nat" where
  "find_next_bit bm sz off =
     (if off < sz then (if bm off then off else find_next_bit bm sz (Suc off)) else sz)"
  by pat_completeness auto
termination by (relation "measure (\<lambda>(bm, sz, off). sz - off)") auto

declare find_next_bit.simps [simp del]

lemma find_next_bit_le: "find_next_bit bm sz off \<le> sz"
proof (induction bm sz off rule: find_next_bit.induct)
  case (1 bm sz off)
  then show ?case by (simp add: find_next_bit.simps [of bm sz off])
qed

lemma find_next_bit_set:
  "find_next_bit bm sz off < sz \<Longrightarrow> bm (find_next_bit bm sz off) \<and> off \<le> find_next_bit bm sz off"
proof (induction bm sz off rule: find_next_bit.induct)
  case (1 bm sz off)
  then show ?case
    by (auto simp: find_next_bit.simps [of bm sz off] split: if_splits)
qed

lemma find_next_bit_least:
  "\<lbrakk>off \<le> i; i < find_next_bit bm sz off\<rbrakk> \<Longrightarrow> \<not> bm i"
proof (induction bm sz off rule: find_next_bit.induct)
  case (1 bm sz off)
  show ?case
  proof (cases "off < sz \<and> \<not> bm off \<and> off \<noteq> i")
    case True
    with "1.prems" have "Suc off \<le> i" "i < find_next_bit bm sz (Suc off)"
      by (simp_all add: find_next_bit.simps [of bm sz off])
    with True "1.IH" show ?thesis by blast
  next
    case False
    with "1.prems" show ?thesis
      by (auto simp: find_next_bit.simps [of bm sz off] split: if_splits)
  qed
qed

lemma find_next_bit_found:
  assumes "bm i" "off \<le> i" "i < sz"
  shows "find_next_bit bm sz off \<le> i"
  using find_next_bit_least [of off i bm sz] assms by (meson not_le)

end
