(* ===== verification/Kernel_Lists.thy ===== *)
theory Kernel_Lists
  imports Kernel_Prelude
begin

text \<open>
  The circular doubly linked lists of the kernel (\<open>struct list_head\<close>), at the level of
  their documented behaviour: a family of lists, one per head, whose elements are nodes
  embedded in larger structures. A node records the list it is linked into, because
  \<open>list_del_init\<close> and \<open>list_empty(&node)\<close> are given the node alone. The header
  \<open>linux/list.h\<close> is not part of the repository; only this behaviour is used.

  The second half shows well-formedness of the family under every operation, and what the
  schedulers rely on: that deleting undoes adding, and what moving to an end does.
\<close>

section \<open>Heads, nodes and the list operations\<close>

record ('h, 'n) lists =
  elems :: "'h \<Rightarrow> 'n list"
  home :: "'n \<Rightarrow> 'h option"

definition no_lists :: "('h, 'n) lists" where
  "no_lists = \<lparr>elems = (\<lambda>_. []), home = (\<lambda>_. None)\<rparr>"

definition list_add :: "'n \<Rightarrow> 'h \<Rightarrow> ('h, 'n) lists \<Rightarrow> ('h, 'n) lists" where
  "list_add n h L = L\<lparr>elems := (elems L)(h := n # elems L h), home := (home L)(n := Some h)\<rparr>"

definition list_add_tail :: "'n \<Rightarrow> 'h \<Rightarrow> ('h, 'n) lists \<Rightarrow> ('h, 'n) lists" where
  "list_add_tail n h L =
     L\<lparr>elems := (elems L)(h := elems L h @ [n]), home := (home L)(n := Some h)\<rparr>"

definition list_del_init :: "'n \<Rightarrow> ('h, 'n) lists \<Rightarrow> ('h, 'n) lists" where
  "list_del_init n L =
     (case home L n of
        None \<Rightarrow> L
      | Some h \<Rightarrow> L\<lparr>elems := (elems L)(h := remove1 n (elems L h)), home := (home L)(n := None)\<rparr>)"

definition list_move :: "'n \<Rightarrow> 'h \<Rightarrow> ('h, 'n) lists \<Rightarrow> ('h, 'n) lists" where
  "list_move n h L = list_add n h (list_del_init n L)"

definition list_move_tail :: "'n \<Rightarrow> 'h \<Rightarrow> ('h, 'n) lists \<Rightarrow> ('h, 'n) lists" where
  "list_move_tail n h L = list_add_tail n h (list_del_init n L)"

text \<open>\<open>INIT_LIST_HEAD\<close> on a head and on a node.\<close>

definition init_list_head :: "'h \<Rightarrow> ('h, 'n) lists \<Rightarrow> ('h, 'n) lists" where
  "init_list_head h L = L\<lparr>elems := (elems L)(h := [])\<rparr>"

definition init_list_node :: "'n \<Rightarrow> ('h, 'n) lists \<Rightarrow> ('h, 'n) lists" where
  "init_list_node n L = L\<lparr>home := (home L)(n := None)\<rparr>"

definition list_empty :: "'h \<Rightarrow> ('h, 'n) lists \<Rightarrow> bool" where
  "list_empty h L \<longleftrightarrow> elems L h = []"

definition node_empty :: "'n \<Rightarrow> ('h, 'n) lists \<Rightarrow> bool" where
  "node_empty n L \<longleftrightarrow> home L n = None"

text \<open>
  The neighbours of a node in its circular list. An unlinked node points at itself, the
  neighbours of the outermost elements are the head.
\<close>

datatype ('h, 'n) link = Head 'h | Node 'n

fun after :: "'n \<Rightarrow> 'n list \<Rightarrow> 'h \<Rightarrow> ('h, 'n) link" where
  "after x [] h = Head h"
| "after x [y] h = Head h"
| "after x (y # z # zs) h = (if x = y then Node z else after x (z # zs) h)"

definition link_next :: "'n \<Rightarrow> ('h, 'n) lists \<Rightarrow> ('h, 'n) link" where
  "link_next n L =
     (case home L n of None \<Rightarrow> Node n | Some h \<Rightarrow> after n (elems L h) h)"

definition link_prev :: "'n \<Rightarrow> ('h, 'n) lists \<Rightarrow> ('h, 'n) link" where
  "link_prev n L =
     (case home L n of None \<Rightarrow> Node n | Some h \<Rightarrow> after n (rev (elems L h)) h)"

text \<open>A well-formed family: no node twice, and every node knows the one list it is on.\<close>

definition lists_wf :: "('h, 'n) lists \<Rightarrow> bool" where
  "lists_wf L \<longleftrightarrow>
     (\<forall>h. distinct (elems L h)) \<and> (\<forall>h n. n \<in> set (elems L h) \<longleftrightarrow> home L n = Some h)"

section \<open>Well-formedness\<close>

lemma lists_wfI:
  "\<lbrakk>\<And>h. distinct (elems L h); \<And>h n. n \<in> set (elems L h) \<longleftrightarrow> home L n = Some h\<rbrakk> \<Longrightarrow> lists_wf L"
  by (simp add: lists_wf_def)

lemma wf_distinct [simp, intro]: "lists_wf L \<Longrightarrow> distinct (elems L h)"
  by (simp add: lists_wf_def)

lemma wf_home: "lists_wf L \<Longrightarrow> n \<in> set (elems L h) \<longleftrightarrow> home L n = Some h"
  by (simp add: lists_wf_def)

lemma wf_homeD: "\<lbrakk>lists_wf L; home L n = Some h\<rbrakk> \<Longrightarrow> n \<in> set (elems L h)"
  by (simp add: lists_wf_def)

lemma wf_unlinked: "\<lbrakk>lists_wf L; home L n = None\<rbrakk> \<Longrightarrow> n \<notin> set (elems L h)"
  by (simp add: lists_wf_def)

lemma wf_no_lists [simp]: "lists_wf no_lists"
  by (simp add: lists_wf_def no_lists_def)

lemma wf_list_add [intro]: "\<lbrakk>lists_wf L; home L n = None\<rbrakk> \<Longrightarrow> lists_wf (list_add n h L)"
  by (auto simp: lists_wf_def list_add_def)

lemma wf_list_add_tail [intro]: "\<lbrakk>lists_wf L; home L n = None\<rbrakk> \<Longrightarrow> lists_wf (list_add_tail n h L)"
  by (auto simp: lists_wf_def list_add_tail_def)

lemma wf_list_del_init [simp, intro]: "lists_wf L \<Longrightarrow> lists_wf (list_del_init n L)"
  by (auto simp: lists_wf_def list_del_init_def split: option.splits)

lemma home_list_del_init [simp]:
  "home (list_del_init n L) m = (if m = n then None else home L m)"
  by (auto simp: list_del_init_def split: option.splits)

lemma wf_list_move [intro]: "lists_wf L \<Longrightarrow> lists_wf (list_move n h L)"
  unfolding list_move_def by (rule wf_list_add) simp_all

lemma wf_list_move_tail [intro]: "lists_wf L \<Longrightarrow> lists_wf (list_move_tail n h L)"
  unfolding list_move_tail_def by (rule wf_list_add_tail) simp_all

section \<open>What each operation does to the lists\<close>

lemma elems_list_add [simp]:
  "elems (list_add n h L) h' = (if h' = h then n # elems L h else elems L h')"
  by (simp add: list_add_def)

lemma elems_list_add_tail [simp]:
  "elems (list_add_tail n h L) h' = (if h' = h then elems L h @ [n] else elems L h')"
  by (simp add: list_add_tail_def)

lemma home_list_add [simp]: "home (list_add n h L) m = (if m = n then Some h else home L m)"
  by (simp add: list_add_def)

lemma home_list_add_tail [simp]:
  "home (list_add_tail n h L) m = (if m = n then Some h else home L m)"
  by (simp add: list_add_tail_def)

lemma elems_list_del_init:
  "elems (list_del_init n L) h =
     (if home L n = Some h then remove1 n (elems L h) else elems L h)"
  by (auto simp: list_del_init_def split: option.splits)

lemma elems_list_del_init_wf:
  "lists_wf L \<Longrightarrow> elems (list_del_init n L) h = remove1 n (elems L h)"
  by (simp add: elems_list_del_init wf_home [symmetric] remove1_idem)

lemma elems_list_move_tail:
  "lists_wf L \<Longrightarrow> elems (list_move_tail n h L) h' =
     (if h' = h then remove1 n (elems L h) @ [n] else remove1 n (elems L h'))"
  by (simp add: list_move_tail_def elems_list_del_init_wf)

lemma elems_list_move:
  "lists_wf L \<Longrightarrow> elems (list_move n h L) h' =
     (if h' = h then n # remove1 n (elems L h) else remove1 n (elems L h'))"
  by (simp add: list_move_def elems_list_del_init_wf)

lemma home_list_move [simp]: "home (list_move n h L) m = (if m = n then Some h else home L m)"
  by (simp add: list_move_def)

lemma home_list_move_tail [simp]:
  "home (list_move_tail n h L) m = (if m = n then Some h else home L m)"
  by (simp add: list_move_tail_def)

lemma list_del_init_add:
  "home L n = None \<Longrightarrow> list_del_init n (list_add n h L) = L"
  by (cases L) (auto simp: list_del_init_def list_add_def fun_upd_idem)

lemma list_del_init_add_tail:
  assumes "lists_wf L" "home L n = None"
  shows "list_del_init n (list_add_tail n h L) = L"
proof -
  have "n \<notin> set (elems L h)" using assms by (rule wf_unlinked)
  with assms show ?thesis
    by (cases L) (auto simp: list_del_init_def list_add_tail_def fun_upd_idem remove1_append)
qed

section \<open>The neighbour test\<close>

text \<open>
  \<open>run_list.prev != run_list.next\<close> is how both round-robin schedulers ask whether a
  queued entity has company: it holds exactly when the list has at least two elements.
\<close>

lemma after_in: "after x xs h = Node y \<Longrightarrow> y \<in> set xs"
  by (induction x xs h rule: after.induct) (auto split: if_splits)

lemma after_split:
  "x \<notin> set xs \<Longrightarrow> after x (xs @ x # ys) h = (case ys of [] \<Rightarrow> Head h | y # _ \<Rightarrow> Node y)"
  by (induction xs rule: induct_list012) (auto split: list.splits)

lemma neighbours_split:
  assumes "distinct (xs @ x # ys)"
  shows "after x (rev (xs @ x # ys)) h \<noteq> after x (xs @ x # ys) h \<longleftrightarrow> xs \<noteq> [] \<or> ys \<noteq> []"
proof -
  have fwd: "after x (xs @ x # ys) h = (case ys of [] \<Rightarrow> Head h | y # _ \<Rightarrow> Node y)"
    using assms by (intro after_split) auto
  have "after x (rev ys @ x # rev xs) h = (case rev xs of [] \<Rightarrow> Head h | y # _ \<Rightarrow> Node y)"
    using assms by (intro after_split) auto
  then have bwd: "after x (rev (xs @ x # ys)) h = (case rev xs of [] \<Rightarrow> Head h | y # _ \<Rightarrow> Node y)"
    by simp
  show ?thesis
    using assms unfolding fwd bwd
    by (cases ys; cases xs rule: rev_cases) auto
qed

lemma prev_next_differ:
  assumes wf: "lists_wf L" and on: "home L n = Some h"
  shows "link_prev n L \<noteq> link_next n L \<longleftrightarrow> 1 < length (elems L h)"
proof -
  from wf on have "n \<in> set (elems L h)" by (rule wf_homeD)
  then obtain xs ys where q: "elems L h = xs @ n # ys" by (meson split_list)
  moreover from wf have "distinct (elems L h)" by simp
  ultimately show ?thesis
    using neighbours_split [of xs n ys h] on
    by (auto simp: link_prev_def link_next_def)
qed

lemma prev_next_unlinked: "home L n = None \<Longrightarrow> link_prev n L = link_next n L"
  by (simp add: link_prev_def link_next_def)

end
