(* ===== verification/Sched_Types.thy ===== *)
theory Sched_Types
  imports Kernel_Lists
begin

text \<open>
  The scheduler's data as the two trees declare it (\<open>include/linux/sched.h\<close>,
  \<open>kernel/sched/sched.h\<close>): scheduling classes, entities, tasks, runqueues, task groups,
  and the kernel state that holds them. Pointers to structures are numbers; the embedded
  \<open>list_head\<close>s are the families of \<open>Kernel_Lists\<close>. Code that is not part of the
  repository (the fair, stop and idle classes, cgroup paths, capabilities, the CPU priority
  map of the RT class) is an argument, the record \<open>env\<close>.
\<close>

section \<open>Constants\<close>

definition SCHED_NORMAL :: int where "SCHED_NORMAL = 0"
definition SCHED_FIFO :: int where "SCHED_FIFO = 1"
definition SCHED_RR :: int where "SCHED_RR = 2"
definition SCHED_BATCH :: int where "SCHED_BATCH = 3"
definition SCHED_IDLE :: int where "SCHED_IDLE = 5"
definition SCHED_WRR :: int where "SCHED_WRR = 6"
definition SCHED_RESET_ON_FORK :: int where "SCHED_RESET_ON_FORK = 0x40000000"

lemmas policy_defs = SCHED_NORMAL_def SCHED_FIFO_def SCHED_RR_def SCHED_BATCH_def
  SCHED_IDLE_def SCHED_WRR_def

definition HZ :: u32 where "HZ = 100"
definition RR_TIMESLICE :: u32 where "RR_TIMESLICE = 100 * HZ div 1000"
definition WRR_FG_TIMESLICE :: u32 where "WRR_FG_TIMESLICE = 100 * HZ div 1000"
definition WRR_BG_TIMESLICE :: u32 where "WRR_BG_TIMESLICE = 10 * HZ div 1000"

lemma timeslices:
  "RR_TIMESLICE = 10" "WRR_FG_TIMESLICE = 10" "WRR_BG_TIMESLICE = 1"
  by (simp_all add: RR_TIMESLICE_def WRR_FG_TIMESLICE_def WRR_BG_TIMESLICE_def HZ_def)

definition MAX_USER_RT_PRIO :: int where "MAX_USER_RT_PRIO = 100"
definition MAX_RT_PRIO :: int where "MAX_RT_PRIO = MAX_USER_RT_PRIO"
definition MAX_PRIO :: int where "MAX_PRIO = MAX_RT_PRIO + 40"
definition DEFAULT_PRIO :: int where "DEFAULT_PRIO = MAX_RT_PRIO + 20"

lemmas prio_defs = MAX_USER_RT_PRIO_def MAX_RT_PRIO_def MAX_PRIO_def DEFAULT_PRIO_def

definition RUNTIME_INF :: u64 where "RUNTIME_INF = NOT 0"

definition TASK_RUNNING :: u32 where "TASK_RUNNING = 0"
definition TASK_INTERRUPTIBLE :: u32 where "TASK_INTERRUPTIBLE = 1"
definition TASK_UNINTERRUPTIBLE :: u32 where "TASK_UNINTERRUPTIBLE = 2"
definition TASK_DEAD :: u32 where "TASK_DEAD = 64"
definition TASK_WAKEKILL :: u32 where "TASK_WAKEKILL = 128"
definition TASK_WAKING :: u32 where "TASK_WAKING = 256"
definition TASK_KILLABLE :: u32 where "TASK_KILLABLE = TASK_WAKEKILL OR TASK_UNINTERRUPTIBLE"
definition TASK_NORMAL :: u32 where "TASK_NORMAL = TASK_INTERRUPTIBLE OR TASK_UNINTERRUPTIBLE"

lemmas state_defs = TASK_RUNNING_def TASK_INTERRUPTIBLE_def TASK_UNINTERRUPTIBLE_def
  TASK_DEAD_def TASK_WAKEKILL_def TASK_WAKING_def TASK_KILLABLE_def TASK_NORMAL_def

definition PF_EXITING :: u32 where "PF_EXITING = 0x4"
definition PF_WQ_WORKER :: u32 where "PF_WQ_WORKER = 0x20"
definition PF_FROZEN :: u32 where "PF_FROZEN = 0x10000"
definition PF_THREAD_BOUND :: u32 where "PF_THREAD_BOUND = 0x04000000"

definition ENQUEUE_WAKEUP :: u32 where "ENQUEUE_WAKEUP = 1"
definition ENQUEUE_HEAD :: u32 where "ENQUEUE_HEAD = 2"
definition DEQUEUE_SLEEP :: u32 where "DEQUEUE_SLEEP = 1"
definition WF_SYNC :: u32 where "WF_SYNC = 1"
definition WF_FORK :: u32 where "WF_FORK = 2"
definition ENQUEUE_WAKING :: u32 where "ENQUEUE_WAKING = 4"

definition SD_LOAD_BALANCE :: u32 where "SD_LOAD_BALANCE = 0x0001"
definition SD_BALANCE_NEWIDLE :: u32 where "SD_BALANCE_NEWIDLE = 0x0002"
definition SD_BALANCE_EXEC :: nat where "SD_BALANCE_EXEC = 4"
definition SD_BALANCE_FORK :: nat where "SD_BALANCE_FORK = 8"
definition SD_BALANCE_WAKE :: nat where "SD_BALANCE_WAKE = 16"
definition SD_WAKE_AFFINE :: u32 where "SD_WAKE_AFFINE = 0x0020"
definition SD_SHARE_CPUPOWER :: u32 where "SD_SHARE_CPUPOWER = 0x0080"
definition SD_SHARE_PKG_RESOURCES :: u32 where "SD_SHARE_PKG_RESOURCES = 0x0200"
definition SD_SERIALIZE :: u32 where "SD_SERIALIZE = 0x0400"

definition RLIMIT_NICE :: nat where "RLIMIT_NICE = 13"
definition RLIMIT_RTPRIO :: nat where "RLIMIT_RTPRIO = 14"
definition RLIMIT_RTTIME :: nat where "RLIMIT_RTTIME = 15"
definition RLIM_INFINITY :: u32 where "RLIM_INFINITY = NOT 0"

definition ROOT_TG :: tgid where "ROOT_TG = 0"

definition WF_MIGRATED :: u32 where "WF_MIGRATED = 4"

section \<open>Scheduling classes\<close>

text \<open>
  The five scheduling classes. \<open>sched_class_highest\<close> is the stop class; \<open>.next\<close> of the
  RT class is the WRR class and \<open>.next\<close> of the WRR class is the fair class. The \<open>.next\<close>
  fields of the other three are initialised in files outside the repository.
\<close>

datatype sched_class =
  stop_sched_class | rt_sched_class | wrr_sched_class | fair_sched_class | idle_sched_class

section \<open>Scheduling entities\<close>

record sched_statistics =
  exec_max :: u64
  wait_start :: u64
  sleep_start :: u64
  block_start :: u64
  nr_wakeups :: u64
  nr_wakeups_sync :: u64
  nr_wakeups_migrate :: u64
  nr_wakeups_local :: u64
  nr_wakeups_remote :: u64

record load_weight =
  lw_weight :: u32
  lw_inv_weight :: u32

record sched_entity =
  se_load :: load_weight
  se_on_rq :: bool
  exec_start :: u64
  sum_exec_runtime :: u64
  vruntime :: u64
  prev_sum_exec_runtime :: u64
  nr_migrations :: u64
  statistics :: sched_statistics
  se_group :: "(tgid \<times> cpu) option"   \<comment> \<open>\<open>cfs_rq\<close> and \<open>parent\<close>: those of a group on a cpu\<close>

text \<open>
  An RT runqueue belongs to a group on a cpu; the root group's is \<open>&cpu_rq(cpu)->rt\<close>.
  An RT entity is a task's \<open>&p->rt\<close> or a group's \<open>tg->rt_se[cpu]\<close>.
\<close>

type_synonym rt_rq_ref = "tgid \<times> cpu"

datatype rt_se_ref = Task_se tid | Group_se tgid cpu

record sched_rt_entity =
  rt_timeout :: u32
  rt_time_slice :: u32
  rt_nr_cpus_allowed :: int
  rt_parent :: "rt_se_ref option"
  rt_rq_of :: rt_rq_ref
  rt_my_q :: "rt_rq_ref option"

record sched_wrr_entity =
  wrr_weight :: u32
  wrr_timeout :: u32
  wrr_time_slice :: u32
  wrr_nr_cpus_allowed :: int

section \<open>Tasks\<close>

record task_struct =
  state :: u32
  flags :: u32
  on_cpu :: bool
  on_rq :: bool
  prio :: int
  static_prio :: int
  normal_prio :: int
  rt_priority :: int
  class_of :: sched_class
  se :: sched_entity
  wrr :: sched_wrr_entity
  sched_task_group :: tgid
  policy :: int
  cpus_allowed :: cpumask
  mm :: "nat option"
  active_mm :: "nat option"
  pid :: int
  in_iowait :: bool
  sched_reset_on_fork :: bool
  sched_contributes_to_load :: bool
  task_cpu :: cpu                \<comment> \<open>\<open>task_thread_info(p)->cpu\<close>\<close>
  preempt_count :: nat           \<comment> \<open>\<open>task_thread_info(p)->preempt_count\<close>\<close>
  need_resched :: bool           \<comment> \<open>\<open>TIF_NEED_RESCHED\<close>\<close>
  nvcsw :: u32
  nivcsw :: u32
  sched_exp :: u64               \<comment> \<open>\<open>cputime_expires.sched_exp\<close>\<close>
  sigpending :: bool             \<comment> \<open>\<open>TIF_SIGPENDING\<close>\<close>
  fatal_sigpending :: bool       \<comment> \<open>a pending \<open>SIGKILL\<close>\<close>

section \<open>Runqueues\<close>

record rq =
  nr_running :: u32
  cpu_load :: "nat \<Rightarrow> u32"
  last_load_update_tick :: u32
  skip_clock_update :: int
  rq_load_weight :: u32
  nr_load_updates :: u32
  nr_switches :: u64
  cfs_h_nr_running :: u32
  wrr_nr_running :: u32
  wrr_total_weight :: u32
  nr_uninterruptible :: u32
  curr :: tid
  idle :: tid
  stop :: "tid option"
  prev_mm :: "nat option"
  clock :: u64
  clock_task :: u64
  nr_iowait :: int
  post_schedule :: bool
  idle_balance :: bool
  online :: bool
  rt_avg :: u64
  age_stamp :: u64
  idle_stamp :: u64
  avg_idle :: u64
  calc_load_update :: u32
  calc_load_active :: u32
  yld_count :: u32
  sched_count :: u32
  ttwu_count :: u32
  ttwu_local :: u32
  wake_list :: "tid list"
  leaf_rt_rq_list :: "rt_rq_ref list"

record rt_rq =
  bitmap :: "nat \<Rightarrow> bool"
  rt_nr_running :: u32
  highest_prio_curr :: int
  highest_prio_next :: int
  rt_nr_migratory :: u32
  rt_nr_total :: u32
  is_overloaded :: bool
  pushable_tasks :: "(int \<times> tid) list"   \<comment> \<open>a \<open>plist\<close>: nodes with their priority\<close>
  rt_throttled :: bool
  rt_time :: u64
  rt_runtime :: u64
  rt_nr_boosted :: u32
  rt_tg :: "tgid option"

section \<open>Task groups\<close>

record rt_bandwidth =
  rt_period :: u64
  rtb_runtime :: u64
  rt_period_timer_active :: bool

record task_group =
  tg_cgroup :: "nat option"
  tg_rt_bandwidth :: rt_bandwidth
  tg_parent :: "tgid option"
  tg_children :: "tgid list"
  tg_is_autogroup :: bool

section \<open>CPU accounting groups and the global load\<close>

record cpuacct =
  ca_cpuusage :: "cpu \<Rightarrow> u64"
  ca_parent :: "nat option"

record load_globals =
  calc_load_tasks :: u32           \<comment> \<open>\<open>long\<close>\<close>
  calc_load_next :: u32            \<comment> \<open>the global \<open>calc_load_update\<close>\<close>
  avenrun :: "nat \<Rightarrow> u32"
  calc_load_idle :: "nat \<Rightarrow> u32"
  calc_load_idx :: u32

section \<open>Scheduling domains\<close>

record sched_domain =
  sd_flags :: u32
  sd_span :: cpumask
  sd_one_group :: bool             \<comment> \<open>\<open>groups == groups->next\<close>\<close>

section \<open>The kernel state\<close>

text \<open>
  There is one root domain; \<open>rd_span\<close>, \<open>rd_online\<close>, \<open>rto_mask\<close>, \<open>rto_count\<close> and \<open>cpupri\<close> are its
  fields. \<open>bug\<close> records that a \<open>BUG_ON\<close> has fired: what the code does afterwards has no
  meaning. \<open>threads\<close> is the list that \<open>do_each_thread\<close> walks.

  \<open>this_cpu\<close> is \<open>smp_processor_id()\<close>: the processor the code runs on.
  \<open>sched_clock\<close> is what the clock of each cpu shows, \<open>jiffies\<close> the tick counter.
  \<open>cpupri\<close> is the priority last announced for a cpu by \<open>cpupri_set\<close>.
  \<open>ext_state\<close> is the state of the classes and subsystems outside the repository.
\<close>

record 'x kernel =
  tasks :: "tid \<Rightarrow> task_struct"
  rqs :: "cpu \<Rightarrow> rq"
  wrr_q :: "(cpu, tid) lists"
  rt_q :: "(rt_rq_ref \<times> nat, rt_se_ref) lists"
  rt_rqs :: "rt_rq_ref \<Rightarrow> rt_rq"
  rt_ses :: "rt_se_ref \<Rightarrow> sched_rt_entity"
  tgs :: "tgid \<Rightarrow> task_group"
  task_groups :: "tgid list"
  cas :: "nat \<Rightarrow> cpuacct"
  task_ca :: "tid \<Rightarrow> nat option"
  cpuacct_active :: bool
  load_globals :: load_globals
  this_cpu :: cpu
  sched_clock :: "cpu \<Rightarrow> u64"
  jiffies :: u32
  cpu_online_mask :: cpumask
  cpu_active_mask :: cpumask
  cpupri :: "cpu \<Rightarrow> int"
  rto_mask :: cpumask
  rto_count :: int
  rd_span :: cpumask
  rd_online :: cpumask
  sched_doms :: "cpu \<Rightarrow> sched_domain list"   \<comment> \<open>from the lowest domain up\<close>
  scheduler_running :: bool
  bug :: bool
  threads :: "tid list"
  def_rt_bandwidth :: rt_bandwidth
  sysctl_sched_rt_period :: int
  sysctl_sched_rt_runtime :: int
  ext_state :: 'x

text \<open>
  The operations of a scheduling class outside the repository; an operation the class leaves
  \<open>NULL\<close> is one that does nothing.
\<close>

record 'x class_ops =
  op_enqueue_task :: "cpu \<Rightarrow> tid \<Rightarrow> u32 \<Rightarrow> 'x kernel \<Rightarrow> 'x kernel"
  op_dequeue_task :: "cpu \<Rightarrow> tid \<Rightarrow> u32 \<Rightarrow> 'x kernel \<Rightarrow> 'x kernel"
  op_yield_task :: "cpu \<Rightarrow> 'x kernel \<Rightarrow> 'x kernel"
  op_check_preempt_curr :: "cpu \<Rightarrow> tid \<Rightarrow> u32 \<Rightarrow> 'x kernel \<Rightarrow> 'x kernel"
  op_pick_next_task :: "cpu \<Rightarrow> 'x kernel \<Rightarrow> tid option \<times> 'x kernel"
  op_put_prev_task :: "cpu \<Rightarrow> tid \<Rightarrow> 'x kernel \<Rightarrow> 'x kernel"
  op_set_curr_task :: "cpu \<Rightarrow> 'x kernel \<Rightarrow> 'x kernel"
  op_task_tick :: "cpu \<Rightarrow> tid \<Rightarrow> int \<Rightarrow> 'x kernel \<Rightarrow> 'x kernel"
  op_task_fork :: "tid \<Rightarrow> 'x kernel \<Rightarrow> 'x kernel"
  op_select_task_rq :: "tid \<Rightarrow> nat \<Rightarrow> u32 \<Rightarrow> 'x kernel \<Rightarrow> cpu"
  op_task_waking :: "tid \<Rightarrow> 'x kernel \<Rightarrow> 'x kernel"
  op_switched_from :: "cpu \<Rightarrow> tid \<Rightarrow> 'x kernel \<Rightarrow> 'x kernel"
  op_switched_to :: "cpu \<Rightarrow> tid \<Rightarrow> 'x kernel \<Rightarrow> 'x kernel"
  op_prio_changed :: "cpu \<Rightarrow> tid \<Rightarrow> int \<Rightarrow> 'x kernel \<Rightarrow> 'x kernel"
  op_get_rr_interval :: "cpu \<Rightarrow> tid \<Rightarrow> 'x kernel \<Rightarrow> u32"
  op_task_woken :: "cpu \<Rightarrow> tid \<Rightarrow> 'x kernel \<Rightarrow> 'x kernel"
  op_pre_schedule :: "cpu \<Rightarrow> tid \<Rightarrow> 'x kernel \<Rightarrow> 'x kernel"
  op_post_schedule :: "cpu \<Rightarrow> 'x kernel \<Rightarrow> 'x kernel"
  op_set_cpus_allowed :: "tid \<Rightarrow> cpumask \<Rightarrow> 'x kernel \<Rightarrow> 'x kernel"
  op_rq_online :: "cpu \<Rightarrow> 'x kernel \<Rightarrow> 'x kernel"
  op_rq_offline :: "cpu \<Rightarrow> 'x kernel \<Rightarrow> 'x kernel"
  op_task_move_group :: "tid \<Rightarrow> bool \<Rightarrow> 'x kernel \<Rightarrow> 'x kernel"

text \<open>
  The configuration and the code outside the repository. \<open>autogroup_path\<close> and
  \<open>cgroup_path\<close> fill the 1024-byte buffer they are given; the first returns the length
  written, 0 for a group that is not an autogroup. \<open>uninit\<close> is what the uninitialised
  buffer on the stack holds. \<open>rlim p r\<close> and \<open>rlim_max p r\<close> are the soft and hard limit \<open>r\<close>
  of \<open>p\<close>; \<open>cpupri_find\<close> returns the cpus it would put into the mask; \<open>newidle_balance\<close> is
  the fair class's \<open>idle_balance\<close>; \<open>wq_worker_sleeping\<close> may name a task to wake.
\<close>

record 'x env =
  config_smp :: bool
  nr_cpu_ids :: nat
  class_next_ext :: "sched_class \<Rightarrow> sched_class option"
  class_ext :: "sched_class \<Rightarrow> 'x class_ops"
  autogroup_path :: "tgid \<Rightarrow> string \<Rightarrow> nat \<times> string"
  cgroup_path :: "nat option \<Rightarrow> string \<Rightarrow> string"
  uninit :: string
  cpupri_find :: "(cpu \<Rightarrow> int) \<Rightarrow> tid \<Rightarrow> 'x kernel \<Rightarrow> cpu list"
  feat_rt_runtime_share :: bool
  feat_ttwu_queue :: bool
  rlim :: "tid \<Rightarrow> nat \<Rightarrow> u32"
  rlim_max :: "tid \<Rightarrow> nat \<Rightarrow> u32"
  cpu_possible_mask :: cpumask
  node_mask :: "cpu \<Rightarrow> cpumask"
  cpuset_cpus_allowed_fallback :: "tid \<Rightarrow> 'x kernel \<Rightarrow> 'x kernel"
  sd_llc_id :: "cpu \<Rightarrow> nat"
  wq_worker_waking_up :: "tid \<Rightarrow> cpu \<Rightarrow> 'x \<Rightarrow> 'x"
  wq_worker_sleeping :: "tid \<Rightarrow> cpu \<Rightarrow> 'x \<Rightarrow> tid option"
  sched_migration_cost :: u64
  newidle_balance :: "cpu \<Rightarrow> 'x kernel \<Rightarrow> 'x kernel"
  trigger_load_balance :: "cpu \<Rightarrow> 'x kernel \<Rightarrow> 'x kernel"
  account_group_exec_runtime :: "tid \<Rightarrow> u64 \<Rightarrow> 'x \<Rightarrow> 'x"

end
