(* ===== verification/Kernel_State.thy ===== *)
theory Kernel_State
  imports Sched_Types
begin

text \<open>
  Reading and writing the kernel state, and the small helpers of the headers that every
  component uses: \<open>rt_prio\<close>, \<open>rt_task\<close>, \<open>rt_policy\<close>, \<open>task_contributes_to_load\<close>,
  \<open>task_running\<close>, the runqueue counters, \<open>NICE_TO_PRIO\<close> and the order of the classes.
  Spin locks, memory barriers, \<open>printk\<close>, tracing and lockdep have no effect on the state
  modelled here and are not represented: an operation is what it does under its locks.
\<close>

section \<open>Updates of one structure\<close>

abbreviation upd_task :: "tid \<Rightarrow> (task_struct \<Rightarrow> task_struct) \<Rightarrow> 'x kernel \<Rightarrow> 'x kernel" where
  "upd_task p f \<equiv> tasks_update (\<lambda>t. t(p := f (t p)))"

abbreviation upd_rq :: "cpu \<Rightarrow> (rq \<Rightarrow> rq) \<Rightarrow> 'x kernel \<Rightarrow> 'x kernel" where
  "upd_rq c f \<equiv> rqs_update (\<lambda>r. r(c := f (r c)))"

abbreviation upd_rt_rq :: "rt_rq_ref \<Rightarrow> (rt_rq \<Rightarrow> rt_rq) \<Rightarrow> 'x kernel \<Rightarrow> 'x kernel" where
  "upd_rt_rq r f \<equiv> rt_rqs_update (\<lambda>m. m(r := f (m r)))"

abbreviation upd_rt_se :: "rt_se_ref \<Rightarrow> (sched_rt_entity \<Rightarrow> sched_rt_entity) \<Rightarrow> 'x kernel \<Rightarrow> 'x kernel" where
  "upd_rt_se s f \<equiv> rt_ses_update (\<lambda>m. m(s := f (m s)))"

abbreviation upd_tg :: "tgid \<Rightarrow> (task_group \<Rightarrow> task_group) \<Rightarrow> 'x kernel \<Rightarrow> 'x kernel" where
  "upd_tg g f \<equiv> tgs_update (\<lambda>m. m(g := f (m g)))"

abbreviation curr_of :: "'x kernel \<Rightarrow> cpu \<Rightarrow> tid" where
  "curr_of k c \<equiv> curr (rqs k c)"

text \<open>\<open>current\<close>: the task running on this processor.\<close>

abbreviation current :: "'x kernel \<Rightarrow> tid" where
  "current k \<equiv> curr_of k (this_cpu k)"

section \<open>CPU masks\<close>

definition for_each_cpu :: "'x env \<Rightarrow> cpumask \<Rightarrow> cpu list" where
  "for_each_cpu env m = filter m [0..<nr_cpu_ids env]"

definition cpumask_weight :: "'x env \<Rightarrow> cpumask \<Rightarrow> int" where
  "cpumask_weight env m = int (length (for_each_cpu env m))"

lemma set_for_each_cpu [simp]: "set (for_each_cpu env m) = {c. c < nr_cpu_ids env \<and> m c}"
  by (auto simp: for_each_cpu_def)

lemma distinct_for_each_cpu [simp]: "distinct (for_each_cpu env m)"
  by (simp add: for_each_cpu_def)

section \<open>Priorities and policies\<close>

definition rt_prio :: "int \<Rightarrow> bool" where
  "rt_prio p \<longleftrightarrow> p < MAX_RT_PRIO"

definition rt_task :: "'x kernel \<Rightarrow> tid \<Rightarrow> bool" where
  "rt_task k p \<longleftrightarrow> rt_prio (prio (tasks k p))"

definition rt_policy :: "int \<Rightarrow> bool" where
  "rt_policy pol \<longleftrightarrow> pol = SCHED_FIFO \<or> pol = SCHED_RR"

definition task_has_rt_policy :: "'x kernel \<Rightarrow> tid \<Rightarrow> bool" where
  "task_has_rt_policy k p \<longleftrightarrow> rt_policy (policy (tasks k p))"

definition NICE_TO_PRIO :: "int \<Rightarrow> int" where
  "NICE_TO_PRIO nice = MAX_RT_PRIO + nice + 20"

definition PRIO_TO_NICE :: "int \<Rightarrow> int" where
  "PRIO_TO_NICE p = p - MAX_RT_PRIO - 20"

definition TASK_NICE :: "'x kernel \<Rightarrow> tid \<Rightarrow> int" where
  "TASK_NICE k p = PRIO_TO_NICE (static_prio (tasks k p))"

definition task_contributes_to_load :: "'x kernel \<Rightarrow> tid \<Rightarrow> bool" where
  "task_contributes_to_load k p \<longleftrightarrow>
     state (tasks k p) AND TASK_UNINTERRUPTIBLE \<noteq> 0 \<and> flags (tasks k p) AND PF_FROZEN = 0"

definition rt_bandwidth_enabled :: "'x kernel \<Rightarrow> bool" where
  "rt_bandwidth_enabled k \<longleftrightarrow> 0 \<le> sysctl_sched_rt_runtime k"

definition global_rt_period :: "'x kernel \<Rightarrow> u64" where
  "global_rt_period k = of_int (sysctl_sched_rt_period k) * 1000"

definition global_rt_runtime :: "'x kernel \<Rightarrow> u64" where
  "global_rt_runtime k =
     (if sysctl_sched_rt_runtime k < 0 then RUNTIME_INF
      else of_int (sysctl_sched_rt_runtime k) * 1000)"

section \<open>Tasks on runqueues\<close>

definition task_current :: "cpu \<Rightarrow> tid \<Rightarrow> 'x kernel \<Rightarrow> bool" where
  "task_current c p k \<longleftrightarrow> curr (rqs k c) = p"

definition task_running :: "'x env \<Rightarrow> cpu \<Rightarrow> tid \<Rightarrow> 'x kernel \<Rightarrow> bool" where
  "task_running env c p k \<longleftrightarrow> (if config_smp env then on_cpu (tasks k p) else task_current c p k)"

definition inc_nr_running :: "cpu \<Rightarrow> 'x kernel \<Rightarrow> 'x kernel" where
  "inc_nr_running c = upd_rq c (\<lambda>r. r\<lparr>nr_running := nr_running r + 1\<rparr>)"

definition dec_nr_running :: "cpu \<Rightarrow> 'x kernel \<Rightarrow> 'x kernel" where
  "dec_nr_running c = upd_rq c (\<lambda>r. r\<lparr>nr_running := nr_running r - 1\<rparr>)"

text \<open>
  \<open>resched_task\<close>. On SMP the flag is only set when it is not set already, and the other
  cpu is sent an interrupt; the flag is the state.
\<close>

definition resched_task :: "tid \<Rightarrow> 'x kernel \<Rightarrow> 'x kernel" where
  "resched_task p = upd_task p (\<lambda>t. t\<lparr>need_resched := True\<rparr>)"

section \<open>The buffer with the path of a task's group\<close>

text \<open>
  The block that fills \<open>group_path\<close>, which the sources repeat before every test of the
  group's name. The 1024-byte buffer starts uninitialised.
\<close>

definition read_group_path :: "'x env \<Rightarrow> tgid \<Rightarrow> 'x kernel \<Rightarrow> string" where
  "read_group_path env tg k =
     (let (n, buf) = autogroup_path env tg (uninit env) in
      if n = 0 then
        let buf = (if tg_cgroup (tgs k tg) = None then buf[0 := CHR 0x00] else buf) in
        cgroup_path env (tg_cgroup (tgs k tg)) buf
      else buf)"

text \<open>\<open>group_path[1] == 'b'\<close>, the sources' test for the background group.\<close>

definition path_bg :: "string \<Rightarrow> bool" where
  "path_bg path \<longleftrightarrow> path ! 1 = CHR ''b''"

abbreviation task_bg :: "'x env \<Rightarrow> tid \<Rightarrow> 'x kernel \<Rightarrow> bool" where
  "task_bg env p k \<equiv> path_bg (read_group_path env (sched_task_group (tasks k p)) k)"

lemma read_group_path_cong:
  "tgs k = tgs k' \<Longrightarrow> read_group_path env tg k = read_group_path env tg k'"
  by (auto simp: read_group_path_def split: prod.splits)

section \<open>The order of the scheduling classes\<close>

definition class_next :: "'x env \<Rightarrow> sched_class \<Rightarrow> sched_class option" where
  "class_next env c =
     (case c of
        rt_sched_class \<Rightarrow> Some wrr_sched_class
      | wrr_sched_class \<Rightarrow> Some fair_sched_class
      | _ \<Rightarrow> class_next_ext env c)"

text \<open>
  \<open>for_each_class\<close> walks the \<open>.next\<close> chain from the stop class. There are five classes,
  so a chain without a cycle ends within five steps.
\<close>

fun class_chain :: "nat \<Rightarrow> 'x env \<Rightarrow> sched_class \<Rightarrow> sched_class list" where
  "class_chain 0 env c = []"
| "class_chain (Suc n) env c =
     c # (case class_next env c of None \<Rightarrow> [] | Some c' \<Rightarrow> class_chain n env c')"

definition for_each_class :: "'x env \<Rightarrow> sched_class list" where
  "for_each_class env = class_chain 5 env stop_sched_class"

text \<open>What the files outside the repository initialise \<open>.next\<close> to.\<close>

definition linux_class_order :: "'x env \<Rightarrow> bool" where
  "linux_class_order env \<longleftrightarrow>
     class_next_ext env stop_sched_class = Some rt_sched_class
     \<and> class_next_ext env fair_sched_class = Some idle_sched_class
     \<and> class_next_ext env idle_sched_class = None"

lemma for_each_class_linux:
  "linux_class_order env \<Longrightarrow> for_each_class env =
     [stop_sched_class, rt_sched_class, wrr_sched_class, fair_sched_class, idle_sched_class]"
  by (simp add: linux_class_order_def for_each_class_def eval_nat_numeral class_next_def)

text \<open>The classes ordered by precedence: a class is above those after it in the chain.\<close>

fun class_rank :: "sched_class \<Rightarrow> nat" where
  "class_rank idle_sched_class = 0"
| "class_rank fair_sched_class = 1"
| "class_rank wrr_sched_class = 2"
| "class_rank rt_sched_class = 3"
| "class_rank stop_sched_class = 4"

lemma class_rank_inj: "class_rank a = class_rank b \<Longrightarrow> a = b"
  by (cases a; cases b) simp_all

instantiation sched_class :: linorder
begin

definition less_eq_sched_class :: "sched_class \<Rightarrow> sched_class \<Rightarrow> bool" where
  "a \<le> b \<longleftrightarrow> class_rank a \<le> class_rank b"

definition less_sched_class :: "sched_class \<Rightarrow> sched_class \<Rightarrow> bool" where
  "a < b \<longleftrightarrow> class_rank a < class_rank b"

instance
  by standard (auto simp: less_eq_sched_class_def less_sched_class_def dest: class_rank_inj)

end

lemmas class_order_defs = less_eq_sched_class_def less_sched_class_def

end
