(* ===== verification/Cpuacct.thy ===== *)
theory Cpuacct
  imports Kernel_State
begin

text \<open>
  CPU accounting groups (\<open>kernel/sched/core.c\<close>): the execution time of a task is charged
  to its group and to every ancestor of the group, per cpu. Groups are numbered in the order
  of their creation, so the number of a group bounds the length of its chain of ancestors.
\<close>

section \<open>Chains of ancestors\<close>

fun ancestors :: "nat \<Rightarrow> ('a \<Rightarrow> 'a option) \<Rightarrow> 'a option \<Rightarrow> 'a list" where
  "ancestors 0 par a = []"
| "ancestors (Suc n) par None = []"
| "ancestors (Suc n) par (Some a) = a # ancestors n par (par a)"

lemma ancestors_None [simp]: "ancestors n par None = []"
  by (cases n) simp_all

text \<open>More steps than the chain is long change nothing.\<close>

lemma ancestors_enough:
  assumes dec: "\<And>a b. par a = Some b \<Longrightarrow> b < (a :: nat)"
  shows "\<lbrakk>a < n; n \<le> m\<rbrakk> \<Longrightarrow> ancestors m par (Some a) = ancestors n par (Some a)"
proof (induction n arbitrary: a m)
  case 0
  then show ?case by simp
next
  case (Suc n)
  then obtain m' where m: "m = Suc m'" "n \<le> m'" by (cases m) auto
  show ?case
  proof (cases "par a")
    case None
    with m show ?thesis by simp
  next
    case (Some b)
    with dec [of a b] Suc.prems have "b < n" by linarith
    then have "ancestors m' par (Some b) = ancestors n par (Some b)"
      using Suc.IH m(2) by blast
    with m(1) Some show ?thesis by simp
  qed
qed

lemma ancestors_bounded:
  assumes dec: "\<And>a b. par a = Some b \<Longrightarrow> b < (a :: nat)"
  shows "x \<in> set (ancestors n par (Some a)) \<Longrightarrow> x \<le> a"
proof (induction n arbitrary: a)
  case 0
  then show ?case by simp
next
  case (Suc n)
  show ?case
  proof (cases "par a")
    case None
    with Suc.prems show ?thesis by simp
  next
    case (Some b)
    with dec [of a b] Suc show ?thesis by fastforce
  qed
qed

lemma distinct_ancestors:
  assumes dec: "\<And>a b. par a = Some b \<Longrightarrow> b < (a :: nat)"
  shows "distinct (ancestors n par (Some a))"
proof (induction n arbitrary: a)
  case 0
  then show ?case by simp
next
  case (Suc n)
  have "a \<notin> set (ancestors n par (par a))"
  proof (cases "par a")
    case (Some b)
    then show ?thesis using ancestors_bounded [of par, OF dec] dec by fastforce
  qed simp
  then show ?case using Suc by (cases "par a") auto
qed

section \<open>Charging\<close>

text \<open>\<open>for (; ca; ca = parent_ca(ca)) { *per_cpu_ptr(ca->cpuusage, cpu) += cputime; }\<close>\<close>

definition charge_one :: "cpu \<Rightarrow> u64 \<Rightarrow> nat \<Rightarrow> 'x kernel \<Rightarrow> 'x kernel" where
  "charge_one cpu cputime ca =
     cas_update (\<lambda>m. m(ca := (m ca)
       \<lparr>ca_cpuusage := (ca_cpuusage (m ca))(cpu := ca_cpuusage (m ca) cpu + cputime)\<rparr>))"

definition ca_chain :: "'x kernel \<Rightarrow> nat option \<Rightarrow> nat list" where
  "ca_chain k ca =
     (case ca of None \<Rightarrow> []
      | Some a \<Rightarrow> ancestors (Suc a) (\<lambda>a. ca_parent (cas k a)) (Some a))"

definition cpuacct_charge :: "tid \<Rightarrow> u64 \<Rightarrow> 'x kernel \<Rightarrow> 'x kernel" where
  "cpuacct_charge tsk cputime k =
     (if \<not> cpuacct_active k then k
      else fold (charge_one (task_cpu (tasks k tsk)) cputime) (ca_chain k (task_ca k tsk)) k)"

text \<open>Only the accounting groups change.\<close>

lemma charge_one_frame [simp, frame]:
  "tasks (charge_one c d a k) = tasks k" "rqs (charge_one c d a k) = rqs k"
  "wrr_q (charge_one c d a k) = wrr_q k" "rt_q (charge_one c d a k) = rt_q k"
  "rt_rqs (charge_one c d a k) = rt_rqs k" "rt_ses (charge_one c d a k) = rt_ses k"
  "tgs (charge_one c d a k) = tgs k"
  by (simp_all add: charge_one_def)

lemma fold_charge_is_cas_update:
  "\<exists>f. fold (charge_one c d) as k = cas_update f k"
proof (induction as arbitrary: k)
  case Nil
  have "fold (charge_one c d) [] k = cas_update (\<lambda>m. m) k" by simp
  then show ?case by blast
next
  case (Cons a as)
  obtain f where "fold (charge_one c d) as (charge_one c d a k) = cas_update f (charge_one c d a k)"
    using Cons by blast
  then have "fold (charge_one c d) (a # as) k = cas_update f (charge_one c d a k)" by simp
  moreover obtain g where "charge_one c d a k = cas_update g k"
    unfolding charge_one_def by blast
  ultimately have "fold (charge_one c d) (a # as) k = cas_update (f \<circ> g) k" by simp
  then show ?case by blast
qed

lemma cpuacct_charge_is_cas_update: "\<exists>f. cpuacct_charge p d k = cas_update f k"
proof (cases "cpuacct_active k")
  case True
  then show ?thesis by (simp add: cpuacct_charge_def fold_charge_is_cas_update)
next
  case False
  have "k = cas_update (\<lambda>m. m) k" by simp
  with False show ?thesis unfolding cpuacct_charge_def by metis
qed

lemma cpuacct_charge_frame [simp, frame]:
  "tasks (cpuacct_charge p d k) = tasks k" "rqs (cpuacct_charge p d k) = rqs k"
  "wrr_q (cpuacct_charge p d k) = wrr_q k" "rt_q (cpuacct_charge p d k) = rt_q k"
  "rt_rqs (cpuacct_charge p d k) = rt_rqs k" "rt_ses (cpuacct_charge p d k) = rt_ses k"
  "tgs (cpuacct_charge p d k) = tgs k" "this_cpu (cpuacct_charge p d k) = this_cpu k"
  "cpu_online_mask (cpuacct_charge p d k) = cpu_online_mask k"
  "cpu_active_mask (cpuacct_charge p d k) = cpu_active_mask k"
  "sched_clock (cpuacct_charge p d k) = sched_clock k"
  "jiffies (cpuacct_charge p d k) = jiffies k"
  "sysctl_sched_rt_runtime (cpuacct_charge p d k) = sysctl_sched_rt_runtime k"
  "sysctl_sched_rt_period (cpuacct_charge p d k) = sysctl_sched_rt_period k"
  "task_groups (cpuacct_charge p d k) = task_groups k"
  "cpupri (cpuacct_charge p d k) = cpupri k"
  "rto_mask (cpuacct_charge p d k) = rto_mask k" "rto_count (cpuacct_charge p d k) = rto_count k"
  "ext_state (cpuacct_charge p d k) = ext_state k"
  "load_globals (cpuacct_charge p d k) = load_globals k"
  using cpuacct_charge_is_cas_update [of p d k] by auto

text \<open>Every group of the chain is charged once, on the task's cpu; nothing else is.\<close>

lemma charge_one_usage:
  "ca_cpuusage (cas (charge_one c d a k) b) c' =
     ca_cpuusage (cas k b) c' + (if b = a \<and> c' = c then d else 0)"
  by (auto simp: charge_one_def)

lemma fold_charge_usage:
  "distinct as \<Longrightarrow> ca_cpuusage (cas (fold (charge_one c d) as k) b) c' =
     ca_cpuusage (cas k b) c' + (if b \<in> set as \<and> c' = c then d else 0)"
  by (induction as arbitrary: k) (auto simp: charge_one_usage)

definition cas_wf :: "'x kernel \<Rightarrow> bool" where
  "cas_wf k \<longleftrightarrow> (\<forall>a b. ca_parent (cas k a) = Some b \<longrightarrow> b < a)"

lemma distinct_ca_chain: "cas_wf k \<Longrightarrow> distinct (ca_chain k ca)"
  unfolding ca_chain_def cas_wf_def
  by (auto simp del: ancestors.simps split: option.splits intro!: distinct_ancestors)

lemma cpuacct_charge_usage:
  assumes "cas_wf k" "cpuacct_active k"
  shows "ca_cpuusage (cas (cpuacct_charge p d k) b) c =
     ca_cpuusage (cas k b) c +
     (if b \<in> set (ca_chain k (task_ca k p)) \<and> c = task_cpu (tasks k p) then d else 0)"
  using assms by (simp add: cpuacct_charge_def fold_charge_usage distinct_ca_chain)

end
