(* ===== verification/Wrr_Class.thy ===== *)
theory Wrr_Class
  imports Cpuacct
begin

text \<open>
  The weighted round-robin class, operation by operation, as
  \<open>Project2/goldfish/kernel/sched/wrr.c\<close> has it. A runqueue is given by its cpu; \<open>printk\<close>
  and the paths it prints are left out. The balancer \<open>pull_wrr_task\<close> calls back into the
  core scheduler and is in \<open>Sched_Balance\<close>.
\<close>

abbreviation upd_wrr :: "tid \<Rightarrow> (sched_wrr_entity \<Rightarrow> sched_wrr_entity) \<Rightarrow> 'x kernel \<Rightarrow> 'x kernel" where
  "upd_wrr p f \<equiv> upd_task p (\<lambda>t. t\<lparr>wrr := f (wrr t)\<rparr>)"

abbreviation upd_se :: "tid \<Rightarrow> (sched_entity \<Rightarrow> sched_entity) \<Rightarrow> 'x kernel \<Rightarrow> 'x kernel" where
  "upd_se p f \<equiv> upd_task p (\<lambda>t. t\<lparr>se := f (se t)\<rparr>)"

section \<open>Choosing a runqueue\<close>

text \<open>
  \<open>select_task_rq_wrr\<close>: among the online cpus the task may use, the first with the least
  total weight, if that is less than the weight on the task's own cpu. The weights are
  compared as C \<open>int\<close>s.
\<close>

definition select_step :: "'x kernel \<Rightarrow> tid \<Rightarrow> cpu \<times> int \<Rightarrow> cpu \<Rightarrow> cpu \<times> int" where
  "select_step k p st c =
     (case st of (result, minimum_weight) \<Rightarrow>
        if \<not> cpus_allowed (tasks k p) c then st
        else let temp = sint (wrr_total_weight (rqs k c)) in
          if temp < minimum_weight then (c, temp) else st)"

definition select_task_rq_wrr :: "'x env \<Rightarrow> tid \<Rightarrow> nat \<Rightarrow> u32 \<Rightarrow> 'x kernel \<Rightarrow> cpu" where
  "select_task_rq_wrr env p sd_flag wake_flags k =
     (let result = task_cpu (tasks k p) in
      if wrr_nr_cpus_allowed (wrr (tasks k p)) = 1 then result
      else fst (foldl (select_step k p) (result, sint (wrr_total_weight (rqs k result)))
                  (for_each_cpu env (cpu_online_mask k))))"

section \<open>Accounting\<close>

text \<open>\<open>update_curr_wrr\<close>: charge the current task, if it is of this class, for the time since
  \<open>exec_start\<close>, and restart its clock.\<close>

definition exec_delta :: "cpu \<Rightarrow> 'x kernel \<Rightarrow> u64" where
  "exec_delta c k =
     (let delta_exec = clock_task (rqs k c) - exec_start (se (tasks k (curr_of k c))) in
      if s64_neg delta_exec then 0 else delta_exec)"

definition account_exec :: "'x env \<Rightarrow> cpu \<Rightarrow> u64 \<Rightarrow> 'x kernel \<Rightarrow> 'x kernel" where
  "account_exec env c delta_exec k =
     (let p = curr_of k c;
          k = upd_se p (\<lambda>e. e\<lparr>statistics := (statistics e)
                 \<lparr>exec_max := max (exec_max (statistics e)) delta_exec\<rparr>\<rparr>) k;
          k = upd_se p (\<lambda>e. e\<lparr>sum_exec_runtime := sum_exec_runtime e + delta_exec\<rparr>) k;
          k = ext_state_update (account_group_exec_runtime env p delta_exec) k;
          k = upd_se p (\<lambda>e. e\<lparr>exec_start := clock_task (rqs k c)\<rparr>) k
      in cpuacct_charge p delta_exec k)"

definition update_curr_wrr :: "'x env \<Rightarrow> cpu \<Rightarrow> 'x kernel \<Rightarrow> 'x kernel" where
  "update_curr_wrr env c k =
     (if class_of (tasks k (curr_of k c)) \<noteq> wrr_sched_class then k
      else account_exec env c (exec_delta c k) k)"

definition check_preempt_curr_wrr :: "cpu \<Rightarrow> tid \<Rightarrow> u32 \<Rightarrow> 'x kernel \<Rightarrow> 'x kernel" where
  "check_preempt_curr_wrr c p fl k = k"

section \<open>Picking, enqueueing, dequeueing\<close>

definition pick_next_task_wrr :: "cpu \<Rightarrow> 'x kernel \<Rightarrow> tid option" where
  "pick_next_task_wrr c k =
     (if wrr_nr_running (rqs k c) = 0 then None else Some (hd (elems (wrr_q k) c)))"

text \<open>
  \<open>enqueue_wrr_entity\<close>: a task of the background group is given weight 1 and the short
  slice, any other task weight 10 and the long slice, when its weight says otherwise; then
  it is queued and counted.
\<close>

definition refresh_group :: "'x env \<Rightarrow> tid \<Rightarrow> 'x kernel \<Rightarrow> 'x kernel" where
  "refresh_group env p k =
     (let bg = task_bg env p k; w = wrr_weight (wrr (tasks k p)) in
      if bg \<and> w \<noteq> 1 then
        upd_wrr p (\<lambda>e. e\<lparr>wrr_time_slice := WRR_BG_TIMESLICE, wrr_weight := 1\<rparr>) k
      else if \<not> bg \<and> w \<noteq> 10 then
        upd_wrr p (\<lambda>e. e\<lparr>wrr_time_slice := WRR_FG_TIMESLICE, wrr_weight := 10\<rparr>) k
      else k)"

definition enqueue_wrr_entity :: "'x env \<Rightarrow> cpu \<Rightarrow> tid \<Rightarrow> bool \<Rightarrow> 'x kernel \<Rightarrow> 'x kernel" where
  "enqueue_wrr_entity env c p head k =
     (let k = refresh_group env p k;
          k = wrr_q_update (if head then list_add p c else list_add_tail p c) k;
          k = upd_rq c (\<lambda>r. r\<lparr>wrr_total_weight := wrr_total_weight r + wrr_weight (wrr (tasks k p))\<rparr>) k
      in upd_rq c (\<lambda>r. r\<lparr>wrr_nr_running := wrr_nr_running r + 1\<rparr>) k)"

definition dequeue_wrr_entity :: "cpu \<Rightarrow> tid \<Rightarrow> 'x kernel \<Rightarrow> 'x kernel" where
  "dequeue_wrr_entity c p k =
     (let k = wrr_q_update (list_del_init p) k;
          k = upd_rq c (\<lambda>r. r\<lparr>wrr_total_weight := wrr_total_weight r - wrr_weight (wrr (tasks k p))\<rparr>) k
      in upd_rq c (\<lambda>r. r\<lparr>wrr_nr_running := wrr_nr_running r - 1\<rparr>) k)"

definition enqueue_task_wrr :: "'x env \<Rightarrow> cpu \<Rightarrow> tid \<Rightarrow> u32 \<Rightarrow> 'x kernel \<Rightarrow> 'x kernel" where
  "enqueue_task_wrr env c p fl k =
     inc_nr_running c (enqueue_wrr_entity env c p (fl AND ENQUEUE_HEAD \<noteq> 0) k)"

definition dequeue_task_wrr :: "'x env \<Rightarrow> cpu \<Rightarrow> tid \<Rightarrow> u32 \<Rightarrow> 'x kernel \<Rightarrow> 'x kernel" where
  "dequeue_task_wrr env c p fl k =
     dec_nr_running c (dequeue_wrr_entity c p (update_curr_wrr env c k))"

definition init_wrr_rq :: "cpu \<Rightarrow> 'x kernel \<Rightarrow> 'x kernel" where
  "init_wrr_rq c k =
     upd_rq c (\<lambda>r. r\<lparr>wrr_nr_running := 0, wrr_total_weight := 0\<rparr>)
       (wrr_q_update (init_list_head c) k)"

section \<open>Requeueing, yielding, ticking\<close>

definition requeue_task_wrr :: "cpu \<Rightarrow> tid \<Rightarrow> int \<Rightarrow> 'x kernel \<Rightarrow> 'x kernel" where
  "requeue_task_wrr c p head =
     wrr_q_update (if head \<noteq> 0 then list_move p c else list_move_tail p c)"

definition yield_task_wrr :: "cpu \<Rightarrow> 'x kernel \<Rightarrow> 'x kernel" where
  "yield_task_wrr c k = requeue_task_wrr c (curr_of k c) 0 k"

definition put_prev_task_wrr :: "'x env \<Rightarrow> cpu \<Rightarrow> tid \<Rightarrow> 'x kernel \<Rightarrow> 'x kernel" where
  "put_prev_task_wrr env c prev k =
     upd_se prev (\<lambda>e. e\<lparr>exec_start := 0\<rparr>) (update_curr_wrr env c k)"

text \<open>
  \<open>task_tick_wrr\<close>: \<open>time_slice\<close> is an \<open>unsigned int\<close>; the decrement wraps at 0.
\<close>

definition task_tick_wrr :: "'x env \<Rightarrow> cpu \<Rightarrow> tid \<Rightarrow> int \<Rightarrow> 'x kernel \<Rightarrow> 'x kernel" where
  "task_tick_wrr env c p queued k =
     (let k = update_curr_wrr env c k;
          k = upd_wrr p (\<lambda>e. e\<lparr>wrr_time_slice := wrr_time_slice e - 1\<rparr>) k in
      if wrr_time_slice (wrr (tasks k p)) \<noteq> 0 then k
      else
        let k = upd_wrr p (\<lambda>e. e\<lparr>wrr_time_slice :=
                  (if wrr_weight e = 1 then WRR_BG_TIMESLICE else WRR_FG_TIMESLICE)\<rparr>) k in
        if link_prev p (wrr_q k) \<noteq> link_next p (wrr_q k)
        then resched_task p (requeue_task_wrr c p 0 k)
        else k)"

definition set_curr_task_wrr :: "cpu \<Rightarrow> 'x kernel \<Rightarrow> 'x kernel" where
  "set_curr_task_wrr c k =
     upd_se (curr_of k c) (\<lambda>e. e\<lparr>exec_start := clock_task (rqs k c)\<rparr>) k"

section \<open>Switching to the class, and its interval\<close>

definition switched_to_wrr :: "'x env \<Rightarrow> cpu \<Rightarrow> tid \<Rightarrow> 'x kernel \<Rightarrow> 'x kernel" where
  "switched_to_wrr env c p k =
     (if on_rq (tasks k p) \<and> curr_of k c \<noteq> p then
        let k = (if c = task_cpu (tasks k p) \<and> \<not> rt_task k (curr_of k c)
                 then resched_task (curr_of k c) k else k)
        in upd_wrr p (\<lambda>e. e\<lparr>wrr_weight := (if task_bg env p k then 1 else 10)\<rparr>) k
      else k)"

definition prio_changed_wrr :: "cpu \<Rightarrow> tid \<Rightarrow> int \<Rightarrow> 'x kernel \<Rightarrow> 'x kernel" where
  "prio_changed_wrr c p oldprio k = k"

definition get_rr_interval_wrr :: "'x env \<Rightarrow> cpu \<Rightarrow> tid \<Rightarrow> 'x kernel \<Rightarrow> u32" where
  "get_rr_interval_wrr env c p k =
     (if read_group_path env (sched_task_group (tasks k p)) k ! 1 = CHR 0x00
      then WRR_FG_TIMESLICE else WRR_BG_TIMESLICE)"

text \<open>The hooks that are empty in the source.\<close>

definition set_cpus_allowed_wrr :: "tid \<Rightarrow> cpumask \<Rightarrow> 'x kernel \<Rightarrow> 'x kernel" where
  "set_cpus_allowed_wrr p new_mask k = k"

definition rq_online_wrr :: "cpu \<Rightarrow> 'x kernel \<Rightarrow> 'x kernel" where "rq_online_wrr c k = k"
definition rq_offline_wrr :: "cpu \<Rightarrow> 'x kernel \<Rightarrow> 'x kernel" where "rq_offline_wrr c k = k"

definition pre_schedule_wrr :: "cpu \<Rightarrow> tid \<Rightarrow> 'x kernel \<Rightarrow> 'x kernel" where
  "pre_schedule_wrr c prev k = k"

definition post_schedule_wrr :: "cpu \<Rightarrow> 'x kernel \<Rightarrow> 'x kernel" where "post_schedule_wrr c k = k"

definition task_woken_wrr :: "cpu \<Rightarrow> tid \<Rightarrow> 'x kernel \<Rightarrow> 'x kernel" where
  "task_woken_wrr c p k = k"

definition switched_from_wrr :: "cpu \<Rightarrow> tid \<Rightarrow> 'x kernel \<Rightarrow> 'x kernel" where
  "switched_from_wrr c p k = k"

lemmas wrr_hook_defs [simp] = check_preempt_curr_wrr_def set_cpus_allowed_wrr_def
  rq_online_wrr_def rq_offline_wrr_def pre_schedule_wrr_def post_schedule_wrr_def
  task_woken_wrr_def switched_from_wrr_def prio_changed_wrr_def

end
