(* ===== verification/Round_Robin.thy ===== *)
theory Round_Robin
  imports Kernel_Prelude
begin

text \<open>
  The contract of a round-robin discipline, as the tick handlers of the WRR class and of
  the RT class (for \<open>SCHED_RR\<close>) implement it: the picked task is the head of the queue,
  a tick uses up one unit of its slice, and the tick that uses up the last unit refills the
  slice and moves the task to the tail. From this contract alone follows what a round of the
  discipline gives to whom.
\<close>

section \<open>Serving ticks\<close>

text \<open>
  \<open>serve pick tick n s\<close> delivers \<open>n\<close> ticks, each to the task picked at that moment, and
  returns who was served, tick by tick, with the final state.
\<close>

fun serve :: "('s \<Rightarrow> 'p option) \<Rightarrow> ('p \<Rightarrow> 's \<Rightarrow> 's) \<Rightarrow> nat \<Rightarrow> 's \<Rightarrow> 'p list \<times> 's" where
  "serve pick tick 0 s = ([], s)"
| "serve pick tick (Suc n) s =
     (case pick s of
        None \<Rightarrow> ([], s)
      | Some p \<Rightarrow> (case serve pick tick n (tick p s) of (tr, s') \<Rightarrow> (p # tr, s')))"

lemma serve_add:
  "length (fst (serve pick tick m s)) = m \<Longrightarrow>
   serve pick tick (m + n) s =
     (fst (serve pick tick m s) @ fst (serve pick tick n (snd (serve pick tick m s))),
      snd (serve pick tick n (snd (serve pick tick m s))))"
proof (induction m arbitrary: s)
  case 0
  then show ?case by simp
next
  case (Suc m)
  then show ?case by (auto split: option.splits prod.splits)
qed

text \<open>Ticks given to one task in a sequence of slices.\<close>

lemma count_replicate: "count_list (replicate m a) b = (if a = b then m else 0)"
  by (induction m) auto

lemma count_concat_replicate:
  "\<lbrakk>distinct xs; p \<in> set xs\<rbrakk> \<Longrightarrow>
   count_list (concat (map (\<lambda>q. replicate (f q) q) xs)) p = f p"
proof (induction xs)
  case Nil
  then show ?case by simp
next
  case (Cons q xs)
  have notin: "p \<notin> set ys \<Longrightarrow> count_list (concat (map (\<lambda>q. replicate (f q) q) ys)) p = 0" for ys
    by (intro count_notin) auto
  show ?case using Cons notin by (cases "p = q") (auto simp: count_replicate)
qed

section \<open>The contract\<close>

locale round_robin =
  fixes queue :: "'s \<Rightarrow> 'p list"
    and slice :: "'s \<Rightarrow> 'p \<Rightarrow> nat"
    and quota :: "'s \<Rightarrow> 'p \<Rightarrow> nat"
    and pick :: "'s \<Rightarrow> 'p option"
    and tick :: "'p \<Rightarrow> 's \<Rightarrow> 's"
    and ok :: "'s \<Rightarrow> bool"
  assumes pick_head: "\<lbrakk>ok s; queue s = p # ps\<rbrakk> \<Longrightarrow> pick s = Some p"
    and queue_distinct: "ok s \<Longrightarrow> distinct (queue s)"
    and ok_tick: "\<lbrakk>ok s; queue s = p # ps\<rbrakk> \<Longrightarrow> ok (tick p s)"
    and quota_tick: "\<lbrakk>ok s; queue s = p # ps\<rbrakk> \<Longrightarrow> quota (tick p s) = quota s"
    and tick_more: "\<lbrakk>ok s; queue s = p # ps; 1 < slice s p\<rbrakk> \<Longrightarrow>
          queue (tick p s) = p # ps \<and> slice (tick p s) = (slice s)(p := slice s p - 1)"
    and tick_last: "\<lbrakk>ok s; queue s = p # ps; slice s p = 1\<rbrakk> \<Longrightarrow>
          queue (tick p s) = ps @ [p] \<and> slice (tick p s) = (slice s)(p := quota s p)"
begin

text \<open>The task at the head is served for exactly its slice, then stands at the tail.\<close>

lemma serve_head:
  "\<lbrakk>ok s; queue s = p # ps; slice s p = Suc n\<rbrakk> \<Longrightarrow>
   \<exists>s'. serve pick tick (Suc n) s = (replicate (Suc n) p, s') \<and> ok s' \<and> queue s' = ps @ [p]
        \<and> slice s' = (slice s)(p := quota s p) \<and> quota s' = quota s"
proof (induction n arbitrary: s)
  case 0
  then show ?case
    using pick_head ok_tick quota_tick tick_last by fastforce
next
  case (Suc n)
  let ?t = "tick p s"
  have t: "ok ?t" "queue ?t = p # ps" "slice ?t = (slice s)(p := Suc n)" "quota ?t = quota s"
    using Suc.prems ok_tick quota_tick tick_more [of s p ps] by auto
  then have "slice ?t p = Suc n" by simp
  from Suc.IH [OF t(1,2) this] obtain s' where s':
    "serve pick tick (Suc n) ?t = (replicate (Suc n) p, s')" "ok s'"
    "queue s' = ps @ [p]" "slice s' = (slice ?t)(p := quota ?t p)" "quota s' = quota ?t"
    by blast
  have "serve pick tick (Suc (Suc n)) s = (replicate (Suc (Suc n)) p, s')"
    by (subst serve.simps) (simp add: pick_head [OF Suc.prems(1,2)] s'(1) del: serve.simps)
  moreover have "slice s' = (slice s)(p := quota s p)" using s'(4) t(3,4) by simp
  ultimately show ?case using s' t(4) by auto
qed

text \<open>A prefix of the queue is served in order, each task for its slice, and moves behind
  the rest.\<close>

lemma serve_prefix:
  "\<lbrakk>ok s; queue s = xs @ ys; \<And>p. p \<in> set xs \<Longrightarrow> 0 < slice s p\<rbrakk> \<Longrightarrow>
   \<exists>s'. serve pick tick (sum_list (map (slice s) xs)) s =
          (concat (map (\<lambda>p. replicate (slice s p) p) xs), s')
        \<and> ok s' \<and> queue s' = ys @ xs \<and> quota s' = quota s
        \<and> slice s' = (\<lambda>p. if p \<in> set xs then quota s p else slice s p)"
proof (induction xs arbitrary: s ys)
  case Nil
  then show ?case by simp
next
  case (Cons p xs)
  have p_new: "p \<notin> set xs" using queue_distinct [OF Cons.prems(1)] Cons.prems(2) by simp
  obtain n where n: "slice s p = Suc n"
    using Cons.prems(3) [of p] by (auto simp: gr0_conv_Suc)
  obtain t where t: "serve pick tick (Suc n) s = (replicate (Suc n) p, t)" "ok t"
    "queue t = (xs @ ys) @ [p]" "slice t = (slice s)(p := quota s p)" "quota t = quota s"
    using serve_head [of s p "xs @ ys" n] Cons.prems n by auto
  have same: "map (slice t) xs = map (slice s) xs"
    "map (\<lambda>q. replicate (slice t q) q) xs = map (\<lambda>q. replicate (slice s q) q) xs"
    using p_new t(4) by auto
  have "\<And>q. q \<in> set xs \<Longrightarrow> 0 < slice t q" using Cons.prems(3) p_new t(4) by auto
  with Cons.IH [of t "ys @ [p]"] t(2,3) obtain s' where
    "serve pick tick (sum_list (map (slice t) xs)) t =
      (concat (map (\<lambda>p. replicate (slice t p) p) xs), s')" and s': "ok s'"
    "queue s' = (ys @ [p]) @ xs" "quota s' = quota t"
    "slice s' = (\<lambda>q. if q \<in> set xs then quota t q else slice t q)"
    by auto
  then have rest: "serve pick tick (sum_list (map (slice s) xs)) t =
      (concat (map (\<lambda>p. replicate (slice s p) p) xs), s')"
    using same by (simp only:)
  have "serve pick tick (Suc n + sum_list (map (slice s) xs)) s =
      (replicate (Suc n) p @ concat (map (\<lambda>p. replicate (slice s p) p) xs), s')"
    by (subst serve_add) (simp_all add: t(1) rest del: serve.simps replicate_Suc)
  then show ?case
    using s' t(4,5) n p_new by (auto simp: fun_eq_iff)
qed

text \<open>A whole round: everyone once, in queue order, and the queue is as it was.\<close>

lemma full_round:
  assumes "ok s" "\<And>p. p \<in> set (queue s) \<Longrightarrow> 0 < slice s p"
  shows "\<exists>s'. serve pick tick (sum_list (map (slice s) (queue s))) s =
          (concat (map (\<lambda>p. replicate (slice s p) p) (queue s)), s')
        \<and> ok s' \<and> queue s' = queue s \<and> quota s' = quota s
        \<and> (\<forall>p \<in> set (queue s). slice s' p = quota s p)"
  using serve_prefix [of s "queue s" "[]"] assms by auto

lemma full_round_share:
  assumes "ok s" "\<And>p. p \<in> set (queue s) \<Longrightarrow> 0 < slice s p" "p \<in> set (queue s)"
  shows "count_list (fst (serve pick tick (sum_list (map (slice s) (queue s))) s)) p = slice s p"
  using full_round [OF assms(1,2)] assms(3) queue_distinct [OF assms(1)]
  by (auto simp: count_concat_replicate)

end

end
