(* ===== verification/Wrr_Lemmas.thy ===== *)
theory Wrr_Lemmas
  imports Wrr_Class Round_Robin
begin

text \<open>
  What the operations of the WRR class do to the parts of the kernel, and the class's
  invariant: the counters of every runqueue agree with its queue, and the weight of every
  queued task is the one its group calls for.
\<close>

section \<open>Accounting touches only the entity of the current task\<close>

lemma account_exec_tasks:
  "tasks (account_exec env c d k) =
     (tasks k)(curr_of k c := (tasks k (curr_of k c))\<lparr>se := (se (tasks k (curr_of k c)))
        \<lparr>statistics := (statistics (se (tasks k (curr_of k c))))
           \<lparr>exec_max := max (exec_max (statistics (se (tasks k (curr_of k c))))) d\<rparr>,
         sum_exec_runtime := sum_exec_runtime (se (tasks k (curr_of k c))) + d,
         exec_start := clock_task (rqs k c)\<rparr>\<rparr>)"
  by (simp add: account_exec_def Let_def)

lemma account_exec_fields [simp, frame]:
  "wrr (tasks (account_exec env c d k) q) = wrr (tasks k q)"
  "class_of (tasks (account_exec env c d k) q) = class_of (tasks k q)"
  "sched_task_group (tasks (account_exec env c d k) q) = sched_task_group (tasks k q)"
  "on_rq (tasks (account_exec env c d k) q) = on_rq (tasks k q)"
  "prio (tasks (account_exec env c d k) q) = prio (tasks k q)"
  "static_prio (tasks (account_exec env c d k) q) = static_prio (tasks k q)"
  "normal_prio (tasks (account_exec env c d k) q) = normal_prio (tasks k q)"
  "rt_priority (tasks (account_exec env c d k) q) = rt_priority (tasks k q)"
  "policy (tasks (account_exec env c d k) q) = policy (tasks k q)"
  "task_cpu (tasks (account_exec env c d k) q) = task_cpu (tasks k q)"
  "cpus_allowed (tasks (account_exec env c d k) q) = cpus_allowed (tasks k q)"
  "state (tasks (account_exec env c d k) q) = state (tasks k q)"
  "flags (tasks (account_exec env c d k) q) = flags (tasks k q)"
  "on_cpu (tasks (account_exec env c d k) q) = on_cpu (tasks k q)"
  "need_resched (tasks (account_exec env c d k) q) = need_resched (tasks k q)"
  "sched_reset_on_fork (tasks (account_exec env c d k) q) = sched_reset_on_fork (tasks k q)"
  "mm (tasks (account_exec env c d k) q) = mm (tasks k q)"
  by (simp_all add: account_exec_tasks)

lemma account_exec_frame [simp, frame]:
  "rqs (account_exec env c d k) = rqs k" "wrr_q (account_exec env c d k) = wrr_q k"
  "rt_q (account_exec env c d k) = rt_q k" "rt_rqs (account_exec env c d k) = rt_rqs k"
  "rt_ses (account_exec env c d k) = rt_ses k" "tgs (account_exec env c d k) = tgs k"
  "this_cpu (account_exec env c d k) = this_cpu k"
  "cpu_online_mask (account_exec env c d k) = cpu_online_mask k"
  "cpu_active_mask (account_exec env c d k) = cpu_active_mask k"
  "sysctl_sched_rt_runtime (account_exec env c d k) = sysctl_sched_rt_runtime k"
  "sysctl_sched_rt_period (account_exec env c d k) = sysctl_sched_rt_period k"
  "sched_clock (account_exec env c d k) = sched_clock k"
  "jiffies (account_exec env c d k) = jiffies k"
  "load_globals (account_exec env c d k) = load_globals k"
  "task_groups (account_exec env c d k) = task_groups k"
  by (simp_all add: account_exec_def Let_def)

lemma update_curr_wrr_cases:
  "update_curr_wrr env c k = k \<or> update_curr_wrr env c k = account_exec env c (exec_delta c k) k"
  by (simp add: update_curr_wrr_def)

lemma update_curr_wrr_fields [simp, frame]:
  "wrr (tasks (update_curr_wrr env c k) q) = wrr (tasks k q)"
  "class_of (tasks (update_curr_wrr env c k) q) = class_of (tasks k q)"
  "sched_task_group (tasks (update_curr_wrr env c k) q) = sched_task_group (tasks k q)"
  "on_rq (tasks (update_curr_wrr env c k) q) = on_rq (tasks k q)"
  "prio (tasks (update_curr_wrr env c k) q) = prio (tasks k q)"
  "static_prio (tasks (update_curr_wrr env c k) q) = static_prio (tasks k q)"
  "normal_prio (tasks (update_curr_wrr env c k) q) = normal_prio (tasks k q)"
  "rt_priority (tasks (update_curr_wrr env c k) q) = rt_priority (tasks k q)"
  "policy (tasks (update_curr_wrr env c k) q) = policy (tasks k q)"
  "task_cpu (tasks (update_curr_wrr env c k) q) = task_cpu (tasks k q)"
  "cpus_allowed (tasks (update_curr_wrr env c k) q) = cpus_allowed (tasks k q)"
  "state (tasks (update_curr_wrr env c k) q) = state (tasks k q)"
  "flags (tasks (update_curr_wrr env c k) q) = flags (tasks k q)"
  "on_cpu (tasks (update_curr_wrr env c k) q) = on_cpu (tasks k q)"
  "need_resched (tasks (update_curr_wrr env c k) q) = need_resched (tasks k q)"
  "sched_reset_on_fork (tasks (update_curr_wrr env c k) q) = sched_reset_on_fork (tasks k q)"
  "mm (tasks (update_curr_wrr env c k) q) = mm (tasks k q)"
  by (simp_all add: update_curr_wrr_def)

lemma update_curr_wrr_frame [simp, frame]:
  "rqs (update_curr_wrr env c k) = rqs k" "wrr_q (update_curr_wrr env c k) = wrr_q k"
  "rt_q (update_curr_wrr env c k) = rt_q k" "rt_rqs (update_curr_wrr env c k) = rt_rqs k"
  "rt_ses (update_curr_wrr env c k) = rt_ses k" "tgs (update_curr_wrr env c k) = tgs k"
  "this_cpu (update_curr_wrr env c k) = this_cpu k"
  "cpu_online_mask (update_curr_wrr env c k) = cpu_online_mask k"
  "cpu_active_mask (update_curr_wrr env c k) = cpu_active_mask k"
  by (simp_all add: update_curr_wrr_def)

section \<open>The weight a group calls for\<close>

definition group_weight :: "'x env \<Rightarrow> tid \<Rightarrow> 'x kernel \<Rightarrow> u32" where
  "group_weight env p k = (if task_bg env p k then 1 else 10)"

definition group_slice :: "'x env \<Rightarrow> tid \<Rightarrow> 'x kernel \<Rightarrow> u32" where
  "group_slice env p k = (if task_bg env p k then WRR_BG_TIMESLICE else WRR_FG_TIMESLICE)"

lemma group_weight_cong:
  "\<lbrakk>tgs k' = tgs k; sched_task_group (tasks k' p) = sched_task_group (tasks k p)\<rbrakk>
   \<Longrightarrow> group_weight env p k' = group_weight env p k"
  using read_group_path_cong [of k' k env "sched_task_group (tasks k p)"]
  by (simp add: group_weight_def)

lemma refresh_group_fields [simp, frame]:
  "wrr_q (refresh_group env p k) = wrr_q k" "rqs (refresh_group env p k) = rqs k"
  "rt_q (refresh_group env p k) = rt_q k" "rt_rqs (refresh_group env p k) = rt_rqs k"
  "rt_ses (refresh_group env p k) = rt_ses k"
  "tgs (refresh_group env p k) = tgs k"
  "sched_task_group (tasks (refresh_group env p k) q) = sched_task_group (tasks k q)"
  "class_of (tasks (refresh_group env p k) q) = class_of (tasks k q)"
  "on_rq (tasks (refresh_group env p k) q) = on_rq (tasks k q)"
  "task_cpu (tasks (refresh_group env p k) q) = task_cpu (tasks k q)"
  "prio (tasks (refresh_group env p k) q) = prio (tasks k q)"
  "policy (tasks (refresh_group env p k) q) = policy (tasks k q)"
  "se (tasks (refresh_group env p k) q) = se (tasks k q)"
  by (simp_all add: refresh_group_def Let_def)

lemma refresh_group_other [simp]: "q \<noteq> p \<Longrightarrow> tasks (refresh_group env p k) q = tasks k q"
  by (simp add: refresh_group_def Let_def)

lemma refresh_group_weight [simp]:
  "wrr_weight (wrr (tasks (refresh_group env p k) p)) = group_weight env p k"
  by (simp add: refresh_group_def group_weight_def Let_def)

lemma refresh_group_slice:
  "wrr_time_slice (wrr (tasks (refresh_group env p k) p)) =
     (if wrr_weight (wrr (tasks k p)) = group_weight env p k then wrr_time_slice (wrr (tasks k p))
      else group_slice env p k)"
  by (auto simp: refresh_group_def group_weight_def group_slice_def Let_def)

section \<open>Queues and counters after each operation\<close>

lemma enqueue_task_wrr_effect:
  "wrr_q (enqueue_task_wrr env c p fl k) =
     (if fl AND ENQUEUE_HEAD \<noteq> 0 then list_add p c else list_add_tail p c) (wrr_q k)"
  "rqs (enqueue_task_wrr env c p fl k) = (rqs k)(c := (rqs k c)
     \<lparr>wrr_total_weight := wrr_total_weight (rqs k c) + group_weight env p k,
      wrr_nr_running := wrr_nr_running (rqs k c) + 1, nr_running := nr_running (rqs k c) + 1\<rparr>)"
  "tasks (enqueue_task_wrr env c p fl k) = tasks (refresh_group env p k)"
  "tgs (enqueue_task_wrr env c p fl k) = tgs k"
  by (simp_all add: enqueue_task_wrr_def enqueue_wrr_entity_def inc_nr_running_def Let_def)

lemma dequeue_task_wrr_effect:
  "wrr_q (dequeue_task_wrr env c p fl k) = list_del_init p (wrr_q k)"
  "rqs (dequeue_task_wrr env c p fl k) = (rqs k)(c := (rqs k c)
     \<lparr>wrr_total_weight := wrr_total_weight (rqs k c) - wrr_weight (wrr (tasks k p)),
      wrr_nr_running := wrr_nr_running (rqs k c) - 1, nr_running := nr_running (rqs k c) - 1\<rparr>)"
  "tasks (dequeue_task_wrr env c p fl k) = tasks (update_curr_wrr env c k)"
  "tgs (dequeue_task_wrr env c p fl k) = tgs k"
  by (simp_all add: dequeue_task_wrr_def dequeue_wrr_entity_def dec_nr_running_def Let_def)

lemma requeue_task_wrr_effect [simp]:
  "wrr_q (requeue_task_wrr c p h k) = (if h \<noteq> 0 then list_move p c else list_move_tail p c) (wrr_q k)"
  "rqs (requeue_task_wrr c p h k) = rqs k" "tasks (requeue_task_wrr c p h k) = tasks k"
  "tgs (requeue_task_wrr c p h k) = tgs k"
  by (simp_all add: requeue_task_wrr_def)

lemma put_prev_task_wrr_effect:
  "wrr_q (put_prev_task_wrr env c p k) = wrr_q k" "rqs (put_prev_task_wrr env c p k) = rqs k"
  "tgs (put_prev_task_wrr env c p k) = tgs k"
  "wrr (tasks (put_prev_task_wrr env c p k) q) = wrr (tasks k q)"
  "sched_task_group (tasks (put_prev_task_wrr env c p k) q) = sched_task_group (tasks k q)"
  by (simp_all add: put_prev_task_wrr_def)

text \<open>The tick, case by case.\<close>

definition wrr_refill :: "u32 \<Rightarrow> u32" where
  "wrr_refill w = (if w = 1 then WRR_BG_TIMESLICE else WRR_FG_TIMESLICE)"

lemma task_tick_wrr_wrr:
  "wrr (tasks (task_tick_wrr env c p n k) q) =
     (if q \<noteq> p then wrr (tasks k q)
      else (wrr (tasks k p))\<lparr>wrr_time_slice :=
        (if wrr_time_slice (wrr (tasks k p)) = 1 then wrr_refill (wrr_weight (wrr (tasks k p)))
         else wrr_time_slice (wrr (tasks k p)) - 1)\<rparr>)"
  by (simp add: task_tick_wrr_def Let_def resched_task_def wrr_refill_def)

lemma task_tick_wrr_queue:
  "wrr_q (task_tick_wrr env c p n k) =
     (if wrr_time_slice (wrr (tasks k p)) = 1 \<and> link_prev p (wrr_q k) \<noteq> link_next p (wrr_q k)
      then list_move_tail p c (wrr_q k) else wrr_q k)"
  by (simp add: task_tick_wrr_def Let_def resched_task_def)

lemma task_tick_wrr_frame [simp, frame]:
  "rqs (task_tick_wrr env c p n k) = rqs k" "tgs (task_tick_wrr env c p n k) = tgs k"
  "sched_task_group (tasks (task_tick_wrr env c p n k) q) = sched_task_group (tasks k q)"
  by (simp_all add: task_tick_wrr_def Let_def resched_task_def)

lemma switched_to_wrr_effect:
  "wrr_q (switched_to_wrr env c p k) = wrr_q k" "rqs (switched_to_wrr env c p k) = rqs k"
  "tgs (switched_to_wrr env c p k) = tgs k"
  "wrr_weight (wrr (tasks (switched_to_wrr env c p k) q)) =
     (if q = p \<and> on_rq (tasks k p) \<and> curr_of k c \<noteq> p then group_weight env p k
      else wrr_weight (wrr (tasks k q)))"
  "wrr_time_slice (wrr (tasks (switched_to_wrr env c p k) q)) = wrr_time_slice (wrr (tasks k q))"
  "sched_task_group (tasks (switched_to_wrr env c p k) q) = sched_task_group (tasks k q)"
proof -
  show "wrr_q (switched_to_wrr env c p k) = wrr_q k" "rqs (switched_to_wrr env c p k) = rqs k"
    "tgs (switched_to_wrr env c p k) = tgs k"
    "wrr_time_slice (wrr (tasks (switched_to_wrr env c p k) q)) = wrr_time_slice (wrr (tasks k q))"
    "sched_task_group (tasks (switched_to_wrr env c p k) q) = sched_task_group (tasks k q)"
    by (simp_all add: switched_to_wrr_def Let_def resched_task_def)
  show "wrr_weight (wrr (tasks (switched_to_wrr env c p k) q)) =
     (if q = p \<and> on_rq (tasks k p) \<and> curr_of k c \<noteq> p then group_weight env p k
      else wrr_weight (wrr (tasks k q)))"
  proof -
    have "read_group_path env tg (upd_task (curr_of k c) f k) = read_group_path env tg k" for tg f
      by (rule read_group_path_cong) simp
    then show ?thesis
      by (auto simp: switched_to_wrr_def Let_def group_weight_def resched_task_def)
  qed
qed

section \<open>The invariant\<close>

definition queue_weight :: "cpu \<Rightarrow> 'x kernel \<Rightarrow> u32" where
  "queue_weight c k = sum_list (map (\<lambda>p. wrr_weight (wrr (tasks k p))) (elems (wrr_q k) c))"

definition wrr_inv :: "'x env \<Rightarrow> 'x kernel \<Rightarrow> bool" where
  "wrr_inv env k \<longleftrightarrow>
     lists_wf (wrr_q k)
     \<and> (\<forall>c. wrr_nr_running (rqs k c) = of_nat (length (elems (wrr_q k) c)))
     \<and> (\<forall>c. wrr_total_weight (rqs k c) = queue_weight c k)
     \<and> (\<forall>c. \<forall>p \<in> set (elems (wrr_q k) c). wrr_weight (wrr (tasks k p)) = group_weight env p k)"

lemma wrr_invD:
  assumes "wrr_inv env k"
  shows "lists_wf (wrr_q k)"
    "wrr_nr_running (rqs k c) = of_nat (length (elems (wrr_q k) c))"
    "wrr_total_weight (rqs k c) = queue_weight c k"
    "p \<in> set (elems (wrr_q k) c) \<Longrightarrow> wrr_weight (wrr (tasks k p)) = group_weight env p k"
  using assms by (auto simp: wrr_inv_def)

text \<open>The invariant only looks at the queues, the counters and the weights of queued tasks.\<close>

lemma wrr_inv_cong:
  assumes "wrr_inv env k" "wrr_q k' = wrr_q k" "tgs k' = tgs k"
    and "\<And>c. wrr_nr_running (rqs k' c) = wrr_nr_running (rqs k c)"
    and "\<And>c. wrr_total_weight (rqs k' c) = wrr_total_weight (rqs k c)"
    and "\<And>p c. p \<in> set (elems (wrr_q k) c) \<Longrightarrow>
           wrr_weight (wrr (tasks k' p)) = wrr_weight (wrr (tasks k p))"
    and "\<And>p c. p \<in> set (elems (wrr_q k) c) \<Longrightarrow>
           sched_task_group (tasks k' p) = sched_task_group (tasks k p)"
  shows "wrr_inv env k'"
proof -
  have "queue_weight c k' = queue_weight c k" for c
    using assms(2,6) by (auto simp: queue_weight_def intro!: arg_cong [where f = sum_list])
  moreover have "group_weight env p k' = group_weight env p k"
    if "p \<in> set (elems (wrr_q k) c)" for p c
    using that assms(3,7) by (intro group_weight_cong) auto
  ultimately show ?thesis using assms unfolding wrr_inv_def by auto
qed

lemma wrr_inv_enqueue:
  assumes inv: "wrr_inv env k" and new: "home (wrr_q k) p = None"
  shows "wrr_inv env (enqueue_task_wrr env c p fl k)"
proof -
  let ?k = "enqueue_task_wrr env c p fl k"
  note d = wrr_invD [OF inv]
  have notin: "p \<notin> set (elems (wrr_q k) c')" for c' using d(1) new by (rule wf_unlinked)
  have wf: "lists_wf (wrr_q ?k)"
    using d(1) new by (auto simp: enqueue_task_wrr_effect)
  have w: "wrr_weight (wrr (tasks ?k q)) = (if q = p then group_weight env p k
      else wrr_weight (wrr (tasks k q)))" for q
    by (simp add: enqueue_task_wrr_effect)
  have g: "group_weight env q ?k = group_weight env q k" for q
    by (intro group_weight_cong) (simp_all add: enqueue_task_wrr_effect)
  have "map (\<lambda>q. wrr_weight (wrr (tasks ?k q))) (elems (wrr_q k) c') =
      map (\<lambda>q. wrr_weight (wrr (tasks k q))) (elems (wrr_q k) c')" for c'
    using notin [of c'] by (auto simp: w)
  then have old: "(\<Sum>q\<leftarrow>elems (wrr_q k) c'. wrr_weight (wrr (tasks ?k q))) =
      (\<Sum>q\<leftarrow>elems (wrr_q k) c'. wrr_weight (wrr (tasks k q)))" for c'
    by (rule arg_cong [where f = sum_list])
  have "wrr_nr_running (rqs ?k c') = of_nat (length (elems (wrr_q ?k) c'))" for c'
    using d(2) by (simp add: enqueue_task_wrr_effect)
  moreover have "wrr_total_weight (rqs ?k c') = queue_weight c' ?k" for c'
    using d(3) [of c'] w [of p]
    by (auto simp: enqueue_task_wrr_effect(1,2) queue_weight_def old add.commute)
  moreover have "wrr_weight (wrr (tasks ?k q)) = group_weight env q ?k"
    if "q \<in> set (elems (wrr_q ?k) c')" for q c'
    using that d(4) [of q c'] by (auto simp: w g enqueue_task_wrr_effect(1) split: if_splits)
  ultimately show ?thesis using wf by (auto simp: wrr_inv_def)
qed

lemma wrr_inv_dequeue:
  assumes inv: "wrr_inv env k" and on: "home (wrr_q k) p = Some c"
  shows "wrr_inv env (dequeue_task_wrr env c p fl k)"
proof -
  let ?k = "dequeue_task_wrr env c p fl k"
  note d = wrr_invD [OF inv]
  have q: "elems (wrr_q ?k) c' = remove1 p (elems (wrr_q k) c')" for c'
    using d(1) by (simp add: dequeue_task_wrr_effect elems_list_del_init_wf)
  have mem: "p \<in> set (elems (wrr_q k) c') \<longleftrightarrow> c' = c" for c'
    using d(1) on by (auto simp: wf_home)
  have w: "wrr_weight (wrr (tasks ?k q)) = wrr_weight (wrr (tasks k q))" for q
    by (simp add: dequeue_task_wrr_effect)
  have g: "group_weight env q ?k = group_weight env q k" for q
    by (intro group_weight_cong) (simp_all add: dequeue_task_wrr_effect)
  have "wrr_nr_running (rqs ?k c') = of_nat (length (elems (wrr_q ?k) c'))" for c'
    using d(2) [of c'] mem [of c'] unfolding q
    by (auto simp: dequeue_task_wrr_effect(2) length_remove1_word remove1_idem)
  moreover have "wrr_total_weight (rqs ?k c') = queue_weight c' ?k" for c'
    using d(3) [of c'] mem [of c'] unfolding queue_weight_def w q
    by (auto simp: dequeue_task_wrr_effect(2) sum_list_remove1 remove1_idem)
  moreover have "wrr_weight (wrr (tasks ?k r)) = group_weight env r ?k"
    if "r \<in> set (elems (wrr_q ?k) c')" for r c'
    using that d(4) [of r c'] notin_set_remove1 unfolding q w g by fast
  ultimately show ?thesis
    using d(1) by (auto simp: wrr_inv_def dequeue_task_wrr_effect(1))
qed

lemma queue_weight_perm:
  "\<lbrakk>elems (wrr_q k') c = remove1 p (elems (wrr_q k) c) @ [p] \<or>
    elems (wrr_q k') c = p # remove1 p (elems (wrr_q k) c);
    p \<in> set (elems (wrr_q k) c); tasks k' = tasks k\<rbrakk> \<Longrightarrow> queue_weight c k' = queue_weight c k"
  by (auto simp: queue_weight_def sum_list_remove1)

lemma wrr_inv_requeue:
  assumes inv: "wrr_inv env k" and on: "home (wrr_q k) p = Some c"
  shows "wrr_inv env (requeue_task_wrr c p h k)"
proof -
  let ?k = "requeue_task_wrr c p h k"
  note d = wrr_invD [OF inv]
  have mem: "p \<in> set (elems (wrr_q k) c') \<longleftrightarrow> c' = c" for c'
    using d(1) on by (auto simp: wf_home)
  have other: "elems (wrr_q ?k) c' = elems (wrr_q k) c'" if "c' \<noteq> c" for c'
    using that d(1) mem by (auto simp: elems_list_move elems_list_move_tail remove1_idem)
  have own: "elems (wrr_q ?k) c = remove1 p (elems (wrr_q k) c) @ [p] \<or>
      elems (wrr_q ?k) c = p # remove1 p (elems (wrr_q k) c)"
    using d(1) by (auto simp: elems_list_move elems_list_move_tail)
  have len: "length (elems (wrr_q ?k) c) = length (elems (wrr_q k) c)"
    using own mem [of c] Suc_pred [OF length_pos_if_in_set, of p "elems (wrr_q k) c"]
    by (auto simp: length_remove1)
  have set: "set (elems (wrr_q ?k) c) = set (elems (wrr_q k) c)"
    using own mem [of c] d(1) by auto
  have g: "group_weight env q ?k = group_weight env q k" for q
    by (intro group_weight_cong) simp_all
  have wf: "lists_wf (wrr_q ?k)" using d(1) by auto
  have "queue_weight c' ?k = queue_weight c' k" for c'
  proof (cases "c' = c")
    case True
    then show ?thesis using queue_weight_perm [OF own] mem by simp
  next
    case False
    then show ?thesis using other by (simp add: queue_weight_def)
  qed
  moreover have "length (elems (wrr_q ?k) c') = length (elems (wrr_q k) c')" for c'
    using len other by (cases "c' = c") auto
  moreover have "set (elems (wrr_q ?k) c') = set (elems (wrr_q k) c')" for c'
    using set other by (cases "c' = c") auto
  ultimately show ?thesis
    using wf d(2,3,4) unfolding wrr_inv_def g by simp
qed

lemma wrr_inv_tick:
  assumes inv: "wrr_inv env k" and on: "home (wrr_q k) p = Some c"
  shows "wrr_inv env (task_tick_wrr env c p n k)"
proof -
  let ?moved = "wrr_time_slice (wrr (tasks k p)) = 1 \<and> link_prev p (wrr_q k) \<noteq> link_next p (wrr_q k)"
  let ?r = "if ?moved then requeue_task_wrr c p 0 k else k"
  have "wrr_inv env ?r" using assms wrr_inv_requeue by auto
  then show ?thesis
    by (rule wrr_inv_cong) (simp_all add: task_tick_wrr_queue task_tick_wrr_wrr requeue_task_wrr_def)
qed

lemma wrr_inv_put_prev: "wrr_inv env k \<Longrightarrow> wrr_inv env (put_prev_task_wrr env c p k)"
  by (erule wrr_inv_cong) (simp_all add: put_prev_task_wrr_effect)

lemma wrr_inv_set_curr: "wrr_inv env k \<Longrightarrow> wrr_inv env (set_curr_task_wrr c k)"
  by (erule wrr_inv_cong) (simp_all add: set_curr_task_wrr_def)

lemma wrr_inv_update_curr: "wrr_inv env k \<Longrightarrow> wrr_inv env (update_curr_wrr env c k)"
  by (erule wrr_inv_cong) simp_all

lemma wrr_inv_switched_to:
  assumes "wrr_inv env k"
  shows "wrr_inv env (switched_to_wrr env c p k)"
  using assms
proof (rule wrr_inv_cong)
  fix q c' assume "q \<in> set (elems (wrr_q k) c')"
  then show "wrr_weight (wrr (tasks (switched_to_wrr env c p k) q)) = wrr_weight (wrr (tasks k q))"
    using wrr_invD(4) [OF assms, of q c'] by (auto simp: switched_to_wrr_effect)
qed (simp_all add: switched_to_wrr_effect)

lemma wrr_inv_init:
  assumes inv: "wrr_inv env k" and empty: "elems (wrr_q k) c = []"
  shows "wrr_inv env (init_wrr_rq c k)"
proof -
  have "init_list_head c (wrr_q k) = wrr_q k"
    using empty by (cases "wrr_q k") (auto simp: init_list_head_def)
  then show ?thesis
    using inv wrr_invD(2,3) [OF inv, of c] empty
    by (intro wrr_inv_cong [OF inv]) (auto simp: init_wrr_rq_def queue_weight_def)
qed

end
