(* ===== verification/Example_State.thy ===== *)
theory Example_State
  imports Kernel_State
begin

text \<open>
  A small concrete machine on which the theorems are applied: two cpus, no queued task, the
  root group at \<open>/\<close>, group 1 at \<open>/apps\<close> and group 2 at \<open>/bg_non_interactive\<close>. The classes
  outside the repository are instantiated by ones that keep no queue.
\<close>

definition load0 :: load_weight where
  "load0 = \<lparr>lw_weight = 1024, lw_inv_weight = 4194304\<rparr>"

definition stats0 :: sched_statistics where
  "stats0 = \<lparr>exec_max = 0, wait_start = 0, sleep_start = 0, block_start = 0, nr_wakeups = 0,
     nr_wakeups_sync = 0, nr_wakeups_migrate = 0, nr_wakeups_local = 0, nr_wakeups_remote = 0\<rparr>"

definition se0 :: sched_entity where
  "se0 = \<lparr>se_load = load0, se_on_rq = False, exec_start = 0, sum_exec_runtime = 0, vruntime = 0,
     prev_sum_exec_runtime = 0, nr_migrations = 0, statistics = stats0, se_group = None\<rparr>"

definition wrr0 :: sched_wrr_entity where
  "wrr0 = \<lparr>wrr_weight = 10, wrr_timeout = 0, wrr_time_slice = 10, wrr_nr_cpus_allowed = 2\<rparr>"

definition rt_se0 :: sched_rt_entity where
  "rt_se0 = \<lparr>rt_timeout = 0, rt_time_slice = 10, rt_nr_cpus_allowed = 2, rt_parent = None,
     rt_rq_of = (0, 0), rt_my_q = None\<rparr>"

definition task0 :: task_struct where
  "task0 = \<lparr>state = 0, flags = 0, on_cpu = False, on_rq = False, prio = 120, static_prio = 120,
     normal_prio = 120, rt_priority = 0, class_of = fair_sched_class, se = se0, wrr = wrr0,
     sched_task_group = 0, policy = 0, cpus_allowed = (\<lambda>_. True), mm = None, active_mm = None,
     pid = 0, in_iowait = False, sched_reset_on_fork = False, sched_contributes_to_load = False,
     task_cpu = 0, preempt_count = 0, need_resched = False, nvcsw = 0, nivcsw = 0, sched_exp = 0,
     sigpending = False, fatal_sigpending = False\<rparr>"

definition rq0 :: rq where
  "rq0 = \<lparr>nr_running = 0, cpu_load = (\<lambda>_. 0), last_load_update_tick = 0, skip_clock_update = 0,
     rq_load_weight = 0, nr_load_updates = 0, nr_switches = 0, cfs_h_nr_running = 0,
     wrr_nr_running = 0, wrr_total_weight = 0, nr_uninterruptible = 0, curr = 0, idle = 0,
     stop = None, prev_mm = None, clock = 0, clock_task = 0, nr_iowait = 0, post_schedule = False,
     idle_balance = False, online = True, rt_avg = 0, age_stamp = 0, idle_stamp = 0,
     avg_idle = 0, calc_load_update = 0, calc_load_active = 0, yld_count = 0, sched_count = 0,
     ttwu_count = 0, ttwu_local = 0, wake_list = [], leaf_rt_rq_list = []\<rparr>"

definition rt_rq0 :: rt_rq where
  "rt_rq0 = \<lparr>bitmap = (\<lambda>i. i = 100), rt_nr_running = 0, highest_prio_curr = 100,
     highest_prio_next = 100, rt_nr_migratory = 0, rt_nr_total = 0, is_overloaded = False,
     pushable_tasks = [], rt_throttled = False, rt_time = 0, rt_runtime = 950000000,
     rt_nr_boosted = 0, rt_tg = Some 0\<rparr>"

definition tg0 :: task_group where
  "tg0 = \<lparr>tg_cgroup = Some 0,
     tg_rt_bandwidth = \<lparr>rt_period = 1000000000, rtb_runtime = 950000000,
                        rt_period_timer_active = False\<rparr>,
     tg_parent = None, tg_children = [], tg_is_autogroup = False\<rparr>"

definition loads0 :: load_globals where
  "loads0 = \<lparr>calc_load_tasks = 0, calc_load_next = 0, avenrun = (\<lambda>_. 0),
     calc_load_idle = (\<lambda>_. 0), calc_load_idx = 0\<rparr>"

text \<open>Tasks 0 and 1 idle on cpus 0 and 1; tasks 2, 3, 4 belong to groups 0, 1, 2.\<close>

definition k0 :: "unit kernel" where
  "k0 = \<lparr>tasks = (\<lambda>p. task0\<lparr>sched_task_group := (if p = 4 then 2 else if p = 3 then 1 else 0),
              class_of := (if p < 2 then idle_sched_class else fair_sched_class),
              task_cpu := (if p = 1 then 1 else 0), pid := int p\<rparr>),
     rqs = (\<lambda>c. rq0\<lparr>curr := c, idle := c\<rparr>),
     wrr_q = no_lists, rt_q = no_lists, rt_rqs = (\<lambda>r. rt_rq0\<lparr>rt_tg := Some (fst r)\<rparr>), rt_ses = (\<lambda>_. rt_se0),
     tgs = (\<lambda>g. tg0\<lparr>tg_cgroup := Some g\<rparr>), task_groups = [0, 1, 2],
     cas = (\<lambda>_. \<lparr>ca_cpuusage = (\<lambda>_. 0), ca_parent = None\<rparr>), task_ca = (\<lambda>_. Some 0),
     cpuacct_active = True, load_globals = loads0, this_cpu = 0, sched_clock = (\<lambda>_. 0),
     jiffies = 0, cpu_online_mask = (\<lambda>c. c < 2), cpu_active_mask = (\<lambda>c. c < 2),
     cpupri = (\<lambda>_. -1), rto_mask = (\<lambda>_. False), rto_count = 0,
     rd_span = (\<lambda>c. c < 2), rd_online = (\<lambda>c. c < 2), sched_doms = (\<lambda>_. []),
     scheduler_running = True, bug = False, threads = [2, 3, 4],
     def_rt_bandwidth = \<lparr>rt_period = 1000000000, rtb_runtime = 950000000,
                        rt_period_timer_active = False\<rparr>,
     sysctl_sched_rt_period = 1000000, sysctl_sched_rt_runtime = 950000, ext_state = ()\<rparr>"

definition ops0 :: "unit class_ops" where
  "ops0 = \<lparr>op_enqueue_task = (\<lambda>c p f k. k), op_dequeue_task = (\<lambda>c p f k. k),
     op_yield_task = (\<lambda>c k. k), op_check_preempt_curr = (\<lambda>c p f k. k),
     op_pick_next_task = (\<lambda>c k. (Some (idle (rqs k c)), k)), op_put_prev_task = (\<lambda>c p k. k),
     op_set_curr_task = (\<lambda>c k. k), op_task_tick = (\<lambda>c p q k. k), op_task_fork = (\<lambda>p k. k),
     op_select_task_rq = (\<lambda>p sd fl k. task_cpu (tasks k p)), op_task_waking = (\<lambda>p k. k),
     op_switched_from = (\<lambda>c p k. k), op_switched_to = (\<lambda>c p k. k),
     op_prio_changed = (\<lambda>c p old k. k), op_get_rr_interval = (\<lambda>c p k. 0),
     op_task_woken = (\<lambda>c p k. k), op_pre_schedule = (\<lambda>c p k. k), op_post_schedule = (\<lambda>c k. k),
     op_set_cpus_allowed = (\<lambda>p m k. k), op_rq_online = (\<lambda>c k. k), op_rq_offline = (\<lambda>c k. k),
     op_task_move_group = (\<lambda>p b k. k)\<rparr>"

definition path0 :: "nat option \<Rightarrow> string" where
  "path0 g = (case g of
      Some (Suc 0) \<Rightarrow> ''/apps'' @ [CHR 0x00]
    | Some (Suc (Suc 0)) \<Rightarrow> ''/bg_non_interactive'' @ [CHR 0x00]
    | _ \<Rightarrow> ''/'' @ [CHR 0x00])"

definition env0 :: "unit env" where
  "env0 = \<lparr>config_smp = True, nr_cpu_ids = 2,
     class_next_ext = (\<lambda>c. case c of stop_sched_class \<Rightarrow> Some rt_sched_class
                          | fair_sched_class \<Rightarrow> Some idle_sched_class | _ \<Rightarrow> None),
     class_ext = (\<lambda>_. ops0),
     autogroup_path = (\<lambda>_ buf. (0, buf)),
     cgroup_path = (\<lambda>g buf. path0 g),
     uninit = replicate 1024 (CHR 0x00),
     cpupri_find = (\<lambda>prios p k. filter (\<lambda>c. prios c < prio (tasks k p)) [0..<2]),
     feat_rt_runtime_share = True, feat_ttwu_queue = True,
     rlim = (\<lambda>_ _. RLIM_INFINITY), rlim_max = (\<lambda>_ _. RLIM_INFINITY),
     cpu_possible_mask = (\<lambda>c. c < 2), node_mask = (\<lambda>_ c. c < 2),
     cpuset_cpus_allowed_fallback = (\<lambda>p k. k), sd_llc_id = (\<lambda>_. 0),
     wq_worker_waking_up = (\<lambda>p c x. x), wq_worker_sleeping = (\<lambda>p c x. None),
     sched_migration_cost = 500000, newidle_balance = (\<lambda>c k. k), trigger_load_balance = (\<lambda>c k. k),
     account_group_exec_runtime = (\<lambda>p d x. x)\<rparr>"

lemmas example_defs = k0_def env0_def ops0_def task0_def rq0_def rt_rq0_def tg0_def se0_def
  wrr0_def rt_se0_def stats0_def load0_def loads0_def path0_def

lemma env0_linux [simp]: "linux_class_order env0"
  by (simp add: linux_class_order_def env0_def)

lemma k0_queues [simp]: "wrr_q k0 = no_lists" "rt_q k0 = no_lists"
  by (simp_all add: k0_def)

text \<open>Which of the example's groups is the background group.\<close>

lemma read_group_path_env0 [simp]: "read_group_path env0 g k = path0 (tg_cgroup (tgs k g))"
  by (simp add: read_group_path_def env0_def)

lemma task_bg_k0:
  "\<lbrakk>tgs k = tgs k0; sched_task_group (tasks k p) = sched_task_group (tasks k0 p)\<rbrakk>
   \<Longrightarrow> task_bg env0 p k \<longleftrightarrow> p = 4"
  by (simp add: k0_def task0_def tg0_def path0_def path_bg_def)

end
