(* ===== verification/Wrr_Props.thy ===== *)
theory Wrr_Props
  imports Wrr_Lemmas Example_State
begin

text \<open>
  The properties of the WRR class. Its operations are the transitions of a step relation,
  whose reachable states satisfy the invariant of \<open>Wrr_Lemmas\<close>; its tick handler meets the
  round-robin contract, from which the shares of a whole round follow.
\<close>

section \<open>The class as a state machine\<close>

text \<open>
  The calls the core scheduler makes. A task is enqueued when it is on no queue and
  dequeued, requeued and ticked on the runqueue it is on. It changes its group while it is
  not queued, as \<open>sched_move_task\<close> does. Everything else in the kernel may change between
  the calls (\<open>Other\<close>), as long as it leaves the class's own data alone.
\<close>

definition wrr_untouched :: "'x kernel \<Rightarrow> 'x kernel \<Rightarrow> bool" where
  "wrr_untouched k k' \<longleftrightarrow>
     wrr_q k' = wrr_q k \<and> tgs k' = tgs k
     \<and> (\<forall>c. wrr_nr_running (rqs k' c) = wrr_nr_running (rqs k c)
          \<and> wrr_total_weight (rqs k' c) = wrr_total_weight (rqs k c))
     \<and> (\<forall>p. home (wrr_q k) p \<noteq> None \<longrightarrow> wrr (tasks k' p) = wrr (tasks k p)
          \<and> sched_task_group (tasks k' p) = sched_task_group (tasks k p))"

inductive wrr_step :: "'x env \<Rightarrow> 'x kernel \<Rightarrow> 'x kernel \<Rightarrow> bool" for env where
  Enqueue: "home (wrr_q k) p = None \<Longrightarrow> wrr_step env k (enqueue_task_wrr env c p fl k)"
| Dequeue: "home (wrr_q k) p = Some c \<Longrightarrow> wrr_step env k (dequeue_task_wrr env c p fl k)"
| Requeue: "home (wrr_q k) p = Some c \<Longrightarrow> wrr_step env k (requeue_task_wrr c p h k)"
| Yield: "home (wrr_q k) (curr_of k c) = Some c \<Longrightarrow> wrr_step env k (yield_task_wrr c k)"
| Tick: "home (wrr_q k) p = Some c \<Longrightarrow> wrr_step env k (task_tick_wrr env c p q k)"
| Put_prev: "wrr_step env k (put_prev_task_wrr env c p k)"
| Set_curr: "wrr_step env k (set_curr_task_wrr c k)"
| Switched_to: "wrr_step env k (switched_to_wrr env c p k)"
| Move_group: "home (wrr_q k) p = None \<Longrightarrow>
     wrr_step env k (upd_task p (\<lambda>t. t\<lparr>sched_task_group := g\<rparr>) k)"
| Other: "wrr_untouched k k' \<Longrightarrow> wrr_step env k k'"

text \<open>At boot the queues are initialised on every cpu.\<close>

inductive wrr_reachable :: "'x env \<Rightarrow> 'x kernel \<Rightarrow> bool" for env where
  Boot: "\<lbrakk>wrr_q k = no_lists; \<And>c. wrr_nr_running (rqs k c) = 0;
     \<And>c. wrr_total_weight (rqs k c) = 0\<rbrakk> \<Longrightarrow> wrr_reachable env k"
| Step: "\<lbrakk>wrr_reachable env k; wrr_step env k k'\<rbrakk> \<Longrightarrow> wrr_reachable env k'"

inductive_cases wrr_stepE: "wrr_step env k k'"

lemma wrr_inv_home:
  "\<lbrakk>wrr_inv env k; p \<in> set (elems (wrr_q k) c)\<rbrakk> \<Longrightarrow> home (wrr_q k) p = Some c"
  using wf_home [OF wrr_invD(1)] by blast

lemma wrr_inv_other: "\<lbrakk>wrr_inv env k; wrr_untouched k k'\<rbrakk> \<Longrightarrow> wrr_inv env k'"
  by (rule wrr_inv_cong [of env k k']) (auto simp: wrr_untouched_def dest: wrr_inv_home)

lemma wrr_inv_move_group:
  assumes "wrr_inv env k" "home (wrr_q k) p = None"
  shows "wrr_inv env (upd_task p (\<lambda>t. t\<lparr>sched_task_group := g\<rparr>) k)"
proof (rule wrr_inv_cong [OF assms(1)])
  fix q c assume "q \<in> set (elems (wrr_q k) c)"
  then have "q \<noteq> p" using wf_unlinked [OF wrr_invD(1) [OF assms(1)] assms(2)] by metis
  then show "sched_task_group (tasks (upd_task p (\<lambda>t. t\<lparr>sched_task_group := g\<rparr>) k) q) =
      sched_task_group (tasks k q)" by simp
qed simp_all

lemma wrr_step_inv: "\<lbrakk>wrr_step env k k'; wrr_inv env k\<rbrakk> \<Longrightarrow> wrr_inv env k'"
proof (induction rule: wrr_step.induct)
  case (Yield k c)
  then show ?case unfolding yield_task_wrr_def by (intro wrr_inv_requeue)
qed (auto intro: wrr_inv_enqueue wrr_inv_dequeue wrr_inv_requeue wrr_inv_tick wrr_inv_put_prev
       wrr_inv_set_curr wrr_inv_switched_to wrr_inv_move_group wrr_inv_other)

section \<open>The round-robin contract\<close>

definition wrr_ok :: "'x env \<Rightarrow> cpu \<Rightarrow> 'x kernel \<Rightarrow> bool" where
  "wrr_ok env c k \<longleftrightarrow> wrr_inv env k \<and> length (elems (wrr_q k) c) < 2 ^ 32"

definition wrr_slice :: "'x kernel \<Rightarrow> tid \<Rightarrow> nat" where
  "wrr_slice k p = unat (wrr_time_slice (wrr (tasks k p)))"

definition wrr_quota :: "'x kernel \<Rightarrow> tid \<Rightarrow> nat" where
  "wrr_quota k p = unat (wrr_refill (wrr_weight (wrr (tasks k p))))"

lemma pick_next_task_wrr_head:
  assumes "wrr_ok env c k"
  shows "pick_next_task_wrr c k =
    (case elems (wrr_q k) c of [] \<Rightarrow> None | p # _ \<Rightarrow> Some p)"
proof -
  let ?n = "length (elems (wrr_q k) c)"
  have "?n < 2 ^ 32" using assms by (simp add: wrr_ok_def)
  then have "(of_nat ?n :: u32) = 0 \<longleftrightarrow> ?n = 0"
    using nat_dvd_not_less [of ?n "2 ^ 32"] by (auto simp: word_of_nat_eq_0_iff)
  then show ?thesis
    using assms by (auto simp: pick_next_task_wrr_def wrr_ok_def wrr_inv_def split: list.splits)
qed

lemma task_tick_wrr_last_queue:
  assumes "wrr_inv env k" "elems (wrr_q k) c = p # ps" "wrr_time_slice (wrr (tasks k p)) = 1"
  shows "elems (wrr_q (task_tick_wrr env c p n k)) c = ps @ [p]"
proof -
  have wf: "lists_wf (wrr_q k)" using assms(1) by (rule wrr_invD)
  then have on: "home (wrr_q k) p = Some c" using assms(2) wf_home [of "wrr_q k" p c] by simp
  show ?thesis
    using prev_next_differ [OF wf on] assms(2,3) wf
    by (auto simp: task_tick_wrr_queue elems_list_move_tail)
qed

interpretation wrr_rr: round_robin "\<lambda>k. elems (wrr_q k) c" wrr_slice wrr_quota
    "pick_next_task_wrr c" "\<lambda>p. task_tick_wrr env c p 0" "wrr_ok env c"
  for env :: "'x env" and c
proof
  fix k :: "'x kernel" and p ps
  assume ok: "wrr_ok env c k" and q: "elems (wrr_q k) c = p # ps"
  let ?t = "task_tick_wrr env c p 0 k"
  have inv: "wrr_inv env k" using ok by (simp add: wrr_ok_def)
  have on: "home (wrr_q k) p = Some c"
    using q wf_home [OF wrr_invD(1) [OF inv], of p c] by simp
  show "pick_next_task_wrr c k = Some p" using pick_next_task_wrr_head [OF ok] q by simp
  show "wrr_quota ?t = wrr_quota k"
    by (auto simp: wrr_quota_def task_tick_wrr_wrr)
  show "wrr_ok env c ?t"
    using wrr_inv_tick [OF inv on, of 0] ok q task_tick_wrr_last_queue [OF inv q]
    by (cases "wrr_time_slice (wrr (tasks k p)) = 1") (auto simp: wrr_ok_def task_tick_wrr_queue)
  show "elems (wrr_q ?t) c = p # ps \<and> wrr_slice ?t = (wrr_slice k)(p := wrr_slice k p - 1)"
    if "1 < wrr_slice k p"
  proof -
    have "unat (wrr_time_slice (wrr (tasks k p)) - 1) = unat (wrr_time_slice (wrr (tasks k p))) - 1"
      using that by (intro unat_minus_one) (auto simp: wrr_slice_def)
    then show ?thesis
      using that q
      by (auto simp: wrr_slice_def task_tick_wrr_queue task_tick_wrr_wrr fun_eq_iff)
  qed
  show "elems (wrr_q ?t) c = ps @ [p] \<and> wrr_slice ?t = (wrr_slice k)(p := wrr_quota k p)"
    if "wrr_slice k p = 1"
  proof -
    have "wrr_time_slice (wrr (tasks k p)) = 1"
      using that by (simp add: wrr_slice_def word_unat_eq_iff)
    with task_tick_wrr_last_queue [OF inv q] show ?thesis
      by (auto simp: wrr_slice_def wrr_quota_def task_tick_wrr_wrr fun_eq_iff)
  qed
next
  fix k :: "'x kernel"
  assume "wrr_ok env c k"
  then show "distinct (elems (wrr_q k) c)" by (simp add: wrr_ok_def wrr_inv_def)
qed

section \<open>Properties\<close>

text \<open>
  C1. In every state the class can reach, the runqueue counters agree with the queues: no task
  is queued twice, \<open>wrr.nr_running\<close> is the length of the queue, \<open>wrr.total_weight\<close> the sum
  of the weights on it, and every queued task has the weight its group calls for (1 for the
  background group, 10 otherwise).
\<close>

theorem wrr_reachable_inv: "wrr_reachable env k \<Longrightarrow> wrr_inv env k"
proof (induction rule: wrr_reachable.induct)
  case (Boot k)
  then show ?case by (simp add: wrr_inv_def queue_weight_def no_lists_def lists_wf_def)
next
  case (Step k k')
  then show ?case using wrr_step_inv by blast
qed

lemma wrr_reachable_k0: "wrr_reachable env0 k0"
  by (rule Boot) (simp_all add: k0_def rq0_def)

theorem wrr_reachable_inv_witness:
  "wrr_inv env0 (task_tick_wrr env0 0 4 0 (enqueue_task_wrr env0 0 4 0
     (enqueue_task_wrr env0 0 3 0 k0)))"
proof -
  let ?a = "enqueue_task_wrr env0 0 3 0 k0"
  let ?b = "enqueue_task_wrr env0 0 4 0 ?a"
  have "wrr_reachable env0 ?a"
    by (rule Step [OF wrr_reachable_k0]) (rule Enqueue, simp add: no_lists_def)
  then have "wrr_reachable env0 ?b"
    by (rule Step) (rule Enqueue, simp add: enqueue_task_wrr_effect no_lists_def)
  then have "wrr_reachable env0 (task_tick_wrr env0 0 4 0 ?b)"
    by (rule Step) (rule Tick, simp add: enqueue_task_wrr_effect)
  then show ?thesis by (rule wrr_reachable_inv)
qed

text \<open>
  C18. A round of the class: with full slices, as many ticks as the weights of the queue add up
  to serve every task once, in queue order, a background task for 1 tick and any other for 10
  consecutive ticks; afterwards the queue is as it was and all slices are full again.
\<close>

theorem wrr_full_round:
  assumes inv: "wrr_inv env k" and len: "length (elems (wrr_q k) c) < 2 ^ 32"
    and full: "\<And>p. p \<in> set (elems (wrr_q k) c) \<Longrightarrow>
                 wrr_time_slice (wrr (tasks k p)) = group_slice env p k"
  shows "\<exists>k'. serve (pick_next_task_wrr c) (\<lambda>p. task_tick_wrr env c p 0)
             (\<Sum>p\<leftarrow>elems (wrr_q k) c. if task_bg env p k then 1 else 10) k =
           (concat (map (\<lambda>p. replicate (if task_bg env p k then 1 else 10) p)
                      (elems (wrr_q k) c)), k')
         \<and> wrr_inv env k' \<and> elems (wrr_q k') c = elems (wrr_q k) c
         \<and> (\<forall>p \<in> set (elems (wrr_q k) c). wrr_time_slice (wrr (tasks k' p)) = group_slice env p k)"
proof -
  let ?q = "elems (wrr_q k) c"
  let ?n = "\<lambda>p. if task_bg env p k then 1 else 10 :: nat"
  have ok: "wrr_ok env c k" using inv len by (simp add: wrr_ok_def)
  have slice: "wrr_slice k p = ?n p" if "p \<in> set ?q" for p
    using full [OF that] by (simp add: wrr_slice_def group_slice_def timeslices)
  have quota: "wrr_refill (wrr_weight (wrr (tasks k p))) = group_slice env p k"
    if "p \<in> set ?q" for p
    using wrr_invD(4) [OF inv that] by (simp add: wrr_refill_def group_weight_def group_slice_def)
  have same: "map (wrr_slice k) ?q = map ?n ?q"
    "map (\<lambda>p. replicate (wrr_slice k p) p) ?q = map (\<lambda>p. replicate (?n p) p) ?q"
    using slice by auto
  have pos: "0 < wrr_slice k p" if "p \<in> set ?q" for p using slice [OF that] by simp
  obtain k' where k': "serve (pick_next_task_wrr c) (\<lambda>p. task_tick_wrr env c p 0)
      (sum_list (map (wrr_slice k) ?q)) k =
      (concat (map (\<lambda>p. replicate (wrr_slice k p) p) ?q), k')" "wrr_ok env c k'"
    "elems (wrr_q k') c = ?q" "\<forall>p \<in> set ?q. wrr_slice k' p = wrr_quota k p"
    using wrr_rr.full_round [OF ok pos] by blast
  then have "\<forall>p \<in> set ?q. wrr_time_slice (wrr (tasks k' p)) = group_slice env p k"
    using quota by (simp add: wrr_slice_def wrr_quota_def word_unat_eq_iff)
  with k' show ?thesis unfolding same by (auto simp: wrr_ok_def)
qed

text \<open>A queue with a foreground and a background task.\<close>

definition k34 :: "unit kernel" where
  "k34 = enqueue_task_wrr env0 0 4 0 (enqueue_task_wrr env0 0 3 0 k0)"

lemma wrr_inv_k0: "wrr_inv env0 k0"
  by (simp add: wrr_inv_def queue_weight_def no_lists_def lists_wf_def k0_def rq0_def)

lemma wrr_inv_k34: "wrr_inv env0 k34"
  unfolding k34_def
  by (intro wrr_inv_enqueue wrr_inv_k0) (simp_all add: enqueue_task_wrr_effect no_lists_def)

lemma k34_facts:
  "elems (wrr_q k34) 0 = [3, 4]" "tgs k34 = tgs k0"
  "sched_task_group (tasks k34 p) = sched_task_group (tasks k0 p)"
  "wrr_time_slice (wrr (tasks k34 3)) = 10" "wrr_time_slice (wrr (tasks k34 4)) = 1"
proof -
  show "elems (wrr_q k34) 0 = [3, 4]" "tgs k34 = tgs k0"
    "sched_task_group (tasks k34 p) = sched_task_group (tasks k0 p)"
    by (simp_all add: k34_def enqueue_task_wrr_effect no_lists_def)
  show "wrr_time_slice (wrr (tasks k34 3)) = 10" "wrr_time_slice (wrr (tasks k34 4)) = 1"
    by (simp_all add: k34_def enqueue_task_wrr_effect refresh_group_slice group_weight_def
        group_slice_def timeslices path0_def path_bg_def k0_def task0_def wrr0_def tg0_def)
qed

lemma task_bg_k34 [simp]: "task_bg env0 p k34 = (p = 4)"
  by (rule task_bg_k0) (simp_all add: k34_facts)

lemma group_slice_k34: "group_slice env0 p k34 = (if p = 4 then 1 else 10)"
  by (simp only: group_slice_def task_bg_k34 timeslices)

theorem wrr_full_round_witness:
  "\<exists>k'. serve (pick_next_task_wrr 0) (\<lambda>p. task_tick_wrr env0 0 p 0) 11 k34 =
     (replicate 10 3 @ [4], k') \<and> elems (wrr_q k') 0 = [3, 4]"
proof -
  have "wrr_time_slice (wrr (tasks k34 p)) = group_slice env0 p k34"
    if "p \<in> set (elems (wrr_q k34) 0)" for p
    using that by (auto simp: k34_facts group_slice_k34)
  moreover have "length (elems (wrr_q k34) 0) < 2 ^ 32" by (simp add: k34_facts)
  ultimately obtain k' where k': "serve (pick_next_task_wrr 0) (\<lambda>p. task_tick_wrr env0 0 p 0)
      (\<Sum>p\<leftarrow>[3, 4 :: tid]. if p = 4 then 1 else 10) k34 =
      (concat (map (\<lambda>p. replicate (if p = 4 then 1 else 10) p) [3, 4]), k')"
    "elems (wrr_q k') 0 = [3, 4]"
    using wrr_full_round [OF wrr_inv_k34, of 0] unfolding k34_facts(1) task_bg_k34 by blast
  have n: "(\<Sum>p\<leftarrow>[3, 4 :: tid]. if p = 4 then 1 else 10 :: nat) = 11" by simp
  have r: "concat (map (\<lambda>p. replicate (if p = 4 then 1 else 10) p) [3, 4 :: tid]) =
      replicate 10 3 @ [4]" by (simp add: eval_nat_numeral)
  show ?thesis by (rule exI, rule conjI [OF k'(1) [unfolded n r] k'(2)])
qed

text \<open>
  Picking. While fewer than \<open>2 ^ 32\<close> tasks are queued, the class offers the head of its
  queue, and nothing exactly when the queue is empty.
\<close>

theorem wrr_pick_head:
  assumes "wrr_inv env k" "length (elems (wrr_q k) c) < 2 ^ 32"
  shows "pick_next_task_wrr c k = (case elems (wrr_q k) c of [] \<Rightarrow> None | p # _ \<Rightarrow> Some p)"
  using pick_next_task_wrr_head [of env c k] assms by (simp add: wrr_ok_def)

theorem wrr_pick_head_witness: "pick_next_task_wrr 0 k34 = Some 3"
  using wrr_pick_head [OF wrr_inv_k34, of 0] by (simp add: k34_facts)

text \<open>
  Dequeueing undoes enqueueing: for a task on no queue, all queues and all runqueue
  counters are as before, whichever end it was put at and whatever its group.
\<close>

theorem wrr_enqueue_dequeue:
  assumes inv: "wrr_inv env k" and new: "home (wrr_q k) p = None"
  shows "wrr_q (dequeue_task_wrr env c p fl (enqueue_task_wrr env c p fl' k)) = wrr_q k
    \<and> rqs (dequeue_task_wrr env c p fl (enqueue_task_wrr env c p fl' k)) = rqs k"
  using list_del_init_add [OF new] list_del_init_add_tail [OF wrr_invD(1) [OF inv] new]
  by (simp add: dequeue_task_wrr_effect enqueue_task_wrr_effect)

theorem wrr_enqueue_dequeue_witness:
  "wrr_q (dequeue_task_wrr env0 1 2 1 (enqueue_task_wrr env0 1 2 1 k34)) = wrr_q k34"
  using wrr_enqueue_dequeue [OF wrr_inv_k34, of 2 1 1 1]
  by (simp add: k34_def enqueue_task_wrr_effect no_lists_def)

text \<open>
  What enqueueing does: the task stands at the end of the queue the flag asks for (the head
  with \<open>ENQUEUE_HEAD\<close>), both running counters grow by one, and the total weight by the weight
  of the task's current group, which is also recorded in the task, with a fresh slice when the
  group's weight changed and the old slice when it did not. Other queues and tasks are left
  alone.
\<close>

theorem wrr_enqueue_spec:
  "let k' = enqueue_task_wrr env c p fl k in
     elems (wrr_q k') = (elems (wrr_q k))(c :=
       (if fl AND ENQUEUE_HEAD \<noteq> 0 then p # elems (wrr_q k) c else elems (wrr_q k) c @ [p]))
   \<and> rqs k' = (rqs k)(c := (rqs k c)\<lparr>
       wrr_total_weight := wrr_total_weight (rqs k c) + (if task_bg env p k then 1 else 10),
       wrr_nr_running := wrr_nr_running (rqs k c) + 1, nr_running := nr_running (rqs k c) + 1\<rparr>)
   \<and> tasks k' = (tasks k)(p := (tasks k p)\<lparr>wrr :=
       (if wrr_weight (wrr (tasks k p)) = (if task_bg env p k then 1 else 10)
        then wrr (tasks k p)
        else (wrr (tasks k p))\<lparr>
           wrr_time_slice := (if task_bg env p k then WRR_BG_TIMESLICE else WRR_FG_TIMESLICE),
           wrr_weight := (if task_bg env p k then 1 else 10)\<rparr>)\<rparr>)"
  by (auto simp: enqueue_task_wrr_effect refresh_group_def group_weight_def Let_def fun_eq_iff)

lemma select_fold:
  assumes "foldl (select_step k p) st cs = (r, w)"
  shows "w \<le> snd st \<and> (\<forall>c \<in> set cs. cpus_allowed (tasks k p) c \<longrightarrow> w \<le> sint (wrr_total_weight (rqs k c)))
     \<and> ((r, w) = st \<or> r \<in> set cs \<and> cpus_allowed (tasks k p) r
          \<and> w = sint (wrr_total_weight (rqs k r)) \<and> w < snd st)"
  using assms
proof (induction cs arbitrary: st)
  case Nil
  then show ?case by simp
next
  case (Cons c cs)
  obtain a b where st: "st = (a, b)" by fastforce
  from Cons.prems have "foldl (select_step k p) (select_step k p st c) cs = (r, w)" by simp
  note IH = Cons.IH [OF this]
  show ?case
    using IH by (auto simp: st select_step_def Let_def split: if_splits)
qed
text \<open>
  C19. Choosing a cpu. For a task not pinned to one cpu the result is never heavier (as a C
  \<open>int\<close>) than the task's own cpu or than any online cpu the task may run on; if it is not the
  task's own cpu, it is online, allowed and strictly lighter.
\<close>

theorem select_task_rq_wrr_least:
  assumes "select_task_rq_wrr env p sd_flag wake_flags k = r"
    and "wrr_nr_cpus_allowed (wrr (tasks k p)) \<noteq> 1"
  shows "sint (wrr_total_weight (rqs k r)) \<le> sint (wrr_total_weight (rqs k (task_cpu (tasks k p))))
    \<and> (\<forall>c \<in> set (for_each_cpu env (cpu_online_mask k)). cpus_allowed (tasks k p) c \<longrightarrow>
         sint (wrr_total_weight (rqs k r)) \<le> sint (wrr_total_weight (rqs k c)))
    \<and> (r = task_cpu (tasks k p) \<or>
         r \<in> set (for_each_cpu env (cpu_online_mask k)) \<and> cpus_allowed (tasks k p) r
         \<and> sint (wrr_total_weight (rqs k r)) < sint (wrr_total_weight (rqs k (task_cpu (tasks k p)))))"
proof -
  let ?own = "task_cpu (tasks k p)"
  let ?st = "(?own, sint (wrr_total_weight (rqs k ?own)))"
  obtain r' w where f: "foldl (select_step k p) ?st (for_each_cpu env (cpu_online_mask k)) = (r', w)"
    by fastforce
  then have "r' = r" using assms by (simp add: select_task_rq_wrr_def Let_def)
  then show ?thesis using select_fold [OF f] by auto
qed

theorem select_task_rq_wrr_least_witness:
  "sint (wrr_total_weight (rqs k34 1)) \<le> sint (wrr_total_weight (rqs k34 0))"
proof -
  have "select_task_rq_wrr env0 2 0 0 k34 = 1"
    by code_simp
  then have "select_task_rq_wrr env0 2 0 0 k34 = 1 \<and> task_cpu (tasks k34 2) = 0
      \<and> wrr_nr_cpus_allowed (wrr (tasks k34 2)) = 2"
    by (simp add: k34_def enqueue_task_wrr_effect k0_def task0_def wrr0_def)
  then show ?thesis
    using select_task_rq_wrr_least [of env0 2 0 0 k34 1] by simp
qed

text \<open>
  Accounting loses its clock when a task is put down: \<open>put_prev_task_wrr\<close> zeroes
  \<open>exec_start\<close> and \<open>pick_next_task_wrr\<close>, unlike the pick of the RT class, does not restart it.
  The first accounting after the task runs again therefore adds the whole runqueue clock
  (the time since boot) to its execution time instead of the time it ran.
\<close>

theorem wrr_exec_start_lost:
  assumes "class_of (tasks k p) = wrr_sched_class" "curr_of k c = p"
    and "\<not> s64_neg (clock_task (rqs k c) + dt)"
  shows "let k1 = put_prev_task_wrr env c p k;
             k2 = upd_rq c (\<lambda>r. r\<lparr>clock_task := clock_task r + dt\<rparr>) k1 in
    exec_start (se (tasks k2 p)) = 0
    \<and> sum_exec_runtime (se (tasks (update_curr_wrr env c k2) p)) =
      sum_exec_runtime (se (tasks k1 p)) + (clock_task (rqs k c) + dt)"
  using assms
  by (simp add: Let_def update_curr_wrr_def account_exec_tasks exec_delta_def
      put_prev_task_wrr_def)

text \<open>One hour after boot a task of cpu 0 is put down, picked again, and runs for 1 ms.\<close>

definition k_hour :: "unit kernel" where
  "k_hour = upd_rq 0 (\<lambda>r. r\<lparr>curr := 3, clock_task := 3600000000000\<rparr>)
     (upd_task 3 (\<lambda>t. t\<lparr>class_of := wrr_sched_class,
        se := (se t)\<lparr>exec_start := 3600000000000\<rparr>\<rparr>) k34)"

lemma k_hour_facts:
  "class_of (tasks k_hour 3) = wrr_sched_class" "curr_of k_hour 0 = 3"
  "clock_task (rqs k_hour 0) = 3600000000000" "exec_start (se (tasks k_hour 3)) = 3600000000000"
  "sum_exec_runtime (se (tasks k_hour 3)) = 0"
  by (simp_all add: k_hour_def k34_def enqueue_task_wrr_effect k0_def task0_def se0_def)

theorem wrr_exec_start_lost_witness:
  "sum_exec_runtime (se (tasks (update_curr_wrr env0 0
      (upd_rq 0 (\<lambda>r. r\<lparr>clock_task := clock_task r + 1000000\<rparr>)
         (put_prev_task_wrr env0 0 3 k_hour))) 3)) = 3600001000000"
proof -
  have "\<not> s64_neg (clock_task (rqs k_hour 0) + 1000000)"
    by (simp add: k_hour_facts s64_neg_def)
  note lost = wrr_exec_start_lost [OF k_hour_facts(1,2) this, of env0]
  have "sum_exec_runtime (se (tasks (put_prev_task_wrr env0 0 3 k_hour) 3)) = 0"
    by (simp add: put_prev_task_wrr_def update_curr_wrr_def account_exec_tasks exec_delta_def
        k_hour_facts s64_neg_def)
  with lost show ?thesis by (simp add: Let_def k_hour_facts)
qed

text \<open>
  The interval reported to user space disagrees with the slice in use: for a task of a
  group other than the root whose name does not start with \<open>b\<close>, such as \<open>/apps\<close>, the class
  gives slices of \<open>WRR_FG_TIMESLICE\<close> and \<open>get_rr_interval_wrr\<close> reports \<open>WRR_BG_TIMESLICE\<close>.
  For the root group and the background group the two agree.
\<close>

theorem wrr_interval_vs_slice:
  "get_rr_interval_wrr env c p k = group_slice env p k \<longleftrightarrow>
    read_group_path env (sched_task_group (tasks k p)) k ! 1 \<in> {CHR 0x00, CHR ''b''}"
  by (auto simp: get_rr_interval_wrr_def group_slice_def path_bg_def timeslices)

end
