(* ===== verification/Rq_Clock.thy ===== *)
theory Rq_Clock
  imports Kernel_State
begin

text \<open>
  The clock of a runqueue and the decaying average of RT time (\<open>update_rq_clock\<close>,
  \<open>update_rq_clock_task\<close>, \<open>sched_avg_update\<close> of \<open>core.c\<close>, \<open>sched_rt_avg_update\<close> of
  \<open>sched.h\<close>), and the moves of a task between cpus and groups that the headers inline
  (\<open>set_task_rq\<close>, \<open>__set_task_cpu\<close>).
\<close>

section \<open>The clock\<close>

definition update_rq_clock_task :: "cpu \<Rightarrow> u64 \<Rightarrow> 'x kernel \<Rightarrow> 'x kernel" where
  "update_rq_clock_task c delta = upd_rq c (\<lambda>r. r\<lparr>clock_task := clock_task r + delta\<rparr>)"

definition update_rq_clock :: "cpu \<Rightarrow> 'x kernel \<Rightarrow> 'x kernel" where
  "update_rq_clock c k =
     (if 0 < skip_clock_update (rqs k c) then k
      else
        let delta = sched_clock k c - clock (rqs k c);
            k = upd_rq c (\<lambda>r. r\<lparr>clock := clock r + delta\<rparr>) k
        in update_rq_clock_task c delta k)"

section \<open>The average of RT time\<close>

text \<open>\<open>sysctl_sched_time_avg\<close> is 1000 ms, so half a period is 500 ms.\<close>

definition sched_avg_period :: u64 where
  "sched_avg_period = 1000 * 1000000 div 2"

lemma sched_avg_period_val: "sched_avg_period = 500000000"
  by (simp add: sched_avg_period_def)

lemma sint_diff_less:
  assumes "500000000 < sint (x :: u64)"
  shows "sint (x - 500000000) = sint x - 500000000"
proof -
  have "sint x < 2 ^ 63" using sint_lt [of x] by simp
  moreover have "sint (500000000 :: u64) = 500000000" by simp
  ultimately show ?thesis
    using assms by (simp add: sint_word_ariths signed_take_bit_int_eq_self)
qed

function age_rt_avg :: "rq \<Rightarrow> rq" where
  "age_rt_avg r =
     (if sint sched_avg_period < sint (clock r - age_stamp r)
      then age_rt_avg (r\<lparr>age_stamp := age_stamp r + sched_avg_period, rt_avg := rt_avg r div 2\<rparr>)
      else r)"
  by pat_completeness auto
termination
proof (relation "measure (\<lambda>r. nat (sint (clock r - age_stamp r)))", goal_cases)
  case (2 r)
  then have less: "500000000 < sint (clock r - age_stamp r)" by (simp add: sched_avg_period_val)
  from sint_diff_less [OF less] less show ?case
    by (simp add: sched_avg_period_val diff_diff_eq)
qed simp

declare age_rt_avg.simps [simp del]

text \<open>Both updates are empty without \<open>CONFIG_SMP\<close>.\<close>

definition sched_avg_update :: "'x env \<Rightarrow> cpu \<Rightarrow> 'x kernel \<Rightarrow> 'x kernel" where
  "sched_avg_update env c k = (if config_smp env then upd_rq c age_rt_avg k else k)"

definition sched_rt_avg_update :: "'x env \<Rightarrow> cpu \<Rightarrow> u64 \<Rightarrow> 'x kernel \<Rightarrow> 'x kernel" where
  "sched_rt_avg_update env c rt_delta k =
     (if config_smp env
      then sched_avg_update env c (upd_rq c (\<lambda>r. r\<lparr>rt_avg := rt_avg r + rt_delta\<rparr>) k)
      else k)"

text \<open>Ageing touches the average and its stamp only, and leaves less than a period behind.\<close>

lemma age_rt_avg_fields:
  "\<exists>a s. age_rt_avg r = r\<lparr>age_stamp := s, rt_avg := a\<rparr>"
proof (induction r rule: age_rt_avg.induct)
  case (1 r)
  show ?case
  proof (cases "sint sched_avg_period < sint (clock r - age_stamp r)")
    case True
    with 1 show ?thesis by (subst age_rt_avg.simps) fastforce
  next
    case False
    then have "age_rt_avg r = r\<lparr>age_stamp := age_stamp r, rt_avg := rt_avg r\<rparr>"
      by (simp add: age_rt_avg.simps [of r])
    then show ?thesis by blast
  qed
qed

lemma age_rt_avg_frame [simp, frame]:
  "clock (age_rt_avg r) = clock r" "clock_task (age_rt_avg r) = clock_task r"
  "nr_running (age_rt_avg r) = nr_running r" "curr (age_rt_avg r) = curr r"
  "idle (age_rt_avg r) = idle r" "stop (age_rt_avg r) = stop r"
  "wrr_nr_running (age_rt_avg r) = wrr_nr_running r"
  "wrr_total_weight (age_rt_avg r) = wrr_total_weight r"
  "online (age_rt_avg r) = online r" "post_schedule (age_rt_avg r) = post_schedule r"
  "skip_clock_update (age_rt_avg r) = skip_clock_update r"
  "nr_uninterruptible (age_rt_avg r) = nr_uninterruptible r"
  "cpu_load (age_rt_avg r) = cpu_load r" "wake_list (age_rt_avg r) = wake_list r"
  "calc_load_active (age_rt_avg r) = calc_load_active r"
  "calc_load_update (age_rt_avg r) = calc_load_update r"
  using age_rt_avg_fields [of r] by auto

lemma age_rt_avg_done: "sint (clock r - age_stamp (age_rt_avg r)) \<le> sint sched_avg_period"
proof (induction r rule: age_rt_avg.induct)
  case (1 r)
  then show ?case by (subst age_rt_avg.simps) auto
qed

section \<open>Moving a task\<close>

text \<open>The entity of a group on a cpu; the root group has none.\<close>

definition tg_rt_se :: "tgid \<Rightarrow> cpu \<Rightarrow> rt_se_ref option" where
  "tg_rt_se g c = (if g = ROOT_TG then None else Some (Group_se g c))"

definition set_task_rq :: "tid \<Rightarrow> cpu \<Rightarrow> 'x kernel \<Rightarrow> 'x kernel" where
  "set_task_rq p c k =
     (let tg = sched_task_group (tasks k p);
          k = upd_task p (\<lambda>t. t\<lparr>se := (se t)\<lparr>se_group := Some (tg, c)\<rparr>\<rparr>) k
      in upd_rt_se (Task_se p) (\<lambda>e. e\<lparr>rt_rq_of := (tg, c), rt_parent := tg_rt_se tg c\<rparr>) k)"

definition set_task_cpu_raw :: "'x env \<Rightarrow> tid \<Rightarrow> cpu \<Rightarrow> 'x kernel \<Rightarrow> 'x kernel" where
  "set_task_cpu_raw env p c k =
     (let k = set_task_rq p c k in
      if config_smp env then upd_task p (\<lambda>t. t\<lparr>task_cpu := c\<rparr>) k else k)"

text \<open>\<open>set_task_cpu\<close> exists on SMP only; without it the header's version is empty.\<close>

definition set_task_cpu :: "'x env \<Rightarrow> tid \<Rightarrow> cpu \<Rightarrow> 'x kernel \<Rightarrow> 'x kernel" where
  "set_task_cpu env p new_cpu k =
     (if \<not> config_smp env then k
      else
        let k = (if task_cpu (tasks k p) \<noteq> new_cpu
                 then upd_task p (\<lambda>t. t\<lparr>se := (se t)\<lparr>nr_migrations := nr_migrations (se t) + 1\<rparr>\<rparr>) k
                 else k)
        in set_task_cpu_raw env p new_cpu k)"

end
