(* ===== verification/Load_Avg.thy ===== *)
theory Load_Avg
  imports Rq_Clock
begin

text \<open>
  Load tracking of \<open>core.c\<close>: the global load average with its per-cpu folding and the NO_HZ
  idle deltas, fixed-point powers, and the per-cpu \<open>cpu_load\<close> array with its decay tables.
  \<open>unsigned long\<close> and \<open>long\<close> are 32 bits.
\<close>

section \<open>Constants\<close>

definition FSHIFT :: nat where "FSHIFT = 11"
definition FIXED_1 :: u32 where "FIXED_1 = push_bit FSHIFT 1"
definition LOAD_FREQ :: u32 where "LOAD_FREQ = 5 * HZ + 1"
definition EXP_1 :: u32 where "EXP_1 = 1884"
definition EXP_5 :: u32 where "EXP_5 = 2014"
definition EXP_15 :: u32 where "EXP_15 = 2037"

lemma FIXED_1_val: "FIXED_1 = 2048"
  by (simp add: FIXED_1_def FSHIFT_def)

text \<open>\<open>time_before(a, b)\<close> of \<open>linux/jiffies.h\<close>: the signed difference is negative.\<close>

definition time_before :: "u32 \<Rightarrow> u32 \<Rightarrow> bool" where
  "time_before a b \<longleftrightarrow> sint (a - b) < 0"

section \<open>The global average\<close>

definition get_avenrun :: "load_globals \<Rightarrow> u32 \<Rightarrow> nat \<Rightarrow> u32 list" where
  "get_avenrun g offset shift =
     [push_bit shift (avenrun g 0 + offset), push_bit shift (avenrun g 1 + offset),
      push_bit shift (avenrun g 2 + offset)]"

definition calc_load_fold_active :: "rq \<Rightarrow> u32 \<times> rq" where
  "calc_load_fold_active r =
     (let nr_active = nr_running r + nr_uninterruptible r in
      if nr_active \<noteq> calc_load_active r
      then (nr_active - calc_load_active r, r\<lparr>calc_load_active := nr_active\<rparr>)
      else (0, r))"

definition calc_load :: "u32 \<Rightarrow> u32 \<Rightarrow> u32 \<Rightarrow> u32" where
  "calc_load load exp active =
     (let load = load * exp;
          load = load + active * (FIXED_1 - exp);
          load = load + push_bit (FSHIFT - 1) 1
      in drop_bit FSHIFT load)"

definition calc_load_write_idx :: "u32 \<Rightarrow> load_globals \<Rightarrow> nat" where
  "calc_load_write_idx jiff g =
     unat ((calc_load_idx g + (if \<not> time_before jiff (calc_load_next g) then 1 else 0)) AND 1)"

definition calc_load_read_idx :: "load_globals \<Rightarrow> nat" where
  "calc_load_read_idx g = unat (calc_load_idx g AND 1)"

definition calc_load_enter_idle :: "cpu \<Rightarrow> 'x kernel \<Rightarrow> 'x kernel" where
  "calc_load_enter_idle c k =
     (case calc_load_fold_active (rqs k c) of
        (delta, r) \<Rightarrow>
          let k = upd_rq c (\<lambda>_. r) k in
          if delta \<noteq> 0 then
            let idx = calc_load_write_idx (jiffies k) (load_globals k) in
            load_globals_update (\<lambda>g. g\<lparr>calc_load_idle :=
              (calc_load_idle g)(idx := calc_load_idle g idx + delta)\<rparr>) k
          else k)"

definition calc_load_exit_idle :: "cpu \<Rightarrow> 'x kernel \<Rightarrow> 'x kernel" where
  "calc_load_exit_idle c k =
     (if time_before (jiffies k) (calc_load_update (rqs k c)) then k
      else
        let k = upd_rq c (\<lambda>r. r\<lparr>calc_load_update := calc_load_next (load_globals k)\<rparr>) k in
        if time_before (jiffies k) (calc_load_update (rqs k c) + 10)
        then upd_rq c (\<lambda>r. r\<lparr>calc_load_update := calc_load_update r + LOAD_FREQ\<rparr>) k
        else k)"

definition calc_load_fold_idle :: "load_globals \<Rightarrow> u32 \<times> load_globals" where
  "calc_load_fold_idle g =
     (let idx = calc_load_read_idx g in
      if calc_load_idle g idx \<noteq> 0
      then (calc_load_idle g idx, g\<lparr>calc_load_idle := (calc_load_idle g)(idx := 0)\<rparr>)
      else (0, g))"

section \<open>Fixed-point powers\<close>

text \<open>One rounded fixed-point multiplication, which the loop of \<open>fixed_power_int\<close> repeats.\<close>

definition fixed_mul :: "nat \<Rightarrow> u32 \<Rightarrow> u32 \<Rightarrow> u32" where
  "fixed_mul frac_bits a b = drop_bit frac_bits (a * b + push_bit (frac_bits - 1) 1)"

lemma drop_bit_1_less: "n \<noteq> 0 \<Longrightarrow> unat (drop_bit 1 (n :: u32)) < unat n"
  using div_less_dividend [of 2 "unat n"] by (simp add: unat_div unat_gt_0 drop_bit_Suc)

function fixed_power_loop :: "u32 \<Rightarrow> u32 \<Rightarrow> nat \<Rightarrow> u32 \<Rightarrow> u32" where
  "fixed_power_loop result x frac_bits n =
     (let result = (if n AND 1 \<noteq> 0 then fixed_mul frac_bits result x else result);
          n' = drop_bit 1 n in
      if n' = 0 then result
      else fixed_power_loop result (fixed_mul frac_bits x x) frac_bits n')"
  by pat_completeness auto
termination
proof (relation "measure (\<lambda>(r, x, f, n). unat n)", goal_cases)
  case (2 r x f n r' n')
  then have "n \<noteq> 0" by auto
  with 2 drop_bit_1_less [of n] show ?case by auto
qed simp

declare fixed_power_loop.simps [simp del]

definition fixed_power_int :: "u32 \<Rightarrow> nat \<Rightarrow> u32 \<Rightarrow> u32" where
  "fixed_power_int x frac_bits n =
     (if n \<noteq> 0 then fixed_power_loop (push_bit frac_bits 1) x frac_bits n
      else push_bit frac_bits 1)"

definition calc_load_n :: "u32 \<Rightarrow> u32 \<Rightarrow> u32 \<Rightarrow> u32 \<Rightarrow> u32" where
  "calc_load_n load exp active n = calc_load load (fixed_power_int exp FSHIFT n) active"

section \<open>The periodic update\<close>

definition load_active :: "load_globals \<Rightarrow> u32" where
  "load_active g =
     (if 0 < sint (calc_load_tasks g) then calc_load_tasks g * FIXED_1 else 0)"

definition calc_global_nohz :: "u32 \<Rightarrow> load_globals \<Rightarrow> load_globals" where
  "calc_global_nohz jiff g =
     (let g = (if \<not> time_before jiff (calc_load_next g + 10) then
                 let delta = jiff - calc_load_next g - 10;
                     n = 1 + delta div LOAD_FREQ;
                     active = load_active g
                 in g\<lparr>avenrun := (avenrun g)
                        (0 := calc_load_n (avenrun g 0) EXP_1 active n,
                         1 := calc_load_n (avenrun g 1) EXP_5 active n,
                         2 := calc_load_n (avenrun g 2) EXP_15 active n),
                      calc_load_next := calc_load_next g + n * LOAD_FREQ\<rparr>
               else g)
      in g\<lparr>calc_load_idx := calc_load_idx g + 1\<rparr>)"

definition calc_global_load :: "u32 \<Rightarrow> load_globals \<Rightarrow> load_globals" where
  "calc_global_load jiff g =
     (if time_before jiff (calc_load_next g + 10) then g
      else
        case calc_load_fold_idle g of
          (delta, g) \<Rightarrow>
            let g = (if delta \<noteq> 0 then g\<lparr>calc_load_tasks := calc_load_tasks g + delta\<rparr> else g);
                active = load_active g;
                g = g\<lparr>avenrun := (avenrun g)
                       (0 := calc_load (avenrun g 0) EXP_1 active,
                        1 := calc_load (avenrun g 1) EXP_5 active,
                        2 := calc_load (avenrun g 2) EXP_15 active)\<rparr>;
                g = g\<lparr>calc_load_next := calc_load_next g + LOAD_FREQ\<rparr>
            in calc_global_nohz jiff g)"

definition calc_load_account_active :: "cpu \<Rightarrow> 'x kernel \<Rightarrow> 'x kernel" where
  "calc_load_account_active c k =
     (if time_before (jiffies k) (calc_load_update (rqs k c)) then k
      else
        case calc_load_fold_active (rqs k c) of
          (delta, r) \<Rightarrow>
            let k = upd_rq c (\<lambda>_. r) k;
                k = (if delta \<noteq> 0
                     then load_globals_update (\<lambda>g. g\<lparr>calc_load_tasks := calc_load_tasks g + delta\<rparr>) k
                     else k)
            in upd_rq c (\<lambda>r. r\<lparr>calc_load_update := calc_load_update r + LOAD_FREQ\<rparr>) k)"

text \<open>The two functions of cpu hotplug that keep the sums.\<close>

definition calc_global_load_remove :: "cpu \<Rightarrow> 'x kernel \<Rightarrow> 'x kernel" where
  "calc_global_load_remove c k =
     (let k = load_globals_update (\<lambda>g. g\<lparr>calc_load_tasks :=
                calc_load_tasks g - calc_load_active (rqs k c)\<rparr>) k
      in upd_rq c (\<lambda>r. r\<lparr>calc_load_active := 0\<rparr>) k)"

definition migrate_nr_uninterruptible :: "'x env \<Rightarrow> cpu \<Rightarrow> 'x kernel \<Rightarrow> 'x kernel" where
  "migrate_nr_uninterruptible env src k =
     (let dest = hd (for_each_cpu env (cpu_active_mask k));
          k = upd_rq dest (\<lambda>r. r\<lparr>nr_uninterruptible :=
                nr_uninterruptible r + nr_uninterruptible (rqs k src)\<rparr>) k
      in upd_rq src (\<lambda>r. r\<lparr>nr_uninterruptible := 0\<rparr>) k)"

section \<open>The load of a cpu\<close>

definition degrade_zero_ticks :: "nat list" where
  "degrade_zero_ticks = [0, 8, 32, 64, 128]"

definition degrade_factor :: "u32 list list" where
  "degrade_factor =
     [[0, 0, 0, 0, 0, 0, 0, 0],
      [64, 32, 8, 0, 0, 0, 0, 0],
      [96, 72, 40, 12, 1, 0, 0, 0],
      [112, 98, 75, 43, 15, 1, 0, 0],
      [120, 112, 98, 76, 45, 16, 2, 0]]"

fun decay_loop :: "nat \<Rightarrow> nat \<Rightarrow> nat \<Rightarrow> u32 \<Rightarrow> u32" where
  "decay_loop idx j missed_updates load =
     (if missed_updates = 0 then load
      else decay_loop idx (Suc j) (missed_updates div 2)
             (if missed_updates mod 2 = 1
              then drop_bit 7 (load * degrade_factor ! idx ! j) else load))"

declare decay_loop.simps [simp del]

definition decay_load_missed :: "u32 \<Rightarrow> u32 \<Rightarrow> nat \<Rightarrow> u32" where
  "decay_load_missed load missed_updates idx =
     (if missed_updates = 0 then load
      else if degrade_zero_ticks ! idx \<le> unat missed_updates then 0
      else if idx = 1 then drop_bit (unat missed_updates) load
      else decay_loop idx 0 (unat missed_updates) load)"

definition cpu_load_step :: "u32 \<Rightarrow> u32 \<Rightarrow> (nat \<Rightarrow> u32) \<Rightarrow> nat \<Rightarrow> (nat \<Rightarrow> u32)" where
  "cpu_load_step this_load pending_updates load i =
     (let scale = push_bit i 1;
          old_load = decay_load_missed (load i) (pending_updates - 1) i;
          new_load = (if old_load < this_load then this_load + (scale - 1) else this_load)
      in load(i := drop_bit i (old_load * (scale - 1) + new_load)))"

definition update_cpu_load :: "'x env \<Rightarrow> cpu \<Rightarrow> 'x kernel \<Rightarrow> 'x kernel" where
  "update_cpu_load env c k =
     (let this_load = rq_load_weight (rqs k c);
          k = upd_rq c (\<lambda>r. r\<lparr>nr_load_updates := nr_load_updates r + 1\<rparr>) k in
      if jiffies k = last_load_update_tick (rqs k c) then k
      else
        let pending_updates = jiffies k - last_load_update_tick (rqs k c);
            k = upd_rq c (\<lambda>r. r\<lparr>last_load_update_tick := jiffies k\<rparr>) k;
            k = upd_rq c (\<lambda>r. r\<lparr>cpu_load := (cpu_load r)(0 := this_load)\<rparr>) k;
            k = upd_rq c (\<lambda>r. r\<lparr>cpu_load :=
                  foldl (cpu_load_step this_load pending_updates) (cpu_load r) [1..<5]\<rparr>) k
        in sched_avg_update env c k)"

definition update_cpu_load_active :: "'x env \<Rightarrow> cpu \<Rightarrow> 'x kernel \<Rightarrow> 'x kernel" where
  "update_cpu_load_active env c k = calc_load_account_active c (update_cpu_load env c k)"

end
