(* ===== verification/Load_Props.thy ===== *)
theory Load_Props
  imports Load_Avg Example_State
begin

text \<open>
  Properties of the load tracking: the averages stay between their inputs, powers of a
  fraction are fractions, the per-cpu folding loses nothing, and missed ticks only decay.
\<close>

section \<open>Word arithmetic without overflow\<close>

lemma unat_mult_less: "unat a * unat b < 2 ^ 32 \<Longrightarrow> unat (a * b :: u32) = unat a * unat b"
  by (simp add: unat_word_ariths)

lemma unat_add_less: "unat a + unat b < 2 ^ 32 \<Longrightarrow> unat (a + b :: u32) = unat a + unat b"
  by (simp add: unat_word_ariths)

lemma unat_drop_bit: "unat (drop_bit n (a :: u32)) = unat a div 2 ^ n"
  unfolding unat_drop_bit_eq by (simp add: drop_bit_eq_div)

lemma unat_push_bit_1: "n < 32 \<Longrightarrow> unat (push_bit n 1 :: u32) = 2 ^ n"
proof -
  assume "n < 32"
  then have "(2::nat) ^ n < 2 ^ 32" by (intro power_strict_increasing) auto
  moreover have "push_bit n 1 = (of_nat (2 ^ n) :: u32)" by (simp add: push_bit_eq_mult)
  ultimately show ?thesis
    using unat_of_nat [of "2 ^ n", where 'a = 32] take_bit_nat_eq_self [of "2 ^ n" 32] by simp
qed

section \<open>The averages\<close>

lemma calc_load_unat:
  assumes "exp \<le> FIXED_1" "unat load \<le> b" "unat active \<le> b" "b * 2048 + 1024 < 2 ^ 32"
  shows "unat (calc_load load exp active) =
    (unat load * unat exp + unat active * (2048 - unat exp) + 1024) div 2048"
proof -
  have e: "unat exp \<le> 2048" using assms(1) by (simp add: FIXED_1_val word_le_nat_alt)
  have c: "unat (FIXED_1 - exp) = 2048 - unat exp"
    using assms(1) by (simp add: unat_sub FIXED_1_val)
  have l: "unat load * unat exp \<le> b * unat exp" using assms(2) by simp
  have a: "unat active * (2048 - unat exp) \<le> b * (2048 - unat exp)" using assms(3) by simp
  have "b * unat exp + b * (2048 - unat exp) = b * 2048"
    using e by (simp add: distrib_left [symmetric])
  with l a have s: "unat load * unat exp + unat active * (2048 - unat exp) \<le> b * 2048" by linarith
  have u1: "unat (load * exp) = unat load * unat exp"
    using s assms(4) by (intro unat_mult_less) linarith
  have u2: "unat (active * (FIXED_1 - exp)) = unat active * (2048 - unat exp)"
    using unat_mult_less [of active "FIXED_1 - exp"] s assms(4) unfolding c by linarith
  have u3: "unat (load * exp + active * (FIXED_1 - exp)) =
      unat load * unat exp + unat active * (2048 - unat exp)"
    unfolding u1 [symmetric] u2 [symmetric]
    by (rule unat_add_less) (use s assms(4) u1 u2 in linarith)
  have u4: "unat (load * exp + active * (FIXED_1 - exp) + 1024) =
      unat load * unat exp + unat active * (2048 - unat exp) + 1024"
    using unat_add_less [of "load * exp + active * (FIXED_1 - exp)" 1024] u3 s assms(4) by simp
  show ?thesis
    by (simp add: calc_load_def Let_def FSHIFT_def unat_drop_bit u4)
qed

text \<open>
  The load average is an average: with a factor of at most 1.0 and inputs small enough not to
  overflow (below about 1000 runnable tasks), the new value lies between any lower and any upper
  bound of the old load and the active load.
\<close>

theorem calc_load_between:
  assumes "exp \<le> FIXED_1" "a \<le> unat load" "a \<le> unat active" "unat load \<le> b" "unat active \<le> b"
    and "b * 2048 + 1024 < 2 ^ 32"
  shows "a \<le> unat (calc_load load exp active) \<and> unat (calc_load load exp active) \<le> b"
proof -
  let ?e = "unat exp" and ?s = "unat load * unat exp + unat active * (2048 - unat exp)"
  have e: "?e \<le> 2048" using assms(1) by (simp add: FIXED_1_val word_le_nat_alt)
  have split: "x * ?e + x * (2048 - ?e) = x * 2048" for x
    using e by (simp add: distrib_left [symmetric])
  have "a * ?e + a * (2048 - ?e) \<le> ?s" using assms(2,3) by (intro add_mono mult_le_mono) auto
  moreover have "?s \<le> b * ?e + b * (2048 - ?e)"
    using assms(4,5) by (intro add_mono mult_le_mono) auto
  ultimately have s: "a * 2048 \<le> ?s" "?s \<le> b * 2048" unfolding split by auto
  have "a \<le> (?s + 1024) div 2048" using s(1) by (simp add: less_eq_div_iff_mult_less_eq)
  moreover have "(?s + 1024) div 2048 \<le> b"
    using s(2) div_less_iff_less_mult [of 2048 "?s + 1024" "Suc b"] by simp
  ultimately show ?thesis using calc_load_unat [OF assms(1,4,5,6)] by simp
qed

theorem calc_load_between_witness:
  "2048 \<le> unat (calc_load 4096 EXP_1 2048) \<and> unat (calc_load 4096 EXP_1 2048) \<le> 4096"
  using calc_load_between [of EXP_1 2048 4096 2048 4096]
  by (simp add: EXP_1_def FIXED_1_val)

section \<open>Powers\<close>

lemma fixed_mul_le:
  assumes f: "0 < f" "f \<le> 15" and a: "unat a \<le> 2 ^ f" and b: "unat b \<le> 2 ^ f"
  shows "unat (fixed_mul f a b) \<le> 2 ^ f"
proof -
  have ab: "unat a * unat b \<le> 2 ^ f * 2 ^ f" using a b by (intro mult_le_mono)
  have "(2::nat) ^ f \<le> 2 ^ 15" using f(2) by (intro power_increasing) auto
  then have "(2::nat) ^ f * 2 ^ f \<le> 2 ^ 15 * 2 ^ 15" by (intro mult_le_mono)
  then have sq: "(2::nat) ^ f * 2 ^ f \<le> 2 ^ 30" by simp
  have half: "(2::nat) ^ (f - 1) \<le> 2 ^ 14" using f by (intro power_increasing) auto
  have p: "unat (push_bit (f - 1) 1 :: u32) = 2 ^ (f - 1)"
    using f by (intro unat_push_bit_1) simp
  have u1: "unat (a * b) = unat a * unat b" using ab sq by (intro unat_mult_less) simp
  have u2: "unat (a * b + push_bit (f - 1) 1) = unat a * unat b + 2 ^ (f - 1)"
    using unat_add_less [of "a * b" "push_bit (f - 1) 1"] u1 p ab sq half by simp
  have "(2::nat) ^ (f - 1) < 2 ^ f" using f(1) by (intro power_strict_increasing) auto
  then have "unat a * unat b + 2 ^ (f - 1) < Suc (2 ^ f) * 2 ^ f"
    using ab unfolding mult_Suc by linarith
  then have "(unat a * unat b + 2 ^ (f - 1)) div 2 ^ f < Suc (2 ^ f)"
    by (simp add: div_less_iff_less_mult)
  then show ?thesis by (simp only: fixed_mul_def unat_drop_bit u2 less_Suc_eq_le)
qed

lemma fixed_power_loop_le:
  assumes f: "0 < f" "f \<le> 15"
  shows "\<lbrakk>unat r \<le> 2 ^ f; unat x \<le> 2 ^ f\<rbrakk> \<Longrightarrow> unat (fixed_power_loop r x f n) \<le> 2 ^ f"
  using f
proof (induction r x f n rule: fixed_power_loop.induct)
  case (1 r x f n)
  then show ?case
    by (subst fixed_power_loop.simps) (auto simp: Let_def fixed_mul_le)
qed

text \<open>
  Powers of a fraction. With at most 15 fractional bits, \<open>fixed_power_int\<close> of a number that is
  at most 1.0 is at most 1.0 for every exponent, however long the loop runs; the power 0 is 1.0.
\<close>

theorem fixed_power_int_fraction:
  assumes "0 < f" "f \<le> 15" "unat x \<le> 2 ^ f"
  shows "unat (fixed_power_int x f n) \<le> 2 ^ f \<and> fixed_power_int x f 0 = push_bit f 1"
proof -
  have "unat (push_bit f 1 :: u32) = 2 ^ f" using assms(2) by (intro unat_push_bit_1) simp
  then show ?thesis
    using assms fixed_power_loop_le by (auto simp: fixed_power_int_def)
qed

theorem fixed_power_int_fraction_witness: "unat (fixed_power_int EXP_5 FSHIFT 1000000) \<le> 2048"
  using fixed_power_int_fraction [of FSHIFT EXP_5 1000000] by (simp add: FSHIFT_def EXP_5_def)

section \<open>Decay\<close>

lemma degrade_le:
  assumes "unat (load :: u32) < 2 ^ 25" "unat f \<le> 128"
  shows "unat (drop_bit 7 (load * f)) \<le> unat load"
proof -
  have m: "unat load * unat f \<le> unat load * 128" using assms(2) by simp
  moreover have "unat load * 128 < 2 ^ 32" using assms(1) by simp
  ultimately have "unat (load * f) = unat load * unat f" by (intro unat_mult_less) linarith
  with div_le_mono [OF m, of 128] show ?thesis by (simp add: unat_drop_bit)
qed

lemma degrade_rows:
  "\<forall>row \<in> set degrade_factor. length row = 8 \<and> (\<forall>f \<in> set row. unat f \<le> 128)"
  by (simp add: degrade_factor_def)

lemma degrade_factor_le: "\<lbrakk>i < 5; j < 8\<rbrakk> \<Longrightarrow> unat (degrade_factor ! i ! j) \<le> 128"
proof -
  assume "i < 5" "j < 8"
  moreover have "length degrade_factor = 5" by (simp add: degrade_factor_def)
  ultimately show ?thesis using degrade_rows by (metis nth_mem)
qed

lemma decay_loop_le:
  "\<lbrakk>idx < 5; m < 2 ^ (8 - j); j \<le> 8; unat load < 2 ^ 25\<rbrakk>
   \<Longrightarrow> unat (decay_loop idx j m load) \<le> unat load"
proof (induction idx j m load rule: decay_loop.induct)
  case (1 idx j m load)
  show ?case
  proof (cases "m = 0")
    case False
    with "1.prems" have j: "j < 8" by (cases "j = 8") auto
    let ?load = "if m mod 2 = 1 then drop_bit 7 (load * degrade_factor ! idx ! j) else load"
    have le: "unat ?load \<le> unat load"
      using "1.prems" j degrade_le degrade_factor_le by auto
    have "2 ^ (8 - j) = 2 * (2::nat) ^ (8 - Suc j)" using j
      by (metis Suc_diff_Suc power_Suc)
    with "1.prems"(2) have "m div 2 < 2 ^ (8 - Suc j)" by simp
    with False "1.prems" le j have "unat (decay_loop idx (Suc j) (m div 2) ?load) \<le> unat ?load"
      by (intro "1.IH") auto
    with le False show ?thesis by (subst decay_loop.simps) simp
  qed (simp add: decay_loop.simps)
qed

text \<open>
  Ticks missed while idle only decay a load: for every index of the array and every number of
  missed ticks the result is at most the old load (below \<open>2 ^ 25\<close>), it is the old load when
  nothing was missed, and 0 from the table's limit on. The loop never leaves the table's rows.
\<close>

theorem decay_load_missed_le:
  assumes "idx < 5" "unat load < 2 ^ 25"
  shows "unat (decay_load_missed load missed idx) \<le> unat load
    \<and> decay_load_missed load 0 idx = load
    \<and> (degrade_zero_ticks ! idx \<le> unat missed \<and> missed \<noteq> 0 \<longrightarrow> decay_load_missed load missed idx = 0)"
proof -
  have z: "degrade_zero_ticks ! idx \<le> 128"
    using assms(1) nth_mem [of idx degrade_zero_ticks] by (auto simp: degrade_zero_ticks_def)
  have "unat (decay_loop idx 0 (unat missed) load) \<le> unat load"
    if "\<not> degrade_zero_ticks ! idx \<le> unat missed"
    using decay_loop_le [of idx "unat missed" 0 load] that z assms by simp
  then show ?thesis by (auto simp: decay_load_missed_def unat_drop_bit)
qed

theorem decay_load_missed_le_witness: "unat (decay_load_missed 1024 5 2) \<le> 1024"
  using decay_load_missed_le [of 2 1024 5] by simp

section \<open>Folding\<close>

definition load_inv :: "'x env \<Rightarrow> 'x kernel \<Rightarrow> bool" where
  "load_inv env k \<longleftrightarrow>
     calc_load_tasks (load_globals k) + calc_load_idle (load_globals k) 0
       + calc_load_idle (load_globals k) 1
     = (\<Sum>c < nr_cpu_ids env. calc_load_active (rqs k c))"

inductive load_step :: "'x env \<Rightarrow> 'x kernel \<Rightarrow> 'x kernel \<Rightarrow> bool" for env where
  Tick: "c < nr_cpu_ids env \<Longrightarrow> load_step env k (update_cpu_load_active env c k)"
| Enter_idle: "c < nr_cpu_ids env \<Longrightarrow> load_step env k (calc_load_enter_idle c k)"
| Exit_idle: "load_step env k (calc_load_exit_idle c k)"
| Global: "load_step env k (load_globals_update (calc_global_load (jiffies k)) k)"
| Remove: "c < nr_cpu_ids env \<Longrightarrow> load_step env k (calc_global_load_remove c k)"
| Run: "\<lbrakk>load_globals k' = load_globals k;
    \<And>c. calc_load_active (rqs k' c) = calc_load_active (rqs k c)\<rbrakk> \<Longrightarrow> load_step env k k'"

lemma sum_upd:
  fixes f :: "nat \<Rightarrow> u32"
  shows "c < n \<Longrightarrow> (\<Sum>i < n. if i = c then v else f i) = (\<Sum>i < n. f i) + (v - f c)"
proof (induction n)
  case (Suc n)
  have "(\<Sum>i < n. if i = n then v else f i) = (\<Sum>i < n. f i)" by (intro sum.cong) auto
  with Suc show ?case by (cases "c = n") auto
qed simp

text \<open>The total of the three global counters.\<close>

definition load_total :: "load_globals \<Rightarrow> u32" where
  "load_total g = calc_load_tasks g + calc_load_idle g 0 + calc_load_idle g 1"

lemma load_inv_move:
  assumes "load_inv env k" "c < nr_cpu_ids env"
    and "\<And>i. calc_load_active (rqs k' i) = (if i = c then v else calc_load_active (rqs k i))"
    and "load_total (load_globals k') =
           load_total (load_globals k) + (v - calc_load_active (rqs k c))"
  shows "load_inv env k'"
  using assms sum_upd [OF assms(2), of v "\<lambda>i. calc_load_active (rqs k i)"]
  by (simp add: load_inv_def load_total_def)

lemma idx_cases: "unat ((x :: u32) AND 1) = 0 \<or> unat (x AND 1) = 1"
proof -
  have "unat (x mod 2) < 2" by (simp add: unat_mod)
  then show ?thesis by (auto simp: and_one_eq)
qed

lemma calc_load_fold_active_spec:
  "calc_load_fold_active r =
     (nr_running r + nr_uninterruptible r - calc_load_active r,
      r\<lparr>calc_load_active := nr_running r + nr_uninterruptible r\<rparr>)"
  by (auto simp: calc_load_fold_active_def Let_def)

lemma load_inv_cong:
  "\<lbrakk>load_inv env k; load_globals k' = load_globals k;
    \<And>c. calc_load_active (rqs k' c) = calc_load_active (rqs k c)\<rbrakk> \<Longrightarrow> load_inv env k'"
  by (simp add: load_inv_def)

lemma update_cpu_load_frame [simp, frame]:
  "load_globals (update_cpu_load env c k) = load_globals k"
  "calc_load_active (rqs (update_cpu_load env c k) c') = calc_load_active (rqs k c')"
  by (simp_all add: update_cpu_load_def Let_def sched_avg_update_def)

lemma load_total_add:
  "load_total (g\<lparr>calc_load_tasks := calc_load_tasks g + d\<rparr>) = load_total g + d"
  "i = 0 \<or> i = 1 \<Longrightarrow>
     load_total (g\<lparr>calc_load_idle := (calc_load_idle g)(i := calc_load_idle g i + d)\<rparr>) = load_total g + d"
  by (auto simp: load_total_def)

lemma load_inv_account:
  assumes "load_inv env k" "c < nr_cpu_ids env"
  shows "load_inv env (calc_load_account_active c k)"
proof (cases "time_before (jiffies k) (calc_load_update (rqs k c))")
  case False
  show ?thesis
    by (rule load_inv_move [OF assms, where v = "nr_running (rqs k c) + nr_uninterruptible (rqs k c)"])
      (use False in \<open>auto simp: calc_load_account_active_def calc_load_fold_active_spec Let_def
         load_total_add\<close>)
qed (use assms(1) in \<open>simp add: calc_load_account_active_def\<close>)

lemma load_inv_enter_idle:
  assumes "load_inv env k" "c < nr_cpu_ids env"
  shows "load_inv env (calc_load_enter_idle c k)"
proof -
  have idx: "calc_load_write_idx (jiffies k) g = 0 \<or> calc_load_write_idx (jiffies k) g = 1" for g
    using idx_cases by (auto simp: calc_load_write_idx_def)
  show ?thesis
    by (rule load_inv_move [OF assms, where v = "nr_running (rqs k c) + nr_uninterruptible (rqs k c)"])
      (auto simp: calc_load_enter_idle_def calc_load_fold_active_spec Let_def
         load_total_add(2) [OF idx])
qed

lemma load_inv_remove:
  assumes "load_inv env k" "c < nr_cpu_ids env"
  shows "load_inv env (calc_global_load_remove c k)"
  by (rule load_inv_move [OF assms, where v = 0])
    (simp_all add: calc_global_load_remove_def Let_def load_total_def)

lemma load_sum_global:
  "calc_load_tasks (calc_global_load j g) + calc_load_idle (calc_global_load j g) 0
     + calc_load_idle (calc_global_load j g) 1
   = calc_load_tasks g + calc_load_idle g 0 + calc_load_idle g 1"
proof -
  have "calc_load_read_idx g \<in> {0, 1}"
    using idx_cases by (auto simp: calc_load_read_idx_def)
  then show ?thesis
    by (auto simp: calc_global_load_def calc_load_fold_idle_def calc_global_nohz_def Let_def)
qed

text \<open>
  C21. Folding loses nothing. At every point between the updates, the tasks counted globally plus
  the two pending idle deltas are the sum of what the cpus have folded (\<open>calc_load_active\<close>);
  the tick, entering idle, the periodic update and taking a cpu down keep this.
\<close>

theorem load_folding_exact: "\<lbrakk>load_step env k k'; load_inv env k\<rbrakk> \<Longrightarrow> load_inv env k'"
proof (induction rule: load_step.induct)
  case (Tick c k)
  have "load_inv env (update_cpu_load env c k)"
    using Tick(2) by (rule load_inv_cong) simp_all
  with Tick(1) show ?case by (simp add: update_cpu_load_active_def load_inv_account)
next
  case (Exit_idle k c)
  then show ?case by (rule load_inv_cong) (simp_all add: calc_load_exit_idle_def Let_def)
next
  case (Global k)
  then show ?case using load_sum_global by (simp add: load_inv_def)
next
  case (Run k' k)
  then show ?case using load_inv_cong by blast
qed (simp_all add: load_inv_enter_idle load_inv_remove)

theorem load_folding_exact_witness: "load_inv env0 (update_cpu_load_active env0 1 k0)"
proof (rule load_folding_exact)
  show "load_step env0 k0 (update_cpu_load_active env0 1 k0)" by (rule Tick) (simp add: env0_def)
  show "load_inv env0 k0" by (simp add: load_inv_def k0_def loads0_def rq0_def)
qed

end
