(* ===== verification/Op_Rules.thy ===== *)
theory Op_Rules
  imports Sched_Types
begin

text \<open>
  Following the structure of an operation. That an operation establishes some predicate of the
  kernel, given that its parts do, is shown by rules for the constructs operations are written
  with: \<open>let\<close>, \<open>if\<close>, \<open>case\<close>, pairs and loops. The rules hold for any predicate \<open>P\<close>; a theory that
  proves an invariant instantiates them once. \<open>op_rules\<close> follow the kernel, \<open>op_lets\<close> skip a
  binding of something else.
\<close>

lemma op_Let: "\<lbrakk>P a; \<And>x. P x \<Longrightarrow> P (f x)\<rbrakk> \<Longrightarrow> P (Let a f)"
  by simp

lemma op_Let_other: "(\<And>x. P (f x)) \<Longrightarrow> P (Let a f)"
  by simp

lemma op_if: "\<lbrakk>P a; P b\<rbrakk> \<Longrightarrow> P (if c then a else b)"
  by simp

lemma op_option:
  "\<lbrakk>P a; \<And>x. P (f x)\<rbrakk> \<Longrightarrow> P (case_option a f m)"
  by (cases m) simp_all

lemma op_prod1:
  "\<lbrakk>P (fst pr); \<And>x y. P x \<Longrightarrow> P (f x y)\<rbrakk> \<Longrightarrow> P (case_prod f pr)"
  by (cases pr) simp

lemma op_prod2:
  "\<lbrakk>P (snd pr); \<And>x y. P y \<Longrightarrow> P (f x y)\<rbrakk> \<Longrightarrow> P (case_prod f pr)"
  by (cases pr) simp

lemma op_class:
  "\<lbrakk>P a; P b; P c; P d; P e\<rbrakk> \<Longrightarrow> P (case_sched_class a b c d e cls)"
  by (cases cls) simp_all

text \<open>For operations that return a value next to the kernel.\<close>

lemma op_fst_pair: "P a \<Longrightarrow> P (fst (a, x))"
  by simp

lemma op_snd_pair: "P a \<Longrightarrow> P (snd (x, a))"
  by simp

lemma op_snd_if:
  "\<lbrakk>P (snd a); P (snd b)\<rbrakk> \<Longrightarrow> P (snd (if c then a else b))"
  by simp

lemma op_fst_if:
  "\<lbrakk>P (fst a); P (fst b)\<rbrakk> \<Longrightarrow> P (fst (if c then a else b))"
  by simp

lemma op_snd_Let:
  "\<lbrakk>P a; \<And>x. P x \<Longrightarrow> P (snd (f x))\<rbrakk> \<Longrightarrow> P (snd (Let a f))"
  by simp

lemma op_fst_Let:
  "\<lbrakk>P a; \<And>x. P x \<Longrightarrow> P (fst (f x))\<rbrakk> \<Longrightarrow> P (fst (Let a f))"
  by simp

lemma op_snd_Let_other: "(\<And>x. P (snd (f x))) \<Longrightarrow> P (snd (Let a f))"
  by simp

lemma op_fst_Let_other: "(\<And>x. P (fst (f x))) \<Longrightarrow> P (fst (Let a f))"
  by simp

lemma op_snd_option:
  "\<lbrakk>P (snd a); \<And>x. P (snd (f x))\<rbrakk> \<Longrightarrow> P (snd (case_option a f m))"
  by (cases m) simp_all

lemma op_snd_prod:
  "\<lbrakk>P (snd pr); \<And>x y. P y \<Longrightarrow> P (snd (f x y))\<rbrakk> \<Longrightarrow> P (snd (case_prod f pr))"
  by (cases pr) simp

lemma op_snd_prod1:
  "\<lbrakk>P (fst pr); \<And>x y. P x \<Longrightarrow> P (snd (f x y))\<rbrakk> \<Longrightarrow> P (snd (case_prod f pr))"
  by (cases pr) simp

lemma op_fst_prod1:
  "\<lbrakk>P (fst pr); \<And>x y. P x \<Longrightarrow> P (fst (f x y))\<rbrakk> \<Longrightarrow> P (fst (case_prod f pr))"
  by (cases pr) simp

lemma op_snd_class:
  "\<lbrakk>P (snd a); P (snd b); P (snd c); P (snd d); P (snd e)\<rbrakk>
   \<Longrightarrow> P (snd (case_sched_class a b c d e cls))"
  by (cases cls) simp_all

text \<open>Loops.\<close>

lemma op_fold:
  "\<lbrakk>P a; \<And>x b. P b \<Longrightarrow> P (f x b)\<rbrakk> \<Longrightarrow> P (fold f xs a)"
  by (induction xs arbitrary: a) simp_all

lemma op_foldl_fst:
  "\<lbrakk>P (fst a); \<And>x b. P (fst b) \<Longrightarrow> P (fst (f b x))\<rbrakk> \<Longrightarrow> P (fst (foldl f a xs))"
  by (induction xs arbitrary: a) simp_all

lemma op_foldl_snd:
  "\<lbrakk>P (snd a); \<And>x b. P (snd b) \<Longrightarrow> P (snd (f b x))\<rbrakk> \<Longrightarrow> P (snd (foldl f a xs))"
  by (induction xs arbitrary: a) simp_all

lemma op_prod_other: "(\<And>x y. P (f x y)) \<Longrightarrow> P (case_prod f pr)"
  by (cases pr) simp

lemma op_snd_prod_other: "(\<And>x y. P (snd (f x y))) \<Longrightarrow> P (snd (case_prod f pr))"
  by (cases pr) simp

lemma op_fst_prod_other: "(\<And>x y. P (fst (f x y))) \<Longrightarrow> P (fst (case_prod f pr))"
  by (cases pr) simp

text \<open>What is bound or split without being a kernel; tried after the rules above.\<close>

lemmas op_rules =
  op_Let op_if op_option op_prod1 op_prod2 op_class op_fst_pair
  op_snd_pair op_snd_if op_fst_if op_snd_Let op_fst_Let op_snd_option op_snd_prod
  op_snd_prod1 op_fst_prod1 op_snd_class op_fold op_foldl_fst op_foldl_snd

lemmas op_lets =
  op_Let_other op_snd_Let_other op_fst_Let_other op_prod_other op_snd_prod_other op_fst_prod_other

end
