(* ===== verification/Rt_Class.thy ===== *)
theory Rt_Class
  imports Wrr_Class Rq_Clock
begin

text \<open>
  The real-time class, operation by operation, as \<open>Project2/goldfish/kernel/sched/rt.c\<close> has
  it, for \<open>CONFIG_RT_GROUP_SCHED\<close> with and without \<open>CONFIG_SMP\<close>: priority arrays, groups,
  throttling, overload tracking and the pushable list. What moves tasks between runqueues
  is in \<open>Sched_Balance\<close>. A \<open>BUG_ON\<close> that fires sets \<open>bug\<close>; \<open>WARN_ON\<close> is left out.
\<close>

section \<open>Names of the runqueues and entities\<close>

text \<open>\<open>&rq->rt\<close>, the root group's runqueue of a cpu.\<close>

abbreviation root_rt :: "cpu \<Rightarrow> rt_rq_ref" where
  "root_rt c \<equiv> (ROOT_TG, c)"

abbreviation rq_of_rt_rq :: "rt_rq_ref \<Rightarrow> cpu" where
  "rq_of_rt_rq r \<equiv> snd r"

abbreviation rt_rq_of_se :: "'x kernel \<Rightarrow> rt_se_ref \<Rightarrow> rt_rq_ref" where
  "rt_rq_of_se k s \<equiv> rt_rq_of (rt_ses k s)"

abbreviation group_rt_rq :: "'x kernel \<Rightarrow> rt_se_ref \<Rightarrow> rt_rq_ref option" where
  "group_rt_rq k s \<equiv> rt_my_q (rt_ses k s)"

abbreviation rt_of :: "'x kernel \<Rightarrow> tid \<Rightarrow> sched_rt_entity" where
  "rt_of k p \<equiv> rt_ses k (Task_se p)"

definition rt_entity_is_task :: "'x kernel \<Rightarrow> rt_se_ref \<Rightarrow> bool" where
  "rt_entity_is_task k s \<longleftrightarrow> group_rt_rq k s = None"

text \<open>\<open>rt_task_of\<close> is a \<open>container_of\<close>: meaningful for a task's entity only.\<close>

fun rt_task_of :: "rt_se_ref \<Rightarrow> tid" where
  "rt_task_of (Task_se p) = p"
| "rt_task_of (Group_se g c) = undefined"

definition BUG_ON :: "bool \<Rightarrow> 'x kernel \<Rightarrow> 'x kernel" where
  "BUG_ON b k = (if b then k\<lparr>bug := True\<rparr> else k)"

text \<open>
  \<open>for_each_sched_rt_entity\<close> follows \<open>->parent\<close>. Only group entities are parents, and a
  group's number is above its parent's, so a group's number bounds the chain above it.
\<close>

fun rt_se_rank :: "rt_se_ref \<Rightarrow> nat" where
  "rt_se_rank (Task_se p) = 0"
| "rt_se_rank (Group_se g c) = Suc g"

definition rt_chain :: "'x kernel \<Rightarrow> rt_se_ref \<Rightarrow> rt_se_ref list" where
  "rt_chain k s =
     s # (case rt_parent (rt_ses k s) of
            None \<Rightarrow> []
          | Some q \<Rightarrow> ancestors (rt_se_rank q) (\<lambda>s. rt_parent (rt_ses k s)) (Some q))"

section \<open>Initialisation\<close>

definition init_rt_rq :: "'x env \<Rightarrow> rt_rq_ref \<Rightarrow> 'x kernel \<Rightarrow> 'x kernel" where
  "init_rt_rq env r k =
     (let k = rt_q_update (\<lambda>L. fold (\<lambda>i. init_list_head (r, i)) [0..<100] L) k;
          k = upd_rt_rq r (\<lambda>q. q\<lparr>bitmap := (\<lambda>i. if i < 100 then False
                else if i = 100 then True else bitmap q i)\<rparr>) k;
          k = (if config_smp env
               then upd_rt_rq r (\<lambda>q. q\<lparr>highest_prio_curr := MAX_RT_PRIO,
                      highest_prio_next := MAX_RT_PRIO, rt_nr_migratory := 0,
                      is_overloaded := False, pushable_tasks := []\<rparr>) k
               else k)
      in upd_rt_rq r (\<lambda>q. q\<lparr>rt_time := 0, rt_throttled := False, rt_runtime := 0\<rparr>) k)"

definition init_tg_rt_entry ::
  "tgid \<Rightarrow> rt_rq_ref \<Rightarrow> rt_se_ref option \<Rightarrow> cpu \<Rightarrow> rt_se_ref option \<Rightarrow> 'x kernel \<Rightarrow> 'x kernel" where
  "init_tg_rt_entry tg r s c parent k =
     (let k = upd_rt_rq r (\<lambda>q. q\<lparr>highest_prio_curr := MAX_RT_PRIO, rt_nr_boosted := 0,
                rt_tg := Some tg\<rparr>) k in
      case s of
        None \<Rightarrow> k
      | Some s \<Rightarrow>
          let k = upd_rt_se s (\<lambda>e. e\<lparr>rt_rq_of :=
                (case parent of None \<Rightarrow> root_rt c | Some q \<Rightarrow> the (rt_my_q (rt_ses k q)))\<rparr>) k;
              k = upd_rt_se s (\<lambda>e. e\<lparr>rt_my_q := Some r\<rparr>) k;
              k = upd_rt_se s (\<lambda>e. e\<lparr>rt_parent := parent\<rparr>) k
          in rt_q_update (init_list_node s) k)"

definition init_rt_bandwidth :: "u64 \<Rightarrow> u64 \<Rightarrow> rt_bandwidth \<Rightarrow> rt_bandwidth" where
  "init_rt_bandwidth period runtime b =
     b\<lparr>rt_period := period, rtb_runtime := runtime, rt_period_timer_active := False\<rparr>"

text \<open>
  \<open>start_rt_bandwidth\<close>: the loop of \<open>start_bandwidth_timer\<close> ends when the timer is active.
\<close>

definition start_rt_bandwidth :: "tgid \<Rightarrow> 'x kernel \<Rightarrow> 'x kernel" where
  "start_rt_bandwidth g k =
     (if \<not> rt_bandwidth_enabled k \<or> rtb_runtime (tg_rt_bandwidth (tgs k g)) = RUNTIME_INF then k
      else if rt_period_timer_active (tg_rt_bandwidth (tgs k g)) then k
      else upd_tg g (\<lambda>t. t\<lparr>tg_rt_bandwidth := (tg_rt_bandwidth t)\<lparr>rt_period_timer_active := True\<rparr>\<rparr>) k)"

section \<open>Overload and migration counts\<close>

definition rt_overloaded :: "'x kernel \<Rightarrow> bool" where
  "rt_overloaded k \<longleftrightarrow> rto_count k \<noteq> 0"

definition rt_set_overload :: "cpu \<Rightarrow> 'x kernel \<Rightarrow> 'x kernel" where
  "rt_set_overload c k =
     (if \<not> online (rqs k c) then k
      else rto_count_update (\<lambda>n. n + 1) (rto_mask_update (\<lambda>m. m(c := True)) k))"

definition rt_clear_overload :: "cpu \<Rightarrow> 'x kernel \<Rightarrow> 'x kernel" where
  "rt_clear_overload c k =
     (if \<not> online (rqs k c) then k
      else rto_mask_update (\<lambda>m. m(c := False)) (rto_count_update (\<lambda>n. n - 1) k))"

definition update_rt_migration :: "rt_rq_ref \<Rightarrow> 'x kernel \<Rightarrow> 'x kernel" where
  "update_rt_migration r k =
     (if rt_nr_migratory (rt_rqs k r) \<noteq> 0 \<and> 1 < rt_nr_total (rt_rqs k r) then
        if \<not> is_overloaded (rt_rqs k r)
        then upd_rt_rq r (\<lambda>q. q\<lparr>is_overloaded := True\<rparr>) (rt_set_overload (rq_of_rt_rq r) k)
        else k
      else if is_overloaded (rt_rqs k r)
      then upd_rt_rq r (\<lambda>q. q\<lparr>is_overloaded := False\<rparr>) (rt_clear_overload (rq_of_rt_rq r) k)
      else k)"

definition inc_rt_migration :: "'x env \<Rightarrow> rt_se_ref \<Rightarrow> rt_rq_ref \<Rightarrow> 'x kernel \<Rightarrow> 'x kernel" where
  "inc_rt_migration env s r k =
     (if \<not> config_smp env \<or> \<not> rt_entity_is_task k s then k
      else
        let r = root_rt (rq_of_rt_rq r);
            k = upd_rt_rq r (\<lambda>q. q\<lparr>rt_nr_total := rt_nr_total q + 1\<rparr>) k;
            k = (if 1 < rt_nr_cpus_allowed (rt_ses k s)
                 then upd_rt_rq r (\<lambda>q. q\<lparr>rt_nr_migratory := rt_nr_migratory q + 1\<rparr>) k else k)
        in update_rt_migration r k)"

definition dec_rt_migration :: "'x env \<Rightarrow> rt_se_ref \<Rightarrow> rt_rq_ref \<Rightarrow> 'x kernel \<Rightarrow> 'x kernel" where
  "dec_rt_migration env s r k =
     (if \<not> config_smp env \<or> \<not> rt_entity_is_task k s then k
      else
        let r = root_rt (rq_of_rt_rq r);
            k = upd_rt_rq r (\<lambda>q. q\<lparr>rt_nr_total := rt_nr_total q - 1\<rparr>) k;
            k = (if 1 < rt_nr_cpus_allowed (rt_ses k s)
                 then upd_rt_rq r (\<lambda>q. q\<lparr>rt_nr_migratory := rt_nr_migratory q - 1\<rparr>) k else k)
        in update_rt_migration r k)"

section \<open>The pushable list\<close>

text \<open>
  \<open>plist_add\<close> keeps the list sorted by priority and puts a node behind those of its own
  priority; \<open>plist_del\<close> of a node that is not linked does nothing. A task is only on the
  list of its own runqueue.
\<close>

fun plist_add :: "int \<times> 'a \<Rightarrow> (int \<times> 'a) list \<Rightarrow> (int \<times> 'a) list" where
  "plist_add n [] = [n]"
| "plist_add n (m # ms) = (if fst n < fst m then n # m # ms else m # plist_add n ms)"

definition plist_del :: "'a \<Rightarrow> (int \<times> 'a) list \<Rightarrow> (int \<times> 'a) list" where
  "plist_del x = filter (\<lambda>m. snd m \<noteq> x)"

definition has_pushable_tasks :: "cpu \<Rightarrow> 'x kernel \<Rightarrow> bool" where
  "has_pushable_tasks c k \<longleftrightarrow> pushable_tasks (rt_rqs k (root_rt c)) \<noteq> []"

definition enqueue_pushable_task :: "'x env \<Rightarrow> cpu \<Rightarrow> tid \<Rightarrow> 'x kernel \<Rightarrow> 'x kernel" where
  "enqueue_pushable_task env c p k =
     (if \<not> config_smp env then k
      else
        let r = root_rt c; pr = prio (tasks k p);
            k = upd_rt_rq r (\<lambda>q. q\<lparr>pushable_tasks := plist_del p (pushable_tasks q)\<rparr>) k;
            k = upd_rt_rq r (\<lambda>q. q\<lparr>pushable_tasks := plist_add (pr, p) (pushable_tasks q)\<rparr>) k
        in if pr < highest_prio_next (rt_rqs k r)
           then upd_rt_rq r (\<lambda>q. q\<lparr>highest_prio_next := pr\<rparr>) k else k)"

definition dequeue_pushable_task :: "'x env \<Rightarrow> cpu \<Rightarrow> tid \<Rightarrow> 'x kernel \<Rightarrow> 'x kernel" where
  "dequeue_pushable_task env c p k =
     (if \<not> config_smp env then k
      else
        let r = root_rt c;
            k = upd_rt_rq r (\<lambda>q. q\<lparr>pushable_tasks := plist_del p (pushable_tasks q)\<rparr>) k
        in if has_pushable_tasks c k
           then upd_rt_rq r (\<lambda>q. q\<lparr>highest_prio_next :=
                  prio (tasks k (snd (hd (pushable_tasks q))))\<rparr>) k
           else upd_rt_rq r (\<lambda>q. q\<lparr>highest_prio_next := MAX_RT_PRIO\<rparr>) k)"

section \<open>Helpers of the group code\<close>

definition on_rt_rq :: "'x kernel \<Rightarrow> rt_se_ref \<Rightarrow> bool" where
  "on_rt_rq k s \<longleftrightarrow> \<not> node_empty s (rt_q k)"

definition sched_rt_runtime :: "'x kernel \<Rightarrow> rt_rq_ref \<Rightarrow> u64" where
  "sched_rt_runtime k r =
     (if rt_tg (rt_rqs k r) = None then RUNTIME_INF else rt_runtime (rt_rqs k r))"

abbreviation sched_rt_bandwidth :: "'x kernel \<Rightarrow> rt_rq_ref \<Rightarrow> rt_bandwidth" where
  "sched_rt_bandwidth k r \<equiv> tg_rt_bandwidth (tgs k (the (rt_tg (rt_rqs k r))))"

definition sched_rt_period :: "'x kernel \<Rightarrow> rt_rq_ref \<Rightarrow> u64" where
  "sched_rt_period k r = rt_period (sched_rt_bandwidth k r)"

definition rt_rq_throttled :: "'x kernel \<Rightarrow> rt_rq_ref \<Rightarrow> bool" where
  "rt_rq_throttled k r \<longleftrightarrow> rt_throttled (rt_rqs k r) \<and> rt_nr_boosted (rt_rqs k r) = 0"

definition rt_se_boosted :: "'x kernel \<Rightarrow> rt_se_ref \<Rightarrow> bool" where
  "rt_se_boosted k s =
     (case group_rt_rq k s of
        Some r \<Rightarrow> rt_nr_boosted (rt_rqs k r) \<noteq> 0
      | None \<Rightarrow> prio (tasks k (rt_task_of s)) \<noteq> normal_prio (tasks k (rt_task_of s)))"

definition rt_se_prio :: "'x kernel \<Rightarrow> rt_se_ref \<Rightarrow> int" where
  "rt_se_prio k s =
     (case group_rt_rq k s of
        Some r \<Rightarrow> highest_prio_curr (rt_rqs k r)
      | None \<Rightarrow> prio (tasks k (rt_task_of s)))"

text \<open>The list \<open>array->queue + rt_se_prio(rt_se)\<close> of a runqueue.\<close>

abbreviation prio_queue :: "'x kernel \<Rightarrow> rt_rq_ref \<Rightarrow> rt_se_ref \<Rightarrow> rt_rq_ref \<times> nat" where
  "prio_queue k r s \<equiv> (r, nat (rt_se_prio k s))"

text \<open>\<open>for_each_rt_rq\<close>: the runqueues on a cpu of the groups that are no autogroups.\<close>

definition for_each_rt_rq :: "cpu \<Rightarrow> 'x kernel \<Rightarrow> rt_rq_ref list" where
  "for_each_rt_rq c k =
     map (\<lambda>g. (g, c)) (filter (\<lambda>g. \<not> tg_is_autogroup (tgs k g)) (task_groups k))"

section \<open>Counting and queueing entities\<close>

definition cpupri_set :: "cpu \<Rightarrow> int \<Rightarrow> 'x kernel \<Rightarrow> 'x kernel" where
  "cpupri_set c pr = cpupri_update (\<lambda>m. m(c := pr))"

definition inc_rt_prio_smp :: "'x env \<Rightarrow> rt_rq_ref \<Rightarrow> int \<Rightarrow> int \<Rightarrow> 'x kernel \<Rightarrow> 'x kernel" where
  "inc_rt_prio_smp env r pr prev_prio k =
     (if config_smp env \<and> online (rqs k (rq_of_rt_rq r)) \<and> pr < prev_prio
      then cpupri_set (rq_of_rt_rq r) pr k else k)"

definition dec_rt_prio_smp :: "'x env \<Rightarrow> rt_rq_ref \<Rightarrow> int \<Rightarrow> int \<Rightarrow> 'x kernel \<Rightarrow> 'x kernel" where
  "dec_rt_prio_smp env r pr prev_prio k =
     (if config_smp env \<and> online (rqs k (rq_of_rt_rq r)) \<and> highest_prio_curr (rt_rqs k r) \<noteq> prev_prio
      then cpupri_set (rq_of_rt_rq r) (highest_prio_curr (rt_rqs k r)) k else k)"

definition inc_rt_prio :: "'x env \<Rightarrow> rt_rq_ref \<Rightarrow> int \<Rightarrow> 'x kernel \<Rightarrow> 'x kernel" where
  "inc_rt_prio env r pr k =
     (let prev_prio = highest_prio_curr (rt_rqs k r);
          k = (if pr < prev_prio then upd_rt_rq r (\<lambda>q. q\<lparr>highest_prio_curr := pr\<rparr>) k else k)
      in inc_rt_prio_smp env r pr prev_prio k)"

text \<open>\<open>sched_find_first_bit\<close> on the priority bitmap, whose bit 100 is always set.\<close>

definition sched_find_first_bit :: "(nat \<Rightarrow> bool) \<Rightarrow> int" where
  "sched_find_first_bit bm = int (find_next_bit bm 101 0)"

definition dec_rt_prio :: "'x env \<Rightarrow> rt_rq_ref \<Rightarrow> int \<Rightarrow> 'x kernel \<Rightarrow> 'x kernel" where
  "dec_rt_prio env r pr k =
     (let prev_prio = highest_prio_curr (rt_rqs k r);
          k = (if rt_nr_running (rt_rqs k r) \<noteq> 0 then
                 if pr = prev_prio
                 then upd_rt_rq r (\<lambda>q. q\<lparr>highest_prio_curr := sched_find_first_bit (bitmap q)\<rparr>) k
                 else k
               else upd_rt_rq r (\<lambda>q. q\<lparr>highest_prio_curr := MAX_RT_PRIO\<rparr>) k)
      in dec_rt_prio_smp env r pr prev_prio k)"

definition inc_rt_group :: "rt_se_ref \<Rightarrow> rt_rq_ref \<Rightarrow> 'x kernel \<Rightarrow> 'x kernel" where
  "inc_rt_group s r k =
     (let k = (if rt_se_boosted k s
               then upd_rt_rq r (\<lambda>q. q\<lparr>rt_nr_boosted := rt_nr_boosted q + 1\<rparr>) k else k)
      in case rt_tg (rt_rqs k r) of None \<Rightarrow> k | Some g \<Rightarrow> start_rt_bandwidth g k)"

definition dec_rt_group :: "rt_se_ref \<Rightarrow> rt_rq_ref \<Rightarrow> 'x kernel \<Rightarrow> 'x kernel" where
  "dec_rt_group s r k =
     (if rt_se_boosted k s
      then upd_rt_rq r (\<lambda>q. q\<lparr>rt_nr_boosted := rt_nr_boosted q - 1\<rparr>) k else k)"

definition inc_rt_tasks :: "'x env \<Rightarrow> rt_se_ref \<Rightarrow> rt_rq_ref \<Rightarrow> 'x kernel \<Rightarrow> 'x kernel" where
  "inc_rt_tasks env s r k =
     (let pr = rt_se_prio k s;
          k = upd_rt_rq r (\<lambda>q. q\<lparr>rt_nr_running := rt_nr_running q + 1\<rparr>) k;
          k = inc_rt_prio env r pr k;
          k = inc_rt_migration env s r k
      in inc_rt_group s r k)"

definition dec_rt_tasks :: "'x env \<Rightarrow> rt_se_ref \<Rightarrow> rt_rq_ref \<Rightarrow> 'x kernel \<Rightarrow> 'x kernel" where
  "dec_rt_tasks env s r k =
     (let k = upd_rt_rq r (\<lambda>q. q\<lparr>rt_nr_running := rt_nr_running q - 1\<rparr>) k;
          k = dec_rt_prio env r (rt_se_prio k s) k;
          k = dec_rt_migration env s r k
      in dec_rt_group s r k)"

text \<open>\<open>__enqueue_rt_entity\<close> and \<open>__dequeue_rt_entity\<close>.\<close>

definition enqueue_rt_entity1 :: "'x env \<Rightarrow> bool \<Rightarrow> rt_se_ref \<Rightarrow> 'x kernel \<Rightarrow> 'x kernel" where
  "enqueue_rt_entity1 env head s k =
     (let r = rt_rq_of_se k s in
      if (case group_rt_rq k s of
            None \<Rightarrow> False
          | Some g \<Rightarrow> rt_rq_throttled k g \<or> rt_nr_running (rt_rqs k g) = 0)
      then k
      else
        let k = (if rt_nr_running (rt_rqs k r) = 0
                 then upd_rq (rq_of_rt_rq r)
                        (\<lambda>q. q\<lparr>leaf_rt_rq_list := r # leaf_rt_rq_list q\<rparr>) k
                 else k);
            queue = prio_queue k r s;
            k = rt_q_update (if head then list_add s queue else list_add_tail s queue) k;
            k = upd_rt_rq r (\<lambda>q. q\<lparr>bitmap := (bitmap q)(nat (rt_se_prio k s) := True)\<rparr>) k
        in inc_rt_tasks env s r k)"

definition dequeue_rt_entity1 :: "'x env \<Rightarrow> rt_se_ref \<Rightarrow> 'x kernel \<Rightarrow> 'x kernel" where
  "dequeue_rt_entity1 env s k =
     (let r = rt_rq_of_se k s;
          k = rt_q_update (list_del_init s) k;
          k = (if list_empty (prio_queue k r s) (rt_q k)
               then upd_rt_rq r (\<lambda>q. q\<lparr>bitmap := (bitmap q)(nat (rt_se_prio k s) := False)\<rparr>) k
               else k);
          k = dec_rt_tasks env s r k
      in if rt_nr_running (rt_rqs k r) = 0
         then upd_rq (rq_of_rt_rq r)
                (\<lambda>q. q\<lparr>leaf_rt_rq_list := remove1 r (leaf_rt_rq_list q)\<rparr>) k
         else k)"

text \<open>From the topmost entity down, because the priority of an upper one depends on the lower.\<close>

definition dequeue_rt_stack :: "'x env \<Rightarrow> rt_se_ref \<Rightarrow> 'x kernel \<Rightarrow> 'x kernel" where
  "dequeue_rt_stack env s k =
     fold (\<lambda>s k. if on_rt_rq k s then dequeue_rt_entity1 env s k else k) (rev (rt_chain k s)) k"

definition enqueue_rt_entity :: "'x env \<Rightarrow> rt_se_ref \<Rightarrow> bool \<Rightarrow> 'x kernel \<Rightarrow> 'x kernel" where
  "enqueue_rt_entity env s head k =
     (let k = dequeue_rt_stack env s k in fold (enqueue_rt_entity1 env head) (rt_chain k s) k)"

definition dequeue_rt_entity :: "'x env \<Rightarrow> rt_se_ref \<Rightarrow> 'x kernel \<Rightarrow> 'x kernel" where
  "dequeue_rt_entity env s k =
     (let k = dequeue_rt_stack env s k in
      fold (\<lambda>s k. case group_rt_rq k s of
                     None \<Rightarrow> k
                   | Some g \<Rightarrow> if rt_nr_running (rt_rqs k g) \<noteq> 0
                              then enqueue_rt_entity1 env False s k else k)
        (rt_chain k s) k)"

definition sched_rt_rq_enqueue :: "'x env \<Rightarrow> rt_rq_ref \<Rightarrow> 'x kernel \<Rightarrow> 'x kernel" where
  "sched_rt_rq_enqueue env r k =
     (let c = rq_of_rt_rq r; p = curr_of k c; s = tg_rt_se (the (rt_tg (rt_rqs k r))) c in
      if rt_nr_running (rt_rqs k r) = 0 then k
      else
        let k = (case s of
                   None \<Rightarrow> k
                 | Some s \<Rightarrow> if \<not> on_rt_rq k s then enqueue_rt_entity env s False k else k)
        in if highest_prio_curr (rt_rqs k r) < prio (tasks k p) then resched_task p k else k)"

definition sched_rt_rq_dequeue :: "'x env \<Rightarrow> rt_rq_ref \<Rightarrow> 'x kernel \<Rightarrow> 'x kernel" where
  "sched_rt_rq_dequeue env r k =
     (case tg_rt_se (the (rt_tg (rt_rqs k r))) (rq_of_rt_rq r) of
        None \<Rightarrow> k
      | Some s \<Rightarrow> if on_rt_rq k s then dequeue_rt_entity env s k else k)"

section \<open>Sharing runtime between cpus\<close>

text \<open>
  \<open>do_balance_runtime\<close>: the runqueue \<open>r\<close> of a group borrows from the group's runqueues on the
  other cpus, \<open>1/n\<close> of what each has to spare, until it owns a whole period. The state of
  the loop is the kernel, what the code calls \<open>more\<close>, and whether it has left by \<open>break\<close>.
\<close>

definition balance_step ::
  "rt_rq_ref \<Rightarrow> u64 \<Rightarrow> u64 \<Rightarrow> 'x kernel \<times> int \<times> bool \<Rightarrow> cpu \<Rightarrow> 'x kernel \<times> int \<times> bool" where
  "balance_step r weight period st i =
     (case st of (k, got, left) \<Rightarrow>
        let it = (the (rt_tg (rt_rqs k r)), i) in
        if left \<or> it = r \<or> rt_runtime (rt_rqs k it) = RUNTIME_INF then st
        else
          let diff = rt_runtime (rt_rqs k it) - rt_time (rt_rqs k it) in
          if 0 < sint diff then
            let diff = diff div weight;
                diff = (if period < rt_runtime (rt_rqs k r) + diff
                        then period - rt_runtime (rt_rqs k r) else diff);
                k = upd_rt_rq it (\<lambda>q. q\<lparr>rt_runtime := rt_runtime q - diff\<rparr>) k;
                k = upd_rt_rq r (\<lambda>q. q\<lparr>rt_runtime := rt_runtime q + diff\<rparr>) k
            in (k, 1, rt_runtime (rt_rqs k r) = period)
          else st)"

definition do_balance_runtime :: "'x env \<Rightarrow> rt_rq_ref \<Rightarrow> 'x kernel \<Rightarrow> int \<times> 'x kernel" where
  "do_balance_runtime env r k =
     (let weight = of_int (cpumask_weight env (rd_span k));
          period = rt_period (sched_rt_bandwidth k r) in
      case foldl (balance_step r weight period) (k, 0, False) (for_each_cpu env (rd_span k)) of
        (k, got, left) \<Rightarrow> (got, k))"

definition balance_runtime :: "'x env \<Rightarrow> rt_rq_ref \<Rightarrow> 'x kernel \<Rightarrow> int \<times> 'x kernel" where
  "balance_runtime env r k =
     (if \<not> config_smp env \<or> \<not> feat_rt_runtime_share env then (0, k)
      else if rt_runtime (rt_rqs k r) < rt_time (rt_rqs k r) then do_balance_runtime env r k
      else (0, k))"

text \<open>
  \<open>__disable_runtime\<close>: a runqueue takes back what it lent, or returns what it borrowed, and
  leaves the lending by claiming infinite runtime.
\<close>

definition reclaim_step :: "rt_rq_ref \<Rightarrow> 'x kernel \<times> u64 \<Rightarrow> cpu \<Rightarrow> 'x kernel \<times> u64" where
  "reclaim_step r st i =
     (case st of (k, want) \<Rightarrow>
        let it = (the (rt_tg (rt_rqs k r)), i) in
        if want = 0 \<or> it = r \<or> rt_runtime (rt_rqs k it) = RUNTIME_INF then st
        else if 0 < sint want then
          let diff = (if sint (rt_runtime (rt_rqs k it)) < sint want
                      then rt_runtime (rt_rqs k it) else want)
          in (upd_rt_rq it (\<lambda>q. q\<lparr>rt_runtime := rt_runtime q - diff\<rparr>) k, want - diff)
        else (upd_rt_rq it (\<lambda>q. q\<lparr>rt_runtime := rt_runtime q - want\<rparr>) k, want - want))"

definition disable_runtime_rq :: "'x env \<Rightarrow> rt_rq_ref \<Rightarrow> 'x kernel \<Rightarrow> 'x kernel" where
  "disable_runtime_rq env r k =
     (let b = sched_rt_bandwidth k r;
          k = (if rt_runtime (rt_rqs k r) = RUNTIME_INF \<or> rt_runtime (rt_rqs k r) = rtb_runtime b
               then k
               else case foldl (reclaim_step r) (k, rtb_runtime b - rt_runtime (rt_rqs k r))
                           (for_each_cpu env (rd_span k)) of
                      (k, want) \<Rightarrow> BUG_ON (want \<noteq> 0) k)
      in upd_rt_rq r (\<lambda>q. q\<lparr>rt_runtime := RUNTIME_INF\<rparr>) k)"

definition disable_runtime :: "'x env \<Rightarrow> cpu \<Rightarrow> 'x kernel \<Rightarrow> 'x kernel" where
  "disable_runtime env c k =
     (if \<not> scheduler_running k then k
      else fold (disable_runtime_rq env) (for_each_rt_rq c k) k)"

definition enable_runtime :: "cpu \<Rightarrow> 'x kernel \<Rightarrow> 'x kernel" where
  "enable_runtime c k =
     (if \<not> scheduler_running k then k
      else fold (\<lambda>r k. upd_rt_rq r (\<lambda>q. q\<lparr>rt_runtime := rtb_runtime (sched_rt_bandwidth k r),
                        rt_time := 0, rt_throttled := False\<rparr>) k)
             (for_each_rt_rq c k) k)"

text \<open>The hotplug notifier \<open>update_runtime\<close>.\<close>

datatype hotplug_action = CPU_ONLINE | CPU_UP_PREPARE | CPU_UP_CANCELED | CPU_DOWN_PREPARE
  | CPU_DOWN_FAILED | CPU_DEAD | CPU_DYING | CPU_POST_DEAD | CPU_STARTING

datatype notify = NOTIFY_OK | NOTIFY_DONE

definition update_runtime ::
  "'x env \<Rightarrow> hotplug_action \<Rightarrow> cpu \<Rightarrow> 'x kernel \<Rightarrow> notify \<times> 'x kernel" where
  "update_runtime env action c k =
     (case action of
        CPU_DOWN_PREPARE \<Rightarrow> (NOTIFY_OK, disable_runtime env c k)
      | CPU_DOWN_FAILED \<Rightarrow> (NOTIFY_OK, enable_runtime c k)
      | CPU_ONLINE \<Rightarrow> (NOTIFY_OK, enable_runtime c k)
      | _ \<Rightarrow> (NOTIFY_DONE, k))"

section \<open>Throttling\<close>

text \<open>
  \<open>do_sched_rt_period_timer\<close>, one cpu: the runqueue's time is refilled by \<open>overrun\<close> periods'
  runtime, and it is unthrottled when that suffices. \<open>idle\<close> and \<open>throttled\<close> are the loop's
  results so far.
\<close>

definition rt_period_cpu ::
  "'x env \<Rightarrow> tgid \<Rightarrow> u64 \<Rightarrow> 'x kernel \<times> bool \<times> bool \<Rightarrow> cpu \<Rightarrow> 'x kernel \<times> bool \<times> bool" where
  "rt_period_cpu env g overrun st i =
     (case st of (k, idle_ret, throttled) \<Rightarrow>
        let r = (g, i) in
        case (if rt_time (rt_rqs k r) \<noteq> 0 then
                let k = (if rt_throttled (rt_rqs k r) then snd (balance_runtime env r k) else k);
                    runtime = rt_runtime (rt_rqs k r);
                    k = upd_rt_rq r (\<lambda>q. q\<lparr>rt_time := rt_time q - min (rt_time q) (overrun * runtime)\<rparr>) k;
                    unthrottle = rt_throttled (rt_rqs k r) \<and> rt_time (rt_rqs k r) < runtime;
                    k = (if unthrottle then upd_rt_rq r (\<lambda>q. q\<lparr>rt_throttled := False\<rparr>) k else k);
                    k = (if unthrottle \<and> rt_nr_running (rt_rqs k r) \<noteq> 0 \<and> curr_of k i = idle (rqs k i)
                         then upd_rq i (\<lambda>q. q\<lparr>skip_clock_update := -1\<rparr>) k else k)
                in (k, unthrottle,
                    (if rt_time (rt_rqs k r) \<noteq> 0 \<or> rt_nr_running (rt_rqs k r) \<noteq> 0
                     then False else idle_ret))
              else if rt_nr_running (rt_rqs k r) \<noteq> 0
              then (k, \<not> rt_rq_throttled k r, False)
              else (k, False, idle_ret)) of
          (k, enqueue, idle_ret) \<Rightarrow>
            let throttled = (throttled \<or> rt_throttled (rt_rqs k r));
                k = (if enqueue then sched_rt_rq_enqueue env r k else k)
            in (k, idle_ret, throttled))"

text \<open>\<open>sched_rt_period_mask\<close> is the root domain's span on SMP and the online mask otherwise.\<close>

definition do_sched_rt_period_timer :: "'x env \<Rightarrow> tgid \<Rightarrow> u64 \<Rightarrow> 'x kernel \<Rightarrow> bool \<times> 'x kernel" where
  "do_sched_rt_period_timer env g overrun k =
     (let span = (if config_smp env then rd_span k else cpu_online_mask k) in
      case foldl (rt_period_cpu env g overrun) (k, True, False) (for_each_cpu env span) of
        (k, idle_ret, throttled) \<Rightarrow>
          if \<not> throttled \<and> (\<not> rt_bandwidth_enabled k
                \<or> rtb_runtime (tg_rt_bandwidth (tgs k g)) = RUNTIME_INF)
          then (True, k) else (idle_ret, k))"

definition sched_rt_runtime_exceeded :: "'x env \<Rightarrow> rt_rq_ref \<Rightarrow> 'x kernel \<Rightarrow> bool \<times> 'x kernel" where
  "sched_rt_runtime_exceeded env r k =
     (if rt_throttled (rt_rqs k r) then (rt_rq_throttled k r, k)
      else if sched_rt_period k r \<le> sched_rt_runtime k r then (False, k)
      else
        let k = snd (balance_runtime env r k);
            runtime = sched_rt_runtime k r in
        if runtime = RUNTIME_INF then (False, k)
        else if runtime < rt_time (rt_rqs k r) then
          let k = (if rtb_runtime (sched_rt_bandwidth k r) \<noteq> 0
                   then upd_rt_rq r (\<lambda>q. q\<lparr>rt_throttled := True\<rparr>) k
                   else upd_rt_rq r (\<lambda>q. q\<lparr>rt_time := 0\<rparr>) k) in
          if rt_rq_throttled k r then (True, sched_rt_rq_dequeue env r k) else (False, k)
        else (False, k))"

text \<open>\<open>update_curr_rt\<close>; its first half is the accounting that the WRR class repeats.\<close>

definition charge_rt_rq :: "'x env \<Rightarrow> tid \<Rightarrow> u64 \<Rightarrow> rt_se_ref \<Rightarrow> 'x kernel \<Rightarrow> 'x kernel" where
  "charge_rt_rq env p delta_exec s k =
     (let r = rt_rq_of_se k s in
      if sched_rt_runtime k r = RUNTIME_INF then k
      else
        let k = upd_rt_rq r (\<lambda>q. q\<lparr>rt_time := rt_time q + delta_exec\<rparr>) k in
        case sched_rt_runtime_exceeded env r k of
          (exceeded, k) \<Rightarrow> if exceeded then resched_task p k else k)"

definition update_curr_rt :: "'x env \<Rightarrow> cpu \<Rightarrow> 'x kernel \<Rightarrow> 'x kernel" where
  "update_curr_rt env c k =
     (let p = curr_of k c in
      if class_of (tasks k p) \<noteq> rt_sched_class then k
      else
        let delta_exec = exec_delta c k;
            k = account_exec env c delta_exec k;
            k = sched_rt_avg_update env c delta_exec k in
        if \<not> rt_bandwidth_enabled k then k
        else fold (charge_rt_rq env p delta_exec) (rt_chain k (Task_se p)) k)"

section \<open>The operations of the class\<close>

definition enqueue_task_rt :: "'x env \<Rightarrow> cpu \<Rightarrow> tid \<Rightarrow> u32 \<Rightarrow> 'x kernel \<Rightarrow> 'x kernel" where
  "enqueue_task_rt env c p fl k =
     (let k = (if fl AND ENQUEUE_WAKEUP \<noteq> 0
               then upd_rt_se (Task_se p) (\<lambda>e. e\<lparr>rt_timeout := 0\<rparr>) k else k);
          k = enqueue_rt_entity env (Task_se p) (fl AND ENQUEUE_HEAD \<noteq> 0) k;
          k = (if \<not> task_current c p k \<and> 1 < rt_nr_cpus_allowed (rt_of k p)
               then enqueue_pushable_task env c p k else k)
      in inc_nr_running c k)"

definition dequeue_task_rt :: "'x env \<Rightarrow> cpu \<Rightarrow> tid \<Rightarrow> u32 \<Rightarrow> 'x kernel \<Rightarrow> 'x kernel" where
  "dequeue_task_rt env c p fl k =
     (let k = update_curr_rt env c k;
          k = dequeue_rt_entity env (Task_se p) k;
          k = dequeue_pushable_task env c p k
      in dec_nr_running c k)"

definition requeue_rt_entity :: "rt_rq_ref \<Rightarrow> rt_se_ref \<Rightarrow> int \<Rightarrow> 'x kernel \<Rightarrow> 'x kernel" where
  "requeue_rt_entity r s head k =
     (if on_rt_rq k s
      then rt_q_update ((if head \<noteq> 0 then list_move else list_move_tail) s (prio_queue k r s)) k
      else k)"

definition requeue_task_rt :: "cpu \<Rightarrow> tid \<Rightarrow> int \<Rightarrow> 'x kernel \<Rightarrow> 'x kernel" where
  "requeue_task_rt c p head k =
     fold (\<lambda>s k. requeue_rt_entity (rt_rq_of_se k s) s head k) (rt_chain k (Task_se p)) k"

definition yield_task_rt :: "cpu \<Rightarrow> 'x kernel \<Rightarrow> 'x kernel" where
  "yield_task_rt c k = requeue_task_rt c (curr_of k c) 0 k"

section \<open>Choosing a runqueue\<close>

text \<open>
  \<open>find_lowest_rq\<close>: among the cpus that run something of lower priority than the task, first
  the task's last cpu, then this cpu or the nearest by the scheduling domains, then any.
  The result \<open>None\<close> stands for \<open>-1\<close>.
\<close>

fun lowest_in_domains ::
  "'x env \<Rightarrow> cpu list \<Rightarrow> cpu option \<Rightarrow> sched_domain list \<Rightarrow> cpu option" where
  "lowest_in_domains env lowest this [] = None"
| "lowest_in_domains env lowest this (sd # sds) =
     (if sd_flags sd AND SD_WAKE_AFFINE \<noteq> 0 then
        (case this of
           Some c \<Rightarrow> if sd_span sd c then Some c
                     else (case for_each_cpu env (\<lambda>i. i \<in> set lowest \<and> sd_span sd i) of
                             [] \<Rightarrow> lowest_in_domains env lowest this sds
                           | best # _ \<Rightarrow> Some best)
         | None \<Rightarrow> (case for_each_cpu env (\<lambda>i. i \<in> set lowest \<and> sd_span sd i) of
                      [] \<Rightarrow> lowest_in_domains env lowest this sds
                    | best # _ \<Rightarrow> Some best))
      else lowest_in_domains env lowest this sds)"

definition find_lowest_rq :: "'x env \<Rightarrow> tid \<Rightarrow> 'x kernel \<Rightarrow> cpu option" where
  "find_lowest_rq env p k =
     (let c = task_cpu (tasks k p);
          lowest = cpupri_find env (cpupri k) p k in
      if rt_nr_cpus_allowed (rt_of k p) = 1 then None
      else if lowest = [] then None
      else if c \<in> set lowest then Some c
      else
        let this = (if this_cpu k \<in> set lowest then Some (this_cpu k) else None) in
        case lowest_in_domains env lowest this (sched_doms k c) of
          Some r \<Rightarrow> Some r
        | None \<Rightarrow>
            (case this of
               Some r \<Rightarrow> Some r
             | None \<Rightarrow> (case for_each_cpu env (\<lambda>i. i \<in> set lowest) of [] \<Rightarrow> None | r # _ \<Rightarrow> Some r)))"

definition select_task_rq_rt :: "'x env \<Rightarrow> tid \<Rightarrow> nat \<Rightarrow> u32 \<Rightarrow> 'x kernel \<Rightarrow> cpu" where
  "select_task_rq_rt env p sd_flag fl k =
     (let c = task_cpu (tasks k p); q = curr_of k c in
      if rt_nr_cpus_allowed (rt_of k p) = 1 then c
      else if sd_flag \<noteq> SD_BALANCE_WAKE \<and> sd_flag \<noteq> SD_BALANCE_FORK then c
      else if rt_task k q
           \<and> (rt_nr_cpus_allowed (rt_of k q) < 2 \<or> prio (tasks k q) \<le> prio (tasks k p))
           \<and> 1 < rt_nr_cpus_allowed (rt_of k p)
      then (case find_lowest_rq env p k of None \<Rightarrow> c | Some target \<Rightarrow> target)
      else c)"

section \<open>Preemption\<close>

definition check_preempt_equal_prio :: "'x env \<Rightarrow> cpu \<Rightarrow> tid \<Rightarrow> 'x kernel \<Rightarrow> 'x kernel" where
  "check_preempt_equal_prio env c p k =
     (let q = curr_of k c in
      if rt_nr_cpus_allowed (rt_of k q) = 1 then k
      else if rt_nr_cpus_allowed (rt_of k p) \<noteq> 1 \<and> cpupri_find env (cpupri k) p k \<noteq> [] then k
      else if cpupri_find env (cpupri k) q k = [] then k
      else resched_task q (requeue_task_rt c p 1 k))"

definition check_preempt_curr_rt :: "'x env \<Rightarrow> cpu \<Rightarrow> tid \<Rightarrow> u32 \<Rightarrow> 'x kernel \<Rightarrow> 'x kernel" where
  "check_preempt_curr_rt env c p fl k =
     (let q = curr_of k c in
      if prio (tasks k p) < prio (tasks k q) then resched_task q k
      else if config_smp env \<and> prio (tasks k p) = prio (tasks k q) \<and> \<not> need_resched (tasks k q)
      then check_preempt_equal_prio env c p k
      else k)"

section \<open>Picking\<close>

text \<open>
  The loop of \<open>_pick_next_task_rt\<close> goes down one group per turn, so it takes at most one
  turn more than there are groups. \<open>None\<close> stands for the \<open>BUG_ON\<close>.
\<close>

definition pick_next_rt_entity :: "'x kernel \<Rightarrow> rt_rq_ref \<Rightarrow> rt_se_ref option" where
  "pick_next_rt_entity k r =
     (let idx = sched_find_first_bit (bitmap (rt_rqs k r)) in
      if MAX_RT_PRIO \<le> idx then None else Some (hd (elems (rt_q k) (r, nat idx))))"

fun pick_rt_loop :: "nat \<Rightarrow> 'x kernel \<Rightarrow> rt_rq_ref \<Rightarrow> rt_se_ref option" where
  "pick_rt_loop 0 k r = None"
| "pick_rt_loop (Suc n) k r =
     (case pick_next_rt_entity k r of
        None \<Rightarrow> None
      | Some s \<Rightarrow> (case group_rt_rq k s of None \<Rightarrow> Some s | Some g \<Rightarrow> pick_rt_loop n k g))"

definition pick_next_task_rt1 :: "cpu \<Rightarrow> 'x kernel \<Rightarrow> tid option \<times> 'x kernel" where
  "pick_next_task_rt1 c k =
     (let r = root_rt c in
      if rt_nr_running (rt_rqs k r) = 0 then (None, k)
      else if rt_rq_throttled k r then (None, k)
      else case pick_rt_loop (Suc (length (task_groups k))) k r of
             None \<Rightarrow> (None, BUG_ON True k)
           | Some s \<Rightarrow>
               let p = rt_task_of s in
               (Some p, upd_se p (\<lambda>e. e\<lparr>exec_start := clock_task (rqs k c)\<rparr>) k))"

definition pick_next_task_rt :: "'x env \<Rightarrow> cpu \<Rightarrow> 'x kernel \<Rightarrow> tid option \<times> 'x kernel" where
  "pick_next_task_rt env c k =
     (case pick_next_task_rt1 c k of
        (p, k) \<Rightarrow>
          let k = (case p of None \<Rightarrow> k | Some p \<Rightarrow> dequeue_pushable_task env c p k);
              k = (if config_smp env
                   then upd_rq c (\<lambda>q. q\<lparr>post_schedule := has_pushable_tasks c k\<rparr>) k else k)
          in (p, k))"

definition put_prev_task_rt :: "'x env \<Rightarrow> cpu \<Rightarrow> tid \<Rightarrow> 'x kernel \<Rightarrow> 'x kernel" where
  "put_prev_task_rt env c p k =
     (let k = update_curr_rt env c k in
      if on_rt_rq k (Task_se p) \<and> 1 < rt_nr_cpus_allowed (rt_of k p)
      then enqueue_pushable_task env c p k else k)"

section \<open>The second highest task\<close>

definition pick_rt_task :: "'x env \<Rightarrow> cpu \<Rightarrow> tid \<Rightarrow> int \<Rightarrow> 'x kernel \<Rightarrow> bool" where
  "pick_rt_task env c p target k \<longleftrightarrow>
     \<not> task_running env c p k \<and> (target < 0 \<or> cpus_allowed (tasks k p) (nat target))
     \<and> 1 < rt_nr_cpus_allowed (rt_of k p)"

text \<open>\<open>pick_next_highest_task_rt\<close>, on one runqueue, from priority \<open>idx\<close> on.\<close>

function scan_rt_rq ::
  "'x env \<Rightarrow> cpu \<Rightarrow> int \<Rightarrow> rt_rq_ref \<Rightarrow> 'x kernel \<Rightarrow> tid option \<Rightarrow> nat \<Rightarrow> tid option" where
  "scan_rt_rq env c target r k next idx =
     (if 100 \<le> idx then next
      else if (case next of None \<Rightarrow> False | Some n \<Rightarrow> prio (tasks k n) \<le> int idx) then next
      else case find (\<lambda>s. rt_entity_is_task k s \<and> pick_rt_task env c (rt_task_of s) target k)
                  (elems (rt_q k) (r, idx)) of
             Some s \<Rightarrow> Some (rt_task_of s)
           | None \<Rightarrow> if next = None
                     then scan_rt_rq env c target r k next
                            (find_next_bit (bitmap (rt_rqs k r)) 100 (Suc idx))
                     else next)"
  by pat_completeness auto
termination
proof (relation "measure (\<lambda>(env, c, target, r, k, next, idx). 100 - idx)", goal_cases)
  case (2 env c target r k nxt idx)
  then have "idx < find_next_bit (bitmap (rt_rqs k r)) 100 (Suc idx)"
    using find_next_bit_set [of "bitmap (rt_rqs k r)" 100 "Suc idx"]
    by (cases "find_next_bit (bitmap (rt_rqs k r)) 100 (Suc idx) < 100") auto
  with 2 show ?case by auto
qed simp

declare scan_rt_rq.simps [simp del]

definition pick_next_highest_task_rt :: "'x env \<Rightarrow> cpu \<Rightarrow> int \<Rightarrow> 'x kernel \<Rightarrow> tid option" where
  "pick_next_highest_task_rt env c target k =
     foldl (\<lambda>next r. scan_rt_rq env c target r k next
                       (nat (sched_find_first_bit (bitmap (rt_rqs k r)))))
       None (leaf_rt_rq_list (rqs k c))"

section \<open>Affinity, hotplug, ticks\<close>

text \<open>\<open>set_cpus_allowed_rt\<close> runs before the new mask is stored in the task.\<close>

definition set_cpus_allowed_rt :: "'x env \<Rightarrow> tid \<Rightarrow> cpumask \<Rightarrow> 'x kernel \<Rightarrow> 'x kernel" where
  "set_cpus_allowed_rt env p new_mask k =
     (let weight = cpumask_weight env new_mask;
          old = rt_nr_cpus_allowed (rt_of k p);
          c = task_cpu (tasks k p);
          k = BUG_ON (\<not> rt_task k p) k in
      if on_rq (tasks k p) \<and> weight \<noteq> old then
        let k = (if \<not> task_current c p k then
                   let k = (if 1 < old then dequeue_pushable_task env c p k else k)
                   in if 1 < weight then enqueue_pushable_task env c p k else k
                 else k);
            r = root_rt c;
            k = (if old \<le> 1 \<and> 1 < weight
                 then upd_rt_rq r (\<lambda>q. q\<lparr>rt_nr_migratory := rt_nr_migratory q + 1\<rparr>) k
                 else if 1 < old \<and> weight \<le> 1
                 then upd_rt_rq r (\<lambda>q. q\<lparr>rt_nr_migratory := rt_nr_migratory q - 1\<rparr>)
                        (BUG_ON (rt_nr_migratory (rt_rqs k r) = 0) k)
                 else k)
        in update_rt_migration r k
      else k)"

definition CPUPRI_INVALID :: int where "CPUPRI_INVALID = -1"

definition rq_online_rt :: "cpu \<Rightarrow> 'x kernel \<Rightarrow> 'x kernel" where
  "rq_online_rt c k =
     (let k = (if is_overloaded (rt_rqs k (root_rt c)) then rt_set_overload c k else k);
          k = enable_runtime c k
      in cpupri_set c (highest_prio_curr (rt_rqs k (root_rt c))) k)"

definition rq_offline_rt :: "'x env \<Rightarrow> cpu \<Rightarrow> 'x kernel \<Rightarrow> 'x kernel" where
  "rq_offline_rt env c k =
     (let k = (if is_overloaded (rt_rqs k (root_rt c)) then rt_clear_overload c k else k);
          k = disable_runtime env c k
      in cpupri_set c CPUPRI_INVALID k)"

text \<open>\<open>watchdog\<close>; \<open>DIV_ROUND_UP(min(soft, hard), USEC_PER_SEC/HZ)\<close> on \<open>unsigned long\<close>.\<close>

definition watchdog :: "'x env \<Rightarrow> tid \<Rightarrow> 'x kernel \<Rightarrow> 'x kernel" where
  "watchdog env p k =
     (let soft = rlim env p RLIMIT_RTTIME; hard = rlim_max env p RLIMIT_RTTIME in
      if soft = RLIM_INFINITY then k
      else
        let k = upd_rt_se (Task_se p) (\<lambda>e. e\<lparr>rt_timeout := rt_timeout e + 1\<rparr>) k;
            next = (min soft hard + 1000000 div HZ - 1) div (1000000 div HZ)
        in if next < rt_timeout (rt_of k p)
           then upd_task p (\<lambda>t. t\<lparr>sched_exp := sum_exec_runtime (se t)\<rparr>) k else k)"

definition task_tick_rt :: "'x env \<Rightarrow> cpu \<Rightarrow> tid \<Rightarrow> int \<Rightarrow> 'x kernel \<Rightarrow> 'x kernel" where
  "task_tick_rt env c p queued k =
     (let k = update_curr_rt env c k;
          k = watchdog env p k in
      if policy (tasks k p) \<noteq> SCHED_RR then k
      else
        let k = upd_rt_se (Task_se p) (\<lambda>e. e\<lparr>rt_time_slice := rt_time_slice e - 1\<rparr>) k in
        if rt_time_slice (rt_of k p) \<noteq> 0 then k
        else
          let k = upd_rt_se (Task_se p) (\<lambda>e. e\<lparr>rt_time_slice := RR_TIMESLICE\<rparr>) k in
          if list_ex (\<lambda>s. link_prev s (rt_q k) \<noteq> link_next s (rt_q k)) (rt_chain k (Task_se p))
          then upd_task p (\<lambda>t. t\<lparr>need_resched := True\<rparr>) (requeue_task_rt c p 0 k)
          else k)"

definition set_curr_task_rt :: "'x env \<Rightarrow> cpu \<Rightarrow> 'x kernel \<Rightarrow> 'x kernel" where
  "set_curr_task_rt env c k =
     (let p = curr_of k c;
          k = upd_se p (\<lambda>e. e\<lparr>exec_start := clock_task (rqs k c)\<rparr>) k
      in dequeue_pushable_task env c p k)"

definition get_rr_interval_rt :: "cpu \<Rightarrow> tid \<Rightarrow> 'x kernel \<Rightarrow> u32" where
  "get_rr_interval_rt c p k = (if policy (tasks k p) = SCHED_RR then RR_TIMESLICE else 0)"

end
