(* ===== verification/Sched_Queue.thy ===== *)
theory Sched_Queue
  imports Rt_Class
begin

text \<open>
  The dispatch of \<open>core.c\<close> through \<open>p->sched_class\<close>, for the operations no class calls back
  from: enqueueing and dequeueing with the clock and load bookkeeping around them
  (\<open>enqueue_task\<close> to \<open>deactivate_task\<close>), ticks, picking, putting back and preemption checks
  (\<open>check_preempt_curr\<close>, \<open>put_prev_task\<close>, \<open>pick_next_task\<close>).
\<close>

section \<open>Dispatch\<close>

definition class_enqueue_task :: "'x env \<Rightarrow> cpu \<Rightarrow> tid \<Rightarrow> u32 \<Rightarrow> 'x kernel \<Rightarrow> 'x kernel" where
  "class_enqueue_task env c p fl k =
     (case class_of (tasks k p) of
        rt_sched_class \<Rightarrow> enqueue_task_rt env c p fl k
      | wrr_sched_class \<Rightarrow> enqueue_task_wrr env c p fl k
      | cls \<Rightarrow> op_enqueue_task (class_ext env cls) c p fl k)"

definition class_dequeue_task :: "'x env \<Rightarrow> cpu \<Rightarrow> tid \<Rightarrow> u32 \<Rightarrow> 'x kernel \<Rightarrow> 'x kernel" where
  "class_dequeue_task env c p fl k =
     (case class_of (tasks k p) of
        rt_sched_class \<Rightarrow> dequeue_task_rt env c p fl k
      | wrr_sched_class \<Rightarrow> dequeue_task_wrr env c p fl k
      | cls \<Rightarrow> op_dequeue_task (class_ext env cls) c p fl k)"

definition class_yield_task :: "'x env \<Rightarrow> sched_class \<Rightarrow> cpu \<Rightarrow> 'x kernel \<Rightarrow> 'x kernel" where
  "class_yield_task env cls c k =
     (case cls of
        rt_sched_class \<Rightarrow> yield_task_rt c k
      | wrr_sched_class \<Rightarrow> yield_task_wrr c k
      | _ \<Rightarrow> op_yield_task (class_ext env cls) c k)"

definition class_check_preempt :: "'x env \<Rightarrow> sched_class \<Rightarrow> cpu \<Rightarrow> tid \<Rightarrow> u32 \<Rightarrow> 'x kernel \<Rightarrow> 'x kernel" where
  "class_check_preempt env cls c p fl k =
     (case cls of
        rt_sched_class \<Rightarrow> check_preempt_curr_rt env c p fl k
      | wrr_sched_class \<Rightarrow> check_preempt_curr_wrr c p fl k
      | _ \<Rightarrow> op_check_preempt_curr (class_ext env cls) c p fl k)"

definition class_pick_next_task ::
  "'x env \<Rightarrow> sched_class \<Rightarrow> cpu \<Rightarrow> 'x kernel \<Rightarrow> tid option \<times> 'x kernel" where
  "class_pick_next_task env cls c k =
     (case cls of
        rt_sched_class \<Rightarrow> pick_next_task_rt env c k
      | wrr_sched_class \<Rightarrow> (pick_next_task_wrr c k, k)
      | _ \<Rightarrow> op_pick_next_task (class_ext env cls) c k)"

definition class_put_prev_task :: "'x env \<Rightarrow> cpu \<Rightarrow> tid \<Rightarrow> 'x kernel \<Rightarrow> 'x kernel" where
  "class_put_prev_task env c p k =
     (case class_of (tasks k p) of
        rt_sched_class \<Rightarrow> put_prev_task_rt env c p k
      | wrr_sched_class \<Rightarrow> put_prev_task_wrr env c p k
      | cls \<Rightarrow> op_put_prev_task (class_ext env cls) c p k)"

definition class_set_curr_task :: "'x env \<Rightarrow> sched_class \<Rightarrow> cpu \<Rightarrow> 'x kernel \<Rightarrow> 'x kernel" where
  "class_set_curr_task env cls c k =
     (case cls of
        rt_sched_class \<Rightarrow> set_curr_task_rt env c k
      | wrr_sched_class \<Rightarrow> set_curr_task_wrr c k
      | _ \<Rightarrow> op_set_curr_task (class_ext env cls) c k)"

definition class_task_tick :: "'x env \<Rightarrow> cpu \<Rightarrow> tid \<Rightarrow> int \<Rightarrow> 'x kernel \<Rightarrow> 'x kernel" where
  "class_task_tick env c p queued k =
     (case class_of (tasks k p) of
        rt_sched_class \<Rightarrow> task_tick_rt env c p queued k
      | wrr_sched_class \<Rightarrow> task_tick_wrr env c p queued k
      | cls \<Rightarrow> op_task_tick (class_ext env cls) c p queued k)"

definition class_select_task_rq :: "'x env \<Rightarrow> tid \<Rightarrow> nat \<Rightarrow> u32 \<Rightarrow> 'x kernel \<Rightarrow> cpu" where
  "class_select_task_rq env p sd_flag fl k =
     (case class_of (tasks k p) of
        rt_sched_class \<Rightarrow> select_task_rq_rt env p sd_flag fl k
      | wrr_sched_class \<Rightarrow> select_task_rq_wrr env p sd_flag fl k
      | cls \<Rightarrow> op_select_task_rq (class_ext env cls) p sd_flag fl k)"

definition class_get_rr_interval :: "'x env \<Rightarrow> cpu \<Rightarrow> tid \<Rightarrow> 'x kernel \<Rightarrow> u32" where
  "class_get_rr_interval env c p k =
     (case class_of (tasks k p) of
        rt_sched_class \<Rightarrow> get_rr_interval_rt c p k
      | wrr_sched_class \<Rightarrow> get_rr_interval_wrr env c p k
      | cls \<Rightarrow> op_get_rr_interval (class_ext env cls) c p k)"

section \<open>Queueing with the bookkeeping\<close>

definition enqueue_task :: "'x env \<Rightarrow> cpu \<Rightarrow> tid \<Rightarrow> u32 \<Rightarrow> 'x kernel \<Rightarrow> 'x kernel" where
  "enqueue_task env c p fl k = class_enqueue_task env c p fl (update_rq_clock c k)"

definition dequeue_task :: "'x env \<Rightarrow> cpu \<Rightarrow> tid \<Rightarrow> u32 \<Rightarrow> 'x kernel \<Rightarrow> 'x kernel" where
  "dequeue_task env c p fl k = class_dequeue_task env c p fl (update_rq_clock c k)"

definition activate_task :: "'x env \<Rightarrow> cpu \<Rightarrow> tid \<Rightarrow> u32 \<Rightarrow> 'x kernel \<Rightarrow> 'x kernel" where
  "activate_task env c p fl k =
     (let k = (if task_contributes_to_load k p
               then upd_rq c (\<lambda>r. r\<lparr>nr_uninterruptible := nr_uninterruptible r - 1\<rparr>) k else k)
      in enqueue_task env c p fl k)"

definition deactivate_task :: "'x env \<Rightarrow> cpu \<Rightarrow> tid \<Rightarrow> u32 \<Rightarrow> 'x kernel \<Rightarrow> 'x kernel" where
  "deactivate_task env c p fl k =
     (let k = (if task_contributes_to_load k p
               then upd_rq c (\<lambda>r. r\<lparr>nr_uninterruptible := nr_uninterruptible r + 1\<rparr>) k else k)
      in dequeue_task env c p fl k)"

section \<open>Preemption\<close>

text \<open>
  \<open>check_preempt_curr\<close>: within a class the class decides; between classes the first of the
  two in the chain wins.
\<close>

fun preempt_scan :: "sched_class list \<Rightarrow> sched_class \<Rightarrow> sched_class \<Rightarrow> bool" where
  "preempt_scan [] cc pc = False"
| "preempt_scan (cls # rest) cc pc =
     (if cls = cc then False else if cls = pc then True else preempt_scan rest cc pc)"

definition check_preempt_curr :: "'x env \<Rightarrow> cpu \<Rightarrow> tid \<Rightarrow> u32 \<Rightarrow> 'x kernel \<Rightarrow> 'x kernel" where
  "check_preempt_curr env c p fl k =
     (let q = curr_of k c; cc = class_of (tasks k q); pc = class_of (tasks k p);
          k = (if pc = cc then class_check_preempt env cc c p fl k
               else if preempt_scan (for_each_class env) cc pc then resched_task q k else k)
      in if on_rq (tasks k (curr_of k c)) \<and> need_resched (tasks k (curr_of k c))
         then upd_rq c (\<lambda>r. r\<lparr>skip_clock_update := 1\<rparr>) k else k)"

text \<open>With the kernel's chain the scan is the order of the classes.\<close>

lemma preempt_scan_linux:
  assumes "linux_class_order env"
  shows "preempt_scan (for_each_class env) cc pc \<longleftrightarrow> cc < pc"
  unfolding for_each_class_linux [OF assms]
  by (cases cc; cases pc) (simp_all add: class_order_defs)

section \<open>Picking the next task\<close>

definition put_prev_task :: "'x env \<Rightarrow> cpu \<Rightarrow> tid \<Rightarrow> 'x kernel \<Rightarrow> 'x kernel" where
  "put_prev_task env c prev k =
     (let k = (if on_rq (tasks k prev) \<or> skip_clock_update (rqs k c) < 0
               then update_rq_clock c k else k)
      in class_put_prev_task env c prev k)"

fun pick_classes :: "'x env \<Rightarrow> sched_class list \<Rightarrow> cpu \<Rightarrow> 'x kernel \<Rightarrow> tid option \<times> 'x kernel" where
  "pick_classes env [] c k = (None, BUG_ON True k)"
| "pick_classes env (cls # rest) c k =
     (case class_pick_next_task env cls c k of
        (Some p, k) \<Rightarrow> (Some p, k)
      | (None, k) \<Rightarrow> pick_classes env rest c k)"

text \<open>The result \<open>None\<close> is the \<open>BUG()\<close> at the end.\<close>

definition pick_next_task :: "'x env \<Rightarrow> cpu \<Rightarrow> 'x kernel \<Rightarrow> tid option \<times> 'x kernel" where
  "pick_next_task env c k =
     (if nr_running (rqs k c) = cfs_h_nr_running (rqs k c) then
        (case class_pick_next_task env fair_sched_class c k of
           (Some p, k) \<Rightarrow> (Some p, k)
         | (None, k) \<Rightarrow> pick_classes env (for_each_class env) c k)
      else pick_classes env (for_each_class env) c k)"

end
