(* ===== verification/Sched_Balance.thy ===== *)
theory Sched_Balance
  imports Sched_Queue
begin

text \<open>
  Moving tasks between runqueues: push and pull of the RT class (\<open>rt.c\<close>), the pull of the WRR
  class (\<open>wrr.c\<close>), and the class hooks that use them (\<open>pre_schedule\<close>, \<open>post_schedule\<close>,
  \<open>task_woken\<close>, \<open>switched_from\<close>, \<open>switched_to\<close>, \<open>prio_changed\<close>). An operation runs without
  interference. With \<open>CONFIG_PREEMPT\<close>, which both trees set, \<open>double_lock_balance\<close> always drops
  the lock and returns 1, so its callers always check again.
\<close>

section \<open>Pushing RT tasks\<close>

text \<open>
  \<open>find_lock_lowest_rq\<close> tries \<open>RT_MAX_TRIES\<close> times; the result is a runqueue whose highest
  priority is still below the task's.
\<close>

definition RT_MAX_TRIES :: nat where "RT_MAX_TRIES = 3"

fun lowest_rq_tries :: "nat \<Rightarrow> 'x env \<Rightarrow> tid \<Rightarrow> cpu \<Rightarrow> 'x kernel \<Rightarrow> cpu option" where
  "lowest_rq_tries 0 env p c k = None"
| "lowest_rq_tries (Suc n) env p c k =
     (case find_lowest_rq env p k of
        None \<Rightarrow> None
      | Some l \<Rightarrow>
          if l = c then None
          else if task_cpu (tasks k p) \<noteq> c \<or> \<not> cpus_allowed (tasks k p) l
                  \<or> task_running env c p k \<or> \<not> on_rq (tasks k p)
          then None
          else if prio (tasks k p) < highest_prio_curr (rt_rqs k (root_rt l)) then Some l
          else lowest_rq_tries n env p c k)"

definition find_lock_lowest_rq :: "'x env \<Rightarrow> tid \<Rightarrow> cpu \<Rightarrow> 'x kernel \<Rightarrow> cpu option" where
  "find_lock_lowest_rq env p c k = lowest_rq_tries RT_MAX_TRIES env p c k"

definition pick_next_pushable_task :: "cpu \<Rightarrow> 'x kernel \<Rightarrow> tid option \<times> 'x kernel" where
  "pick_next_pushable_task c k =
     (if \<not> has_pushable_tasks c k then (None, k)
      else
        let p = snd (hd (pushable_tasks (rt_rqs k (root_rt c)))) in
        (Some p, BUG_ON (c \<noteq> task_cpu (tasks k p) \<or> task_current c p k
                   \<or> rt_nr_cpus_allowed (rt_of k p) \<le> 1
                   \<or> \<not> on_rq (tasks k p) \<or> \<not> rt_task k p) k))"

text \<open>
  The body of \<open>push_rt_task\<close> from the label \<open>retry\<close>. It retries when another task has become
  the first pushable one while the lock was dropped, which a run without interference does
  not do: two rounds are enough.
\<close>

fun push_rt_retry :: "nat \<Rightarrow> 'x env \<Rightarrow> cpu \<Rightarrow> tid \<Rightarrow> 'x kernel \<Rightarrow> bool \<times> 'x kernel" where
  "push_rt_retry 0 env c next_task k = (False, k)"
| "push_rt_retry (Suc n) env c next_task k =
     (let q = curr_of k c in
      if next_task = q then (False, k)
      else if prio (tasks k next_task) < prio (tasks k q) then (False, resched_task q k)
      else case find_lock_lowest_rq env next_task c k of
             None \<Rightarrow>
               (case pick_next_pushable_task c k of
                  (task, k) \<Rightarrow>
                    if task_cpu (tasks k next_task) = c \<and> task = Some next_task then (False, k)
                    else (case task of
                            None \<Rightarrow> (False, k)
                          | Some t \<Rightarrow> push_rt_retry n env c t k))
           | Some l \<Rightarrow>
               let k = deactivate_task env c next_task 0 k;
                   k = set_task_cpu env next_task l k;
                   k = activate_task env l next_task 0 k
               in (True, resched_task (curr_of k l) k))"

definition push_rt_task :: "'x env \<Rightarrow> cpu \<Rightarrow> 'x kernel \<Rightarrow> bool \<times> 'x kernel" where
  "push_rt_task env c k =
     (if \<not> is_overloaded (rt_rqs k (root_rt c)) then (False, k)
      else case pick_next_pushable_task c k of
             (None, k) \<Rightarrow> (False, k)
           | (Some p, k) \<Rightarrow> push_rt_retry 2 env c p k)"

text \<open>
  \<open>push_rt_tasks\<close> repeats while a task was moved. A task that is moved leaves this cpu's
  pushable list, so the length of the list bounds the rounds.
\<close>

fun push_rt_loop :: "nat \<Rightarrow> 'x env \<Rightarrow> cpu \<Rightarrow> 'x kernel \<Rightarrow> 'x kernel" where
  "push_rt_loop 0 env c k = k"
| "push_rt_loop (Suc n) env c k =
     (case push_rt_task env c k of (moved, k) \<Rightarrow> if moved then push_rt_loop n env c k else k)"

definition push_rt_tasks :: "'x env \<Rightarrow> cpu \<Rightarrow> 'x kernel \<Rightarrow> 'x kernel" where
  "push_rt_tasks env c k =
     push_rt_loop (Suc (length (pushable_tasks (rt_rqs k (root_rt c))))) env c k"

section \<open>Pulling RT tasks\<close>

text \<open>\<open>pull_rt_task\<close>, for one cpu of the overload mask, which is read as the loop goes.\<close>

definition pull_rt_from :: "'x env \<Rightarrow> cpu \<Rightarrow> bool \<times> 'x kernel \<Rightarrow> cpu \<Rightarrow> bool \<times> 'x kernel" where
  "pull_rt_from env this st src =
     (case st of (ret, k) \<Rightarrow>
        if \<not> rto_mask k src \<or> this = src then st
        else if highest_prio_curr (rt_rqs k (root_rt this))
                  \<le> highest_prio_next (rt_rqs k (root_rt src)) then st
        else if rt_nr_running (rt_rqs k (root_rt src)) \<le> 1 then st
        else (case pick_next_highest_task_rt env src (int this) k of
               None \<Rightarrow> st
             | Some p \<Rightarrow>
                 if prio (tasks k p) < highest_prio_curr (rt_rqs k (root_rt this))
                 then if prio (tasks k p) < prio (tasks k (curr_of k src)) then st
                      else
                        let k = deactivate_task env src p 0 k;
                            k = set_task_cpu env p this k;
                            k = activate_task env this p 0 k
                        in (True, k)
                 else st))"

definition pull_rt_task :: "'x env \<Rightarrow> cpu \<Rightarrow> 'x kernel \<Rightarrow> bool \<times> 'x kernel" where
  "pull_rt_task env this k =
     (if \<not> rt_overloaded k then (False, k)
      else foldl (pull_rt_from env this) (False, k) [0..<nr_cpu_ids env])"

section \<open>Pulling WRR tasks\<close>

text \<open>
  \<open>pull_wrr_task\<close>: the first task, over the other online cpus in order, that is queued, not
  running, of the WRR policy and allowed on this cpu is moved here.
\<close>

definition pull_wrr_candidate :: "'x env \<Rightarrow> cpu \<Rightarrow> cpu \<Rightarrow> 'x kernel \<Rightarrow> tid option" where
  "pull_wrr_candidate env dst src k =
     find (\<lambda>p. \<not> task_running env src p k \<and> policy (tasks k p) = SCHED_WRR
             \<and> cpus_allowed (tasks k p) dst \<and> on_rq (tasks k p))
       (elems (wrr_q k) src)"

definition move_wrr_task :: "'x env \<Rightarrow> cpu \<Rightarrow> cpu \<Rightarrow> tid \<Rightarrow> 'x kernel \<Rightarrow> 'x kernel" where
  "move_wrr_task env dst src p k =
     (let k = deactivate_task env src p 0 k;
          k = set_task_cpu env p dst k;
          k = activate_task env dst p 0 k
      in check_preempt_curr env dst p 0 k)"

fun pull_wrr_scan :: "'x env \<Rightarrow> cpu \<Rightarrow> cpu list \<Rightarrow> 'x kernel \<Rightarrow> 'x kernel" where
  "pull_wrr_scan env dst [] k = k"
| "pull_wrr_scan env dst (src # srcs) k =
     (if src = dst then pull_wrr_scan env dst srcs k
      else if list_empty src (wrr_q k) then pull_wrr_scan env dst srcs k
      else case pull_wrr_candidate env dst src k of
             None \<Rightarrow> pull_wrr_scan env dst srcs k
           | Some p \<Rightarrow> move_wrr_task env dst src p k)"

definition pull_wrr_task :: "'x env \<Rightarrow> cpu \<Rightarrow> 'x kernel \<Rightarrow> 'x kernel" where
  "pull_wrr_task env dst k =
     (if \<not> cpu_online_mask k dst then k
      else pull_wrr_scan env dst (for_each_cpu env (cpu_online_mask k)) k)"

section \<open>The hooks of the RT class that balance\<close>

definition pre_schedule_rt :: "'x env \<Rightarrow> cpu \<Rightarrow> tid \<Rightarrow> 'x kernel \<Rightarrow> 'x kernel" where
  "pre_schedule_rt env c prev k =
     (if prio (tasks k prev) < highest_prio_curr (rt_rqs k (root_rt c))
      then snd (pull_rt_task env c k) else k)"

definition post_schedule_rt :: "'x env \<Rightarrow> cpu \<Rightarrow> 'x kernel \<Rightarrow> 'x kernel" where
  "post_schedule_rt env c k = push_rt_tasks env c k"

definition task_woken_rt :: "'x env \<Rightarrow> cpu \<Rightarrow> tid \<Rightarrow> 'x kernel \<Rightarrow> 'x kernel" where
  "task_woken_rt env c p k =
     (let q = curr_of k c in
      if \<not> task_running env c p k \<and> \<not> need_resched (tasks k q) \<and> has_pushable_tasks c k
         \<and> 1 < rt_nr_cpus_allowed (rt_of k p) \<and> rt_task k q
         \<and> (rt_nr_cpus_allowed (rt_of k q) < 2 \<or> prio (tasks k q) \<le> prio (tasks k p))
      then push_rt_tasks env c k else k)"

definition switched_from_rt :: "'x env \<Rightarrow> cpu \<Rightarrow> tid \<Rightarrow> 'x kernel \<Rightarrow> 'x kernel" where
  "switched_from_rt env c p k =
     (if on_rq (tasks k p) \<and> rt_nr_running (rt_rqs k (root_rt c)) = 0
      then snd (pull_rt_task env c k) else k)"

definition switched_to_rt :: "'x env \<Rightarrow> cpu \<Rightarrow> tid \<Rightarrow> 'x kernel \<Rightarrow> 'x kernel" where
  "switched_to_rt env c p k =
     (if on_rq (tasks k p) \<and> curr_of k c \<noteq> p then
        case (if config_smp env \<and> is_overloaded (rt_rqs k (root_rt c))
              then push_rt_task env c k else (False, k)) of
          (pushed, k) \<Rightarrow>
            if \<not> (pushed \<and> c \<noteq> task_cpu (tasks k p))
               \<and> prio (tasks k p) < prio (tasks k (curr_of k c))
            then resched_task (curr_of k c) k else k
      else k)"

definition prio_changed_rt :: "'x env \<Rightarrow> cpu \<Rightarrow> tid \<Rightarrow> int \<Rightarrow> 'x kernel \<Rightarrow> 'x kernel" where
  "prio_changed_rt env c p oldprio k =
     (if \<not> on_rq (tasks k p) then k
      else if curr_of k c = p then
        if config_smp env then
          let k = (if oldprio < prio (tasks k p) then snd (pull_rt_task env c k) else k) in
          if highest_prio_curr (rt_rqs k (root_rt c)) < prio (tasks k p) \<and> curr_of k c = p
          then resched_task p k else k
        else if oldprio < prio (tasks k p) then resched_task p k else k
      else if prio (tasks k p) < prio (tasks k (curr_of k c)) then resched_task (curr_of k c) k
      else k)"

section \<open>Dispatch of the hooks\<close>

text \<open>\<open>switched_from\<close> and the hooks below it exist in the RT class on SMP only.\<close>

definition class_switched_from :: "'x env \<Rightarrow> sched_class \<Rightarrow> cpu \<Rightarrow> tid \<Rightarrow> 'x kernel \<Rightarrow> 'x kernel" where
  "class_switched_from env cls c p k =
     (case cls of
        rt_sched_class \<Rightarrow> if config_smp env then switched_from_rt env c p k else k
      | wrr_sched_class \<Rightarrow> switched_from_wrr c p k
      | _ \<Rightarrow> op_switched_from (class_ext env cls) c p k)"

definition class_switched_to :: "'x env \<Rightarrow> sched_class \<Rightarrow> cpu \<Rightarrow> tid \<Rightarrow> 'x kernel \<Rightarrow> 'x kernel" where
  "class_switched_to env cls c p k =
     (case cls of
        rt_sched_class \<Rightarrow> switched_to_rt env c p k
      | wrr_sched_class \<Rightarrow> switched_to_wrr env c p k
      | _ \<Rightarrow> op_switched_to (class_ext env cls) c p k)"

definition class_prio_changed :: "'x env \<Rightarrow> sched_class \<Rightarrow> cpu \<Rightarrow> tid \<Rightarrow> int \<Rightarrow> 'x kernel \<Rightarrow> 'x kernel" where
  "class_prio_changed env cls c p oldprio k =
     (case cls of
        rt_sched_class \<Rightarrow> prio_changed_rt env c p oldprio k
      | wrr_sched_class \<Rightarrow> prio_changed_wrr c p oldprio k
      | _ \<Rightarrow> op_prio_changed (class_ext env cls) c p oldprio k)"

definition class_task_woken :: "'x env \<Rightarrow> sched_class \<Rightarrow> cpu \<Rightarrow> tid \<Rightarrow> 'x kernel \<Rightarrow> 'x kernel" where
  "class_task_woken env cls c p k =
     (case cls of
        rt_sched_class \<Rightarrow> task_woken_rt env c p k
      | wrr_sched_class \<Rightarrow> task_woken_wrr c p k
      | _ \<Rightarrow> op_task_woken (class_ext env cls) c p k)"

definition class_set_cpus_allowed :: "'x env \<Rightarrow> sched_class \<Rightarrow> tid \<Rightarrow> cpumask \<Rightarrow> 'x kernel \<Rightarrow> 'x kernel" where
  "class_set_cpus_allowed env cls p m k =
     (case cls of
        rt_sched_class \<Rightarrow> set_cpus_allowed_rt env p m k
      | wrr_sched_class \<Rightarrow> set_cpus_allowed_wrr p m k
      | _ \<Rightarrow> op_set_cpus_allowed (class_ext env cls) p m k)"

definition class_rq_online :: "'x env \<Rightarrow> sched_class \<Rightarrow> cpu \<Rightarrow> 'x kernel \<Rightarrow> 'x kernel" where
  "class_rq_online env cls c k =
     (case cls of
        rt_sched_class \<Rightarrow> rq_online_rt c k
      | wrr_sched_class \<Rightarrow> rq_online_wrr c k
      | _ \<Rightarrow> op_rq_online (class_ext env cls) c k)"

definition class_rq_offline :: "'x env \<Rightarrow> sched_class \<Rightarrow> cpu \<Rightarrow> 'x kernel \<Rightarrow> 'x kernel" where
  "class_rq_offline env cls c k =
     (case cls of
        rt_sched_class \<Rightarrow> rq_offline_rt env c k
      | wrr_sched_class \<Rightarrow> rq_offline_wrr c k
      | _ \<Rightarrow> op_rq_offline (class_ext env cls) c k)"

text \<open>\<open>pre_schedule\<close> and \<open>post_schedule\<close> of \<open>core.c\<close>; both are empty without \<open>CONFIG_SMP\<close>.\<close>

definition pre_schedule :: "'x env \<Rightarrow> cpu \<Rightarrow> tid \<Rightarrow> 'x kernel \<Rightarrow> 'x kernel" where
  "pre_schedule env c prev k =
     (if \<not> config_smp env then k
      else case class_of (tasks k prev) of
             rt_sched_class \<Rightarrow> pre_schedule_rt env c prev k
           | wrr_sched_class \<Rightarrow> pre_schedule_wrr c prev k
           | cls \<Rightarrow> op_pre_schedule (class_ext env cls) c prev k)"

definition post_schedule_rq :: "'x env \<Rightarrow> cpu \<Rightarrow> 'x kernel \<Rightarrow> 'x kernel" where
  "post_schedule_rq env c k =
     (if config_smp env \<and> post_schedule (rqs k c) then
        let k = (case class_of (tasks k (curr_of k c)) of
                   rt_sched_class \<Rightarrow> post_schedule_rt env c k
                 | wrr_sched_class \<Rightarrow> post_schedule_wrr c k
                 | cls \<Rightarrow> op_post_schedule (class_ext env cls) c k)
        in upd_rq c (\<lambda>r. r\<lparr>post_schedule := False\<rparr>) k
      else k)"

definition check_class_changed ::
  "'x env \<Rightarrow> cpu \<Rightarrow> tid \<Rightarrow> sched_class \<Rightarrow> int \<Rightarrow> 'x kernel \<Rightarrow> 'x kernel" where
  "check_class_changed env c p prev_class oldprio k =
     (if prev_class \<noteq> class_of (tasks k p) then
        let k = class_switched_from env prev_class c p k
        in class_switched_to env (class_of (tasks k p)) c p k
      else if oldprio \<noteq> prio (tasks k p)
      then class_prio_changed env (class_of (tasks k p)) c p oldprio k
      else k)"

end
