(* ===== verification/Sched_Core.thy ===== *)
theory Sched_Core
  imports Sched_Balance Load_Avg
begin

text \<open>
  The core scheduler of \<open>core.c\<close>: load weights and priorities, choosing a cpu, wakeups, fork,
  the schedule function, the tick, and migration. Reference counts, memory barriers, the
  architecture's switch of registers and page tables, and statistics of scheduling domains
  are left out.
\<close>

section \<open>Load weights and priorities\<close>

definition prio_to_weight :: "u32 list" where
  "prio_to_weight =
     [88761, 71755, 56483, 46273, 36291,
      29154, 23254, 18705, 14949, 11916,
      9548, 7620, 6100, 4904, 3906,
      3121, 2501, 1991, 1586, 1277,
      1024, 820, 655, 526, 423,
      335, 272, 215, 172, 137,
      110, 87, 70, 56, 45,
      36, 29, 23, 18, 15]"

definition prio_to_wmult :: "u32 list" where
  "prio_to_wmult =
     [48388, 59856, 76040, 92818, 118348,
      147320, 184698, 229616, 287308, 360437,
      449829, 563644, 704093, 875809, 1099582,
      1376151, 1717300, 2157191, 2708050, 3363326,
      4194304, 5237765, 6557202, 8165337, 10153587,
      12820798, 15790321, 19976592, 24970740, 31350126,
      39045157, 49367440, 61356676, 76695844, 95443717,
      119304647, 148102320, 186737708, 238609294, 286331153]"

definition update_load_add :: "load_weight \<Rightarrow> u32 \<Rightarrow> load_weight" where
  "update_load_add lw w = lw\<lparr>lw_weight := lw_weight lw + w, lw_inv_weight := 0\<rparr>"

definition update_load_sub :: "load_weight \<Rightarrow> u32 \<Rightarrow> load_weight" where
  "update_load_sub lw w = lw\<lparr>lw_weight := lw_weight lw - w, lw_inv_weight := 0\<rparr>"

definition update_load_set :: "load_weight \<Rightarrow> u32 \<Rightarrow> load_weight" where
  "update_load_set lw w = lw\<lparr>lw_weight := w, lw_inv_weight := 0\<rparr>"

text \<open>\<open>scale_load\<close> is the identity on 32-bit machines.\<close>

definition set_load_weight :: "tid \<Rightarrow> 'x kernel \<Rightarrow> 'x kernel" where
  "set_load_weight p k =
     (let pr = nat (static_prio (tasks k p) - MAX_RT_PRIO) in
      if policy (tasks k p) = SCHED_IDLE
      then upd_se p (\<lambda>e. e\<lparr>se_load := \<lparr>lw_weight = 3, lw_inv_weight = 1431655765\<rparr>\<rparr>) k
      else upd_se p (\<lambda>e. e\<lparr>se_load :=
             \<lparr>lw_weight = prio_to_weight ! pr, lw_inv_weight = prio_to_wmult ! pr\<rparr>\<rparr>) k)"

definition calc_normal_prio :: "'x kernel \<Rightarrow> tid \<Rightarrow> int" where
  "calc_normal_prio k p =
     (if task_has_rt_policy k p then MAX_RT_PRIO - 1 - rt_priority (tasks k p)
      else static_prio (tasks k p))"

definition effective_prio :: "tid \<Rightarrow> 'x kernel \<Rightarrow> int \<times> 'x kernel" where
  "effective_prio p k =
     (let k = upd_task p (\<lambda>t. t\<lparr>normal_prio := calc_normal_prio k p\<rparr>) k in
      if \<not> rt_prio (prio (tasks k p)) then (normal_prio (tasks k p), k)
      else (prio (tasks k p), k))"

definition task_curr :: "tid \<Rightarrow> 'x kernel \<Rightarrow> bool" where
  "task_curr p k \<longleftrightarrow> curr_of k (task_cpu (tasks k p)) = p"

section \<open>Choosing a cpu\<close>

definition do_set_cpus_allowed :: "'x env \<Rightarrow> tid \<Rightarrow> cpumask \<Rightarrow> 'x kernel \<Rightarrow> 'x kernel" where
  "do_set_cpus_allowed env p new_mask k =
     (let k = class_set_cpus_allowed env (class_of (tasks k p)) p new_mask k;
          k = upd_task p (\<lambda>t. t\<lparr>cpus_allowed := new_mask\<rparr>) k;
          k = upd_rt_se (Task_se p) (\<lambda>e. e\<lparr>rt_nr_cpus_allowed := cpumask_weight env new_mask\<rparr>) k
      in upd_wrr p (\<lambda>e. e\<lparr>wrr_nr_cpus_allowed := cpumask_weight env new_mask\<rparr>) k)"

text \<open>
  \<open>select_fallback_rq\<close>: an allowed cpu of the same node, or any allowed one; failing that the
  mask is widened, first by the cpuset code, then to all possible cpus. \<open>None\<close> stands for
  the \<open>BUG()\<close> when even that is in vain.
\<close>

datatype fallback_state = cpuset | possible | failed

definition usable_cpu :: "'x env \<Rightarrow> tid \<Rightarrow> 'x kernel \<Rightarrow> cpu option" where
  "usable_cpu env p k =
     find (\<lambda>c. cpu_online_mask k c \<and> cpu_active_mask k c) (for_each_cpu env (cpus_allowed (tasks k p)))"

fun fallback_loop :: "nat \<Rightarrow> 'x env \<Rightarrow> tid \<Rightarrow> fallback_state \<Rightarrow> 'x kernel \<Rightarrow> cpu option \<times> 'x kernel" where
  "fallback_loop 0 env p st k = (None, k)"
| "fallback_loop (Suc n) env p st k =
     (case usable_cpu env p k of
        Some c \<Rightarrow> (Some c, k)
      | None \<Rightarrow>
          (case st of
             cpuset \<Rightarrow> fallback_loop n env p possible (cpuset_cpus_allowed_fallback env p k)
           | possible \<Rightarrow>
               fallback_loop n env p failed (do_set_cpus_allowed env p (cpu_possible_mask env) k)
           | failed \<Rightarrow> (None, BUG_ON True k)))"

definition select_fallback_rq :: "'x env \<Rightarrow> cpu \<Rightarrow> tid \<Rightarrow> 'x kernel \<Rightarrow> cpu option \<times> 'x kernel" where
  "select_fallback_rq env c p k =
     (case find (\<lambda>d. cpu_online_mask k d \<and> cpu_active_mask k d \<and> cpus_allowed (tasks k p) d)
             (for_each_cpu env (node_mask env c)) of
        Some d \<Rightarrow> (Some d, k)
      | None \<Rightarrow> fallback_loop 3 env p cpuset k)"

definition select_task_rq :: "'x env \<Rightarrow> tid \<Rightarrow> nat \<Rightarrow> u32 \<Rightarrow> 'x kernel \<Rightarrow> cpu \<times> 'x kernel" where
  "select_task_rq env p sd_flag wake_flags k =
     (let c = class_select_task_rq env p sd_flag wake_flags k in
      if \<not> cpus_allowed (tasks k p) c \<or> \<not> cpu_online_mask k c then
        (case select_fallback_rq env (task_cpu (tasks k p)) p k of
           (Some d, k) \<Rightarrow> (d, k)
         | (None, k) \<Rightarrow> (c, k))
      else (c, k))"

section \<open>Waking up\<close>

text \<open>\<open>*avg += diff >> 3\<close> with an arithmetic shift.\<close>

definition update_avg :: "u64 \<Rightarrow> u64 \<Rightarrow> u64" where
  "update_avg avg sample = avg + signed_drop_bit 3 (sample - avg)"

abbreviation upd_stats :: "tid \<Rightarrow> (sched_statistics \<Rightarrow> sched_statistics) \<Rightarrow> 'x kernel \<Rightarrow> 'x kernel" where
  "upd_stats p f \<equiv> upd_se p (\<lambda>e. e\<lparr>statistics := f (statistics e)\<rparr>)"

definition ttwu_stat :: "'x env \<Rightarrow> tid \<Rightarrow> cpu \<Rightarrow> u32 \<Rightarrow> 'x kernel \<Rightarrow> 'x kernel" where
  "ttwu_stat env p c wake_flags k =
     (let this = this_cpu k;
          k = (if \<not> config_smp env then k
               else
                 let k = (if c = this
                          then upd_stats p (\<lambda>s. s\<lparr>nr_wakeups_local := nr_wakeups_local s + 1\<rparr>)
                                 (upd_rq this (\<lambda>r. r\<lparr>ttwu_local := ttwu_local r + 1\<rparr>) k)
                          else upd_stats p (\<lambda>s. s\<lparr>nr_wakeups_remote := nr_wakeups_remote s + 1\<rparr>) k)
                 in if wake_flags AND WF_MIGRATED \<noteq> 0
                    then upd_stats p (\<lambda>s. s\<lparr>nr_wakeups_migrate := nr_wakeups_migrate s + 1\<rparr>) k
                    else k);
          k = upd_rq this (\<lambda>r. r\<lparr>ttwu_count := ttwu_count r + 1\<rparr>) k;
          k = upd_stats p (\<lambda>s. s\<lparr>nr_wakeups := nr_wakeups s + 1\<rparr>) k
      in if wake_flags AND WF_SYNC \<noteq> 0
         then upd_stats p (\<lambda>s. s\<lparr>nr_wakeups_sync := nr_wakeups_sync s + 1\<rparr>) k else k)"

definition ttwu_activate :: "'x env \<Rightarrow> cpu \<Rightarrow> tid \<Rightarrow> u32 \<Rightarrow> 'x kernel \<Rightarrow> 'x kernel" where
  "ttwu_activate env c p en_flags k =
     (let k = activate_task env c p en_flags k;
          k = upd_task p (\<lambda>t. t\<lparr>on_rq := True\<rparr>) k
      in if flags (tasks k p) AND PF_WQ_WORKER \<noteq> 0
         then ext_state_update (wq_worker_waking_up env p c) k else k)"

definition ttwu_do_wakeup :: "'x env \<Rightarrow> cpu \<Rightarrow> tid \<Rightarrow> u32 \<Rightarrow> 'x kernel \<Rightarrow> 'x kernel" where
  "ttwu_do_wakeup env c p wake_flags k =
     (let k = check_preempt_curr env c p wake_flags k;
          k = upd_task p (\<lambda>t. t\<lparr>state := TASK_RUNNING\<rparr>) k in
      if \<not> config_smp env then k
      else
        let k = class_task_woken env (class_of (tasks k p)) c p k in
        if idle_stamp (rqs k c) \<noteq> 0 then
          let delta = clock (rqs k c) - idle_stamp (rqs k c);
              max = 2 * sched_migration_cost env;
              k = upd_rq c (\<lambda>r. r\<lparr>avg_idle :=
                    (if max < delta then max else update_avg (avg_idle r) delta)\<rparr>) k
          in upd_rq c (\<lambda>r. r\<lparr>idle_stamp := 0\<rparr>) k
        else k)"

definition ttwu_do_activate :: "'x env \<Rightarrow> cpu \<Rightarrow> tid \<Rightarrow> u32 \<Rightarrow> 'x kernel \<Rightarrow> 'x kernel" where
  "ttwu_do_activate env c p wake_flags k =
     (let k = (if config_smp env \<and> sched_contributes_to_load (tasks k p)
               then upd_rq c (\<lambda>r. r\<lparr>nr_uninterruptible := nr_uninterruptible r - 1\<rparr>) k else k);
          k = ttwu_activate env c p
                (ENQUEUE_WAKEUP OR (if config_smp env then ENQUEUE_WAKING else 0)) k
      in ttwu_do_wakeup env c p wake_flags k)"

definition ttwu_remote :: "'x env \<Rightarrow> tid \<Rightarrow> u32 \<Rightarrow> 'x kernel \<Rightarrow> bool \<times> 'x kernel" where
  "ttwu_remote env p wake_flags k =
     (if on_rq (tasks k p) then (True, ttwu_do_wakeup env (task_cpu (tasks k p)) p wake_flags k)
      else (False, k))"

text \<open>\<open>llist_del_all\<close> returns the newest entry first, and \<open>llist_add\<close> adds at that end.\<close>

definition sched_ttwu_pending :: "'x env \<Rightarrow> cpu \<Rightarrow> 'x kernel \<Rightarrow> 'x kernel" where
  "sched_ttwu_pending env c k =
     (let ps = wake_list (rqs k c); k = upd_rq c (\<lambda>r. r\<lparr>wake_list := []\<rparr>) k
      in fold (\<lambda>p. ttwu_do_activate env c p 0) ps k)"

definition ttwu_queue_remote :: "tid \<Rightarrow> cpu \<Rightarrow> 'x kernel \<Rightarrow> 'x kernel" where
  "ttwu_queue_remote p c = upd_rq c (\<lambda>r. r\<lparr>wake_list := p # wake_list r\<rparr>)"

definition cpus_share_cache :: "'x env \<Rightarrow> cpu \<Rightarrow> cpu \<Rightarrow> bool" where
  "cpus_share_cache env a b \<longleftrightarrow> sd_llc_id env a = sd_llc_id env b"

definition ttwu_queue :: "'x env \<Rightarrow> tid \<Rightarrow> cpu \<Rightarrow> 'x kernel \<Rightarrow> 'x kernel" where
  "ttwu_queue env p c k =
     (if config_smp env \<and> feat_ttwu_queue env \<and> \<not> cpus_share_cache env (this_cpu k) c
      then ttwu_queue_remote p c k
      else ttwu_do_activate env c p 0 k)"

definition class_task_waking :: "'x env \<Rightarrow> tid \<Rightarrow> 'x kernel \<Rightarrow> 'x kernel" where
  "class_task_waking env p k =
     (case class_of (tasks k p) of
        rt_sched_class \<Rightarrow> k
      | wrr_sched_class \<Rightarrow> k
      | cls \<Rightarrow> op_task_waking (class_ext env cls) p k)"

text \<open>
  \<open>while (p->on_cpu) cpu_relax();\<close> ends when the cpu that last ran \<open>p\<close> has finished its
  switch and cleared \<open>on_cpu\<close>.
\<close>

definition wait_on_cpu :: "tid \<Rightarrow> 'x kernel \<Rightarrow> 'x kernel" where
  "wait_on_cpu p = upd_task p (\<lambda>t. t\<lparr>on_cpu := False\<rparr>)"

definition try_to_wake_up :: "'x env \<Rightarrow> tid \<Rightarrow> u32 \<Rightarrow> u32 \<Rightarrow> 'x kernel \<Rightarrow> bool \<times> 'x kernel" where
  "try_to_wake_up env p st wake_flags k =
     (if state (tasks k p) AND st = 0 then (False, k)
      else
        let c = task_cpu (tasks k p) in
        case (if on_rq (tasks k p) then ttwu_remote env p wake_flags k else (False, k)) of
          (True, k) \<Rightarrow> (True, ttwu_stat env p c wake_flags k)
        | (False, k) \<Rightarrow>
            (case (if \<not> config_smp env then (c, wake_flags, k)
                   else
                     let k = wait_on_cpu p k;
                         k = upd_task p (\<lambda>t. t\<lparr>sched_contributes_to_load :=
                               task_contributes_to_load k p\<rparr>) k;
                         k = upd_task p (\<lambda>t. t\<lparr>state := TASK_WAKING\<rparr>) k;
                         k = class_task_waking env p k
                     in case select_task_rq env p SD_BALANCE_WAKE wake_flags k of
                          (d, k) \<Rightarrow>
                            if task_cpu (tasks k p) \<noteq> d
                            then (d, wake_flags OR WF_MIGRATED, set_task_cpu env p d k)
                            else (d, wake_flags, k)) of
               (d, wake_flags, k) \<Rightarrow>
                 let k = ttwu_queue env p d k
                 in (True, ttwu_stat env p d wake_flags k)))"

definition try_to_wake_up_local :: "'x env \<Rightarrow> tid \<Rightarrow> 'x kernel \<Rightarrow> 'x kernel" where
  "try_to_wake_up_local env p k =
     (let c = task_cpu (tasks k p) in
      if c \<noteq> this_cpu k \<or> p = current k then k
      else if state (tasks k p) AND TASK_NORMAL = 0 then k
      else
        let k = (if \<not> on_rq (tasks k p) then ttwu_activate env c p ENQUEUE_WAKEUP k else k);
            k = ttwu_do_wakeup env c p 0 k
        in ttwu_stat env p (this_cpu k) 0 k)"

definition wake_up_process :: "'x env \<Rightarrow> tid \<Rightarrow> 'x kernel \<Rightarrow> bool \<times> 'x kernel" where
  "wake_up_process env p k = try_to_wake_up env p TASK_NORMAL 0 k"

definition wake_up_state :: "'x env \<Rightarrow> tid \<Rightarrow> u32 \<Rightarrow> 'x kernel \<Rightarrow> bool \<times> 'x kernel" where
  "wake_up_state env p st k = try_to_wake_up env p st 0 k"

section \<open>Fork\<close>

definition sched_fork_init :: "tid \<Rightarrow> 'x kernel \<Rightarrow> 'x kernel" where
  "sched_fork_init p k =
     (let k = upd_task p (\<lambda>t. t\<lparr>on_rq := False\<rparr>) k;
          k = upd_se p (\<lambda>e. e\<lparr>se_on_rq := False, exec_start := 0, sum_exec_runtime := 0,
                prev_sum_exec_runtime := 0, nr_migrations := 0, vruntime := 0,
                statistics := \<lparr>exec_max = 0, wait_start = 0, sleep_start = 0, block_start = 0,
                  nr_wakeups = 0, nr_wakeups_sync = 0, nr_wakeups_migrate = 0,
                  nr_wakeups_local = 0, nr_wakeups_remote = 0\<rparr>\<rparr>) k;
          k = rt_q_update (init_list_node (Task_se p)) k
      in wrr_q_update (init_list_node p) k)"

definition class_task_fork :: "'x env \<Rightarrow> tid \<Rightarrow> 'x kernel \<Rightarrow> 'x kernel" where
  "class_task_fork env p k =
     (case class_of (tasks k p) of
        rt_sched_class \<Rightarrow> k
      | wrr_sched_class \<Rightarrow> k
      | cls \<Rightarrow> op_task_fork (class_ext env cls) p k)"

definition sched_fork :: "'x env \<Rightarrow> tid \<Rightarrow> 'x kernel \<Rightarrow> 'x kernel" where
  "sched_fork env p k =
     (let c = this_cpu k;
          k = sched_fork_init p k;
          k = upd_task p (\<lambda>t. t\<lparr>state := TASK_RUNNING\<rparr>) k;
          k = upd_task p (\<lambda>t. t\<lparr>prio := normal_prio (tasks k (current k))\<rparr>) k;
          k = (if sched_reset_on_fork (tasks k p) then
                 let k = (if task_has_rt_policy k p
                          then upd_task p (\<lambda>t. t\<lparr>policy := SCHED_NORMAL,
                                 static_prio := NICE_TO_PRIO 0, rt_priority := 0\<rparr>) k
                          else if PRIO_TO_NICE (static_prio (tasks k p)) < 0
                          then upd_task p (\<lambda>t. t\<lparr>static_prio := NICE_TO_PRIO 0\<rparr>) k
                          else k);
                     k = upd_task p (\<lambda>t. t\<lparr>prio := static_prio t, normal_prio := static_prio t\<rparr>) k;
                     k = set_load_weight p k
                 in upd_task p (\<lambda>t. t\<lparr>sched_reset_on_fork := False\<rparr>) k
               else k);
          k = (if \<not> rt_prio (prio (tasks k p))
               then upd_task p (\<lambda>t. t\<lparr>class_of := fair_sched_class\<rparr>) k else k);
          k = class_task_fork env p k;
          k = set_task_cpu env p c k;
          k = (if config_smp env then upd_task p (\<lambda>t. t\<lparr>on_cpu := False\<rparr>) k else k)
      in upd_task p (\<lambda>t. t\<lparr>preempt_count := 1\<rparr>) k)"

text \<open>\<open>wake_up_new_task\<close> gives every new task the slice and weight of its group.\<close>

definition wake_up_new_task :: "'x env \<Rightarrow> tid \<Rightarrow> 'x kernel \<Rightarrow> 'x kernel" where
  "wake_up_new_task env p k =
     (let k = (if config_smp env
               then (case select_task_rq env p SD_BALANCE_FORK 0 k of (d, k) \<Rightarrow> set_task_cpu env p d k)
               else k);
          c = task_cpu (tasks k p);
          k = (if task_bg env p k
               then upd_wrr p (\<lambda>e. e\<lparr>wrr_time_slice := WRR_BG_TIMESLICE, wrr_weight := 1\<rparr>) k
               else upd_wrr p (\<lambda>e. e\<lparr>wrr_time_slice := WRR_FG_TIMESLICE, wrr_weight := 10\<rparr>) k);
          k = activate_task env c p 0 k;
          k = upd_task p (\<lambda>t. t\<lparr>on_rq := True\<rparr>) k;
          k = check_preempt_curr env c p WF_FORK k
      in if config_smp env then class_task_woken env (class_of (tasks k p)) c p k else k)"

definition init_idle :: "'x env \<Rightarrow> tid \<Rightarrow> cpu \<Rightarrow> 'x kernel \<Rightarrow> 'x kernel" where
  "init_idle env p c k =
     (let k = sched_fork_init p k;
          k = upd_task p (\<lambda>t. t\<lparr>state := TASK_RUNNING\<rparr>) k;
          k = upd_se p (\<lambda>e. e\<lparr>exec_start := sched_clock k (this_cpu k)\<rparr>) k;
          k = (if config_smp env then do_set_cpus_allowed env p (\<lambda>i. i = c) k else k);
          k = set_task_cpu_raw env p c k;
          k = upd_rq c (\<lambda>r. r\<lparr>idle := p, curr := p\<rparr>) k;
          k = (if config_smp env then upd_task p (\<lambda>t. t\<lparr>on_cpu := True\<rparr>) k else k);
          k = upd_task p (\<lambda>t. t\<lparr>preempt_count := 0\<rparr>) k
      in upd_task p (\<lambda>t. t\<lparr>class_of := idle_sched_class\<rparr>) k)"

section \<open>The schedule function\<close>

text \<open>The bit \<open>PREEMPT_ACTIVE\<close> of the preemption count.\<close>

definition preempt_active :: "task_struct \<Rightarrow> bool" where
  "preempt_active t \<longleftrightarrow> bit (preempt_count t) 30"

definition signal_pending_state :: "u32 \<Rightarrow> tid \<Rightarrow> 'x kernel \<Rightarrow> bool" where
  "signal_pending_state st p k \<longleftrightarrow>
     st AND (TASK_INTERRUPTIBLE OR TASK_WAKEKILL) \<noteq> 0 \<and> sigpending (tasks k p)
     \<and> (st AND TASK_INTERRUPTIBLE \<noteq> 0 \<or> fatal_sigpending (tasks k p))"

definition finish_task_switch :: "'x env \<Rightarrow> cpu \<Rightarrow> tid \<Rightarrow> 'x kernel \<Rightarrow> 'x kernel" where
  "finish_task_switch env c prev k =
     (let k = upd_rq c (\<lambda>r. r\<lparr>prev_mm := None\<rparr>) k in
      if config_smp env then upd_task prev (\<lambda>t. t\<lparr>on_cpu := False\<rparr>) k else k)"

definition context_switch :: "'x env \<Rightarrow> cpu \<Rightarrow> tid \<Rightarrow> tid \<Rightarrow> 'x kernel \<Rightarrow> 'x kernel" where
  "context_switch env c prev next_task k =
     (let k = (if config_smp env then upd_task next_task (\<lambda>t. t\<lparr>on_cpu := True\<rparr>) k else k);
          oldmm = active_mm (tasks k prev);
          k = (if mm (tasks k next_task) = None
               then upd_task next_task (\<lambda>t. t\<lparr>active_mm := oldmm\<rparr>) k else k);
          k = (if mm (tasks k prev) = None
               then upd_rq c (\<lambda>r. r\<lparr>prev_mm := oldmm\<rparr>)
                      (upd_task prev (\<lambda>t. t\<lparr>active_mm := None\<rparr>) k)
               else k)
      in finish_task_switch env c prev k)"

text \<open>
  One turn of \<open>__schedule\<close>, from \<open>need_resched:\<close> to the final test. The part that runs after
  \<open>context_switch\<close> runs in the task switched to, on the same cpu.
\<close>

definition deactivate_prev :: "'x env \<Rightarrow> cpu \<Rightarrow> tid \<Rightarrow> 'x kernel \<Rightarrow> 'x kernel" where
  "deactivate_prev env c prev k =
     (if signal_pending_state (state (tasks k prev)) prev k
      then upd_task prev (\<lambda>t. t\<lparr>state := TASK_RUNNING\<rparr>) k
      else
        let k = deactivate_task env c prev DEQUEUE_SLEEP k;
            k = upd_task prev (\<lambda>t. t\<lparr>on_rq := False\<rparr>) k in
        if flags (tasks k prev) AND PF_WQ_WORKER \<noteq> 0
        then (case wq_worker_sleeping env prev c (ext_state k) of
                None \<Rightarrow> k
              | Some w \<Rightarrow> try_to_wake_up_local env w k)
        else k)"

definition schedule_once :: "'x env \<Rightarrow> cpu \<Rightarrow> 'x kernel \<Rightarrow> 'x kernel" where
  "schedule_once env c k =
     (let prev = curr_of k c;
          k = upd_rq c (\<lambda>r. r\<lparr>sched_count := sched_count r + 1\<rparr>) k;
          voluntary = (state (tasks k prev) \<noteq> 0 \<and> \<not> preempt_active (tasks k prev));
          k = (if voluntary then deactivate_prev env c prev k else k);
          k = pre_schedule env c prev k;
          k = (if config_smp env \<and> nr_running (rqs k c) = 0 then newidle_balance env c k else k);
          k = put_prev_task env c prev k in
      case pick_next_task env c k of
        (None, k) \<Rightarrow> k
      | (Some next_task, k) \<Rightarrow>
          let k = upd_task prev (\<lambda>t. t\<lparr>need_resched := False\<rparr>) k;
              k = upd_rq c (\<lambda>r. r\<lparr>skip_clock_update := 0\<rparr>) k;
              k = (if prev \<noteq> next_task then
                     let k = upd_rq c (\<lambda>r. r\<lparr>nr_switches := nr_switches r + 1, curr := next_task\<rparr>) k;
                         k = (if voluntary then upd_task prev (\<lambda>t. t\<lparr>nvcsw := nvcsw t + 1\<rparr>) k
                              else upd_task prev (\<lambda>t. t\<lparr>nivcsw := nivcsw t + 1\<rparr>) k)
                     in context_switch env c prev next_task k
                   else k)
          in post_schedule_rq env c k)"

text \<open>\<open>__schedule\<close> repeats while the task now running is to be rescheduled; \<open>None\<close> is a loop
  that does not end.\<close>

partial_function (option) schedule_loop :: "'x env \<Rightarrow> cpu \<Rightarrow> 'x kernel \<Rightarrow> 'x kernel option" where
  "schedule_loop env c k =
     (let k = schedule_once env c k in
      if need_resched (tasks k (curr_of k c)) then schedule_loop env c k else Some k)"

declare schedule_loop.simps [code]

definition schedule :: "'x env \<Rightarrow> 'x kernel \<Rightarrow> 'x kernel option" where
  "schedule env k = schedule_loop env (this_cpu k) k"

definition sys_sched_yield :: "'x env \<Rightarrow> 'x kernel \<Rightarrow> 'x kernel option" where
  "sys_sched_yield env k =
     (let c = this_cpu k;
          k = upd_rq c (\<lambda>r. r\<lparr>yld_count := yld_count r + 1\<rparr>) k;
          k = class_yield_task env (class_of (tasks k (current k))) c k
      in schedule env k)"

definition yield_current :: "'x env \<Rightarrow> 'x kernel \<Rightarrow> 'x kernel option" where
  "yield_current env k =
     sys_sched_yield env (upd_task (current k) (\<lambda>t. t\<lparr>state := TASK_RUNNING\<rparr>) k)"

end
