(* ===== verification/Sched_Hotplug.thy ===== *)
theory Sched_Hotplug
  imports Sched_Core
begin

text \<open>
  The rest of \<open>core.c\<close> that works on whole runqueues: the counters shown to the outside, the
  tick, affinity and migration, cpus going up and down, task groups and their moves, and the
  degenerate scheduling domains.
\<close>

section \<open>Counters\<close>

definition total_nr_running :: "'x env \<Rightarrow> 'x kernel \<Rightarrow> u32" where
  "total_nr_running env k =
     sum_list (map (\<lambda>c. nr_running (rqs k c)) (for_each_cpu env (cpu_online_mask k)))"

definition total_nr_uninterruptible :: "'x env \<Rightarrow> 'x kernel \<Rightarrow> u32" where
  "total_nr_uninterruptible env k =
     (let s = sum_list (map (\<lambda>c. nr_uninterruptible (rqs k c)) (for_each_cpu env (cpu_possible_mask env)))
      in if sint s < 0 then 0 else s)"

definition nr_context_switches :: "'x env \<Rightarrow> 'x kernel \<Rightarrow> u64" where
  "nr_context_switches env k =
     sum_list (map (\<lambda>c. nr_switches (rqs k c)) (for_each_cpu env (cpu_possible_mask env)))"

definition total_nr_iowait :: "'x env \<Rightarrow> 'x kernel \<Rightarrow> u32" where
  "total_nr_iowait env k =
     sum_list (map (\<lambda>c. of_int (nr_iowait (rqs k c))) (for_each_cpu env (cpu_possible_mask env)))"

definition nr_iowait_cpu :: "cpu \<Rightarrow> 'x kernel \<Rightarrow> u32" where
  "nr_iowait_cpu c k = of_int (nr_iowait (rqs k c))"

definition this_cpu_load :: "'x kernel \<Rightarrow> u32" where
  "this_cpu_load k = cpu_load (rqs k (this_cpu k)) 0"

definition idle_cpu :: "'x env \<Rightarrow> cpu \<Rightarrow> 'x kernel \<Rightarrow> bool" where
  "idle_cpu env c k \<longleftrightarrow>
     curr_of k c = idle (rqs k c) \<and> nr_running (rqs k c) = 0
     \<and> \<not> (config_smp env \<and> wake_list (rqs k c) \<noteq> [])"

definition idle_task :: "cpu \<Rightarrow> 'x kernel \<Rightarrow> tid" where
  "idle_task c k = idle (rqs k c)"

definition do_task_delta_exec :: "tid \<Rightarrow> cpu \<Rightarrow> 'x kernel \<Rightarrow> u64 \<times> 'x kernel" where
  "do_task_delta_exec p c k =
     (if task_current c p k then
        let k = update_rq_clock c k;
            ns = clock_task (rqs k c) - exec_start (se (tasks k p))
        in (if s64_neg ns then 0 else ns, k)
      else (0, k))"

definition task_delta_exec :: "tid \<Rightarrow> 'x kernel \<Rightarrow> u64 \<times> 'x kernel" where
  "task_delta_exec p k = do_task_delta_exec p (task_cpu (tasks k p)) k"

definition task_sched_runtime :: "tid \<Rightarrow> 'x kernel \<Rightarrow> u64 \<times> 'x kernel" where
  "task_sched_runtime p k =
     (case do_task_delta_exec p (task_cpu (tasks k p)) k of
        (ns, k) \<Rightarrow> (sum_exec_runtime (se (tasks k p)) + ns, k))"

section \<open>The tick\<close>

definition scheduler_tick :: "'x env \<Rightarrow> 'x kernel \<Rightarrow> 'x kernel" where
  "scheduler_tick env k =
     (let c = this_cpu k;
          q = curr_of k c;
          k = update_rq_clock c k;
          k = update_cpu_load_active env c k;
          k = class_task_tick env c q 0 k in
      if \<not> config_smp env then k
      else
        let k = upd_rq c (\<lambda>r. r\<lparr>idle_balance := idle_cpu env c k\<rparr>) k;
            k = trigger_load_balance env c k
        in if wrr_nr_running (rqs k c) = 0 then pull_wrr_task env c k else k)"

section \<open>Affinity and migration\<close>

definition migrate_task :: "'x env \<Rightarrow> tid \<Rightarrow> cpu \<Rightarrow> cpu \<Rightarrow> 'x kernel \<Rightarrow> bool \<times> 'x kernel" where
  "migrate_task env p src dest k =
     (if \<not> cpu_active_mask k dest then (False, k)
      else if task_cpu (tasks k p) \<noteq> src then (True, k)
      else if \<not> cpus_allowed (tasks k p) dest then (False, k)
      else if on_rq (tasks k p) then
        let k = dequeue_task env src p 0 k;
            k = set_task_cpu env p dest k;
            k = enqueue_task env dest p 0 k
        in (True, check_preempt_curr env dest p 0 k)
      else (True, k))"

text \<open>\<open>migration_cpu_stop\<close>, run by the stopper thread of the cpu it is sent to.\<close>

definition migration_cpu_stop :: "'x env \<Rightarrow> cpu \<Rightarrow> tid \<Rightarrow> cpu \<Rightarrow> 'x kernel \<Rightarrow> 'x kernel" where
  "migration_cpu_stop env here p dest k = snd (migrate_task env p here dest k)"

definition set_cpus_allowed_ptr :: "'x env \<Rightarrow> tid \<Rightarrow> cpumask \<Rightarrow> 'x kernel \<Rightarrow> int \<times> 'x kernel" where
  "set_cpus_allowed_ptr env p new_mask k =
     (let c = task_cpu (tasks k p) in
      if list_all (\<lambda>i. cpus_allowed (tasks k p) i = new_mask i) [0..<nr_cpu_ids env] then (0, k)
      else if \<not> list_ex (\<lambda>i. new_mask i \<and> cpu_active_mask k i) [0..<nr_cpu_ids env]
      then (- EINVAL, k)
      else if flags (tasks k p) AND PF_THREAD_BOUND \<noteq> 0 \<and> p \<noteq> current k then (- EINVAL, k)
      else
        let k = do_set_cpus_allowed env p new_mask k in
        if new_mask (task_cpu (tasks k p)) then (0, k)
        else
          let dest = hd (for_each_cpu env (\<lambda>i. cpu_active_mask k i \<and> new_mask i)) in
          if on_rq (tasks k p) then (0, migration_cpu_stop env c p dest k) else (0, k))"

definition sched_exec :: "'x env \<Rightarrow> 'x kernel \<Rightarrow> 'x kernel" where
  "sched_exec env k =
     (let p = current k;
          dest = class_select_task_rq env p SD_BALANCE_EXEC 0 k in
      if dest = this_cpu k then k
      else if cpu_active_mask k dest
      then migration_cpu_stop env (task_cpu (tasks k p)) p dest k
      else k)"

text \<open>
  \<open>migrate_tasks\<close>: everything but the running stopper leaves a dead cpu. \<open>None\<close> is a loop
  that does not end.
\<close>

partial_function (option) migrate_loop :: "'x env \<Rightarrow> cpu \<Rightarrow> 'x kernel \<Rightarrow> 'x kernel option" where
  "migrate_loop env c k =
     (if nr_running (rqs k c) = 1 then Some k
      else case pick_next_task env c k of
             (None, k) \<Rightarrow> Some (BUG_ON True k)
           | (Some p, k) \<Rightarrow>
               let k = class_put_prev_task env c p k in
               (case select_fallback_rq env c p k of
                  (None, k) \<Rightarrow> Some k
                | (Some d, k) \<Rightarrow> migrate_loop env c (snd (migrate_task env p c d k))))"

declare migrate_loop.simps [code]

definition migrate_tasks :: "'x env \<Rightarrow> cpu \<Rightarrow> 'x kernel \<Rightarrow> 'x kernel option" where
  "migrate_tasks env c k =
     (let st = stop (rqs k c);
          k = upd_rq c (\<lambda>r. r\<lparr>stop := None\<rparr>) k in
      case migrate_loop env c k of
        None \<Rightarrow> None
      | Some k \<Rightarrow> Some (upd_rq c (\<lambda>r. r\<lparr>stop := st\<rparr>) k))"

section \<open>Cpus going up and down\<close>

definition set_rq_online :: "'x env \<Rightarrow> cpu \<Rightarrow> 'x kernel \<Rightarrow> 'x kernel" where
  "set_rq_online env c k =
     (if online (rqs k c) then k
      else
        let k = rd_online_update (\<lambda>m. m(c := True)) k;
            k = upd_rq c (\<lambda>r. r\<lparr>online := True\<rparr>) k
        in fold (\<lambda>cls. class_rq_online env cls c) (for_each_class env) k)"

definition set_rq_offline :: "'x env \<Rightarrow> cpu \<Rightarrow> 'x kernel \<Rightarrow> 'x kernel" where
  "set_rq_offline env c k =
     (if \<not> online (rqs k c) then k
      else
        let k = fold (\<lambda>cls. class_rq_offline env cls c) (for_each_class env) k;
            k = rd_online_update (\<lambda>m. m(c := False)) k
        in upd_rq c (\<lambda>r. r\<lparr>online := False\<rparr>) k)"

text \<open>\<open>rq->rd\<close> is always set after \<open>sched_init\<close>.\<close>

definition migration_call ::
  "'x env \<Rightarrow> hotplug_action \<Rightarrow> cpu \<Rightarrow> 'x kernel \<Rightarrow> (notify \<times> 'x kernel) option" where
  "migration_call env action c k =
     (case action of
        CPU_UP_PREPARE \<Rightarrow>
          Some (NOTIFY_OK, upd_rq c (\<lambda>r. r\<lparr>calc_load_update := calc_load_next (load_globals k)\<rparr>) k)
      | CPU_ONLINE \<Rightarrow> Some (NOTIFY_OK, set_rq_online env c (BUG_ON (\<not> rd_span k c) k))
      | CPU_DYING \<Rightarrow>
          let k = sched_ttwu_pending env c k;
              k = set_rq_offline env c (BUG_ON (\<not> rd_span k c) k) in
          (case migrate_tasks env c k of
             None \<Rightarrow> None
           | Some k \<Rightarrow>
               let k = BUG_ON (nr_running (rqs k c) \<noteq> 1) k;
                   k = migrate_nr_uninterruptible env c k
               in Some (NOTIFY_OK, calc_global_load_remove c k))
      | _ \<Rightarrow> Some (NOTIFY_OK, k))"

definition sched_cpu_active :: "hotplug_action \<Rightarrow> cpu \<Rightarrow> 'x kernel \<Rightarrow> notify \<times> 'x kernel" where
  "sched_cpu_active action c k =
     (case action of
        CPU_STARTING \<Rightarrow> (NOTIFY_OK, cpu_active_mask_update (\<lambda>m. m(c := True)) k)
      | CPU_DOWN_FAILED \<Rightarrow> (NOTIFY_OK, cpu_active_mask_update (\<lambda>m. m(c := True)) k)
      | _ \<Rightarrow> (NOTIFY_DONE, k))"

definition sched_cpu_inactive :: "hotplug_action \<Rightarrow> cpu \<Rightarrow> 'x kernel \<Rightarrow> notify \<times> 'x kernel" where
  "sched_cpu_inactive action c k =
     (case action of
        CPU_DOWN_PREPARE \<Rightarrow> (NOTIFY_OK, cpu_active_mask_update (\<lambda>m. m(c := False)) k)
      | _ \<Rightarrow> (NOTIFY_DONE, k))"

section \<open>Scheduling domains that add nothing\<close>

definition sd_degenerate :: "'x env \<Rightarrow> sched_domain \<Rightarrow> bool" where
  "sd_degenerate env sd \<longleftrightarrow>
     (if cpumask_weight env (sd_span sd) = 1 then True
      else if sd_flags sd AND (SD_LOAD_BALANCE OR SD_BALANCE_NEWIDLE OR of_nat SD_BALANCE_FORK
                OR of_nat SD_BALANCE_EXEC OR SD_SHARE_CPUPOWER OR SD_SHARE_PKG_RESOURCES) \<noteq> 0
              \<and> \<not> sd_one_group sd
      then False
      else if sd_flags sd AND SD_WAKE_AFFINE \<noteq> 0 then False
      else True)"

definition sd_parent_degenerate :: "'x env \<Rightarrow> nat \<Rightarrow> sched_domain \<Rightarrow> sched_domain \<Rightarrow> bool" where
  "sd_parent_degenerate env nr_node_ids sd parent \<longleftrightarrow>
     (let cflags = sd_flags sd; pflags = sd_flags parent in
      if sd_degenerate env parent then True
      else if \<not> list_all (\<lambda>i. sd_span sd i = sd_span parent i) [0..<nr_cpu_ids env] then False
      else
        let pflags = (if sd_one_group parent then
                        let f = pflags AND NOT (SD_LOAD_BALANCE OR SD_BALANCE_NEWIDLE
                                  OR of_nat SD_BALANCE_FORK OR of_nat SD_BALANCE_EXEC
                                  OR SD_SHARE_CPUPOWER OR SD_SHARE_PKG_RESOURCES)
                        in if nr_node_ids = 1 then f AND NOT SD_SERIALIZE else f
                      else pflags)
        in NOT cflags AND pflags = 0)"

end
