(* ===== verification/Sched_Policy.thy ===== *)
theory Sched_Policy
  imports Sched_Hotplug
begin

text \<open>
  Priorities and policies as user space and the PI code set them (\<open>core.c\<close>): nice values,
  \<open>__sched_setscheduler\<close> and the system calls around it, affinity, and the emergency
  normalisation. Return values are C \<open>int\<close>s, negative error numbers included. Credentials,
  security hooks, the pid table, cpusets and the rtmutex code are outside the repository:
  the record \<open>sys\<close>.
\<close>

record 'x sys =
  capable_sys_nice :: "tid \<Rightarrow> bool"                       \<comment> \<open>of the calling task\<close>
  ns_capable_sys_nice :: "tid \<Rightarrow> tid \<Rightarrow> bool"
  cred_user_ns :: "tid \<Rightarrow> nat"
  cred_euid :: "tid \<Rightarrow> nat"
  cred_uid :: "tid \<Rightarrow> nat"
  cred_suid :: "tid \<Rightarrow> nat"
  security_task_setscheduler :: "tid \<Rightarrow> int"
  security_task_getscheduler :: "tid \<Rightarrow> int"
  security_task_setnice :: "tid \<Rightarrow> int \<Rightarrow> int"
  find_task_by_vpid :: "int \<Rightarrow> tid option"
  cpuset_cpus_allowed :: "tid \<Rightarrow> 'x kernel \<Rightarrow> cpumask"
  rt_mutex_getprio :: "'x kernel \<Rightarrow> tid \<Rightarrow> int"
  rt_mutex_adjust_pi :: "tid \<Rightarrow> 'x kernel \<Rightarrow> 'x kernel"

section \<open>Priority inheritance\<close>

definition rt_mutex_setprio :: "'x env \<Rightarrow> tid \<Rightarrow> int \<Rightarrow> 'x kernel \<Rightarrow> 'x kernel" where
  "rt_mutex_setprio env p pr k =
     (let k = BUG_ON (pr < 0 \<or> MAX_PRIO < pr) k;
          c = task_cpu (tasks k p) in
      if p = idle (rqs k c) then k
      else
        let oldprio = prio (tasks k p);
            prev_class = class_of (tasks k p);
            was_on_rq = on_rq (tasks k p);
            running = task_current c p k;
            k = (if was_on_rq then dequeue_task env c p 0 k else k);
            k = (if running then class_put_prev_task env c p k else k);
            k = upd_task p (\<lambda>t. t\<lparr>class_of :=
                  (if policy t = SCHED_WRR then wrr_sched_class
                   else if rt_prio pr then rt_sched_class else fair_sched_class)\<rparr>) k;
            k = upd_task p (\<lambda>t. t\<lparr>prio := pr\<rparr>) k;
            k = (if running then class_set_curr_task env (class_of (tasks k p)) c k else k);
            k = (if was_on_rq
                 then enqueue_task env c p (if oldprio < pr then ENQUEUE_HEAD else 0) k else k)
        in check_class_changed env c p prev_class oldprio k)"

section \<open>Nice values\<close>

definition set_user_nice :: "'x env \<Rightarrow> tid \<Rightarrow> int \<Rightarrow> 'x kernel \<Rightarrow> 'x kernel" where
  "set_user_nice env p nice k =
     (if TASK_NICE k p = nice \<or> nice < -20 \<or> 19 < nice then k
      else if task_has_rt_policy k p
      then upd_task p (\<lambda>t. t\<lparr>static_prio := NICE_TO_PRIO nice\<rparr>) k
      else
        let c = task_cpu (tasks k p);
            was_on_rq = on_rq (tasks k p);
            k = (if was_on_rq then dequeue_task env c p 0 k else k);
            k = upd_task p (\<lambda>t. t\<lparr>static_prio := NICE_TO_PRIO nice\<rparr>) k;
            k = set_load_weight p k;
            old_prio = prio (tasks k p) in
        case effective_prio p k of
          (pr, k) \<Rightarrow>
            let k = upd_task p (\<lambda>t. t\<lparr>prio := pr\<rparr>) k;
                delta = pr - old_prio in
            if was_on_rq then
              let k = enqueue_task env c p 0 k in
              if delta < 0 \<or> (0 < delta \<and> task_running env c p k)
              then resched_task (curr_of k c) k else k
            else k)"

text \<open>The comparison in \<open>can_nice\<close> is on \<open>unsigned long\<close>.\<close>

definition can_nice :: "'x env \<Rightarrow> 'x sys \<Rightarrow> tid \<Rightarrow> int \<Rightarrow> 'x kernel \<Rightarrow> bool" where
  "can_nice env sys p nice k \<longleftrightarrow>
     (of_int (20 - nice) :: u32) \<le> rlim env p RLIMIT_NICE \<or> capable_sys_nice sys (current k)"

definition sys_nice :: "'x env \<Rightarrow> 'x sys \<Rightarrow> int \<Rightarrow> 'x kernel \<Rightarrow> int \<times> 'x kernel" where
  "sys_nice env sys increment k =
     (let increment = (if increment < -40 then -40 else increment);
          increment = (if 40 < increment then 40 else increment);
          nice = TASK_NICE k (current k) + increment;
          nice = (if nice < -20 then -20 else nice);
          nice = (if 19 < nice then 19 else nice) in
      if increment < 0 \<and> \<not> can_nice env sys (current k) nice k then (- EPERM, k)
      else
        let retval = security_task_setnice sys (current k) nice in
        if retval \<noteq> 0 then (retval, k)
        else (0, set_user_nice env (current k) nice k))"

definition task_prio :: "'x kernel \<Rightarrow> tid \<Rightarrow> int" where
  "task_prio k p = prio (tasks k p) - MAX_RT_PRIO"

definition task_nice :: "'x kernel \<Rightarrow> tid \<Rightarrow> int" where
  "task_nice k p = TASK_NICE k p"

section \<open>Setting the policy\<close>

definition find_process_by_pid :: "'x sys \<Rightarrow> int \<Rightarrow> 'x kernel \<Rightarrow> tid option" where
  "find_process_by_pid sys pd k = (if pd \<noteq> 0 then find_task_by_vpid sys pd else Some (current k))"

text \<open>\<open>__setscheduler\<close>.\<close>

definition setscheduler :: "'x sys \<Rightarrow> cpu \<Rightarrow> tid \<Rightarrow> int \<Rightarrow> int \<Rightarrow> 'x kernel \<Rightarrow> 'x kernel" where
  "setscheduler sys c p pol pr k =
     (let k = upd_task p (\<lambda>t. t\<lparr>policy := pol\<rparr>) k;
          k = upd_task p (\<lambda>t. t\<lparr>rt_priority := pr\<rparr>) k;
          k = upd_task p (\<lambda>t. t\<lparr>normal_prio := calc_normal_prio k p\<rparr>) k;
          k = upd_task p (\<lambda>t. t\<lparr>prio := rt_mutex_getprio sys k p\<rparr>) k;
          k = upd_task p (\<lambda>t. t\<lparr>class_of :=
                (if pol = SCHED_WRR then wrr_sched_class
                 else if rt_prio (prio t) then rt_sched_class else fair_sched_class)\<rparr>) k
      in set_load_weight p k)"

definition check_same_owner :: "'x sys \<Rightarrow> tid \<Rightarrow> 'x kernel \<Rightarrow> bool" where
  "check_same_owner sys p k \<longleftrightarrow>
     (let me = current k in
      if cred_user_ns sys me = cred_user_ns sys p
      then cred_euid sys me = cred_euid sys p \<or> cred_euid sys me = cred_uid sys p
      else False)"

definition valid_policy :: "int \<Rightarrow> bool" where
  "valid_policy pol \<longleftrightarrow>
     pol \<in> {SCHED_FIFO, SCHED_RR, SCHED_NORMAL, SCHED_BATCH, SCHED_IDLE, SCHED_WRR}"

text \<open>The checks of \<open>__sched_setscheduler\<close> on the priority, and on an unprivileged caller.\<close>

definition check_sched_priority :: "tid \<Rightarrow> int \<Rightarrow> int \<Rightarrow> 'x kernel \<Rightarrow> bool" where
  "check_sched_priority p pol pr k \<longleftrightarrow>
     \<not> (pr < 0 \<or> (mm (tasks k p) \<noteq> None \<and> MAX_USER_RT_PRIO - 1 < pr)
        \<or> (mm (tasks k p) = None \<and> MAX_RT_PRIO - 1 < pr))
     \<and> rt_policy pol = (pr \<noteq> 0)"

definition check_unprivileged ::
  "'x env \<Rightarrow> 'x sys \<Rightarrow> tid \<Rightarrow> int \<Rightarrow> int \<Rightarrow> bool \<Rightarrow> 'x kernel \<Rightarrow> bool" where
  "check_unprivileged env sys p pol pr reset_on_fork k \<longleftrightarrow>
     \<not> (rt_policy pol \<and>
          (pol \<noteq> policy (tasks k p) \<and> rlim env p RLIMIT_RTPRIO = 0
           \<or> rt_priority (tasks k p) < pr \<and> int (unat (rlim env p RLIMIT_RTPRIO)) < pr))
     \<and> \<not> (policy (tasks k p) = SCHED_IDLE \<and> pol \<noteq> SCHED_IDLE
          \<and> \<not> can_nice env sys p (TASK_NICE k p) k)
     \<and> check_same_owner sys p k
     \<and> \<not> (sched_reset_on_fork (tasks k p) \<and> \<not> reset_on_fork)"

text \<open>
  The part of \<open>__sched_setscheduler\<close> that changes the task, after all checks.
\<close>

definition change_scheduler ::
  "'x env \<Rightarrow> 'x sys \<Rightarrow> tid \<Rightarrow> int \<Rightarrow> int \<Rightarrow> bool \<Rightarrow> 'x kernel \<Rightarrow> 'x kernel" where
  "change_scheduler env sys p pol pr reset_on_fork k =
     (let c = task_cpu (tasks k p);
          was_on_rq = on_rq (tasks k p);
          running = task_current c p k;
          k = (if was_on_rq then dequeue_task env c p 0 k else k);
          k = (if running then class_put_prev_task env c p k else k);
          k = upd_task p (\<lambda>t. t\<lparr>sched_reset_on_fork := reset_on_fork\<rparr>) k;
          oldprio = prio (tasks k p);
          prev_class = class_of (tasks k p);
          k = setscheduler sys c p pol pr k;
          k = (if running then class_set_curr_task env (class_of (tasks k p)) c k else k);
          k = (if was_on_rq then enqueue_task env c p 0 k else k);
          k = check_class_changed env c p prev_class oldprio k
      in rt_mutex_adjust_pi sys p k)"

text \<open>
  \<open>__sched_setscheduler\<close>. With \<open>policy < 0\<close> the task's own policy is used; it cannot have
  changed when it is rechecked under the lock, as nothing else runs in between.
\<close>

definition sched_setscheduler_user ::
  "'x env \<Rightarrow> 'x sys \<Rightarrow> tid \<Rightarrow> int \<Rightarrow> int \<Rightarrow> bool \<Rightarrow> 'x kernel \<Rightarrow> int \<times> 'x kernel" where
  "sched_setscheduler_user env sys p pol0 pr user k =
     (let reset_on_fork = (if pol0 < 0 then sched_reset_on_fork (tasks k p)
                           else pol0 AND SCHED_RESET_ON_FORK \<noteq> 0);
          pol = (if pol0 < 0 then policy (tasks k p) else pol0 AND NOT SCHED_RESET_ON_FORK) in
      if 0 \<le> pol0 \<and> \<not> valid_policy pol then (- EINVAL, k)
      else if \<not> check_sched_priority p pol pr k then (- EINVAL, k)
      else if user \<and> \<not> capable_sys_nice sys (current k)
              \<and> \<not> check_unprivileged env sys p pol pr reset_on_fork k
      then (- EPERM, k)
      else if user \<and> security_task_setscheduler sys p \<noteq> 0
      then (security_task_setscheduler sys p, k)
      else if stop (rqs k (task_cpu (tasks k p))) = Some p then (- EINVAL, k)
      else if pol = policy (tasks k p) \<and> (\<not> rt_policy pol \<or> pr = rt_priority (tasks k p))
      then (0, k)
      else if user \<and> rt_bandwidth_enabled k \<and> rt_policy pol
              \<and> rtb_runtime (tg_rt_bandwidth (tgs k (sched_task_group (tasks k p)))) = 0
              \<and> \<not> tg_is_autogroup (tgs k (sched_task_group (tasks k p)))
      then (- EPERM, k)
      else (0, change_scheduler env sys p pol pr reset_on_fork k))"

definition sched_setscheduler ::
  "'x env \<Rightarrow> 'x sys \<Rightarrow> tid \<Rightarrow> int \<Rightarrow> int \<Rightarrow> 'x kernel \<Rightarrow> int \<times> 'x kernel" where
  "sched_setscheduler env sys p pol pr k = sched_setscheduler_user env sys p pol pr True k"

definition sched_setscheduler_nocheck ::
  "'x env \<Rightarrow> 'x sys \<Rightarrow> tid \<Rightarrow> int \<Rightarrow> int \<Rightarrow> 'x kernel \<Rightarrow> int \<times> 'x kernel" where
  "sched_setscheduler_nocheck env sys p pol pr k = sched_setscheduler_user env sys p pol pr False k"

section \<open>The system calls\<close>

text \<open>
  A user pointer to a \<open>sched_param\<close> is \<open>None\<close> when it is \<open>NULL\<close>, \<open>Some None\<close> when copying from
  it faults, and otherwise the priority it holds.
\<close>

definition do_sched_setscheduler ::
  "'x env \<Rightarrow> 'x sys \<Rightarrow> int \<Rightarrow> int \<Rightarrow> int option option \<Rightarrow> 'x kernel \<Rightarrow> int \<times> 'x kernel" where
  "do_sched_setscheduler env sys pd pol param k =
     (case param of
        None \<Rightarrow> (- EINVAL, k)
      | Some copied \<Rightarrow>
          if pd < 0 then (- EINVAL, k)
          else (case copied of
                  None \<Rightarrow> (- EFAULT, k)
                | Some pr \<Rightarrow>
                    (case find_process_by_pid sys pd k of
                       None \<Rightarrow> (- ESRCH, k)
                     | Some p \<Rightarrow> sched_setscheduler env sys p pol pr k)))"

definition sys_sched_setscheduler ::
  "'x env \<Rightarrow> 'x sys \<Rightarrow> int \<Rightarrow> int \<Rightarrow> int option option \<Rightarrow> 'x kernel \<Rightarrow> int \<times> 'x kernel" where
  "sys_sched_setscheduler env sys pd pol param k =
     (if pol < 0 then (- EINVAL, k) else do_sched_setscheduler env sys pd pol param k)"

definition sys_sched_setparam ::
  "'x env \<Rightarrow> 'x sys \<Rightarrow> int \<Rightarrow> int option option \<Rightarrow> 'x kernel \<Rightarrow> int \<times> 'x kernel" where
  "sys_sched_setparam env sys pd param k = do_sched_setscheduler env sys pd (-1) param k"

definition sys_sched_getscheduler :: "'x sys \<Rightarrow> int \<Rightarrow> 'x kernel \<Rightarrow> int" where
  "sys_sched_getscheduler sys pd k =
     (if pd < 0 then - EINVAL
      else case find_process_by_pid sys pd k of
             None \<Rightarrow> - ESRCH
           | Some p \<Rightarrow>
               let retval = security_task_getscheduler sys p in
               if retval \<noteq> 0 then retval
               else policy (tasks k p)
                      OR (if sched_reset_on_fork (tasks k p) then SCHED_RESET_ON_FORK else 0))"

text \<open>The result is the return value and what was copied to the user, if anything.\<close>

definition sys_sched_getparam :: "'x sys \<Rightarrow> int \<Rightarrow> bool \<Rightarrow> bool \<Rightarrow> 'x kernel \<Rightarrow> int \<times> int option" where
  "sys_sched_getparam sys pd null faults k =
     (if null \<or> pd < 0 then (- EINVAL, None)
      else case find_process_by_pid sys pd k of
             None \<Rightarrow> (- ESRCH, None)
           | Some p \<Rightarrow>
               let retval = security_task_getscheduler sys p in
               if retval \<noteq> 0 then (retval, None)
               else if faults then (- EFAULT, None)
               else (0, Some (rt_priority (tasks k p))))"

definition sys_sched_get_priority_max :: "int \<Rightarrow> int" where
  "sys_sched_get_priority_max pol =
     (if pol = SCHED_FIFO \<or> pol = SCHED_RR then MAX_USER_RT_PRIO - 1
      else if pol = SCHED_NORMAL \<or> pol = SCHED_BATCH \<or> pol = SCHED_IDLE then 0
      else - EINVAL)"

definition sys_sched_get_priority_min :: "int \<Rightarrow> int" where
  "sys_sched_get_priority_min pol =
     (if pol = SCHED_FIFO \<or> pol = SCHED_RR then 1
      else if pol = SCHED_NORMAL \<or> pol = SCHED_BATCH \<or> pol = SCHED_IDLE then 0
      else - EINVAL)"

text \<open>The interval is in ticks; \<open>jiffies_to_timespec\<close> is not part of the repository.\<close>

definition sys_sched_rr_get_interval ::
  "'x env \<Rightarrow> 'x sys \<Rightarrow> int \<Rightarrow> bool \<Rightarrow> 'x kernel \<Rightarrow> int \<times> u32 option" where
  "sys_sched_rr_get_interval env sys pd faults k =
     (if pd < 0 then (- EINVAL, None)
      else case find_process_by_pid sys pd k of
             None \<Rightarrow> (- ESRCH, None)
           | Some p \<Rightarrow>
               let retval = security_task_getscheduler sys p in
               if retval \<noteq> 0 then (retval, None)
               else if faults then (- EFAULT, None)
               else (0, Some (class_get_rr_interval env (task_cpu (tasks k p)) p k)))"

section \<open>Affinity\<close>

text \<open>
  \<open>sched_setaffinity\<close>. Its loop repeats while the cpuset has changed under it; \<open>None\<close> is a loop
  that does not end. A \<open>cpumask_var_t\<close> is on the stack here, so \<open>alloc_cpumask_var\<close> succeeds.
\<close>

partial_function (option) setaffinity_loop ::
  "'x env \<Rightarrow> 'x sys \<Rightarrow> tid \<Rightarrow> cpumask \<Rightarrow> 'x kernel \<Rightarrow> (int \<times> 'x kernel) option" where
  "setaffinity_loop env sys p new_mask k =
     (case set_cpus_allowed_ptr env p new_mask k of
        (retval, k) \<Rightarrow>
          if retval = 0 then
            let allowed = cpuset_cpus_allowed sys p k in
            if \<not> list_all (\<lambda>i. new_mask i \<longrightarrow> allowed i) [0..<nr_cpu_ids env]
            then setaffinity_loop env sys p allowed k
            else Some (retval, k)
          else Some (retval, k))"

declare setaffinity_loop.simps [code]

definition sched_setaffinity ::
  "'x env \<Rightarrow> 'x sys \<Rightarrow> int \<Rightarrow> cpumask \<Rightarrow> 'x kernel \<Rightarrow> (int \<times> 'x kernel) option" where
  "sched_setaffinity env sys pd in_mask k =
     (case find_process_by_pid sys pd k of
        None \<Rightarrow> Some (- ESRCH, k)
      | Some p \<Rightarrow>
          if \<not> check_same_owner sys p k \<and> \<not> ns_capable_sys_nice sys (current k) p
          then Some (- EPERM, k)
          else if security_task_setscheduler sys p \<noteq> 0
          then Some (security_task_setscheduler sys p, k)
          else setaffinity_loop env sys p (\<lambda>i. in_mask i \<and> cpuset_cpus_allowed sys p k i) k)"

text \<open>
  The user's mask is a bit array of \<open>len\<close> bytes; \<open>cpumask_size\<close> is 4 bytes for at most 32
  cpus. The result \<open>None\<close> of \<open>get_user_cpu_mask\<close> is \<open>-EFAULT\<close>.
\<close>

definition get_user_cpu_mask :: "(nat \<Rightarrow> bool) option \<Rightarrow> nat \<Rightarrow> cpumask option" where
  "get_user_cpu_mask user_mask len =
     (let len = (if 4 < len then 4 else len) in
      case user_mask of None \<Rightarrow> None | Some m \<Rightarrow> Some (\<lambda>i. i < 8 * len \<and> m i))"

definition sys_sched_setaffinity ::
  "'x env \<Rightarrow> 'x sys \<Rightarrow> int \<Rightarrow> nat \<Rightarrow> (nat \<Rightarrow> bool) option \<Rightarrow> 'x kernel \<Rightarrow> (int \<times> 'x kernel) option" where
  "sys_sched_setaffinity env sys pd len user_mask k =
     (case get_user_cpu_mask user_mask len of
        None \<Rightarrow> Some (- EFAULT, k)
      | Some m \<Rightarrow> sched_setaffinity env sys pd m k)"

definition sched_getaffinity :: "'x sys \<Rightarrow> int \<Rightarrow> 'x kernel \<Rightarrow> int \<times> cpumask option" where
  "sched_getaffinity sys pd k =
     (case find_process_by_pid sys pd k of
        None \<Rightarrow> (- ESRCH, None)
      | Some p \<Rightarrow>
          let retval = security_task_getscheduler sys p in
          if retval \<noteq> 0 then (retval, None)
          else (0, Some (\<lambda>i. cpus_allowed (tasks k p) i \<and> cpu_online_mask k i)))"

definition sys_sched_getaffinity ::
  "'x env \<Rightarrow> 'x sys \<Rightarrow> int \<Rightarrow> nat \<Rightarrow> bool \<Rightarrow> 'x kernel \<Rightarrow> int \<times> cpumask option" where
  "sys_sched_getaffinity env sys pd len faults k =
     (if len * 8 < nr_cpu_ids env then (- EINVAL, None)
      else if len mod 4 \<noteq> 0 then (- EINVAL, None)
      else case sched_getaffinity sys pd k of
             (ret, m) \<Rightarrow>
               if ret = 0 then if faults then (- EFAULT, None) else (int (min len 4), m)
               else (ret, None))"

section \<open>Stop tasks and normalisation\<close>

definition sched_set_stop_task :: "'x env \<Rightarrow> 'x sys \<Rightarrow> cpu \<Rightarrow> tid option \<Rightarrow> 'x kernel \<Rightarrow> 'x kernel" where
  "sched_set_stop_task env sys c st k =
     (let old_stop = stop (rqs k c);
          k = (case st of
                 None \<Rightarrow> k
               | Some p \<Rightarrow>
                   let k = snd (sched_setscheduler_nocheck env sys p SCHED_FIFO (MAX_RT_PRIO - 1) k)
                   in upd_task p (\<lambda>t. t\<lparr>class_of := stop_sched_class\<rparr>) k);
          k = upd_rq c (\<lambda>r. r\<lparr>stop := st\<rparr>) k
      in case old_stop of
           None \<Rightarrow> k
         | Some p \<Rightarrow> upd_task p (\<lambda>t. t\<lparr>class_of := rt_sched_class\<rparr>) k)"

definition normalize_task :: "'x env \<Rightarrow> 'x sys \<Rightarrow> cpu \<Rightarrow> tid \<Rightarrow> 'x kernel \<Rightarrow> 'x kernel" where
  "normalize_task env sys c p k =
     (let prev_class = class_of (tasks k p);
          old_prio = prio (tasks k p);
          was_on_rq = on_rq (tasks k p);
          k = (if was_on_rq then dequeue_task env c p 0 k else k);
          k = setscheduler sys c p SCHED_NORMAL 0 k;
          k = (if was_on_rq then resched_task (curr_of k c) (enqueue_task env c p 0 k) else k)
      in check_class_changed env c p prev_class old_prio k)"

definition normalize_rt_task :: "'x env \<Rightarrow> 'x sys \<Rightarrow> tid \<Rightarrow> 'x kernel \<Rightarrow> 'x kernel" where
  "normalize_rt_task env sys p k =
     (if mm (tasks k p) = None then k
      else
        let k = upd_se p (\<lambda>e. e\<lparr>exec_start := 0\<rparr>) k;
            k = upd_stats p (\<lambda>s. s\<lparr>wait_start := 0, sleep_start := 0, block_start := 0\<rparr>) k in
        if \<not> rt_task k p then
          if TASK_NICE k p < 0 \<and> mm (tasks k p) \<noteq> None then set_user_nice env p 0 k else k
        else normalize_task env sys (task_cpu (tasks k p)) p k)"

definition normalize_rt_tasks :: "'x env \<Rightarrow> 'x sys \<Rightarrow> 'x kernel \<Rightarrow> 'x kernel" where
  "normalize_rt_tasks env sys k = fold (normalize_rt_task env sys) (threads k) k"

end
