(* ===== verification/Sched_Frame.thy ===== *)
theory Sched_Frame
  imports Op_Rules Sched_Policy
begin

text \<open>
  Which operations leave the scheduling parameters of every task alone: everything the two
  classes and the core do between a change of a task's parameters and the next one. The facts are
  rules of the collection \<open>keeps\<close>, proved by following the structure of each operation. The
  classes outside the repository are assumed to do the same (\<open>env_ok\<close>).
\<close>

section \<open>The parameters of a task\<close>

record task_params =
  tp_policy :: int
  tp_prio :: int
  tp_normal_prio :: int
  tp_static_prio :: int
  tp_rt_priority :: int
  tp_class :: sched_class
  tp_group :: tgid
  tp_allowed :: cpumask
  tp_mm :: "nat option"
  tp_on_rq :: bool
  tp_state :: u32
  tp_flags :: u32
  tp_reset_on_fork :: bool
  tp_preempt_count :: nat

definition params_of :: "task_struct \<Rightarrow> task_params" where
  "params_of t = \<lparr>tp_policy = policy t, tp_prio = prio t, tp_normal_prio = normal_prio t,
     tp_static_prio = static_prio t, tp_rt_priority = rt_priority t, tp_class = class_of t,
     tp_group = sched_task_group t, tp_allowed = cpus_allowed t, tp_mm = mm t, tp_on_rq = on_rq t,
     tp_state = state t, tp_flags = flags t, tp_reset_on_fork = sched_reset_on_fork t,
     tp_preempt_count = preempt_count t\<rparr>"

lemma params_of_eqD:
  assumes "params_of t = params_of u"
  shows "policy t = policy u" "prio t = prio u" "normal_prio t = normal_prio u"
    "static_prio t = static_prio u" "rt_priority t = rt_priority u" "class_of t = class_of u"
    "sched_task_group t = sched_task_group u" "cpus_allowed t = cpus_allowed u" "mm t = mm u"
    "on_rq t = on_rq u" "state t = state u" "flags t = flags u"
    "sched_reset_on_fork t = sched_reset_on_fork u" "preempt_count t = preempt_count u"
  using assms by (simp_all add: params_of_def)

definition keep :: "'x kernel \<Rightarrow> 'x kernel \<Rightarrow> bool" where
  "keep k k' \<longleftrightarrow> (\<forall>p. params_of (tasks k' p) = params_of (tasks k p))
     \<and> (\<forall>c. nr_iowait (rqs k' c) = nr_iowait (rqs k c) \<and> curr (rqs k' c) = curr (rqs k c))"

lemma keepD: "keep k k' \<Longrightarrow> params_of (tasks k' p) = params_of (tasks k p)"
  by (simp add: keep_def)

lemma keep_rqD:
  "keep k k' \<Longrightarrow> nr_iowait (rqs k' c) = nr_iowait (rqs k c)"
  "keep k k' \<Longrightarrow> curr (rqs k' c) = curr (rqs k c)"
  by (simp_all add: keep_def)

section \<open>Following the structure of an operation\<close>

lemma keep_refl [keeps]: "keep k k"
  by (simp add: keep_def)

lemma keep_trans: "\<lbrakk>keep k k'; keep k' k''\<rbrakk> \<Longrightarrow> keep k k''"
  by (simp add: keep_def)

lemmas keep_rules [keeps] = op_rules [where P = "keep k" for k]

lemmas keep_lets = op_lets [where P = "keep k" for k]

section \<open>Writes to the state\<close>

lemma keep_other_fields [keeps]:
  "keep k a \<Longrightarrow> keep k (wrr_q_update f1 a)"
  "keep k a \<Longrightarrow> keep k (rt_q_update f2 a)"
  "keep k a \<Longrightarrow> keep k (rt_rqs_update f3 a)"
  "keep k a \<Longrightarrow> keep k (rt_ses_update f4 a)"
  "keep k a \<Longrightarrow> keep k (tgs_update f5 a)"
  "keep k a \<Longrightarrow> keep k (cas_update f6 a)"
  "keep k a \<Longrightarrow> keep k (cpupri_update f7 a)"
  "keep k a \<Longrightarrow> keep k (rto_mask_update f8 a)"
  "keep k a \<Longrightarrow> keep k (rto_count_update f9 a)"
  "keep k a \<Longrightarrow> keep k (bug_update f10 a)"
  "keep k a \<Longrightarrow> keep k (ext_state_update f11 a)"
  by (simp_all add: keep_def)

lemma keep_rq_fields [keeps]:
  "keep k a \<Longrightarrow> keep k (upd_rq c (\<lambda>r. r\<lparr>nr_running := x0 r\<rparr>) a)"
  "keep k a \<Longrightarrow> keep k (upd_rq c (\<lambda>r. r\<lparr>cpu_load := x1 r\<rparr>) a)"
  "keep k a \<Longrightarrow> keep k (upd_rq c (\<lambda>r. r\<lparr>last_load_update_tick := x2 r\<rparr>) a)"
  "keep k a \<Longrightarrow> keep k (upd_rq c (\<lambda>r. r\<lparr>skip_clock_update := x3 r\<rparr>) a)"
  "keep k a \<Longrightarrow> keep k (upd_rq c (\<lambda>r. r\<lparr>rq_load_weight := x4 r\<rparr>) a)"
  "keep k a \<Longrightarrow> keep k (upd_rq c (\<lambda>r. r\<lparr>nr_load_updates := x5 r\<rparr>) a)"
  "keep k a \<Longrightarrow> keep k (upd_rq c (\<lambda>r. r\<lparr>wrr_nr_running := x6 r\<rparr>) a)"
  "keep k a \<Longrightarrow> keep k (upd_rq c (\<lambda>r. r\<lparr>wrr_total_weight := x7 r\<rparr>) a)"
  "keep k a \<Longrightarrow> keep k (upd_rq c (\<lambda>r. r\<lparr>nr_uninterruptible := x8 r\<rparr>) a)"
  "keep k a \<Longrightarrow> keep k (upd_rq c (\<lambda>r. r\<lparr>stop := x9 r\<rparr>) a)"
  "keep k a \<Longrightarrow> keep k (upd_rq c (\<lambda>r. r\<lparr>prev_mm := x10 r\<rparr>) a)"
  "keep k a \<Longrightarrow> keep k (upd_rq c (\<lambda>r. r\<lparr>clock := x11 r\<rparr>) a)"
  "keep k a \<Longrightarrow> keep k (upd_rq c (\<lambda>r. r\<lparr>clock_task := x12 r\<rparr>) a)"
  "keep k a \<Longrightarrow> keep k (upd_rq c (\<lambda>r. r\<lparr>post_schedule := x13 r\<rparr>) a)"
  "keep k a \<Longrightarrow> keep k (upd_rq c (\<lambda>r. r\<lparr>idle_balance := x14 r\<rparr>) a)"
  "keep k a \<Longrightarrow> keep k (upd_rq c (\<lambda>r. r\<lparr>online := x15 r\<rparr>) a)"
  "keep k a \<Longrightarrow> keep k (upd_rq c (\<lambda>r. r\<lparr>rt_avg := x16 r\<rparr>) a)"
  "keep k a \<Longrightarrow> keep k (upd_rq c (\<lambda>r. r\<lparr>age_stamp := x17 r\<rparr>) a)"
  "keep k a \<Longrightarrow> keep k (upd_rq c (\<lambda>r. r\<lparr>idle_stamp := x18 r\<rparr>) a)"
  "keep k a \<Longrightarrow> keep k (upd_rq c (\<lambda>r. r\<lparr>avg_idle := x19 r\<rparr>) a)"
  "keep k a \<Longrightarrow> keep k (upd_rq c (\<lambda>r. r\<lparr>calc_load_update := x20 r\<rparr>) a)"
  "keep k a \<Longrightarrow> keep k (upd_rq c (\<lambda>r. r\<lparr>calc_load_active := x21 r\<rparr>) a)"
  "keep k a \<Longrightarrow> keep k (upd_rq c (\<lambda>r. r\<lparr>yld_count := x22 r\<rparr>) a)"
  "keep k a \<Longrightarrow> keep k (upd_rq c (\<lambda>r. r\<lparr>sched_count := x23 r\<rparr>) a)"
  "keep k a \<Longrightarrow> keep k (upd_rq c (\<lambda>r. r\<lparr>ttwu_count := x24 r\<rparr>) a)"
  "keep k a \<Longrightarrow> keep k (upd_rq c (\<lambda>r. r\<lparr>ttwu_local := x25 r\<rparr>) a)"
  "keep k a \<Longrightarrow> keep k (upd_rq c (\<lambda>r. r\<lparr>wake_list := x26 r\<rparr>) a)"
  "keep k a \<Longrightarrow> keep k (upd_rq c (\<lambda>r. r\<lparr>leaf_rt_rq_list := x27 r\<rparr>) a)"
  "keep k a \<Longrightarrow> keep k (upd_rq c (\<lambda>r. r\<lparr>wrr_nr_running := y3 r, wrr_total_weight := y4 r\<rparr>) a)"
  by (simp_all add: keep_def)

lemma keep_age_rt_avg [keeps]: "keep k a \<Longrightarrow> keep k (upd_rq c age_rt_avg a)"
proof -
  have "nr_iowait (age_rt_avg r) = nr_iowait r" "curr (age_rt_avg r) = curr r" for r
    using age_rt_avg_fields [of r] by auto
  then show "keep k a \<Longrightarrow> keep k (upd_rq c age_rt_avg a)" by (simp add: keep_def)
qed

lemma keep_upd_task:
  "\<lbrakk>keep k a; \<And>t. params_of (g t) = params_of t\<rbrakk> \<Longrightarrow> keep k (upd_task p g a)"
  by (simp add: keep_def)

lemma keep_task_fields [keeps]:
  "keep k a \<Longrightarrow> keep k (upd_task p (\<lambda>t. t\<lparr>need_resched := b\<rparr>) a)"
  "keep k a \<Longrightarrow> keep k (upd_task p (\<lambda>t. t\<lparr>task_cpu := c\<rparr>) a)"
  "keep k a \<Longrightarrow> keep k (upd_task p (\<lambda>t. t\<lparr>se := f (se t)\<rparr>) a)"
  "keep k a \<Longrightarrow> keep k (upd_task p (\<lambda>t. t\<lparr>wrr := g (wrr t)\<rparr>) a)"
  "keep k a \<Longrightarrow> keep k (upd_task p (\<lambda>t. t\<lparr>sched_exp := h t\<rparr>) a)"
  by (simp_all add: keep_def params_of_def)

section \<open>The clock and moves\<close>

lemma keep_update_rq_clock_task [keeps]: "keep k a \<Longrightarrow> keep k (update_rq_clock_task c d a)"
  unfolding update_rq_clock_task_def by (assumption | rule keeps | rule keep_lets)+

lemma keep_update_rq_clock [keeps]: "keep k a \<Longrightarrow> keep k (update_rq_clock c a)"
  unfolding update_rq_clock_def by (assumption | rule keeps | rule keep_lets)+

lemma keep_sched_avg_update [keeps]: "keep k a \<Longrightarrow> keep k (sched_avg_update env c a)"
  unfolding sched_avg_update_def by (assumption | rule keeps | rule keep_lets)+

lemma keep_sched_rt_avg_update [keeps]: "keep k a \<Longrightarrow> keep k (sched_rt_avg_update env c d a)"
  unfolding sched_rt_avg_update_def by (assumption | rule keeps | rule keep_lets)+

lemma keep_set_task_rq [keeps]: "keep k a \<Longrightarrow> keep k (set_task_rq p c a)"
  unfolding set_task_rq_def by (assumption | rule keeps | rule keep_lets)+

lemma keep_set_task_cpu_raw [keeps]: "keep k a \<Longrightarrow> keep k (set_task_cpu_raw env p c a)"
  unfolding set_task_cpu_raw_def by (assumption | rule keeps | rule keep_lets)+

lemma keep_set_task_cpu [keeps]: "keep k a \<Longrightarrow> keep k (set_task_cpu env p c a)"
  unfolding set_task_cpu_def by (assumption | rule keeps | rule keep_lets)+

lemma keep_BUG_ON [keeps]: "keep k a \<Longrightarrow> keep k (BUG_ON b a)"
  unfolding BUG_ON_def by (assumption | rule keeps | rule keep_lets)+

lemma keep_inc_nr_running [keeps]: "keep k a \<Longrightarrow> keep k (inc_nr_running c a)"
  unfolding inc_nr_running_def by (assumption | rule keeps | rule keep_lets)+

lemma keep_dec_nr_running [keeps]: "keep k a \<Longrightarrow> keep k (dec_nr_running c a)"
  unfolding dec_nr_running_def by (assumption | rule keeps | rule keep_lets)+

lemma keep_resched_task [keeps]: "keep k a \<Longrightarrow> keep k (resched_task p a)"
  unfolding resched_task_def by (assumption | rule keeps | rule keep_lets)+

lemma keep_cpuacct_charge [keeps]: "keep k a \<Longrightarrow> keep k (cpuacct_charge p d a)"
  by (simp add: keep_def)

lemma keep_account_exec [keeps]: "keep k a \<Longrightarrow> keep k (account_exec env c d a)"
  unfolding account_exec_def by (assumption | rule keeps | rule keep_lets)+

section \<open>The WRR class\<close>

lemma keep_update_curr_wrr [keeps]: "keep k a \<Longrightarrow> keep k (update_curr_wrr env c a)"
  unfolding update_curr_wrr_def by (assumption | rule keeps | rule keep_lets)+

lemma keep_refresh_group [keeps]: "keep k a \<Longrightarrow> keep k (refresh_group env p a)"
  unfolding refresh_group_def by (assumption | rule keeps | rule keep_lets)+

lemma keep_enqueue_wrr_entity [keeps]: "keep k a \<Longrightarrow> keep k (enqueue_wrr_entity env c p h a)"
  unfolding enqueue_wrr_entity_def by (assumption | rule keeps | rule keep_lets)+

lemma keep_dequeue_wrr_entity [keeps]: "keep k a \<Longrightarrow> keep k (dequeue_wrr_entity c p a)"
  unfolding dequeue_wrr_entity_def by (assumption | rule keeps | rule keep_lets)+

lemma keep_enqueue_task_wrr [keeps]: "keep k a \<Longrightarrow> keep k (enqueue_task_wrr env c p fl a)"
  unfolding enqueue_task_wrr_def by (assumption | rule keeps | rule keep_lets)+

lemma keep_dequeue_task_wrr [keeps]: "keep k a \<Longrightarrow> keep k (dequeue_task_wrr env c p fl a)"
  unfolding dequeue_task_wrr_def by (assumption | rule keeps | rule keep_lets)+

lemma keep_requeue_task_wrr [keeps]: "keep k a \<Longrightarrow> keep k (requeue_task_wrr c p h a)"
  unfolding requeue_task_wrr_def by (assumption | rule keeps | rule keep_lets)+

lemma keep_yield_task_wrr [keeps]: "keep k a \<Longrightarrow> keep k (yield_task_wrr c a)"
  unfolding yield_task_wrr_def by (assumption | rule keeps | rule keep_lets)+

lemma keep_put_prev_task_wrr [keeps]: "keep k a \<Longrightarrow> keep k (put_prev_task_wrr env c p a)"
  unfolding put_prev_task_wrr_def by (assumption | rule keeps | rule keep_lets)+

lemma keep_set_curr_task_wrr [keeps]: "keep k a \<Longrightarrow> keep k (set_curr_task_wrr c a)"
  unfolding set_curr_task_wrr_def by (assumption | rule keeps | rule keep_lets)+

lemma keep_task_tick_wrr [keeps]: "keep k a \<Longrightarrow> keep k (task_tick_wrr env c p q a)"
  unfolding task_tick_wrr_def by (assumption | rule keeps | rule keep_lets)+

lemma keep_switched_to_wrr [keeps]: "keep k a \<Longrightarrow> keep k (switched_to_wrr env c p a)"
  unfolding switched_to_wrr_def by (assumption | rule keeps | rule keep_lets)+

section \<open>The RT class\<close>

lemma keep_start_rt_bandwidth [keeps]: "keep k a \<Longrightarrow> keep k (start_rt_bandwidth g a)"
  unfolding start_rt_bandwidth_def by (assumption | rule keeps | rule keep_lets)+

lemma keep_rt_set_overload [keeps]: "keep k a \<Longrightarrow> keep k (rt_set_overload c a)"
  unfolding rt_set_overload_def by (assumption | rule keeps | rule keep_lets)+

lemma keep_rt_clear_overload [keeps]: "keep k a \<Longrightarrow> keep k (rt_clear_overload c a)"
  unfolding rt_clear_overload_def by (assumption | rule keeps | rule keep_lets)+

lemma keep_update_rt_migration [keeps]: "keep k a \<Longrightarrow> keep k (update_rt_migration r a)"
  unfolding update_rt_migration_def by (assumption | rule keeps | rule keep_lets)+

lemma keep_inc_rt_migration [keeps]: "keep k a \<Longrightarrow> keep k (inc_rt_migration env s r a)"
  unfolding inc_rt_migration_def by (assumption | rule keeps | rule keep_lets)+

lemma keep_dec_rt_migration [keeps]: "keep k a \<Longrightarrow> keep k (dec_rt_migration env s r a)"
  unfolding dec_rt_migration_def by (assumption | rule keeps | rule keep_lets)+

lemma keep_enqueue_pushable_task [keeps]: "keep k a \<Longrightarrow> keep k (enqueue_pushable_task env c p a)"
  unfolding enqueue_pushable_task_def by (assumption | rule keeps | rule keep_lets)+

lemma keep_dequeue_pushable_task [keeps]: "keep k a \<Longrightarrow> keep k (dequeue_pushable_task env c p a)"
  unfolding dequeue_pushable_task_def by (assumption | rule keeps | rule keep_lets)+

lemma keep_cpupri_set [keeps]: "keep k a \<Longrightarrow> keep k (cpupri_set c pr a)"
  unfolding cpupri_set_def by (assumption | rule keeps | rule keep_lets)+

lemma keep_inc_rt_prio_smp [keeps]: "keep k a \<Longrightarrow> keep k (inc_rt_prio_smp env r pr pp a)"
  unfolding inc_rt_prio_smp_def by (assumption | rule keeps | rule keep_lets)+

lemma keep_dec_rt_prio_smp [keeps]: "keep k a \<Longrightarrow> keep k (dec_rt_prio_smp env r pr pp a)"
  unfolding dec_rt_prio_smp_def by (assumption | rule keeps | rule keep_lets)+

lemma keep_inc_rt_prio [keeps]: "keep k a \<Longrightarrow> keep k (inc_rt_prio env r pr a)"
  unfolding inc_rt_prio_def by (assumption | rule keeps | rule keep_lets)+

lemma keep_dec_rt_prio [keeps]: "keep k a \<Longrightarrow> keep k (dec_rt_prio env r pr a)"
  unfolding dec_rt_prio_def by (assumption | rule keeps | rule keep_lets)+

lemma keep_inc_rt_group [keeps]: "keep k a \<Longrightarrow> keep k (inc_rt_group s r a)"
  unfolding inc_rt_group_def by (assumption | rule keeps | rule keep_lets)+

lemma keep_dec_rt_group [keeps]: "keep k a \<Longrightarrow> keep k (dec_rt_group s r a)"
  unfolding dec_rt_group_def by (assumption | rule keeps | rule keep_lets)+

lemma keep_inc_rt_tasks [keeps]: "keep k a \<Longrightarrow> keep k (inc_rt_tasks env s r a)"
  unfolding inc_rt_tasks_def by (assumption | rule keeps | rule keep_lets)+

lemma keep_dec_rt_tasks [keeps]: "keep k a \<Longrightarrow> keep k (dec_rt_tasks env s r a)"
  unfolding dec_rt_tasks_def by (assumption | rule keeps | rule keep_lets)+

lemma keep_enqueue_rt_entity1 [keeps]: "keep k a \<Longrightarrow> keep k (enqueue_rt_entity1 env h s a)"
  unfolding enqueue_rt_entity1_def by (assumption | rule keeps | rule keep_lets)+

lemma keep_dequeue_rt_entity1 [keeps]: "keep k a \<Longrightarrow> keep k (dequeue_rt_entity1 env s a)"
  unfolding dequeue_rt_entity1_def by (assumption | rule keeps | rule keep_lets)+

lemma keep_dequeue_rt_stack [keeps]: "keep k a \<Longrightarrow> keep k (dequeue_rt_stack env s a)"
  unfolding dequeue_rt_stack_def by (assumption | rule keeps | rule keep_lets)+

lemma keep_enqueue_rt_entity [keeps]: "keep k a \<Longrightarrow> keep k (enqueue_rt_entity env s h a)"
  unfolding enqueue_rt_entity_def by (assumption | rule keeps | rule keep_lets)+

lemma keep_dequeue_rt_entity [keeps]: "keep k a \<Longrightarrow> keep k (dequeue_rt_entity env s a)"
  unfolding dequeue_rt_entity_def by (assumption | rule keeps | rule keep_lets)+

lemma keep_sched_rt_rq_enqueue [keeps]: "keep k a \<Longrightarrow> keep k (sched_rt_rq_enqueue env r a)"
  unfolding sched_rt_rq_enqueue_def by (assumption | rule keeps | rule keep_lets)+

lemma keep_sched_rt_rq_dequeue [keeps]: "keep k a \<Longrightarrow> keep k (sched_rt_rq_dequeue env r a)"
  unfolding sched_rt_rq_dequeue_def by (assumption | rule keeps | rule keep_lets)+

lemma keep_balance_step [keeps]: "keep k (fst a) \<Longrightarrow> keep k (fst (balance_step r w pd a i))"
  unfolding balance_step_def by (assumption | rule keeps | rule keep_lets)+

lemma keep_do_balance_runtime [keeps]: "keep k a \<Longrightarrow> keep k (snd (do_balance_runtime env r a))"
  unfolding do_balance_runtime_def by (assumption | rule keeps | rule keep_lets)+

lemma keep_balance_runtime [keeps]: "keep k a \<Longrightarrow> keep k (snd (balance_runtime env r a))"
  unfolding balance_runtime_def by (assumption | rule keeps | rule keep_lets)+

lemma keep_rt_period_cpu [keeps]: "keep k (fst a) \<Longrightarrow> keep k (fst (rt_period_cpu env g ov a i))"
  unfolding rt_period_cpu_def by (assumption | rule keeps | rule keep_lets)+

lemma keep_do_sched_rt_period_timer [keeps]: "keep k a \<Longrightarrow> keep k (snd (do_sched_rt_period_timer env g ov a))"
  unfolding do_sched_rt_period_timer_def by (assumption | rule keeps | rule keep_lets)+

lemma keep_sched_rt_runtime_exceeded [keeps]: "keep k a \<Longrightarrow> keep k (snd (sched_rt_runtime_exceeded env r a))"
  unfolding sched_rt_runtime_exceeded_def by (assumption | rule keeps | rule keep_lets)+

lemma keep_charge_rt_rq [keeps]: "keep k a \<Longrightarrow> keep k (charge_rt_rq env p d s a)"
  unfolding charge_rt_rq_def by (assumption | rule keeps | rule keep_lets)+

lemma keep_update_curr_rt [keeps]: "keep k a \<Longrightarrow> keep k (update_curr_rt env c a)"
  unfolding update_curr_rt_def by (assumption | rule keeps | rule keep_lets)+

lemma keep_enqueue_task_rt [keeps]: "keep k a \<Longrightarrow> keep k (enqueue_task_rt env c p fl a)"
  unfolding enqueue_task_rt_def by (assumption | rule keeps | rule keep_lets)+

lemma keep_dequeue_task_rt [keeps]: "keep k a \<Longrightarrow> keep k (dequeue_task_rt env c p fl a)"
  unfolding dequeue_task_rt_def by (assumption | rule keeps | rule keep_lets)+

lemma keep_requeue_rt_entity [keeps]: "keep k a \<Longrightarrow> keep k (requeue_rt_entity r s h a)"
  unfolding requeue_rt_entity_def by (assumption | rule keeps | rule keep_lets)+

lemma keep_requeue_task_rt [keeps]: "keep k a \<Longrightarrow> keep k (requeue_task_rt c p h a)"
  unfolding requeue_task_rt_def by (assumption | rule keeps | rule keep_lets)+

lemma keep_yield_task_rt [keeps]: "keep k a \<Longrightarrow> keep k (yield_task_rt c a)"
  unfolding yield_task_rt_def by (assumption | rule keeps | rule keep_lets)+

lemma keep_check_preempt_equal_prio [keeps]: "keep k a \<Longrightarrow> keep k (check_preempt_equal_prio env c p a)"
  unfolding check_preempt_equal_prio_def by (assumption | rule keeps | rule keep_lets)+

lemma keep_check_preempt_curr_rt [keeps]: "keep k a \<Longrightarrow> keep k (check_preempt_curr_rt env c p fl a)"
  unfolding check_preempt_curr_rt_def by (assumption | rule keeps | rule keep_lets)+

lemma keep_pick_next_task_rt1 [keeps]: "keep k a \<Longrightarrow> keep k (snd (pick_next_task_rt1 c a))"
  unfolding pick_next_task_rt1_def by (assumption | rule keeps | rule keep_lets)+

lemma keep_pick_next_task_rt [keeps]: "keep k a \<Longrightarrow> keep k (snd (pick_next_task_rt env c a))"
  unfolding pick_next_task_rt_def by (assumption | rule keeps | rule keep_lets)+

lemma keep_put_prev_task_rt [keeps]: "keep k a \<Longrightarrow> keep k (put_prev_task_rt env c p a)"
  unfolding put_prev_task_rt_def by (assumption | rule keeps | rule keep_lets)+

lemma keep_set_curr_task_rt [keeps]: "keep k a \<Longrightarrow> keep k (set_curr_task_rt env c a)"
  unfolding set_curr_task_rt_def by (assumption | rule keeps | rule keep_lets)+

lemma keep_watchdog [keeps]: "keep k a \<Longrightarrow> keep k (watchdog env p a)"
  unfolding watchdog_def by (assumption | rule keeps | rule keep_lets)+

lemma keep_task_tick_rt [keeps]: "keep k a \<Longrightarrow> keep k (task_tick_rt env c p q a)"
  unfolding task_tick_rt_def by (assumption | rule keeps | rule keep_lets)+

section \<open>The classes outside the repository\<close>

text \<open>
  What is assumed of the fair, stop and idle classes: their operations set no parameters of a
  task. (They keep their own queues and the fields of \<open>p->se\<close>.)
\<close>

definition ops_ok :: "'x class_ops \<Rightarrow> bool" where
  "ops_ok f \<longleftrightarrow>
     (\<forall>c p fl k. keep k (op_enqueue_task f c p fl k))
     \<and> (\<forall>c p fl k. keep k (op_dequeue_task f c p fl k))
     \<and> (\<forall>c k. keep k (op_yield_task f c k))
     \<and> (\<forall>c p fl k. keep k (op_check_preempt_curr f c p fl k))
     \<and> (\<forall>c p k. keep k (op_put_prev_task f c p k))
     \<and> (\<forall>c k. keep k (op_set_curr_task f c k))
     \<and> (\<forall>c p q k. keep k (op_task_tick f c p q k))
     \<and> (\<forall>c p k. keep k (op_switched_from f c p k))
     \<and> (\<forall>c p k. keep k (op_switched_to f c p k))
     \<and> (\<forall>c p pr k. keep k (op_prio_changed f c p pr k))
     \<and> (\<forall>c p k. keep k (op_task_woken f c p k))
     \<and> (\<forall>p k. keep k (op_task_fork f p k))
     \<and> (\<forall>c p k. keep k (op_pre_schedule f c p k))
     \<and> (\<forall>c k. keep k (op_post_schedule f c k))
     \<and> (\<forall>c k. keep k (snd (op_pick_next_task f c k)))"

definition env_ok :: "'x env \<Rightarrow> bool" where
  "env_ok env \<longleftrightarrow> (\<forall>cls. ops_ok (class_ext env cls))"

lemma keep_class_ext [keeps]:
  assumes "env_ok env"
  shows
    "keep k a \<Longrightarrow> keep k (op_enqueue_task (class_ext env cls) c p fl a)"
    "keep k a \<Longrightarrow> keep k (op_dequeue_task (class_ext env cls) c p fl a)"
    "keep k a \<Longrightarrow> keep k (op_yield_task (class_ext env cls) c a)"
    "keep k a \<Longrightarrow> keep k (op_check_preempt_curr (class_ext env cls) c p fl a)"
    "keep k a \<Longrightarrow> keep k (op_put_prev_task (class_ext env cls) c p a)"
    "keep k a \<Longrightarrow> keep k (op_set_curr_task (class_ext env cls) c a)"
    "keep k a \<Longrightarrow> keep k (op_task_tick (class_ext env cls) c p q a)"
    "keep k a \<Longrightarrow> keep k (op_switched_from (class_ext env cls) c p a)"
    "keep k a \<Longrightarrow> keep k (op_switched_to (class_ext env cls) c p a)"
    "keep k a \<Longrightarrow> keep k (op_prio_changed (class_ext env cls) c p pr a)"
    "keep k a \<Longrightarrow> keep k (op_task_woken (class_ext env cls) c p a)"
    "keep k a \<Longrightarrow> keep k (op_task_fork (class_ext env cls) p a)"
    "keep k a \<Longrightarrow> keep k (op_pre_schedule (class_ext env cls) c p a)"
    "keep k a \<Longrightarrow> keep k (op_post_schedule (class_ext env cls) c a)"
    "keep k a \<Longrightarrow> keep k (snd (op_pick_next_task (class_ext env cls) c a))"
  using assms by (auto simp: env_ok_def ops_ok_def intro: keep_trans)

text \<open>The hooks that are empty.\<close>

lemma keep_wrr_hooks [keeps]:
  "keep k a \<Longrightarrow> keep k (check_preempt_curr_wrr c p fl a)"
  "keep k a \<Longrightarrow> keep k (switched_from_wrr c p a)"
  "keep k a \<Longrightarrow> keep k (task_woken_wrr c p a)"
  "keep k a \<Longrightarrow> keep k (pre_schedule_wrr c p a)"
  "keep k a \<Longrightarrow> keep k (post_schedule_wrr c a)"
  "keep k a \<Longrightarrow> keep k (prio_changed_wrr c p pr a)"
  by simp_all


section \<open>Dispatch, queueing, picking\<close>

lemma keep_class_enqueue_task [keeps]:
  "\<lbrakk>env_ok env; keep k a\<rbrakk> \<Longrightarrow> keep k (class_enqueue_task env c p fl a)"
  unfolding class_enqueue_task_def by (assumption | rule keeps | rule keep_lets)+

lemma keep_class_dequeue_task [keeps]:
  "\<lbrakk>env_ok env; keep k a\<rbrakk> \<Longrightarrow> keep k (class_dequeue_task env c p fl a)"
  unfolding class_dequeue_task_def by (assumption | rule keeps | rule keep_lets)+

lemma keep_class_yield_task [keeps]:
  "\<lbrakk>env_ok env; keep k a\<rbrakk> \<Longrightarrow> keep k (class_yield_task env cls c a)"
  unfolding class_yield_task_def by (assumption | rule keeps | rule keep_lets)+

lemma keep_class_check_preempt [keeps]:
  "\<lbrakk>env_ok env; keep k a\<rbrakk> \<Longrightarrow> keep k (class_check_preempt env cls c p fl a)"
  unfolding class_check_preempt_def by (assumption | rule keeps | rule keep_lets)+

lemma keep_class_pick_next_task [keeps]:
  "\<lbrakk>env_ok env; keep k a\<rbrakk> \<Longrightarrow> keep k (snd (class_pick_next_task env cls c a))"
  unfolding class_pick_next_task_def by (assumption | rule keeps | rule keep_lets)+

lemma keep_class_put_prev_task [keeps]:
  "\<lbrakk>env_ok env; keep k a\<rbrakk> \<Longrightarrow> keep k (class_put_prev_task env c p a)"
  unfolding class_put_prev_task_def by (assumption | rule keeps | rule keep_lets)+

lemma keep_class_set_curr_task [keeps]:
  "\<lbrakk>env_ok env; keep k a\<rbrakk> \<Longrightarrow> keep k (class_set_curr_task env cls c a)"
  unfolding class_set_curr_task_def by (assumption | rule keeps | rule keep_lets)+

lemma keep_class_task_tick [keeps]:
  "\<lbrakk>env_ok env; keep k a\<rbrakk> \<Longrightarrow> keep k (class_task_tick env c p q a)"
  unfolding class_task_tick_def by (assumption | rule keeps | rule keep_lets)+

lemma keep_enqueue_task [keeps]:
  "\<lbrakk>env_ok env; keep k a\<rbrakk> \<Longrightarrow> keep k (enqueue_task env c p fl a)"
  unfolding enqueue_task_def by (assumption | rule keeps | rule keep_lets)+

lemma keep_dequeue_task [keeps]:
  "\<lbrakk>env_ok env; keep k a\<rbrakk> \<Longrightarrow> keep k (dequeue_task env c p fl a)"
  unfolding dequeue_task_def by (assumption | rule keeps | rule keep_lets)+

lemma keep_activate_task [keeps]:
  "\<lbrakk>env_ok env; keep k a\<rbrakk> \<Longrightarrow> keep k (activate_task env c p fl a)"
  unfolding activate_task_def by (assumption | rule keeps | rule keep_lets)+

lemma keep_deactivate_task [keeps]:
  "\<lbrakk>env_ok env; keep k a\<rbrakk> \<Longrightarrow> keep k (deactivate_task env c p fl a)"
  unfolding deactivate_task_def by (assumption | rule keeps | rule keep_lets)+

lemma keep_check_preempt_curr [keeps]:
  "\<lbrakk>env_ok env; keep k a\<rbrakk> \<Longrightarrow> keep k (check_preempt_curr env c p fl a)"
  unfolding check_preempt_curr_def by (assumption | rule keeps | rule keep_lets)+

lemma keep_put_prev_task [keeps]:
  "\<lbrakk>env_ok env; keep k a\<rbrakk> \<Longrightarrow> keep k (put_prev_task env c p a)"
  unfolding put_prev_task_def by (assumption | rule keeps | rule keep_lets)+

section \<open>Balancing\<close>

lemma keep_pick_next_pushable_task [keeps]:
  "keep k a \<Longrightarrow> keep k (snd (pick_next_pushable_task c a))"
  unfolding pick_next_pushable_task_def by (assumption | rule keeps | rule keep_lets)+

lemma keep_push_rt_retry [keeps]:
  "\<lbrakk>env_ok env; keep k a\<rbrakk> \<Longrightarrow> keep k (snd (push_rt_retry n env c p a))"
proof (induction n arbitrary: p a)
  case 0
  then show ?case by simp
next
  case (Suc n)
  show ?case
    unfolding push_rt_retry.simps by (assumption | rule Suc.prems | rule keeps | rule Suc.IH | rule keep_lets)+
qed

lemma keep_push_rt_task [keeps]:
  "\<lbrakk>env_ok env; keep k a\<rbrakk> \<Longrightarrow> keep k (snd (push_rt_task env c a))"
  unfolding push_rt_task_def by (assumption | rule keeps | rule keep_lets)+

lemma keep_push_rt_loop [keeps]:
  "\<lbrakk>env_ok env; keep k a\<rbrakk> \<Longrightarrow> keep k (push_rt_loop n env c a)"
proof (induction n arbitrary: a)
  case 0
  then show ?case by simp
next
  case (Suc n)
  show ?case
    unfolding push_rt_loop.simps by (assumption | rule Suc.prems | rule keeps | rule Suc.IH | rule keep_lets)+
qed

lemma keep_push_rt_tasks [keeps]:
  "\<lbrakk>env_ok env; keep k a\<rbrakk> \<Longrightarrow> keep k (push_rt_tasks env c a)"
  unfolding push_rt_tasks_def by (assumption | rule keeps | rule keep_lets)+

lemma keep_pull_rt_from [keeps]:
  "\<lbrakk>env_ok env; keep k (snd a)\<rbrakk> \<Longrightarrow> keep k (snd (pull_rt_from env t a src))"
  unfolding pull_rt_from_def by (assumption | rule keeps | rule keep_lets)+

lemma keep_pull_rt_task [keeps]:
  "\<lbrakk>env_ok env; keep k a\<rbrakk> \<Longrightarrow> keep k (snd (pull_rt_task env t a))"
  unfolding pull_rt_task_def by (assumption | rule keeps | rule keep_lets)+

lemma keep_move_wrr_task [keeps]:
  "\<lbrakk>env_ok env; keep k a\<rbrakk> \<Longrightarrow> keep k (move_wrr_task env d s p a)"
  unfolding move_wrr_task_def by (assumption | rule keeps | rule keep_lets)+

lemma keep_pull_wrr_scan [keeps]:
  "\<lbrakk>env_ok env; keep k a\<rbrakk> \<Longrightarrow> keep k (pull_wrr_scan env d cs a)"
proof (induction cs arbitrary: a)
  case Nil
  then show ?case by simp
next
  case (Cons c cs)
  show ?case
    unfolding pull_wrr_scan.simps by (assumption | rule Cons.prems | rule keeps | rule Cons.IH | rule keep_lets)+
qed

lemma keep_pull_wrr_task [keeps]:
  "\<lbrakk>env_ok env; keep k a\<rbrakk> \<Longrightarrow> keep k (pull_wrr_task env d a)"
  unfolding pull_wrr_task_def by (assumption | rule keeps | rule keep_lets)+

lemma keep_pre_schedule_rt [keeps]:
  "\<lbrakk>env_ok env; keep k a\<rbrakk> \<Longrightarrow> keep k (pre_schedule_rt env c p a)"
  unfolding pre_schedule_rt_def by (assumption | rule keeps | rule keep_lets)+

lemma keep_post_schedule_rt [keeps]:
  "\<lbrakk>env_ok env; keep k a\<rbrakk> \<Longrightarrow> keep k (post_schedule_rt env c a)"
  unfolding post_schedule_rt_def by (assumption | rule keeps | rule keep_lets)+

lemma keep_task_woken_rt [keeps]:
  "\<lbrakk>env_ok env; keep k a\<rbrakk> \<Longrightarrow> keep k (task_woken_rt env c p a)"
  unfolding task_woken_rt_def by (assumption | rule keeps | rule keep_lets)+

lemma keep_switched_from_rt [keeps]:
  "\<lbrakk>env_ok env; keep k a\<rbrakk> \<Longrightarrow> keep k (switched_from_rt env c p a)"
  unfolding switched_from_rt_def by (assumption | rule keeps | rule keep_lets)+

lemma keep_switched_to_rt [keeps]:
  "\<lbrakk>env_ok env; keep k a\<rbrakk> \<Longrightarrow> keep k (switched_to_rt env c p a)"
  unfolding switched_to_rt_def by (assumption | rule keeps | rule keep_lets)+

lemma keep_prio_changed_rt [keeps]:
  "\<lbrakk>env_ok env; keep k a\<rbrakk> \<Longrightarrow> keep k (prio_changed_rt env c p pr a)"
  unfolding prio_changed_rt_def by (assumption | rule keeps | rule keep_lets)+

lemma keep_class_switched_from [keeps]:
  "\<lbrakk>env_ok env; keep k a\<rbrakk> \<Longrightarrow> keep k (class_switched_from env cls c p a)"
  unfolding class_switched_from_def by (assumption | rule keeps | rule keep_lets)+

lemma keep_class_switched_to [keeps]:
  "\<lbrakk>env_ok env; keep k a\<rbrakk> \<Longrightarrow> keep k (class_switched_to env cls c p a)"
  unfolding class_switched_to_def by (assumption | rule keeps | rule keep_lets)+

lemma keep_class_prio_changed [keeps]:
  "\<lbrakk>env_ok env; keep k a\<rbrakk> \<Longrightarrow> keep k (class_prio_changed env cls c p pr a)"
  unfolding class_prio_changed_def by (assumption | rule keeps | rule keep_lets)+

lemma keep_class_task_woken [keeps]:
  "\<lbrakk>env_ok env; keep k a\<rbrakk> \<Longrightarrow> keep k (class_task_woken env cls c p a)"
  unfolding class_task_woken_def by (assumption | rule keeps | rule keep_lets)+

lemma keep_pre_schedule [keeps]:
  "\<lbrakk>env_ok env; keep k a\<rbrakk> \<Longrightarrow> keep k (pre_schedule env c p a)"
  unfolding pre_schedule_def by (assumption | rule keeps | rule keep_lets)+

lemma keep_post_schedule_rq [keeps]:
  "\<lbrakk>env_ok env; keep k a\<rbrakk> \<Longrightarrow> keep k (post_schedule_rq env c a)"
  unfolding post_schedule_rq_def by (assumption | rule keeps | rule keep_lets)+

lemma keep_check_class_changed [keeps]:
  "\<lbrakk>env_ok env; keep k a\<rbrakk> \<Longrightarrow> keep k (check_class_changed env c p cls pr a)"
  unfolding check_class_changed_def by (assumption | rule keeps | rule keep_lets)+

section \<open>The contract of a class\<close>

text \<open>
  What the core relies on when it calls into a class between two changes of a task's parameters,
  as an interface: the class sets no parameters of any task. A run of calls, in any order, then
  sets none either. Both classes of the repository provide it, without assumptions on the rest.
\<close>

datatype class_call =
  Call_enqueue cpu tid u32 | Call_dequeue cpu tid u32 | Call_yield cpu | Call_put_prev cpu tid
  | Call_set_curr cpu | Call_tick cpu tid int

record 'x class_calls =
  cc_enqueue :: "cpu \<Rightarrow> tid \<Rightarrow> u32 \<Rightarrow> 'x kernel \<Rightarrow> 'x kernel"
  cc_dequeue :: "cpu \<Rightarrow> tid \<Rightarrow> u32 \<Rightarrow> 'x kernel \<Rightarrow> 'x kernel"
  cc_yield :: "cpu \<Rightarrow> 'x kernel \<Rightarrow> 'x kernel"
  cc_put_prev :: "cpu \<Rightarrow> tid \<Rightarrow> 'x kernel \<Rightarrow> 'x kernel"
  cc_set_curr :: "cpu \<Rightarrow> 'x kernel \<Rightarrow> 'x kernel"
  cc_tick :: "cpu \<Rightarrow> tid \<Rightarrow> int \<Rightarrow> 'x kernel \<Rightarrow> 'x kernel"

fun class_call_step :: "'x class_calls \<Rightarrow> class_call \<Rightarrow> 'x kernel \<Rightarrow> 'x kernel" where
  "class_call_step cc (Call_enqueue c p fl) k = cc_enqueue cc c p fl k"
| "class_call_step cc (Call_dequeue c p fl) k = cc_dequeue cc c p fl k"
| "class_call_step cc (Call_yield c) k = cc_yield cc c k"
| "class_call_step cc (Call_put_prev c p) k = cc_put_prev cc c p k"
| "class_call_step cc (Call_set_curr c) k = cc_set_curr cc c k"
| "class_call_step cc (Call_tick c p q) k = cc_tick cc c p q k"

locale keeping_class =
  fixes cc :: "'x class_calls"
  assumes enqueue: "keep k (cc_enqueue cc c p fl k)"
    and dequeue: "keep k (cc_dequeue cc c p fl k)"
    and yield: "keep k (cc_yield cc c k)"
    and put_prev: "keep k (cc_put_prev cc c p k)"
    and set_curr: "keep k (cc_set_curr cc c k)"
    and tick: "keep k (cc_tick cc c p q k)"
begin

lemma step_keeps: "keep k (class_call_step cc call k)"
  by (cases call) (simp_all add: enqueue dequeue yield put_prev set_curr tick)

lemma run_keeps: "keep k (fold (class_call_step cc) calls k)"
  by (induction calls arbitrary: k) (auto intro: keep_refl keep_trans step_keeps)

text \<open>The pattern of every change of parameters: take the task out, change it, put it back.\<close>

lemma change_between:
  assumes "\<And>a b. keep a b \<Longrightarrow> keep (f a) (f b)"
  shows "keep (f k) (fold (class_call_step cc) after_calls
                       (f (fold (class_call_step cc) before_calls k)))"
  using assms run_keeps keep_trans by blast

end

definition rt_calls :: "'x env \<Rightarrow> 'x class_calls" where
  "rt_calls env = \<lparr>cc_enqueue = enqueue_task_rt env, cc_dequeue = dequeue_task_rt env,
     cc_yield = yield_task_rt, cc_put_prev = put_prev_task_rt env,
     cc_set_curr = set_curr_task_rt env, cc_tick = task_tick_rt env\<rparr>"

definition wrr_calls :: "'x env \<Rightarrow> 'x class_calls" where
  "wrr_calls env = \<lparr>cc_enqueue = enqueue_task_wrr env, cc_dequeue = dequeue_task_wrr env,
     cc_yield = yield_task_wrr, cc_put_prev = put_prev_task_wrr env,
     cc_set_curr = set_curr_task_wrr, cc_tick = task_tick_wrr env\<rparr>"

interpretation rt_keeps: keeping_class "rt_calls env" for env
  by unfold_locales (simp_all add: rt_calls_def, (rule keeps)+)

interpretation wrr_keeps: keeping_class "wrr_calls env" for env
  by unfold_locales (simp_all add: wrr_calls_def, (rule keeps)+)

section \<open>Picking, and the statistics of wakeups\<close>

lemma keep_ttwu_stat [keeps]: "keep k a \<Longrightarrow> keep k (ttwu_stat env p c fl a)"
  unfolding ttwu_stat_def by (assumption | rule keeps | rule keep_lets)+

lemma keep_pick_classes [keeps]: "\<lbrakk>env_ok env; keep k a\<rbrakk> \<Longrightarrow> keep k (snd (pick_classes env cs c a))"
proof (induction cs arbitrary: a)
  case Nil
  then show ?case by (simp add: keeps)
next
  case (Cons cls cs)
  note p = keep_class_pick_next_task [OF Cons.prems, of cls c]
  show ?case
    using p Cons.IH [OF Cons.prems(1), of "snd (class_pick_next_task env cls c a)"]
    by (auto split: prod.splits option.splits)
qed

lemma keep_pick_next_task [keeps]: "\<lbrakk>env_ok env; keep k a\<rbrakk> \<Longrightarrow> keep k (snd (pick_next_task env c a))"
proof -
  assume a: "env_ok env" "keep k a"
  note p = keep_class_pick_next_task [OF a, of fair_sched_class c]
  show ?thesis unfolding pick_next_task_def
    using p keep_pick_classes [OF a] keep_pick_classes [OF a(1) p]
    by (auto split: prod.splits option.splits)
qed

end
