(* ===== verification/Queue_Props.thy ===== *)
theory Queue_Props
  imports Sched_Frame Wrr_Props
begin

text \<open>
  Properties of the core's queue operations across the classes: who preempts whom, in which order
  the classes are asked, what a pull moves, what is charged, and what no class operation changes.
\<close>

section \<open>Preemption\<close>

text \<open>
  Preemption between classes. When a task is woken on a cpu whose current task is of another
  class, the current task is marked for rescheduling exactly when its class is below the woken task's
  in the order stop, RT, WRR, fair, idle; a WRR task never preempts a WRR task. The next clock
  update is skipped exactly when the current task is queued and marked. Nothing else changes.
\<close>

theorem check_preempt_curr_spec:
  assumes "linux_class_order env"
    and "class_of (tasks k (curr_of k c)) \<noteq> class_of (tasks k p)
         \<or> class_of (tasks k p) = wrr_sched_class"
  shows "let q = curr_of k c; k' = check_preempt_curr env c p fl k;
             marked = (need_resched (tasks k q) \<or> class_of (tasks k q) < class_of (tasks k p)) in
    tasks k' = (tasks k)(q := (tasks k q)\<lparr>need_resched := marked\<rparr>)
    \<and> rqs k' = (rqs k)(c := (rqs k c)\<lparr>skip_clock_update :=
         (if on_rq (tasks k q) \<and> marked then 1 else skip_clock_update (rqs k c))\<rparr>)
    \<and> wrr_q k' = wrr_q k \<and> rt_q k' = rt_q k \<and> rt_rqs k' = rt_rqs k \<and> rt_ses k' = rt_ses k"
proof (cases "class_of (tasks k (curr_of k c)) = class_of (tasks k p)")
  case True
  with assms(2) show ?thesis
    by (auto simp: check_preempt_curr_def Let_def class_check_preempt_def less_sched_class_def)
next
  case False
  then show ?thesis
    by (auto simp: check_preempt_curr_def Let_def preempt_scan_linux [OF assms(1)] resched_task_def)
qed

theorem check_preempt_curr_spec_witness:
  "need_resched (tasks (check_preempt_curr env0 0 2 0 (upd_task 2 (\<lambda>t. t\<lparr>class_of := wrr_sched_class\<rparr>) k0)) 0)"
proof -
  let ?k = "upd_task 2 (\<lambda>t. t\<lparr>class_of := wrr_sched_class\<rparr>) k0"
  have a: "class_of (tasks ?k (curr_of ?k 0)) \<noteq> class_of (tasks ?k 2)
      \<or> class_of (tasks ?k 2) = wrr_sched_class" by simp
  have b: "curr_of ?k 0 = 0" "class_of (tasks ?k 0) < class_of (tasks ?k 2)" by code_simp+
  show ?thesis
    using check_preempt_curr_spec [OF env0_linux a, of 0] b by (simp add: Let_def)
qed

section \<open>Picking\<close>

text \<open>
  Where the WRR class stands. Unless all running tasks are the fair class's, the cpu picks the
  stop task if there is one, else what the RT class offers, and else the head of the WRR queue: a
  queued WRR task runs before any fair task and only when the stop and RT classes offer nothing.
\<close>

theorem pick_next_task_order:
  assumes "linux_class_order env" "nr_running (rqs k c) \<noteq> cfs_h_nr_running (rqs k c)"
    and stop: "op_pick_next_task (class_ext env stop_sched_class) c k = (st, k1)"
    and rt: "pick_next_task_rt env c k1 = (rt, k2)"
    and wrr: "wrr_inv env k2" "length (elems (wrr_q k2) c) < 2 ^ 32" "elems (wrr_q k2) c = w # ws"
  shows "pick_next_task env c k =
    (case st of Some p \<Rightarrow> (Some p, k1)
     | None \<Rightarrow> (case rt of Some p \<Rightarrow> (Some p, k2) | None \<Rightarrow> (Some w, k2)))"
proof -
  have "pick_next_task_wrr c k2 = Some w"
    using pick_next_task_wrr_head [of env c k2] wrr by (simp add: wrr_ok_def)
  then show ?thesis
    using assms(2) stop rt
    by (simp add: pick_next_task_def for_each_class_linux [OF assms(1)] class_pick_next_task_def
        split: option.split)
qed

text \<open>Task 2 waits in the WRR class on cpu 0; the stop class is idle.\<close>

definition env_no_stop :: "unit env" where
  "env_no_stop = env0\<lparr>class_ext := (\<lambda>cls. if cls = stop_sched_class
     then ops0\<lparr>op_pick_next_task := (\<lambda>c k. (None, k))\<rparr> else ops0)\<rparr>"

definition k_wrr2 :: "unit kernel" where
  "k_wrr2 = enqueue_task_wrr env0 0 2 0 (upd_task 2 (\<lambda>t. t\<lparr>class_of := wrr_sched_class\<rparr>) k0)"

lemma wrr_inv_no_queue:
  assumes "wrr_q k = no_lists" "\<And>c. wrr_nr_running (rqs k c) = 0" "\<And>c. wrr_total_weight (rqs k c) = 0"
  shows "wrr_inv env k"
  using assms by (simp add: wrr_inv_def queue_weight_def no_lists_def lists_wf_def)

lemma wrr_inv_k0_upd: "wrr_inv env0 (upd_task 2 f k0)"
  by (rule wrr_inv_no_queue; simp add: k0_def rq0_def)

lemma wrr_inv_k_wrr2: "wrr_inv env0 k_wrr2"
  unfolding k_wrr2_def by (rule wrr_inv_enqueue [OF wrr_inv_k0_upd]) (simp add: no_lists_def)

lemma elems_k_wrr2: "elems (wrr_q k_wrr2) 0 = [2]"
  by (simp add: k_wrr2_def enqueue_task_wrr_effect(1) no_lists_def)

lemma wrr_inv_env: "\<lbrakk>wrr_inv env k; \<And>g. read_group_path env' g k = read_group_path env g k\<rbrakk> \<Longrightarrow> wrr_inv env' k"
  by (simp add: wrr_inv_def group_weight_def)

theorem pick_next_task_order_witness: "fst (pick_next_task env_no_stop 0 k_wrr2) = Some 2"
proof -
  let ?k2 = "snd (pick_next_task_rt env_no_stop 0 k_wrr2)"
  have lin: "linux_class_order env_no_stop"
    by (simp add: linux_class_order_def env_no_stop_def env0_def)
  have nr: "nr_running (rqs k_wrr2 0) \<noteq> cfs_h_nr_running (rqs k_wrr2 0)" by code_simp
  have st: "op_pick_next_task (class_ext env_no_stop stop_sched_class) 0 k_wrr2 = (None, k_wrr2)"
    by (simp add: env_no_stop_def)
  have n: "rt_nr_running (rt_rqs k_wrr2 (root_rt 0)) = 0" by code_simp
  then have rt: "pick_next_task_rt env_no_stop 0 k_wrr2 = (None, ?k2)"
    by (simp add: pick_next_task_rt_def pick_next_task_rt1_def Let_def)
  have q: "wrr_q ?k2 = wrr_q k_wrr2" "tasks ?k2 = tasks k_wrr2" "tgs ?k2 = tgs k_wrr2"
    "\<And>c. wrr_nr_running (rqs ?k2 c) = wrr_nr_running (rqs k_wrr2 c)"
    "\<And>c. wrr_total_weight (rqs ?k2 c) = wrr_total_weight (rqs k_wrr2 c)"
    using n by (simp_all add: pick_next_task_rt_def pick_next_task_rt1_def Let_def)
  have "read_group_path env_no_stop g k = read_group_path env0 g k" for g and k :: "unit kernel"
    by (simp add: read_group_path_def env_no_stop_def Let_def split: prod.split)
  then have "wrr_inv env_no_stop k_wrr2" by (rule wrr_inv_env [OF wrr_inv_k_wrr2])
  then have "wrr_inv env_no_stop ?k2" by (rule wrr_inv_cong) (simp_all add: q)
  then show ?thesis
    using pick_next_task_order [OF lin nr st rt, of 2 "[]"] by (simp add: q elems_k_wrr2)
qed

section \<open>Pulling\<close>

lemma untouched_trans: "\<lbrakk>wrr_untouched a b; wrr_untouched b c\<rbrakk> \<Longrightarrow> wrr_untouched a c"
  by (simp add: wrr_untouched_def)

lemma untouched_refl: "wrr_untouched k k"
  by (simp add: wrr_untouched_def)

lemma untouched_clock: "wrr_untouched k (update_rq_clock c k)"
  by (simp add: wrr_untouched_def update_rq_clock_def update_rq_clock_task_def Let_def)

lemma untouched_nr_uninterruptible:
  "wrr_untouched k (upd_rq c (\<lambda>r. r\<lparr>nr_uninterruptible := f r\<rparr>) k)"
  by (simp add: wrr_untouched_def)

lemma untouched_set_task_cpu: "wrr_untouched k (set_task_cpu env p c k)"
  by (simp add: wrr_untouched_def set_task_cpu_def set_task_cpu_raw_def set_task_rq_def Let_def)

lemma untouched_check_preempt:
  assumes "class_of (tasks k p) = wrr_sched_class"
  shows "wrr_untouched k (check_preempt_curr env c p fl k)"
  using assms
  by (auto simp: wrr_untouched_def check_preempt_curr_def Let_def class_check_preempt_def resched_task_def)

text \<open>What moving a queued task of the class to another cpu amounts to.\<close>

lemma move_wrr_task_effect:
  assumes inv: "wrr_inv env k" and on: "home (wrr_q k) p = Some src"
    and cls: "class_of (tasks k p) = wrr_sched_class"
  shows "wrr_inv env (move_wrr_task env dst src p k)"
    and "wrr_q (move_wrr_task env dst src p k) = list_add_tail p dst (list_del_init p (wrr_q k))"
    and "config_smp env \<Longrightarrow> task_cpu (tasks (move_wrr_task env dst src p k) p) = dst"
proof -
  define a where "a = update_rq_clock src (if task_contributes_to_load k p
      then upd_rq src (\<lambda>r. r\<lparr>nr_uninterruptible := nr_uninterruptible r + 1\<rparr>) k else k)"
  define b where "b = dequeue_task_wrr env src p 0 a"
  define d where "d = set_task_cpu env p dst b"
  define e where "e = update_rq_clock dst (if task_contributes_to_load d p
      then upd_rq dst (\<lambda>r. r\<lparr>nr_uninterruptible := nr_uninterruptible r - 1\<rparr>) d else d)"
  define f where "f = enqueue_task_wrr env dst p 0 e"
  have ua: "wrr_untouched k a"
    unfolding a_def by (rule untouched_trans [OF _ untouched_clock])
      (simp add: wrr_untouched_def)
  have ud: "wrr_untouched b d" unfolding d_def by (rule untouched_set_task_cpu)
  have ue: "wrr_untouched d e"
    unfolding e_def by (rule untouched_trans [OF _ untouched_clock])
      (simp add: wrr_untouched_def)
  have clock: "tasks (update_rq_clock c x) = tasks x" for c and x :: "'x kernel"
    by (simp add: update_rq_clock_def update_rq_clock_task_def Let_def)
  have ta: "tasks a = tasks k" by (simp add: a_def clock)
  have te: "tasks e = tasks d" by (simp add: e_def clock)
  have ca: "class_of (tasks a p) = wrr_sched_class" using cls ta by simp
  have cb: "class_of (tasks b p) = wrr_sched_class" using ca by (simp add: b_def dequeue_task_wrr_effect(3))
  have ce: "class_of (tasks e p) = wrr_sched_class"
    using cb te by (simp add: d_def set_task_cpu_def set_task_cpu_raw_def set_task_rq_def Let_def)
  have cf: "class_of (tasks f p) = wrr_sched_class" using ce by (simp add: f_def enqueue_task_wrr_effect(3))
  have eq: "move_wrr_task env dst src p k = check_preempt_curr env dst p 0 f"
    unfolding move_wrr_task_def Let_def deactivate_task_def dequeue_task_def activate_task_def
      enqueue_task_def class_dequeue_task_def class_enqueue_task_def
      a_def [symmetric] ca sched_class.case b_def [symmetric] d_def [symmetric] e_def [symmetric] ce
      f_def [symmetric]
    by (rule refl)
  have uf: "wrr_untouched f (check_preempt_curr env dst p 0 f)"
    by (rule untouched_check_preempt [OF cf])
  have qa: "wrr_q a = wrr_q k" using ua by (simp add: wrr_untouched_def)
  have qb: "wrr_q b = list_del_init p (wrr_q k)" by (simp add: b_def dequeue_task_wrr_effect(1) qa)
  have qe: "wrr_q e = list_del_init p (wrr_q k)" using ud ue qb by (simp add: wrr_untouched_def)
  have "wrr_inv env a" by (rule wrr_inv_other [OF inv ua])
  then have "wrr_inv env b" unfolding b_def using on by (intro wrr_inv_dequeue) (simp_all add: qa)
  then have "wrr_inv env e" using wrr_inv_other ud ue by blast
  then have "wrr_inv env f" unfolding f_def by (rule wrr_inv_enqueue) (simp_all add: qe)
  then show "wrr_inv env (move_wrr_task env dst src p k)"
    unfolding eq by (rule wrr_inv_other [OF _ uf])
  show "wrr_q (move_wrr_task env dst src p k) = list_add_tail p dst (list_del_init p (wrr_q k))"
    unfolding eq using uf qe by (simp add: wrr_untouched_def f_def enqueue_task_wrr_effect(1))
  show "task_cpu (tasks (move_wrr_task env dst src p k) p) = dst" if smp: "config_smp env"
  proof -
    have "task_cpu (tasks d p) = dst"
      using smp by (simp add: d_def set_task_cpu_def set_task_cpu_raw_def set_task_rq_def Let_def)
    then have "task_cpu (tasks f p) = dst" by (simp add: f_def enqueue_task_wrr_effect(3) te)
    then show ?thesis
      unfolding eq using cf
      by (auto simp: check_preempt_curr_def Let_def class_check_preempt_def resched_task_def)
  qed
qed

text \<open>The task a cpu would give away, and the first cpu that would.\<close>

lemma pull_wrr_scan_cases:
  "pull_wrr_scan env dst cs k = k
     \<and> (\<forall>src \<in> set cs. src \<noteq> dst \<longrightarrow> pull_wrr_candidate env dst src k = None)
   \<or> (\<exists>src p. src \<in> set cs \<and> src \<noteq> dst \<and> pull_wrr_candidate env dst src k = Some p
        \<and> pull_wrr_scan env dst cs k = move_wrr_task env dst src p k)"
proof (induction cs)
  case Nil
  then show ?case by simp
next
  case (Cons c cs)
  have "list_empty c (wrr_q k) \<Longrightarrow> pull_wrr_candidate env dst c k = None"
    by (simp add: pull_wrr_candidate_def list_empty_def)
  with Cons show ?case by (auto split: option.split)
qed

lemma find_SomeD: "find P xs = Some x \<Longrightarrow> x \<in> set xs \<and> P x"
  by (induction xs) (auto split: if_splits)

lemma find_NoneD: "\<lbrakk>find P xs = None; x \<in> set xs\<rbrakk> \<Longrightarrow> \<not> P x"
  by (induction xs) (auto split: if_splits)

definition pull_ready :: "'x env \<Rightarrow> 'x kernel \<Rightarrow> cpu \<Rightarrow> cpu \<Rightarrow> tid \<Rightarrow> bool" where
  "pull_ready env k dst src p \<longleftrightarrow>
     src < nr_cpu_ids env \<and> cpu_online_mask k src \<and> src \<noteq> dst
     \<and> p \<in> set (elems (wrr_q k) src) \<and> \<not> task_running env src p k
     \<and> policy (tasks k p) = SCHED_WRR \<and> cpus_allowed (tasks k p) dst \<and> on_rq (tasks k p)"

text \<open>
  C26. Pulling. In a state that satisfies the class's invariant and where queued tasks are of the WRR
  class, \<open>pull_wrr_task\<close> either changes nothing, and then this cpu is offline or no other online cpu
  queues a WRR task that is not running, may run here and is ready; or it moves exactly one such task
  from another online cpu to the tail of this cpu's queue, leaving the order of all other tasks as it
  was. Either way the invariant holds afterwards.
\<close>

theorem pull_wrr_task_moves_one:
  assumes inv: "wrr_inv env k" and smp: "config_smp env"
    and cls: "\<And>c p. p \<in> set (elems (wrr_q k) c) \<Longrightarrow> class_of (tasks k p) = wrr_sched_class"
    and k': "k' = pull_wrr_task env dst k"
  shows "wrr_inv env k'
    \<and> ((k' = k \<and> (cpu_online_mask k dst \<longrightarrow> (\<forall>src p. \<not> pull_ready env k dst src p)))
       \<or> (\<exists>src p. pull_ready env k dst src p \<and> task_cpu (tasks k' p) = dst
           \<and> elems (wrr_q k') src = remove1 p (elems (wrr_q k) src)
           \<and> elems (wrr_q k') dst = elems (wrr_q k) dst @ [p]
           \<and> (\<forall>c. c \<noteq> src \<and> c \<noteq> dst \<longrightarrow> elems (wrr_q k') c = elems (wrr_q k) c)))"
proof (cases "cpu_online_mask k dst")
  case False
  then show ?thesis using inv by (simp add: k' pull_wrr_task_def)
next
  case True
  then have scan: "k' = pull_wrr_scan env dst (for_each_cpu env (cpu_online_mask k)) k"
    by (simp add: k' pull_wrr_task_def)
  note wf = wrr_invD(1) [OF inv]
  consider (none) "k' = k" "\<And>src. \<lbrakk>src < nr_cpu_ids env; cpu_online_mask k src; src \<noteq> dst\<rbrakk>
        \<Longrightarrow> pull_wrr_candidate env dst src k = None"
    | (moved) src p where "src < nr_cpu_ids env" "cpu_online_mask k src" "src \<noteq> dst"
        "pull_wrr_candidate env dst src k = Some p" "k' = move_wrr_task env dst src p k"
    using pull_wrr_scan_cases [of env dst "for_each_cpu env (cpu_online_mask k)" k]
    unfolding scan set_for_each_cpu by blast
  then show ?thesis
  proof cases
    case none
    have "\<not> pull_ready env k dst src p" for src p
      using none(2) [of src] find_NoneD unfolding pull_ready_def pull_wrr_candidate_def by fast
    with none(1) inv show ?thesis by simp
  next
    case moved
    have p: "p \<in> set (elems (wrr_q k) src)" and r: "pull_ready env k dst src p"
      using find_SomeD [OF moved(4) [unfolded pull_wrr_candidate_def]] moved(1-3)
      unfolding pull_ready_def by auto
    have on: "home (wrr_q k) p = Some src" by (rule wrr_inv_home [OF inv p])
    note m = move_wrr_task_effect [OF inv on cls [OF p], of dst]
    have other: "p \<notin> set (elems (wrr_q k) c)" if "c \<noteq> src" for c
      using that on wf_home [OF wf, of p c] by simp
    show ?thesis
      using m r smp moved(3,5) wf other
      by (intro conjI disjI2 exI [of _ src] exI [of _ p])
         (auto simp: elems_list_del_init_wf remove1_idem)
  qed
qed

definition k_pull :: "unit kernel" where
  "k_pull = enqueue_task_wrr env0 0 2 0
     (upd_task 2 (\<lambda>t. t\<lparr>class_of := wrr_sched_class, policy := 6, on_rq := True\<rparr>) k0)"

theorem pull_wrr_task_moves_one_witness: "elems (wrr_q (pull_wrr_task env0 1 k_pull)) 1 = [2]"
proof -
  have inv: "wrr_inv env0 k_pull"
    unfolding k_pull_def by (rule wrr_inv_enqueue [OF wrr_inv_k0_upd]) (simp add: no_lists_def)
  have q: "elems (wrr_q k_pull) c = (if c = 0 then [2] else [])" for c
    by (simp add: k_pull_def enqueue_task_wrr_effect(1) no_lists_def)
  have smp: "config_smp env0" by (simp add: env0_def)
  have c2: "class_of (tasks k_pull 2) = wrr_sched_class" by code_simp
  then have cls: "class_of (tasks k_pull p) = wrr_sched_class" if "p \<in> set (elems (wrr_q k_pull) c)" for c p
    using that by (simp add: q split: if_splits)
  have on: "cpu_online_mask k_pull 1" by code_simp
  have "pull_ready env0 k_pull 1 0 2" unfolding pull_ready_def q by code_simp
  moreover note pull_wrr_task_moves_one [OF inv smp _ refl, where dst = 1] cls
  ultimately show ?thesis
    using on by (auto simp: q pull_ready_def split: if_splits)
qed

section \<open>Accounting and bookkeeping\<close>

text \<open>
  Charging. While the accounting is active, \<open>cpuacct_charge\<close> adds the time to the usage of the
  task's group and of each of its ancestors, once each and on the task's cpu only; the usage of
  every other group, and on every other cpu, is as before.
\<close>

theorem cpuacct_charge_ancestors:
  assumes "cas_wf k" "cpuacct_active k"
  shows "ca_cpuusage (cas (cpuacct_charge p d k) b) c =
     ca_cpuusage (cas k b) c +
     (if b \<in> set (ca_chain k (task_ca k p)) \<and> c = task_cpu (tasks k p) then d else 0)
   \<and> distinct (ca_chain k (task_ca k p))
   \<and> (\<forall>g. task_ca k p = Some g \<longrightarrow> g \<in> set (ca_chain k (task_ca k p)))"
  using cpuacct_charge_usage [OF assms, of p d b c] distinct_ca_chain [OF assms(1)]
  by (auto simp: ca_chain_def)

definition k_ca :: "unit kernel" where
  "k_ca = k0\<lparr>cas := (\<lambda>a. \<lparr>ca_cpuusage = (\<lambda>_. 5), ca_parent = (if a = 1 then Some 0 else None)\<rparr>),
     task_ca := (\<lambda>_. Some 1)\<rparr>"

theorem cpuacct_charge_ancestors_witness:
  "ca_cpuusage (cas (cpuacct_charge 2 7 k_ca) 0) 0 = 12 \<and> ca_cpuusage (cas (cpuacct_charge 2 7 k_ca) 2) 0 = 5"
proof -
  have wf: "cas_wf k_ca" "cpuacct_active k_ca" by (simp_all add: cas_wf_def k_ca_def k0_def)
  have "ca_chain k_ca (task_ca k_ca 2) = [1, 0]" "task_cpu (tasks k_ca 2) = 0"
    by (simp_all add: ca_chain_def k_ca_def k0_def task0_def)
  with cpuacct_charge_ancestors [OF wf, of 2 7 0 0] cpuacct_charge_ancestors [OF wf, of 2 7 2 0]
  show ?thesis by (simp add: k_ca_def)
qed

text \<open>
  The classes leave the parameters of all tasks alone. No sequence of enqueueing, dequeueing,
  yielding, putting back, taking up and ticking, of the RT class and of the WRR class, whatever the
  tasks and cpus, changes the policy, any of the priorities, the class, group, affinity, state, flags
  or \<open>on_rq\<close> of any task.
\<close>

theorem class_operations_keep_parameters:
  "params_of (tasks (fold (class_call_step (rt_calls env)) calls k) p) = params_of (tasks k p)
   \<and> params_of (tasks (fold (class_call_step (wrr_calls env)) calls k) p) = params_of (tasks k p)"
  using keepD [OF rt_keeps.run_keeps] keepD [OF wrr_keeps.run_keeps] by blast

end
