(* ===== verification/Tg_Walk.thy ===== *)
theory Tg_Walk
  imports Kernel_Prelude
begin

text \<open>
  \<open>walk_tg_tree_from\<close> of \<open>core.c\<close>: the traversal of the tree of task groups, which the source
  writes as one loop with jumps between the labels \<open>down\<close> and \<open>up\<close>. It is modelled as that loop,
  and shown to be the recursive traversal: \<open>down\<close> before the children, \<open>up\<close> after them, stopping
  at the first error.
\<close>

section \<open>The loop\<close>

text \<open>
  Where the loop is: at the label \<open>down\<close> with the node it enters, or in
  \<open>list_for_each_entry\<close> over the rest of a node's children (after a jump to \<open>up\<close>, the rest behind
  the child just left).
\<close>

datatype walk_pc = Down tgid | Iter tgid "tgid list"

definition siblings_after :: "tgid \<Rightarrow> tgid list \<Rightarrow> tgid list" where
  "siblings_after c cs = tl (dropWhile (\<lambda>d. d \<noteq> c) cs)"

partial_function (option) walk_loop ::
  "(tgid \<Rightarrow> 's \<Rightarrow> int \<times> 's) \<Rightarrow> (tgid \<Rightarrow> 's \<Rightarrow> int \<times> 's) \<Rightarrow> (tgid \<Rightarrow> tgid list) \<Rightarrow>
   (tgid \<Rightarrow> tgid option) \<Rightarrow> tgid \<Rightarrow> walk_pc \<Rightarrow> 's \<Rightarrow> (int \<times> 's) option" where
  "walk_loop down up children parent root pc s =
     (case pc of
        Down g \<Rightarrow>
          (case down g s of
             (ret, s) \<Rightarrow>
               if ret \<noteq> 0 then Some (ret, s)
               else walk_loop down up children parent root (Iter g (children g)) s)
      | Iter g (c # cs) \<Rightarrow> walk_loop down up children parent root (Down c) s
      | Iter g [] \<Rightarrow>
          (case up g s of
             (ret, s) \<Rightarrow>
               if ret \<noteq> 0 \<or> g = root then Some (ret, s)
               else (case parent g of
                       None \<Rightarrow> Some (ret, s)
                     | Some q \<Rightarrow>
                         walk_loop down up children parent root
                           (Iter q (siblings_after g (children q))) s)))"

declare walk_loop.simps [code]

definition walk_tg_tree_from ::
  "(tgid \<Rightarrow> tgid list) \<Rightarrow> (tgid \<Rightarrow> tgid option) \<Rightarrow> tgid \<Rightarrow>
   (tgid \<Rightarrow> 's \<Rightarrow> int \<times> 's) \<Rightarrow> (tgid \<Rightarrow> 's \<Rightarrow> int \<times> 's) \<Rightarrow> 's \<Rightarrow> (int \<times> 's) option" where
  "walk_tg_tree_from children parent root down up s =
     walk_loop down up children parent root (Down root) s"

definition tg_nop :: "tgid \<Rightarrow> 's \<Rightarrow> int \<times> 's" where
  "tg_nop g s = (0, s)"

section \<open>The recursive traversal\<close>

datatype tg_tree = Tg (tg_root: tgid) (tg_subs: "tg_tree list")

fun walk_rec :: "(tgid \<Rightarrow> 's \<Rightarrow> int \<times> 's) \<Rightarrow> (tgid \<Rightarrow> 's \<Rightarrow> int \<times> 's) \<Rightarrow> tg_tree \<Rightarrow> 's \<Rightarrow> int \<times> 's"
  and walk_recs :: "(tgid \<Rightarrow> 's \<Rightarrow> int \<times> 's) \<Rightarrow> (tgid \<Rightarrow> 's \<Rightarrow> int \<times> 's) \<Rightarrow> tg_tree list \<Rightarrow> 's \<Rightarrow> int \<times> 's"
where
  "walk_rec down up (Tg g ts) s =
     (case down g s of
        (ret, s) \<Rightarrow>
          if ret \<noteq> 0 then (ret, s)
          else (case walk_recs down up ts s of
                  (ret, s) \<Rightarrow> if ret \<noteq> 0 then (ret, s) else up g s))"
| "walk_recs down up [] s = (0, s)"
| "walk_recs down up (t # ts) s =
     (case walk_rec down up t s of
        (ret, s) \<Rightarrow> if ret \<noteq> 0 then (ret, s) else walk_recs down up ts s)"

text \<open>The kernel's links form the tree: children lists, parents, and no group twice.\<close>

fun tg_ids :: "tg_tree \<Rightarrow> tgid list" where
  "tg_ids (Tg g ts) = g # concat (map tg_ids ts)"

fun tg_linked :: "(tgid \<Rightarrow> tgid list) \<Rightarrow> (tgid \<Rightarrow> tgid option) \<Rightarrow> tg_tree \<Rightarrow> bool" where
  "tg_linked children parent (Tg g ts) \<longleftrightarrow>
     children g = map tg_root ts
     \<and> (\<forall>t \<in> set ts. parent (tg_root t) = Some g \<and> tg_linked children parent t)"

section \<open>They agree\<close>

lemma siblings_after_split:
  "\<lbrakk>distinct (xs @ c # ys)\<rbrakk> \<Longrightarrow> siblings_after c (xs @ c # ys) = ys"
  by (induction xs) (auto simp: siblings_after_def)

lemma root_in_ids: "tg_root t \<in> set (tg_ids t)"
  by (cases t) simp

text \<open>
  What a loop does that enters a node: it performs the recursive traversal of the node's tree
  and then, unless there was an error or the node is where it started, goes on behind it.
\<close>

definition walk_after ::
  "(tgid \<Rightarrow> 's \<Rightarrow> int \<times> 's) \<Rightarrow> (tgid \<Rightarrow> 's \<Rightarrow> int \<times> 's) \<Rightarrow> (tgid \<Rightarrow> tgid list) \<Rightarrow>
   (tgid \<Rightarrow> tgid option) \<Rightarrow> tgid \<Rightarrow> tgid \<Rightarrow> int \<times> 's \<Rightarrow> (int \<times> 's) option" where
  "walk_after down up children parent root g rs =
     (case rs of (ret, s) \<Rightarrow>
        if ret \<noteq> 0 \<or> g = root then Some (ret, s)
        else (case parent g of
                None \<Rightarrow> Some (ret, s)
              | Some q \<Rightarrow> walk_loop down up children parent root
                            (Iter q (siblings_after g (children q))) s))"

lemma walk_loop_simps:
  "walk_loop down up children parent root (Down g) s =
     (case down g s of (ret, s) \<Rightarrow>
        if ret \<noteq> 0 then Some (ret, s)
        else walk_loop down up children parent root (Iter g (children g)) s)"
  "walk_loop down up children parent root (Iter g (c # cs)) s =
     walk_loop down up children parent root (Down c) s"
  "walk_loop down up children parent root (Iter g []) s =
     walk_after down up children parent root g (up g s)"
  by (simp_all add: walk_loop.simps walk_after_def)

lemma walk_loop_tree:
  "\<lbrakk>tg_linked children parent t; distinct (tg_ids t); root \<in> set (tg_ids t) \<longrightarrow> root = tg_root t\<rbrakk>
   \<Longrightarrow> walk_loop down up children parent root (Down (tg_root t)) s =
       walk_after down up children parent root (tg_root t) (walk_rec down up t s)"
proof (induction t arbitrary: s)
  case (Tg g ts)
  have kids: "children g = map tg_root ts" using Tg.prems(1) by simp
  have dist: "distinct (map tg_root ts)"
  proof -
    have "distinct (concat (map tg_ids ts))" using Tg.prems(2) by simp
    then show ?thesis
    proof (induction ts)
      case (Cons t ts)
      have "set (map tg_root ts) \<subseteq> set (concat (map tg_ids ts))" using root_in_ids by fastforce
      with Cons root_in_ids [of t] show ?case by auto
    qed simp
  qed
  have rest: "walk_loop down up children parent root (Iter g (map tg_root ys)) s' =
      walk_after down up children parent root g
        (case walk_recs down up ys s' of (ret, s) \<Rightarrow> if ret \<noteq> 0 then (ret, s) else up g s)"
    if "ts = xs @ ys" for xs ys s'
    using that
  proof (induction ys arbitrary: xs s')
    case Nil
    then show ?case by (simp add: walk_loop_simps)
  next
    case (Cons t ys)
    have t: "t \<in> set ts" using Cons.prems by simp
    have ids: "distinct (tg_ids t)"
      using Tg.prems(2) t by (simp add: distinct_concat_iff)
    have not_root: "root \<notin> set (tg_ids t)"
    proof
      assume r: "root \<in> set (tg_ids t)"
      with t have "root \<in> set (tg_ids (Tg g ts))" by auto
      then have "root = g" using Tg.prems(3) by simp
      with r t Tg.prems(2) show False by auto
    qed
    have par: "parent (tg_root t) = Some g" and lnk: "tg_linked children parent t"
      using Tg.prems(1) t by auto
    have sib: "siblings_after (tg_root t) (children g) = map tg_root ys"
      using siblings_after_split [of "map tg_root xs" "tg_root t" "map tg_root ys"] dist kids
        Cons.prems by simp
    have "tg_root t \<noteq> root" using not_root root_in_ids by metis
    then have "walk_loop down up children parent root (Iter g (map tg_root (t # ys))) s' =
        (case walk_rec down up t s' of (ret, s) \<Rightarrow>
           if ret \<noteq> 0 then Some (ret, s)
           else walk_loop down up children parent root (Iter g (map tg_root ys)) s)"
      using Tg.IH [OF t lnk ids] not_root par sib
      by (simp add: walk_loop_simps walk_after_def split: prod.splits)
    also have "\<dots> = walk_after down up children parent root g
        (case walk_recs down up (t # ys) s' of (ret, s) \<Rightarrow> if ret \<noteq> 0 then (ret, s) else up g s)"
      using Cons.IH [of "xs @ [t]"] Cons.prems
      by (auto simp: walk_after_def split: prod.splits)
    finally show ?case .
  qed
  show ?case
    using rest [of "[]" ts] kids
    by (auto simp: walk_loop_simps walk_after_def split: prod.splits)
qed

text \<open>
  C20. The traversal of the group tree. On a well-linked tree of groups without repetition the
  loop with its jumps terminates, and it is the recursive traversal: \<open>down\<close> on entering a node,
  then the children in order, then \<open>up\<close>, stopping with the first nonzero result.
\<close>

theorem walk_tg_tree_from_rec:
  assumes "tg_linked children parent t" "distinct (tg_ids t)"
  shows "walk_tg_tree_from children parent (tg_root t) down up s = Some (walk_rec down up t s)"
  using walk_loop_tree [OF assms, of "tg_root t" down up s]
  by (simp add: walk_tg_tree_from_def walk_after_def split: prod.splits)

text \<open>A root with two children, one of which has a child; the visitors record their calls.\<close>

definition tree0 :: tg_tree where
  "tree0 = Tg 0 [Tg 1 [Tg 3 []], Tg 2 []]"

theorem walk_tg_tree_from_rec_witness:
  "walk_tg_tree_from (\<lambda>g. if g = 0 then [1, 2] else if g = 1 then [3] else [])
     (\<lambda>g. if g = 0 then None else if g = 3 then Some 1 else Some 0) 0
     (\<lambda>g tr. (if g = 2 then - EINVAL else 0, tr @ [(g, True)])) (\<lambda>g tr. (0, tr @ [(g, False)])) []
   = Some (- EINVAL, [(0, True), (1, True), (3, True), (3, False), (1, False), (2, True)])"
  using walk_tg_tree_from_rec [of "\<lambda>g. if g = 0 then [1, 2] else if g = 1 then [3] else []"
      "\<lambda>g. if g = 0 then None else if g = 3 then Some 1 else Some 0" tree0
      "\<lambda>g tr. (if g = 2 then - EINVAL else 0, tr @ [(g, True)])"
      "\<lambda>g tr. (0, tr @ [(g, False)])" "[]"]
  by (simp add: tree0_def)

end
