(* ===== verification/Sched_Groups.thy ===== *)
theory Sched_Groups
  imports Sched_Policy Tg_Walk
begin

text \<open>
  Task groups and the bandwidth of RT groups (\<open>core.c\<close> and the allocation part of \<open>rt.c\<close>):
  creating and destroying groups, moving tasks between them, the cgroup callbacks, and the
  test whether a change of period or runtime leaves the hierarchy schedulable.
  \<open>unsigned long\<close> is 32 bits, the times are \<open>u64\<close> nanoseconds.
\<close>

section \<open>Creating and destroying groups\<close>

text \<open>
  \<open>alloc_rt_sched_group\<close>: \<open>arrays\<close> tells whether the two arrays of pointers can be allocated,
  \<open>mem i\<close> whether the two structures of cpu \<open>i\<close> can; the result is the C truth value.
\<close>

fun alloc_rt_cpus :: "'x env \<Rightarrow> (cpu \<Rightarrow> bool) \<Rightarrow> tgid \<Rightarrow> tgid \<Rightarrow> cpu list \<Rightarrow> 'x kernel \<Rightarrow> bool \<times> 'x kernel" where
  "alloc_rt_cpus env mem g parent [] k = (True, k)"
| "alloc_rt_cpus env mem g parent (i # is) k =
     (if \<not> mem i then (False, k)
      else
        let k = init_rt_rq env (g, i) k;
            k = upd_rt_rq (g, i) (\<lambda>q. q\<lparr>rt_runtime := rtb_runtime (tg_rt_bandwidth (tgs k g))\<rparr>) k;
            k = init_tg_rt_entry g (g, i) (Some (Group_se g i)) i (tg_rt_se parent i) k
        in alloc_rt_cpus env mem g parent is k)"

definition alloc_rt_sched_group ::
  "'x env \<Rightarrow> bool \<Rightarrow> (cpu \<Rightarrow> bool) \<Rightarrow> tgid \<Rightarrow> tgid \<Rightarrow> 'x kernel \<Rightarrow> bool \<times> 'x kernel" where
  "alloc_rt_sched_group env arrays mem g parent k =
     (if \<not> arrays then (False, k)
      else
        let k = upd_tg g (\<lambda>t. t\<lparr>tg_rt_bandwidth :=
                  init_rt_bandwidth (rt_period (def_rt_bandwidth k)) 0 (tg_rt_bandwidth t)\<rparr>) k
        in alloc_rt_cpus env mem g parent (for_each_cpu env (cpu_possible_mask env)) k)"

text \<open>
  \<open>sched_create_group\<close>: \<open>g\<close> is the address of the new group; \<open>mem_tg\<close> and \<open>fair_ok\<close> are the
  outcomes of its allocation and of \<open>alloc_fair_sched_group\<close>. A new group has a larger
  number than its parent.
\<close>

definition sched_create_group ::
  "'x env \<Rightarrow> bool \<Rightarrow> bool \<Rightarrow> bool \<Rightarrow> (cpu \<Rightarrow> bool) \<Rightarrow> tgid \<Rightarrow> tgid \<Rightarrow> 'x kernel \<Rightarrow> (int + tgid) \<times> 'x kernel" where
  "sched_create_group env mem_tg fair_ok arrays mem g parent k =
     (if \<not> mem_tg then (Inl (- ENOMEM), k)
      else if \<not> fair_ok then (Inl (- ENOMEM), k)
      else case alloc_rt_sched_group env arrays mem g parent k of
             (False, k) \<Rightarrow> (Inl (- ENOMEM), k)
           | (True, k) \<Rightarrow>
               let k = task_groups_update (\<lambda>gs. g # gs) k;
                   k = upd_tg g (\<lambda>t. t\<lparr>tg_parent := Some parent\<rparr>) k;
                   k = upd_tg g (\<lambda>t. t\<lparr>tg_children := []\<rparr>) k;
                   k = upd_tg parent (\<lambda>t. t\<lparr>tg_children := g # tg_children t\<rparr>) k
               in (Inr g, k))"

text \<open>The memory is released later, after a grace period.\<close>

definition sched_destroy_group :: "tgid \<Rightarrow> 'x kernel \<Rightarrow> 'x kernel" where
  "sched_destroy_group g k =
     (let k = task_groups_update (remove1 g) k in
      case tg_parent (tgs k g) of
        None \<Rightarrow> k
      | Some q \<Rightarrow> upd_tg q (\<lambda>t. t\<lparr>tg_children := remove1 g (tg_children t)\<rparr>) k)"

section \<open>Moving tasks between groups\<close>

text \<open>
  \<open>sched_move_task\<close>: \<open>g\<close> is the group the cgroup code has put the task into. Of the classes
  outside the repository only the fair class has a \<open>task_move_group\<close>.
\<close>

definition sched_move_task :: "'x env \<Rightarrow> tid \<Rightarrow> tgid \<Rightarrow> 'x kernel \<Rightarrow> 'x kernel" where
  "sched_move_task env p g k =
     (let c = task_cpu (tasks k p);
          running = task_current c p k;
          was_on_rq = on_rq (tasks k p);
          k = (if was_on_rq then dequeue_task env c p 0 k else k);
          k = (if running then class_put_prev_task env c p k else k);
          k = upd_task p (\<lambda>t. t\<lparr>sched_task_group := g\<rparr>) k;
          k = (if class_of (tasks k p) = fair_sched_class
               then op_task_move_group (class_ext env fair_sched_class) p was_on_rq k
               else set_task_rq p (task_cpu (tasks k p)) k);
          k = (if running then class_set_curr_task env (class_of (tasks k p)) c k else k)
      in if was_on_rq then enqueue_task env c p 0 k else k)"

section \<open>Schedulability of RT groups\<close>

definition to_ratio :: "u64 \<Rightarrow> u64 \<Rightarrow> u32" where
  "to_ratio period runtime =
     (if runtime = RUNTIME_INF then push_bit 20 1 else ucast (push_bit 20 runtime div period))"

text \<open>The source asks for the group of \<open>task_rq(p)->rt\<close>, the root runqueue of the task's cpu.\<close>

definition tg_has_rt_tasks :: "'x kernel \<Rightarrow> tgid \<Rightarrow> bool" where
  "tg_has_rt_tasks k g \<longleftrightarrow>
     list_ex (\<lambda>p. rt_task k p \<and> rt_tg (rt_rqs k (root_rt (task_cpu (tasks k p)))) = Some g) (threads k)"

record rt_schedulable_data =
  rd_tg :: "tgid option"
  rd_period :: u64
  rd_runtime :: u64

text \<open>The period and runtime of a group, as they would be after the change that is tested.\<close>

definition tg_period_runtime :: "'x kernel \<Rightarrow> rt_schedulable_data \<Rightarrow> tgid \<Rightarrow> u64 \<times> u64" where
  "tg_period_runtime k d g =
     (if rd_tg d = Some g then (rd_period d, rd_runtime d)
      else (rt_period (tg_rt_bandwidth (tgs k g)), rtb_runtime (tg_rt_bandwidth (tgs k g))))"

definition tg_rt_schedulable :: "'x kernel \<Rightarrow> rt_schedulable_data \<Rightarrow> tgid \<Rightarrow> int" where
  "tg_rt_schedulable k d g =
     (case tg_period_runtime k d g of
        (period, runtime) \<Rightarrow>
          if period < runtime \<and> runtime \<noteq> RUNTIME_INF then - EINVAL
          else if rt_bandwidth_enabled k \<and> runtime = 0 \<and> tg_has_rt_tasks k g then - EBUSY
          else
            let total = to_ratio period runtime in
            if to_ratio (global_rt_period k) (global_rt_runtime k) < total then - EINVAL
            else if total < sum_list (map (\<lambda>c. case tg_period_runtime k d c of
                                        (period, runtime) \<Rightarrow> to_ratio period runtime)
                                      (tg_children (tgs k g)))
            then - EINVAL
            else 0)"

text \<open>\<open>__rt_schedulable\<close>; the visitors leave the kernel alone.\<close>

definition rt_schedulable :: "tgid option \<Rightarrow> u64 \<Rightarrow> u64 \<Rightarrow> 'x kernel \<Rightarrow> int option" where
  "rt_schedulable tg period runtime k =
     map_option fst
       (walk_tg_tree_from (\<lambda>g. tg_children (tgs k g)) (\<lambda>g. tg_parent (tgs k g)) ROOT_TG
          (\<lambda>g s. (tg_rt_schedulable k \<lparr>rd_tg = tg, rd_period = period, rd_runtime = runtime\<rparr> g, s))
          tg_nop ())"

text \<open>The result \<open>None\<close> of the following operations is a walk that does not end.\<close>

definition tg_set_rt_bandwidth ::
  "'x env \<Rightarrow> tgid \<Rightarrow> u64 \<Rightarrow> u64 \<Rightarrow> 'x kernel \<Rightarrow> (int \<times> 'x kernel) option" where
  "tg_set_rt_bandwidth env tg period runtime k =
     (case rt_schedulable (Some tg) period runtime k of
        None \<Rightarrow> None
      | Some err \<Rightarrow>
          if err \<noteq> 0 then Some (err, k)
          else
            let k = upd_tg tg (\<lambda>t. t\<lparr>tg_rt_bandwidth := (tg_rt_bandwidth t)
                       \<lparr>rt_period := period, rtb_runtime := runtime\<rparr>\<rparr>) k
            in Some (0, fold (\<lambda>i. upd_rt_rq (tg, i) (\<lambda>q. q\<lparr>rt_runtime := runtime\<rparr>))
                          (for_each_cpu env (cpu_possible_mask env)) k))"

definition NSEC_PER_USEC :: u64 where "NSEC_PER_USEC = 1000"

text \<open>A \<open>long\<close> is a 32-bit word, extended with its sign when it is cast to \<open>u64\<close>.\<close>

definition sched_group_set_rt_runtime ::
  "'x env \<Rightarrow> tgid \<Rightarrow> u32 \<Rightarrow> 'x kernel \<Rightarrow> (int \<times> 'x kernel) option" where
  "sched_group_set_rt_runtime env tg us k =
     (let period = rt_period (tg_rt_bandwidth (tgs k tg));
          runtime = (scast us :: u64) * NSEC_PER_USEC;
          runtime = (if sint us < 0 then RUNTIME_INF else runtime)
      in tg_set_rt_bandwidth env tg period runtime k)"

definition sched_group_rt_runtime :: "'x kernel \<Rightarrow> tgid \<Rightarrow> u32" where
  "sched_group_rt_runtime k tg =
     (let runtime = rtb_runtime (tg_rt_bandwidth (tgs k tg)) in
      if runtime = RUNTIME_INF then -1 else ucast (runtime div NSEC_PER_USEC))"

definition sched_group_set_rt_period ::
  "'x env \<Rightarrow> tgid \<Rightarrow> u32 \<Rightarrow> 'x kernel \<Rightarrow> (int \<times> 'x kernel) option" where
  "sched_group_set_rt_period env tg us k =
     (let period = (scast us :: u64) * NSEC_PER_USEC;
          runtime = rtb_runtime (tg_rt_bandwidth (tgs k tg)) in
      if period = 0 then Some (- EINVAL, k)
      else tg_set_rt_bandwidth env tg period runtime k)"

definition sched_group_rt_period :: "'x kernel \<Rightarrow> tgid \<Rightarrow> u32" where
  "sched_group_rt_period k tg = ucast (rt_period (tg_rt_bandwidth (tgs k tg)) div NSEC_PER_USEC)"

definition sched_rt_global_constraints :: "'x kernel \<Rightarrow> int option" where
  "sched_rt_global_constraints k =
     (if sysctl_sched_rt_period k \<le> 0 then Some (- EINVAL)
      else if global_rt_period k < global_rt_runtime k \<and> global_rt_runtime k \<noteq> RUNTIME_INF
      then Some (- EINVAL)
      else rt_schedulable None 0 0 k)"

definition sched_rt_can_attach :: "tgid \<Rightarrow> tid \<Rightarrow> 'x kernel \<Rightarrow> bool" where
  "sched_rt_can_attach tg p k \<longleftrightarrow>
     \<not> (rt_task k p \<and> rtb_runtime (tg_rt_bandwidth (tgs k tg)) = 0)"

text \<open>
  \<open>sched_rt_handler\<close>: \<open>proc_dointvec\<close>, which is not in the repository, returns a value and on
  a write may change one of the two variables.
\<close>

definition sched_rt_handler ::
  "('x kernel \<Rightarrow> int \<times> 'x kernel) \<Rightarrow> bool \<Rightarrow> 'x kernel \<Rightarrow> (int \<times> 'x kernel) option" where
  "sched_rt_handler proc_dointvec wr k =
     (let old_period = sysctl_sched_rt_period k; old_runtime = sysctl_sched_rt_runtime k in
      case proc_dointvec k of
        (ret, k) \<Rightarrow>
          if ret = 0 \<and> wr then
            (case sched_rt_global_constraints k of
               None \<Rightarrow> None
             | Some ret \<Rightarrow>
                 if ret \<noteq> 0 then
                   Some (ret, k\<lparr>sysctl_sched_rt_period := old_period,
                                sysctl_sched_rt_runtime := old_runtime\<rparr>)
                 else
                   Some (ret, k\<lparr>def_rt_bandwidth := (def_rt_bandwidth k)
                     \<lparr>rtb_runtime := global_rt_runtime k, rt_period := global_rt_period k\<rparr>\<rparr>))
          else Some (ret, k))"

section \<open>The cpu cgroup\<close>

text \<open>A cgroup stands for the task group its \<open>css\<close> is embedded in, \<open>cgroup_tg\<close>.\<close>

definition cpu_cgroup_create ::
  "'x env \<Rightarrow> bool \<Rightarrow> bool \<Rightarrow> bool \<Rightarrow> (cpu \<Rightarrow> bool) \<Rightarrow> tgid \<Rightarrow> tgid option \<Rightarrow> 'x kernel \<Rightarrow>
   (int + tgid) \<times> 'x kernel" where
  "cpu_cgroup_create env mem_tg fair_ok arrays mem g parent k =
     (case parent of
        None \<Rightarrow> (Inr ROOT_TG, k)
      | Some q \<Rightarrow>
          (case sched_create_group env mem_tg fair_ok arrays mem g q k of
             (Inl e, k) \<Rightarrow> (Inl (- ENOMEM), k)
           | (Inr tg, k) \<Rightarrow> (Inr tg, k)))"

definition cpu_cgroup_destroy :: "tgid \<Rightarrow> 'x kernel \<Rightarrow> 'x kernel" where
  "cpu_cgroup_destroy tg k = sched_destroy_group tg k"

definition cpu_cgroup_allow_attach :: "'x sys \<Rightarrow> tid list \<Rightarrow> 'x kernel \<Rightarrow> int" where
  "cpu_cgroup_allow_attach sys ps k =
     (let me = current k in
      if list_ex (\<lambda>p. me \<noteq> p \<and> \<not> capable_sys_nice sys me
                    \<and> cred_euid sys me \<noteq> cred_uid sys p \<and> cred_euid sys me \<noteq> cred_suid sys p) ps
      then - EACCES else 0)"

definition cpu_cgroup_can_attach :: "tgid \<Rightarrow> tid list \<Rightarrow> 'x kernel \<Rightarrow> int" where
  "cpu_cgroup_can_attach tg ps k =
     (if list_ex (\<lambda>p. \<not> sched_rt_can_attach tg p k) ps then - EINVAL else 0)"

definition cpu_cgroup_attach :: "'x env \<Rightarrow> tgid \<Rightarrow> tid list \<Rightarrow> 'x kernel \<Rightarrow> 'x kernel" where
  "cpu_cgroup_attach env tg ps k = fold (\<lambda>p. sched_move_task env p tg) ps k"

definition cpu_cgroup_exit :: "'x env \<Rightarrow> tgid \<Rightarrow> tid \<Rightarrow> 'x kernel \<Rightarrow> 'x kernel" where
  "cpu_cgroup_exit env tg p k =
     (if flags (tasks k p) AND PF_EXITING = 0 then k else sched_move_task env p tg k)"

text \<open>The files of the cgroup. A user's 64-bit number becomes a \<open>long\<close> on the way.\<close>

definition cpu_rt_runtime_write ::
  "'x env \<Rightarrow> tgid \<Rightarrow> u64 \<Rightarrow> 'x kernel \<Rightarrow> (int \<times> 'x kernel) option" where
  "cpu_rt_runtime_write env tg val k = sched_group_set_rt_runtime env tg (ucast val) k"

definition cpu_rt_runtime_read :: "tgid \<Rightarrow> 'x kernel \<Rightarrow> u64" where
  "cpu_rt_runtime_read tg k = scast (sched_group_rt_runtime k tg)"

definition cpu_rt_period_write_uint ::
  "'x env \<Rightarrow> tgid \<Rightarrow> u64 \<Rightarrow> 'x kernel \<Rightarrow> (int \<times> 'x kernel) option" where
  "cpu_rt_period_write_uint env tg us k = sched_group_set_rt_period env tg (ucast us) k"

definition cpu_rt_period_read_uint :: "tgid \<Rightarrow> 'x kernel \<Rightarrow> u64" where
  "cpu_rt_period_read_uint tg k = scast (sched_group_rt_period k tg)"

end
