(* ===== verification/Policy_Props.thy ===== *)
theory Policy_Props
  imports Sched_Frame Sched_Groups Example_State
begin

text \<open>
  Properties of the operations that set priorities and policies. Where they call the rest of the
  scheduler, that the rest leaves the parameters alone comes from \<open>Sched_Frame\<close>.
\<close>

section \<open>The PI code\<close>

text \<open>
  The documented behaviour of \<open>rtmutex.c\<close> for a task that waits for no lock and whose own locks
  are waited for with the highest priority \<open>w\<close>, if at all: \<open>rt_mutex_getprio\<close> is the better of
  that and \<open>normal_prio\<close>, and \<open>rt_mutex_adjust_pi\<close> has no chain to adjust.
\<close>

definition pi_state :: "'x sys \<Rightarrow> tid \<Rightarrow> int option \<Rightarrow> bool" where
  "pi_state sys p w \<longleftrightarrow>
     (\<forall>k. rt_mutex_getprio sys k p =
            (case w of None \<Rightarrow> normal_prio (tasks k p) | Some i \<Rightarrow> min i (normal_prio (tasks k p))))
     \<and> (\<forall>k. rt_mutex_adjust_pi sys p k = k)"

definition boosted_prio :: "int option \<Rightarrow> int \<Rightarrow> int" where
  "boosted_prio w n = (case w of None \<Rightarrow> n | Some i \<Rightarrow> min i n)"

text \<open>The class that a policy and a priority call for.\<close>

definition class_for :: "int \<Rightarrow> int \<Rightarrow> sched_class" where
  "class_for pol pr = (if pol = SCHED_WRR then wrr_sched_class
     else if rt_prio pr then rt_sched_class else fair_sched_class)"

section \<open>Changing policy and priority\<close>

lemma params_of_upd [simp]:
  "params_of (t\<lparr>prio := x\<rparr>) = (params_of t)\<lparr>tp_prio := x\<rparr>"
  "params_of (t\<lparr>normal_prio := x\<rparr>) = (params_of t)\<lparr>tp_normal_prio := x\<rparr>"
  "params_of (t\<lparr>static_prio := x\<rparr>) = (params_of t)\<lparr>tp_static_prio := x\<rparr>"
  "params_of (t\<lparr>class_of := y\<rparr>) = (params_of t)\<lparr>tp_class := y\<rparr>"
  "params_of (t\<lparr>policy := x\<rparr>) = (params_of t)\<lparr>tp_policy := x\<rparr>"
  "params_of (t\<lparr>rt_priority := x\<rparr>) = (params_of t)\<lparr>tp_rt_priority := x\<rparr>"
  "params_of (t\<lparr>sched_reset_on_fork := b\<rparr>) = (params_of t)\<lparr>tp_reset_on_fork := b\<rparr>"
  "params_of (t\<lparr>state := u\<rparr>) = (params_of t)\<lparr>tp_state := u\<rparr>"
  "params_of (t\<lparr>on_rq := b\<rparr>) = (params_of t)\<lparr>tp_on_rq := b\<rparr>"
  "params_of (t\<lparr>preempt_count := n\<rparr>) = (params_of t)\<lparr>tp_preempt_count := n\<rparr>"
  by (simp_all add: params_of_def)

lemma set_load_weight_params [simp]: "params_of (tasks (set_load_weight p k) q) = params_of (tasks k q)"
  by (simp add: set_load_weight_def params_of_def Let_def)

definition normal_prio_for :: "int \<Rightarrow> int \<Rightarrow> int \<Rightarrow> int" where
  "normal_prio_for pol pr static = (if rt_policy pol then MAX_RT_PRIO - 1 - pr else static)"

lemma setscheduler_params:
  assumes "pi_state sys p w"
  shows "params_of (tasks (setscheduler sys c p pol pr k) q) =
    (if q = p then (params_of (tasks k p))\<lparr>tp_policy := pol, tp_rt_priority := pr,
       tp_normal_prio := normal_prio_for pol pr (static_prio (tasks k p)),
       tp_prio := boosted_prio w (normal_prio_for pol pr (static_prio (tasks k p))),
       tp_class := class_for pol (boosted_prio w (normal_prio_for pol pr (static_prio (tasks k p))))\<rparr>
     else params_of (tasks k q))"
proof -
  let ?n = "normal_prio_for pol pr (static_prio (tasks k p))"
  have pi: "rt_mutex_getprio sys a p = boosted_prio w (normal_prio (tasks a p))" for a
    using assms by (simp add: pi_state_def boosted_prio_def)
  show ?thesis
    unfolding setscheduler_def Let_def pi
    by (simp add: calc_normal_prio_def task_has_rt_policy_def normal_prio_for_def class_for_def)
qed

lemma keep_static: "keep k k' \<Longrightarrow> static_prio (tasks k' p) = static_prio (tasks k p)"
  using keepD [of k k' p] by (rule params_of_eqD)

lemma change_scheduler_params:
  assumes env: "env_ok env" and pi: "pi_state sys p w"
  shows "params_of (tasks (change_scheduler env sys p pol pr rst k) q) =
    (if q = p then (params_of (tasks k p))\<lparr>tp_policy := pol, tp_rt_priority := pr,
       tp_normal_prio := normal_prio_for pol pr (static_prio (tasks k p)),
       tp_prio := boosted_prio w (normal_prio_for pol pr (static_prio (tasks k p))),
       tp_class := class_for pol (boosted_prio w (normal_prio_for pol pr (static_prio (tasks k p)))),
       tp_reset_on_fork := rst\<rparr>
     else params_of (tasks k q))"
proof -
  let ?c = "task_cpu (tasks k p)"
  define a where "a = (if on_rq (tasks k p) then dequeue_task env ?c p 0 k else k)"
  define b where "b = (if task_current ?c p k then class_put_prev_task env ?c p a else a)"
  define d where "d = upd_task p (\<lambda>t. t\<lparr>sched_reset_on_fork := rst\<rparr>) b"
  define e where "e = setscheduler sys ?c p pol pr d"
  have kb: "keep k b"
    unfolding a_def b_def by (assumption | rule env keeps)+
  have adj: "rt_mutex_adjust_pi sys p x = x" for x
    using pi by (simp add: pi_state_def)
  have "keep e (change_scheduler env sys p pol pr rst k)"
    unfolding change_scheduler_def Let_def adj a_def [symmetric] b_def [symmetric]
      d_def [symmetric] e_def [symmetric]
    by (assumption | rule env keeps)+
  then have "params_of (tasks (change_scheduler env sys p pol pr rst k) q) = params_of (tasks e q)"
    by (rule keepD)
  moreover have "params_of (tasks b q) = params_of (tasks k q)" "static_prio (tasks b p) = static_prio (tasks k p)"
    using keepD [OF kb] keep_static [OF kb] by simp_all
  ultimately show ?thesis
    unfolding e_def setscheduler_params [OF pi] d_def by (auto simp: params_of_def)
qed

section \<open>\<open>__sched_setscheduler\<close>\<close>

text \<open>What a call asks for: a negative policy keeps the task's own.\<close>

definition req_policy :: "tid \<Rightarrow> int \<Rightarrow> 'x kernel \<Rightarrow> int" where
  "req_policy p pol k = (if pol < 0 then policy (tasks k p) else pol AND NOT SCHED_RESET_ON_FORK)"

definition req_reset :: "tid \<Rightarrow> int \<Rightarrow> 'x kernel \<Rightarrow> bool" where
  "req_reset p pol k =
     (if pol < 0 then sched_reset_on_fork (tasks k p) else pol AND SCHED_RESET_ON_FORK \<noteq> 0)"

definition no_change :: "tid \<Rightarrow> int \<Rightarrow> int \<Rightarrow> 'x kernel \<Rightarrow> bool" where
  "no_change p pol pr k \<longleftrightarrow> req_policy p pol k = policy (tasks k p)
     \<and> (rt_policy (req_policy p pol k) \<longrightarrow> pr = rt_priority (tasks k p))"

lemma setscheduler_eq:
  "sched_setscheduler_user env sys p pol pr user k =
     (let P = req_policy p pol k; R = req_reset p pol k in
      if 0 \<le> pol \<and> \<not> valid_policy P then (- EINVAL, k)
      else if \<not> check_sched_priority p P pr k then (- EINVAL, k)
      else if user \<and> \<not> capable_sys_nice sys (current k) \<and> \<not> check_unprivileged env sys p P pr R k
      then (- EPERM, k)
      else if user \<and> security_task_setscheduler sys p \<noteq> 0
      then (security_task_setscheduler sys p, k)
      else if stop (rqs k (task_cpu (tasks k p))) = Some p then (- EINVAL, k)
      else if no_change p pol pr k then (0, k)
      else if user \<and> rt_bandwidth_enabled k \<and> rt_policy P
              \<and> rtb_runtime (tg_rt_bandwidth (tgs k (sched_task_group (tasks k p)))) = 0
              \<and> \<not> tg_is_autogroup (tgs k (sched_task_group (tasks k p)))
      then (- EPERM, k)
      else (0, change_scheduler env sys p P pr R k))"
  unfolding sched_setscheduler_user_def req_policy_def req_reset_def no_change_def Let_def
  by (rule if_cong refl | blast)+

text \<open>The three ways out of \<open>__sched_setscheduler\<close>.\<close>

lemma if_eqE: "\<lbrakk>(if c then x else y) = z; \<lbrakk>c; x = z\<rbrakk> \<Longrightarrow> P; \<lbrakk>\<not> c; y = z\<rbrakk> \<Longrightarrow> P\<rbrakk> \<Longrightarrow> P"
  by (cases c) simp_all

lemma setscheduler_ways:
  assumes "sched_setscheduler_user env sys p pol pr user k = (ret, k')"
  shows "(ret \<noteq> 0 \<and> k' = k) \<or> (ret = 0 \<and> k' = k \<and> no_change p pol pr k)
    \<or> (ret = 0 \<and> \<not> no_change p pol pr k
       \<and> k' = change_scheduler env sys p (req_policy p pol k) pr (req_reset p pol k) k)"
  using assms unfolding setscheduler_eq Let_def by (elim if_eqE) simp_all

lemma setscheduler_result:
  assumes "env_ok env" "pi_state sys p w"
    and "sched_setscheduler_user env sys p pol pr user k = (0, k')" "\<not> no_change p pol pr k"
  shows "params_of (tasks k' p) = (params_of (tasks k p))\<lparr>tp_policy := req_policy p pol k,
       tp_rt_priority := pr,
       tp_normal_prio := normal_prio_for (req_policy p pol k) pr (static_prio (tasks k p)),
       tp_prio := boosted_prio w (normal_prio_for (req_policy p pol k) pr (static_prio (tasks k p))),
       tp_class := class_for (req_policy p pol k)
         (boosted_prio w (normal_prio_for (req_policy p pol k) pr (static_prio (tasks k p)))),
       tp_reset_on_fork := req_reset p pol k\<rparr>"
    and "q \<noteq> p \<Longrightarrow> params_of (tasks k' q) = params_of (tasks k q)"
proof -
  have k': "k' = change_scheduler env sys p (req_policy p pol k) pr (req_reset p pol k) k"
    using setscheduler_ways [OF assms(3)] assms(4) by blast
  show "params_of (tasks k' p) = (params_of (tasks k p))\<lparr>tp_policy := req_policy p pol k,
       tp_rt_priority := pr,
       tp_normal_prio := normal_prio_for (req_policy p pol k) pr (static_prio (tasks k p)),
       tp_prio := boosted_prio w (normal_prio_for (req_policy p pol k) pr (static_prio (tasks k p))),
       tp_class := class_for (req_policy p pol k)
         (boosted_prio w (normal_prio_for (req_policy p pol k) pr (static_prio (tasks k p)))),
       tp_reset_on_fork := req_reset p pol k\<rparr>"
    and "q \<noteq> p \<Longrightarrow> params_of (tasks k' q) = params_of (tasks k q)"
    unfolding k' by (simp_all add: change_scheduler_params [OF assms(1,2)])
qed

lemma setscheduler_checked:
  assumes "sched_setscheduler_user env sys p pol pr user k = (0, k')"
  shows "check_sched_priority p (req_policy p pol k) pr k"
    and "0 \<le> pol \<Longrightarrow> valid_policy (req_policy p pol k)"
    and "\<lbrakk>user; \<not> capable_sys_nice sys (current k)\<rbrakk> \<Longrightarrow>
           check_unprivileged env sys p (req_policy p pol k) pr (req_reset p pol k) k"
  using assms unfolding setscheduler_eq Let_def by - (elim if_eqE, simp_all)+

lemma and_exp_bit: "(x :: int) AND 2 ^ n = (if bit x n then 2 ^ n else 0)"
  by (rule bit_eqI) (auto simp: bit_simps)

lemma and_single_bit: "x AND SCHED_RESET_ON_FORK \<noteq> 0 \<Longrightarrow> x AND SCHED_RESET_ON_FORK = SCHED_RESET_ON_FORK"
proof -
  have m: "SCHED_RESET_ON_FORK = 2 ^ 30" by (simp add: SCHED_RESET_ON_FORK_def)
  show "x AND SCHED_RESET_ON_FORK \<noteq> 0 \<Longrightarrow> x AND SCHED_RESET_ON_FORK = SCHED_RESET_ON_FORK"
    unfolding m and_exp_bit by (cases "bit x 30") (simp_all only: if_True if_False simp_thms)
qed

definition sys0 :: "unit sys" where
  "sys0 = \<lparr>capable_sys_nice = (\<lambda>_. False), ns_capable_sys_nice = (\<lambda>_ _. False),
     cred_user_ns = (\<lambda>_. 0), cred_euid = (\<lambda>_. 1000), cred_uid = (\<lambda>_. 1000), cred_suid = (\<lambda>_. 1000),
     security_task_setscheduler = (\<lambda>_. 0), security_task_getscheduler = (\<lambda>_. 0),
     security_task_setnice = (\<lambda>_ _. 0),
     find_task_by_vpid = (\<lambda>i. if 0 < i \<and> i < 5 then Some (nat i) else None),
     cpuset_cpus_allowed = (\<lambda>_ _. (\<lambda>c. c < 2)), rt_mutex_getprio = (\<lambda>k p. normal_prio (tasks k p)),
     rt_mutex_adjust_pi = (\<lambda>p k. k)\<rparr>"

lemma env_ok_env0: "env_ok env0"
  by (simp add: env_ok_def ops_ok_def env0_def ops0_def keep_refl)

lemma pi_state_sys0: "pi_state sys0 p None"
  by (simp add: pi_state_def sys0_def)

lemma req_wrr: "req_policy 2 6 k0 = 6" "\<not> req_reset 2 6 k0" "\<not> no_change 2 6 0 k0"
  by (code_simp)+

lemma setscheduler_wrr_ok: "fst (sched_setscheduler_user env0 sys0 2 6 0 True k0) = 0"
  by code_simp

text \<open>
  C24. A refused \<open>sched_setscheduler\<close> changes nothing: whenever \<open>__sched_setscheduler\<close> returns an
  error, the whole kernel state is as before the call.
\<close>

theorem setscheduler_error_unchanged:
  assumes "sched_setscheduler_user env sys p pol pr user k = (ret, k')" "ret \<noteq> 0"
  shows "k' = k"
  using setscheduler_ways [OF assms(1)] assms(2) by blast


theorem setscheduler_error_unchanged_witness:
  "sched_setscheduler_user env0 sys0 2 1 0 True k0 = (- EINVAL, k0)"
proof -
  obtain ret k' where r: "sched_setscheduler_user env0 sys0 2 1 0 True k0 = (ret, k')" by fastforce
  have "fst (sched_setscheduler_user env0 sys0 2 1 0 True k0) = - EINVAL" by code_simp
  then have "ret = - EINVAL" using r by simp
  with setscheduler_error_unchanged [OF r] r show ?thesis by simp
qed


text \<open>
  C25. What an unprivileged caller cannot do. If \<open>sched_setscheduler\<close> returns 0 to a caller without
  \<open>CAP_SYS_NICE\<close>, then the target has the caller's owner; an RT priority above the target's is
  within its \<open>RLIMIT_RTPRIO\<close>, and an RT policy new to it needs that limit not to be 0; the target
  does not leave \<open>SCHED_IDLE\<close> unless its nice value would be allowed; and its reset-on-fork flag, if
  set, is requested again.
\<close>

theorem setscheduler_unprivileged:
  assumes "sched_setscheduler env sys p pol pr k = (0, k')" "\<not> capable_sys_nice sys (current k)"
  shows "check_same_owner sys p k
    \<and> (rt_policy (req_policy p pol k) \<and> rt_priority (tasks k p) < pr
         \<longrightarrow> pr \<le> int (unat (rlim env p RLIMIT_RTPRIO)))
    \<and> (rt_policy (req_policy p pol k) \<and> req_policy p pol k \<noteq> policy (tasks k p)
         \<longrightarrow> rlim env p RLIMIT_RTPRIO \<noteq> 0)
    \<and> (policy (tasks k p) = SCHED_IDLE \<and> req_policy p pol k \<noteq> SCHED_IDLE
         \<longrightarrow> can_nice env sys p (TASK_NICE k p) k)
    \<and> (sched_reset_on_fork (tasks k p) \<longrightarrow> req_reset p pol k)"
proof -
  have "check_unprivileged env sys p (req_policy p pol k) pr (req_reset p pol k) k"
    using setscheduler_checked(3) [OF assms(1) [unfolded sched_setscheduler_def]] assms(2) by simp
  then show ?thesis by (auto simp: check_unprivileged_def)
qed

theorem setscheduler_unprivileged_witness: "check_same_owner sys0 2 k0"
proof -
  have "sched_setscheduler env0 sys0 2 6 0 k0 = (0, snd (sched_setscheduler env0 sys0 2 6 0 k0))"
    using setscheduler_wrr_ok by (metis prod.collapse sched_setscheduler_def)
  moreover have "\<not> capable_sys_nice sys0 (current k0)" by (simp add: sys0_def)
  ultimately show ?thesis using setscheduler_unprivileged [of env0 sys0 2 6 0 k0] by blast
qed

text \<open>
  Setting and asking. After a successful \<open>sched_setscheduler(pid, policy, ...)\<close> that changed the
  task, \<open>sched_getscheduler(pid)\<close> returns the very argument, the reset-on-fork bit included, and
  \<open>sched_getparam\<close> the priority.
\<close>

theorem setscheduler_getscheduler:
  assumes "env_ok env" "pi_state sys p w" "\<not> no_change p pol pr k" "0 \<le> pol" "0 \<le> pd"
    and "sched_setscheduler env sys p pol pr k = (0, k')"
    and "find_process_by_pid sys pd k' = Some p" "security_task_getscheduler sys p = 0"
  shows "sys_sched_getscheduler sys pd k' = pol \<and> sys_sched_getparam sys pd False False k' = (0, Some pr)"
proof -
  let ?P = "req_policy p pol k"
  have s: "policy (tasks k' p) = ?P" "rt_priority (tasks k' p) = pr"
      "sched_reset_on_fork (tasks k' p) = req_reset p pol k"
    using setscheduler_result(1) [OF assms(1,2) assms(6) [unfolded sched_setscheduler_def] assms(3)]
    by (simp_all add: params_of_def)
  have bit: "pol AND SCHED_RESET_ON_FORK \<noteq> 0 \<Longrightarrow> pol AND SCHED_RESET_ON_FORK = SCHED_RESET_ON_FORK"
    by (rule and_single_bit)
  have "(pol AND NOT SCHED_RESET_ON_FORK) OR (pol AND SCHED_RESET_ON_FORK) = pol"
    by (simp flip: bit.conj_disj_distrib)
  then have "?P OR (if req_reset p pol k then SCHED_RESET_ON_FORK else 0) = pol"
    using assms(4) bit by (auto simp: req_policy_def req_reset_def)
  with s assms(5,7,8) show ?thesis
    by (simp add: sys_sched_getscheduler_def sys_sched_getparam_def)
qed

theorem setscheduler_getscheduler_witness:
  "sys_sched_getscheduler sys0 2 (snd (sched_setscheduler env0 sys0 2 6 0 k0)) = 6"
proof -
  have "sched_setscheduler env0 sys0 2 6 0 k0 = (0, snd (sched_setscheduler env0 sys0 2 6 0 k0))"
    using setscheduler_wrr_ok by (metis prod.collapse sched_setscheduler_def)
  with setscheduler_getscheduler [OF env_ok_env0 pi_state_sys0 req_wrr(3), of 2] show ?thesis
    by (simp add: find_process_by_pid_def sys0_def)
qed

text \<open>
  The advertised priority range. For every policy \<open>sched_setscheduler\<close> knows but \<open>SCHED_WRR\<close>, the
  priorities it accepts for a user task are exactly those from \<open>sched_get_priority_min\<close> to
  \<open>sched_get_priority_max\<close>. For \<open>SCHED_WRR\<close> it accepts 0 only, and both calls return \<open>-EINVAL\<close>, as
  for a policy that does not exist.
\<close>

theorem priority_range:
  assumes "valid_policy pol" "mm (tasks k p) \<noteq> None"
  shows "(check_sched_priority p pol pr k \<longleftrightarrow>
            (if pol = SCHED_WRR then pr = 0
             else sys_sched_get_priority_min pol \<le> pr \<and> pr \<le> sys_sched_get_priority_max pol))
    \<and> (sys_sched_get_priority_min pol = - EINVAL \<longleftrightarrow> pol = SCHED_WRR)
    \<and> (sys_sched_get_priority_max pol = - EINVAL \<longleftrightarrow> pol = SCHED_WRR)"
  using assms
  by (auto simp: valid_policy_def check_sched_priority_def sys_sched_get_priority_min_def
      sys_sched_get_priority_max_def policy_defs rt_policy_def prio_defs)

definition k_user :: "unit kernel" where
  "k_user = upd_task 2 (\<lambda>t. t\<lparr>mm := Some 7\<rparr>) k0"

theorem priority_range_witness:
  "check_sched_priority 2 SCHED_RR 99 k_user \<and> \<not> check_sched_priority 2 SCHED_RR 100 k_user
   \<and> check_sched_priority 2 SCHED_WRR 0 k_user \<and> sys_sched_get_priority_max SCHED_WRR = - EINVAL"
proof -
  have m: "mm (tasks k_user 2) \<noteq> None" by (simp add: k_user_def)
  have v: "valid_policy SCHED_RR" "valid_policy SCHED_WRR" by (simp_all add: valid_policy_def)
  show ?thesis
    using priority_range [OF v(1) m, of 99] priority_range [OF v(1) m, of 100]
      priority_range [OF v(2) m, of 0]
    by (simp add: policy_defs sys_sched_get_priority_min_def sys_sched_get_priority_max_def prio_defs)
qed

section \<open>Nice values\<close>

lemma not_rt_policy_idle [simp]: "\<not> rt_policy SCHED_IDLE"
  by (simp add: rt_policy_def policy_defs)

text \<open>The middle part of \<open>set_user_nice\<close>: the new nice value, the weight and the priorities.\<close>

lemma renice_params:
  fixes a :: "'x kernel" and p :: tid and s :: int
  defines "b \<equiv> set_load_weight p (upd_task p (\<lambda>t. t\<lparr>static_prio := s\<rparr>) a)"
  assumes "\<not> task_has_rt_policy a p"
  shows "params_of (tasks (upd_task p (\<lambda>t. t\<lparr>prio := fst (effective_prio p b)\<rparr>)
                             (snd (effective_prio p b))) q) =
    (if q = p then (params_of (tasks a p))\<lparr>tp_static_prio := s, tp_normal_prio := s,
        tp_prio := (if rt_prio (prio (tasks a p)) then prio (tasks a p) else s)\<rparr>
     else params_of (tasks a q))"
proof -
  have b: "params_of (tasks b q) = (if q = p then (params_of (tasks a p))\<lparr>tp_static_prio := s\<rparr>
      else params_of (tasks a q))" for q
    by (simp add: b_def)
  have n: "calc_normal_prio b p = s"
    using assms(2) params_of_eqD(1,4) [of "tasks b p" "(tasks a p)\<lparr>static_prio := s\<rparr>"] b [of p]
    by (simp add: calc_normal_prio_def task_has_rt_policy_def)
  have r: "prio (tasks b p) = prio (tasks a p)"
    using params_of_eqD(2) [of "tasks b p" "(tasks a p)\<lparr>static_prio := s\<rparr>"] b [of p] by simp
  show ?thesis
    by (simp add: effective_prio_def Let_def n r b)
qed

text \<open>What \<open>set_user_nice\<close> does to the parameters of the tasks.\<close>

lemma set_user_nice_params:
  assumes env: "env_ok env"
  shows "params_of (tasks (set_user_nice env p nice k) q) =
    (if q = p \<and> TASK_NICE k p \<noteq> nice \<and> -20 \<le> nice \<and> nice \<le> 19 then
       (if task_has_rt_policy k p
        then (params_of (tasks k p))\<lparr>tp_static_prio := NICE_TO_PRIO nice\<rparr>
        else (params_of (tasks k p))\<lparr>tp_static_prio := NICE_TO_PRIO nice,
               tp_normal_prio := NICE_TO_PRIO nice,
               tp_prio := (if rt_prio (prio (tasks k p)) then prio (tasks k p)
                           else NICE_TO_PRIO nice)\<rparr>)
     else params_of (tasks k q))"
proof (cases "TASK_NICE k p = nice \<or> nice < -20 \<or> 19 < nice \<or> task_has_rt_policy k p")
  case True
  then show ?thesis by (auto simp: set_user_nice_def params_of_def)
next
  case False
  let ?c = "task_cpu (tasks k p)"
  define a where "a = (if on_rq (tasks k p) then dequeue_task env ?c p 0 k else k)"
  define b where "b = set_load_weight p (upd_task p (\<lambda>t. t\<lparr>static_prio := NICE_TO_PRIO nice\<rparr>) a)"
  define d where "d = upd_task p (\<lambda>t. t\<lparr>prio := fst (effective_prio p b)\<rparr>) (snd (effective_prio p b))"
  have ka: "keep k a" unfolding a_def by (assumption | rule env keeps)+
  have "keep d (set_user_nice env p nice k)"
    using False
    unfolding set_user_nice_def Let_def a_def [symmetric] b_def [symmetric]
    by (simp add: case_prod_beta d_def [symmetric] keep_refl) (intro impI conjI; (assumption | rule env keeps)+)
  then have "params_of (tasks (set_user_nice env p nice k) q) = params_of (tasks d q)" by (rule keepD)
  moreover have "params_of (tasks a q) = params_of (tasks k q)" "params_of (tasks a p) = params_of (tasks k p)"
    using keepD [OF ka] by simp_all
  moreover have "task_has_rt_policy a p = task_has_rt_policy k p"
      "prio (tasks a p) = prio (tasks k p)"
    using params_of_eqD [OF keepD [OF ka, of p]] by (simp_all add: task_has_rt_policy_def)
  ultimately show ?thesis
    using False renice_params [of a p "NICE_TO_PRIO nice" q]
    unfolding d_def b_def by simp
qed

lemma set_user_nice_nice:
  assumes "env_ok env" "-20 \<le> nice" "nice \<le> 19"
  shows "task_nice (set_user_nice env p nice k) p = nice"
proof (cases "TASK_NICE k p = nice")
  case True
  then show ?thesis by (simp add: set_user_nice_def task_nice_def)
next
  case False
  then have "tp_static_prio (params_of (tasks (set_user_nice env p nice k) p)) = NICE_TO_PRIO nice"
    using set_user_nice_params [OF assms(1), of p nice k p] assms by simp
  then show ?thesis
    by (simp add: params_of_def task_nice_def TASK_NICE_def PRIO_TO_NICE_def NICE_TO_PRIO_def)
qed

text \<open>
  Renicing. With a value out of range \<open>set_user_nice\<close> does nothing. Otherwise the task's nice
  value becomes the one given; under an RT policy nothing else changes; under any other policy the
  normal priority follows, and the effective priority too unless a lock waiter has boosted the task
  into the RT range. Policy, class, affinity and all other tasks are unchanged.
\<close>

theorem set_user_nice_spec:
  assumes "env_ok env"
  shows "let t = tasks k p; t' = tasks (set_user_nice env p nice k) p in
    (if -20 \<le> nice \<and> nice \<le> 19 then task_nice (set_user_nice env p nice k) p = nice
     else set_user_nice env p nice k = k)
    \<and> (task_has_rt_policy k p \<longrightarrow> prio t' = prio t \<and> normal_prio t' = normal_prio t)
    \<and> (\<not> task_has_rt_policy k p \<and> -20 \<le> nice \<and> nice \<le> 19 \<and> nice \<noteq> task_nice k p \<longrightarrow>
         normal_prio t' = static_prio t'
         \<and> prio t' = (if rt_prio (prio t) then prio t else normal_prio t'))
    \<and> policy t' = policy t \<and> class_of t' = class_of t \<and> cpus_allowed t' = cpus_allowed t
    \<and> (\<forall>q. q \<noteq> p \<longrightarrow> params_of (tasks (set_user_nice env p nice k) q) = params_of (tasks k q))"
proof -
  have other: "\<forall>q. q \<noteq> p \<longrightarrow> params_of (tasks (set_user_nice env p nice k) q) = params_of (tasks k q)"
    using set_user_nice_params [OF assms] by simp
  note P = set_user_nice_params [OF assms, of p nice k p]
  note E = params_of_def [of "tasks k p"] params_of_def [of "tasks (set_user_nice env p nice k) p"]
  note N = task_nice_def TASK_NICE_def PRIO_TO_NICE_def NICE_TO_PRIO_def
  show ?thesis
  proof (cases "TASK_NICE k p \<noteq> nice \<and> -20 \<le> nice \<and> nice \<le> 19")
    case True
    then show ?thesis
      using P other by (cases "task_has_rt_policy k p") (simp_all add: Let_def E N)
  next
    case False
    then have "set_user_nice env p nice k = k" by (auto simp: set_user_nice_def)
    with False show ?thesis by (auto simp: Let_def task_nice_def)
  qed
qed

theorem set_user_nice_spec_witness:
  "task_nice (set_user_nice env0 2 5 k0) 2 = 5 \<and> prio (tasks (set_user_nice env0 2 5 k0) 2) = 125"
proof -
  have "\<not> task_has_rt_policy k0 2" "task_nice k0 2 = 0" "\<not> rt_prio (prio (tasks k0 2))"
    by code_simp+
  with set_user_nice_spec [OF env_ok_env0, of k0 2 5] show ?thesis
    by (simp add: Let_def task_nice_def TASK_NICE_def PRIO_TO_NICE_def prio_defs)
qed

lemma sys_nice_eq:
  "sys_nice env sys inc k =
     (let n = max (-20) (min 19 (task_nice k (current k) + max (-40) (min 40 inc))) in
      if inc < 0 \<and> \<not> can_nice env sys (current k) n k then (- EPERM, k)
      else if security_task_setnice sys (current k) n \<noteq> 0
      then (security_task_setnice sys (current k) n, k)
      else (0, set_user_nice env (current k) n k))"
proof -
  have 1: "(if 40 < (if i < -40 then -40 else i) then 40 else (if i < -40 then -40 else i))
      = max (-40) (min 40 i)" for i :: int
    by simp
  have 2: "(if 19 < (if n < -20 then -20 else n) then 19 else (if n < -20 then -20 else n))
      = max (-20) (min 19 n)" for n :: int
    by simp
  have 3: "max (-40) (min 40 inc) < 0 \<longleftrightarrow> inc < 0" by auto
  show ?thesis
    unfolding sys_nice_def Let_def 1 2 3 task_nice_def by (rule refl)
qed

text \<open>
  \<open>nice()\<close>. An error leaves the kernel as it was. Success adds the increment, cut to -40..40, to
  the caller's nice value and cuts the sum to -20..19; and a caller that lowered its value was
  within \<open>RLIMIT_NICE\<close> or has \<open>CAP_SYS_NICE\<close>.
\<close>

theorem sys_nice_spec:
  assumes "env_ok env" "sys_nice env sys inc k = (ret, k')"
  shows "let me = current k; new = max (-20) (min 19 (task_nice k me + max (-40) (min 40 inc))) in
    (ret \<noteq> 0 \<longrightarrow> k' = k)
    \<and> (ret = 0 \<longrightarrow> task_nice k' me = new \<and> (inc < 0 \<longrightarrow> can_nice env sys me new k))"
proof -
  let ?me = "current k"
  define n where "n = max (-20) (min 19 (task_nice k ?me + max (-40) (min 40 inc)))"
  have eq: "sys_nice env sys inc k =
     (if inc < 0 \<and> \<not> can_nice env sys ?me n k then (- EPERM, k)
      else if security_task_setnice sys ?me n \<noteq> 0 then (security_task_setnice sys ?me n, k)
      else (0, set_user_nice env ?me n k))"
    using sys_nice_eq [of env sys inc k] by (simp only: n_def Let_def)
  have nice: "task_nice (set_user_nice env ?me n k) ?me = n"
    by (rule set_user_nice_nice [OF assms(1)]) (simp_all add: n_def)
  have "(ret \<noteq> 0 \<longrightarrow> k' = k)
    \<and> (ret = 0 \<longrightarrow> task_nice k' ?me = n \<and> (inc < 0 \<longrightarrow> can_nice env sys ?me n k))"
    using assms(2) nice unfolding eq by (elim if_eqE) auto
  then show ?thesis by (simp only: Let_def n_def)
qed

theorem sys_nice_spec_witness:
  "fst (sys_nice env0 sys0 100 k0) = 0 \<and> task_nice (snd (sys_nice env0 sys0 100 k0)) 0 = 19"
proof -
  have r: "fst (sys_nice env0 sys0 100 k0) = 0"
    by code_simp
  have c: "current k0 = 0" "task_nice k0 0 = 0" by code_simp+
  have "sys_nice env0 sys0 100 k0 = (0, snd (sys_nice env0 sys0 100 k0))"
    using r by (metis prod.collapse)
  from sys_nice_spec [OF env_ok_env0 this] r c show ?thesis by (simp add: Let_def)
qed

section \<open>Priority inheritance and the WRR class\<close>

lemma rt_mutex_setprio_params:
  assumes env: "env_ok env" and "p \<noteq> idle (rqs k (task_cpu (tasks k p)))"
  shows "params_of (tasks (rt_mutex_setprio env p pr k) q) =
    (if q = p then (params_of (tasks k p))\<lparr>tp_class := class_for (policy (tasks k p)) pr, tp_prio := pr\<rparr>
     else params_of (tasks k q))"
proof -
  let ?c = "task_cpu (tasks k p)"
  define a where "a = BUG_ON (pr < 0 \<or> MAX_PRIO < pr) k"
  have a: "tasks a = tasks k" "rqs a = rqs k" by (simp_all add: a_def BUG_ON_def)
  define b where "b = (if on_rq (tasks k p) then dequeue_task env ?c p 0 a else a)"
  define d where "d = (if task_current ?c p a then class_put_prev_task env ?c p b else b)"
  define e where "e = upd_task p (\<lambda>t. t\<lparr>prio := pr\<rparr>) (upd_task p (\<lambda>t. t\<lparr>class_of :=
      (if policy t = SCHED_WRR then wrr_sched_class
       else if rt_prio pr then rt_sched_class else fair_sched_class)\<rparr>) d)"
  have kd: "keep a d" unfolding d_def b_def by (assumption | rule env keeps)+
  have eq: "rt_mutex_setprio env p pr k = check_class_changed env ?c p (class_of (tasks k p)) (prio (tasks k p))
      (if on_rq (tasks k p) then enqueue_task env ?c p (if prio (tasks k p) < pr then ENQUEUE_HEAD else 0)
         (if task_current ?c p a then class_set_curr_task env (class_of (tasks e p)) ?c e else e)
       else (if task_current ?c p a then class_set_curr_task env (class_of (tasks e p)) ?c e else e))"
    unfolding rt_mutex_setprio_def Let_def a_def [symmetric] a if_not_P [OF assms(2)]
      b_def [symmetric] d_def [symmetric] e_def [symmetric]
    by (rule refl)
  have "keep e (rt_mutex_setprio env p pr k)"
    unfolding eq by (assumption | rule env keeps)+
  then have "params_of (tasks (rt_mutex_setprio env p pr k) q) = params_of (tasks e q)" by (rule keepD)
  moreover have "params_of (tasks d x) = params_of (tasks k x)" for x
    using keepD [OF kd, of x] by (simp add: a)
  moreover have "policy (tasks d p) = policy (tasks k p)"
    using params_of_eqD(1) [OF keepD [OF kd, of p]] by (simp add: a)
  ultimately show ?thesis by (simp add: e_def class_for_def)
qed

text \<open>
  C30. Priority inheritance. \<open>rt_mutex_setprio\<close> gives the task the priority lent to it, and the class
  its policy and that priority call for. So a \<open>SCHED_WRR\<close> task that is lent a real-time priority
  stays in the WRR class, below every RT task: the loan does not let it run earlier, whereas any other
  task moves to the RT class. Nothing else of the task, and no other task, changes.
\<close>

theorem rt_mutex_setprio_spec:
  assumes "env_ok env" "p \<noteq> idle (rqs k (task_cpu (tasks k p)))"
  shows "let t = tasks k p; t' = tasks (rt_mutex_setprio env p pr k) p in
    prio t' = pr
    \<and> class_of t' = (if policy t = SCHED_WRR then wrr_sched_class
                      else if pr < MAX_RT_PRIO then rt_sched_class else fair_sched_class)
    \<and> (class_of t' < rt_sched_class \<longleftrightarrow> policy t = SCHED_WRR \<or> MAX_RT_PRIO \<le> pr)
    \<and> policy t' = policy t \<and> normal_prio t' = normal_prio t \<and> static_prio t' = static_prio t
    \<and> on_rq t' = on_rq t \<and> cpus_allowed t' = cpus_allowed t
    \<and> (\<forall>q. q \<noteq> p \<longrightarrow> params_of (tasks (rt_mutex_setprio env p pr k) q) = params_of (tasks k q))"
proof -
  have others: "\<forall>q. q \<noteq> p \<longrightarrow> params_of (tasks (rt_mutex_setprio env p pr k) q) = params_of (tasks k q)"
    using rt_mutex_setprio_params [OF assms, of pr] by simp
  have "params_of (tasks (rt_mutex_setprio env p pr k) p) =
      (params_of (tasks k p))\<lparr>tp_class := class_for (policy (tasks k p)) pr, tp_prio := pr\<rparr>"
    using rt_mutex_setprio_params [OF assms, of pr p] by simp
  then show ?thesis
    using others
    by (simp add: Let_def params_of_def [of "tasks k p"] class_for_def rt_prio_def class_order_defs
        params_of_def [of "tasks (rt_mutex_setprio env p pr k) p"])
qed

theorem rt_mutex_setprio_spec_witness:
  "class_of (tasks (rt_mutex_setprio env0 2 10 (upd_task 2 (\<lambda>t. t\<lparr>policy := 6\<rparr>) k0)) 2) = wrr_sched_class
   \<and> class_of (tasks (rt_mutex_setprio env0 3 10 k0) 3) = rt_sched_class"
proof -
  let ?k = "upd_task 2 (\<lambda>t. t\<lparr>policy := 6\<rparr>) k0"
  have "(2 :: nat) \<noteq> idle (rqs ?k (task_cpu (tasks ?k 2)))" "(3 :: nat) \<noteq> idle (rqs k0 (task_cpu (tasks k0 3)))"
    "policy (tasks ?k 2) = SCHED_WRR" "policy (tasks k0 3) \<noteq> SCHED_WRR"
    by code_simp+
  with rt_mutex_setprio_spec [OF env_ok_env0, of 2 ?k 10] rt_mutex_setprio_spec [OF env_ok_env0, of 3 k0 10]
  show ?thesis by (simp add: Let_def prio_defs)
qed

section \<open>Children of WRR tasks\<close>

lemma keep_class_task_fork [keeps]:
  "\<lbrakk>env_ok env; keep k a\<rbrakk> \<Longrightarrow> keep k (class_task_fork env p a)"
  unfolding class_task_fork_def by (assumption | rule keeps)+

lemma sched_fork_params:
  assumes env: "env_ok env" and "p \<noteq> current k" and "\<not> sched_reset_on_fork (tasks k p)"
  shows "params_of (tasks (sched_fork env p k) p) = (params_of (tasks k p))
    \<lparr>tp_on_rq := False, tp_state := TASK_RUNNING, tp_prio := normal_prio (tasks k (current k)),
      tp_class := (if rt_prio (normal_prio (tasks k (current k))) then class_of (tasks k p)
                   else fair_sched_class), tp_preempt_count := 1\<rparr>"
proof -
  let ?n = "normal_prio (tasks k (current k))"
  define a where "a = upd_task p (\<lambda>t. t\<lparr>state := TASK_RUNNING\<rparr>) (sched_fork_init p k)"
  define b where "b = upd_task p (\<lambda>t. t\<lparr>prio := normal_prio (tasks a (current a))\<rparr>) a"
  define d where "d = (if \<not> rt_prio (prio (tasks b p))
      then upd_task p (\<lambda>t. t\<lparr>class_of := fair_sched_class\<rparr>) b else b)"
  have cur: "current a = current k"
    by (simp add: a_def sched_fork_init_def Let_def)
  have n: "normal_prio (tasks a (current a)) = ?n"
    unfolding cur using assms(2) by (simp add: a_def sched_fork_init_def Let_def)
  have reset: "\<not> sched_reset_on_fork (tasks b p)"
    using assms(3) by (simp add: b_def a_def sched_fork_init_def Let_def)
  have a: "params_of (tasks a p) = (params_of (tasks k p))\<lparr>tp_on_rq := False, tp_state := TASK_RUNNING\<rparr>"
    by (simp add: a_def sched_fork_init_def Let_def params_of_def)
  have oc: "keep d (upd_task p (\<lambda>t. t\<lparr>on_cpu := False\<rparr>) x)" if "keep d x" for x
    using that by (simp add: keep_def params_of_def)
  define m where "m = (if config_smp env
      then upd_task p (\<lambda>t. t\<lparr>on_cpu := False\<rparr>) (set_task_cpu env p (this_cpu k) (class_task_fork env p d))
      else set_task_cpu env p (this_cpu k) (class_task_fork env p d))"
  have m: "sched_fork env p k = upd_task p (\<lambda>t. t\<lparr>preempt_count := 1\<rparr>) m"
    unfolding sched_fork_def Let_def a_def [symmetric] b_def [symmetric] if_not_P [OF reset] d_def [symmetric]
      m_def by (rule refl)
  have "keep d m" unfolding m_def by (assumption | rule env oc keeps)+
  then have "params_of (tasks m p) = params_of (tasks d p)" by (rule keepD)
  then have "params_of (tasks (sched_fork env p k) p) = (params_of (tasks d p))\<lparr>tp_preempt_count := 1\<rparr>"
    by (simp add: m)
  moreover have "(params_of (tasks k p))\<lparr>tp_class := class_of (tasks k p)\<rparr> = params_of (tasks k p)"
    by (simp add: params_of_def)
  ultimately show ?thesis
    by (cases "rt_prio ?n") (simp_all add: d_def b_def n a params_of_def [of "tasks k p"])
qed

text \<open>
  Children of WRR tasks are not scheduled by WRR. A child of a \<open>SCHED_WRR\<close> task that was not
  asked to reset on fork inherits the policy, but \<open>sched_fork\<close> puts it into the fair class, since the
  parent's normal priority is not a real-time one. Setting the policy \<open>SCHED_WRR\<close> on the child does
  not repair this: whatever the call returns, nothing changes, because the policy is already set.
\<close>

theorem wrr_child_in_fair_class:
  assumes "env_ok env" "p \<noteq> current k" "\<not> sched_reset_on_fork (tasks k p)"
    and "policy (tasks k p) = SCHED_WRR" "MAX_RT_PRIO \<le> normal_prio (tasks k (current k))"
  shows "let k' = sched_fork env p k in
    policy (tasks k' p) = SCHED_WRR \<and> class_of (tasks k' p) = fair_sched_class
    \<and> snd (sched_setscheduler_user env sys p SCHED_WRR 0 user k') = k'"
proof -
  let ?k = "sched_fork env p k"
  note P = sched_fork_params [OF assms(1-3)]
  have pol: "policy (tasks ?k p) = SCHED_WRR" and cls: "class_of (tasks ?k p) = fair_sched_class"
    using P assms(4,5) by (simp_all add: params_of_def rt_prio_def)
  have "no_change p SCHED_WRR 0 ?k"
    using pol by (simp add: no_change_def req_policy_def rt_policy_def policy_defs SCHED_RESET_ON_FORK_def)
  then have "snd (sched_setscheduler_user env sys p SCHED_WRR 0 user ?k) = ?k"
    using setscheduler_ways [of env sys p SCHED_WRR 0 user ?k] by (metis prod.collapse)
  with pol cls show ?thesis by (simp add: Let_def)
qed

text \<open>Task 0 runs with \<open>SCHED_WRR\<close>, task 2 is its child; the call on the child returns 0.\<close>

definition k_wrr_parent :: "unit kernel" where
  "k_wrr_parent = upd_task 2 (\<lambda>t. t\<lparr>policy := 6, class_of := wrr_sched_class\<rparr>)
     (upd_task 0 (\<lambda>t. t\<lparr>policy := 6, class_of := wrr_sched_class\<rparr>) k0)"

theorem wrr_child_in_fair_class_witness:
  "class_of (tasks (sched_fork env0 2 k_wrr_parent) 2) = fair_sched_class
   \<and> fst (sched_setscheduler env0 sys0 2 SCHED_WRR 0 (sched_fork env0 2 k_wrr_parent)) = 0"
proof -
  have "(2 :: nat) \<noteq> current k_wrr_parent" "\<not> sched_reset_on_fork (tasks k_wrr_parent 2)"
    "policy (tasks k_wrr_parent 2) = SCHED_WRR"
    "MAX_RT_PRIO \<le> normal_prio (tasks k_wrr_parent (current k_wrr_parent))"
    by code_simp+
  from wrr_child_in_fair_class [OF env_ok_env0 this]
  have "class_of (tasks (sched_fork env0 2 k_wrr_parent) 2) = fair_sched_class" by (simp add: Let_def)
  moreover have "fst (sched_setscheduler env0 sys0 2 SCHED_WRR 0 (sched_fork env0 2 k_wrr_parent)) = 0"
    by code_simp
  ultimately show ?thesis by blast
qed

end
