(* ===== verification/Group_Props.thy ===== *)
theory Group_Props
  imports Sched_Groups Example_State
begin

text \<open>
  Properties of the bandwidth of RT groups: the fixed-point ratio, the admission test over the
  hierarchy, and the files of the cpu cgroup.
\<close>

section \<open>The ratio\<close>

lemma unat_push_bit_u64: "unat x * 2 ^ n < 2 ^ 64 \<Longrightarrow> unat (push_bit n (x :: u64)) = unat x * 2 ^ n"
proof -
  assume a: "unat x * 2 ^ n < 2 ^ 64"
  have "push_bit n x = of_nat (unat x * 2 ^ n)" by (simp add: push_bit_eq_mult)
  then show ?thesis
    using a unat_of_nat [of "unat x * 2 ^ n", where 'a = 64] take_bit_nat_eq_self [of "unat x * 2 ^ n" 64]
    by simp
qed

lemma ratio_bound:
  assumes "(r :: nat) \<le> p" "0 < p"
  shows "r * 2 ^ 20 div p \<le> 2 ^ 20"
proof -
  have "r * 2 ^ 20 div p \<le> p * 2 ^ 20 div p" using assms(1) by (intro div_le_mono) simp
  also have "p * 2 ^ 20 div p = 2 ^ 20" using assms(2) by simp
  finally show ?thesis .
qed

text \<open>
  The ratio of runtime to period, in units of \<open>2 ^ -20\<close>, is exact (rounded down) and at most 1.0
  for every runtime below \<open>2 ^ 44\<close> ns, which is more than the interface can set; a runtime of \<open>2 ^ 44\<close>
  ns (4.9 hours) shifted by 20 bits leaves the 64-bit word, and its ratio is 0.
\<close>

theorem to_ratio_exact:
  assumes "unat runtime < 2 ^ 44" "runtime \<le> period" "period \<noteq> 0"
  shows "unat (to_ratio period runtime) = unat runtime * 2 ^ 20 div unat period
    \<and> to_ratio period runtime \<le> to_ratio period RUNTIME_INF \<and> to_ratio period (2 ^ 44) = 0"
proof -
  have p: "0 < unat period" "unat runtime \<le> unat period"
    using assms(2,3) by (auto simp: word_le_nat_alt unat_gt_0)
  have inf: "unat RUNTIME_INF = 2 ^ 64 - 1" by (simp add: RUNTIME_INF_def unsigned_minus_1_eq_mask mask_eq_exp_minus_1)
  then have ni: "runtime \<noteq> RUNTIME_INF" using assms(1) by auto
  have sh: "unat (push_bit 20 runtime) = unat runtime * 2 ^ 20"
    using assms(1) by (intro unat_push_bit_u64) simp
  have b: "unat runtime * 2 ^ 20 div unat period \<le> 2 ^ 20" by (rule ratio_bound [OF p(2,1)])
  have d: "unat (push_bit 20 runtime div period) = unat runtime * 2 ^ 20 div unat period"
    by (simp add: unat_div_distrib sh)
  have v: "unat (to_ratio period runtime) = unat runtime * 2 ^ 20 div unat period"
    using b ni by (simp add: to_ratio_def unsigned_ucast_eq take_bit_nat_eq_self d)
  have "unat (to_ratio period RUNTIME_INF) = 2 ^ 20" by (simp add: to_ratio_def)
  moreover have "push_bit 20 (2 ^ 44 :: u64) = 0" "(2 ^ 44 :: u64) \<noteq> RUNTIME_INF" by code_simp+
  then have "to_ratio period (2 ^ 44) = 0" unfolding to_ratio_def by (simp only: if_False div_0) simp
  ultimately show ?thesis using v b by (simp add: word_le_nat_alt)
qed

theorem to_ratio_exact_witness: "unat (to_ratio 1000000000 950000000) = 996147"
proof -
  have "unat (950000000 :: u64) < 2 ^ 44" "(950000000 :: u64) \<le> 1000000000" "(1000000000 :: u64) \<noteq> 0"
    by simp_all
  from to_ratio_exact [OF this] show ?thesis by simp
qed

section \<open>Admission\<close>

text \<open>
  What the test is for: a group is schedulable if its runtime fits its period (or is unlimited), it
  has some if RT tasks are in it, and its share is within the global limit and covers the shares
  of its children.
\<close>

definition group_ratio :: "'x kernel \<Rightarrow> tgid \<Rightarrow> u32" where
  "group_ratio k g = to_ratio (rt_period (tg_rt_bandwidth (tgs k g)))
                       (rtb_runtime (tg_rt_bandwidth (tgs k g)))"

definition group_schedulable :: "'x kernel \<Rightarrow> tgid \<Rightarrow> bool" where
  "group_schedulable k g \<longleftrightarrow>
     (let b = tg_rt_bandwidth (tgs k g) in
      (rtb_runtime b \<le> rt_period b \<or> rtb_runtime b = RUNTIME_INF)
      \<and> (rt_bandwidth_enabled k \<and> tg_has_rt_tasks k g \<longrightarrow> rtb_runtime b \<noteq> 0)
      \<and> group_ratio k g \<le> to_ratio (global_rt_period k) (global_rt_runtime k)
      \<and> sum_list (map (group_ratio k) (tg_children (tgs k g))) \<le> group_ratio k g)"

text \<open>The kernel with a group's bandwidth replaced.\<close>

definition with_bandwidth :: "tgid \<Rightarrow> u64 \<Rightarrow> u64 \<Rightarrow> 'x kernel \<Rightarrow> 'x kernel" where
  "with_bandwidth g period runtime =
     upd_tg g (\<lambda>t. t\<lparr>tg_rt_bandwidth := (tg_rt_bandwidth t)\<lparr>rt_period := period, rtb_runtime := runtime\<rparr>\<rparr>)"

lemma tg_period_runtime_with:
  "tg_period_runtime k \<lparr>rd_tg = Some g, rd_period = period, rd_runtime = runtime\<rparr> h =
     (rt_period (tg_rt_bandwidth (tgs (with_bandwidth g period runtime k) h)),
      rtb_runtime (tg_rt_bandwidth (tgs (with_bandwidth g period runtime k) h)))"
  by (simp add: tg_period_runtime_def with_bandwidth_def)

lemma with_bandwidth_frame [simp]:
  "tg_children (tgs (with_bandwidth g a b k) h) = tg_children (tgs k h)"
  "rt_bandwidth_enabled (with_bandwidth g a b k) = rt_bandwidth_enabled k"
  "tg_has_rt_tasks (with_bandwidth g a b k) h = tg_has_rt_tasks k h"
  "global_rt_period (with_bandwidth g a b k) = global_rt_period k"
  "global_rt_runtime (with_bandwidth g a b k) = global_rt_runtime k"
  by (simp_all add: with_bandwidth_def rt_bandwidth_enabled_def tg_has_rt_tasks_def rt_task_def
      global_rt_period_def global_rt_runtime_def)

lemma if_error_0: "(if a then - numeral n else x) = (0 :: int) \<longleftrightarrow> \<not> a \<and> x = 0"
  by simp

lemma tg_rt_schedulable_iff:
  "tg_rt_schedulable k \<lparr>rd_tg = Some g, rd_period = period, rd_runtime = runtime\<rparr> h = 0
     \<longleftrightarrow> group_schedulable (with_bandwidth g period runtime k) h"
  unfolding tg_rt_schedulable_def tg_period_runtime_with group_schedulable_def Let_def prod.case
    if_error_0 with_bandwidth_frame group_ratio_def [symmetric] not_less de_Morgan_conj
  by blast

lemma tg_rt_schedulable_values: "tg_rt_schedulable k d h \<in> {0, - EINVAL, - EBUSY}"
  by (simp add: tg_rt_schedulable_def Let_def split: prod.split)

lemma tg_nop_pair: "tg_nop = (\<lambda>g. Pair 0)"
  by (simp add: tg_nop_def fun_eq_iff)

text \<open>A walk whose visitor only tests returns the first error in the order of the visits.\<close>

fun first_error :: "(tgid \<Rightarrow> int) \<Rightarrow> tgid list \<Rightarrow> int" where
  "first_error f [] = 0"
| "first_error f (g # gs) = (if f g \<noteq> 0 then f g else first_error f gs)"

lemma first_error_append:
  "first_error f (xs @ ys) = (if first_error f xs \<noteq> 0 then first_error f xs else first_error f ys)"
  by (induction xs) auto

lemma first_error_0: "first_error f gs = 0 \<longleftrightarrow> (\<forall>g \<in> set gs. f g = 0)"
  by (induction gs) auto

lemma first_error_in: "first_error f gs \<in> insert 0 (f ` set gs)"
  by (induction gs) auto

lemma walk_rec_test:
  "walk_rec (\<lambda>g. Pair (f g)) (\<lambda>g. Pair 0) t s = (first_error f (tg_ids t), s)"
proof (induction t)
  case (Tg g ts)
  have "walk_recs (\<lambda>g. Pair (f g)) (\<lambda>g. Pair 0) us s = (first_error f (concat (map tg_ids us)), s)"
    if "set us \<subseteq> set ts" for us
    using that by (induction us) (auto simp: Tg.IH first_error_append)
  then show ?case by simp
qed

text \<open>The groups of the system form a tree below the root group.\<close>

definition group_tree :: "'x kernel \<Rightarrow> tg_tree \<Rightarrow> bool" where
  "group_tree k t \<longleftrightarrow> tg_root t = ROOT_TG \<and> distinct (tg_ids t)
     \<and> tg_linked (\<lambda>g. tg_children (tgs k g)) (\<lambda>g. tg_parent (tgs k g)) t"

lemma rt_schedulable_first:
  assumes "group_tree k t"
  shows "rt_schedulable tg period runtime k =
    Some (first_error (tg_rt_schedulable k \<lparr>rd_tg = tg, rd_period = period, rd_runtime = runtime\<rparr>)
            (tg_ids t))"
proof -
  let ?ch = "\<lambda>g. tg_children (tgs k g)" and ?pa = "\<lambda>g. tg_parent (tgs k g)"
  have t: "tg_root t = ROOT_TG" "tg_linked ?ch ?pa t" "distinct (tg_ids t)"
    using assms by (simp_all add: group_tree_def)
  have w: "walk_tg_tree_from ?ch ?pa ROOT_TG down up s = Some (walk_rec down up t s)"
    for down up and s :: 's
    using walk_loop_tree [OF t(2,3), of "tg_root t" down up s] t(1)
    by (simp add: walk_tg_tree_from_def walk_after_def split: prod.splits)
  show ?thesis
    unfolding rt_schedulable_def w tg_nop_pair walk_rec_test by simp
qed

lemma fold_rt_runtime_frame:
  "tgs (fold (\<lambda>i. upd_rt_rq (g, i) (\<lambda>q. q\<lparr>rt_runtime := v\<rparr>)) is k) = tgs k
   \<and> tasks (fold (\<lambda>i. upd_rt_rq (g, i) (\<lambda>q. q\<lparr>rt_runtime := v\<rparr>)) is k) = tasks k
   \<and> threads (fold (\<lambda>i. upd_rt_rq (g, i) (\<lambda>q. q\<lparr>rt_runtime := v\<rparr>)) is k) = threads k
   \<and> sysctl_sched_rt_period (fold (\<lambda>i. upd_rt_rq (g, i) (\<lambda>q. q\<lparr>rt_runtime := v\<rparr>)) is k) = sysctl_sched_rt_period k
   \<and> sysctl_sched_rt_runtime (fold (\<lambda>i. upd_rt_rq (g, i) (\<lambda>q. q\<lparr>rt_runtime := v\<rparr>)) is k) = sysctl_sched_rt_runtime k
   \<and> rt_rqs (fold (\<lambda>i. upd_rt_rq (g, i) (\<lambda>q. q\<lparr>rt_runtime := v\<rparr>)) is k) r =
       (if fst r = g \<and> snd r \<in> set is then (rt_rqs k r)\<lparr>rt_runtime := v\<rparr> else rt_rqs k r)"
  by (induction "is" arbitrary: k) (auto simp: prod_eq_iff)

lemma group_schedulable_cong:
  assumes "tgs k' = tgs k" "tasks k' = tasks k" "threads k' = threads k"
    "sysctl_sched_rt_period k' = sysctl_sched_rt_period k"
    "sysctl_sched_rt_runtime k' = sysctl_sched_rt_runtime k"
    "\<And>r. rt_tg (rt_rqs k' r) = rt_tg (rt_rqs k r)"
  shows "group_schedulable k' g = group_schedulable k g"
proof -
  have "group_ratio k' = group_ratio k" using assms(1) by (simp add: group_ratio_def fun_eq_iff)
  then show ?thesis
    using assms by (simp add: group_schedulable_def rt_bandwidth_enabled_def tg_has_rt_tasks_def
        rt_task_def global_rt_period_def global_rt_runtime_def)
qed

lemma set_rt_bandwidth_value:
  assumes "group_tree k t"
  shows "tg_set_rt_bandwidth env g period runtime k =
    (let e = first_error (tg_rt_schedulable k \<lparr>rd_tg = Some g, rd_period = period, rd_runtime = runtime\<rparr>)
               (tg_ids t)
     in Some (e, if e = 0 then fold (\<lambda>i. upd_rt_rq (g, i) (\<lambda>q. q\<lparr>rt_runtime := runtime\<rparr>))
              (for_each_cpu env (cpu_possible_mask env)) (with_bandwidth g period runtime k) else k))"
  by (simp add: tg_set_rt_bandwidth_def rt_schedulable_first [OF assms] with_bandwidth_def Let_def)

lemma set_rt_bandwidth_tgs:
  assumes "group_tree k t" "tg_set_rt_bandwidth env g period runtime k = Some (0, k')"
  shows "tgs k' = tgs (with_bandwidth g period runtime k)"
  using assms(2) unfolding set_rt_bandwidth_value [OF assms(1)]
  by (auto simp: Let_def fold_rt_runtime_frame split: if_splits)


text \<open>The root group with 950 ms of each second, and two groups below it with 300 and 200 ms.\<close>

definition k_groups :: "unit kernel" where
  "k_groups = k0\<lparr>tgs := (\<lambda>g. tg0\<lparr>
     tg_rt_bandwidth := \<lparr>rt_period = 1000000000,
       rtb_runtime = (if g = 1 then 300000000 else if g = 2 then 200000000 else 950000000),
       rt_period_timer_active = False\<rparr>,
     tg_parent := (if g = 0 then None else Some 0),
     tg_children := (if g = 0 then [1, 2] else [])\<rparr>)\<rparr>"

definition t_groups :: tg_tree where
  "t_groups = Tg 0 [Tg 1 [], Tg 2 []]"

lemma group_tree_k_groups: "group_tree k_groups t_groups"
  by (simp add: group_tree_def t_groups_def k_groups_def ROOT_TG_def)


section \<open>The files\<close>

lemma ucast_u32_periodic: "(ucast (val + 2 ^ 32 * m :: u64) :: u32) = ucast val"
  by transfer (simp add: take_bit_eq_mod mod_mod_cancel)

lemma small_long:
  assumes "unat (val :: u64) < 2 ^ 31"
  shows "sint (ucast val :: u32) = int (unat val)" "scast (ucast val :: u32) = val"
proof -
  have "int (unat val) < int (2 ^ 31)" using assms by (simp only: of_nat_less_iff)
  moreover have "int (unat val) = uint val" by simp
  ultimately have b: "uint val < 2 ^ 31" by simp
  have "- (2 ^ 31) \<le> (0 :: int)" by simp
  also have "0 \<le> uint val" by simp
  finally have a: "- (2 ^ 31) \<le> uint val" .
  show s: "sint (ucast val :: u32) = int (unat val)"
    using signed_take_bit_int_eq_self [of 31 "uint val"] a b by (simp add: signed_ucast_eq)
  have "(scast (ucast val :: u32) :: u64) = word_of_int (sint (ucast val :: u32))" by simp
  then show "scast (ucast val :: u32) = val" unfolding s by simp
qed

text \<open>
  Writing and reading \<open>rt_runtime_us\<close>. The number is a \<open>long\<close> on the way, 32 bits on these
  machines: numbers that differ by a multiple of \<open>2 ^ 32\<close> are written alike (\<open>2 ^ 32\<close> microseconds
  as 0). A number below \<open>2 ^ 31\<close> that is accepted is read back, and a number that is negative as
  a \<open>long\<close> is read back as -1, unlimited.
\<close>

theorem rt_runtime_write_read:
  assumes tree: "group_tree k t" and wr: "cpu_rt_runtime_write env tg val k = Some (0, k')"
  shows "cpu_rt_runtime_write env tg (val + 2 ^ 32 * m) k = Some (0, k')
    \<and> (unat val < 2 ^ 31 \<longrightarrow> cpu_rt_runtime_read tg k' = val)
    \<and> (sint (ucast val :: u32) < 0 \<longrightarrow> cpu_rt_runtime_read tg k' = -1)"
proof -
  let ?p = "rt_period (tg_rt_bandwidth (tgs k tg))"
  define r where "r = (if sint (ucast val :: u32) < 0 then RUNTIME_INF
                       else (scast (ucast val :: u32) :: u64) * NSEC_PER_USEC)"
  have "tg_set_rt_bandwidth env tg ?p r k = Some (0, k')"
    using wr by (simp add: cpu_rt_runtime_write_def sched_group_set_rt_runtime_def Let_def r_def)
  then have "tgs k' = tgs (with_bandwidth tg ?p r k)"
    using set_rt_bandwidth_tgs [OF tree] by blast
  then have rd: "cpu_rt_runtime_read tg k' = scast (if r = RUNTIME_INF then -1 else ucast (r div NSEC_PER_USEC) :: u32)"
    by (simp add: cpu_rt_runtime_read_def sched_group_rt_runtime_def with_bandwidth_def Let_def)
  have "cpu_rt_runtime_read tg k' = val" if v: "unat val < 2 ^ 31"
  proof -
    have r: "r = val * NSEC_PER_USEC" using small_long [OF v] by (simp add: r_def)
    have n: "unat (val * NSEC_PER_USEC) = unat val * 1000"
      using v by (simp add: NSEC_PER_USEC_def unat_mult_lem [THEN iffD1])
    have "r \<noteq> RUNTIME_INF"
    proof
      assume "r = RUNTIME_INF"
      then have "unat r = 2 ^ 64 - 1"
        by (simp add: RUNTIME_INF_def unsigned_minus_1_eq_mask mask_eq_exp_minus_1)
      with n r v show False by simp
    qed
    moreover have "r div NSEC_PER_USEC = val"
    proof -
      have "unat (r div NSEC_PER_USEC) = unat val"
        unfolding r unat_div_distrib n by (simp add: NSEC_PER_USEC_def)
      then show ?thesis by (simp add: word_unat_eq_iff)
    qed
    ultimately show ?thesis unfolding rd using small_long(2) [OF v] by simp
  qed
  moreover have "cpu_rt_runtime_read tg k' = -1" if "sint (ucast val :: u32) < 0"
    using that unfolding rd by (simp add: r_def)
  moreover have "cpu_rt_runtime_write env tg (val + 2 ^ 32 * m) k = Some (0, k')"
    using wr by (simp only: cpu_rt_runtime_write_def ucast_u32_periodic)
  ultimately show ?thesis by blast
qed

theorem rt_runtime_write_read_witness:
  "\<exists>k'. cpu_rt_runtime_write env0 1 700000 k_groups = Some (0, k')
     \<and> cpu_rt_runtime_write env0 1 (700000 + 2 ^ 32) k_groups = Some (0, k')
     \<and> cpu_rt_runtime_read 1 k' = 700000"
proof -
  have "map_option fst (cpu_rt_runtime_write env0 1 700000 k_groups) = Some 0"
  proof -
    have "list_all (group_schedulable (with_bandwidth 1 1000000000 700000000 k_groups)) (tg_ids t_groups)"
      by code_simp
    then have "first_error (tg_rt_schedulable k_groups
        \<lparr>rd_tg = Some 1, rd_period = 1000000000, rd_runtime = 700000000\<rparr>) (tg_ids t_groups) = 0"
      unfolding first_error_0 tg_rt_schedulable_iff list_all_iff .
    moreover have "rt_period (tg_rt_bandwidth (tgs k_groups 1)) = 1000000000"
      by (simp add: k_groups_def)
    ultimately show ?thesis
      by (simp add: cpu_rt_runtime_write_def sched_group_set_rt_runtime_def Let_def NSEC_PER_USEC_def
          set_rt_bandwidth_value [OF group_tree_k_groups])
  qed
  then obtain k' where "cpu_rt_runtime_write env0 1 700000 k_groups = Some (0, k')" by auto
  from rt_runtime_write_read [OF group_tree_k_groups this, of 1] this show ?thesis by auto
qed

section \<open>Groups with RT tasks\<close>

text \<open>
  The test that a group with RT tasks keeps some runtime does not see them. It asks for the group
  of the root runqueue of each task's cpu; since these all belong to the root group, every other
  group appears to have no RT task, whatever tasks are in it, and no change of its bandwidth alone is
  refused with \<open>-EBUSY\<close> unless the root group is left without runtime.
\<close>

theorem rt_tasks_seen_in_root_only:
  assumes "\<And>c. rt_tg (rt_rqs k (root_rt c)) = Some ROOT_TG" "group_tree k t" "g \<noteq> ROOT_TG"
    and "rtb_runtime (tg_rt_bandwidth (tgs k ROOT_TG)) \<noteq> 0"
  shows "\<not> tg_has_rt_tasks k g
    \<and> (\<forall>k'. tg_set_rt_bandwidth env g period runtime k \<noteq> Some (- EBUSY, k'))"
proof -
  have no: "\<not> tg_has_rt_tasks k h" if "h \<noteq> ROOT_TG" for h
    using that assms(1) by (simp add: tg_has_rt_tasks_def list_ex_iff)
  let ?d = "\<lparr>rd_tg = Some g, rd_period = period, rd_runtime = runtime\<rparr>"
  have "tg_rt_schedulable k ?d h \<noteq> - EBUSY" for h
  proof (cases "h = ROOT_TG")
    case True
    then have "snd (tg_period_runtime k ?d h) \<noteq> 0"
      using assms(3,4) by (simp add: tg_period_runtime_def)
    then show ?thesis by (auto simp: tg_rt_schedulable_def Let_def split: prod.split)
  next
    case False
    then show ?thesis using no by (simp add: tg_rt_schedulable_def Let_def split: prod.split)
  qed
  then have "first_error (tg_rt_schedulable k ?d) (tg_ids t) \<noteq> - EBUSY"
    using first_error_in [of "tg_rt_schedulable k ?d" "tg_ids t"] by force
  then show ?thesis
    using no [OF assms(3)] unfolding set_rt_bandwidth_value [OF assms(2)] by (simp add: Let_def)
qed

text \<open>Task 3 is an RT task of group 1, and group 1 is left with no runtime.\<close>

definition k_rt_group :: "unit kernel" where
  "k_rt_group = upd_task 3 (\<lambda>t. t\<lparr>prio := 50, policy := 1, class_of := rt_sched_class\<rparr>) k_groups"

theorem rt_tasks_seen_in_root_only_witness:
  "sched_task_group (tasks k_rt_group 3) = 1 \<and> rt_task k_rt_group 3
   \<and> \<not> tg_has_rt_tasks k_rt_group 1"
proof -
  have t: "group_tree k_rt_group t_groups"
    using group_tree_k_groups by (simp add: group_tree_def k_rt_group_def)
  have r: "rt_tg (rt_rqs k_rt_group (root_rt c)) = Some ROOT_TG" for c
    by (simp add: k_rt_group_def k_groups_def k0_def ROOT_TG_def)
  have "(1 :: nat) \<noteq> ROOT_TG" "rtb_runtime (tg_rt_bandwidth (tgs k_rt_group ROOT_TG)) \<noteq> 0"
    by (simp_all add: k_rt_group_def k_groups_def ROOT_TG_def)
  with rt_tasks_seen_in_root_only [OF r t] have "\<not> tg_has_rt_tasks k_rt_group 1" by blast
  moreover have "sched_task_group (tasks k_rt_group 3) = 1" "rt_task k_rt_group 3" by code_simp+
  ultimately show ?thesis by blast
qed

end
