(* ===== verification/Rt_Props.thy ===== *)
theory Rt_Props
  imports Sched_Balance Example_State
begin

text \<open>
  Properties of the RT class: the runtime that cpus lend each other, and the list of pushable
  tasks.
\<close>

section \<open>Lending runtime\<close>

lemma sum_move:
  fixes f :: "'a \<Rightarrow> 'b :: ab_group_add"
  assumes "finite S" "i \<in> S" "j \<in> S" "i \<noteq> j"
  shows "sum (f(i := f i - d, j := f j + d)) S = sum f S"
proof -
  let ?f = "f(i := f i - d, j := f j + d)"
  have S: "S = insert i (insert j (S - {i, j}))" using assms by auto
  have "sum ?f S = ?f i + (?f j + sum ?f (S - {i, j}))"
    using assms by (subst S) simp
  also have "sum ?f (S - {i, j}) = sum f (S - {i, j})" by (rule sum.cong) auto
  also have "?f i + (?f j + sum f (S - {i, j})) = f i + (f j + sum f (S - {i, j}))"
    using assms(4) by (simp add: algebra_simps)
  also have "\<dots> = sum f S" using assms by (subst (2) S) simp
  finally show ?thesis .
qed

text \<open>The runtime of a group over the cpus of the root domain.\<close>

definition group_runtime :: "'x env \<Rightarrow> tgid \<Rightarrow> 'x kernel \<Rightarrow> u64" where
  "group_runtime env g k = (\<Sum>i \<in> {i. i < nr_cpu_ids env \<and> rd_span k i}. rt_runtime (rt_rqs k (g, i)))"

text \<open>
  What holds after every step of the loop, relative to the kernel \<open>kb\<close> before it: only the runtimes
  of the group's runqueues changed, their sum did not, the borrower has at least what it had and at
  most a period, and every other runqueue has what it had or less, but not less than it used.
\<close>

definition lend_inv :: "'x env \<Rightarrow> rt_rq_ref \<Rightarrow> u64 \<Rightarrow> 'x kernel \<Rightarrow> 'x kernel \<Rightarrow> bool" where
  "lend_inv env r period kb k \<longleftrightarrow>
     (\<exists>f. k = rt_rqs_update (\<lambda>m q. (m q)\<lparr>rt_runtime := f q\<rparr>) kb)
     \<and> group_runtime env (fst r) k = group_runtime env (fst r) kb
     \<and> rt_runtime (rt_rqs kb r) \<le> rt_runtime (rt_rqs k r) \<and> rt_runtime (rt_rqs k r) \<le> period
     \<and> (\<forall>q. q \<noteq> r \<longrightarrow> rt_runtime (rt_rqs k q) = rt_runtime (rt_rqs kb q)
          \<or> rt_runtime (rt_rqs kb q) \<noteq> RUNTIME_INF
            \<and> rt_time (rt_rqs kb q) \<le> rt_runtime (rt_rqs k q)
            \<and> rt_runtime (rt_rqs k q) \<le> rt_runtime (rt_rqs kb q))"

lemma uint_small: "unat (a :: u64) < 2 ^ 63 \<Longrightarrow> uint a < 9223372036854775808"
proof -
  assume "unat a < 2 ^ 63"
  then have "int (unat a) < int (2 ^ 63)" by (simp only: of_nat_less_iff)
  moreover have "int (unat a) = uint a" by simp
  ultimately show "uint a < 9223372036854775808" by simp
qed

lemma uint_nonneg: "(0 :: int) \<le> uint (a :: u64)"
  by simp

lemma sint_small: "unat (a :: u64) < 2 ^ 63 \<Longrightarrow> sint a = uint a"
proof -
  assume "unat a < 2 ^ 63"
  note b = uint_small [OF this] uint_nonneg [of a]
  have lo: "- 9223372036854775808 \<le> uint a" using b by linarith
  have "sint a = signed_take_bit 63 (uint a)" by (simp add: sint_uint)
  also have "\<dots> = uint a"
    by (rule signed_take_bit_int_eq_self) (use b lo in simp_all)
  finally show ?thesis .
qed

lemma sint_pos_diff:
  assumes "unat (a :: u64) < 2 ^ 63" "unat b < 2 ^ 63" "0 < sint (a - b)"
  shows "b < a" "unat (a - b) = unat a - unat b"
proof -
  note bounds = uint_small [OF assms(1)] uint_small [OF assms(2)] uint_nonneg [of a] uint_nonneg [of b]
  have range: "- 9223372036854775808 \<le> uint a - uint b" "uint a - uint b < 9223372036854775808"
    using bounds by linarith+
  have "sint (a - b) = signed_take_bit 63 (sint a - sint b)" by (simp add: sint_word_ariths)
  also have "\<dots> = uint a - uint b"
    unfolding sint_small [OF assms(1)] sint_small [OF assms(2)]
    by (rule signed_take_bit_int_eq_self) (use range in simp_all)
  finally have "uint b < uint a" using assms(3) by simp
  then show lt: "b < a" by (simp add: word_less_def)
  then show "unat (a - b) = unat a - unat b" by (simp add: unat_sub less_imp_le)
qed

text \<open>The amount that is moved.\<close>

definition lent :: "u64 \<Rightarrow> u64 \<Rightarrow> u64 \<Rightarrow> u64 \<Rightarrow> u64" where
  "lent spare weight period own =
     (if period < own + spare div weight then period - own else spare div weight)"

lemma lent_bounds:
  assumes "unat spare < 2 ^ 63" "unat period < 2 ^ 63" "own \<le> period"
  shows "lent spare weight period own \<le> spare" "own \<le> own + lent spare weight period own"
    "own + lent spare weight period own \<le> period"
proof -
  let ?d = "spare div weight"
  have d: "unat ?d \<le> unat spare" by (simp add: unat_div_distrib)
  have o: "unat own \<le> unat period" using assms(3) by (simp add: word_le_nat_alt)
  have "unat own + unat ?d < 2 ^ LENGTH(64)" using assms d o by simp
  then have sum: "unat (own + ?d) = unat own + unat ?d" by (rule unat_add_lem [THEN iffD1])
  have dif: "unat (period - own) = unat period - unat own" using assms(3) by (rule unat_sub)
  have "unat own + unat (period - own) < 2 ^ LENGTH(64)" using dif o assms(2) by simp
  show "lent spare weight period own \<le> spare"
    using d sum dif by (auto simp: lent_def word_le_nat_alt word_less_nat_alt)
  show "own \<le> own + lent spare weight period own"
    using sum o assms(3) by (auto simp: lent_def word_le_nat_alt)
  show "own + lent spare weight period own \<le> period"
    by (auto simp: lent_def)
qed


text \<open>
  The sizes under which the code's signed arithmetic is exact: no runqueue of the group that takes
  part has a runtime or a used time of \<open>2^63\<close> nanoseconds, 292 years.
\<close>

definition lending_ok :: "'x env \<Rightarrow> rt_rq_ref \<Rightarrow> u64 \<Rightarrow> 'x kernel \<Rightarrow> bool" where
  "lending_ok env r period k \<longleftrightarrow>
     rt_tg (rt_rqs k r) = Some (fst r) \<and> snd r < nr_cpu_ids env \<and> rd_span k (snd r)
     \<and> unat period < 2 ^ 63 \<and> rt_runtime (rt_rqs k r) \<le> period
     \<and> (\<forall>i < nr_cpu_ids env. rt_runtime (rt_rqs k (fst r, i)) = RUNTIME_INF
          \<or> unat (rt_runtime (rt_rqs k (fst r, i))) < 2 ^ 63
            \<and> unat (rt_time (rt_rqs k (fst r, i))) < 2 ^ 63)"

lemma lend_inv_refl: "rt_runtime (rt_rqs k r) \<le> period \<Longrightarrow> lend_inv env r period k k"
proof -
  have "k = rt_rqs_update (\<lambda>m q. (m q)\<lparr>rt_runtime := rt_runtime (m q)\<rparr>) k" by simp
  then have "\<exists>f. k = rt_rqs_update (\<lambda>m q. (m q)\<lparr>rt_runtime := f q\<rparr>) k"
    by (intro exI [of _ "\<lambda>q. rt_runtime (rt_rqs k q)"]) (cases k, simp)
  then show "rt_runtime (rt_rqs k r) \<le> period \<Longrightarrow> lend_inv env r period k k"
    by (simp add: lend_inv_def)
qed

text \<open>Moving \<open>d\<close> from one runqueue of the group to another.\<close>

definition move_runtime :: "rt_rq_ref \<Rightarrow> rt_rq_ref \<Rightarrow> u64 \<Rightarrow> 'x kernel \<Rightarrow> 'x kernel" where
  "move_runtime it r d k =
     upd_rt_rq r (\<lambda>q. q\<lparr>rt_runtime := rt_runtime q + d\<rparr>)
       (upd_rt_rq it (\<lambda>q. q\<lparr>rt_runtime := rt_runtime q - d\<rparr>) k)"

lemma move_runtime_runtime:
  "it \<noteq> r \<Longrightarrow> rt_runtime (rt_rqs (move_runtime it r d k) q)
     = (if q = r then rt_runtime (rt_rqs k r) + d
        else if q = it then rt_runtime (rt_rqs k it) - d else rt_runtime (rt_rqs k q))"
  by (simp add: move_runtime_def)

lemma group_runtime_move:
  assumes "it \<noteq> r" "fst it = fst r" "snd it < nr_cpu_ids env" "rd_span k (snd it)"
    "snd r < nr_cpu_ids env" "rd_span k (snd r)"
  shows "group_runtime env (fst r) (move_runtime it r d k) = group_runtime env (fst r) k"
proof -
  obtain g i j where r: "r = (g, i)" and it: "it = (g, j)" using assms(2) by (cases r, cases it) simp
  let ?S = "{i. i < nr_cpu_ids env \<and> rd_span k i}" and ?f = "\<lambda>i. rt_runtime (rt_rqs k (g, i))"
  have ne: "j \<noteq> i" using assms(1) r it by simp
  have "rd_span (move_runtime it r d k) = rd_span k" by (simp add: move_runtime_def)
  then have "group_runtime env (fst r) (move_runtime it r d k)
      = (\<Sum>c \<in> ?S. rt_runtime (rt_rqs (move_runtime it r d k) (g, c)))"
    by (simp add: group_runtime_def r)
  also have "\<dots> = sum (?f(j := ?f j - d, i := ?f i + d)) ?S"
    using ne by (intro sum.cong refl) (simp add: move_runtime_runtime r it)
  also have "\<dots> = sum ?f ?S" using assms ne r it by (intro sum_move) auto
  finally show ?thesis by (simp add: group_runtime_def r)
qed

text \<open>What holds of a kernel in which only the lent runtimes changed.\<close>

lemma lend_inv_frame:
  assumes "lend_inv env r period kb k"
  shows "rd_span k = rd_span kb" "rt_tg (rt_rqs k q) = rt_tg (rt_rqs kb q)"
    "rt_time (rt_rqs k q) = rt_time (rt_rqs kb q)"
proof -
  obtain f where k: "k = rt_rqs_update (\<lambda>m q. (m q)\<lparr>rt_runtime := f q\<rparr>) kb"
    using assms unfolding lend_inv_def by blast
  show "rd_span k = rd_span kb" "rt_tg (rt_rqs k q) = rt_tg (rt_rqs kb q)"
    "rt_time (rt_rqs k q) = rt_time (rt_rqs kb q)" unfolding k by simp_all
qed

lemma lend_inv_other:
  assumes "lend_inv env r period kb k" "q \<noteq> r" "rt_runtime (rt_rqs k q) \<noteq> RUNTIME_INF"
  shows "rt_runtime (rt_rqs k q) \<le> rt_runtime (rt_rqs kb q)" "rt_runtime (rt_rqs kb q) \<noteq> RUNTIME_INF"
proof -
  have "rt_runtime (rt_rqs k q) = rt_runtime (rt_rqs kb q)
      \<or> rt_runtime (rt_rqs kb q) \<noteq> RUNTIME_INF \<and> rt_time (rt_rqs kb q) \<le> rt_runtime (rt_rqs k q)
        \<and> rt_runtime (rt_rqs k q) \<le> rt_runtime (rt_rqs kb q)"
    using assms(1,2) unfolding lend_inv_def by blast
  with assms(3) show "rt_runtime (rt_rqs k q) \<le> rt_runtime (rt_rqs kb q)"
    "rt_runtime (rt_rqs kb q) \<noteq> RUNTIME_INF" by auto
qed

lemma lend_inv_small:
  assumes "lending_ok env r period kb" "lend_inv env r period kb k" "i < nr_cpu_ids env"
    "(fst r, i) \<noteq> r" "rt_runtime (rt_rqs k (fst r, i)) \<noteq> RUNTIME_INF"
  shows "unat (rt_runtime (rt_rqs k (fst r, i))) < 2 ^ 63"
    "unat (rt_time (rt_rqs k (fst r, i))) < 2 ^ 63"
proof -
  let ?q = "(fst r, i)"
  note other = lend_inv_other [OF assms(2,4,5)]
  have "unat (rt_runtime (rt_rqs kb ?q)) < 2 ^ 63 \<and> unat (rt_time (rt_rqs kb ?q)) < 2 ^ 63"
    using assms(1,3) other(2) unfolding lending_ok_def by blast
  with other(1) show "unat (rt_runtime (rt_rqs k ?q)) < 2 ^ 63" "unat (rt_time (rt_rqs k ?q)) < 2 ^ 63"
    using lend_inv_frame(3) [OF assms(2), of ?q] by (auto simp: word_le_nat_alt)
qed

lemma word_take_bounds:
  assumes "(d :: u64) \<le> a - t" "t \<le> a"
  shows "t \<le> a - d" "a - d \<le> a"
proof -
  have "unat (a - t) = unat a - unat t" using assms(2) by (rule unat_sub)
  then have d: "unat d \<le> unat a - unat t" "unat t \<le> unat a"
    using assms by (simp_all add: word_le_nat_alt)
  then have "d \<le> a" by (simp add: word_le_nat_alt)
  then have "unat (a - d) = unat a - unat d" by (rule unat_sub)
  with d show "t \<le> a - d" "a - d \<le> a" by (simp_all add: word_le_nat_alt)
qed

lemma balance_step_cases:
  assumes "rt_tg (rt_rqs k r) = Some (fst r)"
    and step: "balance_step r weight period (k, got, left) i = (k', got', left')"
    and moved: "k' \<noteq> k"
  obtains "(fst r, i) \<noteq> r" "rt_runtime (rt_rqs k (fst r, i)) \<noteq> RUNTIME_INF"
    "0 < sint (rt_runtime (rt_rqs k (fst r, i)) - rt_time (rt_rqs k (fst r, i)))"
    "k' = move_runtime (fst r, i) r
       (lent (rt_runtime (rt_rqs k (fst r, i)) - rt_time (rt_rqs k (fst r, i))) weight period
          (rt_runtime (rt_rqs k r))) k"
  using step moved assms(1)
  by (auto simp: balance_step_def Let_def move_runtime_def lent_def split: if_splits)

lemma lend_inv_move:
  assumes inv: "lend_inv env r period kb k" and ne: "it \<noteq> r" "fst it = fst r"
    and span: "snd it < nr_cpu_ids env" "rd_span kb (snd it)" "snd r < nr_cpu_ids env" "rd_span kb (snd r)"
    and inf: "rt_runtime (rt_rqs k it) \<noteq> RUNTIME_INF"
    and d: "d \<le> rt_runtime (rt_rqs k it) - rt_time (rt_rqs k it)"
      "rt_time (rt_rqs k it) \<le> rt_runtime (rt_rqs k it)"
      "rt_runtime (rt_rqs k r) \<le> rt_runtime (rt_rqs k r) + d" "rt_runtime (rt_rqs k r) + d \<le> period"
  shows "lend_inv env r period kb (move_runtime it r d k)"
proof -
  note run = move_runtime_runtime [OF ne(1)]
  obtain f where k: "k = rt_rqs_update (\<lambda>m q. (m q)\<lparr>rt_runtime := f q\<rparr>) kb"
    using inv unfolding lend_inv_def by blast
  have "move_runtime it r d k
      = rt_rqs_update (\<lambda>m q. (m q)\<lparr>rt_runtime := (f(it := f it - d, r := f r + d)) q\<rparr>) kb"
    unfolding k move_runtime_def using ne(1) by (simp add: fun_eq_iff)
  then have "\<exists>f. move_runtime it r d k = rt_rqs_update (\<lambda>m q. (m q)\<lparr>rt_runtime := f q\<rparr>) kb" by blast
  moreover have "group_runtime env (fst r) (move_runtime it r d k) = group_runtime env (fst r) kb"
    using group_runtime_move [OF ne span(1), of k d] span inv lend_inv_frame [OF inv]
    by (simp add: lend_inv_def)
  moreover have "rt_runtime (rt_rqs kb r) \<le> rt_runtime (rt_rqs (move_runtime it r d k) r)"
    using inv d(3) unfolding lend_inv_def run by (auto intro: order_trans)
  moreover have "rt_time (rt_rqs kb it) \<le> rt_runtime (rt_rqs k it) - d
      \<and> rt_runtime (rt_rqs k it) - d \<le> rt_runtime (rt_rqs kb it) \<and> rt_runtime (rt_rqs kb it) \<noteq> RUNTIME_INF"
  proof -
    show ?thesis
      using lend_inv_other [OF inv ne(1) inf] word_take_bounds [OF d(1,2)] lend_inv_frame(3) [OF inv, of it] by (auto intro: order_trans)
  qed
  ultimately show ?thesis
    using inv d(4) unfolding lend_inv_def run by auto
qed

lemma balance_step_inv:
  assumes ok: "lending_ok env r period kb" and inv: "lend_inv env r period kb k"
    and i: "i < nr_cpu_ids env" "rd_span kb i"
    and step: "balance_step r weight period (k, got, left) i = (k', got', left')"
  shows "lend_inv env r period kb k'"
proof (cases "k' = k")
  case True
  with inv show ?thesis by simp
next
  case False
  have tg: "rt_tg (rt_rqs k r) = Some (fst r)"
    using ok lend_inv_frame(2) [OF inv] by (simp add: lending_ok_def)
  let ?q = "(fst r, i)"
  let ?spare = "rt_runtime (rt_rqs k ?q) - rt_time (rt_rqs k ?q)"
  from tg step False show ?thesis
  proof (rule balance_step_cases)
    assume ne: "?q \<noteq> r" and inf: "rt_runtime (rt_rqs k ?q) \<noteq> RUNTIME_INF" and pos: "0 < sint ?spare"
      and k': "k' = move_runtime ?q r (lent ?spare weight period (rt_runtime (rt_rqs k r))) k"
    note small = lend_inv_small [OF ok inv i(1) ne inf]
    note diff = sint_pos_diff [OF small pos]
    have spare: "unat ?spare < 2 ^ 63" using diff(2) small(1) by simp
    have period: "unat period < 2 ^ 63" and own: "rt_runtime (rt_rqs k r) \<le> period"
      using ok inv by (simp_all add: lending_ok_def lend_inv_def)
    note bounds = lent_bounds [OF spare period own, of weight]
    show ?thesis unfolding k'
    proof (rule lend_inv_move [OF inv ne _ _ _ _ _ inf])
      show "rt_time (rt_rqs k ?q) \<le> rt_runtime (rt_rqs k ?q)" using diff(1) by simp
    qed (use ok i bounds in \<open>simp_all add: lending_ok_def\<close>)
  qed
qed

lemma balance_fold_inv:
  assumes ok: "lending_ok env r period kb" and cs: "\<forall>i \<in> set cs. i < nr_cpu_ids env \<and> rd_span kb i"
    and inv: "lend_inv env r period kb k"
    and fold: "foldl (balance_step r weight period) (k, got, left) cs = (k', got', left')"
  shows "lend_inv env r period kb k'"
  using cs inv fold
proof (induction cs arbitrary: k got left)
  case (Cons i cs)
  obtain k1 g1 l1 where step: "balance_step r weight period (k, got, left) i = (k1, g1, l1)"
    by (cases "balance_step r weight period (k, got, left) i")
  have "lend_inv env r period kb k1"
    using Cons.prems by (intro balance_step_inv [OF ok _ _ _ step]) auto
  with Cons.IH [of k1 g1 l1] Cons.prems step show ?case by simp
qed simp

text \<open>
  C27. Lending never creates or destroys runtime. After \<open>do_balance_runtime\<close> on the runqueue \<open>r\<close>
  of a group, the runtimes of the group over the cpus of the root domain have the same sum; \<open>r\<close>
  has at least what it had and at most one period; every other runqueue has what it had, or less
  but no less than the time it has already used; runqueues that left the lending (infinite
  runtime) are untouched; and nothing but runtimes changed. Hypothesis: runtimes, used times and
  the period are below \<open>2^63\<close> nanoseconds, so that the signed differences of the code are exact.
\<close>

theorem do_balance_runtime_conserves:
  assumes "lending_ok env r (sched_rt_period k r) k"
  shows "let k' = snd (do_balance_runtime env r k) in
      group_runtime env (fst r) k' = group_runtime env (fst r) k
      \<and> rt_runtime (rt_rqs k r) \<le> rt_runtime (rt_rqs k' r)
      \<and> rt_runtime (rt_rqs k' r) \<le> sched_rt_period k r
      \<and> (\<forall>q. q \<noteq> r \<longrightarrow> rt_runtime (rt_rqs k' q) = rt_runtime (rt_rqs k q)
            \<or> rt_runtime (rt_rqs k q) \<noteq> RUNTIME_INF
              \<and> rt_time (rt_rqs k q) \<le> rt_runtime (rt_rqs k' q)
              \<and> rt_runtime (rt_rqs k' q) \<le> rt_runtime (rt_rqs k q))
      \<and> (\<exists>f. k' = rt_rqs_update (\<lambda>m q. (m q)\<lparr>rt_runtime := f q\<rparr>) k)"
proof -
  obtain k1 got left where fold: "foldl (balance_step r (of_int (cpumask_weight env (rd_span k)))
      (sched_rt_period k r)) (k, 0, False) (for_each_cpu env (rd_span k)) = (k1, got, left)"
    by (metis prod_cases3)
  have k': "snd (do_balance_runtime env r k) = k1"
    using fold by (simp add: do_balance_runtime_def sched_rt_period_def Let_def)
  have "lend_inv env r (sched_rt_period k r) k k1"
    using assms
    by (intro balance_fold_inv [OF assms _ lend_inv_refl fold]) (auto simp: lending_ok_def for_each_cpu_def)
  then show ?thesis unfolding k' Let_def lend_inv_def by blast
qed

text \<open>
  In the example machine, cpu 1 has 950 ms to spare, half of which is more than cpu 0 lacks to a
  full period: it lends the 50 ms.
\<close>

lemma k0_lending:
  "rt_runtime (rt_rqs k0 r) = 950000000" "rt_time (rt_rqs k0 r) = 0" "rt_tg (rt_rqs k0 r) = Some (fst r)"
  "sched_rt_period k0 (0, 0) = 1000000000" "rt_period (tg_rt_bandwidth (tgs k0 0)) = 1000000000"
  "rd_span k0 = (\<lambda>c. c < 2)" "nr_cpu_ids env0 = 2"
  by (simp_all add: sched_rt_period_def example_defs)

lemma lending_ok_k0: "lending_ok env0 (0, 0) (sched_rt_period k0 (0, 0)) k0"
  by (simp add: lending_ok_def k0_lending word_le_nat_alt)

lemma half_of_runtime: "(950000000 :: u64) div 2 = 475000000" "0 < sint (950000000 :: u64)"
  by (simp_all add: word_unat_eq_iff unat_div_distrib sint_small)

lemma cpus_env0: "for_each_cpu env0 (\<lambda>c. c < 2) = [0, 1]" "cpumask_weight env0 (\<lambda>c. c < 2) = 2"
  by (simp_all add: for_each_cpu_def cpumask_weight_def k0_lending upt_rec)

lemma balance_k0:
  "snd (do_balance_runtime env0 (0, 0) k0) = move_runtime (0, 1) (0, 0) 50000000 k0"
  unfolding do_balance_runtime_def k0_lending cpus_env0
  by (simp add: balance_step_def Let_def k0_lending half_of_runtime RUNTIME_INF_def move_runtime_def)

theorem do_balance_runtime_conserves_witness:
  "let k' = snd (do_balance_runtime env0 (0, 0) k0) in
     group_runtime env0 0 k' = group_runtime env0 0 k0
     \<and> rt_runtime (rt_rqs k' (0, 0)) = 1000000000 \<and> rt_runtime (rt_rqs k' (0, 1)) = 900000000"
  using do_balance_runtime_conserves [OF lending_ok_k0]
  by (simp add: Let_def balance_k0 move_runtime_runtime k0_lending)

section \<open>The pushable list\<close>

text \<open>Behind a task are only tasks of the same or a lower priority, that is, a higher number.\<close>

abbreviation plist_sorted :: "(int \<times> 'a) list \<Rightarrow> bool" where
  "plist_sorted L \<equiv> sorted (map fst L)"

lemma set_plist_add [simp]: "set (plist_add n L) = insert n (set L)"
  by (induction n L rule: plist_add.induct) auto

lemma plist_add_sorted: "plist_sorted L \<Longrightarrow> plist_sorted (plist_add n L)"
  by (induction n L rule: plist_add.induct) auto

lemma plist_del_sorted: "plist_sorted L \<Longrightarrow> plist_sorted (plist_del x L)"
  unfolding plist_del_def by (rule sorted_filter)

lemma set_plist_del: "set (plist_del x L) = {m \<in> set L. snd m \<noteq> x}"
  by (auto simp: plist_del_def)

lemma plist_add_ne [simp]: "plist_add n L \<noteq> []"
  by (cases L) auto

lemma plist_hd_add:
  "plist_sorted L \<Longrightarrow> fst (hd (plist_add n L)) = (if L = [] then fst n else min (fst n) (fst (hd L)))"
  by (cases L) auto

text \<open>
  The invariant of the pushable list of a cpu: it is sorted by priority, no task is on it twice,
  every node carries its task's priority, and \<open>highest_prio.next\<close> is the priority of the first
  task, or \<open>MAX_RT_PRIO\<close> when there is none.
\<close>

definition pushable_ok :: "cpu \<Rightarrow> 'x kernel \<Rightarrow> bool" where
  "pushable_ok c k \<longleftrightarrow>
     (let L = pushable_tasks (rt_rqs k (root_rt c)) in
      plist_sorted L \<and> distinct (map snd L)
      \<and> (\<forall>(pr, p) \<in> set L. pr = prio (tasks k p) \<and> pr < MAX_RT_PRIO)
      \<and> highest_prio_next (rt_rqs k (root_rt c)) = (if L = [] then MAX_RT_PRIO else fst (hd L)))"

lemma pushable_okI:
  assumes "plist_sorted L" "distinct (map snd L)" "\<And>m. m \<in> set L \<Longrightarrow> fst m = prio (tasks k (snd m)) \<and> fst m < MAX_RT_PRIO"
    "pushable_tasks (rt_rqs k (root_rt c)) = L"
    "highest_prio_next (rt_rqs k (root_rt c)) = (if L = [] then MAX_RT_PRIO else fst (hd L))"
  shows "pushable_ok c k"
  using assms by (auto simp: pushable_ok_def Let_def)

lemma pushable_okD:
  assumes "pushable_ok c k"
  shows "plist_sorted (pushable_tasks (rt_rqs k (root_rt c)))"
    "distinct (map snd (pushable_tasks (rt_rqs k (root_rt c))))"
    "m \<in> set (pushable_tasks (rt_rqs k (root_rt c))) \<Longrightarrow> fst m = prio (tasks k (snd m)) \<and> fst m < MAX_RT_PRIO"
    "highest_prio_next (rt_rqs k (root_rt c)) = (if pushable_tasks (rt_rqs k (root_rt c)) = []
       then MAX_RT_PRIO else fst (hd (pushable_tasks (rt_rqs k (root_rt c)))))"
  using assms by (auto simp: pushable_ok_def Let_def)

lemma plist_hd_least: "\<lbrakk>plist_sorted L; m \<in> set L\<rbrakk> \<Longrightarrow> fst (hd L) \<le> fst m"
  by (cases L) auto

lemma distinct_plist_add: "distinct (map snd L) \<Longrightarrow> snd n \<notin> snd ` set L \<Longrightarrow> distinct (map snd (plist_add n L))"
  by (induction n L rule: plist_add.induct) auto

lemma distinct_plist_del: "distinct (map snd L) \<Longrightarrow> distinct (map snd (plist_del x L))"
  by (simp add: plist_del_def distinct_map_filter)

lemma plist_hd_readd:
  assumes "plist_sorted L" "\<And>m. m \<in> set L \<Longrightarrow> snd m = snd n \<Longrightarrow> fst m = fst n"
  shows "fst (hd (plist_add n (plist_del (snd n) L))) = (if L = [] then fst n else min (fst n) (fst (hd L)))"
proof (cases L)
  case (Cons m ms)
  let ?N = "plist_add n (plist_del (snd n) L)"
  have s: "plist_sorted ?N" using assms(1) by (intro plist_add_sorted plist_del_sorted)
  have "hd ?N \<in> set ?N" by (rule hd_in_set) simp
  then have "hd ?N \<in> insert n (set L)" by (auto simp: set_plist_del)
  then have "min (fst n) (fst (hd L)) \<le> fst (hd ?N)"
    using plist_hd_least [OF assms(1), of "hd ?N"] by (elim insertE) (simp_all add: min_le_iff_disj)
  moreover have "fst (hd ?N) \<le> fst n" by (rule plist_hd_least [OF s]) simp
  moreover have "fst (hd ?N) \<le> fst (hd L)"
  proof (cases "snd m = snd n")
    case True
    then show ?thesis using assms(2) [of m] Cons \<open>fst (hd ?N) \<le> fst n\<close> by simp
  next
    case False
    then have "m \<in> set ?N" using Cons by (simp add: set_plist_del)
    then show ?thesis using plist_hd_least [OF s, of m] Cons by simp
  qed
  ultimately show ?thesis using Cons by auto
qed (simp add: plist_del_def)

text \<open>
  C29. The list of pushable tasks of a cpu stays sorted by priority, free of duplicates and in step
  with \<open>highest_prio.next\<close>, which the pull path of the other cpus reads without the lock:
  \<open>enqueue_pushable_task\<close> of a real-time task, on the list already or not, and
  \<open>dequeue_pushable_task\<close> of any task keep this invariant, the first adds exactly that task and
  the second removes exactly that task.
\<close>

theorem pushable_list_invariant:
  assumes "config_smp env" "pushable_ok c k" "prio (tasks k p) < MAX_RT_PRIO"
  shows "pushable_ok c (enqueue_pushable_task env c p k)
    \<and> pushable_ok c (dequeue_pushable_task env c p k)
    \<and> snd ` set (pushable_tasks (rt_rqs (enqueue_pushable_task env c p k) (root_rt c)))
        = insert p (snd ` set (pushable_tasks (rt_rqs k (root_rt c))))
    \<and> snd ` set (pushable_tasks (rt_rqs (dequeue_pushable_task env c p k) (root_rt c)))
        = snd ` set (pushable_tasks (rt_rqs k (root_rt c))) - {p}"
proof -
  let ?L = "pushable_tasks (rt_rqs k (root_rt c))" and ?pr = "prio (tasks k p)"
  let ?N = "plist_add (?pr, p) (plist_del p ?L)" and ?D = "plist_del p ?L"
  note ok = pushable_okD [OF assms(2)]
  have hd: "fst (hd ?N) = (if ?L = [] then ?pr else min ?pr (fst (hd ?L)))"
    using plist_hd_readd [OF ok(1), of "(?pr, p)"] ok(3) by auto
  have "pushable_ok c (enqueue_pushable_task env c p k)"
  proof (rule pushable_okI)
    show "plist_sorted ?N" using ok(1) by (intro plist_add_sorted plist_del_sorted)
    show "distinct (map snd ?N)"
      using ok(2) by (intro distinct_plist_add distinct_plist_del) (auto simp: set_plist_del)
  qed (use assms(1,3) ok(3,4) hd in
      \<open>auto simp: enqueue_pushable_task_def Let_def set_plist_del\<close>)
  moreover have "pushable_ok c (dequeue_pushable_task env c p k)"
  proof (rule pushable_okI)
    show "plist_sorted ?D" using ok(1) by (rule plist_del_sorted)
    show "distinct (map snd ?D)" using ok(2) by (rule distinct_plist_del)
    show "highest_prio_next (rt_rqs (dequeue_pushable_task env c p k) (root_rt c))
        = (if ?D = [] then MAX_RT_PRIO else fst (hd ?D))"
    proof (cases "?D = []")
      case False
      then have "hd ?D \<in> set ?L" using hd_in_set [of ?D] by (simp add: set_plist_del)
      then have "fst (hd ?D) = prio (tasks k (snd (hd ?D)))" using ok(3) by blast
      then show ?thesis
        using assms(1) False by (simp add: dequeue_pushable_task_def has_pushable_tasks_def Let_def)
    qed (use assms(1) in \<open>simp add: dequeue_pushable_task_def has_pushable_tasks_def Let_def\<close>)
  qed (use assms(1) ok(3) in
      \<open>auto simp: dequeue_pushable_task_def has_pushable_tasks_def Let_def set_plist_del\<close>)
  moreover have "pushable_tasks (rt_rqs (enqueue_pushable_task env c p k) (root_rt c)) = ?N"
    "pushable_tasks (rt_rqs (dequeue_pushable_task env c p k) (root_rt c)) = ?D"
    using assms(1) by (simp_all add: enqueue_pushable_task_def dequeue_pushable_task_def Let_def)
  ultimately show ?thesis by (auto simp: set_plist_del)
qed

text \<open>A machine in which tasks 2, 3 and 4 of priorities 90, 50 and 50 wait to be pushed.\<close>

definition k_push :: "unit kernel" where
  "k_push = (k0\<lparr>tasks := (\<lambda>p. (tasks k0 p)\<lparr>prio := (if p = 2 then 90 else 50)\<rparr>)\<rparr>)
     \<lparr>rt_rqs := (\<lambda>r. (rt_rqs k0 r)\<lparr>pushable_tasks := (if r = (0, 0) then [(50, 3), (90, 2)] else []),
        highest_prio_next := (if r = (0, 0) then 50 else 100)\<rparr>)\<rparr>"

lemma k_push_list:
  "pushable_tasks (rt_rqs k_push (root_rt 0)) = [(50, 3), (90, 2)]"
  "prio (tasks k_push p) = (if p = 2 then 90 else 50)"
  by (simp_all add: k_push_def ROOT_TG_def)

lemma pushable_ok_k_push: "pushable_ok 0 k_push"
  by (auto simp: pushable_ok_def k_push_def prio_defs ROOT_TG_def)

theorem pushable_list_invariant_witness:
  "pushable_ok 0 (enqueue_pushable_task env0 0 4 k_push) \<and> pushable_ok 0 (dequeue_pushable_task env0 0 4 k_push)
   \<and> pushable_tasks (rt_rqs (enqueue_pushable_task env0 0 4 k_push) (0, 0)) = [(50, 3), (50, 4), (90, 2)]"
proof -
  have smp: "config_smp env0" by (simp add: env0_def)
  have "prio (tasks k_push 4) < MAX_RT_PRIO" by (simp add: k_push_def prio_defs)
  from pushable_list_invariant [OF smp pushable_ok_k_push this] smp show ?thesis
    by (simp add: enqueue_pushable_task_def Let_def k_push_def plist_del_def ROOT_TG_def)
qed

text \<open>
  What is pushed is the best that can be: on a cpu with a consistent list,
  \<open>pick_next_pushable_task\<close> offers a task exactly when the list is not empty, and no task of the
  list has a higher priority (a smaller number) than the one offered. The checks of the code never
  fire when the offered task is a queued real-time task of that cpu that may run elsewhere and
  does not run.
\<close>

theorem pushable_pick_best:
  assumes "pushable_ok c k"
  shows "case pick_next_pushable_task c k of
      (None, k') \<Rightarrow> pushable_tasks (rt_rqs k (root_rt c)) = [] \<and> k' = k
    | (Some p, k') \<Rightarrow> p \<in> snd ` set (pushable_tasks (rt_rqs k (root_rt c)))
        \<and> (\<forall>q \<in> snd ` set (pushable_tasks (rt_rqs k (root_rt c))). prio (tasks k p) \<le> prio (tasks k q))
        \<and> (task_cpu (tasks k p) = c \<and> \<not> task_current c p k \<and> 1 < rt_nr_cpus_allowed (rt_of k p)
           \<and> on_rq (tasks k p) \<and> rt_task k p \<longrightarrow> k' = k)"
proof (cases "pushable_tasks (rt_rqs k (root_rt c)) = []")
  case False
  let ?L = "pushable_tasks (rt_rqs k (root_rt c))"
  note ok = pushable_okD [OF assms]
  have hd: "hd ?L \<in> set ?L" using False by (rule hd_in_set)
  then have "snd (hd ?L) \<in> snd ` set ?L" by (rule imageI)
  moreover have "\<forall>q \<in> snd ` set ?L. prio (tasks k (snd (hd ?L))) \<le> prio (tasks k q)"
    using plist_hd_least [OF ok(1)] ok(3) hd by fastforce
  ultimately show ?thesis using False
    by (simp add: pick_next_pushable_task_def has_pushable_tasks_def BUG_ON_def Let_def)
qed (simp add: pick_next_pushable_task_def has_pushable_tasks_def)

theorem pushable_pick_best_witness:
  "fst (pick_next_pushable_task 0 k_push) = Some 3
   \<and> prio (tasks k_push 3) \<le> prio (tasks k_push 2)"
  using pushable_pick_best [OF pushable_ok_k_push]
  by (simp add: pick_next_pushable_task_def has_pushable_tasks_def Let_def k_push_list)

end
