(* ===== verification/Rt_Array.thy ===== *)
theory Rt_Array
  imports Rt_Class
begin

text \<open>
  The priority arrays of the RT class and the hierarchy of groups. A runqueue's array is consistent
  when its bitmap tells which of its lists are not empty, its counter how many entities they hold,
  and \<open>highest_prio.curr\<close> the first of them. A queued entity is on the list of its priority; the
  priority of a group's entity is that of the best entity in the group, so it moves whenever
  something is queued below it. This theory shows that queueing and dequeueing a task or a group,
  anywhere in the hierarchy, keeps all arrays consistent.
\<close>

named_theorems arr \<open>operations that leave the priority arrays and the hierarchy alone\<close>

section \<open>The part of the kernel that matters\<close>

definition arr_view ::
  "'x kernel \<Rightarrow> (rt_rq_ref \<times> nat, rt_se_ref) lists
     \<times> (rt_rq_ref \<Rightarrow> (nat \<Rightarrow> bool) \<times> u32 \<times> int \<times> tgid option)
     \<times> (rt_se_ref \<Rightarrow> rt_se_ref option \<times> rt_rq_ref \<times> rt_rq_ref option) \<times> (tid \<Rightarrow> int) \<times> tgid list" where
  "arr_view k =
     (rt_q k,
      \<lambda>r. (bitmap (rt_rqs k r), rt_nr_running (rt_rqs k r), highest_prio_curr (rt_rqs k r), rt_tg (rt_rqs k r)),
      \<lambda>s. (rt_parent (rt_ses k s), rt_rq_of (rt_ses k s), rt_my_q (rt_ses k s)),
      \<lambda>p. prio (tasks k p), task_groups k)"

lemma arr_viewI:
  assumes "rt_q k' = rt_q k" "\<And>r. bitmap (rt_rqs k' r) = bitmap (rt_rqs k r)"
    "\<And>r. rt_nr_running (rt_rqs k' r) = rt_nr_running (rt_rqs k r)"
    "\<And>r. highest_prio_curr (rt_rqs k' r) = highest_prio_curr (rt_rqs k r)"
    "\<And>r. rt_tg (rt_rqs k' r) = rt_tg (rt_rqs k r)"
    "\<And>s. rt_parent (rt_ses k' s) = rt_parent (rt_ses k s)" "\<And>s. rt_rq_of (rt_ses k' s) = rt_rq_of (rt_ses k s)"
    "\<And>s. rt_my_q (rt_ses k' s) = rt_my_q (rt_ses k s)" "\<And>p. prio (tasks k' p) = prio (tasks k p)"
    "task_groups k' = task_groups k"
  shows "arr_view k' = arr_view k"
  using assms by (simp add: arr_view_def)

lemma arr_viewD:
  assumes "arr_view k' = arr_view k"
  shows "rt_q k' = rt_q k" "bitmap (rt_rqs k' r) = bitmap (rt_rqs k r)"
    "rt_nr_running (rt_rqs k' r) = rt_nr_running (rt_rqs k r)"
    "highest_prio_curr (rt_rqs k' r) = highest_prio_curr (rt_rqs k r)"
    "rt_tg (rt_rqs k' r) = rt_tg (rt_rqs k r)"
    "rt_parent (rt_ses k' s) = rt_parent (rt_ses k s)" "rt_rq_of (rt_ses k' s) = rt_rq_of (rt_ses k s)"
    "rt_my_q (rt_ses k' s) = rt_my_q (rt_ses k s)" "prio (tasks k' p) = prio (tasks k p)"
    "task_groups k' = task_groups k"
  using assms by (auto simp: arr_view_def dest: fun_cong)

text \<open>Updates of other parts.\<close>

lemma arr_rqs [arr]: "arr_view (rqs_update f k) = arr_view k"
  by (rule arr_viewI) simp_all

lemma arr_tgs [arr]: "arr_view (tgs_update f k) = arr_view k"
  by (rule arr_viewI) simp_all

lemma arr_cas [arr]: "arr_view (cas_update f k) = arr_view k"
  by (rule arr_viewI) simp_all

lemma arr_ext [arr]: "arr_view (ext_state_update f k) = arr_view k"
  by (rule arr_viewI) simp_all

lemma arr_rto [arr]: "arr_view (rto_count_update f k) = arr_view k" "arr_view (rto_mask_update g k) = arr_view k"
  by (rule arr_viewI; simp)+

lemma arr_cpupri [arr]: "arr_view (cpupri_update f k) = arr_view k"
  by (rule arr_viewI) simp_all

lemma arr_bug [arr]: "arr_view (BUG_ON b k) = arr_view k"
  by (rule arr_viewI) (simp_all add: BUG_ON_def)

lemma arr_task: "(\<And>t. prio (f t) = prio t) \<Longrightarrow> arr_view (upd_task p f k) = arr_view k"
  by (rule arr_viewI) simp_all

lemma arr_rt_rqs:
  assumes "\<And>m r. bitmap (F m r) = bitmap (m r)" "\<And>m r. rt_nr_running (F m r) = rt_nr_running (m r)"
    "\<And>m r. highest_prio_curr (F m r) = highest_prio_curr (m r)" "\<And>m r. rt_tg (F m r) = rt_tg (m r)"
  shows "arr_view (rt_rqs_update F k) = arr_view k"
  by (rule arr_viewI) (simp_all add: assms)

lemma arr_rt_se:
  assumes "\<And>e. rt_parent (f e) = rt_parent e" "\<And>e. rt_rq_of (f e) = rt_rq_of e"
    "\<And>e. rt_my_q (f e) = rt_my_q e"
  shows "arr_view (upd_rt_se s f k) = arr_view k"
  by (rule arr_viewI) (simp_all add: assms)

lemma arr_resched [arr]: "arr_view (resched_task p k) = arr_view k"
  unfolding resched_task_def by (rule arr_task) simp

lemma arr_counts [arr]: "arr_view (inc_nr_running c k) = arr_view k" "arr_view (dec_nr_running c k) = arr_view k"
  by (simp_all add: inc_nr_running_def dec_nr_running_def arr)

lemma arr_start_bandwidth [arr]: "arr_view (start_rt_bandwidth g k) = arr_view k"
  by (simp add: start_rt_bandwidth_def arr)

lemma arr_overload [arr]: "arr_view (rt_set_overload c k) = arr_view k" "arr_view (rt_clear_overload c k) = arr_view k"
  by (simp_all add: rt_set_overload_def rt_clear_overload_def arr)

lemma arr_update_rt_migration [arr]: "arr_view (update_rt_migration r k) = arr_view k"
  by (simp add: update_rt_migration_def arr_rt_rqs arr)

lemma arr_inc_rt_migration [arr]: "arr_view (inc_rt_migration env s r k) = arr_view k"
  by (auto simp: inc_rt_migration_def Let_def arr intro!: arr_rt_rqs)

lemma arr_dec_rt_migration [arr]: "arr_view (dec_rt_migration env s r k) = arr_view k"
  by (auto simp: dec_rt_migration_def Let_def arr intro!: arr_rt_rqs)

lemma arr_inc_rt_group [arr]: "arr_view (inc_rt_group s r k) = arr_view k"
  by (auto simp: inc_rt_group_def Let_def arr intro!: arr_rt_rqs split: option.split)

lemma arr_dec_rt_group [arr]: "arr_view (dec_rt_group s r k) = arr_view k"
  by (auto simp: dec_rt_group_def intro!: arr_rt_rqs)

lemma arr_prio_smp [arr]:
  "arr_view (inc_rt_prio_smp env r pr old k) = arr_view k" "arr_view (dec_rt_prio_smp env r pr old k) = arr_view k"
  by (simp_all add: inc_rt_prio_smp_def dec_rt_prio_smp_def cpupri_set_def arr)

lemma arr_pushable [arr]:
  "arr_view (enqueue_pushable_task env c p k) = arr_view k"
  "arr_view (dequeue_pushable_task env c p k) = arr_view k"
  by (auto simp: enqueue_pushable_task_def dequeue_pushable_task_def Let_def intro!: arr_rt_rqs)

section \<open>The invariant\<close>

text \<open>The number of entities on the lists of a runqueue.\<close>

abbreviation queued :: "(rt_rq_ref \<times> nat, rt_se_ref) lists \<Rightarrow> rt_rq_ref \<Rightarrow> nat" where
  "queued L r \<equiv> \<Sum>i<100. length (elems L (r, i))"

definition array_ok :: "'x kernel \<Rightarrow> rt_rq_ref \<Rightarrow> bool" where
  "array_ok k r \<longleftrightarrow>
     (\<forall>i<100. bitmap (rt_rqs k r) i \<longleftrightarrow> elems (rt_q k) (r, i) \<noteq> []) \<and> bitmap (rt_rqs k r) 100
     \<and> highest_prio_curr (rt_rqs k r) = sched_find_first_bit (bitmap (rt_rqs k r))
     \<and> rt_nr_running (rt_rqs k r) = of_nat (queued (rt_q k) r)"

text \<open>\<open>E\<close> is the set of entities there are; only these are queued.\<close>

definition arrays_ok :: "rt_se_ref set \<Rightarrow> 'x kernel \<Rightarrow> bool" where
  "arrays_ok E k \<longleftrightarrow>
     lists_wf (rt_q k)
     \<and> (\<forall>s h. home (rt_q k) s = Some h \<longrightarrow>
          s \<in> E \<and> h = prio_queue k (rt_rq_of_se k s) s \<and> 0 \<le> rt_se_prio k s \<and> rt_se_prio k s < MAX_RT_PRIO)
     \<and> (\<forall>r. array_ok k r)"

text \<open>
  The hierarchy: an entity is queued on the runqueue that its parent owns, and on one that nobody
  owns when it has no parent; the parent is the group entity that the runqueue names; parents exist,
  and groups have higher numbers than their parents; the entities that own a runqueue are those of
  the existing groups.
\<close>

definition hierarchy_ok :: "rt_se_ref set \<Rightarrow> 'x kernel \<Rightarrow> bool" where
  "hierarchy_ok E k \<longleftrightarrow>
     finite E \<and> card E < 2 ^ 32
     \<and> (\<forall>s \<in> E. \<forall>q. rt_my_q (rt_ses k q) = Some (rt_rq_of_se k s) \<longleftrightarrow> rt_parent (rt_ses k s) = Some q)
     \<and> (\<forall>s \<in> E. rt_parent (rt_ses k s) =
          tg_rt_se (the (rt_tg (rt_rqs k (rt_rq_of_se k s)))) (rq_of_rt_rq (rt_rq_of_se k s)))
     \<and> (\<forall>s \<in> E. \<forall>q. rt_parent (rt_ses k s) = Some q \<longrightarrow> q \<in> E \<and> 0 < rt_se_rank q
          \<and> (0 < rt_se_rank s \<longrightarrow> rt_se_rank q < rt_se_rank s))
     \<and> (\<forall>s \<in> E. rt_my_q (rt_ses k s) = None \<longleftrightarrow> rt_se_rank s = 0)
     \<and> (\<forall>t c. Group_se t c \<in> E \<longrightarrow> t \<in> set (task_groups k))"

lemma arrays_okD:
  assumes "arrays_ok E k"
  shows "lists_wf (rt_q k)" "home (rt_q k) s = Some h \<Longrightarrow> s \<in> E"
    "home (rt_q k) s = Some h \<Longrightarrow> h = prio_queue k (rt_rq_of_se k s) s"
    "home (rt_q k) s = Some h \<Longrightarrow> 0 \<le> rt_se_prio k s"
    "home (rt_q k) s = Some h \<Longrightarrow> rt_se_prio k s < MAX_RT_PRIO" "array_ok k r"
  using assms unfolding arrays_ok_def by blast+

lemma rt_se_prio_view:
  assumes "arr_view k' = arr_view k"
  shows "rt_se_prio k' s = rt_se_prio k s"
  by (simp add: rt_se_prio_def arr_viewD [OF assms] split: option.split)

lemma arrays_ok_view:
  assumes "arr_view k' = arr_view k"
  shows "arrays_ok E k' \<longleftrightarrow> arrays_ok E k"
  by (simp add: arrays_ok_def array_ok_def arr_viewD [OF assms] rt_se_prio_view [OF assms])

lemma hierarchy_ok_view:
  assumes "arr_view k' = arr_view k"
  shows "hierarchy_ok E k' \<longleftrightarrow> hierarchy_ok E k"
  by (simp add: hierarchy_ok_def arr_viewD [OF assms])

section \<open>The first bit\<close>

lemma first_bit_bounds:
  assumes "bm 100"
  shows "0 \<le> sched_find_first_bit bm" "sched_find_first_bit bm \<le> 100" "bm (nat (sched_find_first_bit bm))"
    "i < nat (sched_find_first_bit bm) \<Longrightarrow> \<not> bm i"
proof -
  have le: "find_next_bit bm 101 0 \<le> 100" using find_next_bit_found [of bm 100 0 101] assms by simp
  then show "sched_find_first_bit bm \<le> 100" "0 \<le> sched_find_first_bit bm"
    by (simp_all add: sched_find_first_bit_def)
  show "bm (nat (sched_find_first_bit bm))"
    using find_next_bit_set [of bm 101 0] le by (simp add: sched_find_first_bit_def)
  show "i < nat (sched_find_first_bit bm) \<Longrightarrow> \<not> bm i"
    using find_next_bit_least [of 0 i bm 101] by (simp add: sched_find_first_bit_def)
qed

lemma first_bit_eqI:
  assumes "bm n" "n \<le> 100" "\<And>i. i < n \<Longrightarrow> \<not> bm i"
  shows "sched_find_first_bit bm = int n"
proof -
  have "find_next_bit bm 101 0 \<le> n" using assms by (intro find_next_bit_found) auto
  moreover from this assms(2) have "bm (find_next_bit bm 101 0)"
    using find_next_bit_set [of bm 101 0] by simp
  ultimately have "find_next_bit bm 101 0 = n" using assms(3) by (metis le_neq_implies_less)
  then show ?thesis by (simp add: sched_find_first_bit_def)
qed

lemma first_bit_set:
  assumes "bm 100" "n < 100"
  shows "sched_find_first_bit (bm(n := True)) = min (int n) (sched_find_first_bit bm)"
proof (cases "n < nat (sched_find_first_bit bm)")
  case True
  then have "sched_find_first_bit (bm(n := True)) = int n"
    using assms first_bit_bounds(4) [of bm] by (intro first_bit_eqI) auto
  with True show ?thesis by simp
next
  case False
  let ?f = "nat (sched_find_first_bit bm)"
  have "sched_find_first_bit (bm(n := True)) = int ?f"
    using False first_bit_bounds [of bm, OF assms(1)] by (intro first_bit_eqI) auto
  with False show ?thesis using first_bit_bounds(1) [of bm, OF assms(1)] by simp
qed

lemma first_bit_clear:
  assumes "bm 100" "int n \<noteq> sched_find_first_bit bm" "n \<noteq> 100"
  shows "sched_find_first_bit (bm(n := False)) = sched_find_first_bit bm"
proof -
  let ?f = "nat (sched_find_first_bit bm)"
  have "sched_find_first_bit (bm(n := False)) = int ?f"
    using assms(2) first_bit_bounds [of bm, OF assms(1)] by (intro first_bit_eqI) auto
  then show ?thesis using first_bit_bounds(1) [of bm, OF assms(1)] by simp
qed

section \<open>Counting what is queued\<close>

lemma queued_add:
  assumes "i < 100" "elems L' = (elems L)((r, i) := xs)" "length xs = Suc (length (elems L (r, i)))"
  shows "queued L' q = (if q = r then Suc (queued L q) else queued L q)"
proof (cases "q = r")
  case True
  have "queued L' r = (\<Sum>j<100. length (elems L (r, j)) + (if j = i then 1 else 0))"
    using assms by (intro sum.cong) auto
  also have "\<dots> = Suc (queued L r)" using assms(1) by (simp add: sum.distrib)
  finally show ?thesis using True by simp
qed (use assms in auto)

lemma queued_zero: "queued L r = 0 \<longleftrightarrow> (\<forall>i<100. elems L (r, i) = [])"
  by auto

lemma queued_le:
  assumes "lists_wf L" "\<And>s h. home L s = Some h \<Longrightarrow> s \<in> E" "finite E"
  shows "queued L r \<le> card E"
proof -
  have "queued L r = (\<Sum>i<100. card (set (elems L (r, i))))"
    using assms(1) by (intro sum.cong) (simp_all add: distinct_card)
  also have "\<dots> = card (\<Union>i<100. set (elems L (r, i)))"
    using assms(1) by (intro card_UN_disjoint [symmetric]) (auto simp: wf_home)
  also have "\<dots> \<le> card E"
    by (intro card_mono assms(3) UN_least subsetI) (simp add: assms(2) wf_home [OF assms(1)])
  finally show ?thesis .
qed

section \<open>Queueing one entity\<close>

text \<open>The effect of \<open>__enqueue_rt_entity\<close> on the arrays, when it has one.\<close>

definition queue_up :: "bool \<Rightarrow> rt_se_ref \<Rightarrow> 'x kernel \<Rightarrow> 'x kernel" where
  "queue_up head s k =
     (let r = rt_rq_of_se k s; h = prio_queue k r s in
      rt_q_update (if head then list_add s h else list_add_tail s h)
        (upd_rt_rq r (\<lambda>q. q\<lparr>bitmap := (bitmap q)(snd h := True), rt_nr_running := rt_nr_running q + 1,
           highest_prio_curr := min (rt_se_prio k s) (highest_prio_curr q)\<rparr>) k))"

lemma inc_rt_tasks_view:
  "arr_view (inc_rt_tasks env s r k) =
     arr_view (upd_rt_rq r (\<lambda>q. q\<lparr>rt_nr_running := rt_nr_running q + 1,
       highest_prio_curr := min (rt_se_prio k s) (highest_prio_curr q)\<rparr>) k)"
  unfolding inc_rt_tasks_def inc_rt_prio_def Let_def arr by (rule arr_viewI) auto

lemma rt_se_prio_same:
  assumes "\<And>r. highest_prio_curr (rt_rqs k' r) = highest_prio_curr (rt_rqs k r)"
    "rt_ses k' = rt_ses k" "tasks k' = tasks k"
  shows "rt_se_prio k' s = rt_se_prio k s"
  by (simp add: rt_se_prio_def assms split: option.split)

lemma enqueue1_view:
  assumes "\<not> (case group_rt_rq k s of None \<Rightarrow> False
     | Some g \<Rightarrow> rt_rq_throttled k g \<or> rt_nr_running (rt_rqs k g) = 0)"
  shows "arr_view (enqueue_rt_entity1 env head s k) = arr_view (queue_up head s k)"
proof -
  let ?r = "rt_rq_of_se k s" and ?i = "nat (rt_se_prio k s)"
  let ?k1 = "if rt_nr_running (rt_rqs k ?r) = 0
     then upd_rq (rq_of_rt_rq ?r) (\<lambda>q. q\<lparr>leaf_rt_rq_list := ?r # leaf_rt_rq_list q\<rparr>) k else k"
  let ?k2 = "rt_q_update (if head then list_add s (?r, ?i) else list_add_tail s (?r, ?i)) ?k1"
  let ?k3 = "upd_rt_rq ?r (\<lambda>q. q\<lparr>bitmap := (bitmap q)(?i := True)\<rparr>) ?k2"
  have p: "rt_se_prio ?k1 s = rt_se_prio k s" "rt_se_prio ?k2 s = rt_se_prio k s" "rt_se_prio ?k3 s = rt_se_prio k s"
    by (rule rt_se_prio_same; simp)+
  have "enqueue_rt_entity1 env head s k = inc_rt_tasks env s ?r ?k3"
    using assms by (simp only: enqueue_rt_entity1_def Let_def p if_False)
  also have "arr_view \<dots> = arr_view (queue_up head s k)"
    unfolding inc_rt_tasks_view p by (rule arr_viewI) (auto simp: queue_up_def Let_def)
  finally show ?thesis .
qed

lemma queue_up_fields:
  "rt_q (queue_up head s k) =
     (if head then list_add s else list_add_tail s) (prio_queue k (rt_rq_of_se k s) s) (rt_q k)"
  "bitmap (rt_rqs (queue_up head s k) r) =
     (if r = rt_rq_of_se k s then (bitmap (rt_rqs k r))(nat (rt_se_prio k s) := True) else bitmap (rt_rqs k r))"
  "rt_nr_running (rt_rqs (queue_up head s k) r) =
     (if r = rt_rq_of_se k s then rt_nr_running (rt_rqs k r) + 1 else rt_nr_running (rt_rqs k r))"
  "highest_prio_curr (rt_rqs (queue_up head s k) r) =
     (if r = rt_rq_of_se k s then min (rt_se_prio k s) (highest_prio_curr (rt_rqs k r))
      else highest_prio_curr (rt_rqs k r))"
  "rt_ses (queue_up head s k) = rt_ses k" "tasks (queue_up head s k) = tasks k"
  "rt_tg (rt_rqs (queue_up head s k) r) = rt_tg (rt_rqs k r)" "task_groups (queue_up head s k) = task_groups k"
  by (simp_all add: queue_up_def Let_def)

text \<open>Entities other than the owner of a changed runqueue keep their priority.\<close>

lemma rt_se_prio_other:
  assumes "\<And>q. q \<noteq> r \<Longrightarrow> highest_prio_curr (rt_rqs k' q) = highest_prio_curr (rt_rqs k q)"
    "rt_ses k' = rt_ses k" "tasks k' = tasks k" "group_rt_rq k s \<noteq> Some r"
  shows "rt_se_prio k' s = rt_se_prio k s"
  using assms by (auto simp: rt_se_prio_def split: option.split)

lemma queue_up_ok:
  assumes ok: "arrays_ok E k" and off: "home (rt_q k) s = None" and s: "s \<in> E"
    and pr: "0 \<le> rt_se_prio k s" "rt_se_prio k s < MAX_RT_PRIO"
    and owner: "\<And>q. group_rt_rq k q = Some (rt_rq_of_se k s) \<Longrightarrow> home (rt_q k) q = None"
    and self: "group_rt_rq k s \<noteq> Some (rt_rq_of_se k s)"
  shows "arrays_ok E (queue_up head s k)"
proof -
  let ?k' = "queue_up head s k" and ?r = "rt_rq_of_se k s" and ?i = "nat (rt_se_prio k s)"
  note f = queue_up_fields [of head s k]
  have prio': "rt_se_prio ?k' q = rt_se_prio k q" if "group_rt_rq k q \<noteq> Some ?r" for q
    by (rule rt_se_prio_other [of ?r]) (use that in \<open>simp_all add: f\<close>)
  have i: "?i < 100" "int ?i = rt_se_prio k s" using pr by (auto simp: prio_defs)
  have wf: "lists_wf (rt_q k)" using ok by (rule arrays_okD)
  then have wf': "lists_wf (rt_q ?k')" using off by (auto simp: f)
  have home': "q \<in> E \<and> h = prio_queue ?k' (rt_rq_of_se ?k' q) q \<and> 0 \<le> rt_se_prio ?k' q \<and> rt_se_prio ?k' q < MAX_RT_PRIO"
    if "home (rt_q ?k') q = Some h" for q h
  proof (cases "q = s")
    case True
    with that s pr self show ?thesis by (simp add: prio' f split: if_splits)
  next
    case False
    with that have h: "home (rt_q k) q = Some h" by (simp add: f split: if_splits)
    then have "group_rt_rq k q \<noteq> Some ?r" using owner [of q] by auto
    with arrays_okD(2-5) [OF ok h] show ?thesis by (simp add: prio' f)
  qed
  have arr: "array_ok ?k' q" for q
  proof -
    have okq: "array_ok k q" using ok by (rule arrays_okD)
    let ?ys = "elems (rt_q k) (?r, ?i)"
    define xs where "xs = (if head then s # ?ys else ?ys @ [s])"
    have L: "elems (rt_q ?k') = (elems (rt_q k))((?r, ?i) := xs)" and xs: "length xs = Suc (length ?ys)"
      by (simp_all add: f list_add_def list_add_tail_def xs_def)
    have "queued (rt_q ?k') q = (if q = ?r then Suc (queued (rt_q k) q) else queued (rt_q k) q)"
      using i(1) L xs by (rule queued_add)
    moreover have "xs \<noteq> []" using xs by auto
    ultimately show ?thesis
      using okq i first_bit_set [of "bitmap (rt_rqs k q)" ?i]
      unfolding array_ok_def by (auto simp: f(2-4) L)
  qed
  show ?thesis using wf' home' arr unfolding arrays_ok_def by blast
qed

section \<open>Dequeueing one entity\<close>

definition take_down :: "rt_se_ref \<Rightarrow> 'x kernel \<Rightarrow> 'x kernel" where
  "take_down s k =
     (let r = rt_rq_of_se k s; h = prio_queue k r s; L = list_del_init s (rt_q k);
          bm = (if elems L h = [] then (bitmap (rt_rqs k r))(snd h := False) else bitmap (rt_rqs k r)) in
      rt_q_update (\<lambda>_. L)
        (upd_rt_rq r (\<lambda>q. q\<lparr>bitmap := bm, rt_nr_running := rt_nr_running q - 1,
           highest_prio_curr :=
             (if rt_nr_running q - 1 \<noteq> 0 then
                if rt_se_prio k s = highest_prio_curr q then sched_find_first_bit bm
                else highest_prio_curr q
              else MAX_RT_PRIO)\<rparr>) k))"

lemma dec_rt_tasks_view:
  assumes "group_rt_rq k s \<noteq> Some r"
  shows "arr_view (dec_rt_tasks env s r k) =
     arr_view (upd_rt_rq r (\<lambda>q. q\<lparr>rt_nr_running := rt_nr_running q - 1,
       highest_prio_curr :=
         (if rt_nr_running q - 1 \<noteq> 0 then
            if rt_se_prio k s = highest_prio_curr q then sched_find_first_bit (bitmap q)
            else highest_prio_curr q
          else MAX_RT_PRIO)\<rparr>) k)"
proof -
  let ?k1 = "upd_rt_rq r (\<lambda>q. q\<lparr>rt_nr_running := rt_nr_running q - 1\<rparr>) k"
  have "rt_se_prio ?k1 s = rt_se_prio k s" by (rule rt_se_prio_same; simp)
  then show ?thesis
    unfolding dec_rt_tasks_def dec_rt_prio_def Let_def arr by (intro arr_viewI) auto
qed

lemma dequeue1_view:
  assumes "group_rt_rq k s \<noteq> Some (rt_rq_of_se k s)"
  shows "arr_view (dequeue_rt_entity1 env s k) = arr_view (take_down s k)"
proof -
  let ?r = "rt_rq_of_se k s" and ?i = "nat (rt_se_prio k s)"
  let ?k1 = "rt_q_update (list_del_init s) k"
  let ?k2 = "if list_empty (?r, ?i) (rt_q ?k1)
     then upd_rt_rq ?r (\<lambda>q. q\<lparr>bitmap := (bitmap q)(?i := False)\<rparr>) ?k1 else ?k1"
  have p: "rt_se_prio ?k1 s = rt_se_prio k s" "rt_se_prio ?k2 s = rt_se_prio k s"
    by (rule rt_se_prio_same; simp)+
  have k2: "group_rt_rq ?k2 s \<noteq> Some ?r" using assms by simp
  have "arr_view (dequeue_rt_entity1 env s k) = arr_view (dec_rt_tasks env s ?r ?k2)"
    unfolding dequeue_rt_entity1_def Let_def by (simp add: p arr)
  also have "\<dots> = arr_view (take_down s k)"
    unfolding dec_rt_tasks_view [OF k2] p
    by (rule arr_viewI) (auto simp: take_down_def Let_def list_empty_def)
  finally show ?thesis .
qed

lemma take_down_fields:
  "rt_q (take_down s k) = list_del_init s (rt_q k)"
  "r \<noteq> rt_rq_of_se k s \<Longrightarrow> rt_rqs (take_down s k) r = rt_rqs k r"
  "rt_ses (take_down s k) = rt_ses k" "tasks (take_down s k) = tasks k"
  "rt_tg (rt_rqs (take_down s k) r) = rt_tg (rt_rqs k r)" "task_groups (take_down s k) = task_groups k"
  by (simp_all add: take_down_def Let_def)

lemma u32_of_nat_zero: "n < 2 ^ 32 \<Longrightarrow> (of_nat n :: u32) = 0 \<longleftrightarrow> n = 0"
  by (auto simp: word_of_nat_eq_0_iff dest: dvd_imp_le)

lemma take_down_array:
  assumes okr: "array_ok k r" and r: "r = rt_rq_of_se k s" and wf: "lists_wf (rt_q k)"
    and on: "home (rt_q k) s = Some (r, i)" "i = nat (rt_se_prio k s)" "i < 100" "0 \<le> rt_se_prio k s"
    and few: "queued (rt_q k) r < 2 ^ 32"
  shows "array_ok (take_down s k) r"
proof -
  let ?L = "rt_q k" and ?L' = "list_del_init s (rt_q k)" and ?q = "rt_rqs k r" and ?q' = "rt_rqs (take_down s k) r"
  let ?bm = "if elems ?L' (r, i) = [] then (bitmap ?q)(i := False) else bitmap ?q"
  have mem: "s \<in> set (elems ?L (r, i))" using wf on(1) by (rule wf_homeD)
  then have pos: "0 < length (elems ?L (r, i))" by (rule length_pos_if_in_set)
  have E: "elems ?L = (elems ?L')((r, i) := elems ?L (r, i))"
    using on(1) by (auto simp: fun_eq_iff elems_list_del_init)
  have len: "length (elems ?L (r, i)) = Suc (length (elems ?L' (r, i)))"
    using mem pos on(1) by (simp add: elems_list_del_init length_remove1)
  have cnt: "queued ?L r = Suc (queued ?L' r)" using queued_add [OF on(3) E len] by simp
  have bits: "?bm j \<longleftrightarrow> elems ?L' (r, j) \<noteq> []" if "j < 100" for j
    using okr that on(1) mem by (auto simp: array_ok_def elems_list_del_init)
  have top: "?bm 100" using okr on(3) by (auto simp: array_ok_def)
  have nr: "rt_nr_running ?q - 1 = of_nat (queued ?L' r)" using okr cnt by (simp add: array_ok_def)
  have nr0: "rt_nr_running ?q - 1 = 0 \<longleftrightarrow> queued ?L' r = 0"
    unfolding nr by (rule u32_of_nat_zero) (use few cnt in linarith)
  have first: "sched_find_first_bit ?bm = (if queued ?L' r = 0 then MAX_RT_PRIO
      else if rt_se_prio k s = highest_prio_curr ?q then sched_find_first_bit ?bm else highest_prio_curr ?q)"
  proof (cases "queued ?L' r = 0")
    case True
    then have "sched_find_first_bit ?bm = int 100"
      using top bits queued_zero [of ?L' r] by (intro first_bit_eqI) auto
    with True show ?thesis by (simp add: prio_defs)
  next
    case False
    have h: "highest_prio_curr ?q = sched_find_first_bit (bitmap ?q)" "bitmap ?q 100"
      using okr by (simp_all add: array_ok_def)
    show ?thesis
    proof (cases "rt_se_prio k s = highest_prio_curr ?q")
      case neq: False
      then have "int i \<noteq> sched_find_first_bit (bitmap ?q)" using h on(2,4) by simp
      then show ?thesis using False neq h first_bit_clear [of "bitmap ?q" i] on(3) by auto
    qed (use False in auto)
  qed
  have q': "bitmap ?q' = ?bm" "rt_nr_running ?q' = rt_nr_running ?q - 1"
    "highest_prio_curr ?q' = (if queued ?L' r = 0 then MAX_RT_PRIO
      else if rt_se_prio k s = highest_prio_curr ?q then sched_find_first_bit ?bm else highest_prio_curr ?q)"
    using nr0 on(2) r by (simp_all add: take_down_def Let_def)
  show ?thesis
    unfolding array_ok_def q' take_down_fields first [symmetric] using bits top nr by blast
qed

lemma take_down_ok:
  assumes ok: "arrays_ok E k" and on: "home (rt_q k) s \<noteq> None"
    and E: "finite E" "card E < 2 ^ 32"
    and owner: "\<And>q. group_rt_rq k q = Some (rt_rq_of_se k s) \<Longrightarrow> home (rt_q k) q = None"
  shows "arrays_ok E (take_down s k)"
proof -
  let ?k' = "take_down s k" and ?r = "rt_rq_of_se k s"
  obtain h where h: "home (rt_q k) s = Some h" using on by blast
  note s = arrays_okD(2-5) [OF ok h]
  have wf: "lists_wf (rt_q k)" using ok by (rule arrays_okD)
  have prio': "rt_se_prio ?k' q = rt_se_prio k q" if "group_rt_rq k q \<noteq> Some ?r" for q
    by (rule rt_se_prio_other [of ?r]) (use that in \<open>simp_all add: take_down_fields\<close>)
  have home': "q \<in> E \<and> h = prio_queue ?k' (rt_rq_of_se ?k' q) q \<and> 0 \<le> rt_se_prio ?k' q \<and> rt_se_prio ?k' q < MAX_RT_PRIO"
    if "home (rt_q ?k') q = Some h" for q h
  proof -
    have h: "home (rt_q k) q = Some h" using that by (simp add: take_down_fields split: if_splits)
    then have "group_rt_rq k q \<noteq> Some ?r" using owner [of q] by auto
    with arrays_okD(2-5) [OF ok h] show ?thesis by (simp add: prio' take_down_fields)
  qed
  have few: "queued (rt_q k) ?r < 2 ^ 32"
    by (rule le_less_trans [OF queued_le [OF wf _ E(1)] E(2)]) (rule arrays_okD(2) [OF ok])
  have arr: "array_ok ?k' q" for q
  proof (cases "q = ?r")
    case True
    then show ?thesis
      using take_down_array [of k ?r s "nat (rt_se_prio k s)"] arrays_okD(6) [OF ok] wf few h s
      by (simp add: prio_defs)
  next
    case False
    then have "elems (list_del_init s (rt_q k)) (q, i) = elems (rt_q k) (q, i)" for i
      using h s(2) by (simp add: elems_list_del_init)
    with False arrays_okD(6) [OF ok, of q] show ?thesis
      by (simp add: array_ok_def take_down_fields)
  qed
  have "lists_wf (rt_q ?k')" using wf by (simp add: take_down_fields)
  then show ?thesis using home' arr unfolding arrays_ok_def by blast
qed

section \<open>The chain of parents\<close>

fun linked :: "'x kernel \<Rightarrow> rt_se_ref list \<Rightarrow> bool" where
  "linked k [] \<longleftrightarrow> True"
| "linked k [s] \<longleftrightarrow> rt_parent (rt_ses k s) = None"
| "linked k (s # q # L) \<longleftrightarrow> rt_parent (rt_ses k s) = Some q \<and> linked k (q # L)"

lemma linked_view:
  assumes "arr_view k' = arr_view k"
  shows "linked k' L = linked k L"
proof (induction L)
  case (Cons s L)
  then show ?case by (cases L) (simp_all add: arr_viewD [OF assms])
qed simp

lemma linked_unique: "\<lbrakk>linked k (s # L); linked k (s # M)\<rbrakk> \<Longrightarrow> L = M"
proof (induction L arbitrary: s M)
  case Nil
  then show ?case by (cases M) auto
next
  case (Cons q L)
  then obtain M' where "M = q # M'" by (cases M) auto
  with Cons show ?case by auto
qed

lemma linked_suffix: "linked k (xs @ s # ys) \<Longrightarrow> linked k (s # ys)"
proof (induction xs)
  case (Cons x xs)
  then show ?case by (cases xs) auto
qed simp

lemma linked_distinct: "linked k L \<Longrightarrow> distinct L"
proof (induction L)
  case (Cons s L)
  have "s \<notin> set L"
  proof
    assume "s \<in> set L"
    then obtain xs ys where L: "L = xs @ s # ys" by (meson split_list)
    then have "linked k ((s # xs) @ s # ys)" using Cons.prems by simp
    then have "linked k (s # ys)" by (rule linked_suffix)
    then have "ys = L" using Cons.prems linked_unique by blast
    with L show False by simp
  qed
  moreover have "linked k L" using Cons.prems by (cases L) auto
  ultimately show ?case using Cons.IH by simp
qed simp

lemma hierarchyD:
  assumes "hierarchy_ok E k" "s \<in> E"
  shows "rt_my_q (rt_ses k q) = Some (rt_rq_of_se k s) \<longleftrightarrow> rt_parent (rt_ses k s) = Some q"
    "rt_parent (rt_ses k s) = Some q \<Longrightarrow> q \<in> E" "rt_parent (rt_ses k s) = Some q \<Longrightarrow> 0 < rt_se_rank q"
    "\<lbrakk>rt_parent (rt_ses k s) = Some q; 0 < rt_se_rank s\<rbrakk> \<Longrightarrow> rt_se_rank q < rt_se_rank s"
    "finite E" "card E < 2 ^ 32"
    "rt_parent (rt_ses k s) =
       tg_rt_se (the (rt_tg (rt_rqs k (rt_rq_of_se k s)))) (rq_of_rt_rq (rt_rq_of_se k s))"
    "rt_my_q (rt_ses k s) = None \<longleftrightarrow> rt_se_rank s = 0"
    "s = Group_se t c \<Longrightarrow> t \<in> set (task_groups k)"
  using assms unfolding hierarchy_ok_def by blast+

lemma ancestors_linked:
  assumes "hierarchy_ok E k" "s \<in> E" "0 < rt_se_rank s" "rt_se_rank s \<le> n"
  shows "linked k (ancestors n (\<lambda>s. rt_parent (rt_ses k s)) (Some s))
    \<and> set (ancestors n (\<lambda>s. rt_parent (rt_ses k s)) (Some s)) \<subseteq> E"
  using assms(2-4)
proof (induction n arbitrary: s)
  case (Suc n)
  show ?case
  proof (cases "rt_parent (rt_ses k s)")
    case (Some q)
    note h = hierarchyD(1-4) [OF assms(1) Suc.prems(1), of q] Some
    have "0 < n" using h Suc.prems by fastforce
    then obtain m where n: "n = Suc m" by (cases n) auto
    show ?thesis using Suc.IH [of q] h Suc.prems Some by (auto simp: n)
  qed (use Suc.prems in simp)
qed simp

lemma rt_chain_linked:
  assumes "hierarchy_ok E k" "s \<in> E"
  shows "linked k (rt_chain k s)" "set (rt_chain k s) \<subseteq> E"
proof -
  show "linked k (rt_chain k s)"
  proof (cases "rt_parent (rt_ses k s)")
    case (Some q)
    note h = hierarchyD(1-4) [OF assms, of q]
    have a: "linked k (ancestors (rt_se_rank q) (\<lambda>s. rt_parent (rt_ses k s)) (Some q))"
      using ancestors_linked [OF assms(1)] h Some by blast
    obtain m where "rt_se_rank q = Suc m" using h(3) Some by (cases "rt_se_rank q") auto
    with a Some show ?thesis by (simp add: rt_chain_def)
  qed (simp add: rt_chain_def)
  show "set (rt_chain k s) \<subseteq> E"
  proof (cases "rt_parent (rt_ses k s)")
    case (Some q)
    with hierarchyD(1-4) [OF assms, of q] ancestors_linked [OF assms(1), of q "rt_se_rank q"] assms(2)
    show ?thesis by (simp add: rt_chain_def)
  qed (use assms(2) in \<open>simp add: rt_chain_def\<close>)
qed

section \<open>Queueing and dequeueing along the chain\<close>

text \<open>What queueing leaves alone beside the arrays: the hierarchy and the priorities of tasks.\<close>

definition same_tree :: "'x kernel \<Rightarrow> 'x kernel \<Rightarrow> bool" where
  "same_tree k k' \<longleftrightarrow>
     (\<forall>s. rt_parent (rt_ses k' s) = rt_parent (rt_ses k s) \<and> rt_rq_of (rt_ses k' s) = rt_rq_of (rt_ses k s)
        \<and> rt_my_q (rt_ses k' s) = rt_my_q (rt_ses k s)) \<and> (\<forall>p. prio (tasks k' p) = prio (tasks k p))
     \<and> (\<forall>r. rt_tg (rt_rqs k' r) = rt_tg (rt_rqs k r)) \<and> task_groups k' = task_groups k"

lemma same_tree_refl [simp]: "same_tree k k"
  by (simp add: same_tree_def)

lemma same_tree_trans: "\<lbrakk>same_tree k k'; same_tree k' k''\<rbrakk> \<Longrightarrow> same_tree k k''"
  by (simp add: same_tree_def)

lemma same_tree_view: "arr_view k' = arr_view k \<Longrightarrow> same_tree k k'"
  by (simp add: same_tree_def arr_viewD [of k' k])

lemma same_treeD:
  assumes "same_tree k k'"
  shows "rt_parent (rt_ses k' s) = rt_parent (rt_ses k s)" "rt_rq_of (rt_ses k' s) = rt_rq_of (rt_ses k s)"
    "rt_my_q (rt_ses k' s) = rt_my_q (rt_ses k s)" "prio (tasks k' p) = prio (tasks k p)"
    "rt_tg (rt_rqs k' r) = rt_tg (rt_rqs k r)" "task_groups k' = task_groups k"
  using assms unfolding same_tree_def by blast+

lemma hierarchy_same_tree:
  assumes "same_tree k k'"
  shows "hierarchy_ok E k' \<longleftrightarrow> hierarchy_ok E k"
  by (simp add: hierarchy_ok_def same_treeD [OF assms])

lemma linked_same_tree:
  assumes "same_tree k k'"
  shows "linked k' L = linked k L"
proof (induction L)
  case (Cons s L)
  then show ?case by (cases L) (simp_all add: same_treeD [OF assms])
qed simp

lemma not_own_queue: "\<lbrakk>hierarchy_ok E k; s \<in> E\<rbrakk> \<Longrightarrow> group_rt_rq k s \<noteq> Some (rt_rq_of_se k s)"
  using hierarchyD(1,3,4) [of E k s s] by blast

lemma owner_is_next:
  assumes "hierarchy_ok E k" "s \<in> E" "linked k (s # L)" "group_rt_rq k q = Some (rt_rq_of_se k s)"
  shows "q \<in> set L"
  using hierarchyD(1) [OF assms(1,2), of q] assms(3,4) by (cases L) auto

lemma on_rt_rq_home: "on_rt_rq k s \<longleftrightarrow> home (rt_q k) s \<noteq> None"
  by (simp only: on_rt_rq_def node_empty_def)

text \<open>One step of each loop.\<close>

lemma dequeue1_step:
  fixes k :: "'x kernel" and env :: "'x env"
  assumes ok: "arrays_ok E k" and hier: "hierarchy_ok E k" and s: "s \<in> E" and lk: "linked k (s # L)"
    and off: "\<forall>q \<in> set L. home (rt_q k) q = None"
  defines "k' \<equiv> (if on_rt_rq k s then dequeue_rt_entity1 env s k else k)"
  shows "arrays_ok E k' \<and> same_tree k k' \<and> (\<forall>q. home (rt_q k') q = (if q = s then None else home (rt_q k) q))"
proof -
  have own: "home (rt_q k) q = None" if "group_rt_rq k q = Some (rt_rq_of_se k s)" for q
    using owner_is_next [OF hier s lk that] off by blast
  have v: "arr_view (dequeue_rt_entity1 env s k) = arr_view (take_down s k)"
    by (rule dequeue1_view) (rule not_own_queue [OF hier s])
  show ?thesis
  proof (cases "on_rt_rq k s")
    case True
    then have on: "home (rt_q k) s \<noteq> None" unfolding on_rt_rq_home .
    have "arrays_ok E (take_down s k)"
      using ok on own hierarchyD(5,6) [OF hier s] by (intro take_down_ok) auto
    moreover have "home (rt_q k') q = (if q = s then None else home (rt_q k) q)" for q
      using True by (simp add: k'_def arr_viewD(1) [OF v] take_down_fields)
    ultimately show ?thesis using True
      by (simp add: k'_def arrays_ok_view [OF v] same_tree_def arr_viewD [OF v] take_down_fields)
  next
    case False
    then have "home (rt_q k) s = None" by (simp only: on_rt_rq_home not_not)
    with False ok show ?thesis by (simp add: k'_def)
  qed
qed

lemma dequeue_stack_step:
  assumes ok: "arrays_ok E k" and hier: "hierarchy_ok E k" and L: "linked k L" "set L \<subseteq> E"
  shows "\<exists>k'. k' = fold (\<lambda>s k. if on_rt_rq k s then dequeue_rt_entity1 env s k else k) (rev L) k
    \<and> arrays_ok E k' \<and> same_tree k k' \<and> (\<forall>q. home (rt_q k') q = (if q \<in> set L then None else home (rt_q k) q))"
  using L
proof (induction L)
  case (Cons s L)
  have lk: "linked k L" using Cons.prems(1) by (cases L) auto
  obtain k1 where k1: "k1 = fold (\<lambda>s k. if on_rt_rq k s then dequeue_rt_entity1 env s k else k) (rev L) k"
    "arrays_ok E k1" "same_tree k k1" "\<forall>q. home (rt_q k1) q = (if q \<in> set L then None else home (rt_q k) q)"
    using Cons.IH [OF lk] Cons.prems(2) by auto
  have "hierarchy_ok E k1" "linked k1 (s # L)" "s \<in> E" "\<forall>q \<in> set L. home (rt_q k1) q = None"
    using hier Cons.prems k1 hierarchy_same_tree [OF k1(3)] linked_same_tree [OF k1(3)] by auto
  note step = dequeue1_step [OF k1(2) this(1,3,2,4), of env]
  have "fold (\<lambda>s k. if on_rt_rq k s then dequeue_rt_entity1 env s k else k) (rev (s # L)) k
      = (if on_rt_rq k1 s then dequeue_rt_entity1 env s k1 else k1)" by (simp add: k1(1))
  with step k1(4) same_tree_trans [OF k1(3)] show ?case by simp
qed (use ok in simp)

lemma dequeue_rt_stack_ok:
  assumes "arrays_ok E k" "hierarchy_ok E k" "s \<in> E"
  shows "arrays_ok E (dequeue_rt_stack env s k)" "same_tree k (dequeue_rt_stack env s k)"
    "q \<in> set (rt_chain k s) \<Longrightarrow> home (rt_q (dequeue_rt_stack env s k)) q = None"
    "q \<notin> set (rt_chain k s) \<Longrightarrow> home (rt_q (dequeue_rt_stack env s k)) q = home (rt_q k) q"
  using dequeue_stack_step [OF assms(1,2) rt_chain_linked [OF assms(2,3)], of env]
  by (auto simp: dequeue_rt_stack_def)

lemma enqueue1_step:
  fixes k :: "'x kernel" and env :: "'x env" and head :: bool
  assumes ok: "arrays_ok E k" and hier: "hierarchy_ok E k" and s: "s \<in> E" and lk: "linked k (s # L)"
    and off: "\<forall>q \<in> set (s # L). home (rt_q k) q = None"
    and pr: "group_rt_rq k s = None \<Longrightarrow> 0 \<le> rt_se_prio k s \<and> rt_se_prio k s < MAX_RT_PRIO"
  defines "k' \<equiv> enqueue_rt_entity1 env head s k"
  shows "arrays_ok E k' \<and> same_tree k k' \<and> (\<forall>q. q \<noteq> s \<longrightarrow> home (rt_q k') q = home (rt_q k) q)"
proof (cases "case group_rt_rq k s of None \<Rightarrow> False
     | Some g \<Rightarrow> rt_rq_throttled k g \<or> rt_nr_running (rt_rqs k g) = 0")
  case True
  then have "k' = k" by (simp add: k'_def enqueue_rt_entity1_def)
  with ok show ?thesis by simp
next
  case False
  note v = enqueue1_view [OF False, of env head]
  have own: "home (rt_q k) q = None" if "group_rt_rq k q = Some (rt_rq_of_se k s)" for q
    using owner_is_next [OF hier s lk that] off by simp
  have pr': "0 \<le> rt_se_prio k s \<and> rt_se_prio k s < MAX_RT_PRIO"
  proof (cases "group_rt_rq k s")
    case (Some g)
    have a: "array_ok k g" using ok by (rule arrays_okD)
    then have h: "rt_se_prio k s = sched_find_first_bit (bitmap (rt_rqs k g))" "bitmap (rt_rqs k g) 100"
      using Some by (simp_all add: rt_se_prio_def array_ok_def)
    have "rt_nr_running (rt_rqs k g) = of_nat (queued (rt_q k) g)" using a unfolding array_ok_def by blast
    moreover have "rt_nr_running (rt_rqs k g) \<noteq> 0" using False Some by simp
    ultimately have ne: "(of_nat (queued (rt_q k) g) :: u32) \<noteq> 0" by argo
    have "queued (rt_q k) g \<noteq> 0"
    proof
      assume "queued (rt_q k) g = 0"
      then have "(of_nat (queued (rt_q k) g) :: u32) = 0" by (rule ssubst) simp
      with ne show False by argo
    qed
    then obtain i where "i < 100" "bitmap (rt_rqs k g) i"
      using a unfolding queued_zero array_ok_def by blast
    then have "sched_find_first_bit (bitmap (rt_rqs k g)) < 100"
      using first_bit_bounds(4) [of "bitmap (rt_rqs k g)" i] h(2) by linarith
    with h first_bit_bounds(1) show ?thesis by (simp add: prio_defs)
  qed (use pr in blast)
  have "arrays_ok E (queue_up head s k)"
    using ok off s pr' own not_own_queue [OF hier s] by (intro queue_up_ok) auto
  moreover have "home (rt_q k') q = home (rt_q k) q" if "q \<noteq> s" for q
    using that by (simp add: k'_def arr_viewD(1) [OF v] queue_up_fields)
  ultimately show ?thesis
    by (simp add: k'_def arrays_ok_view [OF v] same_tree_def arr_viewD [OF v] queue_up_fields)
qed

text \<open>
  A loop up the chain whose steps either queue the entity or do nothing, as the loops of
  \<open>enqueue_rt_entity\<close> and \<open>dequeue_rt_entity\<close>.
\<close>

definition queues_or_skips :: "'x env \<Rightarrow> (rt_se_ref \<Rightarrow> 'x kernel \<Rightarrow> 'x kernel) \<Rightarrow> bool" where
  "queues_or_skips env f \<longleftrightarrow>
     (\<exists>head. \<forall>s k. f s k = k \<or> f s k = enqueue_rt_entity1 env head s k)"

lemma queue_chain:
  assumes f: "queues_or_skips env f" and ok: "arrays_ok E k" and hier: "hierarchy_ok E k"
    and L: "linked k L" "set L \<subseteq> E" and off: "\<forall>q \<in> set L. home (rt_q k) q = None"
    and pr: "\<And>s. s \<in> set L \<Longrightarrow> group_rt_rq k s = None \<Longrightarrow> 0 \<le> prio (tasks k (rt_task_of s)) \<and> prio (tasks k (rt_task_of s)) < MAX_RT_PRIO"
  shows "arrays_ok E (fold f L k) \<and> same_tree k (fold f L k)
    \<and> (\<forall>q. q \<notin> set L \<longrightarrow> home (rt_q (fold f L k)) q = home (rt_q k) q)"
  using ok hier L off pr
proof (induction L arbitrary: k)
  case (Cons s L)
  obtain head where f: "f s k = k \<or> f s k = enqueue_rt_entity1 env head s k"
    using f unfolding queues_or_skips_def by blast
  have lk: "linked k L" using Cons.prems(3) by (cases L) auto
  have s: "s \<in> E" "s \<notin> set L" using Cons.prems(4) linked_distinct [OF Cons.prems(3)] by auto
  have "0 \<le> rt_se_prio k s \<and> rt_se_prio k s < MAX_RT_PRIO" if "group_rt_rq k s = None"
    using Cons.prems(6) [of s] that by (simp add: rt_se_prio_def)
  note step = enqueue1_step [OF Cons.prems(1,2) s(1) Cons.prems(3,5) this, of env head]
  have one: "arrays_ok E (f s k) \<and> same_tree k (f s k) \<and> (\<forall>q. q \<noteq> s \<longrightarrow> home (rt_q (f s k)) q = home (rt_q k) q)"
    using f step Cons.prems(1) by auto
  note t = same_treeD [of k "f s k"]
  have "arrays_ok E (fold f L (f s k)) \<and> same_tree (f s k) (fold f L (f s k))
      \<and> (\<forall>q. q \<notin> set L \<longrightarrow> home (rt_q (fold f L (f s k))) q = home (rt_q (f s k)) q)"
  proof (rule Cons.IH)
    show "hierarchy_ok E (f s k)" "linked (f s k) L"
      using one Cons.prems(2) lk hierarchy_same_tree linked_same_tree by blast+
    show "\<forall>q \<in> set L. home (rt_q (f s k)) q = None" using one s(2) Cons.prems(5) by fastforce
  qed (use one Cons.prems t in auto)
  then show ?case using one same_tree_trans [of k "f s k"] by auto
qed simp

text \<open>Every entity of a chain but the first owns a runqueue.\<close>

lemma chain_tail_owns:
  assumes "hierarchy_ok E k" "linked k (s # L)" "insert s (set L) \<subseteq> E" "q \<in> set L"
  shows "group_rt_rq k q \<noteq> None"
  using assms(2-4)
proof (induction L arbitrary: s)
  case (Cons u L)
  then have "group_rt_rq k u = Some (rt_rq_of_se k s)"
    using hierarchyD(1) [OF assms(1), of s u] by auto
  then show ?case using Cons.IH [of u] Cons.prems by auto
qed simp

text \<open>
  The two operations, and what they have in common: after the entities of the chain are off the
  queues, a loop queues some of them again.
\<close>

definition leaf_prio_ok :: "rt_se_ref \<Rightarrow> 'x kernel \<Rightarrow> bool" where
  "leaf_prio_ok s k \<longleftrightarrow>
     (group_rt_rq k s = None \<longrightarrow> 0 \<le> prio (tasks k (rt_task_of s)) \<and> prio (tasks k (rt_task_of s)) < MAX_RT_PRIO)"

lemma restack_ok:
  assumes f: "queues_or_skips env f" and ok: "arrays_ok E k" and hier: "hierarchy_ok E k" and s: "s \<in> E"
    and pr: "leaf_prio_ok s k"
  shows "arrays_ok E (fold f (rt_chain k s) (dequeue_rt_stack env s k))
    \<and> same_tree k (fold f (rt_chain k s) (dequeue_rt_stack env s k))
    \<and> (\<forall>q. q \<notin> set (rt_chain k s) \<longrightarrow>
         home (rt_q (fold f (rt_chain k s) (dequeue_rt_stack env s k))) q = home (rt_q k) q)"
proof -
  let ?L = "rt_chain k s" and ?k1 = "dequeue_rt_stack env s k"
  note st = dequeue_rt_stack_ok [OF ok hier s, where env = env]
  note lk = rt_chain_linked [OF hier s]
  obtain L' where L': "?L = s # L'" by (simp add: rt_chain_def)
  have "arrays_ok E (fold f ?L ?k1) \<and> same_tree ?k1 (fold f ?L ?k1)
      \<and> (\<forall>q. q \<notin> set ?L \<longrightarrow> home (rt_q (fold f ?L ?k1)) q = home (rt_q ?k1) q)"
  proof (rule queue_chain [OF f st(1)])
    show "hierarchy_ok E ?k1" "linked ?k1 ?L"
      using hier lk st(2) hierarchy_same_tree linked_same_tree by blast+
    show "set ?L \<subseteq> E" by (rule lk)
    show "\<forall>q \<in> set ?L. home (rt_q ?k1) q = None" using st(3) by blast
    show "0 \<le> prio (tasks ?k1 (rt_task_of q)) \<and> prio (tasks ?k1 (rt_task_of q)) < MAX_RT_PRIO"
      if "q \<in> set ?L" "group_rt_rq ?k1 q = None" for q
    proof -
      have "q = s"
        using that chain_tail_owns [OF hier, of s L' q] lk same_treeD(3) [OF st(2)] by (auto simp: L')
      with that pr show ?thesis by (simp add: leaf_prio_ok_def same_treeD [OF st(2)])
    qed
  qed
  with st(2,4) same_tree_trans show ?thesis by metis
qed

lemma rt_chain_same_tree:
  assumes "same_tree k k'"
  shows "rt_chain k' s = rt_chain k s"
proof -
  have "(\<lambda>s. rt_parent (rt_ses k' s)) = (\<lambda>s. rt_parent (rt_ses k s))"
    by (rule ext) (rule same_treeD [OF assms])
  then show ?thesis unfolding rt_chain_def same_treeD(1) [OF assms] by argo
qed

theorem enqueue_rt_entity_ok:
  assumes "arrays_ok E k" "hierarchy_ok E k" "s \<in> E" "leaf_prio_ok s k"
  shows "arrays_ok E (enqueue_rt_entity env s head k)" "same_tree k (enqueue_rt_entity env s head k)"
proof -
  have "queues_or_skips env (enqueue_rt_entity1 env head)"
    unfolding queues_or_skips_def by (intro exI [of _ head]) simp
  from restack_ok [OF this assms] show "arrays_ok E (enqueue_rt_entity env s head k)"
    "same_tree k (enqueue_rt_entity env s head k)"
    by (simp_all add: enqueue_rt_entity_def Let_def
        rt_chain_same_tree [OF dequeue_rt_stack_ok(2) [OF assms(1-3)]])
qed

theorem dequeue_rt_entity_ok:
  assumes "arrays_ok E k" "hierarchy_ok E k" "s \<in> E" "leaf_prio_ok s k"
  shows "arrays_ok E (dequeue_rt_entity env s k)" "same_tree k (dequeue_rt_entity env s k)"
proof -
  let ?f = "\<lambda>s k. case group_rt_rq k s of None \<Rightarrow> k
      | Some g \<Rightarrow> if rt_nr_running (rt_rqs k g) \<noteq> 0 then enqueue_rt_entity1 env False s k else k"
  have "queues_or_skips env ?f"
    unfolding queues_or_skips_def by (intro exI [of _ False]) (auto split: option.split)
  from restack_ok [OF this assms] show "arrays_ok E (dequeue_rt_entity env s k)"
    "same_tree k (dequeue_rt_entity env s k)"
    by (simp_all add: dequeue_rt_entity_def Let_def
        rt_chain_same_tree [OF dequeue_rt_stack_ok(2) [OF assms(1-3)]])
qed

end
