(* ===== verification/Rt_Runs.thy ===== *)
theory Rt_Runs
  imports Op_Rules Rt_Array Example_State
begin

text \<open>
  The operations of the RT class as a state machine: enqueueing, dequeueing, yielding, picking,
  putting back, ticking, accounting with its throttling, and the period timer that ends it, in any
  order. Every reachable state has consistent priority arrays, and in such a state picking
  finds a best task without hitting its \<open>BUG_ON\<close>.
\<close>

section \<open>What every operation keeps\<close>

definition rt_ok :: "rt_se_ref set \<Rightarrow> 'x kernel \<Rightarrow> bool" where
  "rt_ok E k \<longleftrightarrow> arrays_ok E k \<and> hierarchy_ok E k"

text \<open>\<open>rt_keeps E k k'\<close>: if all is well in \<open>k\<close>, it is in \<open>k'\<close>, in the same hierarchy.\<close>

definition rt_keeps :: "rt_se_ref set \<Rightarrow> 'x kernel \<Rightarrow> 'x kernel \<Rightarrow> bool" where
  "rt_keeps E k k' \<longleftrightarrow> (rt_ok E k \<longrightarrow> rt_ok E k' \<and> same_tree k k')"

lemma rt_keeps_refl [simp]: "rt_keeps E k k"
  by (simp add: rt_keeps_def)

lemma rt_keeps_trans: "\<lbrakk>rt_keeps E k k'; rt_keeps E k' k''\<rbrakk> \<Longrightarrow> rt_keeps E k k''"
  by (auto simp: rt_keeps_def intro: same_tree_trans)

lemma rt_keeps_view:
  assumes "arr_view k' = arr_view k"
  shows "rt_keeps E k k'"
  by (simp add: rt_keeps_def rt_ok_def arrays_ok_view [OF assms] hierarchy_ok_view [OF assms]
      same_tree_view [OF assms])

lemma rt_keeps_then_view: "\<lbrakk>rt_keeps E k k'; arr_view k'' = arr_view k'\<rbrakk> \<Longrightarrow> rt_keeps E k k''"
  using rt_keeps_trans rt_keeps_view by blast

lemma arr_foldl:
  assumes "\<And>st x. arr_view (fst (f st x)) = arr_view (fst st)"
  shows "arr_view (fst (foldl f st xs)) = arr_view (fst st)"
  by (induction xs arbitrary: st) (simp_all add: assms)

section \<open>Queueing, dequeueing, requeueing\<close>

lemma keeps_enqueue:
  assumes "s \<in> E" "leaf_prio_ok s k"
  shows "rt_keeps E k (enqueue_rt_entity env s head k)"
  unfolding rt_keeps_def rt_ok_def
proof (intro impI, elim conjE)
  assume a: "arrays_ok E k" "hierarchy_ok E k"
  note e = enqueue_rt_entity_ok [OF a assms, of env head]
  then show "(arrays_ok E (enqueue_rt_entity env s head k) \<and> hierarchy_ok E (enqueue_rt_entity env s head k))
      \<and> same_tree k (enqueue_rt_entity env s head k)"
    using a(2) hierarchy_same_tree [OF e(2)] by simp
qed

lemma keeps_dequeue:
  assumes "s \<in> E" "leaf_prio_ok s k"
  shows "rt_keeps E k (dequeue_rt_entity env s k)"
  unfolding rt_keeps_def rt_ok_def
proof (intro impI, elim conjE)
  assume a: "arrays_ok E k" "hierarchy_ok E k"
  note e = dequeue_rt_entity_ok [OF a assms, of env]
  then show "(arrays_ok E (dequeue_rt_entity env s k) \<and> hierarchy_ok E (dequeue_rt_entity env s k))
      \<and> same_tree k (dequeue_rt_entity env s k)"
    using a(2) hierarchy_same_tree [OF e(2)] by simp
qed

text \<open>Moving an entity within its list.\<close>

lemma arrays_ok_permuted:
  assumes "arrays_ok E k" "lists_wf L" "home L = home (rt_q k)"
    and len: "\<And>h. length (elems L h) = length (elems (rt_q k) h)"
  shows "arrays_ok E (rt_q_update (\<lambda>_. L) k)"
proof -
  let ?k' = "rt_q_update (\<lambda>_. L) k"
  have p: "rt_se_prio ?k' s = rt_se_prio k s" for s by (rule rt_se_prio_same) simp_all
  have e: "elems L h = [] \<longleftrightarrow> elems (rt_q k) h = []" for h
    using len [of h] by (metis length_0_conv)
  have "array_ok ?k' r" for r
    using arrays_okD(6) [OF assms(1), of r] by (simp add: array_ok_def len e del: split_paired_All)
  then show ?thesis using assms(1-3) by (simp add: arrays_ok_def p)
qed

lemma keeps_requeue_entity: "rt_keeps E k (requeue_rt_entity (rt_rq_of_se k s) s head k)"
proof (cases "home (rt_q k) s")
  case None
  then show ?thesis by (simp add: requeue_rt_entity_def on_rt_rq_def node_empty_def)
next
  case (Some h)
  let ?L = "(if head \<noteq> 0 then list_move else list_move_tail) s h (rt_q k)"
  show ?thesis unfolding rt_keeps_def rt_ok_def
  proof (intro impI, elim conjE)
    assume ok: "arrays_ok E k" and hier: "hierarchy_ok E k"
    have wf: "lists_wf (rt_q k)" using ok by (rule arrays_okD)
    have h: "prio_queue k (rt_rq_of_se k s) s = h" using arrays_okD(3) [OF ok Some] by simp
    have k': "requeue_rt_entity (rt_rq_of_se k s) s head k = rt_q_update (\<lambda>_. ?L) k"
      using Some h by (simp add: requeue_rt_entity_def on_rt_rq_def node_empty_def)
    have len: "length (elems ?L g) = length (elems (rt_q k) g)" for g
    proof (cases "g = h")
      case True
      have mem: "s \<in> set (elems (rt_q k) h)" using wf Some by (rule wf_homeD)
      then have "0 < length (elems (rt_q k) h)" by (rule length_pos_if_in_set)
      with mem True show ?thesis
        by (simp add: elems_list_move [OF wf] elems_list_move_tail [OF wf] length_remove1)
    next
      case False
      then have "s \<notin> set (elems (rt_q k) g)" using Some by (simp add: wf_home [OF wf])
      with False show ?thesis
        by (simp add: elems_list_move [OF wf] elems_list_move_tail [OF wf] remove1_idem)
    qed
    have "arrays_ok E (rt_q_update (\<lambda>_. ?L) k)"
      by (rule arrays_ok_permuted [OF ok]) (use wf Some len in \<open>auto simp: fun_eq_iff\<close>)
    moreover have t: "same_tree k (rt_q_update (\<lambda>_. ?L) k)" by (simp add: same_tree_def)
    ultimately show "(arrays_ok E (requeue_rt_entity (rt_rq_of_se k s) s head k)
        \<and> hierarchy_ok E (requeue_rt_entity (rt_rq_of_se k s) s head k))
        \<and> same_tree k (requeue_rt_entity (rt_rq_of_se k s) s head k)"
      unfolding k' using hier hierarchy_same_tree [OF t] by simp
  qed
qed

lemma keeps_requeue: "rt_keeps E k (requeue_task_rt c p head k)"
  unfolding requeue_task_rt_def
  by (rule op_fold) (auto intro: rt_keeps_trans [OF _ keeps_requeue_entity])

section \<open>Accounting and throttling\<close>

lemma arr_upd_se [arr]: "arr_view (upd_se p f k) = arr_view k"
  by (rule arr_task) simp

lemma arr_tasks:
  "(\<And>m p. prio (F m p) = prio (m p)) \<Longrightarrow> arr_view (tasks_update F k) = arr_view k"
  by (rule arr_viewI) simp_all

lemma arr_cpuacct_charge [arr]: "arr_view (cpuacct_charge p d k) = arr_view k"
  using cpuacct_charge_is_cas_update [of p d k] by (metis arr_cas)

lemma arr_account_exec [arr]: "arr_view (account_exec env c d k) = arr_view k"
proof -
  have "arr_view (account_exec env c d k) = arr_view (ext_state_update (account_group_exec_runtime env (curr_of k c) d) k)"
    unfolding account_exec_def Let_def arr by (auto simp: arr intro!: arr_tasks)
  then show ?thesis by (simp add: arr)
qed

lemma arr_sched_rt_avg_update [arr]: "arr_view (sched_rt_avg_update env c d k) = arr_view k"
  by (simp add: sched_rt_avg_update_def sched_avg_update_def Let_def arr)

lemma arr_balance_step: "arr_view (fst (balance_step r w per st i)) = arr_view (fst st)"
  by (cases st) (auto simp: balance_step_def Let_def intro!: arr_rt_rqs)

lemma arr_balance_runtime [arr]: "arr_view (snd (balance_runtime env r k)) = arr_view k"
proof -
  have "arr_view (fst (foldl (balance_step r w per) (k, 0, False) cs)) = arr_view k" for w per cs
    using arr_foldl [of "balance_step r w per" "(k, 0, False)" cs, OF arr_balance_step] by simp
  then show ?thesis
    by (simp add: balance_runtime_def do_balance_runtime_def Let_def case_prod_unfold)
qed

text \<open>The entity of a group that is queued, or whose runqueue is not empty, exists.\<close>

lemma group_entity_leaf:
  assumes "rt_ok E k" "s \<in> E" "tg_rt_se g c = Some s"
  shows "leaf_prio_ok s k"
proof -
  have "s = Group_se g c" using assms(3) by (simp add: tg_rt_se_def split: if_splits)
  then have "group_rt_rq k s \<noteq> None"
    using hierarchyD(8) [of E k s] assms(1,2) by (simp add: rt_ok_def)
  then show ?thesis unfolding leaf_prio_ok_def by blast
qed

lemma keeps_rq_dequeue: "rt_keeps E k (sched_rt_rq_dequeue env r k)"
proof (cases "tg_rt_se (the (rt_tg (rt_rqs k r))) (rq_of_rt_rq r)")
  case (Some s)
  show ?thesis
  proof (cases "on_rt_rq k s \<and> rt_ok E k")
    case True
    then have "s \<in> E" using arrays_okD(2) [of E k s] by (auto simp: rt_ok_def on_rt_rq_home simp del: split_paired_All split_paired_Ex)
    then have "rt_keeps E k (dequeue_rt_entity env s k)"
      using True Some group_entity_leaf by (intro keeps_dequeue) auto
    then show ?thesis using True Some by (simp add: sched_rt_rq_dequeue_def)
  qed (use Some in \<open>auto simp: sched_rt_rq_dequeue_def rt_keeps_def\<close>)
qed (simp add: sched_rt_rq_dequeue_def)

lemma queued_entity:
  assumes "arrays_ok E k" "rt_nr_running (rt_rqs k r) \<noteq> 0"
  obtains s i where "i < 100" "home (rt_q k) s = Some (r, i)" "s \<in> E" "rt_rq_of_se k s = r"
proof -
  have a: "array_ok k r" and wf: "lists_wf (rt_q k)" using assms(1) by (rule arrays_okD)+
  have "queued (rt_q k) r \<noteq> 0"
  proof
    assume "queued (rt_q k) r = 0"
    then have "(of_nat (queued (rt_q k) r) :: u32) = 0" by (rule ssubst) simp
    with a assms(2) show False unfolding array_ok_def by argo
  qed
  then obtain i where i: "i < 100" "elems (rt_q k) (r, i) \<noteq> []" unfolding queued_zero by blast
  then have "hd (elems (rt_q k) (r, i)) \<in> set (elems (rt_q k) (r, i))" by simp
  then have h: "home (rt_q k) (hd (elems (rt_q k) (r, i))) = Some (r, i)" by (simp add: wf_home [OF wf])
  show ?thesis
    using that [OF i(1) h arrays_okD(2) [OF assms(1) h]] arrays_okD(3) [OF assms(1) h] by simp
qed

lemma keeps_rq_enqueue: "rt_keeps E k (sched_rt_rq_enqueue env r k)"
proof (cases "rt_nr_running (rt_rqs k r) = 0 \<or> \<not> rt_ok E k")
  case True
  then show ?thesis by (auto simp: sched_rt_rq_enqueue_def rt_keeps_def)
next
  case False
  then have ok: "arrays_ok E k" "hierarchy_ok E k" by (simp_all add: rt_ok_def)
  obtain q where q: "q \<in> E" "rt_rq_of_se k q = r"
    using queued_entity [OF ok(1), of r] False by blast
  let ?s = "tg_rt_se (the (rt_tg (rt_rqs k r))) (rq_of_rt_rq r)"
  let ?k1 = "case ?s of None \<Rightarrow> k | Some s \<Rightarrow> if \<not> on_rt_rq k s then enqueue_rt_entity env s False k else k"
  have "rt_keeps E k ?k1"
  proof (cases ?s)
    case (Some s)
    then have "s \<in> E" using hierarchyD(2,7) [OF ok(2) q(1)] q(2) by simp
    then show ?thesis using Some False group_entity_leaf [of E k s] by (simp add: keeps_enqueue)
  qed simp
  then show ?thesis using False
    by (auto simp: sched_rt_rq_enqueue_def Let_def intro: rt_keeps_then_view [OF _ arr_resched])
qed

text \<open>
  The rules that follow an operation: the constructs, the parts that do not touch the arrays, and
  the parts above.
\<close>

named_theorems rtk \<open>operations that keep the arrays consistent\<close>

lemmas rtk_rules [rtk] = op_rules [where P = "rt_keeps E k" for E k]

lemmas rtk_lets = op_lets [where P = "rt_keeps E k" for E k]

lemma rtk_view_ops [rtk]:
  "rt_keeps E k a \<Longrightarrow> rt_keeps E k (rqs_update f a)"
  "rt_keeps E k a \<Longrightarrow> rt_keeps E k (resched_task p a)"
  "rt_keeps E k a \<Longrightarrow> rt_keeps E k (inc_nr_running c a)"
  "rt_keeps E k a \<Longrightarrow> rt_keeps E k (dec_nr_running c a)"
  "rt_keeps E k a \<Longrightarrow> rt_keeps E k (BUG_ON b a)"
  "rt_keeps E k a \<Longrightarrow> rt_keeps E k (upd_se p g a)"
  "rt_keeps E k a \<Longrightarrow> rt_keeps E k (account_exec env c d a)"
  "rt_keeps E k a \<Longrightarrow> rt_keeps E k (sched_rt_avg_update env c d a)"
  "rt_keeps E k a \<Longrightarrow> rt_keeps E k (snd (balance_runtime env r a))"
  "rt_keeps E k a \<Longrightarrow> rt_keeps E k (enqueue_pushable_task env c p a)"
  "rt_keeps E k a \<Longrightarrow> rt_keeps E k (dequeue_pushable_task env c p a)"
  by (erule rt_keeps_then_view; simp add: arr)+

lemma rtk_field_ops [rtk]:
  "rt_keeps E k a \<Longrightarrow> rt_keeps E k (upd_rt_rq r (\<lambda>q. q\<lparr>rt_time := f q\<rparr>) a)"
  "rt_keeps E k a \<Longrightarrow> rt_keeps E k (upd_rt_rq r (\<lambda>q. q\<lparr>rt_throttled := g q\<rparr>) a)"
  "rt_keeps E k a \<Longrightarrow> rt_keeps E k (upd_rt_se s (\<lambda>e. e\<lparr>rt_timeout := h e\<rparr>) a)"
  "rt_keeps E k a \<Longrightarrow> rt_keeps E k (upd_rt_se s (\<lambda>e. e\<lparr>rt_time_slice := i e\<rparr>) a)"
  "rt_keeps E k a \<Longrightarrow> rt_keeps E k (upd_task p (\<lambda>t. t\<lparr>need_resched := b t\<rparr>) a)"
  "rt_keeps E k a \<Longrightarrow> rt_keeps E k (upd_task p (\<lambda>t. t\<lparr>sched_exp := x t\<rparr>) a)"
  by (erule rt_keeps_then_view; auto intro!: arr_rt_rqs arr_rt_se arr_tasks)+

lemma rtk_parts [rtk]:
  "rt_keeps E k a \<Longrightarrow> rt_keeps E k (sched_rt_rq_enqueue env r a)"
  "rt_keeps E k a \<Longrightarrow> rt_keeps E k (sched_rt_rq_dequeue env r a)"
  "rt_keeps E k a \<Longrightarrow> rt_keeps E k (requeue_task_rt c p head a)"
  by (blast intro: rt_keeps_trans keeps_rq_enqueue keeps_rq_dequeue keeps_requeue)+

lemma rtk_exceeded [rtk]: "rt_keeps E k a \<Longrightarrow> rt_keeps E k (snd (sched_rt_runtime_exceeded env r a))"
  unfolding sched_rt_runtime_exceeded_def by (assumption | rule rtk | rule rtk_lets)+

lemma rtk_charge [rtk]: "rt_keeps E k a \<Longrightarrow> rt_keeps E k (charge_rt_rq env p d s a)"
  unfolding charge_rt_rq_def by (assumption | rule rtk | rule rtk_lets)+

lemma rtk_update_curr [rtk]: "rt_keeps E k a \<Longrightarrow> rt_keeps E k (update_curr_rt env c a)"
  unfolding update_curr_rt_def by (assumption | rule rtk | rule rtk_lets)+

lemma rtk_period_cpu [rtk]: "rt_keeps E k (fst st) \<Longrightarrow> rt_keeps E k (fst (rt_period_cpu env g ov st i))"
  unfolding rt_period_cpu_def by (assumption | rule rtk | rule rtk_lets)+

lemma rtk_period_timer [rtk]: "rt_keeps E k a \<Longrightarrow> rt_keeps E k (snd (do_sched_rt_period_timer env g ov a))"
  unfolding do_sched_rt_period_timer_def by (assumption | rule rtk | rule rtk_lets)+

section \<open>The operations of the class\<close>

lemma rtk_yield [rtk]: "rt_keeps E k a \<Longrightarrow> rt_keeps E k (yield_task_rt c a)"
  unfolding yield_task_rt_def by (assumption | rule rtk | rule rtk_lets)+

lemma rtk_put_prev [rtk]: "rt_keeps E k a \<Longrightarrow> rt_keeps E k (put_prev_task_rt env c p a)"
  unfolding put_prev_task_rt_def by (assumption | rule rtk | rule rtk_lets)+

lemma rtk_set_curr [rtk]: "rt_keeps E k a \<Longrightarrow> rt_keeps E k (set_curr_task_rt env c a)"
  unfolding set_curr_task_rt_def by (assumption | rule rtk | rule rtk_lets)+

lemma rtk_watchdog [rtk]: "rt_keeps E k a \<Longrightarrow> rt_keeps E k (watchdog env p a)"
  unfolding watchdog_def by (assumption | rule rtk | rule rtk_lets)+

lemma rtk_tick [rtk]: "rt_keeps E k a \<Longrightarrow> rt_keeps E k (task_tick_rt env c p q a)"
  unfolding task_tick_rt_def by (assumption | rule rtk | rule rtk_lets)+

lemma rtk_check_preempt [rtk]: "rt_keeps E k a \<Longrightarrow> rt_keeps E k (check_preempt_curr_rt env c p fl a)"
  unfolding check_preempt_curr_rt_def check_preempt_equal_prio_def
  by (assumption | rule rtk | rule rtk_lets)+

lemma rtk_pick [rtk]: "rt_keeps E k a \<Longrightarrow> rt_keeps E k (snd (pick_next_task_rt env c a))"
  unfolding pick_next_task_rt_def pick_next_task_rt1_def by (assumption | rule rtk | rule rtk_lets)+

lemma keeps_enqueue_task:
  assumes "Task_se p \<in> E" "0 \<le> prio (tasks k p)" "prio (tasks k p) < MAX_RT_PRIO"
  shows "rt_keeps E k (enqueue_task_rt env c p fl k)"
proof -
  let ?k1 = "if fl AND ENQUEUE_WAKEUP \<noteq> 0 then upd_rt_se (Task_se p) (\<lambda>e. e\<lparr>rt_timeout := 0\<rparr>) k else k"
  have k1: "rt_keeps E k ?k1" by (auto intro: rtk_field_ops(3))
  have "rt_keeps E ?k1 (enqueue_rt_entity env (Task_se p) h ?k1)" for h
    using assms by (intro keeps_enqueue) (simp_all add: leaf_prio_ok_def)
  then have "rt_keeps E k (enqueue_rt_entity env (Task_se p) h ?k1)" for h
    by (rule rt_keeps_trans [OF k1])
  then show ?thesis unfolding enqueue_task_rt_def Let_def by (intro rtk)
qed

lemma keeps_dequeue_task:
  assumes "Task_se p \<in> E" "0 \<le> prio (tasks k p)" "prio (tasks k p) < MAX_RT_PRIO" "rt_ok E k"
  shows "rt_keeps E k (dequeue_task_rt env c p fl k)"
proof -
  let ?k1 = "update_curr_rt env c k"
  have k1: "rt_keeps E k ?k1" by (rule rtk_update_curr) simp
  then have "prio (tasks ?k1 p) = prio (tasks k p)"
    using assms(4) by (simp add: rt_keeps_def same_treeD)
  then have "rt_keeps E ?k1 (dequeue_rt_entity env (Task_se p) ?k1)"
    using assms by (intro keeps_dequeue) (simp_all add: leaf_prio_ok_def)
  with k1 have "rt_keeps E k (dequeue_rt_entity env (Task_se p) ?k1)" by (rule rt_keeps_trans)
  then show ?thesis unfolding dequeue_task_rt_def Let_def by (intro rtk)
qed

section \<open>Picking\<close>

text \<open>\<open>s\<close> is queued on \<open>r\<close>, and nothing queued there has a higher priority.\<close>

definition best_on :: "'x kernel \<Rightarrow> rt_rq_ref \<Rightarrow> rt_se_ref \<Rightarrow> bool" where
  "best_on k r s \<longleftrightarrow>
     (\<exists>i. home (rt_q k) s = Some (r, i))
     \<and> (\<forall>s' i. home (rt_q k) s' = Some (r, i) \<longrightarrow> rt_se_prio k s \<le> rt_se_prio k s')"

text \<open>The task reached from \<open>r\<close> by going to a best entity, and into its group, until it is a task.\<close>

inductive best_task :: "'x kernel \<Rightarrow> rt_rq_ref \<Rightarrow> tid \<Rightarrow> bool" for k where
  here: "best_on k r (Task_se p) \<Longrightarrow> best_task k r p"
| down: "\<lbrakk>best_on k r s; group_rt_rq k s = Some g; best_task k g p\<rbrakk> \<Longrightarrow> best_task k r p"

lemma pick_entity:
  assumes ok: "arrays_ok E k" and nr: "rt_nr_running (rt_rqs k r) \<noteq> 0"
  obtains s where "pick_next_rt_entity k r = Some s" "best_on k r s" "s \<in> E" "rt_rq_of_se k s = r"
proof -
  have a: "array_ok k r" and wf: "lists_wf (rt_q k)" using ok by (rule arrays_okD)+
  let ?f = "sched_find_first_bit (bitmap (rt_rqs k r))"
  have top: "bitmap (rt_rqs k r) 100" using a by (simp add: array_ok_def)
  note f = first_bit_bounds [of "bitmap (rt_rqs k r)", OF top]
  have bits: "bitmap (rt_rqs k r) i \<longleftrightarrow> elems (rt_q k) (r, i) \<noteq> []" if "i < 100" for i
    using a that by (simp add: array_ok_def)
  obtain q i where q: "i < 100" "home (rt_q k) q = Some (r, i)" using queued_entity [OF ok nr] by blast
  then have "elems (rt_q k) (r, i) \<noteq> []" using wf_homeD [OF wf q(2)] by auto
  then have "bitmap (rt_rqs k r) i" using bits q(1) by simp
  then have "nat ?f \<le> i" using f(4) [of i] by (meson not_le)
  then have less: "nat ?f < 100" "\<not> MAX_RT_PRIO \<le> ?f" using q(1) f(1) by (auto simp: prio_defs)
  let ?s = "hd (elems (rt_q k) (r, nat ?f))"
  have "?s \<in> set (elems (rt_q k) (r, nat ?f))" using bits [OF less(1)] f(3) by (intro hd_in_set) simp
  then have h: "home (rt_q k) ?s = Some (r, nat ?f)" by (simp add: wf_home [OF wf])
  have "best_on k r ?s"
    unfolding best_on_def
  proof (intro conjI allI impI)
    show "\<exists>i. home (rt_q k) ?s = Some (r, i)" using h by blast
    fix s' i assume s': "home (rt_q k) s' = Some (r, i)"
    have i: "i = nat (rt_se_prio k s')" "i < 100" using arrays_okD(3-5) [OF ok s'] by (auto simp: prio_defs)
    have "elems (rt_q k) (r, i) \<noteq> []" using wf_homeD [OF wf s'] by auto
    then have "nat ?f \<le> i" using bits [OF i(2)] f(4) [of i] by (meson not_le)
    moreover have "nat ?f = nat (rt_se_prio k ?s)" using arrays_okD(3) [OF ok h] by simp
    ultimately show "rt_se_prio k ?s \<le> rt_se_prio k s'"
      using i arrays_okD(4) [OF ok s'] by linarith
  qed
  moreover have "pick_next_rt_entity k r = Some ?s" using less(2) by (simp add: pick_next_rt_entity_def Let_def)
  ultimately show ?thesis using that arrays_okD(2,3) [OF ok h] by auto
qed

text \<open>An empty group has no priority.\<close>

lemma prio_of_group:
  assumes ok: "arrays_ok E k" and hier: "hierarchy_ok E k" and s: "s \<in> E"
    and g: "group_rt_rq k s = Some g" "rt_se_prio k s < MAX_RT_PRIO"
  shows "rt_nr_running (rt_rqs k g) \<noteq> 0"
proof
  assume nr: "rt_nr_running (rt_rqs k g) = 0"
  have a: "array_ok k g" and wf: "lists_wf (rt_q k)" using ok by (rule arrays_okD)+
  have "queued (rt_q k) g < 2 ^ 32"
    by (rule le_less_trans [OF queued_le [OF wf _ hierarchyD(5) [OF hier s]] hierarchyD(6) [OF hier s]])
      (rule arrays_okD(2) [OF ok])
  moreover have "(of_nat (queued (rt_q k) g) :: u32) = 0" using a nr unfolding array_ok_def by argo
  ultimately have "queued (rt_q k) g = 0" using u32_of_nat_zero by blast
  then have "\<not> bitmap (rt_rqs k g) i" if "i < 100" for i
    using a that unfolding queued_zero array_ok_def by blast
  moreover have "bitmap (rt_rqs k g) 100" using a by (simp add: array_ok_def)
  ultimately have "sched_find_first_bit (bitmap (rt_rqs k g)) = int 100" by (intro first_bit_eqI) auto
  then have "rt_se_prio k s = 100" using a g(1) by (simp add: rt_se_prio_def array_ok_def)
  with g(2) show False by (simp add: prio_defs)
qed

text \<open>
  The loop ends within its bound: the group entered by a turn has a higher number than the one
  before, and the remaining groups with higher numbers bound the remaining turns.
\<close>

lemma pick_loop:
  assumes ok: "arrays_ok E k" and hier: "hierarchy_ok E k" and nr: "rt_nr_running (rt_rqs k r) \<noteq> 0"
    and above: "\<And>s. \<lbrakk>s \<in> E; rt_rq_of_se k s = r; 0 < rt_se_rank s\<rbrakk> \<Longrightarrow> b < rt_se_rank s"
    and n: "card {t \<in> set (task_groups k). b \<le> t} < n"
  shows "\<exists>p. pick_rt_loop n k r = Some (Task_se p) \<and> best_task k r p"
  using nr above n
proof (induction n arbitrary: r b)
  case (Suc n)
  obtain s where s: "pick_next_rt_entity k r = Some s" "best_on k r s" "s \<in> E" "rt_rq_of_se k s = r"
    using pick_entity [OF ok Suc.prems(1)] by blast
  show ?case
  proof (cases s)
    case (Task_se p)
    then have "group_rt_rq k s = None" using hierarchyD(8) [OF hier s(3)] by simp
    with Task_se s show ?thesis by (auto intro: best_task.here)
  next
    case (Group_se t c)
    then obtain g where g: "group_rt_rq k s = Some g" using hierarchyD(8) [OF hier s(3)] by auto
    have t: "t \<in> set (task_groups k)" "b \<le> t"
      using hierarchyD(9) [OF hier s(3) Group_se] Suc.prems(2) [OF s(3,4)] Group_se by auto
    obtain i where "home (rt_q k) s = Some (r, i)" using s(2) by (auto simp: best_on_def)
    then have "rt_se_prio k s < MAX_RT_PRIO" by (rule arrays_okD(5) [OF ok])
    then have "rt_nr_running (rt_rqs k g) \<noteq> 0"
      using prio_of_group [OF ok hier s(3) g] by blast
    moreover have "Suc t < rt_se_rank s'" if "s' \<in> E" "rt_rq_of_se k s' = g" "0 < rt_se_rank s'" for s'
    proof -
      have "rt_parent (rt_ses k s') = Some s" using hierarchyD(1) [OF hier that(1), of s] g that(2) by simp
      then show ?thesis using hierarchyD(4) [OF hier that(1)] that(3) Group_se by fastforce
    qed
    moreover have "card {u \<in> set (task_groups k). Suc t \<le> u} < n"
    proof -
      have "t \<in> {u \<in> set (task_groups k). b \<le> u} - {u \<in> set (task_groups k). Suc t \<le> u}"
        "{u \<in> set (task_groups k). Suc t \<le> u} \<subseteq> {u \<in> set (task_groups k). b \<le> u}" using t by auto
      then have "{u \<in> set (task_groups k). Suc t \<le> u} \<subset> {u \<in> set (task_groups k). b \<le> u}" by blast
      then have "card {u \<in> set (task_groups k). Suc t \<le> u} < card {u \<in> set (task_groups k). b \<le> u}"
        by (intro psubset_card_mono) auto
      with Suc.prems(3) show ?thesis by linarith
    qed
    ultimately obtain p where "pick_rt_loop n k g = Some (Task_se p)" "best_task k g p"
      using Suc.IH [of g "Suc t"] by blast
    then show ?thesis using s g by (auto intro: best_task.down)
  qed
qed simp

section \<open>Where a task is queued\<close>

text \<open>A chain has one task, its first entity; the rest of a loop over it does not move that task.\<close>

lemma chain_of_task:
  assumes "hierarchy_ok E k" "Task_se p \<in> E"
  obtains L where "rt_chain k (Task_se p) = Task_se p # L" "linked k (Task_se p # L)" "set L \<subseteq> E"
    "\<And>q. Task_se q \<notin> set L"
proof -
  obtain L where L: "rt_chain k (Task_se p) = Task_se p # L" by (simp add: rt_chain_def)
  note lk = rt_chain_linked [OF assms, unfolded L]
  have "Task_se q \<notin> set L" for q
  proof
    assume q: "Task_se q \<in> set L"
    then have "group_rt_rq k (Task_se q) \<noteq> None" using chain_tail_owns [OF assms(1) lk(1)] lk(2) by simp
    moreover have "Task_se q \<in> E" using q lk(2) by auto
    ultimately show False using hierarchyD(8) [OF assms(1), of "Task_se q"] by simp
  qed
  with L lk that show ?thesis by auto
qed

lemma restack_home:
  assumes f: "queues_or_skips env f" and ok: "rt_ok E k" and p: "Task_se p \<in> E" "leaf_prio_ok (Task_se p) k"
  defines "k1 \<equiv> dequeue_rt_stack env (Task_se p) k"
  shows "home (rt_q (fold f (rt_chain k (Task_se p)) k1)) (Task_se p) = home (rt_q (f (Task_se p) k1)) (Task_se p)"
    "home (rt_q k1) (Task_se p) = None" "same_tree k k1" "group_rt_rq k1 (Task_se p) = None"
    "rt_chain k1 (Task_se p) = rt_chain k (Task_se p)"
    "q \<noteq> p \<Longrightarrow> home (rt_q (fold f (rt_chain k (Task_se p)) k1)) (Task_se q) = home (rt_q k) (Task_se q)"
proof -
  let ?s = "Task_se p"
  have a: "arrays_ok E k" "hierarchy_ok E k" using ok by (simp_all add: rt_ok_def)
  obtain L where L: "rt_chain k ?s = ?s # L" "linked k (?s # L)" "set L \<subseteq> E" "\<And>q. Task_se q \<notin> set L"
    using chain_of_task [OF a(2) p(1)] by blast
  note st = dequeue_rt_stack_ok [OF a p(1), where env = env, folded k1_def]
  note t = same_treeD [OF st(2)]
  show "same_tree k k1" by (rule st)
  show "home (rt_q k1) ?s = None" using st(3) [of ?s] L(1) by simp
  show none: "group_rt_rq k1 ?s = None" using hierarchyD(8) [OF a(2) p(1)] t(3) by simp
  show "rt_chain k1 ?s = rt_chain k ?s" by (rule rt_chain_same_tree [OF st(2)])
  show "home (rt_q (fold f (rt_chain k ?s) k1)) (Task_se q) = home (rt_q k) (Task_se q)" if "q \<noteq> p"
  proof -
    have "Task_se q \<notin> set (rt_chain k ?s)" using that L(1,4) by simp
    then show ?thesis using restack_ok [OF f a p] unfolding k1_def by blast
  qed
  have h1: "hierarchy_ok E k1" "linked k1 (?s # L)"
    using a(2) L(2) hierarchy_same_tree [OF st(2)] linked_same_tree [OF st(2)] by simp_all
  have off: "\<forall>q \<in> set (?s # L). home (rt_q k1) q = None" using st(3) L(1) by auto
  have pr: "0 \<le> rt_se_prio k1 ?s \<and> rt_se_prio k1 ?s < MAX_RT_PRIO"
    using p(2) none by (simp add: leaf_prio_ok_def rt_se_prio_def t)
  obtain head where fs: "f ?s k1 = k1 \<or> f ?s k1 = enqueue_rt_entity1 env head ?s k1"
    using f unfolding queues_or_skips_def by blast
  note step = enqueue1_step [OF st(1) h1(1) p(1) h1(2) off pr, of env head]
  have one': "arrays_ok E (f ?s k1) \<and> same_tree k1 (f ?s k1)
      \<and> (\<forall>q. q \<noteq> ?s \<longrightarrow> home (rt_q (f ?s k1)) q = home (rt_q k1) q)"
    using fs step st(1) by auto
  have one: "arrays_ok E (f ?s k1)" "same_tree k1 (f ?s k1)"
    "\<And>q. q \<in> set L \<Longrightarrow> home (rt_q (f ?s k1)) q = None"
  proof -
    fix q assume q: "q \<in> set L"
    then have "q \<noteq> ?s" using L(4) by metis
    with q one' off show "home (rt_q (f ?s k1)) q = None" by simp
  qed (use one' in blast)+
  note t1 = same_tree_trans [OF st(2) one(2)]
  have "home (rt_q (fold f L (f ?s k1))) ?s = home (rt_q (f ?s k1)) ?s"
  proof -
    have lkL: "linked (f ?s k1) L"
      using L(2) linked_same_tree [OF t1, of L] by (cases L) auto
    have "group_rt_rq (f ?s k1) q \<noteq> None" if "q \<in> set L" for q
      using chain_tail_owns [OF a(2) L(2)] L(3) p(1) that same_treeD(3) [OF t1, of q] by auto
    then show ?thesis
      using queue_chain [OF f one(1) _ lkL L(3)] one(3) a(2) hierarchy_same_tree [OF t1] L(4) by blast
  qed
  then show "home (rt_q (fold f (rt_chain k ?s) k1)) ?s = home (rt_q (f ?s k1)) ?s" by (simp add: L(1))
qed

lemma enqueue_entity_home:
  assumes "rt_ok E k" "Task_se p \<in> E" "leaf_prio_ok (Task_se p) k"
  shows "home (rt_q (enqueue_rt_entity env (Task_se p) head k)) (Task_se p)
      = Some (rt_rq_of (rt_ses k (Task_se p)), nat (prio (tasks k p)))
    \<and> (\<forall>q. q \<noteq> p \<longrightarrow> home (rt_q (enqueue_rt_entity env (Task_se p) head k)) (Task_se q) = home (rt_q k) (Task_se q))"
proof -
  have f: "queues_or_skips env (enqueue_rt_entity1 env head)"
    unfolding queues_or_skips_def by (intro exI [of _ head]) simp
  note h = restack_home [OF f assms]
  let ?k1 = "dequeue_rt_stack env (Task_se p) k"
  have "arr_view (enqueue_rt_entity1 env head (Task_se p) ?k1) = arr_view (queue_up head (Task_se p) ?k1)"
    using h(4) by (intro enqueue1_view) simp
  note v = arr_viewD(1) [OF this]
  have "home (rt_q (enqueue_rt_entity1 env head (Task_se p) ?k1)) (Task_se p)
      = Some (rt_rq_of (rt_ses k (Task_se p)), nat (prio (tasks k p)))"
    using h(4) by (simp add: v queue_up_fields rt_se_prio_def same_treeD [OF h(3)])
  with h show ?thesis by (simp add: enqueue_rt_entity_def Let_def)
qed

lemma dequeue_entity_home:
  assumes "rt_ok E k" "Task_se p \<in> E" "leaf_prio_ok (Task_se p) k"
  shows "home (rt_q (dequeue_rt_entity env (Task_se p) k)) (Task_se p) = None"
proof -
  let ?f = "\<lambda>s k. case group_rt_rq k s of None \<Rightarrow> k
      | Some g \<Rightarrow> if rt_nr_running (rt_rqs k g) \<noteq> 0 then enqueue_rt_entity1 env False s k else k"
  have f: "queues_or_skips env ?f"
    unfolding queues_or_skips_def by (intro exI [of _ False]) (auto split: option.split)
  note h = restack_home [OF f assms]
  from h(1,2,4,5) show ?thesis by (simp add: dequeue_rt_entity_def Let_def)
qed

section \<open>All runs\<close>

text \<open>
  A step of the scheduler as the RT class sees it: one of its operations, under the condition under
  which the core calls it; a change of priority or a move to another cpu or group of a task that is
  not queued, as \<open>__setscheduler\<close> and \<open>set_task_cpu\<close> make them; or anything that leaves the
  arrays and the hierarchy alone.
\<close>

definition rt_target :: "rt_se_ref set \<Rightarrow> 'x kernel \<Rightarrow> rt_rq_ref \<Rightarrow> bool" where
  "rt_target E k r \<longleftrightarrow>
     rt_tg (rt_rqs k r) = Some (fst r) \<and> (\<forall>q. tg_rt_se (fst r) (snd r) = Some q \<longrightarrow> q \<in> E)
     \<and> (\<forall>q. group_rt_rq k q = Some r \<longleftrightarrow> tg_rt_se (fst r) (snd r) = Some q)"

inductive rt_step :: "rt_se_ref set \<Rightarrow> 'x env \<Rightarrow> 'x kernel \<Rightarrow> 'x kernel \<Rightarrow> bool" for E env where
  enqueue: "\<lbrakk>Task_se p \<in> E; 0 \<le> prio (tasks k p); prio (tasks k p) < MAX_RT_PRIO\<rbrakk>
     \<Longrightarrow> rt_step E env k (enqueue_task_rt env c p fl k)"
| dequeue: "\<lbrakk>Task_se p \<in> E; 0 \<le> prio (tasks k p); prio (tasks k p) < MAX_RT_PRIO\<rbrakk>
     \<Longrightarrow> rt_step E env k (dequeue_task_rt env c p fl k)"
| yield: "rt_step E env k (yield_task_rt c k)"
| pick: "rt_step E env k (snd (pick_next_task_rt env c k))"
| put_prev: "rt_step E env k (put_prev_task_rt env c p k)"
| set_curr: "rt_step E env k (set_curr_task_rt env c k)"
| tick: "rt_step E env k (task_tick_rt env c p q k)"
| check_preempt: "rt_step E env k (check_preempt_curr_rt env c p fl k)"
| account: "rt_step E env k (update_curr_rt env c k)"
| period: "rt_step E env k (snd (do_sched_rt_period_timer env g overrun k))"
| set_prio: "home (rt_q k) (Task_se p) = None \<Longrightarrow> rt_step E env k (upd_task p (\<lambda>t. t\<lparr>prio := pr\<rparr>) k)"
| move: "\<lbrakk>home (rt_q k) (Task_se p) = None; rt_target E k (sched_task_group (tasks k p), c)\<rbrakk>
     \<Longrightarrow> rt_step E env k (set_task_rq p c k)"
| other: "arr_view k' = arr_view k \<Longrightarrow> rt_step E env k k'"

lemma rt_ok_set_prio:
  assumes ok: "rt_ok E k" and off: "home (rt_q k) (Task_se p) = None"
  shows "rt_ok E (upd_task p (\<lambda>t. t\<lparr>prio := pr\<rparr>) k)"
proof -
  let ?k' = "upd_task p (\<lambda>t. t\<lparr>prio := pr\<rparr>) k"
  have a: "arrays_ok E k" and hier: "hierarchy_ok E k" using ok by (simp_all add: rt_ok_def)
  have prio': "rt_se_prio ?k' s = rt_se_prio k s" if h: "home (rt_q k) s = Some h" for s h
  proof (cases "group_rt_rq k s")
    case None
    have "s \<in> E" using arrays_okD(2) [OF a h] .
    then obtain q where q: "s = Task_se q" using hierarchyD(8) [OF hier, of s] None by (cases s) auto
    then have "q \<noteq> p" using h off by auto
    with None q show ?thesis by (simp add: rt_se_prio_def)
  qed (simp add: rt_se_prio_def)
  have "arrays_ok E ?k'"
    unfolding arrays_ok_def
  proof (intro conjI allI impI)
    fix s h assume h: "home (rt_q ?k') s = Some h"
    then have h': "home (rt_q k) s = Some h" by simp
    show "s \<in> E" "h = prio_queue ?k' (rt_rq_of_se ?k' s) s" "0 \<le> rt_se_prio ?k' s" "rt_se_prio ?k' s < MAX_RT_PRIO"
      using arrays_okD(2-5) [OF a h'] prio' [OF h'] by simp_all
  qed (use arrays_okD(1,6) [OF a] in \<open>simp_all add: array_ok_def\<close>)
  moreover have "hierarchy_ok E ?k'" using hier by (simp add: hierarchy_ok_def)
  ultimately show ?thesis by (simp add: rt_ok_def)
qed

lemma rt_ok_move:
  assumes ok: "rt_ok E k" and off: "home (rt_q k) (Task_se p) = None"
    and target: "rt_target E k (sched_task_group (tasks k p), c)"
  shows "rt_ok E (set_task_rq p c k)"
proof -
  let ?k' = "set_task_rq p c k" and ?r = "(sched_task_group (tasks k p), c)"
  have a: "arrays_ok E k" and hier: "hierarchy_ok E k" using ok by (simp_all add: rt_ok_def)
  have f: "rt_q ?k' = rt_q k" "rt_rqs ?k' = rt_rqs k" "task_groups ?k' = task_groups k"
    "rt_my_q (rt_ses ?k' s) = rt_my_q (rt_ses k s)" "prio (tasks ?k' q) = prio (tasks k q)"
    "rt_rq_of (rt_ses ?k' s) = (if s = Task_se p then ?r else rt_rq_of (rt_ses k s))"
    "rt_parent (rt_ses ?k' s) = (if s = Task_se p then tg_rt_se (fst ?r) c else rt_parent (rt_ses k s))" for s q
    by (simp_all add: set_task_rq_def Let_def)
  have prio': "rt_se_prio ?k' s = rt_se_prio k s" for s by (simp add: rt_se_prio_def f split: option.split)
  have "arrays_ok E ?k'"
    unfolding arrays_ok_def
  proof (intro conjI allI impI)
    fix s h assume h: "home (rt_q ?k') s = Some h"
    then have h': "home (rt_q k) s = Some h" "s \<noteq> Task_se p" using off by (auto simp: f)
    show "s \<in> E" "h = prio_queue ?k' (rt_rq_of_se ?k' s) s" "0 \<le> rt_se_prio ?k' s" "rt_se_prio ?k' s < MAX_RT_PRIO"
      using arrays_okD(2-5) [OF a h'(1)] h'(2) by (simp_all add: f prio')
  qed (use arrays_okD(1,6) [OF a] in \<open>simp_all add: array_ok_def f\<close>)
  moreover have "hierarchy_ok E ?k'"
    unfolding hierarchy_ok_def
  proof (intro conjI ballI allI impI)
    fix s assume s: "s \<in> E"
    note h = hierarchyD [OF hier s]
    show "rt_my_q (rt_ses ?k' q) = Some (rt_rq_of_se ?k' s) \<longleftrightarrow> rt_parent (rt_ses ?k' s) = Some q" for q
      using h(1) [of q] target by (auto simp: f rt_target_def)
    show "rt_parent (rt_ses ?k' s) = tg_rt_se (the (rt_tg (rt_rqs ?k' (rt_rq_of_se ?k' s)))) (rq_of_rt_rq (rt_rq_of_se ?k' s))"
      using h(7) target by (simp add: f rt_target_def)
    show "rt_my_q (rt_ses ?k' s) = None \<longleftrightarrow> rt_se_rank s = 0" using h(8) by (simp add: f)
    show "q \<in> E" "0 < rt_se_rank q" if "rt_parent (rt_ses ?k' s) = Some q" for q
    proof -
      have "q \<in> E \<and> 0 < rt_se_rank q"
      proof (cases "s = Task_se p")
        case True
        with that have "tg_rt_se (sched_task_group (tasks k p)) c = Some q" by (simp add: f)
        moreover from this have "0 < rt_se_rank q" by (auto simp: tg_rt_se_def split: if_splits)
        ultimately show ?thesis using target by (simp add: rt_target_def)
      next
        case False
        with that h(2,3) show ?thesis by (simp add: f)
      qed
      then show "q \<in> E" "0 < rt_se_rank q" by blast+
    qed
    show "rt_se_rank q < rt_se_rank s" if "rt_parent (rt_ses ?k' s) = Some q" "0 < rt_se_rank s" for q
      using h(4) [of q] that by (auto simp: f split: if_splits)
  next
    show "finite E" "card E < 2 ^ 32" using hier unfolding hierarchy_ok_def by blast+
    show "t \<in> set (task_groups ?k')" if "Group_se t c \<in> E" for t c
      using hierarchyD(9) [OF hier that refl] by (simp add: f)
  qed
  ultimately show ?thesis by (simp add: rt_ok_def)
qed

lemma rt_ok_keeps: "\<lbrakk>rt_ok E k; rt_keeps E k k'\<rbrakk> \<Longrightarrow> rt_ok E k'"
  by (simp add: rt_keeps_def)

lemmas rt_step_parts =
  rtk_yield [OF rt_keeps_refl] rtk_pick [OF rt_keeps_refl] rtk_put_prev [OF rt_keeps_refl]
  rtk_set_curr [OF rt_keeps_refl] rtk_tick [OF rt_keeps_refl] rtk_check_preempt [OF rt_keeps_refl]
  rtk_update_curr [OF rt_keeps_refl] rtk_period_timer [OF rt_keeps_refl]

lemma rt_step_ok: "\<lbrakk>rt_step E env k k'; rt_ok E k\<rbrakk> \<Longrightarrow> rt_ok E k'"
proof (induction rule: rt_step.induct)
  case (enqueue p k c fl)
  then show ?case by (intro rt_ok_keeps [OF _ keeps_enqueue_task])
next
  case (dequeue p k c fl)
  then show ?case by (intro rt_ok_keeps [OF _ keeps_dequeue_task])
next
  case (set_prio k p pr)
  then show ?case by (intro rt_ok_set_prio)
next
  case (move k p c)
  then show ?case by (intro rt_ok_move)
next
  case (other k' k)
  show ?case by (rule rt_ok_keeps [OF other(2) rt_keeps_view [OF other(1)]])
qed (rule rt_ok_keeps, assumption, rule rt_step_parts)+

lemma rt_steps_ok: "\<lbrakk>(rt_step E env)\<^sup>*\<^sup>* k k'; rt_ok E k\<rbrakk> \<Longrightarrow> rt_ok E k'"
  by (induction rule: rtranclp_induct) (auto intro: rt_step_ok)

text \<open>
  C3. The priority arrays of the RT class stay consistent in every run. From a state in which, for
  every runqueue of every group on every cpu, the bitmap tells which lists are not empty, the counter
  how many entities are queued, \<open>highest_prio.curr\<close> the best priority queued, and every queued entity
  (a group's as well as a task's) is on the list of its current priority, any sequence of operations
  of the class, accounting with its throttling and the period timer included, and of changes of the
  tasks that are not queued, leads to such a state.
\<close>

theorem rt_arrays_reachable:
  assumes "rt_ok E k" "(rt_step E env)\<^sup>*\<^sup>* k k'"
  shows "lists_wf (rt_q k')
    \<and> (\<forall>r. (\<forall>i<100. bitmap (rt_rqs k' r) i \<longleftrightarrow> elems (rt_q k') (r, i) \<noteq> [])
          \<and> rt_nr_running (rt_rqs k' r) = of_nat (queued (rt_q k') r)
          \<and> highest_prio_curr (rt_rqs k' r) = sched_find_first_bit (bitmap (rt_rqs k' r)))
    \<and> (\<forall>s h. home (rt_q k') s = Some h \<longrightarrow>
          h = (rt_rq_of_se k' s, nat (rt_se_prio k' s)) \<and> 0 \<le> rt_se_prio k' s \<and> rt_se_prio k' s < MAX_RT_PRIO)"
proof -
  have "arrays_ok E k'" using rt_steps_ok [OF assms(2,1)] by (simp add: rt_ok_def)
  then show ?thesis unfolding arrays_ok_def array_ok_def by blast
qed

text \<open>
  C4. Picking. In a state with consistent arrays, \<open>pick_next_task_rt\<close> offers a task exactly when the
  cpu's root runqueue is not empty and not throttled. The task is found by going from the root to a
  queued entity of the best priority, into its group, and so on until the entity is a task; the loop
  ends, and its \<open>BUG_ON\<close> does not fire.
\<close>

theorem pick_next_task_rt_best:
  assumes "rt_ok E k"
  shows "(case fst (pick_next_task_rt env c k) of
        None \<Rightarrow> rt_nr_running (rt_rqs k (root_rt c)) = 0 \<or> rt_rq_throttled k (root_rt c)
      | Some p \<Rightarrow> rt_nr_running (rt_rqs k (root_rt c)) \<noteq> 0 \<and> \<not> rt_rq_throttled k (root_rt c)
          \<and> best_task k (root_rt c) p)
    \<and> bug (snd (pick_next_task_rt env c k)) = bug k"
proof (cases "rt_nr_running (rt_rqs k (root_rt c)) = 0 \<or> rt_rq_throttled k (root_rt c)")
  case True
  then show ?thesis by (auto simp: pick_next_task_rt_def pick_next_task_rt1_def Let_def)
next
  case False
  have ok: "arrays_ok E k" "hierarchy_ok E k" using assms by (simp_all add: rt_ok_def)
  have "card {t \<in> set (task_groups k). 0 \<le> t} < Suc (length (task_groups k))"
    using card_length [of "task_groups k"] by simp
  then obtain p where p: "pick_rt_loop (Suc (length (task_groups k))) k (root_rt c) = Some (Task_se p)"
    "best_task k (root_rt c) p"
    using pick_loop [OF ok, of "root_rt c" 0 "Suc (length (task_groups k))"] False by blast
  have "bug (dequeue_pushable_task env c p k') = bug k'" for k' :: "'a kernel"
    by (simp add: dequeue_pushable_task_def Let_def)
  with p False show ?thesis
    by (simp add: pick_next_task_rt_def pick_next_task_rt1_def Let_def del: pick_rt_loop.simps)
qed

text \<open>
  Where a task is after \<open>enqueue_task_rt\<close> and \<open>dequeue_task_rt\<close>: on the list of its priority of the
  runqueue of its group and cpu, and on no list. Enqueueing leaves every other task where it was,
  whatever happens to the groups above.
\<close>

theorem rt_enqueue_dequeue_spec:
  assumes "rt_ok E k" "Task_se p \<in> E" "0 \<le> prio (tasks k p)" "prio (tasks k p) < MAX_RT_PRIO"
  shows "home (rt_q (enqueue_task_rt env c p fl k)) (Task_se p)
      = Some (rt_rq_of (rt_ses k (Task_se p)), nat (prio (tasks k p)))
    \<and> (\<forall>q. q \<noteq> p \<longrightarrow> home (rt_q (enqueue_task_rt env c p fl k)) (Task_se q) = home (rt_q k) (Task_se q))
    \<and> home (rt_q (dequeue_task_rt env c p fl k)) (Task_se p) = None"
proof -
  let ?k1 = "if fl AND ENQUEUE_WAKEUP \<noteq> 0 then upd_rt_se (Task_se p) (\<lambda>e. e\<lparr>rt_timeout := 0\<rparr>) k else k"
  let ?k2 = "update_curr_rt env c k"
  have v1: "arr_view ?k1 = arr_view k" by (auto intro!: arr_rt_se)
  have k1: "rt_ok E ?k1" "leaf_prio_ok (Task_se p) ?k1"
    using assms rt_ok_keeps [OF _ rt_keeps_view [OF v1]] by (simp_all add: leaf_prio_ok_def)
  have "rt_keeps E k ?k2" by (intro rtk rt_keeps_refl)
  then have k2: "rt_ok E ?k2" and t: "same_tree k ?k2" using assms(1) by (simp_all add: rt_keeps_def)
  have l2: "leaf_prio_ok (Task_se p) ?k2" using assms by (simp add: leaf_prio_ok_def same_treeD [OF t])
  have ve: "arr_view (enqueue_task_rt env c p fl k)
      = arr_view (enqueue_rt_entity env (Task_se p) (fl AND ENQUEUE_HEAD \<noteq> 0) ?k1)"
    by (simp add: enqueue_task_rt_def Let_def arr)
  have vd: "arr_view (dequeue_task_rt env c p fl k) = arr_view (dequeue_rt_entity env (Task_se p) ?k2)"
    by (simp add: dequeue_task_rt_def Let_def arr)
  have "rt_rq_of (rt_ses ?k1 s) = rt_rq_of (rt_ses k s)" "rt_q ?k1 = rt_q k" "tasks ?k1 = tasks k" for s
    by simp_all
  then show ?thesis
    using enqueue_entity_home [OF k1(1) assms(2) k1(2), of env "fl AND ENQUEUE_HEAD \<noteq> 0"]
      dequeue_entity_home [OF k2 assms(2) l2, of env]
    unfolding arr_viewD(1) [OF ve] arr_viewD(1) [OF vd] by simp
qed

section \<open>An example\<close>

text \<open>
  Task 2 of priority 60 is queued on the root runqueue of cpu 0, task 3 of priority 50 in group 1,
  whose entity is queued on the root runqueue with that priority.
\<close>

definition E_rt :: "rt_se_ref set" where
  "E_rt = {Task_se 2, Task_se 3, Group_se 1 0}"

definition q_rt :: "(rt_rq_ref \<times> nat, rt_se_ref) lists" where
  "q_rt = list_add (Task_se 3) ((1, 0), 50) (list_add (Group_se 1 0) ((0, 0), 50)
     (list_add (Task_se 2) ((0, 0), 60) no_lists))"

definition k_rt :: "unit kernel" where
  "k_rt = k0\<lparr>rt_q := q_rt,
     tasks := (\<lambda>p. (tasks k0 p)\<lparr>prio := (if p = 2 then 60 else 50)\<rparr>),
     rt_ses := (\<lambda>s. (rt_ses k0 s)\<lparr>
        rt_parent := (if s = Task_se 3 then Some (Group_se 1 0) else None),
        rt_rq_of := (if s = Task_se 3 then (1, 0) else (0, 0)),
        rt_my_q := (if s = Group_se 1 0 then Some (1, 0) else None)\<rparr>),
     rt_rqs := (\<lambda>r. (rt_rqs k0 r)\<lparr>
        bitmap := (\<lambda>i. i = 100 \<or> r = (0, 0) \<and> (i = 50 \<or> i = 60) \<or> r = (1, 0) \<and> i = 50),
        rt_nr_running := (if r = (0, 0) then 2 else if r = (1, 0) then 1 else 0),
        highest_prio_curr := (if r = (0, 0) \<or> r = (1, 0) then 50 else 100)\<rparr>)\<rparr>"

lemma q_rt_home:
  "home q_rt s = (if s = Task_se 3 then Some ((1, 0), 50) else if s = Group_se 1 0 then Some ((0, 0), 50)
     else if s = Task_se 2 then Some ((0, 0), 60) else None)"
  by (simp add: q_rt_def no_lists_def)

lemma q_rt_elems:
  "elems q_rt h = (if h = ((1, 0), 50) then [Task_se 3] else if h = ((0, 0), 50) then [Group_se 1 0]
     else if h = ((0, 0), 60) then [Task_se 2] else [])"
  by (auto simp: q_rt_def no_lists_def)

lemma q_rt_wf: "lists_wf q_rt"
  by (simp add: q_rt_def no_lists_def wf_list_add) (intro wf_list_add; simp add: no_lists_def lists_wf_def)

lemma k_rt_fields:
  "rt_q k_rt = q_rt" "prio (tasks k_rt p) = (if p = 2 then 60 else 50)"
  "rt_parent (rt_ses k_rt s) = (if s = Task_se 3 then Some (Group_se 1 0) else None)"
  "rt_rq_of (rt_ses k_rt s) = (if s = Task_se 3 then (1, 0) else (0, 0))"
  "rt_my_q (rt_ses k_rt s) = (if s = Group_se 1 0 then Some (1, 0) else None)"
  "bitmap (rt_rqs k_rt r) = (\<lambda>i. i = 100 \<or> r = (0, 0) \<and> (i = 50 \<or> i = 60) \<or> r = (1, 0) \<and> i = 50)"
  "rt_nr_running (rt_rqs k_rt r) = (if r = (0, 0) then 2 else if r = (1, 0) then 1 else 0)"
  "highest_prio_curr (rt_rqs k_rt r) = (if r = (0, 0) \<or> r = (1, 0) then 50 else 100)"
  "rt_tg (rt_rqs k_rt r) = Some (fst r)" "task_groups k_rt = [0, 1, 2]"
  by (simp_all add: k_rt_def k0_def)

lemma k_rt_first:
  "sched_find_first_bit (bitmap (rt_rqs k_rt r)) = (if r = (0, 0) \<or> r = (1, 0) then 50 else 100)"
proof -
  have "sched_find_first_bit (bitmap (rt_rqs k_rt r)) = int (if r = (0, 0) \<or> r = (1, 0) then 50 else 100)"
    by (rule first_bit_eqI) (auto simp: k_rt_fields split: if_splits)
  then show ?thesis by simp
qed

lemma queued_empty: "queued no_lists r = 0"
  by (simp add: no_lists_def)

lemma queued_list_add:
  "i < 100 \<Longrightarrow> queued (list_add s (r, i) L) q = (if q = r then Suc (queued L q) else queued L q)"
  by (rule queued_add [where xs = "s # elems L (r, i)"]) (simp_all add: list_add_def)

lemma k_rt_ok: "rt_ok E_rt k_rt"
proof -
  have prio: "rt_se_prio k_rt (Task_se p) = (if p = 2 then 60 else 50)" "rt_se_prio k_rt (Group_se (Suc 0) 0) = 50" for p
    by (simp_all add: rt_se_prio_def k_rt_fields)
  have "queued q_rt r = (if r = (0, 0) then 2 else if r = (1, 0) then 1 else 0)" for r
    unfolding q_rt_def by (simp only: queued_list_add queued_empty) simp
  then have "array_ok k_rt r" for r
    unfolding array_ok_def k_rt_first by (auto simp: k_rt_fields q_rt_elems)
  moreover have "s \<in> E_rt \<and> h = (rt_rq_of_se k_rt s, nat (rt_se_prio k_rt s))
      \<and> 0 \<le> rt_se_prio k_rt s \<and> rt_se_prio k_rt s < MAX_RT_PRIO"
    if "home (rt_q k_rt) s = Some h" for s h
    using that by (auto simp: k_rt_fields(1) q_rt_home E_rt_def prio k_rt_fields(4) prio_defs split: if_splits)
  ultimately have "arrays_ok E_rt k_rt" unfolding arrays_ok_def by (simp only: k_rt_fields(1) q_rt_wf simp_thms) blast
  moreover have "hierarchy_ok E_rt k_rt"
    by (auto simp: hierarchy_ok_def E_rt_def k_rt_fields tg_rt_se_def ROOT_TG_def)
  ultimately show ?thesis by (simp add: rt_ok_def)
qed

theorem rt_arrays_reachable_witness:
  "lists_wf (rt_q (yield_task_rt 0 (dequeue_task_rt env0 0 3 0 k_rt)))"
proof -
  have "rt_step E_rt env0 k_rt (dequeue_task_rt env0 0 3 0 k_rt)"
    by (rule rt_step.dequeue) (simp_all add: E_rt_def k_rt_fields prio_defs)
  moreover have "rt_step E_rt env0 (dequeue_task_rt env0 0 3 0 k_rt) (yield_task_rt 0 (dequeue_task_rt env0 0 3 0 k_rt))"
    by (rule rt_step.yield)
  ultimately have "(rt_step E_rt env0)\<^sup>*\<^sup>* k_rt (yield_task_rt 0 (dequeue_task_rt env0 0 3 0 k_rt))"
    by (meson rtranclp.rtrancl_into_rtrancl rtranclp.rtrancl_refl)
  from rt_arrays_reachable [OF k_rt_ok this] show ?thesis by blast
qed

theorem pick_next_task_rt_best_witness:
  "fst (pick_next_task_rt env0 0 k_rt) = Some 3 \<and> best_task k_rt (0, 0) 3"
proof -
  have "pick_next_rt_entity k_rt (0, 0) = Some (Group_se 1 0)" "pick_next_rt_entity k_rt (1, 0) = Some (Task_se 3)"
    by (simp_all add: pick_next_rt_entity_def k_rt_first k_rt_fields(1) q_rt_elems prio_defs)
  moreover have "rt_throttled (rt_rqs k_rt (0, 0)) = False" by (simp add: k_rt_def k0_def rt_rq0_def)
  ultimately have "fst (pick_next_task_rt env0 0 k_rt) = Some 3"
    by (simp add: pick_next_task_rt_def pick_next_task_rt1_def Let_def k_rt_fields rt_rq_throttled_def ROOT_TG_def)
  with pick_next_task_rt_best [OF k_rt_ok, where env = env0 and c = 0] show ?thesis by (simp add: ROOT_TG_def)
qed

theorem rt_enqueue_dequeue_spec_witness:
  "home (rt_q (enqueue_task_rt env0 0 3 0 k_rt)) (Task_se 3) = Some ((1, 0), 50)
   \<and> home (rt_q (enqueue_task_rt env0 0 3 0 k_rt)) (Task_se 2) = Some ((0, 0), 60)
   \<and> home (rt_q (dequeue_task_rt env0 0 3 0 k_rt)) (Task_se 3) = None"
  using rt_enqueue_dequeue_spec [OF k_rt_ok, of 3 env0 0 0]
  by (simp add: E_rt_def k_rt_fields prio_defs q_rt_home)

end
