(* ===== verification/Rt_Bandwidth.thy ===== *)
theory Rt_Bandwidth
  imports Op_Rules Rt_Class Example_State
begin

text \<open>
  The bandwidth of a group's RT runqueue without lending between cpus: run time is charged to it, the
  period timer pays off, and the runqueue is throttled in between. It is a token bucket; from
  this follow what a group can use at most in a number of periods, and that a throttled group runs
  again.
\<close>

section \<open>What queueing leaves alone\<close>

definition same_bw :: "'x kernel \<Rightarrow> 'x kernel \<Rightarrow> bool" where
  "same_bw k k' \<longleftrightarrow>
     (\<forall>r. rt_time (rt_rqs k' r) = rt_time (rt_rqs k r) \<and> rt_runtime (rt_rqs k' r) = rt_runtime (rt_rqs k r)
        \<and> rt_throttled (rt_rqs k' r) = rt_throttled (rt_rqs k r) \<and> rt_tg (rt_rqs k' r) = rt_tg (rt_rqs k r))
     \<and> (\<forall>g. rt_period (tg_rt_bandwidth (tgs k' g)) = rt_period (tg_rt_bandwidth (tgs k g))
        \<and> rtb_runtime (tg_rt_bandwidth (tgs k' g)) = rtb_runtime (tg_rt_bandwidth (tgs k g)))"

named_theorems bw

lemma same_bw_refl [simp]: "same_bw k k"
  by (simp add: same_bw_def)

lemma same_bw_trans: "same_bw k a \<Longrightarrow> same_bw a b \<Longrightarrow> same_bw k b"
  by (simp add: same_bw_def)

lemma bw_fields [bw]:
  "same_bw k a \<Longrightarrow> same_bw k (rqs_update f1 a)"
  "same_bw k a \<Longrightarrow> same_bw k (tasks_update f2 a)"
  "same_bw k a \<Longrightarrow> same_bw k (rt_q_update f3 a)"
  "same_bw k a \<Longrightarrow> same_bw k (cpupri_update f4 a)"
  "same_bw k a \<Longrightarrow> same_bw k (rto_mask_update f5 a)"
  "same_bw k a \<Longrightarrow> same_bw k (rto_count_update f6 a)"
  by (simp_all add: same_bw_def)

lemma bw_upd_rt_rq:
  assumes "same_bw k a" "\<And>q. rt_time (f q) = rt_time q" "\<And>q. rt_runtime (f q) = rt_runtime q"
    "\<And>q. rt_throttled (f q) = rt_throttled q" "\<And>q. rt_tg (f q) = rt_tg q"
  shows "same_bw k (upd_rt_rq r f a)"
  using assms by (simp add: same_bw_def del: split_paired_All)

lemma bw_start_rt_bandwidth [bw]: "same_bw k a \<Longrightarrow> same_bw k (start_rt_bandwidth g a)"
  by (simp add: same_bw_def start_rt_bandwidth_def)

lemma bw_rt_rq_fields [bw]:
  "same_bw k a \<Longrightarrow> same_bw k (upd_rt_rq r (\<lambda>q. q\<lparr>highest_prio_curr := f1 q\<rparr>) a)"
  "same_bw k a \<Longrightarrow> same_bw k (upd_rt_rq r (\<lambda>q. q\<lparr>rt_nr_boosted := f2 q\<rparr>) a)"
  "same_bw k a \<Longrightarrow> same_bw k (upd_rt_rq r (\<lambda>q. q\<lparr>rt_nr_running := f3 q\<rparr>) a)"
  "same_bw k a \<Longrightarrow> same_bw k (upd_rt_rq r (\<lambda>q. q\<lparr>bitmap := f4 q\<rparr>) a)"
  "same_bw k a \<Longrightarrow> same_bw k (upd_rt_rq r (\<lambda>q. q\<lparr>rt_nr_total := f5 q\<rparr>) a)"
  "same_bw k a \<Longrightarrow> same_bw k (upd_rt_rq r (\<lambda>q. q\<lparr>rt_nr_migratory := f6 q\<rparr>) a)"
  "same_bw k a \<Longrightarrow> same_bw k (upd_rt_rq r (\<lambda>q. q\<lparr>is_overloaded := f7 q\<rparr>) a)"
  by (rule bw_upd_rt_rq; simp)+

lemmas bw_rules = op_rules [where P = "same_bw k" for k]
lemmas bw_lets = op_lets [where P = "same_bw k" for k]

lemma bw_steps [bw]:
  "same_bw k a \<Longrightarrow> same_bw k (resched_task p a)"
  "same_bw k a \<Longrightarrow> same_bw k (cpupri_set c pr a)"
  unfolding resched_task_def cpupri_set_def by (assumption | rule bw)+

lemma bw_overload [bw]:
  "same_bw k a \<Longrightarrow> same_bw k (rt_set_overload c a)"
  "same_bw k a \<Longrightarrow> same_bw k (rt_clear_overload c a)"
  unfolding rt_set_overload_def rt_clear_overload_def by (assumption | rule bw | rule bw_rules | rule bw_lets)+

lemma bw_migration [bw]:
  "same_bw k a \<Longrightarrow> same_bw k (inc_rt_migration env s r a)"
  "same_bw k a \<Longrightarrow> same_bw k (dec_rt_migration env s r a)"
  unfolding inc_rt_migration_def dec_rt_migration_def update_rt_migration_def
  by (assumption | rule bw | rule bw_rules | rule bw_lets)+

lemma bw_inc_rt_prio [bw]: "same_bw k a \<Longrightarrow> same_bw k (inc_rt_prio env r pr a)"
  unfolding inc_rt_prio_def inc_rt_prio_smp_def by (assumption | rule bw | rule bw_rules | rule bw_lets)+

lemma bw_dec_rt_prio [bw]: "same_bw k a \<Longrightarrow> same_bw k (dec_rt_prio env r pr a)"
  unfolding dec_rt_prio_def dec_rt_prio_smp_def by (assumption | rule bw | rule bw_rules | rule bw_lets)+

lemma bw_inc_rt_tasks [bw]: "same_bw k a \<Longrightarrow> same_bw k (inc_rt_tasks env s r a)"
  unfolding inc_rt_tasks_def inc_rt_group_def by (assumption | rule bw | rule bw_rules | rule bw_lets)+

lemma bw_dec_rt_tasks [bw]: "same_bw k a \<Longrightarrow> same_bw k (dec_rt_tasks env s r a)"
  unfolding dec_rt_tasks_def dec_rt_group_def by (assumption | rule bw | rule bw_rules | rule bw_lets)+

lemma bw_enqueue1 [bw]: "same_bw k a \<Longrightarrow> same_bw k (enqueue_rt_entity1 env head s a)"
  unfolding enqueue_rt_entity1_def by (assumption | rule bw | rule bw_rules | rule bw_lets)+

lemma bw_dequeue1 [bw]: "same_bw k a \<Longrightarrow> same_bw k (dequeue_rt_entity1 env s a)"
  unfolding dequeue_rt_entity1_def by (assumption | rule bw | rule bw_rules | rule bw_lets)+

lemma bw_dequeue_stack [bw]: "same_bw k a \<Longrightarrow> same_bw k (dequeue_rt_stack env s a)"
  unfolding dequeue_rt_stack_def by (assumption | rule bw | rule bw_rules | rule bw_lets)+

lemma bw_enqueue [bw]: "same_bw k a \<Longrightarrow> same_bw k (enqueue_rt_entity env s head a)"
  unfolding enqueue_rt_entity_def by (assumption | rule bw | rule bw_rules | rule bw_lets)+

lemma bw_dequeue [bw]: "same_bw k a \<Longrightarrow> same_bw k (dequeue_rt_entity env s a)"
  unfolding dequeue_rt_entity_def by (assumption | rule bw | rule bw_rules | rule bw_lets)+

lemma bw_rq_enqueue [bw]: "same_bw k a \<Longrightarrow> same_bw k (sched_rt_rq_enqueue env r a)"
  unfolding sched_rt_rq_enqueue_def by (assumption | rule bw | rule bw_rules | rule bw_lets)+

lemma bw_rq_dequeue [bw]: "same_bw k a \<Longrightarrow> same_bw k (sched_rt_rq_dequeue env r a)"
  unfolding sched_rt_rq_dequeue_def by (assumption | rule bw | rule bw_rules | rule bw_lets)+

section \<open>The token bucket\<close>

text \<open>
  The abstract runqueue: the time used and not yet paid for, and whether it is throttled. \<open>R\<close> is its
  runtime. A charge may throttle it; a number of periods pays \<open>R\<close> each, and ends the throttling when
  less than \<open>R\<close> remains.
\<close>

datatype bw_event = Charged nat | Period nat

fun bucket :: "nat \<Rightarrow> bw_event \<Rightarrow> nat \<times> bool \<Rightarrow> nat \<times> bool" where
  "bucket R (Charged d) (t, thr) = (t + d, thr \<or> R < t + d)"
| "bucket R (Period n) (t, thr) = (if t = 0 then (t, thr) else (t - n * R, thr \<and> R \<le> t - n * R))"

fun used :: "bw_event \<Rightarrow> nat" where
  "used (Charged d) = d"
| "used (Period n) = 0"

fun periods :: "bw_event \<Rightarrow> nat" where
  "periods (Charged d) = 0"
| "periods (Period n) = n"

definition bucket_ok :: "nat \<Rightarrow> nat \<times> bool \<Rightarrow> bool" where
  "bucket_ok R b \<longleftrightarrow> (if snd b then R \<le> fst b else fst b \<le> R)"

lemma bucket_ok_step: "\<lbrakk>bucket_ok R b; 0 < R\<rbrakk> \<Longrightarrow> bucket_ok R (bucket R e b)"
  by (cases e; cases b) (auto simp: bucket_ok_def)

lemma bucket_account:
  "fst (bucket R e b) \<le> fst b + used e \<and> fst b + used e \<le> fst (bucket R e b) + periods e * R"
  by (cases e; cases b) auto

text \<open>Every charge is at most \<open>D\<close> and comes while the runqueue is not throttled.\<close>

fun paced :: "nat \<Rightarrow> nat \<Rightarrow> bw_event list \<Rightarrow> nat \<times> bool \<Rightarrow> bool" where
  "paced R D [] b \<longleftrightarrow> True"
| "paced R D (e # es) b \<longleftrightarrow>
     (case e of Charged d \<Rightarrow> \<not> snd b \<and> d \<le> D | Period n \<Rightarrow> True) \<and> paced R D es (bucket R e b)"

lemma bucket_bound:
  assumes "bucket_ok R b" "0 < R" "fst b \<le> R + D" "paced R D es b"
  shows "fst (fold (bucket R) es b) \<le> R + D"
    and "fst b + sum_list (map used es) \<le> R + D + R * sum_list (map periods es)"
  using assms
proof (induction es arbitrary: b)
  case Nil
  { case 1 then show ?case by simp next case 2 then show ?case by simp }
next
  case (Cons e es)
  have le: "fst (bucket R e st) \<le> R + D" if "bucket_ok R st" "fst st \<le> R + D" "paced R D (e # es) st" for st
    using that by (cases e; cases st) (auto simp: bucket_ok_def)
  { case 1
    note IH = Cons.IH(1) [OF bucket_ok_step [OF 1(1,2)] 1(2) le [OF 1(1,3,4)]]
    show ?case using IH 1(4) by simp }
  { case 2
    note IH = Cons.IH(2) [OF bucket_ok_step [OF 2(1,2)] 2(2) le [OF 2(1,3,4)]]
    have "fst (bucket R e b) + sum_list (map used es) \<le> R + D + R * sum_list (map periods es)"
      using IH 2(4) by simp
    with bucket_account [of R e b] show ?case by (simp add: algebra_simps) }
qed

lemma bucket_drains:
  assumes "bucket_ok R b" "0 < R" "sum_list (map used es) = 0"
    and "fst b < R * Suc (sum_list (map periods es))"
  shows "\<not> snd (fold (bucket R) es b)"
proof -
  have "bucket_ok R (fold (bucket R) es b)
     \<and> fst (fold (bucket R) es b) = fst b - R * sum_list (map periods es)"
    using assms(1,3)
  proof (induction es arbitrary: b)
    case (Cons e es)
    then have "bucket_ok R (bucket R e b)" using assms(2) by (simp add: bucket_ok_step)
    moreover have "fst (bucket R e b) = fst b - R * periods e"
      using Cons.prems by (cases e; cases b) (auto simp: mult.commute)
    ultimately show ?case
      using Cons.IH [of "bucket R e b"] Cons.prems by (simp add: algebra_simps)
  qed simp
  moreover have "fst b - R * sum_list (map periods es) < R"
    using assms(2,4) by simp
  ultimately show ?thesis
    by (simp add: bucket_ok_def split: if_splits)
qed

section \<open>The runqueue is one\<close>

text \<open>What the bandwidth of the runqueue \<open>(g, i)\<close> depends on.\<close>

definition bw_at :: "tgid \<Rightarrow> cpu \<Rightarrow> 'x kernel \<Rightarrow> u64 \<times> u64 \<times> bool \<times> tgid option \<times> u64 \<times> u64" where
  "bw_at g i k =
     (rt_time (rt_rqs k (g, i)), rt_runtime (rt_rqs k (g, i)), rt_throttled (rt_rqs k (g, i)),
      rt_tg (rt_rqs k (g, i)), rt_period (tg_rt_bandwidth (tgs k g)), rtb_runtime (tg_rt_bandwidth (tgs k g)))"

text \<open>It has a limit, and nothing is lent to it.\<close>

definition limited :: "'x env \<Rightarrow> tgid \<Rightarrow> cpu \<Rightarrow> 'x kernel \<Rightarrow> bool" where
  "limited env g i k \<longleftrightarrow>
     (\<not> config_smp env \<or> \<not> feat_rt_runtime_share env) \<and> rt_tg (rt_rqs k (g, i)) = Some g
     \<and> 0 < rt_runtime (rt_rqs k (g, i)) \<and> rt_runtime (rt_rqs k (g, i)) \<noteq> RUNTIME_INF
     \<and> rt_runtime (rt_rqs k (g, i)) < rt_period (tg_rt_bandwidth (tgs k g))
     \<and> rtb_runtime (tg_rt_bandwidth (tgs k g)) \<noteq> 0"

definition bucket_of :: "tgid \<Rightarrow> cpu \<Rightarrow> 'x kernel \<Rightarrow> nat \<times> bool" where
  "bucket_of g i k = (unat (rt_time (rt_rqs k (g, i))), rt_throttled (rt_rqs k (g, i)))"

abbreviation budget :: "tgid \<Rightarrow> cpu \<Rightarrow> 'x kernel \<Rightarrow> nat" where
  "budget g i k \<equiv> unat (rt_runtime (rt_rqs k (g, i)))"

lemma same_bw_at: "same_bw k k' \<Longrightarrow> bw_at g i k' = bw_at g i k"
  by (simp add: same_bw_def bw_at_def)

lemma bw_at_limited: "bw_at g i k' = bw_at g i k \<Longrightarrow> limited env g i k' = limited env g i k"
  by (auto simp: bw_at_def limited_def)

lemma bw_at_bucket: "bw_at g i k' = bw_at g i k \<Longrightarrow> bucket_of g i k' = bucket_of g i k \<and> budget g i k' = budget g i k"
  by (auto simp: bw_at_def bucket_of_def)

lemma no_lending: "limited env g i k \<Longrightarrow> snd (balance_runtime env r k') = k'"
  by (auto simp: limited_def balance_runtime_def)

lemma charge_bucket:
  assumes lim: "limited env g i k" and r: "rt_rq_of_se k s = (g, i)"
    and small: "unat (rt_time (rt_rqs k (g, i))) + unat d < 2 ^ 64"
  shows "limited env g i (charge_rt_rq env p d s k) \<and> budget g i (charge_rt_rq env p d s k) = budget g i k
       \<and> bucket_of g i (charge_rt_rq env p d s k) = bucket (budget g i k) (Charged (unat d)) (bucket_of g i k)"
proof -
  let ?k1 = "upd_rt_rq (g, i) (\<lambda>q. q\<lparr>rt_time := rt_time q + d\<rparr>) k"
  let ?over = "rt_runtime (rt_rqs k (g, i)) < rt_time (rt_rqs k (g, i)) + d"
  let ?k2 = "if \<not> rt_throttled (rt_rqs k (g, i)) \<and> ?over
             then upd_rt_rq (g, i) (\<lambda>q. q\<lparr>rt_throttled := True\<rparr>) ?k1 else ?k1"
  have lim1: "limited env g i ?k1" using lim by (simp add: limited_def)
  have fin: "sched_rt_runtime k (g, i) \<noteq> RUNTIME_INF"
    "sched_rt_runtime ?k1 (g, i) = rt_runtime (rt_rqs k (g, i))"
    "\<not> sched_rt_period ?k1 (g, i) \<le> sched_rt_runtime ?k1 (g, i)"
    "rtb_runtime (sched_rt_bandwidth ?k1 (g, i)) \<noteq> 0"
    using lim by (auto simp: limited_def sched_rt_runtime_def sched_rt_period_def)
  have "same_bw ?k2 (snd (sched_rt_runtime_exceeded env (g, i) ?k1))"
    using fin lim no_lending [OF lim1, of "(g, i)" ?k1]
    by (auto simp: sched_rt_runtime_exceeded_def Let_def limited_def intro: bw_rq_dequeue)
  then have "same_bw ?k2 (charge_rt_rq env p d s k)"
    using fin(1) by (auto simp: charge_rt_rq_def r Let_def split: prod.splits intro: bw_steps)
  note at = same_bw_at [OF this, of g i]
  have "unat (rt_time (rt_rqs k (g, i)) + d) = unat (rt_time (rt_rqs k (g, i))) + unat d"
    using small by (simp add: unat_add_lem [symmetric])
  then have "bucket_of g i ?k2 = bucket (budget g i k) (Charged (unat d)) (bucket_of g i k)"
    by (auto simp: bucket_of_def word_less_nat_alt)
  moreover have "limited env g i ?k2" "budget g i ?k2 = budget g i k"
    using lim by (auto simp: limited_def)
  ultimately show ?thesis
    using bw_at_limited [OF at] bw_at_bucket [OF at] by simp
qed

lemma period_bucket:
  assumes lim: "limited env g i k" and small: "unat n * budget g i k < 2 ^ 64"
  shows "limited env g i (fst (rt_period_cpu env g n (k, a, b) i))
       \<and> budget g i (fst (rt_period_cpu env g n (k, a, b) i)) = budget g i k
       \<and> bucket_of g i (fst (rt_period_cpu env g n (k, a, b) i))
           = bucket (budget g i k) (Period (unat n)) (bucket_of g i k)"
proof -
  let ?t = "rt_time (rt_rqs k (g, i))" and ?R = "rt_runtime (rt_rqs k (g, i))"
  let ?t' = "?t - min ?t (n * ?R)"
  let ?thr = "rt_throttled (rt_rqs k (g, i)) \<and> \<not> ?t' < ?R"
  let ?k2 = "if ?t = 0 then k
             else upd_rt_rq (g, i) (\<lambda>q. q\<lparr>rt_time := ?t', rt_throttled := ?thr\<rparr>) k"
  have mult: "unat (n * ?R) = unat n * unat ?R"
    using small by (simp add: unat_mult_lem [symmetric])
  have t': "unat ?t' = unat ?t - unat n * unat ?R"
    using mult by (auto simp: min_def unat_sub word_le_nat_alt)
  have at: "bw_at g i (fst (rt_period_cpu env g n (k, a, b) i)) = bw_at g i ?k2"
  proof (cases "?t = 0")
    case True
    have "same_bw k (fst (rt_period_cpu env g n (k, a, b) i))"
      by (auto simp: rt_period_cpu_def Let_def True intro: bw_rq_enqueue)
    then show ?thesis using True by (simp add: same_bw_at)
  next
    case False
    have lend: "snd (balance_runtime env r k') = k'" for r and k' :: "'a kernel"
      using no_lending [OF lim] .
    have "same_bw ?k2 (upd_rt_rq (g, i) (\<lambda>q. q\<lparr>rt_throttled := ?thr\<rparr>)
                         (upd_rt_rq (g, i) (\<lambda>q. q\<lparr>rt_time := ?t'\<rparr>) k))"
      using False by (simp add: same_bw_def)
    moreover have "same_bw (upd_rt_rq (g, i) (\<lambda>q. q\<lparr>rt_throttled := ?thr\<rparr>)
                             (upd_rt_rq (g, i) (\<lambda>q. q\<lparr>rt_time := ?t'\<rparr>) k))
                           (fst (rt_period_cpu env g n (k, a, b) i))"
      using False
      by (auto simp: rt_period_cpu_def Let_def lend intro!: bw_rq_enqueue bw_fields) (auto simp: same_bw_def)
    ultimately show ?thesis by (intro same_bw_at) (rule same_bw_trans)
  qed
  moreover have "bucket_of g i ?k2 = bucket (budget g i k) (Period (unat n)) (bucket_of g i k)"
    using t' by (auto simp: bucket_of_def word_less_nat_alt unat_eq_0)
  moreover have "limited env g i ?k2" "budget g i ?k2 = budget g i k"
    using lim by (auto simp: limited_def)
  ultimately show ?thesis
    using bw_at_limited [OF at] bw_at_bucket [OF at] by simp
qed

section \<open>Runs\<close>

text \<open>
  What happens to the runqueue, in any order: run time is charged to it, for any of its entities; the
  period timer comes to it; and everything else, of which only that it leaves the time, the limits
  and the throttling alone.
\<close>

inductive bw_run :: "'x env \<Rightarrow> tgid \<Rightarrow> cpu \<Rightarrow> 'x kernel \<Rightarrow> bw_event list \<Rightarrow> 'x kernel \<Rightarrow> bool"
  for env g i k where
  start: "bw_run env g i k [] k"
| charged: "\<lbrakk>bw_run env g i k es k'; rt_rq_of_se k' s = (g, i)\<rbrakk>
    \<Longrightarrow> bw_run env g i k (es @ [Charged (unat d)]) (charge_rt_rq env p d s k')"
| period: "bw_run env g i k es k'
    \<Longrightarrow> bw_run env g i k (es @ [Period (unat n)]) (fst (rt_period_cpu env g n (k', a, b) i))"
| other: "\<lbrakk>bw_run env g i k es k'; bw_at g i k'' = bw_at g i k'\<rbrakk> \<Longrightarrow> bw_run env g i k es k''"

definition in_range :: "nat \<Rightarrow> nat \<Rightarrow> bw_event list \<Rightarrow> bool" where
  "in_range R t es \<longleftrightarrow> t + sum_list (map used es) < 2 ^ 64 \<and> sum_list (map periods es) * R < 2 ^ 64"

lemma bucket_le: "fst (fold (bucket R) es b) \<le> fst b + sum_list (map used es)"
proof (induction es arbitrary: b)
  case (Cons e es)
  show ?case using Cons.IH [of "bucket R e b"] bucket_account [of R e b] by simp
qed simp

lemma in_range_prefix: "in_range R t (es @ fs) \<Longrightarrow> in_range R t es"
  unfolding in_range_def by (auto simp: algebra_simps)

lemma bw_run_bucket:
  assumes "bw_run env g i k es k'" "limited env g i k"
    and "in_range (budget g i k) (fst (bucket_of g i k)) es"
  shows "limited env g i k' \<and> budget g i k' = budget g i k
       \<and> bucket_of g i k' = fold (bucket (budget g i k)) es (bucket_of g i k)"
  using assms
proof (induction rule: bw_run.induct)
  case (charged es k' s d p)
  let ?R = "budget g i k" and ?b = "bucket_of g i k"
  have IH: "limited env g i k'" "budget g i k' = ?R" "bucket_of g i k' = fold (bucket ?R) es ?b"
    using charged.IH charged.prems in_range_prefix by blast+
  have "fst ?b + sum_list (map used es) + unat d < 2 ^ 64"
    using charged.prems by (simp add: in_range_def)
  moreover have "fst (bucket_of g i k') \<le> fst ?b + sum_list (map used es)"
    unfolding IH(3) by (rule bucket_le)
  ultimately have "unat (rt_time (rt_rqs k' (g, i))) + unat d < 2 ^ 64"
    by (simp add: bucket_of_def)
  from charge_bucket [OF IH(1) charged.hyps(2) this, of p] IH show ?case by simp
next
  case (period es k' n a b)
  let ?R = "budget g i k" and ?b = "bucket_of g i k"
  have IH: "limited env g i k'" "budget g i k' = ?R" "bucket_of g i k' = fold (bucket ?R) es ?b"
    using period.IH period.prems in_range_prefix by blast+
  have "unat n * budget g i k' < 2 ^ 64"
    using period.prems IH(2) by (simp add: in_range_def algebra_simps)
  from period_bucket [OF IH(1) this, of a b] IH show ?case by simp
next
  case (other es k' k'')
  then show ?case using bw_at_limited [OF other.hyps(2)] bw_at_bucket [OF other.hyps(2)] by metis
qed simp

text \<open>
  C5. The bandwidth of a group's RT runqueue is a token bucket. In every run of charges, period timers
  and whatever else leaves its limits alone, the time not paid for and the throttling are exactly
  those of the bucket after the same events, as long as the numbers stay in 64 bits: no charge and
  no period is lost, and throttling starts and ends just when the bucket says.
\<close>

theorem rt_bandwidth_refines_bucket:
  assumes "bw_run env g i k es k'" "limited env g i k"
    and "in_range (budget g i k) (fst (bucket_of g i k)) es"
  shows "limited env g i k' \<and> budget g i k' = budget g i k
       \<and> bucket_of g i k' = fold (bucket (budget g i k)) es (bucket_of g i k)"
  by (rule bw_run_bucket [OF assms])



section \<open>An example\<close>

text \<open>
  The root group on cpu 0 of the example machine, without lending: 950 ms in a period of a second.
  A tick of 10 ms after 945 ms throttles it; one period later it runs again.
\<close>

definition env_bw :: "unit env" where
  "env_bw = env0\<lparr>config_smp := False\<rparr>"

definition k_bw :: "unit kernel" where
  "k_bw = upd_rt_rq (0, 0) (\<lambda>q. q\<lparr>rt_time := 945000000\<rparr>) k0"

lemma k_bw_run:
  "bw_run env_bw 0 0 k_bw [Charged 10000000, Period 1]
     (fst (rt_period_cpu env_bw 0 1 (charge_rt_rq env_bw 2 10000000 (Task_se 2) k_bw, True, False) 0))"
  "bw_run env_bw 0 0 k_bw [Charged 10000000] (charge_rt_rq env_bw 2 10000000 (Task_se 2) k_bw)"
proof -
  have "rt_rq_of_se k_bw (Task_se 2) = (0, 0)"
    by (simp add: k_bw_def k0_def task0_def rt_se0_def)
  from bw_run.charged [OF bw_run.start this, of env_bw 10000000 2]
  show "bw_run env_bw 0 0 k_bw [Charged 10000000] (charge_rt_rq env_bw 2 10000000 (Task_se 2) k_bw)"
    by simp
  from bw_run.period [OF this, of 1 True False]
  show "bw_run env_bw 0 0 k_bw [Charged 10000000, Period 1]
     (fst (rt_period_cpu env_bw 0 1 (charge_rt_rq env_bw 2 10000000 (Task_se 2) k_bw, True, False) 0))"
    by simp
qed

lemma k_bw_ok:
  "limited env_bw 0 0 k_bw" "budget 0 0 k_bw = 950000000" "bucket_of 0 0 k_bw = (945000000, False)"
  by (simp_all add: limited_def bucket_of_def env_bw_def k_bw_def k0_def env0_def rt_rq0_def tg0_def RUNTIME_INF_def)

theorem rt_bandwidth_refines_bucket_witness:
  "bucket_of 0 0 (fst (rt_period_cpu env_bw 0 1
     (charge_rt_rq env_bw 2 10000000 (Task_se 2) k_bw, True, False) 0)) = (5000000, False)"
proof -
  have "in_range (budget 0 0 k_bw) (fst (bucket_of 0 0 k_bw)) [Charged 10000000, Period 1]"
    by (simp add: in_range_def k_bw_ok)
  from rt_bandwidth_refines_bucket [OF k_bw_run(1) k_bw_ok(1) this] show ?thesis
    by (simp add: k_bw_ok)
qed



end
