(* ===== verification/Ptree.thy ===== *)
theory Ptree
  imports Kernel_Lists
begin

text \<open>
  The process tree module (\<open>Project1/submit/Prom1/ptree.c\<close>): a system call that walks the tree of
  processes depth first, from \<open>init_task\<close>, and copies what it finds to the caller's buffer; and the
  module's entry and exit, which put the call into the system call table and take it out.

  The processes are given by their fields, the lists of children (\<open>elems\<close>, one list per parent, its
  nodes the \<open>sibling\<close> fields) and one thing more: the code takes the node after a last child, which
  is the head of the parent's list, for a process; what lies there at the offset of \<open>pid\<close> depends on
  the layout of \<open>task_struct\<close> and is a parameter.
\<close>

section \<open>Processes and the buffer\<close>

type_synonym pid = nat

record process =
  proc_pid :: int
  proc_state :: "32 word"
  proc_uid :: "32 word"
  proc_comm :: string

record process_table =
  process :: "pid \<Rightarrow> process"
  family :: "(pid, pid) lists"
  pid_at_head :: "pid \<Rightarrow> int"

abbreviation children :: "process_table \<Rightarrow> pid \<Rightarrow> pid list" where
  "children T p \<equiv> elems (family T) p"

record prinfo =
  parent_pid :: int
  pr_pid :: int
  first_child_pid :: int
  next_sibling_pid :: int
  pr_state :: "32 word"
  uid :: "32 word"
  comm :: string
  level :: int

definition MAX_NUM_PROC :: nat where "MAX_NUM_PROC = 10000"

text \<open>The variables of the module. \<open>buf_tmp\<close> has static storage: it starts zeroed.\<close>

record ptree_vars =
  nr_tmp :: nat
  buf_tmp :: "prinfo list"

definition prinfo_zero :: prinfo where
  "prinfo_zero = \<lparr>parent_pid = 0, pr_pid = 0, first_child_pid = 0, next_sibling_pid = 0,
     pr_state = 0, uid = 0, comm = '''', level = 0\<rparr>"

definition ptree_loaded :: ptree_vars where
  "ptree_loaded = \<lparr>nr_tmp = 0, buf_tmp = replicate MAX_NUM_PROC prinfo_zero\<rparr>"

text \<open>A write past the end of a buffer, and a recursion deeper than the stack allows.\<close>

datatype ptree_fault = Buffer_overrun | Stack_overrun

section \<open>The walk\<close>

text \<open>\<open>list_entry\<close> of a neighbour of a \<open>sibling\<close> node, and the \<open>pid\<close> found there.\<close>

definition pid_of_link :: "process_table \<Rightarrow> (pid, pid) link \<Rightarrow> int" where
  "pid_of_link T l = (case l of Node q \<Rightarrow> proc_pid (process T q) | Head p \<Rightarrow> pid_at_head T p)"

definition fill_prinfo :: "process_table \<Rightarrow> pid \<Rightarrow> int \<Rightarrow> prinfo \<Rightarrow> prinfo" where
  "fill_prinfo T entry lev b =
     (let b = b\<lparr>level := lev\<rparr>;
          b = b\<lparr>pr_pid := proc_pid (process T entry)\<rparr>;
          b = b\<lparr>pr_state := proc_state (process T entry)\<rparr>;
          b = b\<lparr>uid := proc_uid (process T entry)\<rparr>;
          b = b\<lparr>comm := proc_comm (process T entry)\<rparr>;
          b = (if list_empty entry (family T) then b\<lparr>first_child_pid := 0\<rparr>
               else b\<lparr>first_child_pid := proc_pid (process T (hd (children T entry)))\<rparr>)
      in (if node_empty entry (family T) then b\<lparr>next_sibling_pid := 0\<rparr>
          else b\<lparr>next_sibling_pid := pid_of_link T (link_next entry (family T))\<rparr>))"

text \<open>\<open>list_for_each\<close> with a body that may fault.\<close>

fun for_each_child :: "('a \<Rightarrow> 's \<Rightarrow> 'e + 's) \<Rightarrow> 'a list \<Rightarrow> 's \<Rightarrow> 'e + 's" where
  "for_each_child f [] s = Inr s"
| "for_each_child f (x # xs) s = (case f x s of Inl e \<Rightarrow> Inl e | Inr s \<Rightarrow> for_each_child f xs s)"

text \<open>\<open>DFS\<close>; the first argument is the number of nested calls the stack has room for.\<close>

primrec DFS :: "nat \<Rightarrow> process_table \<Rightarrow> pid \<Rightarrow> int \<Rightarrow> ptree_vars \<Rightarrow> ptree_fault + ptree_vars" where
  "DFS 0 T entry lev v = Inl Stack_overrun"
| "DFS (Suc n) T entry lev v =
     (if length (buf_tmp v) \<le> nr_tmp v then Inl Buffer_overrun
      else
        let i = nr_tmp v;
            v = v\<lparr>buf_tmp := (buf_tmp v)[i := fill_prinfo T entry lev (buf_tmp v ! i)]\<rparr>;
            v = v\<lparr>nr_tmp := i + 1\<rparr> in
        if list_empty entry (family T) then Inr v
        else for_each_child (\<lambda>child. DFS n T child (lev + 1)) (children T entry) v)"

section \<open>The system call\<close>

text \<open>The copy loop; the caller's buffer is a list, a write past its end a fault.\<close>

definition copy_prinfo :: "prinfo \<Rightarrow> prinfo \<Rightarrow> prinfo" where
  "copy_prinfo t b =
     b\<lparr>comm := comm t, pr_pid := pr_pid t, pr_state := pr_state t, parent_pid := parent_pid t,
       first_child_pid := first_child_pid t, next_sibling_pid := next_sibling_pid t,
       uid := uid t, level := level t\<rparr>"

fun copy_out :: "prinfo list \<Rightarrow> nat list \<Rightarrow> prinfo list \<Rightarrow> ptree_fault + prinfo list" where
  "copy_out tmp [] buf = Inr buf"
| "copy_out tmp (i # is) buf =
     (if length buf \<le> i then Inl Buffer_overrun
      else copy_out tmp is (buf[i := copy_prinfo (tmp ! i) (buf ! i)]))"

text \<open>
  \<open>ptree\<close> returns 0; next to it, the number stored in \<open>nr\<close>, the caller's buffer, and the module's
  variables.
\<close>

definition ptree_call ::
  "nat \<Rightarrow> process_table \<Rightarrow> pid \<Rightarrow> prinfo list \<Rightarrow> ptree_vars
     \<Rightarrow> ptree_fault + (int \<times> nat \<times> prinfo list \<times> ptree_vars)" where
  "ptree_call stack T init_task buf v =
     (case DFS stack T init_task 0 (v\<lparr>nr_tmp := 0\<rparr>) of
        Inl e \<Rightarrow> Inl e
      | Inr v \<Rightarrow>
          (case copy_out (buf_tmp v) [0..<nr_tmp v] buf of
             Inl e \<Rightarrow> Inl e
           | Inr buf \<Rightarrow> Inr (0, nr_tmp v, buf, v)))"

section \<open>Loading and unloading\<close>

definition NR_ptree :: nat where "NR_ptree = 287"

text \<open>The system call table, and \<open>oldcall\<close>.\<close>

definition addsyscall_init :: "'h \<Rightarrow> (nat \<Rightarrow> 'h) \<times> 'h \<Rightarrow> int \<times> (nat \<Rightarrow> 'h) \<times> 'h" where
  "addsyscall_init ptree_entry st =
     (case st of (syscall, oldcall) \<Rightarrow>
        let oldcall = syscall NR_ptree;
            syscall = syscall(NR_ptree := ptree_entry)
        in (0, syscall, oldcall))"

definition addsyscall_exit :: "(nat \<Rightarrow> 'h) \<times> 'h \<Rightarrow> (nat \<Rightarrow> 'h) \<times> 'h" where
  "addsyscall_exit st = (case st of (syscall, oldcall) \<Rightarrow> (syscall(NR_ptree := oldcall), oldcall))"

end
