(* ===== verification/Ptree_Props.thy ===== *)
theory Ptree_Props
  imports Ptree
begin

text \<open>
  What \<open>ptree\<close> returns: the processes in preorder, and when it writes past its buffers.
\<close>

section \<open>The tree of processes\<close>

datatype ptree = PNode pid "ptree list"

primrec root :: "ptree \<Rightarrow> pid" where
  "root (PNode p ts) = p"

primrec tree_linked :: "process_table \<Rightarrow> ptree \<Rightarrow> bool" where
  "tree_linked T (PNode p ts) \<longleftrightarrow> children T p = map root ts \<and> list_all id (map (tree_linked T) ts)"

primrec processes :: "ptree \<Rightarrow> nat" where
  "processes (PNode p ts) = Suc (sum_list (map processes ts))"

primrec depth :: "ptree \<Rightarrow> nat" where
  "depth (PNode p ts) = Suc (Max (insert 0 (set (map depth ts))))"

text \<open>What is to be reported of one process; \<open>nxt\<close> is the pid of the next sibling.\<close>

definition info :: "process_table \<Rightarrow> pid \<Rightarrow> ptree list \<Rightarrow> int \<Rightarrow> int \<Rightarrow> prinfo" where
  "info T p ts lev nxt =
     \<lparr>parent_pid = 0, pr_pid = proc_pid (process T p),
      first_child_pid = (case ts of [] \<Rightarrow> 0 | t # _ \<Rightarrow> proc_pid (process T (root t))),
      next_sibling_pid = nxt, pr_state = proc_state (process T p), uid = proc_uid (process T p),
      comm = proc_comm (process T p), level = lev\<rparr>"

text \<open>The preorder, with levels; after the last child comes what lies at the head of the list.\<close>

fun tree_infos :: "process_table \<Rightarrow> int \<Rightarrow> int \<Rightarrow> ptree \<Rightarrow> prinfo list"
  and forest_infos :: "process_table \<Rightarrow> pid \<Rightarrow> int \<Rightarrow> ptree list \<Rightarrow> prinfo list" where
  "tree_infos T lev nxt (PNode p ts) = info T p ts lev nxt # forest_infos T p (lev + 1) ts"
| "forest_infos T p lev [] = []"
| "forest_infos T p lev (t # ts) =
     tree_infos T lev (case ts of [] \<Rightarrow> pid_at_head T p | u # _ \<Rightarrow> proc_pid (process T (root u))) t
     @ forest_infos T p lev ts"

lemma length_infos:
  "length (tree_infos T lev nxt t) = processes t"
  "length (forest_infos T p lev ts) = sum_list (map processes ts)"
  by (induction T lev nxt t and T p lev ts rule: tree_infos_forest_infos.induct) simp_all

lemma depth_child: "t \<in> set ts \<Longrightarrow> depth t < depth (PNode p ts)"
  by (simp add: less_Suc_eq_le)

section \<open>Writing to the buffer\<close>

definition written :: "ptree_vars \<Rightarrow> prinfo list \<Rightarrow> ptree_vars" where
  "written v xs = v\<lparr>nr_tmp := nr_tmp v + length xs,
     buf_tmp := take (nr_tmp v) (buf_tmp v) @ xs @ drop (nr_tmp v + length xs) (buf_tmp v)\<rparr>"

abbreviation room :: "ptree_vars \<Rightarrow> nat" where
  "room v \<equiv> length (buf_tmp v) - nr_tmp v"

lemma written_Nil [simp]: "written v [] = v"
  by (simp add: written_def)

lemma room_written [simp]: "length xs \<le> room v \<Longrightarrow> room (written v xs) = room v - length xs"
  by (auto simp: written_def)

lemma written_written:
  "nr_tmp v \<le> length (buf_tmp v) \<Longrightarrow> length xs \<le> room v \<Longrightarrow> written (written v xs) ys = written v (xs @ ys)"
  by (simp add: written_def ac_simps min_def)

text \<open>Nobody ever writes \<open>parent_pid\<close>.\<close>

definition fresh :: "ptree_vars \<Rightarrow> bool" where
  "fresh v \<longleftrightarrow> nr_tmp v \<le> length (buf_tmp v) \<and> (\<forall>b \<in> set (buf_tmp v). parent_pid b = 0)"

lemma info_parent: "b \<in> set (tree_infos T lev nxt t) \<Longrightarrow> parent_pid b = 0"
  "b \<in> set (forest_infos T p lev ts) \<Longrightarrow> parent_pid b = 0"
  by (induction T lev nxt t and T p lev ts rule: tree_infos_forest_infos.induct) (auto simp: info_def)

lemma fresh_written:
  "\<lbrakk>fresh v; length xs \<le> room v; \<forall>b \<in> set xs. parent_pid b = 0\<rbrakk> \<Longrightarrow> fresh (written v xs)"
  by (auto simp: fresh_def written_def dest: in_set_takeD in_set_dropD)

definition next_pid :: "process_table \<Rightarrow> pid \<Rightarrow> int" where
  "next_pid T p = (if node_empty p (family T) then 0 else pid_of_link T (link_next p (family T)))"

lemma fill_is_info:
  assumes "children T p = map root ts" "parent_pid b = 0"
  shows "fill_prinfo T p lev b = info T p ts lev (next_pid T p)"
  using assms by (cases b; cases ts) (auto simp: fill_prinfo_def info_def next_pid_def list_empty_def Let_def)

lemma next_pid_child:
  assumes "lists_wf (family T)" "children T p = map root (us @ t # ts)"
  shows "next_pid T (root t) = (case ts of [] \<Rightarrow> pid_at_head T p | u # _ \<Rightarrow> proc_pid (process T (root u)))"
proof -
  have home: "home (family T) (root t) = Some p" using assms by (simp add: wf_home [symmetric])
  have "distinct (map root (us @ t # ts))" using wf_distinct [OF assms(1), of p] assms(2) by simp
  then have "after (root t) (map root us @ root t # map root ts) p
      = (case map root ts of [] \<Rightarrow> Head p | y # _ \<Rightarrow> Node y)"
    by (intro after_split) auto
  then show ?thesis
    using home assms(2)
    by (cases ts) (simp_all add: next_pid_def node_empty_def link_next_def pid_of_link_def)
qed

section \<open>The walk\<close>

text \<open>
  What \<open>DFS\<close> must do with a list of entries to report: write them when there is room, and overrun
  the buffer otherwise.
\<close>

definition outcome :: "ptree_vars \<Rightarrow> prinfo list \<Rightarrow> ptree_fault + ptree_vars" where
  "outcome v xs = (if length xs \<le> room v then Inr (written v xs) else Inl Buffer_overrun)"

lemma outcome_step:
  assumes "fresh v" "\<forall>b \<in> set xs. parent_pid b = 0"
    and "\<And>w. fresh w \<Longrightarrow> f w = outcome w ys"
  shows "(case outcome v xs of Inl e \<Rightarrow> Inl e | Inr w \<Rightarrow> f w) = outcome v (xs @ ys)"
  using assms fresh_written [of v xs]
  by (auto simp: outcome_def fresh_def written_written)

lemma DFS_infos:
  shows "\<lbrakk>lists_wf (family T); tree_linked T t; depth t \<le> n; fresh v; nxt = next_pid T (root t)\<rbrakk>
      \<Longrightarrow> DFS n T (root t) lev v = outcome v (tree_infos T lev nxt t)"
    and "\<lbrakk>lists_wf (family T); children T p = map root (us @ ts); \<forall>t \<in> set ts. tree_linked T t \<and> depth t \<le> n; fresh v\<rbrakk>
      \<Longrightarrow> for_each_child (\<lambda>c. DFS n T c lev) (map root ts) v = outcome v (forest_infos T p lev ts)"
proof (induction T lev nxt t and T p lev ts arbitrary: n v and n v us rule: tree_infos_forest_infos.induct)
  case (1 T lev nxt p ts)
  obtain m where n: "n = Suc m" using 1(4) by (cases n) auto
  have ch: "children T p = map root ts" and lk: "\<forall>t \<in> set ts. tree_linked T t"
    using 1(3) by (auto simp: list_all_iff)
  have dep: "\<forall>t \<in> set ts. depth t \<le> m" using depth_child [of _ ts p] 1(4) n by fastforce
  show ?case
  proof (cases "length (buf_tmp v) \<le> nr_tmp v")
    case True
    then show ?thesis by (simp add: n outcome_def)
  next
    case False
    define e where "e = info T p ts lev nxt"
    have "parent_pid (buf_tmp v ! nr_tmp v) = 0" using 1(5) False by (simp add: fresh_def)
    then have fill: "fill_prinfo T p lev (buf_tmp v ! nr_tmp v) = e"
      using fill_is_info [OF ch] 1(6) by (simp add: e_def)
    have upd: "v\<lparr>buf_tmp := (buf_tmp v)[nr_tmp v := e], nr_tmp := Suc (nr_tmp v)\<rparr> = written v [e]"
      using False by (simp add: written_def upd_conv_take_nth_drop)
    have fr: "fresh (written v [e])" using 1(5) False by (intro fresh_written) (auto simp: info_def e_def)
    have "DFS n T (root (PNode p ts)) lev v
        = (if map root ts = [] then Inr (written v [e])
           else for_each_child (\<lambda>c. DFS m T c (lev + 1)) (map root ts) (written v [e]))"
      using False by (simp add: n fill upd list_empty_def ch Let_def)
    also have "\<dots> = for_each_child (\<lambda>c. DFS m T c (lev + 1)) (map root ts) (written v [e])"
      by (cases ts) simp_all
    also have "\<dots> = outcome (written v [e]) (forest_infos T p (lev + 1) ts)"
      using 1(1) [of "[]" m "written v [e]"] ch lk dep fr 1(2) by simp
    also have "\<dots> = outcome v (tree_infos T lev nxt (PNode p ts))"
    proof -
      have "outcome v [e] = Inr (written v [e])" using False by (simp add: outcome_def)
      then show ?thesis
        using outcome_step [of v "[e]" "\<lambda>w. outcome w (forest_infos T p (lev + 1) ts)" "forest_infos T p (lev + 1) ts"] 1(5)
        by (simp add: e_def info_def)
    qed
    finally show ?thesis .
  qed
next
  case (2 T p lev)
  then show ?case by (simp add: outcome_def)
next
  case (3 T p lev t ts)
  let ?nxt = "case ts of [] \<Rightarrow> pid_at_head T p | u # _ \<Rightarrow> proc_pid (process T (root u))"
  have nx: "?nxt = next_pid T (root t)" by (rule next_pid_child [OF 3(3,4), symmetric])
  have "DFS n T (root t) lev v = outcome v (tree_infos T lev ?nxt t)"
    by (rule 3(1) [OF 3(3) _ _ _ nx]) (use 3(5,6) in simp_all)
  moreover have "for_each_child (\<lambda>c. DFS n T c lev) (map root ts) w = outcome w (forest_infos T p lev ts)"
    if "fresh w" for w
    using 3(2) [of "us @ [t]" n w] 3(3-6) that by simp
  ultimately show ?case
    using outcome_step [OF 3(6), of "tree_infos T lev ?nxt t"] info_parent by simp
qed

section \<open>Copying out\<close>

lemma copy_prinfo_eq: "copy_prinfo t b = t"
  by (cases t; cases b) (simp add: copy_prinfo_def)

lemma copy_out_from:
  "\<lbrakk>i \<le> j; j \<le> length tmp; i \<le> length buf\<rbrakk> \<Longrightarrow> copy_out tmp [i..<j] (take i tmp @ drop i buf)
     = (if j \<le> length buf then Inr (take j tmp @ drop j buf) else Inl Buffer_overrun)"
proof (induction "j - i" arbitrary: i)
  case 0
  then show ?case by simp
next
  case (Suc d)
  then have i: "i < j" "[i..<j] = i # [Suc i..<j]" by (simp_all add: upt_rec)
  show ?case
  proof (cases "i < length buf")
    case True
    have "(take i tmp @ drop i buf)[i := tmp ! i] = take (Suc i) tmp @ drop (Suc i) buf"
      using True i Suc.prems
      by (simp add: take_Suc_conv_app_nth list_update_append Cons_nth_drop_Suc [symmetric])
    then show ?thesis using Suc.hyps Suc.prems True i by (simp add: copy_prinfo_eq)
  qed (use i Suc.prems in simp)
qed

lemma copy_out_eq:
  "j \<le> length tmp \<Longrightarrow> copy_out tmp [0..<j] buf
     = (if j \<le> length buf then Inr (take j tmp @ drop j buf) else Inl Buffer_overrun)"
  using copy_out_from [of 0 j tmp buf] by simp

section \<open>The call\<close>

text \<open>The module's variables between calls.\<close>

definition vars_ok :: "ptree_vars \<Rightarrow> bool" where
  "vars_ok v \<longleftrightarrow> length (buf_tmp v) = MAX_NUM_PROC \<and> (\<forall>b \<in> set (buf_tmp v). parent_pid b = 0)"

lemma vars_ok_loaded: "vars_ok ptree_loaded"
  by (simp add: vars_ok_def ptree_loaded_def prinfo_zero_def)

lemma call_infos:
  assumes "lists_wf (family T)" "home (family T) (root t) = None" "tree_linked T t"
    and "depth t \<le> stack" "vars_ok v"
  defines "w \<equiv> written (v\<lparr>nr_tmp := 0\<rparr>) (tree_infos T 0 0 t)"
  shows "ptree_call stack T (root t) buf v =
      (if processes t \<le> MAX_NUM_PROC \<and> processes t \<le> length buf
       then Inr (0, processes t, tree_infos T 0 0 t @ drop (processes t) buf, w)
       else Inl Buffer_overrun)"
proof -
  let ?v = "v\<lparr>nr_tmp := 0\<rparr>"
  have fr: "fresh ?v" using assms(5) by (simp add: fresh_def vars_ok_def)
  have "next_pid T (root t) = 0" using assms(2) by (simp add: next_pid_def node_empty_def)
  then have D: "DFS stack T (root t) 0 ?v = outcome ?v (tree_infos T 0 0 t)"
    using DFS_infos(1) [OF assms(1,3,4) fr, of 0 0] by simp
  have "nr_tmp w = processes t" "take (processes t) (buf_tmp w) = tree_infos T 0 0 t"
    by (simp_all add: w_def written_def length_infos)
  moreover have "length (buf_tmp w) = MAX_NUM_PROC" if "processes t \<le> MAX_NUM_PROC"
    using that assms(5) by (simp add: w_def written_def length_infos vars_ok_def)
  ultimately show ?thesis
    using assms(5)
    by (simp add: ptree_call_def D outcome_def w_def [symmetric] length_infos vars_ok_def copy_out_eq)
qed

text \<open>
  C34. \<open>ptree\<close> returns 0, stores in \<open>nr\<close> the number of processes below \<open>init_task\<close>, and fills the
  caller's buffer with one entry per process, in preorder, each with the level of its process in the
  tree and the pids of its first child and of its next sibling; entries beyond are left alone. It
  does so whenever the processes number no more than \<open>MAX_NUM_PROC\<close> and the caller's buffer holds
  them; in every other case it writes past the end of one of the two buffers. Three entries are not
  what the structure's comments say: \<open>parent_pid\<close> is always 0, and after a last child
  \<open>next_sibling_pid\<close> is what is found at the head of the parent's list. The module's variables are
  ready for the next call.
\<close>

theorem ptree_preorder:
  assumes "lists_wf (family T)" "home (family T) (root t) = None" "tree_linked T t"
    and "depth t \<le> stack" "vars_ok v"
  shows "(case ptree_call stack T (root t) buf v of
      Inr (ret, nr, buf', v') \<Rightarrow>
        processes t \<le> MAX_NUM_PROC \<and> processes t \<le> length buf \<and> vars_ok v'
        \<and> ret = 0 \<and> nr = processes t \<and> buf' = tree_infos T 0 0 t @ drop (processes t) buf
    | Inl e \<Rightarrow>
        \<not> (processes t \<le> MAX_NUM_PROC \<and> processes t \<le> length buf) \<and> e = Buffer_overrun)"
proof -
  have "vars_ok (written (v\<lparr>nr_tmp := 0\<rparr>) (tree_infos T 0 0 t))" if "processes t \<le> MAX_NUM_PROC"
    using that assms(5) by (auto simp: vars_ok_def written_def length_infos info_parent dest: in_set_dropD)
  then show ?thesis by (simp add: call_infos [OF assms])
qed

section \<open>Every table is a tree\<close>

text \<open>
  The recursion ends because a process is created after its parent: along the lists of children some
  rank decreases. The tree is then given by the lists.
\<close>

lemma tree_exists:
  assumes "\<And>p c. c \<in> set (children T p) \<Longrightarrow> rank c < (rank p :: nat)"
  shows "\<exists>t. root t = p \<and> tree_linked T t \<and> depth t \<le> Suc (rank p)"
proof (induction "rank p" arbitrary: p rule: less_induct)
  case less
  have "\<exists>f. \<forall>c \<in> set (children T p). root (f c) = c \<and> tree_linked T (f c) \<and> depth (f c) \<le> Suc (rank c)"
    using less assms by (intro bchoice) blast
  then obtain f where f: "\<forall>c \<in> set (children T p). root (f c) = c \<and> tree_linked T (f c) \<and> depth (f c) \<le> Suc (rank c)"
    by blast
  let ?t = "PNode p (map f (children T p))"
  have "map root (map f (children T p)) = children T p" using f by (simp add: map_idI)
  then have "tree_linked T ?t" using f by (simp add: list_all_iff)
  moreover have "depth ?t \<le> Suc (rank p)"
    using f assms [of _ p] by (fastforce simp: less_Suc_eq_le [symmetric])
  ultimately show ?case by (intro exI [of _ ?t]) simp
qed

text \<open>
  C35. The walk ends. When every process was created after its parent (some number decreases from
  parent to child), a stack with room for as many nested calls as the number of \<open>init_task\<close> says is
  enough, and the call ends with a result or by overrunning a buffer, whatever the buffers.
\<close>

theorem ptree_terminates:
  assumes "lists_wf (family T)" "home (family T) init_task = None" "vars_ok v"
    and "\<forall>p. \<forall>c \<in> set (children T p). rank c < rank p" "rank init_task < stack"
  shows "ptree_call stack T init_task buf v \<noteq> Inl Stack_overrun"
proof -
  obtain t where "root t = init_task" "tree_linked T t" "depth t \<le> stack"
    using tree_exists [of T rank init_task] assms(4,5) by fastforce
  then show ?thesis
    using call_infos [OF assms(1) _ _ _ assms(3), of t stack buf] assms(2) by simp
qed

text \<open>
  Unloading the module restores the system call table: whatever was in slot 287 when it was loaded
  is there again, the other slots are never touched, and in between the slot holds \<open>ptree\<close>.
\<close>

theorem ptree_load_unload:
  "(case addsyscall_init call (table, old) of (ret, table', old') \<Rightarrow>
      ret = 0 \<and> table' = table(287 := call) \<and> fst (addsyscall_exit (table', old')) = table)"
  by (simp add: addsyscall_init_def addsyscall_exit_def NR_ptree_def)

section \<open>An example\<close>

text \<open>Process 0 with children 1 and 2, and 3 below 1.\<close>

definition T_ex :: process_table where
  "T_ex = \<lparr>process = (\<lambda>p. \<lparr>proc_pid = int p * 10, proc_state = 0, proc_uid = 0, proc_comm = ''p''\<rparr>),
     family = list_add_tail 3 1 (list_add_tail 2 0 (list_add_tail 1 0 no_lists)), pid_at_head = (\<lambda>_. 77)\<rparr>"

definition t_ex :: ptree where
  "t_ex = PNode 0 [PNode 1 [PNode 3 []], PNode 2 []]"

lemma ex_family:
  "lists_wf (family T_ex)" "home (family T_ex) 0 = None"
  "children T_ex p = (if p = 0 then [1, 2] else if p = 1 then [3] else [])"
  by (auto simp: T_ex_def no_lists_def list_add_tail_def lists_wf_def)

lemma ex_linked: "tree_linked T_ex t_ex" "root t_ex = 0" "depth t_ex = 3" "processes t_ex = 4"
  by (simp_all add: t_ex_def ex_family)

theorem ptree_preorder_witness:
  "(case ptree_call 3 T_ex 0 (replicate 4 prinfo_zero) ptree_loaded of
      Inr (ret, nr, buf, v) \<Rightarrow>
        nr = 4 \<and> map (\<lambda>b. (pr_pid b, first_child_pid b, next_sibling_pid b, level b)) buf
          = [(0, 10, 0, 0), (10, 30, 20, 1), (30, 0, 77, 2), (20, 0, 77, 1)]
    | Inl e \<Rightarrow> False)
   \<and> ptree_call 3 T_ex 0 (replicate 3 prinfo_zero) ptree_loaded = Inl Buffer_overrun"
proof -
  have infos: "map (\<lambda>b. (pr_pid b, first_child_pid b, next_sibling_pid b, level b)) (tree_infos T_ex 0 0 t_ex)
      = [(0, 10, 0, 0), (10, 30, 20, 1), (30, 0, 77, 2), (20, 0, 77, 1)]"
    by (simp add: t_ex_def info_def T_ex_def)
  show ?thesis
    using ptree_preorder [of T_ex t_ex 3 ptree_loaded "replicate 4 prinfo_zero"]
      ptree_preorder [of T_ex t_ex 3 ptree_loaded "replicate 3 prinfo_zero"]
    by (auto simp: ex_linked ex_family vars_ok_loaded MAX_NUM_PROC_def infos split: sum.splits prod.splits)
qed

theorem ptree_terminates_witness: "ptree_call 4 T_ex 0 [] ptree_loaded \<noteq> Inl Stack_overrun"
  by (rule ptree_terminates [where rank = "\<lambda>p. 3 - p"])
    (auto simp: ex_family vars_ok_loaded)

end
