(* ===== verification/Cipher_Server.thy ===== *)
theory Cipher_Server
  imports Kernel_Prelude
begin

text \<open>
  The encryption service of Project 1 (\<open>Project1/submit/Prom4\<close>): a server that gives every
  connection a thread of its own and serves at most two of them at a time, and its client.

  A thread is a program counter with its local variables; the process is its threads, the global
  variables, the mutex, and the variable \<open>connectfd\<close> of \<open>main\<close>, whose address every thread is
  given. \<open>++\<close> and \<open>--\<close> on a global variable are a load and a store. What the socket and thread
  libraries return is an event of the step. A store past the end of \<open>buffer\<close> is the
  place \<open>Overrun\<close>, which has no successor.
\<close>

section \<open>The cipher\<close>

type_synonym byte = "8 word"

definition byte_of :: "int \<Rightarrow> byte" where "byte_of x = word_of_int x"

text \<open>The body of the encrypting loop: two tests, one after the other.\<close>

definition encrypt_char :: "byte \<Rightarrow> byte" where
  "encrypt_char b =
     (let b = (if 97 \<le> uint b \<and> uint b \<le> 122 then byte_of ((uint b - 97 + 3) mod 26 + 97) else b)
      in if 65 \<le> uint b \<and> uint b \<le> 90 then byte_of ((uint b - 65 + 3) mod 26 + 65) else b)"

definition encrypt :: "byte list \<Rightarrow> byte list" where
  "encrypt buf = map encrypt_char buf"

text \<open>\<open>strlen\<close> and \<open>strcmp\<close> see a buffer up to its first zero.\<close>

definition c_string :: "byte list \<Rightarrow> byte list" where
  "c_string buf = takeWhile (\<lambda>b. b \<noteq> 0) buf"

definition quit_msg :: "byte list" where "quit_msg = [58, 113]"

text \<open>\<open>"Please wait ..."\<close>, sent with its terminating zero.\<close>

definition wait_msg :: "byte list" where
  "wait_msg = [80, 108, 101, 97, 115, 101, 32, 119, 97, 105, 116, 32, 46, 46, 46, 0]"

definition BUFFER_SIZE :: nat where "BUFFER_SIZE = 256"

definition NUM_THREADS_AVAL :: int where "NUM_THREADS_AVAL = 2"

section \<open>Threads and the process\<close>

datatype pc =
    Start | Recv | Lock | Test | Grant_load | Grant_store int | Unlock | Reply
  | Close | Lock_end | Exit_load | Exit_store int | Place_test | Place_load | Place_store int
  | Unlock_end | Done | Overrun

record thread =
  pc :: pc
  newsockfd :: int
  block :: bool
  buffer :: "byte list"

datatype main_pc = Accept | Inc_load | Inc_store int | Create | Exited

record server_state =
  num_thread :: int
  num_working_thread :: int
  mutex :: "nat option"
  connectfd :: int
  main_pc :: main_pc
  threads :: "thread list"
  sent :: "(int \<times> byte list) list"

text \<open>Results of library calls. A receive yields \<open>n\<close> bytes, none when the peer has closed.\<close>

datatype event =
    Tau | Recv_err | Recv_msg "byte list" | Send_err | Send_ok
  | Accept_err | Accept_fd int | Create_rc int

definition server_init :: server_state where
  "server_init = \<lparr>num_thread = 0, num_working_thread = 0, mutex = None, connectfd = 0,
     main_pc = Accept, threads = [], sent = []\<rparr>"

definition thread_init :: thread where
  "thread_init = \<lparr>pc = Start, newsockfd = 0, block = True, buffer = []\<rparr>"

section \<open>One step of a thread\<close>

abbreviation set_thread :: "nat \<Rightarrow> thread \<Rightarrow> server_state \<Rightarrow> server_state" where
  "set_thread t th s \<equiv> s\<lparr>threads := (threads s)[t := th]\<rparr>"

definition goto :: "nat \<Rightarrow> pc \<Rightarrow> server_state \<Rightarrow> server_state" where
  "goto t l s = set_thread t ((threads s ! t)\<lparr>pc := l\<rparr>) s"

text \<open>What follows a successful \<open>recv\<close>: the terminating zero, and the test for \<open>:q\<close>.\<close>

definition received :: "byte list \<Rightarrow> thread \<Rightarrow> thread" where
  "received m th =
     (if BUFFER_SIZE \<le> length m then th\<lparr>pc := Overrun\<rparr>
      else if c_string m = quit_msg then th\<lparr>buffer := m, pc := Close\<rparr>
      else th\<lparr>buffer := m, pc := Lock\<rparr>)"

definition reply :: "thread \<Rightarrow> byte list" where
  "reply th = (if \<not> block th then c_string (encrypt (buffer th)) else wait_msg)"

text \<open>\<open>None\<close> when the thread has no step with this event: it waits for the mutex, or for another event.\<close>

definition thread_step :: "nat \<Rightarrow> event \<Rightarrow> server_state \<Rightarrow> server_state option" where
  "thread_step t ev s =
     (let th = threads s ! t in
      case pc th of
        Start \<Rightarrow> if ev = Tau then Some (set_thread t (th\<lparr>newsockfd := connectfd s, pc := Recv\<rparr>) s) else None
      | Recv \<Rightarrow>
          (case ev of
             Recv_err \<Rightarrow> Some (goto t Close s)
           | Recv_msg m \<Rightarrow> if length m \<le> BUFFER_SIZE then Some (set_thread t (received m th) s) else None
           | _ \<Rightarrow> None)
      | Lock \<Rightarrow> if ev = Tau \<and> mutex s = None then Some (goto t Test (s\<lparr>mutex := Some t\<rparr>)) else None
      | Test \<Rightarrow>
          if ev = Tau
          then Some (goto t (if block th \<and> num_working_thread s < NUM_THREADS_AVAL then Grant_load else Unlock) s)
          else None
      | Grant_load \<Rightarrow> if ev = Tau then Some (goto t (Grant_store (num_working_thread s)) s) else None
      | Grant_store r \<Rightarrow>
          if ev = Tau
          then Some (set_thread t (th\<lparr>block := False, pc := Unlock\<rparr>) (s\<lparr>num_working_thread := r + 1\<rparr>))
          else None
      | Unlock \<Rightarrow> if ev = Tau then Some (goto t Reply (s\<lparr>mutex := None\<rparr>)) else None
      | Reply \<Rightarrow>
          (case ev of
             Send_ok \<Rightarrow> Some (goto t Recv (s\<lparr>sent := sent s @ [(newsockfd th, reply th)]\<rparr>))
           | Send_err \<Rightarrow> Some (goto t Close s)
           | _ \<Rightarrow> None)
      | Close \<Rightarrow> if ev = Tau then Some (goto t Lock_end s) else None
      | Lock_end \<Rightarrow> if ev = Tau \<and> mutex s = None then Some (goto t Exit_load (s\<lparr>mutex := Some t\<rparr>)) else None
      | Exit_load \<Rightarrow> if ev = Tau then Some (goto t (Exit_store (num_thread s)) s) else None
      | Exit_store r \<Rightarrow> if ev = Tau then Some (goto t Place_test (s\<lparr>num_thread := r - 1\<rparr>)) else None
      | Place_test \<Rightarrow> if ev = Tau then Some (goto t (if \<not> block th then Place_load else Unlock_end) s) else None
      | Place_load \<Rightarrow> if ev = Tau then Some (goto t (Place_store (num_working_thread s)) s) else None
      | Place_store r \<Rightarrow> if ev = Tau then Some (goto t Unlock_end (s\<lparr>num_working_thread := r - 1\<rparr>)) else None
      | Unlock_end \<Rightarrow> if ev = Tau then Some (goto t Done (s\<lparr>mutex := None\<rparr>)) else None
      | Done \<Rightarrow> None
      | Overrun \<Rightarrow> None)"

section \<open>One step of \<open>main\<close>\<close>

text \<open>
  The accepting loop. A thread is created when \<open>pthread_create\<close> returns 0; only a result of -1 ends
  the process.
\<close>

definition main_step :: "event \<Rightarrow> server_state \<Rightarrow> server_state option" where
  "main_step ev s =
     (case main_pc s of
        Accept \<Rightarrow>
          (case ev of
             Accept_err \<Rightarrow> Some s
           | Accept_fd fd \<Rightarrow> if 0 \<le> fd then Some (s\<lparr>connectfd := fd, main_pc := Inc_load\<rparr>) else None
           | _ \<Rightarrow> None)
      | Inc_load \<Rightarrow> if ev = Tau then Some (s\<lparr>main_pc := Inc_store (num_thread s)\<rparr>) else None
      | Inc_store r \<Rightarrow> if ev = Tau then Some (s\<lparr>num_thread := r + 1, main_pc := Create\<rparr>) else None
      | Create \<Rightarrow>
          (case ev of
             Create_rc rc \<Rightarrow>
               if rc = 0 then Some (s\<lparr>threads := threads s @ [thread_init], main_pc := Accept\<rparr>)
               else if rc = -1 then Some (s\<lparr>main_pc := Exited\<rparr>)
               else Some (s\<lparr>main_pc := Accept\<rparr>)
           | _ \<Rightarrow> None)
      | Exited \<Rightarrow> None)"

section \<open>The process\<close>

datatype actor = Main | Thread nat

definition actor_step :: "actor \<Rightarrow> event \<Rightarrow> server_state \<Rightarrow> server_state option" where
  "actor_step a ev s =
     (if main_pc s = Exited then None
      else case a of
        Main \<Rightarrow> main_step ev s
      | Thread t \<Rightarrow> if t < length (threads s) then thread_step t ev s else None)"

inductive server_step :: "server_state \<Rightarrow> server_state \<Rightarrow> bool" where
  step: "actor_step a ev s = Some s' \<Longrightarrow> server_step s s'"

text \<open>A schedule: who moves, and what the libraries return.\<close>

fun run_schedule :: "(actor \<times> event) list \<Rightarrow> server_state \<Rightarrow> server_state option" where
  "run_schedule [] s = Some s"
| "run_schedule ((a, ev) # es) s =
     (case actor_step a ev s of None \<Rightarrow> None | Some s \<Rightarrow> run_schedule es s)"

section \<open>The client\<close>

datatype client_end = Quit | Send_failed | Recv_failed | Client_overrun | Input_ended

text \<open>
  The loop of the client: read a line, send it, leave after \<open>:q\<close>, else receive an answer and print
  it. The connection is given by the outcome of the sends and receives, one pair per line (\<open>None\<close> for
  a failed receive). A line that does not fit into \<open>content\<close> is stored past its end by \<open>gets\<close>, as is
  the zero after an answer of 256 bytes.
\<close>

fun client_loop ::
  "byte list list \<Rightarrow> (bool \<times> byte list option) list \<Rightarrow> byte list list \<Rightarrow> byte list list
     \<Rightarrow> client_end \<times> byte list list \<times> byte list list" where
  "client_loop (content # lines) ((send_ok, answer) # net) out printed =
     (if BUFFER_SIZE \<le> length content then (Client_overrun, out, printed)
      else if \<not> send_ok then (Send_failed, out, printed)
      else
        let out = out @ [c_string content] in
        if c_string content = quit_msg then (Quit, out, printed)
        else case answer of
            None \<Rightarrow> (Recv_failed, out, printed)
          | Some m \<Rightarrow>
              if BUFFER_SIZE \<le> length m then (Client_overrun, out, printed)
              else client_loop lines net out (printed @ [c_string m]))"
| "client_loop _ _ out printed = (Input_ended, out, printed)"

end
