(* ===== verification/Cipher_Props.thy ===== *)
theory Cipher_Props
  imports Cipher_Server
begin

text \<open>
  The encryption service: the cipher, the places of the server under every interleaving of its
  threads, and a session of a client with its thread.
\<close>

section \<open>The cipher\<close>

abbreviation lower :: "byte \<Rightarrow> bool" where "lower b \<equiv> 97 \<le> uint b \<and> uint b \<le> 122"
abbreviation upper :: "byte \<Rightarrow> bool" where "upper b \<equiv> 65 \<le> uint b \<and> uint b \<le> 90"

lemma uint_byte_of: "\<lbrakk>0 \<le> x; x < 256\<rbrakk> \<Longrightarrow> uint (byte_of x) = x"
  by (simp add: byte_of_def uint_word_of_int)

text \<open>Shifting the letters by \<open>n\<close> places, each within its case.\<close>

definition shift :: "nat \<Rightarrow> byte \<Rightarrow> byte" where
  "shift n b = (if lower b then byte_of ((uint b - 97 + int n) mod 26 + 97)
     else if upper b then byte_of ((uint b - 65 + int n) mod 26 + 65) else b)"

lemma uint_shift:
  "uint (shift n b) = (if lower b then (uint b - 97 + int n) mod 26 + 97
     else if upper b then (uint b - 65 + int n) mod 26 + 65 else uint b)"
proof -
  have "0 \<le> x mod 26 + 97 \<and> x mod 26 + 97 < 256" "0 \<le> x mod 26 + 65 \<and> x mod 26 + 65 < 256" for x :: int
    using pos_mod_bound [of 26 x] pos_mod_sign [of 26 x] by simp_all
  then show ?thesis by (simp add: shift_def uint_byte_of)
qed

lemma shift_letter: "lower (shift n b) = lower b" "upper (shift n b) = upper b"
proof -
  have "0 \<le> x mod 26 \<and> x mod 26 < 26" for x :: int by simp
  then show "lower (shift n b) = lower b" "upper (shift n b) = upper b"
    by (auto simp: uint_shift)
qed

lemma shift_shift: "shift m (shift n b) = shift (m + n) b"
proof -
  have "(x mod 26 + int m) mod 26 = (x + int m) mod 26" for x
    by (rule mod_add_left_eq)
  then have "uint (shift m (shift n b)) = uint (shift (m + n) b)"
    unfolding uint_shift [of m] shift_letter by (simp add: uint_shift algebra_simps)
  then show ?thesis by (simp add: word_uint_eq_iff)
qed

lemma encrypt_char_shift: "encrypt_char b = shift 3 b"
proof -
  have "uint (byte_of ((uint b - 97 + 3) mod 26 + 97)) \<ge> 97" if "lower b"
    using that uint_shift [of 3 b] by (simp add: shift_def)
  then show ?thesis by (auto simp: encrypt_char_def shift_def Let_def)
qed

lemma encrypt_char_pow: "(encrypt_char ^^ n) b = shift (3 * n) b"
proof (induction n)
  case 0
  have "uint (shift 0 b) = uint b" by (auto simp: uint_shift)
  then show ?case by (simp add: word_uint_eq_iff)
qed (simp add: encrypt_char_shift shift_shift)

lemma shift_mod: "shift (26 * k) b = b"
proof -
  have "(x + int (26 * k)) mod 26 = x" if "0 \<le> x" "x < 26" for x using that by simp
  from this [of "uint b - 97"] this [of "uint b - 65"] have "uint (shift (26 * k) b) = uint b"
    unfolding uint_shift by auto
  then show ?thesis by (simp add: word_uint_eq_iff)
qed

lemma encrypt_pow: "(encrypt ^^ n) xs = map (encrypt_char ^^ n) xs"
  by (induction n) (simp_all add: encrypt_def comp_def)

lemma encrypt_char_zero: "encrypt_char b = 0 \<longleftrightarrow> b = 0"
proof -
  have "uint (shift 3 b) = 0 \<longleftrightarrow> uint b = 0"
  proof -
    have "0 \<le> x mod 26" for x :: int by simp
    then show ?thesis by (auto simp: uint_shift)
  qed
  then show ?thesis by (simp add: encrypt_char_shift uint_0_iff)
qed

lemma c_string_encrypt: "c_string (encrypt m) = encrypt (c_string m)"
  by (induction m) (simp_all add: c_string_def encrypt_def encrypt_char_zero)

text \<open>
  C33. Encrypting shifts every letter by three places, small letters among the small and capitals
  among the capitals, and leaves every other byte (the terminating zero included) as it is, so that
  it commutes with taking the C string; encrypting 26 times gives the message back, hence no two
  messages are encrypted alike.
\<close>

theorem encrypt_caesar:
  "encrypt m = map (shift 3) m \<and> (encrypt ^^ 26) m = m \<and> inj encrypt
   \<and> c_string (encrypt m) = encrypt (c_string m)"
proof -
  have id: "(encrypt ^^ 26) xs = xs" for xs
    using encrypt_char_pow [of 26] shift_mod [of 3] by (simp add: encrypt_pow map_idI)
  have "inj encrypt"
  proof (rule injI)
    fix x y assume "encrypt x = encrypt y"
    then have "(encrypt ^^ 25) (encrypt x) = (encrypt ^^ 25) (encrypt y)" by simp
    then have "(encrypt ^^ Suc 25) x = (encrypt ^^ Suc 25) y" by (simp only: funpow_Suc_right comp_apply)
    then show "x = y" using id by simp
  qed
  moreover have "encrypt m = map (shift 3) m" by (simp add: encrypt_def encrypt_char_shift)
  ultimately show ?thesis using id c_string_encrypt by blast
qed

section \<open>The places\<close>

text \<open>The program points at which a thread holds the mutex, and whether its place is counted.\<close>

fun in_critical :: "pc \<Rightarrow> bool" where
  "in_critical Test = True" | "in_critical Grant_load = True" | "in_critical (Grant_store r) = True"
| "in_critical Unlock = True" | "in_critical Exit_load = True" | "in_critical (Exit_store r) = True"
| "in_critical Place_test = True" | "in_critical Place_load = True" | "in_critical (Place_store r) = True"
| "in_critical Unlock_end = True"
| "in_critical l = False"

definition counted :: "thread \<Rightarrow> bool" where
  "counted th \<longleftrightarrow> \<not> block th \<and> pc th \<noteq> Unlock_end \<and> pc th \<noteq> Done"

definition places :: "server_state \<Rightarrow> nat set" where
  "places s = {t. t < length (threads s) \<and> counted (threads s ! t)}"

text \<open>What a thread between a load and a store of the counter knows.\<close>

definition register_ok :: "int \<Rightarrow> thread \<Rightarrow> bool" where
  "register_ok w th =
     (case pc th of
        Grant_load \<Rightarrow> block th \<and> w < 2
      | Grant_store r \<Rightarrow> block th \<and> w < 2 \<and> r = w
      | Place_load \<Rightarrow> \<not> block th
      | Place_store r \<Rightarrow> \<not> block th \<and> r = w
      | _ \<Rightarrow> True)"

definition server_inv :: "server_state \<Rightarrow> bool" where
  "server_inv s \<longleftrightarrow>
     (\<forall>t. mutex s = Some t \<longleftrightarrow> t < length (threads s) \<and> in_critical (pc (threads s ! t)))
     \<and> (\<forall>t < length (threads s). register_ok (num_working_thread s) (threads s ! t))
     \<and> num_working_thread s = int (card (places s)) \<and> num_working_thread s \<le> 2"

lemma server_invI:
  assumes "\<And>t. mutex s = Some t \<longleftrightarrow> t < length (threads s) \<and> in_critical (pc (threads s ! t))"
    and "\<And>t. t < length (threads s) \<Longrightarrow> register_ok (num_working_thread s) (threads s ! t)"
    and "num_working_thread s = int (card (places s))" "num_working_thread s \<le> 2"
  shows "server_inv s"
  using assms by (simp add: server_inv_def)

lemma inv_mutex: "server_inv s \<Longrightarrow> mutex s = Some t \<longleftrightarrow> t < length (threads s) \<and> in_critical (pc (threads s ! t))"
  and inv_register: "\<lbrakk>server_inv s; t < length (threads s)\<rbrakk> \<Longrightarrow> register_ok (num_working_thread s) (threads s ! t)"
  and inv_count: "server_inv s \<Longrightarrow> num_working_thread s = int (card (places s))"
  and inv_two: "server_inv s \<Longrightarrow> num_working_thread s \<le> 2"
  unfolding server_inv_def by blast+

lemma finite_places [simp]: "finite (places s)"
  by (simp add: places_def)

lemma places_cong [simp]:
  "places (s\<lparr>num_thread := x\<rparr>) = places s" "places (s\<lparr>num_working_thread := x\<rparr>) = places s"
  "places (s\<lparr>mutex := m\<rparr>) = places s" "places (s\<lparr>connectfd := x\<rparr>) = places s"
  "places (s\<lparr>main_pc := l\<rparr>) = places s" "places (s\<lparr>sent := xs\<rparr>) = places s"
  by (simp_all add: places_def)

lemma places_set_thread:
  "t < length (threads s) \<Longrightarrow>
     places (s\<lparr>threads := (threads s)[t := th]\<rparr>) = (if counted th then insert t (places s) else places s - {t})"
  by (auto simp: places_def nth_list_update split: if_splits)

lemma in_places: "t < length (threads s) \<Longrightarrow> t \<in> places s \<longleftrightarrow> counted (threads s ! t)"
  by (simp add: places_def)

lemma register_ok_outside: "\<not> in_critical (pc th) \<Longrightarrow> register_ok w th"
  by (cases "pc th") (simp_all add: register_ok_def)

text \<open>
  A step of one thread. It moves the mutex as its program counter says, and the counter as its place
  says; to change the counter it must hold the mutex.
\<close>

lemma inv_step:
  assumes inv: "server_inv s" and t: "t < length (threads s)" and ths: "threads s' = (threads s)[t := th]"
    and mut: "if in_critical (pc th) then mutex s' = Some t \<and> (in_critical (pc (threads s ! t)) \<or> mutex s = None)
      else mutex s' = (if in_critical (pc (threads s ! t)) then None else mutex s)"
    and cnt: "num_working_thread s' = num_working_thread s + of_bool (counted th) - of_bool (counted (threads s ! t))"
    and two: "num_working_thread s' \<le> 2"
    and excl: "num_working_thread s' = num_working_thread s \<or> in_critical (pc (threads s ! t))"
    and reg: "register_ok (num_working_thread s') th"
  shows "server_inv s'" "places s' = (if counted th then insert t (places s) else places s - {t})"
proof -
  show pl: "places s' = (if counted th then insert t (places s) else places s - {t})"
    using t by (auto simp: places_def ths nth_list_update split: if_splits)
  note mx = inv_mutex [OF inv]
  show "server_inv s'"
  proof (rule server_invI)
    fix u
    show "mutex s' = Some u \<longleftrightarrow> u < length (threads s') \<and> in_critical (pc (threads s' ! u))"
      using mut mx [of u] mx [of t] t by (auto simp: ths nth_list_update split: if_splits)
  next
    fix u assume u: "u < length (threads s')"
    show "register_ok (num_working_thread s') (threads s' ! u)"
    proof (cases "u = t")
      case True
      then show ?thesis using reg t by (simp add: ths)
    next
      case False
      then have eq: "threads s' ! u = threads s ! u" by (simp add: ths)
      show ?thesis
      proof (cases "num_working_thread s' = num_working_thread s")
        case True
        then show ?thesis using inv_register [OF inv, of u] u by (simp add: eq) (simp add: ths)
      next
        case False
        then have "mutex s = Some t" using excl mx [of t] t by simp
        then have "\<not> in_critical (pc (threads s ! u))" using mx [of u] \<open>u \<noteq> t\<close> u by (auto simp: ths)
        then show ?thesis by (simp add: eq register_ok_outside)
      qed
    qed
  next
    have "int (card (places s')) = int (card (places s)) + of_bool (counted th) - of_bool (counted (threads s ! t))"
      using in_places [OF t] card_Suc_Diff1 [OF finite_places, of t s]
      by (cases "counted th"; cases "counted (threads s ! t)") (auto simp: pl insert_absorb simp del: card_Diff_insert)
    then show "num_working_thread s' = int (card (places s'))" using cnt inv_count [OF inv] by simp
  qed (rule two)
qed

lemma thread_step_inv:
  assumes inv: "server_inv s" and t: "t < length (threads s)" and st: "thread_step t ev s = Some s'"
  shows "server_inv s' \<and> length (threads s') = length (threads s)
    \<and> (places s' = places s \<or> t \<in> places s \<and> places s' = places s - {t}
       \<or> t \<notin> places s \<and> card (places s) < 2 \<and> places s' = insert t (places s))"
proof -
  define th where "th = threads s' ! t"
  have ths: "threads s' = (threads s)[t := th]"
    using st t by (auto simp: thread_step_def goto_def Let_def th_def split: pc.splits event.splits if_splits)
  have reg: "register_ok (num_working_thread s) (threads s ! t)" by (rule inv_register [OF inv t])
  note two = inv_two [OF inv]
  have "server_inv s'" "places s' = (if counted th then insert t (places s) else places s - {t})"
  proof -
    show "server_inv s'"
      by (rule inv_step(1) [OF inv t ths];
        insert st t reg two inv_mutex [OF inv, of t];
        cases "pc (threads s ! t)";
        auto simp: thread_step_def goto_def Let_def th_def received_def counted_def register_ok_def
          NUM_THREADS_AVAL_def split: event.splits if_splits)
    show "places s' = (if counted th then insert t (places s) else places s - {t})"
      using t by (auto simp: places_def ths nth_list_update split: if_splits)
  qed
  moreover have "card (places s) < 2" if "counted th" "\<not> counted (threads s ! t)"
  proof -
    have "num_working_thread s < 2"
      using st t reg that inv
      by (cases "pc (threads s ! t)";
        auto simp: thread_step_def goto_def Let_def th_def received_def counted_def register_ok_def
          split: event.splits if_splits)
    then show ?thesis using inv_count [OF inv] by simp
  qed
  ultimately show ?thesis using in_places [OF t] by (auto simp: ths insert_absorb)
qed

lemma new_thread: "\<not> in_critical (pc thread_init)" "\<not> counted thread_init" "register_ok w thread_init"
  by (simp_all add: thread_init_def counted_def register_ok_def)

lemma server_inv_cong [simp]:
  "server_inv (s\<lparr>num_thread := x\<rparr>) = server_inv s" "server_inv (s\<lparr>connectfd := x\<rparr>) = server_inv s"
  "server_inv (s\<lparr>main_pc := l\<rparr>) = server_inv s"
  by (simp_all add: server_inv_def)

lemma create_inv:
  defines "grown s \<equiv> s\<lparr>threads := threads s @ [thread_init]\<rparr>"
  assumes inv: "server_inv s"
  shows "server_inv (grown s)" "places (grown s) = places s"
proof -
  show pl: "places (grown s) = places s"
    by (auto simp: grown_def places_def nth_append new_thread less_Suc_eq)
  show "server_inv (grown s)"
  proof (rule server_invI)
    fix t
    show "mutex (grown s) = Some t \<longleftrightarrow> t < length (threads (grown s)) \<and> in_critical (pc (threads (grown s) ! t))"
      using inv_mutex [OF inv, of t] by (auto simp: grown_def nth_append new_thread less_Suc_eq)
  next
    fix t assume "t < length (threads (grown s))"
    then show "register_ok (num_working_thread (grown s)) (threads (grown s) ! t)"
      using inv_register [OF inv, of t] by (auto simp: grown_def nth_append new_thread less_Suc_eq)
  next
    show "num_working_thread (grown s) = int (card (places (grown s)))"
      using inv_count [OF inv] unfolding pl by (simp add: grown_def)
  qed (use inv_two [OF inv] in \<open>simp add: grown_def\<close>)
qed

lemma main_step_inv:
  assumes "server_inv s" "main_step ev s = Some s'"
  shows "server_inv s' \<and> places s' = places s"
proof (cases "main_pc s")
  case Accept
  then show ?thesis using assms by (cases ev) (auto simp: main_step_def split: if_splits)
next
  case Inc_load
  then show ?thesis using assms by (auto simp: main_step_def split: if_splits)
next
  case (Inc_store r)
  then show ?thesis using assms by (auto simp: main_step_def split: if_splits)
next
  case Create
  then show ?thesis
    using assms create_inv [OF assms(1)]
    by (cases ev) (simp_all add: main_step_def split: if_splits, (hypsubst, simp)+)
qed (use assms in \<open>simp add: main_step_def\<close>)

section \<open>The abstract service\<close>

text \<open>What the server promises: a set of places, at most two, taken and given back one at a time.\<close>

inductive place_step :: "nat set \<Rightarrow> nat set \<Rightarrow> bool" where
  stay: "place_step A A"
| grant: "\<lbrakk>t \<notin> A; card A < 2\<rbrakk> \<Longrightarrow> place_step A (insert t A)"
| release: "t \<in> A \<Longrightarrow> place_step A (A - {t})"

lemma actor_step_inv:
  assumes "server_inv s" "actor_step a ev s = Some s'"
  shows "server_inv s' \<and> place_step (places s) (places s')"
proof (cases a)
  case Main
  then have "main_step ev s = Some s'" using assms(2) by (simp add: actor_step_def split: if_splits)
  from main_step_inv [OF assms(1) this] show ?thesis by (simp add: stay)
next
  case (Thread t)
  then have "t < length (threads s)" "thread_step t ev s = Some s'"
    using assms(2) by (simp_all add: actor_step_def split: if_splits)
  from thread_step_inv [OF assms(1) this] show ?thesis
    by (elim conjE disjE) (simp_all add: stay grant release)
qed

lemma server_init_inv: "server_inv server_init" "places server_init = {}"
  by (simp_all add: server_inv_def server_init_def places_def)

lemma steps_inv: "\<lbrakk>server_step\<^sup>*\<^sup>* s s'; server_inv s\<rbrakk> \<Longrightarrow> server_inv s' \<and> place_step\<^sup>*\<^sup>* (places s) (places s')"
proof (induction rule: rtranclp_induct)
  case base
  then show ?case by simp
next
  case (step u s')
  from step(2) obtain a ev where "actor_step a ev u = Some s'" by (auto elim: server_step.cases)
  with step(3,4) actor_step_inv show ?case by (meson rtranclp.rtrancl_into_rtrancl)
qed

lemma reachable_places: "server_step\<^sup>*\<^sup>* server_init s \<Longrightarrow> server_inv s \<and> place_step\<^sup>*\<^sup>* {} (places s)"
  using steps_inv [of server_init s] server_init_inv by simp

lemma reachable_inv: "server_step\<^sup>*\<^sup>* server_init s \<Longrightarrow> server_inv s"
  by (simp add: reachable_places)

lemma run_schedule_reachable: "run_schedule es s = Some s' \<Longrightarrow> server_step\<^sup>*\<^sup>* s s'"
  by (induction es s rule: run_schedule.induct)
    (auto split: option.splits intro: converse_rtranclp_into_rtranclp server_step.step)

text \<open>
  C31. The server refines a service with two places: whatever the interleaving of its threads and
  whatever the libraries return, every step of the process either leaves the set of threads that
  hold a place, or gives a place to one more thread while fewer than two are taken, or takes one
  place back.
\<close>

theorem server_refines_places:
  assumes "server_step\<^sup>*\<^sup>* server_init s" "server_step s s'"
  shows "place_step\<^sup>*\<^sup>* {} (places s) \<and> place_step (places s) (places s')"
  using assms reachable_places [OF assms(1)] actor_step_inv by (auto elim!: server_step.cases)

text \<open>
  C32. At most two clients are served at any time, and the counter tells how many: in every reachable
  state the number of threads that hold a place is \<open>num_working_thread\<close>, at most 2; no two threads
  are in their critical regions at once; and a thread that is about to send an encrypted answer holds
  a place.
\<close>

theorem at_most_two_served:
  assumes "server_step\<^sup>*\<^sup>* server_init s"
  shows "num_working_thread s = int (card (places s)) \<and> card (places s) \<le> 2
    \<and> (\<forall>t u. t < length (threads s) \<longrightarrow> u < length (threads s) \<longrightarrow> in_critical (pc (threads s ! t))
         \<longrightarrow> in_critical (pc (threads s ! u)) \<longrightarrow> t = u)
    \<and> (\<forall>t. t < length (threads s) \<longrightarrow> pc (threads s ! t) = Reply \<longrightarrow> \<not> block (threads s ! t) \<longrightarrow> t \<in> places s)"
proof -
  note inv = reachable_inv [OF assms]
  have "t = u" if "t < length (threads s)" "u < length (threads s)"
    "in_critical (pc (threads s ! t))" "in_critical (pc (threads s ! u))" for t u
    using inv_mutex [OF inv, of t] inv_mutex [OF inv, of u] that by simp
  moreover have "card (places s) \<le> 2" using inv_count [OF inv] inv_two [OF inv] by linarith
  ultimately show ?thesis using inv_count [OF inv] by (auto simp: places_def counted_def)
qed

section \<open>Progress\<close>

text \<open>A thread that holds the mutex gives it back by itself.\<close>

fun steps_left :: "pc \<Rightarrow> nat" where
  "steps_left Test = 4" | "steps_left Grant_load = 3" | "steps_left (Grant_store r) = 2"
| "steps_left Unlock = 1" | "steps_left Exit_load = 6" | "steps_left (Exit_store r) = 5"
| "steps_left Place_test = 4" | "steps_left Place_load = 3" | "steps_left (Place_store r) = 2"
| "steps_left Unlock_end = 1"
| "steps_left l = 0"

lemma steps_left_le: "steps_left l \<le> 6"
  by (cases l) simp_all

lemma critical_step:
  assumes "t < length (threads s)" "in_critical (pc (threads s ! t))" "main_pc s \<noteq> Exited"
  obtains s' where "actor_step (Thread t) Tau s = Some s'" "main_pc s' \<noteq> Exited" "t < length (threads s')"
    "steps_left (pc (threads s' ! t)) < steps_left (pc (threads s ! t))"
    "in_critical (pc (threads s' ! t)) \<or> mutex s' = None"
proof -
  obtain s' where "thread_step t Tau s = Some s'" "main_pc s' = main_pc s" "length (threads s') = length (threads s)"
    "steps_left (pc (threads s' ! t)) < steps_left (pc (threads s ! t))"
    "in_critical (pc (threads s' ! t)) \<or> mutex s' = None"
    using assms by (cases "pc (threads s ! t)") (simp_all add: thread_step_def goto_def Let_def)
  then show thesis using assms by (intro that [of s']) (simp_all add: actor_step_def)
qed

lemma run_releases:
  "\<lbrakk>t < length (threads s); in_critical (pc (threads s ! t)); main_pc s \<noteq> Exited\<rbrakk>
   \<Longrightarrow> \<exists>n s'. n \<le> steps_left (pc (threads s ! t)) \<and> run_schedule (replicate n (Thread t, Tau)) s = Some s' \<and> mutex s' = None"
proof (induction "steps_left (pc (threads s ! t))" arbitrary: s rule: less_induct)
  case less
  from critical_step [OF less.prems] obtain s1 where s1: "actor_step (Thread t) Tau s = Some s1" "main_pc s1 \<noteq> Exited"
    "t < length (threads s1)" "steps_left (pc (threads s1 ! t)) < steps_left (pc (threads s ! t))"
    "in_critical (pc (threads s1 ! t)) \<or> mutex s1 = None" by blast
  have "\<exists>n s'. n \<le> steps_left (pc (threads s1 ! t)) \<and> run_schedule (replicate n (Thread t, Tau)) s1 = Some s' \<and> mutex s' = None"
  proof (cases "mutex s1 = None")
    case True
    then show ?thesis by (intro exI [of _ 0]) simp
  next
    case False
    then show ?thesis using s1(5) by (intro less.hyps [OF s1(4,3) _ s1(2)]) auto
  qed
  then obtain n s' where "n \<le> steps_left (pc (threads s1 ! t))" "run_schedule (replicate n (Thread t, Tau)) s1 = Some s'" "mutex s' = None"
    by blast
  then show ?case using s1(1,4) by (intro exI [of _ "Suc n"] exI [of _ s']) simp
qed

text \<open>
  The mutex is always given back: in every reachable state, a thread that holds it has a step of
  its own at every moment until it has released it, and needs no more than six, none of which waits
  for another thread or for a library.
\<close>

theorem mutex_released:
  assumes "server_step\<^sup>*\<^sup>* server_init s" "mutex s = Some t" "main_pc s \<noteq> Exited"
  shows "\<exists>n s'. n \<le> 6 \<and> run_schedule (replicate n (Thread t, Tau)) s = Some s' \<and> mutex s' = None"
proof -
  have "t < length (threads s)" "in_critical (pc (threads s ! t))"
    using inv_mutex [OF reachable_inv [OF assms(1)], of t] assms(2) by simp_all
  from run_releases [OF this assms(3)] show ?thesis by (meson order.trans steps_left_le)
qed

section \<open>One message\<close>

lemma run_schedule_append:
  "run_schedule (es @ fs) s = (case run_schedule es s of None \<Rightarrow> None | Some s \<Rightarrow> run_schedule fs s)"
  by (induction es s rule: run_schedule.induct) (auto split: option.splits)

text \<open>The moves of a thread for one message: the waiting ones and those that take a place first.\<close>

definition serve_moves :: "nat \<Rightarrow> byte list \<Rightarrow> nat \<Rightarrow> (actor \<times> event) list" where
  "serve_moves t m n = (Thread t, Recv_msg m) # replicate n (Thread t, Tau) @ [(Thread t, Send_ok)]"

definition served :: "nat \<Rightarrow> server_state \<Rightarrow> bool" where
  "served t s \<longleftrightarrow> t \<in> places s \<or> card (places s) < 2"

definition at_recv :: "nat \<Rightarrow> server_state \<Rightarrow> bool" where
  "at_recv t s \<longleftrightarrow> t < length (threads s) \<and> pc (threads s ! t) = Recv \<and> mutex s = None \<and> main_pc s \<noteq> Exited"

lemma at_recv_counted: "at_recv t s \<Longrightarrow> t \<in> places s \<longleftrightarrow> \<not> block (threads s ! t)"
  by (simp add: at_recv_def places_def counted_def)

definition answered :: "nat \<Rightarrow> byte list \<Rightarrow> server_state \<Rightarrow> thread \<Rightarrow> server_state \<Rightarrow> bool" where
  "answered t a s th s' \<longleftrightarrow>
     at_recv t s' \<and> sent s' = sent s @ [(newsockfd (threads s ! t), a)]
     \<and> newsockfd th = newsockfd (threads s ! t) \<and> threads s' = (threads s)[t := th]"

lemma cycle_runs:
  assumes at: "at_recv t s" and m: "length m < BUFFER_SIZE" "c_string m \<noteq> quit_msg"
  defines "th \<equiv> threads s ! t"
  shows "\<lbrakk>block th; num_working_thread s < 2\<rbrakk> \<Longrightarrow> \<exists>s'. run_schedule (serve_moves t m 5) s = Some s'
      \<and> answered t (c_string (encrypt m)) s (th\<lparr>buffer := m, block := False, pc := Recv\<rparr>) s'"
    and "\<not> (block th \<and> num_working_thread s < 2) \<Longrightarrow> \<exists>s'. run_schedule (serve_moves t m 3) s = Some s'
      \<and> answered t (if block th then wait_msg else c_string (encrypt m)) s (th\<lparr>buffer := m, pc := Recv\<rparr>) s'"
  using at m unfolding th_def
  by (auto simp: serve_moves_def thread_step_def actor_step_def goto_def received_def reply_def Let_def
      at_recv_def answered_def NUM_THREADS_AVAL_def eval_nat_numeral)

lemma serve_message:
  assumes inv: "server_inv s" and at: "at_recv t s" and m: "length m < BUFFER_SIZE" "c_string m \<noteq> quit_msg"
  shows "\<exists>n s'. n \<le> 5 \<and> run_schedule (serve_moves t m n) s = Some s' \<and> at_recv t s'
    \<and> sent s' = sent s @ [(newsockfd (threads s ! t), if served t s then c_string (encrypt m) else wait_msg)]
    \<and> newsockfd (threads s' ! t) = newsockfd (threads s ! t)
    \<and> places s' = (if served t s then insert t (places s) else places s)"
proof -
  let ?th = "threads s ! t"
  have t: "t < length (threads s)" using at by (simp add: at_recv_def)
  have srv: "served t s \<longleftrightarrow> \<not> block ?th \<or> num_working_thread s < 2"
    using at_recv_counted [OF at] inv_count [OF inv] by (auto simp: served_def)
  have fin: ?thesis
    if "answered t a s th s'" "run_schedule (serve_moves t m n) s = Some s'" "n \<le> 5"
      "a = (if served t s then c_string (encrypt m) else wait_msg)" "counted th = served t s" for a n th s'
  proof -
    have "places s' = (if served t s then insert t (places s) else places s)"
      using that(1,5) t
      by (auto simp: answered_def places_def nth_list_update served_def split: if_splits)
    then show ?thesis using that t by (intro exI [of _ n] exI [of _ s']) (simp add: answered_def)
  qed
  show ?thesis
  proof (cases "block ?th \<and> num_working_thread s < 2")
    case True
    then show ?thesis using cycle_runs(1) [OF at m] srv fin [where n = 5] by (fastforce simp: counted_def)
  next
    case False
    then show ?thesis using cycle_runs(2) [OF at m] srv fin [where n = 3] by (fastforce simp: counted_def)
  qed
qed

text \<open>The moves of a thread that is told to quit.\<close>

lemma c_string_quit: "c_string quit_msg = quit_msg" "length quit_msg < BUFFER_SIZE" "\<not> BUFFER_SIZE \<le> length quit_msg"
    "length quit_msg \<le> BUFFER_SIZE"
  by (simp_all add: c_string_def quit_msg_def BUFFER_SIZE_def)

lemma serve_quit:
  assumes inv: "server_inv s" and at: "at_recv t s"
  obtains n s' where "run_schedule ((Thread t, Recv_msg quit_msg) # replicate n (Thread t, Tau)) s = Some s'"
    "pc (threads s' ! t) = Done" "sent s' = sent s" "places s' = places s - {t}" "mutex s' = None"
proof -
  define n :: nat where "n = (if block (threads s ! t) then 6 else 8)"
  note run = thread_step_def actor_step_def goto_def received_def Let_def at_recv_def c_string_quit
  have t: "t < length (threads s)" using at by (simp add: at_recv_def)
  have "\<exists>s'. run_schedule ((Thread t, Recv_msg quit_msg) # replicate n (Thread t, Tau)) s = Some s'
      \<and> mutex s' = None \<and> sent s' = sent s \<and> threads s' = (threads s)[t := (threads s ! t)\<lparr>buffer := quit_msg, pc := Done\<rparr>]"
    using at by (simp add: n_def run eval_nat_numeral)
  then obtain s' where s': "run_schedule ((Thread t, Recv_msg quit_msg) # replicate n (Thread t, Tau)) s = Some s'"
      "mutex s' = None" "sent s' = sent s" "threads s' = (threads s)[t := (threads s ! t)\<lparr>buffer := quit_msg, pc := Done\<rparr>]"
    by blast
  moreover from s'(4) t have "places s' = places s - {t}"
    by (auto simp: places_def counted_def nth_list_update split: if_splits)
  ultimately show thesis using t by (intro that [of n s']) simp_all
qed

text \<open>
  A waiting client is answered. In every reachable state in which a thread waits for a message
  and nobody holds the mutex, the thread answers the next message (one that fits into the buffer and
  is not \<open>:q\<close>) with at most five steps between receiving and sending: with the encrypted message,
  holding a place from then on, when it had a place or one was free; else with \<open>Please wait ...\<close>,
  keeping no place.
\<close>

theorem message_answered:
  assumes "server_step\<^sup>*\<^sup>* server_init s" "at_recv t s" "length m < BUFFER_SIZE" "c_string m \<noteq> quit_msg"
  shows "\<exists>n s'. n \<le> 5 \<and> run_schedule ((Thread t, Recv_msg m) # replicate n (Thread t, Tau) @ [(Thread t, Send_ok)]) s = Some s'
    \<and> at_recv t s'
    \<and> sent s' = sent s @ [(newsockfd (threads s ! t),
        if t \<in> places s \<or> card (places s) < 2 then c_string (encrypt m) else wait_msg)]
    \<and> places s' = (if t \<in> places s \<or> card (places s) < 2 then insert t (places s) else places s)"
  using serve_message [OF reachable_inv [OF assms(1)] assms(2-4)] by (auto simp: serve_moves_def served_def)

end
