(* ===== verification/Cipher_Session.thy ===== *)
theory Cipher_Session
  imports Cipher_Props
begin

text \<open>
  The encryption service: a session of a client with its thread, and what goes wrong when clients
  vanish or connect at the same time.
\<close>

section \<open>A session\<close>

text \<open>The lines a client may send: not empty, shorter than the buffers, without a zero, and not \<open>:q\<close>.\<close>

definition plain_line :: "byte list \<Rightarrow> bool" where
  "plain_line l \<longleftrightarrow> l \<noteq> [] \<and> length l < BUFFER_SIZE \<and> 0 \<notin> set l \<and> l \<noteq> quit_msg"

definition received_msgs :: "(actor \<times> event) list \<Rightarrow> byte list list" where
  "received_msgs es = concat (map (\<lambda>(a, ev). case ev of Recv_msg m \<Rightarrow> [m] | _ \<Rightarrow> []) es)"

lemma c_string_plain: "0 \<notin> set l \<Longrightarrow> c_string l = l"
  by (auto simp: c_string_def takeWhile_eq_all_conv)

lemma encrypt_plain: "length (encrypt l) = length l" "0 \<notin> set l \<Longrightarrow> c_string (encrypt l) = encrypt l"
  by (simp add: encrypt_def, simp add: c_string_encrypt c_string_plain)

lemma received_msgs_append: "received_msgs (es @ fs) = received_msgs es @ received_msgs fs"
  by (simp add: received_msgs_def)

lemma received_msgs_serve: "received_msgs (serve_moves t m n) = [m]" "received_msgs (replicate n (Thread t, Tau)) = []"
  "received_msgs ((Thread t, Recv_msg m) # es) = m # received_msgs es"
proof -
  show "received_msgs (replicate n (Thread t, Tau)) = []" for n by (induction n) (simp_all add: received_msgs_def)
  then show "received_msgs (serve_moves t m n) = [m]" by (simp add: received_msgs_def serve_moves_def)
qed (simp add: received_msgs_def)

lemma serve_lines:
  assumes "server_inv s" "at_recv t s" "served t s" "\<forall>l \<in> set ls. plain_line l"
  shows "\<exists>es s'. run_schedule es s = Some s' \<and> received_msgs es = ls \<and> at_recv t s' \<and> server_inv s'
    \<and> sent s' = sent s @ map (\<lambda>l. (newsockfd (threads s ! t), encrypt l)) ls"
  using assms
proof (induction ls arbitrary: s)
  case Nil
  then show ?case by (intro exI [of _ "[]"] exI [of _ s]) (simp add: received_msgs_def)
next
  case (Cons l ls)
  then have l: "length l < BUFFER_SIZE" "c_string l \<noteq> quit_msg" "0 \<notin> set l" by (auto simp: plain_line_def c_string_plain)
  from serve_message [OF Cons.prems(1,2) l(1,2)] Cons.prems(3) obtain n s1 where s1:
    "run_schedule (serve_moves t l n) s = Some s1" "at_recv t s1"
    "sent s1 = sent s @ [(newsockfd (threads s ! t), encrypt l)]"
    "newsockfd (threads s1 ! t) = newsockfd (threads s ! t)" "places s1 = insert t (places s)"
    using l(3) by (auto simp: encrypt_plain)
  have "server_inv s1" using steps_inv [OF run_schedule_reachable [OF s1(1)] Cons.prems(1)] by simp
  moreover have "served t s1" by (simp add: served_def s1(5))
  ultimately obtain es s' where es: "run_schedule es s1 = Some s'" "received_msgs es = ls" "at_recv t s'" "server_inv s'"
      "sent s' = sent s1 @ map (\<lambda>l. (newsockfd (threads s ! t), encrypt l)) ls"
    using Cons.IH [of s1] s1(2,4) Cons.prems(4) by auto
  then show ?case
    using s1 by (intro exI [of _ "serve_moves t l n @ es"] exI [of _ s'])
      (simp add: run_schedule_append received_msgs_append received_msgs_serve)
qed

lemma client_plain:
  "\<forall>l \<in> set ls. plain_line l \<Longrightarrow>
   client_loop (ls @ quit_msg # rest) (map (\<lambda>l. (True, Some (encrypt l))) ls @ (True, b) # net) out printed
     = (Quit, out @ ls @ [quit_msg], printed @ map encrypt ls)"
  by (induction ls arbitrary: out printed)
    (auto simp: plain_line_def c_string_plain c_string_quit encrypt_plain not_le Let_def)

text \<open>
  A session, client and server together. In every reachable state in which a thread waits for a
  message, nobody holds the mutex, and the thread has a place or one is free, there is a run of the
  server in which the thread receives exactly what the client sends for some lines followed by
  \<open>:q\<close>, answers each line with its encryption, and ends, its place given back; and the client, given
  these answers, sends just that, prints the encrypted lines, and quits.
\<close>

theorem session_served:
  assumes "server_step\<^sup>*\<^sup>* server_init s" "at_recv t s" "t \<in> places s \<or> card (places s) < 2"
    and "\<forall>l \<in> set ls. plain_line l"
  shows "\<exists>es s' answers. run_schedule es s = Some s'
    \<and> sent s' = sent s @ map (\<lambda>m. (newsockfd (threads s ! t), m)) answers
    \<and> pc (threads s' ! t) = Done \<and> t \<notin> places s' \<and> mutex s' = None
    \<and> client_loop (ls @ [quit_msg]) (map (\<lambda>m. (True, Some m)) answers @ [(True, None)]) [] []
        = (Quit, received_msgs es, map encrypt ls)"
proof -
  from serve_lines [OF reachable_inv [OF assms(1)] assms(2) _ assms(4)] assms(3) obtain es s1 where es:
    "run_schedule es s = Some s1" "received_msgs es = ls" "at_recv t s1" "server_inv s1"
    "sent s1 = sent s @ map (\<lambda>l. (newsockfd (threads s ! t), encrypt l)) ls"
    by (auto simp: served_def)
  from serve_quit [OF es(4,3)] obtain n s' where s': "run_schedule ((Thread t, Recv_msg quit_msg) # replicate n (Thread t, Tau)) s1 = Some s'"
    "pc (threads s' ! t) = Done" "sent s' = sent s1" "places s' = places s1 - {t}" "mutex s' = None" by blast
  let ?es = "es @ (Thread t, Recv_msg quit_msg) # replicate n (Thread t, Tau)"
  have "run_schedule ?es s = Some s'" using es(1) s'(1) by (simp add: run_schedule_append)
  moreover have "received_msgs ?es = ls @ [quit_msg]"
    by (simp only: received_msgs_append received_msgs_serve es(2))
  ultimately show ?thesis
    using s' es(5) client_plain [OF assms(4), of "[]" None "[]" "[]" "[]"]
    by (intro exI [of _ ?es] exI [of _ s'] exI [of _ "map encrypt ls"]) (simp add: comp_def)
qed

section \<open>What goes wrong\<close>

text \<open>A thread between receiving and answering, or waiting for a message.\<close>

fun serving :: "pc \<Rightarrow> bool" where
  "serving Recv = True" | "serving Lock = True" | "serving Test = True" | "serving Grant_load = True"
| "serving (Grant_store r) = True" | "serving Unlock = True" | "serving Reply = True"
| "serving l = False"

lemma eof_step:
  assumes "t < length (threads s)" "serving (pc (threads s ! t))" "\<not> block (threads s ! t)"
    and "actor_step a ev s = Some s'" "a = Thread t \<Longrightarrow> ev = Tau \<or> ev = Send_ok \<or> ev = Recv_msg []"
  shows "t < length (threads s') \<and> serving (pc (threads s' ! t)) \<and> \<not> block (threads s' ! t)"
proof (cases a)
  case Main
  then have "threads s' = threads s \<or> threads s' = threads s @ [thread_init]"
    using assms(4) by (auto simp: actor_step_def main_step_def split: if_splits main_pc.splits event.splits)
  then show ?thesis using assms(1-3) by (auto simp: nth_append)
next
  case (Thread u)
  then have st: "thread_step u ev s = Some s'" "u < length (threads s)"
    using assms(4) by (auto simp: actor_step_def split: if_splits)
  show ?thesis
  proof (cases "u = t")
    case True
    have "c_string [] \<noteq> quit_msg" by (simp add: c_string_def quit_msg_def)
    with True st assms(1-3,5) Thread show ?thesis
      by (cases "pc (threads s ! t)")
        (auto simp: thread_step_def goto_def Let_def received_def BUFFER_SIZE_def split: if_splits)
  next
    case False
    then have "threads s' ! t = threads s ! t" "length (threads s') = length (threads s)"
      using st by (auto simp: thread_step_def goto_def Let_def split: pc.splits event.splits if_splits)
    then show ?thesis using assms(1-3) by simp
  qed
qed

text \<open>
  A client that goes away without \<open>:q\<close> keeps its place for ever. Once its connection is closed,
  every \<open>recv\<close> returns 0, which the server takes for an empty message: however long the server runs,
  the thread of a served client never ends and never gives its place back, unless a \<open>send\<close> fails.
\<close>

theorem vanished_client_keeps_place:
  assumes "t \<in> places s" "serving (pc (threads s ! t))" "run_schedule es s = Some s'"
    and "\<forall>ev. (Thread t, ev) \<in> set es \<longrightarrow> ev = Tau \<or> ev = Send_ok \<or> ev = Recv_msg []"
  shows "t \<in> places s' \<and> serving (pc (threads s' ! t))"
proof -
  have "t < length (threads s') \<and> serving (pc (threads s' ! t)) \<and> \<not> block (threads s' ! t)"
    if "t < length (threads s)" "\<not> block (threads s ! t)"
    using that assms(2-4)
  proof (induction es s rule: run_schedule.induct)
    case (2 a ev es s)
    from 2(5) obtain s1 where s1: "actor_step a ev s = Some s1" "run_schedule es s1 = Some s'"
      by (auto split: option.splits)
    have "t < length (threads s1) \<and> serving (pc (threads s1 ! t)) \<and> \<not> block (threads s1 ! t)"
      using eof_step [OF 2(2,4,3) s1(1)] 2(6) by auto
    then show ?case using 2(1) [OF s1(1)] s1(2) 2(6) by auto
  qed auto
  moreover have "t < length (threads s)" "\<not> block (threads s ! t)"
    using assms(1) by (simp_all add: places_def counted_def)
  ultimately show ?thesis by (cases "pc (threads s' ! t)") (auto simp: places_def counted_def)
qed

text \<open>The connections that \<open>main\<close> accepts in a run.\<close>

definition accepted :: "(actor \<times> event) list \<Rightarrow> int list" where
  "accepted es = concat (map (\<lambda>(a, ev). case ev of Accept_fd fd \<Rightarrow> [fd] | _ \<Rightarrow> []) es)"

text \<open>
  Two races between \<open>main\<close> and the threads. A thread reads the number of its connection from the
  variable into which \<open>main\<close> accepts the next: two clients can connect, and both threads serve the
  second one, nobody the first. And \<open>main\<close> counts a connection without taking the mutex: its
  increment can be lost, so that \<open>num_thread\<close> is 0 while a thread is serving.
\<close>

theorem connection_races:
  "(\<exists>es s. run_schedule es server_init = Some s \<and> accepted es = [4, 5]
      \<and> map newsockfd (threads s) = [5, 5] \<and> map pc (threads s) = [Recv, Recv])
   \<and> (\<exists>es s. run_schedule es server_init = Some s \<and> accepted es = [4, 5]
      \<and> num_thread s = 0 \<and> map pc (threads s) = [Done, Recv] \<and> mutex s = None)"
proof -
  let ?two = "[(Main, Accept_fd 4), (Main, Tau), (Main, Tau), (Main, Create_rc 0), (Main, Accept_fd 5),
    (Thread 0, Tau), (Main, Tau), (Main, Tau), (Main, Create_rc 0), (Thread 1, Tau)]"
  let ?lost = "[(Main, Accept_fd 4), (Main, Tau), (Main, Tau), (Main, Create_rc 0), (Thread 0, Tau),
    (Thread 0, Recv_msg quit_msg), (Thread 0, Tau), (Thread 0, Tau), (Main, Accept_fd 5), (Main, Tau),
    (Thread 0, Tau), (Main, Tau), (Main, Create_rc 0), (Thread 0, Tau), (Thread 0, Tau), (Thread 0, Tau),
    (Thread 1, Tau)]"
  note run = server_init_def thread_init_def actor_step_def main_step_def thread_step_def goto_def Let_def
    received_def c_string_quit
  have "accepted ?two = [4, 5]" "accepted ?lost = [4, 5]" by (simp_all add: accepted_def)
  moreover have "\<exists>s. run_schedule ?two server_init = Some s \<and> map newsockfd (threads s) = [5, 5] \<and> map pc (threads s) = [Recv, Recv]"
    by (simp add: run)
  moreover have "\<exists>s. run_schedule ?lost server_init = Some s \<and> num_thread s = 0 \<and> map pc (threads s) = [Done, Recv] \<and> mutex s = None"
    by (simp add: run)
  ultimately show ?thesis by (intro conjI exI [of _ ?two] exI [of _ ?lost]) simp_all
qed

section \<open>An example\<close>

text \<open>One client is connected and its thread waits for a message; then it is served.\<close>

definition es_ex :: "(actor \<times> event) list" where
  "es_ex = [(Main, Accept_fd 4), (Main, Tau), (Main, Tau), (Main, Create_rc 0), (Thread 0, Tau)]"

definition s_ex :: server_state where
  "s_ex = the (run_schedule es_ex server_init)"

lemma s_ex_reachable: "server_step\<^sup>*\<^sup>* server_init s_ex"
  by (rule run_schedule_reachable [of es_ex])
    (simp add: s_ex_def es_ex_def server_init_def thread_init_def actor_step_def main_step_def thread_step_def Let_def)

lemma s_ex: "at_recv 0 s_ex" "places s_ex = {}" "sent s_ex = []" "threads s_ex = [thread_init\<lparr>newsockfd := 4, pc := Recv\<rparr>]"
  by (simp_all add: s_ex_def es_ex_def server_init_def thread_init_def actor_step_def main_step_def
      thread_step_def Let_def at_recv_def places_def counted_def) auto

theorem message_answered_witness:
  "\<exists>n s'. run_schedule ((Thread 0, Recv_msg [97, 90]) # replicate n (Thread 0, Tau) @ [(Thread 0, Send_ok)]) s_ex = Some s'
     \<and> sent s' = [(4, [100, 67])] \<and> places s' = {0}"
proof -
  have "c_string [97, 90] \<noteq> quit_msg" "c_string (encrypt [97, 90]) = [100, 67]"
    by (simp_all add: c_string_def quit_msg_def encrypt_def encrypt_char_def byte_of_def)
  with message_answered [OF s_ex_reachable s_ex(1), of "[97, 90]"] show ?thesis
    by (auto simp: s_ex BUFFER_SIZE_def)
qed

theorem session_served_witness:
  "\<exists>es s' answers. run_schedule es s_ex = Some s' \<and> sent s' = map (\<lambda>m. (4, m)) answers
     \<and> pc (threads s' ! 0) = Done
     \<and> client_loop ([[97, 90]] @ [quit_msg]) (map (\<lambda>m. (True, Some m)) answers @ [(True, None)]) [] []
         = (Quit, received_msgs es, [[100, 67]])"
proof -
  have "plain_line [97, 90]" "encrypt [97, 90] = [100, 67]"
    by (simp_all add: plain_line_def quit_msg_def encrypt_def encrypt_char_def byte_of_def BUFFER_SIZE_def)
  with session_served [OF s_ex_reachable s_ex(1), of "[[97, 90]]"] show ?thesis by (auto simp: s_ex)
qed

text \<open>The thread of the example with a place.\<close>

definition s_served :: server_state where
  "s_served = the (run_schedule (serve_moves 0 [97] 5) s_ex)"

lemma s_served_run: "run_schedule (serve_moves 0 [97] 5) s_ex = Some s_served"
  by (simp add: s_served_def serve_moves_def s_ex_def es_ex_def server_init_def thread_init_def actor_step_def
      main_step_def thread_step_def goto_def Let_def received_def BUFFER_SIZE_def c_string_def quit_msg_def
      NUM_THREADS_AVAL_def eval_nat_numeral)

lemma s_served: "places s_served = {0}" "pc (threads s_served ! 0) = Recv" "length (threads s_served) = 1"
    "mutex s_served = None" "main_pc s_served = Accept" "num_working_thread s_served = 1"
  by (simp_all add: s_served_def serve_moves_def s_ex_def es_ex_def server_init_def thread_init_def actor_step_def
      main_step_def thread_step_def goto_def Let_def received_def BUFFER_SIZE_def c_string_def quit_msg_def
      NUM_THREADS_AVAL_def eval_nat_numeral places_def counted_def) auto

lemma s_served_reachable: "server_step\<^sup>*\<^sup>* server_init s_served"
  using s_ex_reachable run_schedule_reachable [OF s_served_run] by (rule rtranclp_trans)

theorem vanished_client_keeps_place_witness:
  "\<exists>s'. run_schedule [(Thread 0, Recv_msg []), (Thread 0, Tau), (Thread 0, Tau)] s_served = Some s' \<and> 0 \<in> places s'"
proof -
  obtain s' where s': "run_schedule [(Thread 0, Recv_msg []), (Thread 0, Tau), (Thread 0, Tau)] s_served = Some s'"
    using s_served(2-5)
    by (simp add: actor_step_def thread_step_def goto_def Let_def received_def BUFFER_SIZE_def c_string_def quit_msg_def)
  from vanished_client_keeps_place [OF _ _ s'] have "0 \<in> places s'" by (simp add: s_served)
  with s' show ?thesis by blast
qed

theorem server_refines_places_witness: "place_step\<^sup>*\<^sup>* {} {0} \<and> place_step {0} {0}"
proof -
  have "server_step s_served (s_served\<lparr>connectfd := 9, main_pc := Inc_load\<rparr>)"
    by (rule server_step.step [where a = Main and ev = "Accept_fd 9"]) (simp add: actor_step_def main_step_def s_served)
  from server_refines_places [OF s_served_reachable this] show ?thesis by (simp add: s_served)
qed

theorem at_most_two_served_witness: "num_working_thread s_served = 1 \<and> card (places s_served) \<le> 2"
  using at_most_two_served [OF s_served_reachable] by (simp add: s_served)

theorem mutex_released_witness:
  "\<exists>n s'. n \<le> 6 \<and> run_schedule (replicate n (Thread 0, Tau))
     (the (run_schedule [(Thread 0, Recv_msg [97]), (Thread 0, Tau)] s_served)) = Some s' \<and> mutex s' = None"
proof -
  obtain s1 where s1: "run_schedule [(Thread 0, Recv_msg [97]), (Thread 0, Tau)] s_served = Some s1"
    "mutex s1 = Some 0" "main_pc s1 \<noteq> Exited"
    using s_served(2-5)
    by (simp add: actor_step_def thread_step_def goto_def Let_def received_def BUFFER_SIZE_def c_string_def quit_msg_def)
  have "server_step\<^sup>*\<^sup>* server_init s1"
    using s_served_reachable run_schedule_reachable [OF s1(1)] by (rule rtranclp_trans)
  from mutex_released [OF this s1(2,3)] s1(1) show ?thesis by simp
qed

end
