(* ===== verification/Wait_Queue.thy ===== *)
theory Wait_Queue
  imports Sched_Core
begin

text \<open>
  Wait queues and completions of \<open>core.c\<close>: the wakeup functions, \<open>complete\<close>, the family of
  \<open>wait_for_completion\<close>, and \<open>sleep_on\<close>.

  A waiting task's entry is on its stack, so it is known by its task. The waiting functions give up
  the lock of the queue in \<open>schedule_timeout\<close>, where everything else runs; they are cut there into a
  part that begins the wait and a part that resumes it. \<open>schedule_timeout\<close> is outside the repository:
  what it returns, the time left, is an argument of the resuming part.
\<close>

section \<open>Wait queues\<close>

record wait_queue_t =
  wq_private :: tid
  wq_flags :: u32

definition WQ_FLAG_EXCLUSIVE :: u32 where "WQ_FLAG_EXCLUSIVE = 1"

text \<open>\<open>DECLARE_WAITQUEUE\<close>, \<open>init_waitqueue_entry\<close>, and the insertions of \<open>linux/wait.h\<close>.\<close>

definition wait_entry :: "tid \<Rightarrow> wait_queue_t" where
  "wait_entry p = \<lparr>wq_private = p, wq_flags = 0\<rparr>"

definition add_wait_queue :: "wait_queue_t \<Rightarrow> wait_queue_t list \<Rightarrow> wait_queue_t list" where
  "add_wait_queue w q = w # q"

definition add_wait_queue_tail_exclusive :: "wait_queue_t \<Rightarrow> wait_queue_t list \<Rightarrow> wait_queue_t list" where
  "add_wait_queue_tail_exclusive w q = q @ [w\<lparr>wq_flags := wq_flags w OR WQ_FLAG_EXCLUSIVE\<rparr>]"

definition remove_wait_queue :: "tid \<Rightarrow> wait_queue_t list \<Rightarrow> wait_queue_t list" where
  "remove_wait_queue p q = filter (\<lambda>w. wq_private w \<noteq> p) q"

section \<open>Waking up\<close>

text \<open>The wake function of an entry, \<open>curr->func\<close>, is an argument; its key is always \<open>NULL\<close> here.\<close>

type_synonym 's wake_func = "wait_queue_t \<Rightarrow> u32 \<Rightarrow> u32 \<Rightarrow> 's \<Rightarrow> bool \<times> 's"

definition default_wake_function :: "'x env \<Rightarrow> 'x kernel wake_func" where
  "default_wake_function env w mode wake_flags k = try_to_wake_up env (wq_private w) mode wake_flags k"

fun wake_up_common ::
  "'s wake_func \<Rightarrow> u32 \<Rightarrow> int \<Rightarrow> u32 \<Rightarrow> wait_queue_t list \<Rightarrow> 's \<Rightarrow> 's" where
  "wake_up_common func mode nr_exclusive wake_flags [] s = s"
| "wake_up_common func mode nr_exclusive wake_flags (w # ws) s =
     (let flags = wq_flags w in
      case func w mode wake_flags s of (woken, s) \<Rightarrow>
        if woken \<and> flags AND WQ_FLAG_EXCLUSIVE \<noteq> 0 then
          if nr_exclusive - 1 = 0 then s
          else wake_up_common func mode (nr_exclusive - 1) wake_flags ws s
        else wake_up_common func mode nr_exclusive wake_flags ws s)"

definition wake_up :: "'s wake_func \<Rightarrow> u32 \<Rightarrow> int \<Rightarrow> wait_queue_t list \<Rightarrow> 's \<Rightarrow> 's" where
  "wake_up func mode nr_exclusive q s = wake_up_common func mode nr_exclusive 0 q s"

definition wake_up_locked :: "'s wake_func \<Rightarrow> u32 \<Rightarrow> int \<Rightarrow> wait_queue_t list \<Rightarrow> 's \<Rightarrow> 's" where
  "wake_up_locked func mode nr q s = wake_up_common func mode nr 0 q s"

definition wake_up_locked_key :: "'s wake_func \<Rightarrow> u32 \<Rightarrow> wait_queue_t list \<Rightarrow> 's \<Rightarrow> 's" where
  "wake_up_locked_key func mode q s = wake_up_common func mode 1 0 q s"

definition wake_up_sync_key ::
  "'s wake_func \<Rightarrow> u32 \<Rightarrow> int \<Rightarrow> wait_queue_t list option \<Rightarrow> 's \<Rightarrow> 's" where
  "wake_up_sync_key func mode nr_exclusive q s =
     (case q of
        None \<Rightarrow> s
      | Some q \<Rightarrow>
          let wake_flags = (if nr_exclusive = 0 then 0 else WF_SYNC)
          in wake_up_common func mode nr_exclusive wake_flags q s)"

definition wake_up_sync :: "'s wake_func \<Rightarrow> u32 \<Rightarrow> int \<Rightarrow> wait_queue_t list option \<Rightarrow> 's \<Rightarrow> 's" where
  "wake_up_sync func mode nr_exclusive q s = wake_up_sync_key func mode nr_exclusive q s"

section \<open>Completions\<close>

record completion =
  completed :: u32
  wait :: "wait_queue_t list"

text \<open>An operation on a completion works on it and on the kernel.\<close>

definition complete :: "'x env \<Rightarrow> completion \<times> 'x kernel \<Rightarrow> completion \<times> 'x kernel" where
  "complete env s =
     (case s of (x, k) \<Rightarrow>
        let x = x\<lparr>completed := completed x + 1\<rparr>
        in (x, wake_up_common (default_wake_function env) TASK_NORMAL 1 0 (wait x) k))"

text \<open>\<open>UINT_MAX/2\<close>\<close>

definition complete_all :: "'x env \<Rightarrow> completion \<times> 'x kernel \<Rightarrow> completion \<times> 'x kernel" where
  "complete_all env s =
     (case s of (x, k) \<Rightarrow>
        let x = x\<lparr>completed := completed x + 2147483647\<rparr>
        in (x, wake_up_common (default_wake_function env) TASK_NORMAL 0 0 (wait x) k))"

definition try_wait_for_completion :: "completion \<Rightarrow> bool \<times> completion" where
  "try_wait_for_completion x = (if completed x = 0 then (False, x) else (True, x\<lparr>completed := completed x - 1\<rparr>))"

definition completion_done :: "completion \<Rightarrow> bool" where
  "completion_done x \<longleftrightarrow> completed x \<noteq> 0"

subsection \<open>Waiting\<close>

text \<open>\<open>Sleeping t\<close>: in \<open>schedule_timeout(t)\<close>; \<open>Returned r\<close>: the wait is over, with this result.\<close>

datatype wait_outcome = Sleeping int | Returned int

text \<open>The end of \<open>do_wait_for_common\<close> when there is something to take: \<open>return timeout ?: 1\<close>.\<close>

definition take_done :: "int \<Rightarrow> completion \<Rightarrow> wait_outcome \<times> completion" where
  "take_done timeout x = (Returned (if timeout \<noteq> 0 then timeout else 1), x\<lparr>completed := completed x - 1\<rparr>)"

text \<open>After the loop: off the queue, then take, or return what is left.\<close>

definition wait_finish :: "tid \<Rightarrow> int \<Rightarrow> completion \<Rightarrow> wait_outcome \<times> completion" where
  "wait_finish p timeout x =
     (let x = x\<lparr>wait := remove_wait_queue p (wait x)\<rparr> in
      if completed x = 0 then (Returned timeout, x) else take_done timeout x)"

text \<open>The body of the loop up to \<open>schedule_timeout\<close>.\<close>

definition wait_turn ::
  "tid \<Rightarrow> int \<Rightarrow> u32 \<Rightarrow> completion \<times> 'x kernel \<Rightarrow> wait_outcome \<times> completion \<times> 'x kernel" where
  "wait_turn p timeout st s =
     (case s of (x, k) \<Rightarrow>
        if signal_pending_state st p k then
          (case wait_finish p (- ERESTARTSYS) x of (r, x) \<Rightarrow> (r, x, k))
        else (Sleeping timeout, x, upd_task p (\<lambda>t. t\<lparr>state := st\<rparr>) k))"

definition wait_begin ::
  "tid \<Rightarrow> int \<Rightarrow> u32 \<Rightarrow> completion \<times> 'x kernel \<Rightarrow> wait_outcome \<times> completion \<times> 'x kernel" where
  "wait_begin p timeout st s =
     (case s of (x, k) \<Rightarrow>
        if completed x = 0 then
          wait_turn p timeout st (x\<lparr>wait := add_wait_queue_tail_exclusive (wait_entry p) (wait x)\<rparr>, k)
        else (case take_done timeout x of (r, x) \<Rightarrow> (r, x, k)))"

text \<open>Back from \<open>schedule_timeout\<close>, with \<open>timeout\<close> left.\<close>

definition wait_resume ::
  "tid \<Rightarrow> int \<Rightarrow> u32 \<Rightarrow> completion \<times> 'x kernel \<Rightarrow> wait_outcome \<times> completion \<times> 'x kernel" where
  "wait_resume p timeout st s =
     (case s of (x, k) \<Rightarrow>
        if completed x = 0 \<and> timeout \<noteq> 0 then wait_turn p timeout st s
        else (case wait_finish p timeout x of (r, x) \<Rightarrow> (r, x, k)))"

text \<open>
  The calls: how long and in which state they wait, and what they make of the result. \<open>long\<close> is
  32 bits wide.
\<close>

record wait_call =
  wc_timeout :: int
  wc_state :: u32
  wc_result :: "int \<Rightarrow> int"

definition MAX_SCHEDULE_TIMEOUT :: int where "MAX_SCHEDULE_TIMEOUT = 2147483647"

definition wait_for_completion :: wait_call where
  "wait_for_completion =
     \<lparr>wc_timeout = MAX_SCHEDULE_TIMEOUT, wc_state = TASK_UNINTERRUPTIBLE, wc_result = (\<lambda>t. 0)\<rparr>"

definition wait_for_completion_timeout :: "u32 \<Rightarrow> wait_call" where
  "wait_for_completion_timeout timeout =
     \<lparr>wc_timeout = sint timeout, wc_state = TASK_UNINTERRUPTIBLE, wc_result = (\<lambda>t. t)\<rparr>"

definition wait_for_completion_interruptible :: wait_call where
  "wait_for_completion_interruptible =
     \<lparr>wc_timeout = MAX_SCHEDULE_TIMEOUT, wc_state = TASK_INTERRUPTIBLE,
      wc_result = (\<lambda>t. if t = - ERESTARTSYS then t else 0)\<rparr>"

definition wait_for_completion_interruptible_timeout :: "u32 \<Rightarrow> wait_call" where
  "wait_for_completion_interruptible_timeout timeout =
     \<lparr>wc_timeout = sint timeout, wc_state = TASK_INTERRUPTIBLE, wc_result = (\<lambda>t. t)\<rparr>"

definition wait_for_completion_killable :: wait_call where
  "wait_for_completion_killable =
     \<lparr>wc_timeout = MAX_SCHEDULE_TIMEOUT, wc_state = TASK_KILLABLE,
      wc_result = (\<lambda>t. if t = - ERESTARTSYS then t else 0)\<rparr>"

definition wait_for_completion_killable_timeout :: "u32 \<Rightarrow> wait_call" where
  "wait_for_completion_killable_timeout timeout =
     \<lparr>wc_timeout = sint timeout, wc_state = TASK_KILLABLE, wc_result = (\<lambda>t. t)\<rparr>"

section \<open>Sleeping on a queue\<close>

definition sleep_on_begin ::
  "tid \<Rightarrow> u32 \<Rightarrow> int \<Rightarrow> wait_queue_t list \<times> 'x kernel \<Rightarrow> wait_outcome \<times> wait_queue_t list \<times> 'x kernel" where
  "sleep_on_begin p st timeout s =
     (case s of (q, k) \<Rightarrow>
        let k = upd_task p (\<lambda>t. t\<lparr>state := st\<rparr>) k
        in (Sleeping timeout, add_wait_queue (wait_entry p) q, k))"

definition sleep_on_resume :: "tid \<Rightarrow> int \<Rightarrow> wait_queue_t list \<Rightarrow> wait_outcome \<times> wait_queue_t list" where
  "sleep_on_resume p timeout q = (Returned timeout, remove_wait_queue p q)"

definition interruptible_sleep_on :: wait_call where
  "interruptible_sleep_on =
     \<lparr>wc_timeout = MAX_SCHEDULE_TIMEOUT, wc_state = TASK_INTERRUPTIBLE, wc_result = (\<lambda>t. 0)\<rparr>"

definition interruptible_sleep_on_timeout :: "int \<Rightarrow> wait_call" where
  "interruptible_sleep_on_timeout timeout =
     \<lparr>wc_timeout = timeout, wc_state = TASK_INTERRUPTIBLE, wc_result = (\<lambda>t. t)\<rparr>"

definition sleep_on :: wait_call where
  "sleep_on =
     \<lparr>wc_timeout = MAX_SCHEDULE_TIMEOUT, wc_state = TASK_UNINTERRUPTIBLE, wc_result = (\<lambda>t. 0)\<rparr>"

definition sleep_on_timeout :: "int \<Rightarrow> wait_call" where
  "sleep_on_timeout timeout =
     \<lparr>wc_timeout = timeout, wc_state = TASK_UNINTERRUPTIBLE, wc_result = (\<lambda>t. t)\<rparr>"

end
