(* ===== verification/Wait_Props.thy ===== *)
theory Wait_Props
  imports Wait_Queue Example_State
begin

text \<open>
  Wait queues and completions: whom a wakeup reaches, and that a completion is a counter of signals
  of which none is lost and none is used twice, with its waiters queued in the order of their
  arrival.
\<close>

section \<open>Whom a wakeup reaches\<close>

text \<open>Calling the wake function on every entry of a list, with what it returns.\<close>

fun call_all :: "'s wake_func \<Rightarrow> u32 \<Rightarrow> u32 \<Rightarrow> wait_queue_t list \<Rightarrow> 's \<Rightarrow> bool list \<times> 's" where
  "call_all func mode fl [] s = ([], s)"
| "call_all func mode fl (w # ws) s =
     (case func w mode fl s of (b, s) \<Rightarrow> case call_all func mode fl ws s of (bs, s) \<Rightarrow> (b # bs, s))"

abbreviation exclusive :: "wait_queue_t \<Rightarrow> bool" where
  "exclusive w \<equiv> wq_flags w AND WQ_FLAG_EXCLUSIVE \<noteq> 0"

text \<open>How many exclusive entries were woken.\<close>

definition woken_exclusive :: "wait_queue_t list \<Rightarrow> bool list \<Rightarrow> nat" where
  "woken_exclusive ws bs = length (filter (\<lambda>(w, b). exclusive w \<and> b) (zip ws bs))"

lemma woken_exclusive_Cons:
  "woken_exclusive (w # ws) (b # bs) = (if exclusive w \<and> b then Suc (woken_exclusive ws bs) else woken_exclusive ws bs)"
  by (simp add: woken_exclusive_def)

lemma call_all_length: "length (fst (call_all func mode fl ws s)) = length ws"
  by (induction ws arbitrary: s) (simp_all split: prod.splits, metis fst_conv)

lemma wake_all: "nr \<le> 0 \<Longrightarrow> wake_up_common func mode nr fl q s = snd (call_all func mode fl q s)"
  by (induction func mode nr fl q s rule: wake_up_common.induct) (auto split: prod.splits)

lemma wake_some:
  "0 < nr \<Longrightarrow> \<exists>n \<le> length q. wake_up_common func mode nr fl q s = snd (call_all func mode fl (take n q) s)
    \<and> int (woken_exclusive (take n q) (fst (call_all func mode fl (take n q) s))) \<le> nr
    \<and> (n < length q \<longrightarrow> int (woken_exclusive (take n q) (fst (call_all func mode fl (take n q) s))) = nr)"
proof (induction q arbitrary: nr s)
  case Nil
  then show ?case by (simp add: woken_exclusive_def)
next
  case (Cons w ws)
  obtain b s1 where f: "func w mode fl s = (b, s1)" by (cases "func w mode fl s")
  have step: "call_all func mode fl (take (Suc n) (w # ws)) s
      = (b # fst (call_all func mode fl (take n ws) s1), snd (call_all func mode fl (take n ws) s1))" for n
    by (simp add: f split: prod.splits)
  show ?case
  proof (cases "b \<and> exclusive w \<and> nr = 1")
    case True
    then show ?thesis using f
      by (intro exI [of _ 1]) (simp add: woken_exclusive_def)
  next
    case False
    define m where "m = (if b \<and> exclusive w then nr - 1 else nr)"
    have "wake_up_common func mode nr fl (w # ws) s = wake_up_common func mode m fl ws s1"
      using False f by (auto simp: Let_def m_def)
    moreover have "0 < m" using False Cons.prems by (auto simp: m_def)
    from Cons.IH [OF this, of s1] obtain n where "n \<le> length ws" "wake_up_common func mode m fl ws s1 = snd (call_all func mode fl (take n ws) s1)"
      "int (woken_exclusive (take n ws) (fst (call_all func mode fl (take n ws) s1))) \<le> m"
      "n < length ws \<longrightarrow> int (woken_exclusive (take n ws) (fst (call_all func mode fl (take n ws) s1))) = m"
      by blast
    ultimately show ?thesis
      by (intro exI [of _ "Suc n"] conjI, unfold step) (auto simp: woken_exclusive_Cons m_def split: if_splits)
  qed
qed

text \<open>
  A wakeup calls the wake function on the entries from the head of the queue on, each once: on
  all of them, or up to the one with which the given number of exclusive entries have been woken, and
  no further. Entries that are not exclusive, or could not be woken, do not count; with the number 0
  all entries are called.
\<close>

theorem wake_up_prefix:
  assumes "0 \<le> nr"
  shows "\<exists>n \<le> length q. wake_up_common func mode nr fl q s = snd (call_all func mode fl (take n q) s)
    \<and> (if n < length q then 0 < nr \<and> int (woken_exclusive (take n q) (fst (call_all func mode fl (take n q) s))) = nr
       else nr = 0 \<or> int (woken_exclusive q (fst (call_all func mode fl q s))) \<le> nr)"
  using assms
proof (cases "nr = 0")
  case True
  then show ?thesis by (intro exI [of _ "length q"]) (simp add: wake_all)
next
  case False
  then obtain n where "n \<le> length q" "wake_up_common func mode nr fl q s = snd (call_all func mode fl (take n q) s)"
    "int (woken_exclusive (take n q) (fst (call_all func mode fl (take n q) s))) \<le> nr"
    "n < length q \<longrightarrow> int (woken_exclusive (take n q) (fst (call_all func mode fl (take n q) s))) = nr"
    using wake_some [of nr] assms by (metis less_le)
  then show ?thesis using False assms by (intro exI [of _ n]) auto
qed

section \<open>Runs of a completion\<close>

text \<open>
  What can happen to a completion: it is signalled, a task tries it, begins to wait or comes back from
  \<open>schedule_timeout\<close>; and at any time the rest of the kernel does something else.
\<close>

datatype compl_event =
    Complete | Complete_all | Try bool | Begin tid wait_outcome | Resume tid wait_outcome | Other

inductive compl_step ::
  "'x env \<Rightarrow> completion \<times> 'x kernel \<Rightarrow> compl_event \<Rightarrow> completion \<times> 'x kernel \<Rightarrow> bool" for env where
  complete: "compl_step env s Complete (complete env s)"
| complete_all: "compl_step env s Complete_all (complete_all env s)"
| try_wait: "try_wait_for_completion x = (b, x') \<Longrightarrow> compl_step env (x, k) (Try b) (x', k)"
| start: "\<lbrakk>p \<notin> wq_private ` set (wait (fst s)); 0 \<le> timeout; wait_begin p timeout st s = (r, s')\<rbrakk>
    \<Longrightarrow> compl_step env s (Begin p r) s'"
| resume: "\<lbrakk>p \<in> wq_private ` set (wait (fst s)); 0 \<le> timeout; wait_resume p timeout st s = (r, s')\<rbrakk>
    \<Longrightarrow> compl_step env s (Resume p r) s'"
| other: "compl_step env (x, k) Other (x, k')"

inductive compl_run ::
  "'x env \<Rightarrow> completion \<times> 'x kernel \<Rightarrow> compl_event list \<Rightarrow> completion \<times> 'x kernel \<Rightarrow> bool" for env where
  nil: "compl_run env s [] s"
| snoc: "\<lbrakk>compl_run env s es s'; compl_step env s' e s''\<rbrakk> \<Longrightarrow> compl_run env s (es @ [e]) s''"

text \<open>The signals given, the signals taken, and the tasks that wait, in the order in which they came.\<close>

fun signals :: "compl_event \<Rightarrow> nat" where
  "signals Complete = 1" | "signals Complete_all = 2147483647" | "signals e = 0"

fun taken :: "compl_event \<Rightarrow> nat" where
  "taken (Try True) = 1"
| "taken (Begin p (Returned r)) = (if 0 < r then 1 else 0)"
| "taken (Resume p (Returned r)) = (if 0 < r then 1 else 0)"
| "taken e = 0"

fun now_waiting :: "compl_event \<Rightarrow> tid list \<Rightarrow> tid list" where
  "now_waiting (Begin p (Sleeping t)) ps = ps @ [p]"
| "now_waiting (Resume p (Returned r)) ps = remove1 p ps"
| "now_waiting e ps = ps"

definition waiters :: "completion \<Rightarrow> tid list" where
  "waiters x = map wq_private (wait x)"

text \<open>A completion as the functions leave it: every waiter once, and exclusive.\<close>

definition compl_ok :: "completion \<Rightarrow> bool" where
  "compl_ok x \<longleftrightarrow> distinct (waiters x) \<and> (\<forall>w \<in> set (wait x). exclusive w)"

lemma waiters_remove:
  "distinct (waiters x) \<Longrightarrow> waiters (x\<lparr>wait := remove_wait_queue p (wait x)\<rparr>) = remove1 p (waiters x)"
  by (simp add: waiters_def remove_wait_queue_def distinct_remove1_removeAll removeAll_filter_not_eq filter_map comp_def
      eq_commute)

lemma waiters_upd [simp]: "waiters (x\<lparr>completed := n\<rparr>) = waiters x"
  by (simp add: waiters_def)

lemma compl_ok_upd [simp]: "compl_ok (x\<lparr>completed := n\<rparr>) = compl_ok x"
  by (simp add: compl_ok_def waiters_def)

lemma compl_ok_remove: "compl_ok x \<Longrightarrow> compl_ok (x\<lparr>wait := remove_wait_queue p (wait x)\<rparr>)"
  by (auto simp: compl_ok_def waiters_remove) (auto simp: remove_wait_queue_def)

lemma compl_ok_add:
  "\<lbrakk>compl_ok x; p \<notin> wq_private ` set (wait x)\<rbrakk>
   \<Longrightarrow> compl_ok (x\<lparr>wait := add_wait_queue_tail_exclusive (wait_entry p) (wait x)\<rparr>)
     \<and> waiters (x\<lparr>wait := add_wait_queue_tail_exclusive (wait_entry p) (wait x)\<rparr>) = waiters x @ [p]"
  by (simp add: compl_ok_def waiters_def add_wait_queue_tail_exclusive_def wait_entry_def WQ_FLAG_EXCLUSIVE_def)

lemma finish_effect:
  assumes "compl_ok x" "wait_finish p timeout x = (r, x')" "if completed x = 0 then timeout \<le> 0 else 0 \<le> timeout"
  shows "compl_ok x' \<and> waiters x' = remove1 p (waiters x) \<and> (\<exists>n. r = Returned n
    \<and> (if 0 < n then completed x' = completed x - 1 \<and> completed x \<noteq> 0 else completed x' = completed x)
    \<and> (0 < n \<or> completed x = 0))"
proof -
  let ?x = "x\<lparr>wait := remove_wait_queue p (wait x)\<rparr>"
  have "compl_ok ?x" "waiters ?x = remove1 p (waiters x)"
    using compl_ok_remove [OF assms(1)] waiters_remove [of x p] assms(1) by (simp_all add: compl_ok_def)
  moreover have "(r, x') = (if completed x = 0 then (Returned timeout, ?x)
      else (Returned (if timeout \<noteq> 0 then timeout else 1), ?x\<lparr>completed := completed x - 1\<rparr>))"
    using assms(2) by (auto simp: wait_finish_def take_done_def Let_def split: if_splits)
  ultimately show ?thesis using assms(3)
    by (cases "completed x = 0"; cases "timeout = 0") auto
qed

text \<open>What each event does to the counter and to the queue.\<close>

lemma turn_effect:
  assumes "compl_ok x" "completed x = 0" "wait_turn p timeout st (x, k) = (r, x', k')"
  shows "compl_ok x' \<and> completed x' = 0
    \<and> (case r of Sleeping t \<Rightarrow> x' = x | Returned n \<Rightarrow> n \<le> 0 \<and> waiters x' = remove1 p (waiters x))"
  using assms finish_effect [OF assms(1), of p "- ERESTARTSYS"]
  by (auto simp: wait_turn_def wait_finish_def Let_def split: prod.splits if_splits)

lemma compl_event_effect:
  assumes "compl_ok (fst s)" "compl_step env s e s'"
  shows "compl_ok (fst s') \<and> waiters (fst s') = now_waiting e (waiters (fst s))
    \<and> completed (fst s') + of_nat (taken e) = completed (fst s) + of_nat (signals e)
    \<and> (taken e \<noteq> 0 \<longrightarrow> taken e = 1 \<and> completed (fst s) \<noteq> 0)"
  using assms(2)
proof cases
  case (start p timeout st r)
  obtain x k where s: "s = (x, k)" by (cases s)
  show ?thesis
  proof (cases "completed x = 0")
    case True
    let ?x = "x\<lparr>wait := add_wait_queue_tail_exclusive (wait_entry p) (wait x)\<rparr>"
    obtain x' k' where t: "wait_turn p timeout st (?x, k) = (r, x', k')" "s' = (x', k')"
      using start(4) True s by (cases s') (simp add: wait_begin_def)
    have add: "compl_ok ?x" "waiters ?x = waiters x @ [p]" using compl_ok_add [of x p] assms(1) start(2) s by simp_all
    have "p \<notin> set (waiters x)" using start(2) s by (simp add: waiters_def)
    then show ?thesis
      using turn_effect [OF add(1) _ t(1)] True add(2) start(1)
      by (cases r) (auto simp: s t(2) remove1_append)
  next
    case False
    then show ?thesis using start assms(1) s
      by (auto simp: wait_begin_def take_done_def)
  qed
next
  case (resume p timeout st r)
  obtain x k where s: "s = (x, k)" by (cases s)
  show ?thesis
  proof (cases "completed x = 0 \<and> timeout \<noteq> 0")
    case True
    then obtain x' k' where t: "wait_turn p timeout st (x, k) = (r, x', k')" "s' = (x', k')"
      using resume(4) s by (cases s') (simp add: wait_resume_def)
    then show ?thesis
      using turn_effect [OF _ _ t(1)] True assms(1) resume(1) by (cases r) (simp_all add: s)
  next
    case False
    then obtain x' where t: "wait_finish p timeout x = (r, x')" "s' = (x', k)"
      using resume(4) s by (auto simp: wait_resume_def split: prod.splits)
    then show ?thesis
      using finish_effect [OF _ t(1)] assms(1) resume(1,3) False by (auto simp: s split: if_splits)
  qed
qed (use assms(1) in \<open>auto simp: complete_def complete_all_def try_wait_for_completion_def split: prod.splits if_splits\<close>)

lemma compl_run_effect:
  assumes "compl_run env s es s'" "compl_ok (fst s)"
  shows "compl_ok (fst s') \<and> waiters (fst s') = fold now_waiting es (waiters (fst s))
    \<and> completed (fst s') + of_nat (sum_list (map taken es)) = completed (fst s) + of_nat (sum_list (map signals es))"
  using assms
proof (induction rule: compl_run.induct)
  case (snoc s es s' e s'')
  then have e: "compl_ok (fst s'')" "waiters (fst s'') = now_waiting e (waiters (fst s'))"
    "completed (fst s'') + of_nat (taken e) = completed (fst s') + of_nat (signals e)"
    using compl_event_effect by blast+
  have "completed (fst s'') + of_nat (sum_list (map taken (es @ [e])))
      = (completed (fst s') + of_nat (sum_list (map taken es))) + of_nat (signals e)"
    using e(3) by (simp add: algebra_simps)
  then show ?case using e(1,2) snoc.IH snoc.prems by (simp add: add.assoc)
qed auto

text \<open>While the counter does not overflow, it is a number.\<close>

lemma compl_run_exact:
  assumes "compl_run env s es s'" "compl_ok (fst s)"
    and "unat (completed (fst s)) + sum_list (map signals es) < 2 ^ 32"
  shows "unat (completed (fst s')) + sum_list (map taken es) = unat (completed (fst s)) + sum_list (map signals es)"
  using assms
proof (induction rule: compl_run.induct)
  case (snoc s es s' e s'')
  then have IH: "unat (completed (fst s')) + sum_list (map taken es) = unat (completed (fst s)) + sum_list (map signals es)"
    by simp
  have ok: "compl_ok (fst s')" using compl_run_effect [OF snoc.hyps(1)] snoc.prems by blast
  have e: "completed (fst s'') + of_nat (taken e) = completed (fst s') + of_nat (signals e)"
    "taken e \<noteq> 0 \<longrightarrow> taken e = 1 \<and> completed (fst s') \<noteq> 0"
    using compl_event_effect [OF ok snoc.hyps(2)] by blast+
  have "unat (completed (fst s'')) + taken e = unat (completed (fst s')) + signals e"
  proof (cases "taken e = 0")
    case True
    have "unat (completed (fst s')) + signals e < 2 ^ 32" using snoc.prems IH by simp
    then show ?thesis using e(1) True by (simp add: unat_word_ariths unat_of_nat)
  next
    case False
    then have "signals e = 0" by (cases e rule: taken.cases) simp_all
    then have "completed (fst s'') = completed (fst s') - 1" using e False by (simp add: eq_diff_eq)
    then show ?thesis using e(2) False \<open>signals e = 0\<close> by (simp add: unat_minus_one unat_gt_0 Suc_leI)
  qed
  then show ?case using IH by simp
qed auto

text \<open>
  C38. A completion counts its signals: as long as they number less than \<open>2 ^ 32\<close>, in every run of
  \<open>complete\<close>, \<open>complete_all\<close>, \<open>try_wait_for_completion\<close> and any number of waiting tasks (which may be
  woken for nothing, time out, or be interrupted at any turn), the counter plus the waits that were
  successful is the number of signals given (\<open>complete_all\<close> counting as many): none is lost, none is
  used twice, a wait that fails uses none. The queue holds the waiting tasks, each once, in the order
  in which they came.
\<close>

theorem completion_counts:
  assumes "compl_run env s es s'" "compl_ok (fst s)"
    and "unat (completed (fst s)) + sum_list (map signals es) < 2 ^ 32"
  shows "unat (completed (fst s')) + sum_list (map taken es) = unat (completed (fst s)) + sum_list (map signals es)
    \<and> waiters (fst s') = fold now_waiting es (waiters (fst s)) \<and> compl_ok (fst s')"
  using compl_run_exact [OF assms] compl_run_effect [OF assms(1,2)] by blast

lemma ttwu_result: "fst (try_to_wake_up env p st fl k) = (state (tasks k p) AND st \<noteq> 0)"
  by (simp add: try_to_wake_up_def Let_def split: prod.splits bool.splits)

text \<open>
  \<open>complete\<close> reaches the first waiter. When the task at the head of the queue sleeps, one
  \<open>complete\<close> wakes it and no other; and whenever it comes back before another task has taken the
  signal, whatever else has happened and even if its time has run out, its wait succeeds and takes
  the signal.
\<close>

theorem complete_wakes_first:
  assumes "wait x = w # ws" "compl_ok x" "completed x = 0"
    and "state (tasks k (wq_private w)) AND TASK_NORMAL \<noteq> 0" "0 \<le> timeout"
  shows "complete env (x, k) = (x\<lparr>completed := 1\<rparr>, snd (try_to_wake_up env (wq_private w) TASK_NORMAL 0 k))
    \<and> wait_resume (wq_private w) timeout st (x\<lparr>completed := 1\<rparr>, k')
      = (Returned (max 1 timeout), x\<lparr>completed := 0, wait := ws\<rparr>, k')"
proof -
  have "fst (default_wake_function env w TASK_NORMAL 0 k)" "exclusive w"
    using assms(1,2,4) by (simp_all add: default_wake_function_def ttwu_result compl_ok_def)
  then have "complete env (x, k) = (x\<lparr>completed := 1\<rparr>, snd (try_to_wake_up env (wq_private w) TASK_NORMAL 0 k))"
    using assms(1,3) by (cases "try_to_wake_up env (wq_private w) TASK_NORMAL 0 k")
      (simp add: complete_def Let_def default_wake_function_def)
  moreover have "remove_wait_queue (wq_private w) (w # ws) = ws"
    using assms(1,2) by (auto simp: remove_wait_queue_def compl_ok_def waiters_def intro!: filter_True) (metis image_eqI)
  ultimately show ?thesis
    using assms(1,5) by (auto simp: wait_resume_def wait_finish_def take_done_def max_def)
qed

text \<open>
  The counter can be overrun by ordinary use: after two \<open>complete_all\<close>, each of which is to let
  every waiter through for good, two more \<open>complete\<close> bring it to 0, and the next task waits.
\<close>

theorem complete_all_overflow:
  "completed (fst ((complete env \<circ> complete env \<circ> complete_all env \<circ> complete_all env) (x, k))) = completed x"
  by (simp add: complete_def complete_all_def split: prod.splits)

section \<open>An example\<close>

text \<open>Task 2 waits for a completion on the example machine.\<close>

definition x_ex :: completion where
  "x_ex = \<lparr>completed = 0, wait = [\<lparr>wq_private = 2, wq_flags = 1\<rparr>]\<rparr>"

definition k_wait :: "unit kernel" where
  "k_wait = k0\<lparr>tasks := (\<lambda>p. (tasks k0 p)\<lparr>state := (if p = 2 then TASK_UNINTERRUPTIBLE else 0)\<rparr>)\<rparr>"

lemma x_ex_ok: "compl_ok x_ex"
  by (simp add: compl_ok_def x_ex_def waiters_def WQ_FLAG_EXCLUSIVE_def)

definition q_ex :: "wait_queue_t list" where
  "q_ex = [\<lparr>wq_private = 1, wq_flags = 0\<rparr>, \<lparr>wq_private = 2, wq_flags = 1\<rparr>, \<lparr>wq_private = 3, wq_flags = 1\<rparr>]"

definition log_wake :: "tid list wake_func" where
  "log_wake w m f s = (True, s @ [wq_private w])"

lemma q_ex_calls:
  "call_all log_wake m f (take 0 q_ex) s = ([], s)"
  "call_all log_wake m f (take 1 q_ex) s = ([True], s @ [1])"
  "call_all log_wake m f (take 2 q_ex) s = ([True, True], s @ [1, 2])"
  "call_all log_wake m f q_ex s = ([True, True, True], s @ [1, 2, 3])"
  by (simp_all add: q_ex_def log_wake_def)

lemma q_ex_exclusive:
  "woken_exclusive (take 0 q_ex) [] = 0" "woken_exclusive (take 1 q_ex) [True] = 0"
  "woken_exclusive (take 2 q_ex) [True, True] = 1" "woken_exclusive q_ex [True, True, True] = 2"
  by (simp_all add: woken_exclusive_def q_ex_def WQ_FLAG_EXCLUSIVE_def)

theorem wake_up_prefix_witness: "wake_up_common log_wake TASK_NORMAL 1 0 q_ex [] = [1, 2]"
proof -
  obtain n where n: "n \<le> length q_ex" "wake_up_common log_wake TASK_NORMAL 1 0 q_ex [] = snd (call_all log_wake TASK_NORMAL 0 (take n q_ex) [])"
    "if n < length q_ex then 0 < (1::int) \<and> int (woken_exclusive (take n q_ex) (fst (call_all log_wake TASK_NORMAL 0 (take n q_ex) []))) = 1
     else (1::int) = 0 \<or> int (woken_exclusive q_ex (fst (call_all log_wake TASK_NORMAL 0 q_ex []))) \<le> 1"
    using wake_up_prefix [of 1 q_ex log_wake TASK_NORMAL 0 "[]"] by auto
  have len: "length q_ex = 3" by (simp add: q_ex_def)
  then consider "n = 0" | "n = 1" | "n = 2" | "n = 3" using n(1) by linarith
  then show ?thesis
    by cases (use n(2,3) in \<open>simp_all only: q_ex_calls q_ex_exclusive len fst_conv snd_conv\<close>, simp_all)
qed

theorem completion_counts_witness:
  "\<exists>s'. compl_run env0 (x_ex, k_wait) [Complete, Resume 2 (Returned 7)] s' \<and> completed (fst s') = 0 \<and> waiters (fst s') = []"
proof -
  let ?s1 = "complete env0 (x_ex, k_wait)"
  have "fst ?s1 = x_ex\<lparr>completed := 1\<rparr>" by (simp add: complete_def x_ex_def)
  then have r: "wait_resume 2 7 TASK_UNINTERRUPTIBLE ?s1 = (Returned 7, \<lparr>completed = 0, wait = []\<rparr>, snd ?s1)"
    by (cases ?s1) (simp add: wait_resume_def wait_finish_def take_done_def x_ex_def remove_wait_queue_def)
  have "compl_step env0 ?s1 (Resume 2 (Returned 7)) (\<lparr>completed = 0, wait = []\<rparr>, snd ?s1)"
    by (rule compl_step.resume [OF _ _ r]) (simp_all add: \<open>fst ?s1 = _\<close>, simp add: x_ex_def)
  then have run: "compl_run env0 (x_ex, k_wait) ([] @ [Complete] @ [Resume 2 (Returned 7)]) (\<lparr>completed = 0, wait = []\<rparr>, snd ?s1)"
    by (metis append_assoc compl_run.nil compl_run.snoc compl_step.complete)
  from completion_counts [OF run] have "unat (completed (\<lparr>completed = 0, wait = []\<rparr> :: completion)) = 0"
    "waiters \<lparr>completed = 0, wait = []\<rparr> = []"
    by (simp_all add: x_ex_ok waiters_def)
  with run show ?thesis by (intro exI [of _ "(\<lparr>completed = 0, wait = []\<rparr>, snd ?s1)"]) (simp add: waiters_def)
qed

theorem complete_wakes_first_witness:
  "complete env0 (x_ex, k_wait) = (x_ex\<lparr>completed := 1\<rparr>, snd (try_to_wake_up env0 2 TASK_NORMAL 0 k_wait))
   \<and> wait_resume 2 0 TASK_UNINTERRUPTIBLE (x_ex\<lparr>completed := 1\<rparr>, k_wait)
     = (Returned 1, x_ex\<lparr>completed := 0, wait := []\<rparr>, k_wait)"
  using complete_wakes_first [of x_ex "\<lparr>wq_private = 2, wq_flags = 1\<rparr>" "[]" k_wait 0 env0 TASK_UNINTERRUPTIBLE k_wait] x_ex_ok
  by (simp add: x_ex_def k_wait_def state_defs)

end
