(* ===== verification/Cpu_Time.thy ===== *)
theory Cpu_Time
  imports Cpuacct
begin

text \<open>
  The accounting of cpu time of \<open>core.c\<close>: what a tick is charged to (\<open>account_process_tick\<close> and the
  functions below it, with and without \<open>CONFIG_IRQ_TIME_ACCOUNTING\<close>), the times reported for a task
  and for a process (\<open>task_times\<close>, \<open>thread_group_times\<close>), and the files of the accounting groups.

  These functions read the kernel and write to fields nothing else in the development reads; they
  have a state of their own. Outside the repository, and arguments: the conversions between
  nanoseconds, jiffies and \<open>cputime_t\<close> (32 bits, jiffies), the totals of a process, and the hooks
  that update its totals.
\<close>

section \<open>State\<close>

datatype cputime_index =
    CPUTIME_USER | CPUTIME_NICE | CPUTIME_SYSTEM | CPUTIME_SOFTIRQ | CPUTIME_IRQ
  | CPUTIME_IDLE | CPUTIME_IOWAIT | CPUTIME_STEAL | CPUTIME_GUEST | CPUTIME_GUEST_NICE

record task_ctimes =
  utime :: u32
  stime :: u32
  utimescaled :: u32
  stimescaled :: u32
  gtime :: u32
  prev_utime :: u32
  prev_stime :: u32

text \<open>
  \<open>ca_cpustat\<close> is the statistics of an accounting group on a cpu; those of the root group, number 0,
  are \<open>kernel_cpustat\<close>. \<open>sig_prev_utime\<close> and \<open>sig_prev_stime\<close> belong to a process.
\<close>

record 'y cpu_times =
  ctimes :: "tid \<Rightarrow> task_ctimes"
  sig_prev_utime :: "nat \<Rightarrow> u32"
  sig_prev_stime :: "nat \<Rightarrow> u32"
  ca_cpustat :: "nat \<Rightarrow> cpu \<Rightarrow> cputime_index \<Rightarrow> u64"
  cpu_hardirq_time :: "cpu \<Rightarrow> u64"
  cpu_softirq_time :: "cpu \<Rightarrow> u64"
  irq_start_time :: "cpu \<Rightarrow> u64"
  sched_clock_irqtime :: bool
  ksoftirqd :: "cpu \<Rightarrow> tid"
  ct_ext :: 'y

record 'y ct_env =
  cputime_one_jiffy :: u32
  cputime_to_scaled :: "u32 \<Rightarrow> u32"
  jiffies_to_cputime :: "u32 \<Rightarrow> u32"
  nsecs_to_cputime :: "u64 \<Rightarrow> u32"
  nsecs_to_cputime64 :: "u64 \<Rightarrow> u64"
  cputime64_to_clock_t :: "u64 \<Rightarrow> u64"
  account_group_user_time :: "tid \<Rightarrow> u32 \<Rightarrow> 'y \<Rightarrow> 'y"
  account_group_system_time :: "tid \<Rightarrow> u32 \<Rightarrow> 'y \<Rightarrow> 'y"
  acct_update_integrals :: "tid \<Rightarrow> 'y \<Rightarrow> 'y"
  thread_group_cputime :: "tid \<Rightarrow> 'y \<Rightarrow> u32 \<times> u32 \<times> u64"

definition ROOT_CA :: nat where "ROOT_CA = 0"

definition PF_VCPU :: u32 where "PF_VCPU = 0x10"

abbreviation upd_ctimes :: "tid \<Rightarrow> (task_ctimes \<Rightarrow> task_ctimes) \<Rightarrow> 'y cpu_times \<Rightarrow> 'y cpu_times" where
  "upd_ctimes p f \<equiv> ctimes_update (\<lambda>m. m(p := f (m p)))"

text \<open>\<open>per_cpu_ptr(ca->cpustat, cpu)->cpustat[i] += x\<close>\<close>

definition add_cpustat :: "nat \<Rightarrow> cpu \<Rightarrow> cputime_index \<Rightarrow> u64 \<Rightarrow> 'y cpu_times \<Rightarrow> 'y cpu_times" where
  "add_cpustat a c i x =
     ca_cpustat_update (\<lambda>m. m(a := (m a)(c := (m a c)(i := m a c i + x))))"

section \<open>The context of an interrupt\<close>

text \<open>The fields of \<open>preempt_count\<close> (\<open>linux/hardirq.h\<close>): softirqs in bits 8 to 15, hardirqs from 16 on.\<close>

definition HARDIRQ_OFFSET :: u32 where "HARDIRQ_OFFSET = 0x10000"
definition SOFTIRQ_OFFSET :: u32 where "SOFTIRQ_OFFSET = 0x100"

abbreviation irq_word :: "'x kernel \<Rightarrow> u32" where
  "irq_word k \<equiv> of_nat (preempt_count (tasks k (current k)))"

definition hardirq_count :: "'x kernel \<Rightarrow> u32" where
  "hardirq_count k = irq_word k AND 0x03FF0000"

definition irq_count :: "'x kernel \<Rightarrow> u32" where
  "irq_count k = irq_word k AND 0x07FFFF00"

definition in_serving_softirq :: "'x kernel \<Rightarrow> bool" where
  "in_serving_softirq k \<longleftrightarrow> irq_word k AND 0xFF00 AND SOFTIRQ_OFFSET \<noteq> 0"

section \<open>Interrupt time\<close>

definition enable_sched_clock_irqtime :: "'y cpu_times \<Rightarrow> 'y cpu_times" where
  "enable_sched_clock_irqtime = sched_clock_irqtime_update (\<lambda>_. True)"

definition disable_sched_clock_irqtime :: "'y cpu_times \<Rightarrow> 'y cpu_times" where
  "disable_sched_clock_irqtime = sched_clock_irqtime_update (\<lambda>_. False)"

definition irq_time_read :: "cpu \<Rightarrow> 'y cpu_times \<Rightarrow> u64" where
  "irq_time_read c a = cpu_softirq_time a c + cpu_hardirq_time a c"

definition account_system_vtime :: "tid \<Rightarrow> 'x kernel \<Rightarrow> 'y cpu_times \<Rightarrow> 'y cpu_times" where
  "account_system_vtime p k a =
     (if \<not> sched_clock_irqtime a then a
      else
        let c = this_cpu k;
            delta = sched_clock k c - irq_start_time a c;
            a = irq_start_time_update (\<lambda>m. m(c := m c + delta)) a in
        if hardirq_count k \<noteq> 0 then cpu_hardirq_time_update (\<lambda>m. m(c := m c + delta)) a
        else if in_serving_softirq k \<and> p \<noteq> ksoftirqd a c
        then cpu_softirq_time_update (\<lambda>m. m(c := m c + delta)) a
        else a)"

definition irqtime_account_hi_update :: "'y ct_env \<Rightarrow> 'x kernel \<Rightarrow> 'y cpu_times \<Rightarrow> bool" where
  "irqtime_account_hi_update ce k a \<longleftrightarrow>
     ca_cpustat a ROOT_CA (this_cpu k) CPUTIME_IRQ < nsecs_to_cputime64 ce (cpu_hardirq_time a (this_cpu k))"

definition irqtime_account_si_update :: "'y ct_env \<Rightarrow> 'x kernel \<Rightarrow> 'y cpu_times \<Rightarrow> bool" where
  "irqtime_account_si_update ce k a \<longleftrightarrow>
     ca_cpustat a ROOT_CA (this_cpu k) CPUTIME_SOFTIRQ < nsecs_to_cputime64 ce (cpu_softirq_time a (this_cpu k))"

section \<open>Charging time\<close>

definition task_group_account_field ::
  "tid \<Rightarrow> cputime_index \<Rightarrow> u64 \<Rightarrow> 'x kernel \<Rightarrow> 'y cpu_times \<Rightarrow> 'y cpu_times" where
  "task_group_account_field p i tmp k a =
     (let a = add_cpustat ROOT_CA (this_cpu k) i tmp a in
      if \<not> cpuacct_active k then a
      else fold (\<lambda>ca. add_cpustat ca (this_cpu k) i tmp)
             (takeWhile (\<lambda>ca. ca \<noteq> ROOT_CA) (ca_chain k (task_ca k p))) a)"

definition account_user_time ::
  "'y ct_env \<Rightarrow> tid \<Rightarrow> u32 \<Rightarrow> u32 \<Rightarrow> 'x kernel \<Rightarrow> 'y cpu_times \<Rightarrow> 'y cpu_times" where
  "account_user_time ce p cputime cputime_scaled k a =
     (let a = upd_ctimes p (\<lambda>t. t\<lparr>utime := utime t + cputime\<rparr>) a;
          a = upd_ctimes p (\<lambda>t. t\<lparr>utimescaled := utimescaled t + cputime_scaled\<rparr>) a;
          a = ct_ext_update (account_group_user_time ce p cputime) a;
          i = (if 0 < TASK_NICE k p then CPUTIME_NICE else CPUTIME_USER);
          a = task_group_account_field p i (ucast cputime) k a
      in ct_ext_update (acct_update_integrals ce p) a)"

definition account_guest_time ::
  "'y ct_env \<Rightarrow> tid \<Rightarrow> u32 \<Rightarrow> u32 \<Rightarrow> 'x kernel \<Rightarrow> 'y cpu_times \<Rightarrow> 'y cpu_times" where
  "account_guest_time ce p cputime cputime_scaled k a =
     (let c = this_cpu k;
          a = upd_ctimes p (\<lambda>t. t\<lparr>utime := utime t + cputime\<rparr>) a;
          a = upd_ctimes p (\<lambda>t. t\<lparr>utimescaled := utimescaled t + cputime_scaled\<rparr>) a;
          a = ct_ext_update (account_group_user_time ce p cputime) a;
          a = upd_ctimes p (\<lambda>t. t\<lparr>gtime := gtime t + cputime\<rparr>) a in
      if 0 < TASK_NICE k p then
        add_cpustat ROOT_CA c CPUTIME_GUEST_NICE (ucast cputime)
          (add_cpustat ROOT_CA c CPUTIME_NICE (ucast cputime) a)
      else
        add_cpustat ROOT_CA c CPUTIME_GUEST (ucast cputime)
          (add_cpustat ROOT_CA c CPUTIME_USER (ucast cputime) a))"

definition account_system_time_field ::
  "'y ct_env \<Rightarrow> tid \<Rightarrow> u32 \<Rightarrow> u32 \<Rightarrow> cputime_index \<Rightarrow> 'x kernel \<Rightarrow> 'y cpu_times \<Rightarrow> 'y cpu_times" where
  "account_system_time_field ce p cputime cputime_scaled i k a =
     (let a = upd_ctimes p (\<lambda>t. t\<lparr>stime := stime t + cputime\<rparr>) a;
          a = upd_ctimes p (\<lambda>t. t\<lparr>stimescaled := stimescaled t + cputime_scaled\<rparr>) a;
          a = ct_ext_update (account_group_system_time ce p cputime) a;
          a = task_group_account_field p i (ucast cputime) k a
      in ct_ext_update (acct_update_integrals ce p) a)"

definition account_system_time ::
  "'y ct_env \<Rightarrow> tid \<Rightarrow> u32 \<Rightarrow> u32 \<Rightarrow> u32 \<Rightarrow> 'x kernel \<Rightarrow> 'y cpu_times \<Rightarrow> 'y cpu_times" where
  "account_system_time ce p hardirq_offset cputime cputime_scaled k a =
     (if flags (tasks k p) AND PF_VCPU \<noteq> 0 \<and> irq_count k - hardirq_offset = 0
      then account_guest_time ce p cputime cputime_scaled k a
      else
        let i = (if hardirq_count k - hardirq_offset \<noteq> 0 then CPUTIME_IRQ
                 else if in_serving_softirq k then CPUTIME_SOFTIRQ
                 else CPUTIME_SYSTEM)
        in account_system_time_field ce p cputime cputime_scaled i k a)"

definition account_steal_time :: "u32 \<Rightarrow> 'x kernel \<Rightarrow> 'y cpu_times \<Rightarrow> 'y cpu_times" where
  "account_steal_time cputime k = add_cpustat ROOT_CA (this_cpu k) CPUTIME_STEAL (ucast cputime)"

definition account_idle_time :: "u32 \<Rightarrow> 'x kernel \<Rightarrow> 'y cpu_times \<Rightarrow> 'y cpu_times" where
  "account_idle_time cputime k =
     add_cpustat ROOT_CA (this_cpu k)
       (if 0 < nr_iowait (rqs k (this_cpu k)) then CPUTIME_IOWAIT else CPUTIME_IDLE) (ucast cputime)"

section \<open>A tick\<close>

text \<open>\<open>steal_account_process_tick\<close> returns false without \<open>CONFIG_PARAVIRT\<close>, which ARM does not have.\<close>

definition steal_account_process_tick :: bool where
  "steal_account_process_tick = False"

definition irqtime_account_process_tick ::
  "'y ct_env \<Rightarrow> tid \<Rightarrow> bool \<Rightarrow> cpu \<Rightarrow> 'x kernel \<Rightarrow> 'y cpu_times \<Rightarrow> 'y cpu_times" where
  "irqtime_account_process_tick ce p user_tick c k a =
     (let one = cputime_one_jiffy ce; scaled = cputime_to_scaled ce one in
      if steal_account_process_tick then a
      else if irqtime_account_hi_update ce k a
      then add_cpustat ROOT_CA (this_cpu k) CPUTIME_IRQ (ucast one) a
      else if irqtime_account_si_update ce k a
      then add_cpustat ROOT_CA (this_cpu k) CPUTIME_SOFTIRQ (ucast one) a
      else if ksoftirqd a (this_cpu k) = p then account_system_time_field ce p one scaled CPUTIME_SOFTIRQ k a
      else if user_tick then account_user_time ce p one scaled k a
      else if p = idle (rqs k c) then account_idle_time one k a
      else if flags (tasks k p) AND PF_VCPU \<noteq> 0 then account_guest_time ce p one scaled k a
      else account_system_time_field ce p one scaled CPUTIME_SYSTEM k a)"

definition irqtime_account_idle_ticks ::
  "'y ct_env \<Rightarrow> nat \<Rightarrow> 'x kernel \<Rightarrow> 'y cpu_times \<Rightarrow> 'y cpu_times" where
  "irqtime_account_idle_ticks ce ticks k =
     fold (\<lambda>_. irqtime_account_process_tick ce (current k) False (this_cpu k) k) [0..<ticks]"

definition account_process_tick ::
  "'y ct_env \<Rightarrow> tid \<Rightarrow> bool \<Rightarrow> 'x kernel \<Rightarrow> 'y cpu_times \<Rightarrow> 'y cpu_times" where
  "account_process_tick ce p user_tick k a =
     (let one = cputime_one_jiffy ce; scaled = cputime_to_scaled ce one; c = this_cpu k in
      if sched_clock_irqtime a then irqtime_account_process_tick ce p user_tick c k a
      else if steal_account_process_tick then a
      else if user_tick then account_user_time ce p one scaled k a
      else if p \<noteq> idle (rqs k c) \<or> irq_count k \<noteq> HARDIRQ_OFFSET
      then account_system_time ce p HARDIRQ_OFFSET one scaled k a
      else account_idle_time one k a)"

definition account_steal_ticks :: "'y ct_env \<Rightarrow> u32 \<Rightarrow> 'x kernel \<Rightarrow> 'y cpu_times \<Rightarrow> 'y cpu_times" where
  "account_steal_ticks ce ticks k = account_steal_time (jiffies_to_cputime ce ticks) k"

definition account_idle_ticks :: "'y ct_env \<Rightarrow> u32 \<Rightarrow> 'x kernel \<Rightarrow> 'y cpu_times \<Rightarrow> 'y cpu_times" where
  "account_idle_ticks ce ticks k a =
     (if sched_clock_irqtime a then irqtime_account_idle_ticks ce (unat ticks) k a
      else account_idle_time (jiffies_to_cputime ce ticks) k a)"

section \<open>The times of a task and of a process\<close>

definition scale_utime :: "u32 \<Rightarrow> u32 \<Rightarrow> u32 \<Rightarrow> u32" where
  "scale_utime ut rtime tot =
     (let temp = (ucast rtime :: u64);
          temp = temp * ucast ut;
          temp = temp div ucast tot
      in ucast temp)"

text \<open>What both functions do with the counted and the previous times.\<close>

definition adjust_times :: "u32 \<Rightarrow> u32 \<Rightarrow> u32 \<Rightarrow> u32 \<times> u32 \<Rightarrow> u32 \<times> u32" where
  "adjust_times ut tot rtime prev =
     (let ut = (if tot \<noteq> 0 then scale_utime ut rtime tot else rtime);
          pu = max (fst prev) ut;
          ps = max (snd prev) (rtime - pu)
      in (pu, ps))"

definition task_times ::
  "'y ct_env \<Rightarrow> tid \<Rightarrow> 'x kernel \<Rightarrow> 'y cpu_times \<Rightarrow> (u32 \<times> u32) \<times> 'y cpu_times" where
  "task_times ce p k a =
     (let t = ctimes a p;
          rtime = nsecs_to_cputime ce (sum_exec_runtime (se (tasks k p)));
          (pu, ps) = adjust_times (utime t) (utime t + stime t) rtime (prev_utime t, prev_stime t)
      in ((pu, ps), upd_ctimes p (\<lambda>t. t\<lparr>prev_utime := pu, prev_stime := ps\<rparr>) a))"

definition thread_group_times ::
  "'y ct_env \<Rightarrow> tid \<Rightarrow> nat \<Rightarrow> 'y cpu_times \<Rightarrow> (u32 \<times> u32) \<times> 'y cpu_times" where
  "thread_group_times ce p sig a =
     (let (ut, st, sum_exec) = thread_group_cputime ce p (ct_ext a);
          tot = ut + st;
          rtime = nsecs_to_cputime ce sum_exec;
          (pu, ps) = adjust_times ut tot rtime (sig_prev_utime a sig, sig_prev_stime a sig);
          a = sig_prev_utime_update (\<lambda>m. m(sig := pu)) a;
          a = sig_prev_stime_update (\<lambda>m. m(sig := ps)) a
      in ((pu, ps), a))"

section \<open>The files of the accounting groups\<close>

text \<open>
  \<open>cpuacct_create\<close>; \<open>parent\<close> is the group of the cgroup's parent, \<open>ca\<close> the address of the new
  group, and the first argument which of the three allocations succeed. \<open>Inl\<close> is \<open>ERR_PTR\<close>.
\<close>

definition cpuacct_create ::
  "bool \<times> bool \<times> bool \<Rightarrow> nat option \<Rightarrow> nat \<Rightarrow> 'x kernel \<times> 'y cpu_times
     \<Rightarrow> (int + nat) \<times> 'x kernel \<times> 'y cpu_times" where
  "cpuacct_create allocs parent ca s =
     (case parent of
        None \<Rightarrow> (Inr ROOT_CA, s)
      | Some pa \<Rightarrow>
          (case allocs of (a1, a2, a3) \<Rightarrow> case s of (k, a) \<Rightarrow>
             if \<not> a1 then (Inl (- ENOMEM), s)
             else if \<not> a2 then (Inl (- ENOMEM), s)
             else if \<not> a3 then (Inl (- ENOMEM), s)
             else
               (Inr ca,
                cas_update (\<lambda>m. m(ca := \<lparr>ca_cpuusage = (\<lambda>_. 0), ca_parent = Some pa\<rparr>)) k,
                ca_cpustat_update (\<lambda>m. m(ca := (\<lambda>_ _. 0))) a)))"

definition cpuacct_cpuusage_read :: "nat \<Rightarrow> cpu \<Rightarrow> 'x kernel \<Rightarrow> u64" where
  "cpuacct_cpuusage_read ca c k = ca_cpuusage (cas k ca) c"

definition cpuacct_cpuusage_write :: "nat \<Rightarrow> cpu \<Rightarrow> u64 \<Rightarrow> 'x kernel \<Rightarrow> 'x kernel" where
  "cpuacct_cpuusage_write ca c v =
     cas_update (\<lambda>m. m(ca := (m ca)\<lparr>ca_cpuusage := (ca_cpuusage (m ca))(c := v)\<rparr>))"

text \<open>\<open>present\<close> and \<open>onl\<close> are the lists of the cpus of \<open>for_each_present_cpu\<close> and \<open>for_each_online_cpu\<close>.\<close>

definition cpuusage_read :: "cpu list \<Rightarrow> nat \<Rightarrow> 'x kernel \<Rightarrow> u64" where
  "cpuusage_read present ca k =
     fold (\<lambda>i tot. tot + cpuacct_cpuusage_read ca i k) present 0"

definition cpuusage_write :: "cpu list \<Rightarrow> nat \<Rightarrow> u64 \<Rightarrow> 'x kernel \<Rightarrow> int \<times> 'x kernel" where
  "cpuusage_write present ca reset k =
     (if reset \<noteq> 0 then (- EINVAL, k)
      else (0, fold (\<lambda>i. cpuacct_cpuusage_write ca i 0) present k))"

definition cpuacct_percpu_seq_read :: "cpu list \<Rightarrow> nat \<Rightarrow> 'x kernel \<Rightarrow> u64 list" where
  "cpuacct_percpu_seq_read present ca k = map (\<lambda>i. cpuacct_cpuusage_read ca i k) present"

text \<open>The two values given to \<open>cb->fill\<close>, user and system.\<close>

definition cpuacct_stats_show :: "'y ct_env \<Rightarrow> cpu list \<Rightarrow> nat \<Rightarrow> 'y cpu_times \<Rightarrow> u64 \<times> u64" where
  "cpuacct_stats_show ce onl ca a =
     (let st = ca_cpustat a ca;
          val = fold (\<lambda>c v. v + st c CPUTIME_USER + st c CPUTIME_NICE) onl 0;
          user = cputime64_to_clock_t ce val;
          val = fold (\<lambda>c v. v + st c CPUTIME_SYSTEM + st c CPUTIME_IRQ + st c CPUTIME_SOFTIRQ) onl 0;
          system = cputime64_to_clock_t ce val
      in (user, system))"

end
