(* ===== verification/Cpu_Time_Props.thy ===== *)
theory Cpu_Time_Props
  imports Cpu_Time Example_State
begin

text \<open>
  Accounting of cpu time: every tick is counted once, the times reported for a task never decrease,
  and the files of the accounting groups.
\<close>

section \<open>Where a tick goes\<close>

text \<open>The time of a cpu, by what it was spent on; guest time is part of user time.\<close>

definition base_fields :: "cputime_index list" where
  "base_fields = [CPUTIME_USER, CPUTIME_NICE, CPUTIME_SYSTEM, CPUTIME_SOFTIRQ, CPUTIME_IRQ,
     CPUTIME_IDLE, CPUTIME_IOWAIT, CPUTIME_STEAL]"

definition cpu_total :: "'y cpu_times \<Rightarrow> nat \<Rightarrow> cpu \<Rightarrow> u64" where
  "cpu_total a g c = sum_list (map (ca_cpustat a g c) base_fields)"

lemma cpu_total_frame [simp]:
  "cpu_total (ctimes_update f a) g c = cpu_total a g c" "cpu_total (ct_ext_update h a) g c = cpu_total a g c"
  by (simp_all add: cpu_total_def)

lemma cpu_total_add:
  "cpu_total (add_cpustat g' c' i x a) g c
    = cpu_total a g c + (if g = g' \<and> c = c' \<and> i \<in> set base_fields then x else 0)"
  by (cases i) (simp_all add: cpu_total_def add_cpustat_def base_fields_def)

lemma ctimes_add [simp]: "ctimes (add_cpustat g c i x a) = ctimes a"
  by (simp add: add_cpustat_def)

lemma ctimes_fold_add [simp]: "ctimes (fold (\<lambda>g. add_cpustat g c i x) gs a) = ctimes a"
  by (induction gs arbitrary: a) simp_all

lemma cpu_total_fold_root:
  "ROOT_CA \<notin> set gs \<Longrightarrow> cpu_total (fold (\<lambda>g. add_cpustat g c' i x) gs a) ROOT_CA c = cpu_total a ROOT_CA c"
  by (induction gs arbitrary: a) (auto simp: cpu_total_add)

lemma group_field:
  "cpu_total (task_group_account_field p i x k a) ROOT_CA c
    = cpu_total a ROOT_CA c + (if c = this_cpu k \<and> i \<in> set base_fields then x else 0)"
  "ctimes (task_group_account_field p i x k a) = ctimes a"
proof -
  have "ROOT_CA \<notin> set (takeWhile (\<lambda>g. g \<noteq> ROOT_CA) gs)" for gs by (auto dest: set_takeWhileD)
  then show "cpu_total (task_group_account_field p i x k a) ROOT_CA c
      = cpu_total a ROOT_CA c + (if c = this_cpu k \<and> i \<in> set base_fields then x else 0)"
    by (simp add: task_group_account_field_def Let_def cpu_total_fold_root cpu_total_add)
  show "ctimes (task_group_account_field p i x k a) = ctimes a"
    by (simp add: task_group_account_field_def Let_def)
qed

text \<open>A charge: one jiffy on this cpu, and at most the times of one task.\<close>

definition charged :: "tid \<Rightarrow> u32 \<Rightarrow> 'x kernel \<Rightarrow> 'y cpu_times \<Rightarrow> 'y cpu_times \<Rightarrow> bool" where
  "charged p t k a a' \<longleftrightarrow>
     (\<forall>c. cpu_total a' ROOT_CA c = cpu_total a ROOT_CA c + (if c = this_cpu k then ucast t else 0))
     \<and> ctimes a' = (ctimes a)(p := ctimes a' p)
     \<and> (utime (ctimes a' p) + stime (ctimes a' p) = utime (ctimes a p) + stime (ctimes a p) + t
        \<or> ctimes a' p = ctimes a p)"

named_theorems charging \<open>functions that charge one tick\<close>

lemma charged_add [charging]: "i \<in> set base_fields \<Longrightarrow> charged p t k a (add_cpustat ROOT_CA (this_cpu k) i (ucast t) a)"
  by (simp add: charged_def cpu_total_add)

lemma charged_user [charging]: "charged p t k a (account_user_time ce p t s k a)"
  by (simp add: charged_def account_user_time_def Let_def group_field) (simp add: base_fields_def)

lemma charged_guest [charging]: "charged p t k a (account_guest_time ce p t s k a)"
  by (simp add: charged_def account_guest_time_def Let_def cpu_total_add) (simp add: base_fields_def)

lemma charged_system_field [charging]:
  "i \<in> set base_fields \<Longrightarrow> charged p t k a (account_system_time_field ce p t s i k a)"
  by (simp add: charged_def account_system_time_field_def Let_def group_field)

lemma charged_idle [charging]: "charged p t k a (account_idle_time t k a)"
  unfolding account_idle_time_def by (rule charging) (simp add: base_fields_def)

lemma charged_system [charging]: "charged p t k a (account_system_time ce p off t s k a)"
  unfolding account_system_time_def Let_def
  by (simp add: charging) (auto simp: base_fields_def intro!: charging)

text \<open>
  C39. Every tick is counted exactly once. Whatever the tick interrupted (user code, the idle task, a
  guest, an interrupt, or kernel code), with and without precise interrupt times, the statistics of
  this cpu grow by one jiffy in all, those of the other cpus not at all; and either no task is
  charged, or the task is, by one jiffy of user or system time, and no other.
\<close>

theorem tick_counted_once:
  "charged p (cputime_one_jiffy ce) k a (account_process_tick ce p user_tick k a)"
proof -
  note base = base_fields_def
  have "charged p (cputime_one_jiffy ce) k a (irqtime_account_process_tick ce p user_tick c k a)" for c
    unfolding irqtime_account_process_tick_def Let_def steal_account_process_tick_def
    by (simp add: charging base)
  then show ?thesis
    unfolding account_process_tick_def Let_def steal_account_process_tick_def by (simp add: charging)
qed

section \<open>The times of a task\<close>

lemma unat_up: "unat (ucast (x :: u32) :: u64) = unat x"
proof -
  have "unat x < 2 ^ 64" by (rule less_trans [OF unsigned_less]) simp
  then show ?thesis by (simp add: unsigned_ucast_eq take_bit_nat_eq_self)
qed

lemma unat_down: "unat (x :: u64) < 2 ^ 32 \<Longrightarrow> unat (ucast x :: u32) = unat x"
  by (simp add: unsigned_ucast_eq take_bit_nat_eq_self)

lemma scale_utime_le:
  assumes "unat ut \<le> unat tot" "tot \<noteq> 0"
  shows "unat (scale_utime ut rtime tot) \<le> unat rtime"
proof -
  have "unat rtime * unat ut < 2 ^ 32 * 2 ^ 32"
    using unsigned_less [of rtime] unsigned_less [of ut] by (intro mult_strict_mono) auto
  then have m: "unat ((ucast rtime :: u64) * ucast ut) = unat rtime * unat ut"
    by (simp add: unat_word_ariths unat_up)
  have "unat ((ucast rtime :: u64) * ucast ut div ucast tot) = unat rtime * unat ut div unat tot"
    by (simp only: unat_div m) (simp add: unat_up)
  moreover have "unat rtime * unat ut div unat tot \<le> unat rtime"
    using assms by (metis div_le_mono div_mult_self_is_m mult_le_mono2 unat_gt_0)
  moreover have "unat rtime < 2 ^ 32" using unsigned_less [of rtime] by simp
  ultimately show ?thesis
    by (simp add: scale_utime_def Let_def unat_down)
qed

lemma adjust_times_bounds:
  assumes "unat ut + unat st < 2 ^ 32" "fst prev \<le> rtime" "snd prev \<le> rtime" "adjust_times ut (ut + st) rtime prev = (pu, ps)"
  shows "fst prev \<le> pu \<and> snd prev \<le> ps \<and> pu \<le> rtime \<and> ps \<le> rtime \<and> unat rtime \<le> unat pu + unat ps"
proof -
  define u where "u = (if ut + st \<noteq> 0 then scale_utime ut rtime (ut + st) else rtime)"
  have "unat (ut + st) = unat ut + unat st" using assms(1) by (simp add: unat_word_ariths)
  then have u: "u \<le> rtime"
    using scale_utime_le [of ut "ut + st" rtime] by (simp add: u_def word_le_nat_alt)
  have p: "pu = max (fst prev) u" "ps = max (snd prev) (rtime - pu)"
    using assms(4) by (auto simp: adjust_times_def u_def Let_def)
  have pu: "pu \<le> rtime" using u assms(2) by (simp add: p(1))
  then have "unat (rtime - pu) = unat rtime - unat pu" by (simp add: unat_sub)
  moreover have "unat (rtime - pu) \<le> unat ps" by (simp add: p(2) word_le_nat_alt [symmetric])
  ultimately have "unat rtime \<le> unat pu + unat ps" using pu by (simp add: word_le_nat_alt)
  moreover have "rtime - pu \<le> rtime" using pu by (simp add: word_sub_le)
  ultimately show ?thesis using pu assms(3) by (simp add: p)
qed

text \<open>
  What is reported of a task never decreases. Each call of \<open>task_times\<close> returns user and system
  times at least as large as the call before did, neither larger than the precise run time, and
  together no less than it, as long as the precise run time does not go back and the counted times
  have not overflowed 32 bits; the values returned are stored, so that this holds for the next
  call in turn. Together they can be more than the run time: after 10 jiffies counted as system time
  and then 100 as user time, 21 jiffies are reported for a task that has run for 12.
\<close>

theorem task_times_monotone:
  assumes "unat (utime (ctimes a p)) + unat (stime (ctimes a p)) < 2 ^ 32"
    and "prev_utime (ctimes a p) \<le> nsecs_to_cputime ce (sum_exec_runtime (se (tasks k p)))"
    and "prev_stime (ctimes a p) \<le> nsecs_to_cputime ce (sum_exec_runtime (se (tasks k p)))"
  shows "(case task_times ce p k a of ((ut, st), a') \<Rightarrow>
      prev_utime (ctimes a p) \<le> ut \<and> prev_stime (ctimes a p) \<le> st
      \<and> ut \<le> nsecs_to_cputime ce (sum_exec_runtime (se (tasks k p)))
      \<and> st \<le> nsecs_to_cputime ce (sum_exec_runtime (se (tasks k p)))
      \<and> unat (nsecs_to_cputime ce (sum_exec_runtime (se (tasks k p)))) \<le> unat ut + unat st
      \<and> prev_utime (ctimes a' p) = ut \<and> prev_stime (ctimes a' p) = st)
    \<and> adjust_times 100 (100 + 1) 12 (adjust_times 0 (0 + 10) 10 (0, 0)) = (11, 10)"
proof -
  let ?t = "ctimes a p" and ?r = "nsecs_to_cputime ce (sum_exec_runtime (se (tasks k p)))"
  obtain pu ps where adj: "adjust_times (utime ?t) (utime ?t + stime ?t) ?r (prev_utime ?t, prev_stime ?t) = (pu, ps)"
    by fastforce
  have "adjust_times 100 (100 + 1) 12 (adjust_times 0 (0 + 10) 10 (0, 0)) = (11, 10)"
    by (simp add: adjust_times_def scale_utime_def Let_def max_def word_le_nat_alt)
  then show ?thesis
    using adjust_times_bounds [OF assms(1) _ _ adj] assms(2,3) adj by (simp add: task_times_def Let_def)
qed

section \<open>The files\<close>

lemma fold_write:
  "cas (fold (\<lambda>i. cpuacct_cpuusage_write ca i 0) is k) = (cas k)(ca := (cas k ca)
     \<lparr>ca_cpuusage := (\<lambda>i. if i \<in> set is then 0 else ca_cpuusage (cas k ca) i)\<rparr>)"
  by (induction "is" arbitrary: k) (auto simp: cpuacct_cpuusage_write_def fun_eq_iff)

lemma fold_sum: "fold (\<lambda>i t. t + f i) is (t :: u64) = t + sum_list (map f is)"
  by (induction "is" arbitrary: t) simp_all

text \<open>
  \<open>cpuacct.usage\<close> is the sum over the cpus; writing 0 resets it, and anything else is refused.
\<close>

lemma cpuusage_reset:
  "cpuusage_read present ca k = sum_list (cpuacct_percpu_seq_read present ca k)
   \<and> (v \<noteq> 0 \<longrightarrow> cpuusage_write present ca v k = (- EINVAL, k))
   \<and> cpuusage_read present ca (snd (cpuusage_write present ca 0 k)) = 0"
proof -
  have "sum_list (map (\<lambda>i. if i \<in> set present then 0 else f i) present) = (0 :: u64)" for f
    by (simp cong: map_cong)
  then show ?thesis
    by (simp add: cpuusage_read_def cpuusage_write_def fold_sum cpuacct_percpu_seq_read_def
        cpuacct_cpuusage_read_def fold_write)
qed

section \<open>The theorem on a concrete task\<close>

text \<open>A jiffy is 4 ms; the task has 100 jiffies counted as user and 1 as system time and has run for 12.\<close>

definition ct_env_ex :: "unit ct_env" where
  "ct_env_ex = \<lparr>cputime_one_jiffy = 1, cputime_to_scaled = id, jiffies_to_cputime = id,
     nsecs_to_cputime = (\<lambda>n. ucast (n div 4000000)), nsecs_to_cputime64 = (\<lambda>n. n div 4000000),
     cputime64_to_clock_t = id, account_group_user_time = (\<lambda>_ _ y. y),
     account_group_system_time = (\<lambda>_ _ y. y), acct_update_integrals = (\<lambda>_ y. y),
     thread_group_cputime = (\<lambda>_ _. (0, 0, 0))\<rparr>"

definition cpu_times_ex :: "unit cpu_times" where
  "cpu_times_ex = \<lparr>ctimes = (\<lambda>_. \<lparr>utime = 100, stime = 1, utimescaled = 0, stimescaled = 0, gtime = 0,
                              prev_utime = 0, prev_stime = 10\<rparr>),
     sig_prev_utime = (\<lambda>_. 0), sig_prev_stime = (\<lambda>_. 0), ca_cpustat = (\<lambda>_ _ _. 0),
     cpu_hardirq_time = (\<lambda>_. 0), cpu_softirq_time = (\<lambda>_. 0), irq_start_time = (\<lambda>_. 0),
     sched_clock_irqtime = False, ksoftirqd = (\<lambda>_. 9), ct_ext = ()\<rparr>"

definition k_ran :: "unit kernel" where
  "k_ran = k0\<lparr>tasks := (\<lambda>_. task0\<lparr>se := se0\<lparr>sum_exec_runtime := 48000000\<rparr>\<rparr>)\<rparr>"

theorem task_times_monotone_witness:
  "(case task_times ct_env_ex 1 k_ran cpu_times_ex of ((ut, st), a') \<Rightarrow>
      0 \<le> ut \<and> 10 \<le> st \<and> ut \<le> 12 \<and> st \<le> 12 \<and> 12 \<le> unat ut + unat st)"
proof -
  have r: "nsecs_to_cputime ct_env_ex (sum_exec_runtime (se (tasks k_ran 1))) = 12"
    by (simp add: ct_env_ex_def k_ran_def unsigned_ucast_eq)
  have "unat (utime (ctimes cpu_times_ex 1)) + unat (stime (ctimes cpu_times_ex 1)) < 2 ^ 32"
    by (simp add: cpu_times_ex_def)
  from task_times_monotone [OF this, of ct_env_ex k_ran] show ?thesis
    unfolding r by (auto simp: cpu_times_ex_def split: prod.splits)
qed

end
