(* ===== verification/Cfs_Bandwidth.thy ===== *)
theory Cfs_Bandwidth
  imports Sched_Groups
begin

text \<open>
  The interface of CFS bandwidth control in \<open>core.c\<close> (\<open>CONFIG_CFS_BANDWIDTH\<close>): the quota and period of
  a group, the test that no child is given more than its parent, and the files of the cgroup. The
  fair class itself is not in the repository; its four functions that are called here are arguments.
  \<open>long\<close> is 32 bits, \<open>s64\<close> a 64-bit word compared with its sign.
\<close>

record cfs_bandwidth =
  cb_period :: u64
  cb_quota :: u64
  hierarchal_quota :: u64
  timer_active :: bool
  nr_periods :: int
  nr_throttled :: int
  throttled_time :: u64

record cfs_rq =
  runtime_enabled :: bool
  runtime_remaining :: u64
  throttled :: bool

record 'y cfs_state =
  cfs_b :: "tgid \<Rightarrow> cfs_bandwidth"
  cfs_rqs :: "tgid \<times> cpu \<Rightarrow> cfs_rq"
  cfs_ext :: 'y

record 'y cfs_env =
  refill_cfs_bandwidth_runtime :: "tgid \<Rightarrow> 'y cfs_state \<Rightarrow> 'y cfs_state"
  start_cfs_bandwidth :: "tgid \<Rightarrow> 'y cfs_state \<Rightarrow> 'y cfs_state"
  unthrottle_cfs_rq :: "tgid \<times> cpu \<Rightarrow> 'y cfs_state \<Rightarrow> 'y cfs_state"
  account_cfs_bandwidth_used :: "bool \<Rightarrow> bool \<Rightarrow> 'y cfs_state \<Rightarrow> 'y cfs_state"

abbreviation upd_cfs_b :: "tgid \<Rightarrow> (cfs_bandwidth \<Rightarrow> cfs_bandwidth) \<Rightarrow> 'y cfs_state \<Rightarrow> 'y cfs_state" where
  "upd_cfs_b g f \<equiv> cfs_b_update (\<lambda>m. m(g := f (m g)))"

abbreviation upd_cfs_rq :: "tgid \<times> cpu \<Rightarrow> (cfs_rq \<Rightarrow> cfs_rq) \<Rightarrow> 'y cfs_state \<Rightarrow> 'y cfs_state" where
  "upd_cfs_rq r f \<equiv> cfs_rqs_update (\<lambda>m. m(r := f (m r)))"

definition max_cfs_quota_period :: u64 where "max_cfs_quota_period = 1000000000"
definition min_cfs_quota_period :: u64 where "min_cfs_quota_period = 1000000"

section \<open>Reading\<close>

definition tg_get_cfs_quota :: "tgid \<Rightarrow> 'y cfs_state \<Rightarrow> u32" where
  "tg_get_cfs_quota g s =
     (if cb_quota (cfs_b s g) = RUNTIME_INF then -1 else ucast (cb_quota (cfs_b s g) div NSEC_PER_USEC))"

definition tg_get_cfs_period :: "tgid \<Rightarrow> 'y cfs_state \<Rightarrow> u32" where
  "tg_get_cfs_period g s = ucast (cb_period (cfs_b s g) div NSEC_PER_USEC)"

section \<open>The test\<close>

record cfs_schedulable_data =
  cd_tg :: tgid
  cd_period :: u64
  cd_quota :: u64

definition normalize_cfs_quota :: "cfs_schedulable_data \<Rightarrow> tgid \<Rightarrow> 'y cfs_state \<Rightarrow> u64" where
  "normalize_cfs_quota d g s =
     (let (period, quota) =
        (if g = cd_tg d then (cd_period d, cd_quota d)
         else (scast (tg_get_cfs_period g s), scast (tg_get_cfs_quota g s)))
      in if quota = RUNTIME_INF \<or> quota = -1 then RUNTIME_INF else ucast (to_ratio period quota))"

definition tg_cfs_schedulable_down ::
  "'x kernel \<Rightarrow> cfs_schedulable_data \<Rightarrow> tgid \<Rightarrow> 'y cfs_state \<Rightarrow> int \<times> 'y cfs_state" where
  "tg_cfs_schedulable_down k d g s =
     (case tg_parent (tgs k g) of
        None \<Rightarrow> (0, upd_cfs_b g (\<lambda>b. b\<lparr>hierarchal_quota := RUNTIME_INF\<rparr>) s)
      | Some q \<Rightarrow>
          let quota = normalize_cfs_quota d g s;
              parent_quota = hierarchal_quota (cfs_b s q) in
          if quota = RUNTIME_INF then (0, upd_cfs_b g (\<lambda>b. b\<lparr>hierarchal_quota := parent_quota\<rparr>) s)
          else if parent_quota \<noteq> RUNTIME_INF \<and> sint parent_quota < sint quota then (- EINVAL, s)
          else (0, upd_cfs_b g (\<lambda>b. b\<lparr>hierarchal_quota := quota\<rparr>) s))"

text \<open>\<open>None\<close> is a walk that does not end.\<close>

definition cfs_schedulable ::
  "'x kernel \<Rightarrow> tgid \<Rightarrow> u64 \<Rightarrow> u64 \<Rightarrow> 'y cfs_state \<Rightarrow> (int \<times> 'y cfs_state) option" where
  "cfs_schedulable k tg period quota s =
     (let d = (if quota \<noteq> RUNTIME_INF
               then \<lparr>cd_tg = tg, cd_period = period div NSEC_PER_USEC, cd_quota = quota div NSEC_PER_USEC\<rparr>
               else \<lparr>cd_tg = tg, cd_period = period, cd_quota = quota\<rparr>)
      in walk_tg_tree_from (\<lambda>g. tg_children (tgs k g)) (\<lambda>g. tg_parent (tgs k g)) ROOT_TG
           (tg_cfs_schedulable_down k d) tg_nop s)"

section \<open>Setting\<close>

text \<open>The turn of the last loop for cpu \<open>i\<close>.\<close>

definition set_cfs_rq :: "'y cfs_env \<Rightarrow> tgid \<Rightarrow> bool \<Rightarrow> cpu \<Rightarrow> 'y cfs_state \<Rightarrow> 'y cfs_state" where
  "set_cfs_rq ce tg enabled i s =
     (let s = upd_cfs_rq (tg, i) (\<lambda>r. r\<lparr>runtime_enabled := enabled\<rparr>) s;
          s = upd_cfs_rq (tg, i) (\<lambda>r. r\<lparr>runtime_remaining := 0\<rparr>) s
      in if throttled (cfs_rqs s (tg, i)) then unthrottle_cfs_rq ce (tg, i) s else s)"

definition tg_set_cfs_bandwidth ::
  "'x env \<Rightarrow> 'y cfs_env \<Rightarrow> 'x kernel \<Rightarrow> tgid \<Rightarrow> u64 \<Rightarrow> u64 \<Rightarrow> 'y cfs_state \<Rightarrow> (int \<times> 'y cfs_state) option" where
  "tg_set_cfs_bandwidth env ce k tg period quota s =
     (if tg = ROOT_TG then Some (- EINVAL, s)
      else if quota < min_cfs_quota_period \<or> period < min_cfs_quota_period then Some (- EINVAL, s)
      else if max_cfs_quota_period < period then Some (- EINVAL, s)
      else case cfs_schedulable k tg period quota s of
        None \<Rightarrow> None
      | Some (ret, s) \<Rightarrow>
          if ret \<noteq> 0 then Some (ret, s)
          else
            let enabled = (quota \<noteq> RUNTIME_INF);
                was_enabled = (cb_quota (cfs_b s tg) \<noteq> RUNTIME_INF);
                s = account_cfs_bandwidth_used ce enabled was_enabled s;
                s = upd_cfs_b tg (\<lambda>b. b\<lparr>cb_period := period\<rparr>) s;
                s = upd_cfs_b tg (\<lambda>b. b\<lparr>cb_quota := quota\<rparr>) s;
                s = refill_cfs_bandwidth_runtime ce tg s;
                s = (if enabled \<and> timer_active (cfs_b s tg)
                     then start_cfs_bandwidth ce tg (upd_cfs_b tg (\<lambda>b. b\<lparr>timer_active := False\<rparr>) s)
                     else s)
            in Some (0, fold (set_cfs_rq ce tg enabled) (for_each_cpu env (cpu_possible_mask env)) s))"

definition tg_set_cfs_quota ::
  "'x env \<Rightarrow> 'y cfs_env \<Rightarrow> 'x kernel \<Rightarrow> tgid \<Rightarrow> u32 \<Rightarrow> 'y cfs_state \<Rightarrow> (int \<times> 'y cfs_state) option" where
  "tg_set_cfs_quota env ce k tg cfs_quota_us s =
     (let period = cb_period (cfs_b s tg);
          quota = (if sint cfs_quota_us < 0 then RUNTIME_INF else scast cfs_quota_us * NSEC_PER_USEC)
      in tg_set_cfs_bandwidth env ce k tg period quota s)"

definition tg_set_cfs_period ::
  "'x env \<Rightarrow> 'y cfs_env \<Rightarrow> 'x kernel \<Rightarrow> tgid \<Rightarrow> u32 \<Rightarrow> 'y cfs_state \<Rightarrow> (int \<times> 'y cfs_state) option" where
  "tg_set_cfs_period env ce k tg cfs_period_us s =
     (let period = scast cfs_period_us * NSEC_PER_USEC;
          quota = cb_quota (cfs_b s tg)
      in tg_set_cfs_bandwidth env ce k tg period quota s)"

section \<open>The files\<close>

definition cpu_cfs_quota_read_s64 :: "tgid \<Rightarrow> 'y cfs_state \<Rightarrow> u64" where
  "cpu_cfs_quota_read_s64 tg s = scast (tg_get_cfs_quota tg s)"

definition cpu_cfs_quota_write_s64 ::
  "'x env \<Rightarrow> 'y cfs_env \<Rightarrow> 'x kernel \<Rightarrow> tgid \<Rightarrow> u64 \<Rightarrow> 'y cfs_state \<Rightarrow> (int \<times> 'y cfs_state) option" where
  "cpu_cfs_quota_write_s64 env ce k tg cfs_quota_us s = tg_set_cfs_quota env ce k tg (ucast cfs_quota_us) s"

definition cpu_cfs_period_read_u64 :: "tgid \<Rightarrow> 'y cfs_state \<Rightarrow> u64" where
  "cpu_cfs_period_read_u64 tg s = scast (tg_get_cfs_period tg s)"

definition cpu_cfs_period_write_u64 ::
  "'x env \<Rightarrow> 'y cfs_env \<Rightarrow> 'x kernel \<Rightarrow> tgid \<Rightarrow> u64 \<Rightarrow> 'y cfs_state \<Rightarrow> (int \<times> 'y cfs_state) option" where
  "cpu_cfs_period_write_u64 env ce k tg cfs_period_us s = tg_set_cfs_period env ce k tg (ucast cfs_period_us) s"

text \<open>The three values given to \<open>cb->fill\<close>.\<close>

definition cpu_stats_show :: "tgid \<Rightarrow> 'y cfs_state \<Rightarrow> int \<times> int \<times> u64" where
  "cpu_stats_show tg s = (nr_periods (cfs_b s tg), nr_throttled (cfs_b s tg), throttled_time (cfs_b s tg))"

end
