(* ===== verification/Cfs_Props.thy ===== *)
theory Cfs_Props
  imports Cfs_Bandwidth Example_State
begin

text \<open>
  CFS bandwidth: what the test over the hierarchy accepts, and what setting a quota does.
\<close>

section \<open>The test\<close>

text \<open>
  What the test is for: below the root, a group with a quota has no larger share than the next group
  above it that has one. \<open>par\<close> is that share; \<open>RUNTIME_INF\<close> is none. The share passed down is
  the group's own if it has one.
\<close>

definition share_below :: "u64 \<Rightarrow> u64 \<Rightarrow> u64" where
  "share_below par own = (if own = RUNTIME_INF then par else own)"

definition share_ok :: "u64 \<Rightarrow> u64 \<Rightarrow> bool" where
  "share_ok par own \<longleftrightarrow> own = RUNTIME_INF \<or> par = RUNTIME_INF \<or> sint own \<le> sint par"

fun shares_ok :: "(tgid \<Rightarrow> u64) \<Rightarrow> u64 \<Rightarrow> tg_tree \<Rightarrow> bool" where
  "shares_ok own par (Tg g ts) \<longleftrightarrow>
     share_ok par (own g) \<and> list_all (shares_ok own (share_below par (own g))) ts"

text \<open>The shares in use, from the state.\<close>

definition shares_of :: "cfs_schedulable_data \<Rightarrow> 'y cfs_state \<Rightarrow> tgid \<Rightarrow> u64" where
  "shares_of d s g = normalize_cfs_quota d g s"

definition only_hierarchal :: "'y cfs_state \<Rightarrow> 'y cfs_state \<Rightarrow> bool" where
  "only_hierarchal s s' \<longleftrightarrow>
     (\<exists>f. s' = cfs_b_update (\<lambda>m g. (m g)\<lparr>hierarchal_quota := f g\<rparr>) s)"

lemma only_hierarchal_refl: "only_hierarchal s s"
  by (auto simp: only_hierarchal_def intro!: exI [of _ "\<lambda>g. hierarchal_quota (cfs_b s g)"])

lemma only_hierarchal_trans: "\<lbrakk>only_hierarchal s t; only_hierarchal t u\<rbrakk> \<Longrightarrow> only_hierarchal s u"
  by (auto simp: only_hierarchal_def comp_def)

lemma only_hierarchal_upd: "only_hierarchal s (upd_cfs_b g (\<lambda>b. b\<lparr>hierarchal_quota := q\<rparr>) s)"
  unfolding only_hierarchal_def
  by (rule exI [of _ "\<lambda>h. if h = g then q else hierarchal_quota (cfs_b s h)"]) (cases s, auto simp: fun_eq_iff)

lemma only_hierarchal_shares: "only_hierarchal s s' \<Longrightarrow> shares_of d s' = shares_of d s"
  by (auto simp: only_hierarchal_def shares_of_def normalize_cfs_quota_def tg_get_cfs_quota_def tg_get_cfs_period_def
      fun_eq_iff)

lemma down_effect:
  assumes "tg_parent (tgs k g) = Some q"
  shows "tg_cfs_schedulable_down k d g s =
    (if share_ok (hierarchal_quota (cfs_b s q)) (shares_of d s g)
     then (0, upd_cfs_b g (\<lambda>b. b\<lparr>hierarchal_quota := share_below (hierarchal_quota (cfs_b s q)) (shares_of d s g)\<rparr>) s)
     else (- EINVAL, s))"
  using assms by (auto simp: tg_cfs_schedulable_down_def share_ok_def share_below_def shares_of_def Let_def)

text \<open>The walk over a tree whose parent has the share \<open>par\<close>.\<close>

definition walked :: "bool \<Rightarrow> tgid list \<Rightarrow> 'y cfs_state \<Rightarrow> int \<times> 'y cfs_state \<Rightarrow> bool" where
  "walked ok gs s r \<longleftrightarrow>
     fst r = (if ok then 0 else - EINVAL) \<and> only_hierarchal s (snd r)
     \<and> (\<forall>g. g \<notin> set gs \<longrightarrow> cfs_b (snd r) g = cfs_b s g)"

lemma tg_nop_apply: "tg_nop g s = (0, s)"
  by (simp add: tg_nop_def)

lemma walked_error: "walked False gs s (- EINVAL, s)"
  by (simp add: walked_def only_hierarchal_refl)

lemma walk_list:
  fixes s :: "'y cfs_state"
  assumes "\<And>u s1 :: 'y cfs_state. u \<in> set us \<Longrightarrow>
      walked (shares_ok (shares_of d s1) (hierarchal_quota (cfs_b s1 g)) u) (tg_ids u) s1
        (walk_rec (tg_cfs_schedulable_down k d) tg_nop u s1)"
    and "g \<notin> set (concat (map tg_ids us))"
  shows "walked (list_all (shares_ok (shares_of d s) (hierarchal_quota (cfs_b s g))) us) (concat (map tg_ids us)) s
    (walk_recs (tg_cfs_schedulable_down k d) tg_nop us s)"
  using assms
proof (induction us arbitrary: s)
  case Nil
  then show ?case by (simp add: walked_def only_hierarchal_refl)
next
  case (Cons u us)
  let ?down = "tg_cfs_schedulable_down k d"
  obtain ret s2 where r: "walk_rec ?down tg_nop u s = (ret, s2)" by fastforce
  have w: "walked (shares_ok (shares_of d s) (hierarchal_quota (cfs_b s g)) u) (tg_ids u) s (ret, s2)"
    using Cons.prems(1) [of u s] r by simp
  show ?case
  proof (cases "ret = 0")
    case False
    then show ?thesis using w r by (auto simp: walked_def)
  next
    case True
    have "shares_of d s2 = shares_of d s" using w only_hierarchal_shares [of s s2 d] by (simp add: walked_def)
    moreover have "cfs_b s2 g = cfs_b s g" using w Cons.prems(2) by (simp add: walked_def)
    ultimately have w2: "walked (list_all (shares_ok (shares_of d s) (hierarchal_quota (cfs_b s g))) us) (concat (map tg_ids us)) s2
        (walk_recs ?down tg_nop us s2)"
      using Cons.IH [of s2] Cons.prems by simp
    then show ?thesis using w r True
      by (auto simp: walked_def split: if_splits intro: only_hierarchal_trans)
  qed
qed

text \<open>Entering a node and going over its children.\<close>

lemma walk_node:
  fixes s :: "'y cfs_state"
  defines "s1 g q \<equiv> upd_cfs_b g (\<lambda>b. b\<lparr>hierarchal_quota := q\<rparr>) s"
  assumes "\<And>u s1 :: 'y cfs_state. u \<in> set ts \<Longrightarrow>
      walked (shares_ok (shares_of d s1) (hierarchal_quota (cfs_b s1 g)) u) (tg_ids u) s1
        (walk_rec (tg_cfs_schedulable_down k d) tg_nop u s1)"
    and "g \<notin> set (concat (map tg_ids ts))" "tg_cfs_schedulable_down k d g s = (0, s1 g par)"
  shows "walked (list_all (shares_ok (shares_of d s) par) ts) (tg_ids (Tg g ts)) s
    (walk_rec (tg_cfs_schedulable_down k d) tg_nop (Tg g ts) s)"
proof -
  have s1: "only_hierarchal s (s1 g par)" unfolding s1_def by (rule only_hierarchal_upd)
  obtain ret s2 where r: "walk_recs (tg_cfs_schedulable_down k d) tg_nop ts (s1 g par) = (ret, s2)" by fastforce
  have "walked (list_all (shares_ok (shares_of d s) par) ts) (concat (map tg_ids ts)) (s1 g par) (ret, s2)"
    using walk_list [OF assms(2,3), of "s1 g par"] r only_hierarchal_shares [OF s1, of d] by (simp add: s1_def)
  then show ?thesis using assms(4) r only_hierarchal_trans [OF s1]
    by (auto simp: walked_def tg_nop_apply s1_def)
qed

lemma walk_shares:
  fixes s :: "'y cfs_state"
  assumes "tg_linked (\<lambda>g. tg_children (tgs k g)) (\<lambda>g. tg_parent (tgs k g)) t" "distinct (tg_ids t)"
    and "tg_parent (tgs k (tg_root t)) = Some q" "q \<notin> set (tg_ids t)"
  shows "walked (shares_ok (shares_of d s) (hierarchal_quota (cfs_b s q)) t) (tg_ids t) s
    (walk_rec (tg_cfs_schedulable_down k d) tg_nop t s)"
  using assms
proof (induction t arbitrary: s q)
  case (Tg g ts)
  show ?case
  proof (cases "share_ok (hierarchal_quota (cfs_b s q)) (shares_of d s g)")
    case False
    then show ?thesis using down_effect [of k g q d s] Tg.prems(3) by (simp add: walked_error)
  next
    case True
    have "walked (shares_ok (shares_of d s1) (hierarchal_quota (cfs_b s1 g)) u) (tg_ids u) s1
        (walk_rec (tg_cfs_schedulable_down k d) tg_nop u s1)" if "u \<in> set ts" for u and s1 :: "'y cfs_state"
      using Tg.IH [OF that, of g s1] Tg.prems(1,2) that by (auto simp: distinct_concat_iff)
    from walk_node [where ts = ts and g = g and s = s, OF this] down_effect [of k g q d s] True Tg.prems(2,3) show ?thesis
      by simp
  qed
qed

text \<open>
  The whole test, on the tree of groups: its root has no limit; every other group is held against the
  nearest limit above it.
\<close>

definition cfs_data :: "tgid \<Rightarrow> u64 \<Rightarrow> u64 \<Rightarrow> cfs_schedulable_data" where
  "cfs_data tg period quota =
     (if quota \<noteq> RUNTIME_INF
      then \<lparr>cd_tg = tg, cd_period = period div NSEC_PER_USEC, cd_quota = quota div NSEC_PER_USEC\<rparr>
      else \<lparr>cd_tg = tg, cd_period = period, cd_quota = quota\<rparr>)"

definition cfs_tree :: "'x kernel \<Rightarrow> tg_tree \<Rightarrow> bool" where
  "cfs_tree k t \<longleftrightarrow> tg_root t = ROOT_TG \<and> tg_parent (tgs k ROOT_TG) = None \<and> distinct (tg_ids t)
     \<and> tg_linked (\<lambda>g. tg_children (tgs k g)) (\<lambda>g. tg_parent (tgs k g)) t"

lemma cfs_schedulable_tree:
  fixes s :: "'y cfs_state"
  assumes "cfs_tree k t"
  shows "\<exists>s'. cfs_schedulable k tg period quota s
      = Some (if list_all (shares_ok (shares_of (cfs_data tg period quota) s) RUNTIME_INF) (tg_subs t) then 0 else - EINVAL, s')
    \<and> only_hierarchal s s'"
proof -
  obtain ts where t: "t = Tg ROOT_TG ts" using assms by (cases t) (auto simp: cfs_tree_def)
  let ?d = "cfs_data tg period quota"
  have "walked (shares_ok (shares_of ?d s1) (hierarchal_quota (cfs_b s1 ROOT_TG)) u) (tg_ids u) s1
      (walk_rec (tg_cfs_schedulable_down k ?d) tg_nop u s1)" if "u \<in> set ts" for u and s1 :: "'y cfs_state"
    using walk_shares [of k u ROOT_TG ?d s1] assms that by (auto simp: cfs_tree_def t distinct_concat_iff)
  from walk_node [where ts = ts and g = ROOT_TG and s = s and par = RUNTIME_INF, OF this] assms
  have w: "walked (list_all (shares_ok (shares_of ?d s) RUNTIME_INF) ts) (tg_ids t) s
      (walk_rec (tg_cfs_schedulable_down k ?d) tg_nop t s)"
    by (auto simp: cfs_tree_def t tg_cfs_schedulable_down_def)
  have "cfs_schedulable k tg period quota s = Some (walk_rec (tg_cfs_schedulable_down k ?d) tg_nop t s)"
    using walk_loop_tree [of "\<lambda>g. tg_children (tgs k g)" "\<lambda>g. tg_parent (tgs k g)" t "tg_root t"
        "tg_cfs_schedulable_down k ?d" tg_nop s] assms
    by (simp add: cfs_schedulable_def cfs_data_def [symmetric] cfs_tree_def walk_tg_tree_from_def walk_after_def
        split: prod.splits)
  then show ?thesis using w
    by (cases "walk_rec (tg_cfs_schedulable_down k ?d) tg_nop t s") (auto simp: walked_def t)
qed

text \<open>The last loop.\<close>

definition cfs_rq_set :: "bool \<Rightarrow> cfs_rq \<Rightarrow> bool" where
  "cfs_rq_set en r \<longleftrightarrow> runtime_enabled r = en \<and> runtime_remaining r = 0 \<and> \<not> throttled r"

text \<open>
  What the functions of the fair class that are called do, as documented with them: they leave quota and
  period alone, and unthrottling a runqueue clears its flag and leaves its budget (and the other
  runqueues) alone.
\<close>

definition cfs_env_ok :: "'y cfs_env \<Rightarrow> bool" where
  "cfs_env_ok ce \<longleftrightarrow>
     (\<forall>g s h. cb_quota (cfs_b (refill_cfs_bandwidth_runtime ce g s) h) = cb_quota (cfs_b s h)
        \<and> cb_period (cfs_b (refill_cfs_bandwidth_runtime ce g s) h) = cb_period (cfs_b s h)
        \<and> cb_quota (cfs_b (start_cfs_bandwidth ce g s) h) = cb_quota (cfs_b s h)
        \<and> cb_period (cfs_b (start_cfs_bandwidth ce g s) h) = cb_period (cfs_b s h))
     \<and> (\<forall>a b s. cfs_b (account_cfs_bandwidth_used ce a b s) = cfs_b s)
     \<and> (\<forall>r s h. cb_quota (cfs_b (unthrottle_cfs_rq ce r s) h) = cb_quota (cfs_b s h)
        \<and> cb_period (cfs_b (unthrottle_cfs_rq ce r s) h) = cb_period (cfs_b s h))
     \<and> (\<forall>r s. cfs_rqs (unthrottle_cfs_rq ce r s) = (cfs_rqs s)(r := (cfs_rqs s r)\<lparr>throttled := False\<rparr>))"

lemma fold_set_cfs_rq:
  assumes "cfs_env_ok ce"
  shows "cb_quota (cfs_b (fold (set_cfs_rq ce tg en) is s) g) = cb_quota (cfs_b s g)
    \<and> cb_period (cfs_b (fold (set_cfs_rq ce tg en) is s) g) = cb_period (cfs_b s g)
    \<and> cfs_rqs (fold (set_cfs_rq ce tg en) is s) (tg, i) = (if i \<in> set is then (cfs_rqs s (tg, i))
      \<lparr>runtime_enabled := en, runtime_remaining := 0, throttled := False\<rparr> else cfs_rqs s (tg, i))"
proof (induction "is" arbitrary: s)
  case (Cons j "is")
  have "cb_quota (cfs_b (set_cfs_rq ce tg en j s) g) = cb_quota (cfs_b s g)"
    "cb_period (cfs_b (set_cfs_rq ce tg en j s) g) = cb_period (cfs_b s g)"
    using assms by (simp_all add: set_cfs_rq_def Let_def cfs_env_ok_def)
  moreover have "cfs_rqs (set_cfs_rq ce tg en j s) (tg, i) = (if i = j then (cfs_rqs s (tg, i))
      \<lparr>runtime_enabled := en, runtime_remaining := 0, throttled := False\<rparr> else cfs_rqs s (tg, i))"
    using assms by (cases "cfs_rqs s (tg, j)") (simp add: set_cfs_rq_def Let_def cfs_env_ok_def)
  ultimately show ?case using Cons.IH [of "set_cfs_rq ce tg en j s"] by (cases "i = j") auto
qed simp


text \<open>
  The share is a 32-bit number: a quota of 4096 periods has the share 0, and passes below every limit.
\<close>

lemma cfs_share_wraps: "to_ratio 1000 4096000 = 0"
proof -
  have "push_bit 20 (4096000 :: u64) div 1000 = 4294967296" "(4096000 :: u64) \<noteq> RUNTIME_INF" by code_simp+
  then show ?thesis by (simp add: to_ratio_def)
qed

section \<open>An example\<close>

text \<open>Group 1 below the root has 50 ms of every 100 ms, group 2 below it has no limit.\<close>

definition k_cfs :: "unit kernel" where
  "k_cfs = k0\<lparr>tgs := (\<lambda>g. tg0\<lparr>tg_children := (if g = 0 then [1] else if g = 1 then [2] else []),
     tg_parent := (if g = 0 then None else Some (g - 1))\<rparr>)\<rparr>"

definition t_cfs :: tg_tree where "t_cfs = Tg 0 [Tg 1 [Tg 2 []]]"

definition s_cfs :: "unit cfs_state" where
  "s_cfs = \<lparr>cfs_b = (\<lambda>g. \<lparr>cb_period = 100000000, cb_quota = (if g = 1 then 50000000 else RUNTIME_INF),
      hierarchal_quota = 0, timer_active = True, nr_periods = 0, nr_throttled = 0, throttled_time = 0\<rparr>),
    cfs_rqs = (\<lambda>_. \<lparr>runtime_enabled = False, runtime_remaining = 5, throttled = True\<rparr>), cfs_ext = ()\<rparr>"

definition ce0 :: "unit cfs_env" where
  "ce0 = \<lparr>refill_cfs_bandwidth_runtime = (\<lambda>g s. s), start_cfs_bandwidth = (\<lambda>g s. s),
     unthrottle_cfs_rq = (\<lambda>r. upd_cfs_rq r (\<lambda>q. q\<lparr>throttled := False\<rparr>)),
     account_cfs_bandwidth_used = (\<lambda>a b s. s)\<rparr>"

lemma cfs_example: "cfs_tree k_cfs t_cfs" "cfs_env_ok ce0"
  by (simp_all add: cfs_tree_def t_cfs_def k_cfs_def ROOT_TG_def cfs_env_ok_def ce0_def)


end
