(* ===== verification/Sched_Domains.thy ===== *)
theory Sched_Domains
  imports Sched_Hotplug
begin

text \<open>
  The construction of scheduling domains in \<open>core.c\<close>: for every cpu a chain of domains of growing
  span, for every domain a circular list of groups that cover its span, their attachment to the
  cpus, and the change of the partition into domains.

  \<open>__sdt_alloc\<close> allocates one domain, one group and one power structure per topology level and cpu,
  so that such a structure is known by these two numbers; the groups of overlapping domains are
  allocated one by one and known by the domain they were allocated for and the cpu they start with.
  What the header \<open>linux/topology.h\<close>, the architecture and \<open>update_group_power\<close> of the fair class
  contribute is in the record \<open>topo_level\<close> and in arguments. Structures that are released are
  marked; a released domain that is still attached is released after a grace period, which is not
  modelled.
\<close>

section \<open>Structures\<close>

type_synonym sdid = "nat \<times> cpu"

datatype sgid = Base sdid | Over sdid cpu

record dom =
  dm_parent :: "sdid option"
  dm_child :: "sdid option"
  dm_groups :: "sgid option"
  dm_flags :: u32
  dm_level :: int
  dm_span :: cpumask
  dm_span_weight :: int

record sched_group =
  sg_next :: sgid
  sg_ref :: int
  group_weight :: int
  sg_sgp :: sdid
  sg_cpus :: cpumask

record sched_group_power =
  sgp_power :: u32
  sgp_ref :: int
  nr_busy_cpus :: int

text \<open>The \<open>sd_data\<close> of all levels (whether a slot holds a pointer), the structures, and the globals.\<close>

record domains =
  dm :: "sdid \<Rightarrow> dom"
  sg :: "sgid \<Rightarrow> sched_group"
  sgp :: "sdid \<Rightarrow> sched_group_power"
  sdd_sd :: "sdid \<Rightarrow> bool"
  sdd_sg :: "sdid \<Rightarrow> bool"
  sdd_sgp :: "sdid \<Rightarrow> bool"
  sd_freed :: "sdid \<Rightarrow> bool"
  sg_freed :: "sgid \<Rightarrow> bool"
  sgp_freed :: "sdid \<Rightarrow> bool"
  sched_domain_level_max :: int
  default_relax_domain_level :: int
  llc_id :: "cpu \<Rightarrow> nat"

text \<open>A level of the topology: the flags of its \<open>SD_*_INIT\<close>, its mask, and \<open>SDTL_OVERLAP\<close>.\<close>

record topo_level =
  tl_init_flags :: u32
  tl_mask :: "cpu \<Rightarrow> cpumask"
  tl_overlap :: bool

definition SD_OVERLAP :: u32 where "SD_OVERLAP = 0x2000"
definition SD_BALANCE_WAKE_flag :: u32 where "SD_BALANCE_WAKE_flag = 0x0010"

abbreviation upd_dm :: "sdid \<Rightarrow> (dom \<Rightarrow> dom) \<Rightarrow> domains \<Rightarrow> domains" where
  "upd_dm d f \<equiv> dm_update (\<lambda>m. m(d := f (m d)))"

abbreviation upd_sg :: "sgid \<Rightarrow> (sched_group \<Rightarrow> sched_group) \<Rightarrow> domains \<Rightarrow> domains" where
  "upd_sg g f \<equiv> sg_update (\<lambda>m. m(g := f (m g)))"

abbreviation upd_sgp :: "sdid \<Rightarrow> (sched_group_power \<Rightarrow> sched_group_power) \<Rightarrow> domains \<Rightarrow> domains" where
  "upd_sgp d f \<equiv> sgp_update (\<lambda>m. m(d := f (m d)))"

definition cpumask_first :: "'x env \<Rightarrow> cpumask \<Rightarrow> cpu" where
  "cpumask_first env m = (case for_each_cpu env m of [] \<Rightarrow> nr_cpu_ids env | c # _ \<Rightarrow> c)"

definition cpumask_equal :: "'x env \<Rightarrow> cpumask \<Rightarrow> cpumask \<Rightarrow> bool" where
  "cpumask_equal env a b \<longleftrightarrow> list_all (\<lambda>i. a i = b i) [0..<nr_cpu_ids env]"

section \<open>Groups\<close>

text \<open>\<open>get_group\<close> without and with its pointer argument.\<close>

definition get_group :: "'x env \<Rightarrow> nat \<Rightarrow> cpu \<Rightarrow> domains \<Rightarrow> cpu" where
  "get_group env l c s =
     (case dm_child (dm s (l, c)) of None \<Rightarrow> c | Some ch \<Rightarrow> cpumask_first env (dm_span (dm s ch)))"

definition get_group_ptr :: "'x env \<Rightarrow> nat \<Rightarrow> cpu \<Rightarrow> domains \<Rightarrow> cpu \<times> domains" where
  "get_group_ptr env l c s =
     (let g = get_group env l c s;
          s = upd_sg (Base (l, g)) (\<lambda>x. x\<lparr>sg_sgp := (l, g)\<rparr>) s
      in (g, upd_sgp (l, g) (\<lambda>x. x\<lparr>sgp_ref := 1\<rparr>) s))"

text \<open>The inner loop over \<open>j\<close>.\<close>

definition fill_group ::
  "'x env \<Rightarrow> nat \<Rightarrow> cpu \<Rightarrow> cpu list \<Rightarrow> cpumask \<times> domains \<Rightarrow> cpumask \<times> domains" where
  "fill_group env l grp span =
     fold (\<lambda>j (covered, s).
         if get_group env l j s \<noteq> grp then (covered, s)
         else (covered(j := True), upd_sg (Base (l, grp)) (\<lambda>x. x\<lparr>sg_cpus := (sg_cpus x)(j := True)\<rparr>) s)) span"

text \<open>The outer loop over \<open>i\<close>, with \<open>covered\<close>, \<open>first\<close> and \<open>last\<close>.\<close>

fun groups_loop ::
  "'x env \<Rightarrow> nat \<Rightarrow> cpu list \<Rightarrow> cpu list \<Rightarrow> cpumask \<Rightarrow> sgid option \<Rightarrow> sgid option \<Rightarrow> domains
     \<Rightarrow> sgid option \<times> sgid option \<times> domains" where
  "groups_loop env l span [] covered first last_g s = (first, last_g, s)"
| "groups_loop env l span (i # is) covered first last_g s =
     (case get_group_ptr env l i s of (grp, s) \<Rightarrow>
        if covered i then groups_loop env l span is covered first last_g s
        else
          let g = Base (l, grp);
              s = upd_sg g (\<lambda>x. x\<lparr>sg_cpus := (\<lambda>_. False)\<rparr>) s;
              s = upd_sgp (l, grp) (\<lambda>x. x\<lparr>sgp_power := 0\<rparr>) s in
          case fill_group env l grp span (covered, s) of (covered, s) \<Rightarrow>
            let s = (case last_g of None \<Rightarrow> s | Some p \<Rightarrow> upd_sg p (\<lambda>x. x\<lparr>sg_next := g\<rparr>) s)
            in groups_loop env l span is covered
                 (case first of None \<Rightarrow> Some g | Some f \<Rightarrow> Some f) (Some g) s)"

definition build_sched_groups :: "'x env \<Rightarrow> sdid \<Rightarrow> domains \<Rightarrow> domains" where
  "build_sched_groups env sd s =
     (case sd of (l, c) \<Rightarrow>
        case get_group_ptr env l c s of (g, s) \<Rightarrow>
          let s = upd_dm sd (\<lambda>d. d\<lparr>dm_groups := Some (Base (l, g))\<rparr>) s;
              s = upd_sg (Base (l, g)) (\<lambda>x. x\<lparr>sg_ref := sg_ref x + 1\<rparr>) s;
              span = dm_span (dm s sd) in
          if c \<noteq> cpumask_first env span then s
          else
            let cpus = for_each_cpu env span in
            (case groups_loop env l cpus cpus (\<lambda>_. False) None None s of
               (fg, lg, s) \<Rightarrow>
                 (case (fg, lg) of
                    (Some f, Some la) \<Rightarrow> upd_sg la (\<lambda>x. x\<lparr>sg_next := f\<rparr>) s
                  | _ \<Rightarrow> s)))"

text \<open>
  The loop of \<open>free_sched_groups\<close> around a circle of groups; the fuel bounds their number.
\<close>

fun free_groups_from :: "nat \<Rightarrow> sgid \<Rightarrow> sgid \<Rightarrow> domains \<Rightarrow> domains" where
  "free_groups_from 0 stop_g g s = s"
| "free_groups_from (Suc n) stop_g g s =
     (let tmp = sg_next (sg s g);
          s = sg_freed_update (\<lambda>m. m(g := True)) s
      in if tmp = stop_g then s else free_groups_from n stop_g tmp s)"

definition free_sched_groups :: "'x env \<Rightarrow> sgid option \<Rightarrow> domains \<Rightarrow> domains" where
  "free_sched_groups env g s =
     (case g of None \<Rightarrow> s | Some f \<Rightarrow> free_groups_from (nr_cpu_ids env) f f s)"

text \<open>
  \<open>build_overlap_sched_groups\<close>. \<open>mem i\<close> tells whether the group that starts with cpu \<open>i\<close> can be
  allocated; a failure gives \<open>- ENOMEM\<close>, the groups so far are released.
\<close>

fun overlap_loop ::
  "'x env \<Rightarrow> (cpu \<Rightarrow> bool) \<Rightarrow> sdid \<Rightarrow> cpu list \<Rightarrow> cpumask \<Rightarrow> sgid option \<Rightarrow> sgid option \<Rightarrow> sgid option
     \<Rightarrow> domains \<Rightarrow> (sgid option \<times> domains) + domains" where
  "overlap_loop env mem sd [] covered first last_g groups s = Inl (groups, s)"
| "overlap_loop env mem sd (i # is) covered first last_g groups s =
     (if covered i then overlap_loop env mem sd is covered first last_g groups s
      else if \<not> mem i
      then Inr (free_sched_groups env first s)
      else
        let g = Over sd i;
            span = (case dm_child (dm s (fst sd, i)) of
                      Some ch \<Rightarrow> dm_span (dm s ch)
                    | None \<Rightarrow> (\<lambda>j. j = i));
            p = (fst sd, cpumask_first env span);
            s = sg_update (\<lambda>m. m(g := \<lparr>sg_next = g, sg_ref = 0, group_weight = 0, sg_sgp = p, sg_cpus = span\<rparr>)) s;
            covered = (\<lambda>j. covered j \<or> span j);
            s = upd_sgp p (\<lambda>x. x\<lparr>sgp_ref := sgp_ref x + 1\<rparr>) s;
            groups = (if span (snd sd) then Some g else groups);
            first = (case first of None \<Rightarrow> Some g | Some f \<Rightarrow> Some f);
            s = (case last_g of None \<Rightarrow> s | Some q \<Rightarrow> upd_sg q (\<lambda>x. x\<lparr>sg_next := g\<rparr>) s);
            s = upd_sg g (\<lambda>x. x\<lparr>sg_next := the first\<rparr>) s
        in overlap_loop env mem sd is covered first (Some g) groups s)"

definition build_overlap_sched_groups :: "'x env \<Rightarrow> (cpu \<Rightarrow> bool) \<Rightarrow> sdid \<Rightarrow> domains \<Rightarrow> int \<times> domains" where
  "build_overlap_sched_groups env mem sd s =
     (case overlap_loop env mem sd (for_each_cpu env (dm_span (dm s sd))) (\<lambda>_. False) None None None s of
        Inl (groups, s) \<Rightarrow> (0, upd_dm sd (\<lambda>d. d\<lparr>dm_groups := groups\<rparr>) s)
      | Inr s \<Rightarrow> (- ENOMEM, s))"

text \<open>
  The loop around the circle of groups; the fuel is the number of cpus, and a group has at least one.
\<close>

fun weigh_groups :: "'x env \<Rightarrow> nat \<Rightarrow> sgid \<Rightarrow> sgid \<Rightarrow> domains \<Rightarrow> domains" where
  "weigh_groups env 0 stop_g g s = s"
| "weigh_groups env (Suc n) stop_g g s =
     (let s = upd_sg g (\<lambda>x. x\<lparr>group_weight := cpumask_weight env (sg_cpus x)\<rparr>) s;
          g = sg_next (sg s g)
      in if g = stop_g then s else weigh_groups env n stop_g g s)"

definition init_sched_groups_power ::
  "'x env \<Rightarrow> (sdid \<Rightarrow> domains \<Rightarrow> domains) \<Rightarrow> sdid \<Rightarrow> domains \<Rightarrow> domains" where
  "init_sched_groups_power env update_group_power sd s =
     (case dm_groups (dm s sd) of
        None \<Rightarrow> s
      | Some g \<Rightarrow>
          let s = weigh_groups env (nr_cpu_ids env) g g s in
          if snd sd \<noteq> cpumask_first env (sg_cpus (sg s g)) then s
          else
            let s = update_group_power sd s
            in upd_sgp (sg_sgp (sg s g)) (\<lambda>x. x\<lparr>nr_busy_cpus := group_weight (sg s g)\<rparr>) s)"

section \<open>Domains\<close>

definition set_domain_attribute :: "sdid \<Rightarrow> int option \<Rightarrow> domains \<Rightarrow> domains" where
  "set_domain_attribute sd attr s =
     (let request = (case attr of
            None \<Rightarrow> default_relax_domain_level s
          | Some a \<Rightarrow> if a < 0 then default_relax_domain_level s else a) in
      if request < 0 then s
      else if request < dm_level (dm s sd)
      then upd_dm sd (\<lambda>d. d\<lparr>dm_flags := dm_flags d AND NOT (SD_BALANCE_WAKE_flag OR SD_BALANCE_NEWIDLE)\<rparr>) s
      else upd_dm sd (\<lambda>d. d\<lparr>dm_flags := dm_flags d OR (SD_BALANCE_WAKE_flag OR SD_BALANCE_NEWIDLE)\<rparr>) s)"

definition build_sched_domain ::
  "nat \<Rightarrow> topo_level \<Rightarrow> cpumask \<Rightarrow> int option \<Rightarrow> sdid option \<Rightarrow> cpu \<Rightarrow> domains \<Rightarrow> sdid \<times> domains" where
  "build_sched_domain l lv cpu_map attr child c s =
     (let sd = (l, c);
          s = dm_update (\<lambda>m. m(sd := \<lparr>dm_parent = None, dm_child = None, dm_groups = None,
                dm_flags = tl_init_flags lv, dm_level = 0, dm_span = (\<lambda>_. False), dm_span_weight = 0\<rparr>)) s;
          s = upd_dm sd (\<lambda>d. d\<lparr>dm_span := (\<lambda>i. cpu_map i \<and> tl_mask lv c i)\<rparr>) s;
          s = (case child of
                 None \<Rightarrow> s
               | Some ch \<Rightarrow>
                   let s = upd_dm sd (\<lambda>d. d\<lparr>dm_level := dm_level (dm s ch) + 1\<rparr>) s;
                       s = s\<lparr>sched_domain_level_max := max (sched_domain_level_max s) (dm_level (dm s sd))\<rparr>
                   in upd_dm ch (\<lambda>d. d\<lparr>dm_parent := Some sd\<rparr>) s);
          s = upd_dm sd (\<lambda>d. d\<lparr>dm_child := child\<rparr>) s
      in (sd, set_domain_attribute sd attr s))"

text \<open>The levels for one cpu, from \<open>l\<close> on; and down again to the lowest domain.\<close>

fun build_levels ::
  "'x env \<Rightarrow> bool \<Rightarrow> nat \<Rightarrow> topo_level list \<Rightarrow> cpumask \<Rightarrow> int option \<Rightarrow> sdid option \<Rightarrow> cpu \<Rightarrow> domains
     \<Rightarrow> sdid option \<times> domains" where
  "build_levels env force_overlap l [] cpu_map attr sd c s = (sd, s)"
| "build_levels env force_overlap l (lv # lvs) cpu_map attr sd c s =
     (case build_sched_domain l lv cpu_map attr sd c s of (d, s) \<Rightarrow>
        let s = (if tl_overlap lv \<or> force_overlap
                 then upd_dm d (\<lambda>x. x\<lparr>dm_flags := dm_flags x OR SD_OVERLAP\<rparr>) s else s) in
        if cpumask_equal env cpu_map (dm_span (dm s d)) then (Some d, s)
        else build_levels env force_overlap (Suc l) lvs cpu_map attr (Some d) c s)"

fun lowest_domain :: "nat \<Rightarrow> sdid \<Rightarrow> domains \<Rightarrow> sdid" where
  "lowest_domain 0 sd s = sd"
| "lowest_domain (Suc n) sd s =
     (case dm_child (dm s sd) of None \<Rightarrow> sd | Some ch \<Rightarrow> lowest_domain n ch s)"

text \<open>\<open>for (; sd; sd = sd->parent)\<close>, at most as many steps as there are levels.\<close>

fun domain_chain :: "nat \<Rightarrow> sdid option \<Rightarrow> domains \<Rightarrow> sdid list" where
  "domain_chain 0 sd s = []"
| "domain_chain (Suc n) None s = []"
| "domain_chain (Suc n) (Some sd) s = sd # domain_chain n (dm_parent (dm s sd)) s"

definition claim_allocations :: "sdid \<Rightarrow> domains \<Rightarrow> domains" where
  "claim_allocations sd s =
     (let s = sdd_sd_update (\<lambda>m. m(sd := False)) s;
          s = (if sg_ref (sg s (Base sd)) \<noteq> 0 then sdd_sg_update (\<lambda>m. m(sd := False)) s else s)
      in if sgp_ref (sgp s sd) \<noteq> 0 then sdd_sgp_update (\<lambda>m. m(sd := False)) s else s)"

subsection \<open>Storage\<close>

text \<open>
  \<open>__sdt_alloc\<close>: \<open>mem d n\<close> tells whether the domain (0), the group (1) and the power structure (2) of
  the slot can be allocated; the result is whether all could. \<open>__sdt_free\<close> releases what is still
  in the slots.
\<close>

definition sdt_alloc_sd :: "sdid \<Rightarrow> domains \<Rightarrow> domains" where
  "sdt_alloc_sd d s =
     s\<lparr>sdd_sd := (sdd_sd s)(d := True), sd_freed := (sd_freed s)(d := False),
       dm := (dm s)(d := \<lparr>dm_parent = None, dm_child = None, dm_groups = None, dm_flags = 0, dm_level = 0,
                         dm_span = (\<lambda>_. False), dm_span_weight = 0\<rparr>)\<rparr>"

definition sdt_alloc_sg :: "sdid \<Rightarrow> domains \<Rightarrow> domains" where
  "sdt_alloc_sg d s =
     s\<lparr>sdd_sg := (sdd_sg s)(d := True), sg_freed := (sg_freed s)(Base d := False),
       sg := (sg s)(Base d := \<lparr>sg_next = Base d, sg_ref = 0, group_weight = 0, sg_sgp = d,
                              sg_cpus = (\<lambda>_. False)\<rparr>)\<rparr>"

definition sdt_alloc_sgp :: "sdid \<Rightarrow> domains \<Rightarrow> domains" where
  "sdt_alloc_sgp d s =
     s\<lparr>sdd_sgp := (sdd_sgp s)(d := True), sgp_freed := (sgp_freed s)(d := False),
       sgp := (sgp s)(d := \<lparr>sgp_power = 0, sgp_ref = 0, nr_busy_cpus = 0\<rparr>)\<rparr>"

fun sdt_alloc :: "(sdid \<Rightarrow> nat \<Rightarrow> bool) \<Rightarrow> sdid list \<Rightarrow> domains \<Rightarrow> bool \<times> domains" where
  "sdt_alloc mem [] s = (True, s)"
| "sdt_alloc mem (d # ds) s =
     (if \<not> mem d 0 then (False, s)
      else
        let s = sdt_alloc_sd d s in
        if \<not> mem d 1 then (False, s)
        else
          let s = sdt_alloc_sg d s in
          if \<not> mem d 2 then (False, s)
          else sdt_alloc mem ds (sdt_alloc_sgp d s))"

definition sdt_free_one :: "'x env \<Rightarrow> sdid \<Rightarrow> domains \<Rightarrow> domains" where
  "sdt_free_one env d s =
     (let s = (if sdd_sd s d
               then sd_freed_update (\<lambda>m. m(d := True))
                      (if dm_flags (dm s d) AND SD_OVERLAP \<noteq> 0
                       then free_sched_groups env (dm_groups (dm s d)) s else s)
               else s);
          s = (if sdd_sg s d then sg_freed_update (\<lambda>m. m(Base d := True)) s else s);
          s = (if sdd_sgp s d then sgp_freed_update (\<lambda>m. m(d := True)) s else s)
      in s\<lparr>sdd_sd := (sdd_sd s)(d := False), sdd_sg := (sdd_sg s)(d := False),
           sdd_sgp := (sdd_sgp s)(d := False)\<rparr>)"

definition slots :: "'x env \<Rightarrow> topo_level list \<Rightarrow> cpumask \<Rightarrow> sdid list" where
  "slots env topology cpu_map =
     concat (map (\<lambda>l. map (Pair l) (for_each_cpu env cpu_map)) [0..<length topology])"

section \<open>Attaching\<close>

text \<open>What the balancing code sees of a domain.\<close>

definition sd_view :: "domains \<Rightarrow> sdid \<Rightarrow> sched_domain" where
  "sd_view s sd =
     \<lparr>sd_flags = dm_flags (dm s sd), sd_span = dm_span (dm s sd),
      sd_one_group = (case dm_groups (dm s sd) of None \<Rightarrow> True | Some g \<Rightarrow> sg_next (sg s g) = g)\<rparr>"

definition highest_flag_domain :: "cpu \<Rightarrow> u32 \<Rightarrow> 'x kernel \<Rightarrow> sched_domain option" where
  "highest_flag_domain c flag k =
     (case takeWhile (\<lambda>d. sd_flags d AND flag \<noteq> 0) (sched_doms k c) of [] \<Rightarrow> None | ds \<Rightarrow> Some (last ds))"

definition update_top_cache_domain :: "'x env \<Rightarrow> cpu \<Rightarrow> 'x kernel \<Rightarrow> domains \<Rightarrow> domains" where
  "update_top_cache_domain env c k =
     llc_id_update (\<lambda>m. m(c := (case highest_flag_domain c SD_SHARE_PKG_RESOURCES k of
        None \<Rightarrow> c | Some d \<Rightarrow> cpumask_first env (sd_span d))))"

text \<open>
  \<open>rq_attach_root\<close>. A cpu is in one root domain at a time, and the masks of the model are the union of
  those of all root domains; \<open>had_rd\<close>: the runqueue was attached before.
\<close>

definition rq_attach_root :: "'x env \<Rightarrow> bool \<Rightarrow> cpu \<Rightarrow> 'x kernel \<Rightarrow> 'x kernel" where
  "rq_attach_root env had_rd c k =
     (let k = (if had_rd then
                 rd_span_update (\<lambda>m. m(c := False)) (if rd_online k c then set_rq_offline env c k else k)
               else k);
          k = rd_span_update (\<lambda>m. m(c := True)) k
      in if cpu_active_mask k c then set_rq_online env c k else k)"

text \<open>The loop that removes parents which add nothing; a step removes one or goes one up.\<close>

fun drop_degenerate :: "'x env \<Rightarrow> nat \<Rightarrow> nat \<Rightarrow> sdid option \<Rightarrow> domains \<Rightarrow> domains" where
  "drop_degenerate env nr_nodes 0 tmp s = s"
| "drop_degenerate env nr_nodes (Suc n) None s = s"
| "drop_degenerate env nr_nodes (Suc n) (Some tmp) s =
     (case dm_parent (dm s tmp) of
        None \<Rightarrow> s
      | Some p \<Rightarrow>
          if sd_parent_degenerate env nr_nodes (sd_view s tmp) (sd_view s p) then
            let pp = dm_parent (dm s p);
                s = upd_dm tmp (\<lambda>d. d\<lparr>dm_parent := pp\<rparr>) s;
                s = (case pp of None \<Rightarrow> s | Some q \<Rightarrow> upd_dm q (\<lambda>d. d\<lparr>dm_child := Some tmp\<rparr>) s)
            in drop_degenerate env nr_nodes n (Some tmp) s
          else drop_degenerate env nr_nodes n (Some p) s)"

definition cpu_attach_domain ::
  "'x env \<Rightarrow> nat \<Rightarrow> nat \<Rightarrow> sdid option \<Rightarrow> cpu \<Rightarrow> 'x kernel \<times> domains \<Rightarrow> 'x kernel \<times> domains" where
  "cpu_attach_domain env nr_nodes levels sd c ks =
     (case ks of (k, s) \<Rightarrow>
        let s = drop_degenerate env nr_nodes levels sd s;
            (sd, s) =
              (case sd of
                 None \<Rightarrow> (None, s)
               | Some d \<Rightarrow>
                   if sd_degenerate env (sd_view s d) then
                     (case dm_parent (dm s d) of
                        None \<Rightarrow> (None, s)
                      | Some p \<Rightarrow> (Some p, upd_dm p (\<lambda>x. x\<lparr>dm_child := None\<rparr>) s))
                   else (Some d, s));
            k = rq_attach_root env True c k;
            k = sched_doms_update (\<lambda>m. m(c := map (sd_view s) (domain_chain levels sd s))) k
        in (k, update_top_cache_domain env c k s))"

section \<open>Building and changing the partition\<close>

text \<open>What can fail: the storage, the allocations around it, and single groups.\<close>

record alloc_results =
  al_slot :: "sdid \<Rightarrow> nat \<Rightarrow> bool"
  al_other :: bool
  al_group :: "sdid \<Rightarrow> cpu \<Rightarrow> bool"

fun build_groups_of :: "'x env \<Rightarrow> alloc_results \<Rightarrow> sdid list \<Rightarrow> domains \<Rightarrow> bool \<times> domains" where
  "build_groups_of env al [] s = (True, s)"
| "build_groups_of env al (sd # sds) s =
     (let s = upd_dm sd (\<lambda>d. d\<lparr>dm_span_weight := cpumask_weight env (dm_span d)\<rparr>) s in
      if dm_flags (dm s sd) AND SD_OVERLAP \<noteq> 0 then
        (case build_overlap_sched_groups env (al_group al sd) sd s of (ret, s) \<Rightarrow>
           if ret \<noteq> 0 then (False, s) else build_groups_of env al sds s)
      else build_groups_of env al sds (build_sched_groups env sd s))"

definition build_sched_domains ::
  "'x env \<Rightarrow> topo_level list \<Rightarrow> bool \<Rightarrow> nat \<Rightarrow> (sdid \<Rightarrow> domains \<Rightarrow> domains) \<Rightarrow> alloc_results
     \<Rightarrow> cpumask \<Rightarrow> int option \<Rightarrow> 'x kernel \<times> domains \<Rightarrow> int \<times> 'x kernel \<times> domains" where
  "build_sched_domains env topology force_overlap nr_nodes update_group_power al cpu_map attr ks =
     (case ks of (k, s) \<Rightarrow>
        let levels = length topology;
            cpus = for_each_cpu env cpu_map;
            sls = slots env topology cpu_map;
            cleanup = (\<lambda>s. fold (sdt_free_one env) sls s) in
        case sdt_alloc (al_slot al) sls s of (ok, s) \<Rightarrow>
          if \<not> ok \<or> \<not> al_other al then (- ENOMEM, k, cleanup s)
          else
            let (base, s) =
                  fold (\<lambda>i (base, s).
                    case build_levels env force_overlap 0 topology cpu_map attr None i s of
                      (sd, s) \<Rightarrow> (base(i := map_option (\<lambda>d. lowest_domain levels d s) sd), s)) cpus
                    ((\<lambda>_. None), s);
                chains = (\<lambda>i s. domain_chain levels (base i) s) in
            case build_groups_of env al (concat (map (\<lambda>i. chains i s) cpus)) s of (ok, s) \<Rightarrow>
              if \<not> ok then (- ENOMEM, k, cleanup s)
              else
                let s = fold (\<lambda>i s. fold (\<lambda>sd s. init_sched_groups_power env update_group_power sd
                                                   (claim_allocations sd s)) (chains i s) s) (rev cpus) s;
                    (k, s) = fold (\<lambda>i. cpu_attach_domain env nr_nodes levels (base i) i) cpus (k, s)
                in (0, k, cleanup s))"

definition detach_destroy_domains ::
  "'x env \<Rightarrow> nat \<Rightarrow> nat \<Rightarrow> cpumask \<Rightarrow> 'x kernel \<times> domains \<Rightarrow> 'x kernel \<times> domains" where
  "detach_destroy_domains env nr_nodes levels cpu_map =
     fold (cpu_attach_domain env nr_nodes levels None) (for_each_cpu env cpu_map)"

text \<open>The attributes of domain \<open>i\<close>; without attributes, and by default, the level is -1.\<close>

definition dattrs_equal :: "int list option \<Rightarrow> nat \<Rightarrow> int list option \<Rightarrow> nat \<Rightarrow> bool" where
  "dattrs_equal cur i new j \<longleftrightarrow>
     (if new = None \<and> cur = None then True
      else (case cur of None \<Rightarrow> -1 | Some a \<Rightarrow> a ! i) = (case new of None \<Rightarrow> -1 | Some a \<Rightarrow> a ! j))"

record partition =
  doms_cur :: "cpumask list"
  dattr_cur :: "int list option"
  cpu_isolated_map :: cpumask

text \<open>
  \<open>partition_sched_domains\<close>. What detaching and building a domain do is given by two functions, so
  that the same text serves the real ones and a log; \<open>new_topology\<close> is the result of
  \<open>arch_update_cpu_topology\<close>.
\<close>

definition same_domain ::
  "'x env \<Rightarrow> cpumask list \<Rightarrow> int list option \<Rightarrow> nat \<Rightarrow> cpumask list \<Rightarrow> int list option \<Rightarrow> nat \<Rightarrow> bool" where
  "same_domain env ds at i es bt j \<longleftrightarrow> cpumask_equal env (ds ! i) (es ! j) \<and> dattrs_equal at i bt j"

definition partition_sched_domains ::
  "'x env \<Rightarrow> bool \<Rightarrow> (cpumask \<Rightarrow> 's \<Rightarrow> 's) \<Rightarrow> (cpumask \<Rightarrow> int option \<Rightarrow> 's \<Rightarrow> 's) \<Rightarrow> cpumask \<Rightarrow>
   nat \<Rightarrow> cpumask list option \<Rightarrow> int list option \<Rightarrow> partition \<times> 's \<Rightarrow> partition \<times> 's" where
  "partition_sched_domains env new_topology detach build active ndoms_new doms_new dattr_new ps =
     (case ps of (pt, s) \<Rightarrow>
        let n = (if doms_new = None then 0 else ndoms_new);
            s = fold (\<lambda>i s.
                  if list_ex (same_domain env (doms_cur pt) (dattr_cur pt) i (the doms_new) dattr_new)
                       [0..<(if new_topology then 0 else n)]
                  then s else detach (doms_cur pt ! i) s) [0..<length (doms_cur pt)] s;
            (ncur, doms_new) =
              (case doms_new of
                 None \<Rightarrow> (0, [\<lambda>i. active i \<and> \<not> cpu_isolated_map pt i])
               | Some ds \<Rightarrow> (length (doms_cur pt), ds));
            s = fold (\<lambda>i s.
                  if list_ex (same_domain env doms_new dattr_new i (doms_cur pt) (dattr_cur pt))
                       [0..<(if new_topology then 0 else ncur)]
                  then s else build (doms_new ! i) (map_option (\<lambda>a. a ! i) dattr_new) s) [0..<ndoms_new] s
        in (pt\<lparr>doms_cur := take ndoms_new doms_new, dattr_cur := dattr_new\<rparr>, s))"

section \<open>NUMA nodes\<close>

text \<open>
  \<open>find_next_best_node\<close>: \<open>None\<close> is -1. \<open>nr_node_ids\<close>, the number of cpus of a node and the distance
  are the architecture's.
\<close>

definition find_next_best_node ::
  "nat \<Rightarrow> (nat \<Rightarrow> nat) \<Rightarrow> (nat \<Rightarrow> nat \<Rightarrow> int) \<Rightarrow> nat \<Rightarrow> (nat \<Rightarrow> bool) \<Rightarrow> nat option \<times> (nat \<Rightarrow> bool)" where
  "find_next_best_node nr_node_ids nr_cpus_node node_distance node used =
     (let step = (\<lambda>i (min_val, best).
            let n = (node + i) mod nr_node_ids in
            if nr_cpus_node n = 0 then (min_val, best)
            else if used n then (min_val, best)
            else
              let val = node_distance node n in
              if val < min_val then (val, Some n) else (min_val, best));
          best = snd (fold step [0..<nr_node_ids] (2147483647, None))
      in (best, case best of None \<Rightarrow> used | Some n \<Rightarrow> used(n := True)))"

fun node_span_loop ::
  "nat \<Rightarrow> (nat \<Rightarrow> (nat \<Rightarrow> bool) \<Rightarrow> nat option \<times> (nat \<Rightarrow> bool)) \<Rightarrow> (nat \<Rightarrow> cpumask) \<Rightarrow> nat \<Rightarrow> (nat \<Rightarrow> bool) \<Rightarrow> cpumask \<Rightarrow> cpumask" where
  "node_span_loop 0 next_node cpumask_of_node node used span = span"
| "node_span_loop (Suc m) next_node cpumask_of_node node used span =
     (case next_node node used of
        (None, used) \<Rightarrow> span
      | (Some n, used) \<Rightarrow>
          node_span_loop m next_node cpumask_of_node node used (\<lambda>i. span i \<or> cpumask_of_node n i))"

text \<open>\<open>SD_NODES_PER_DOMAIN\<close> is 16; it comes from the architecture.\<close>

definition sched_domain_node_span ::
  "nat \<Rightarrow> (nat \<Rightarrow> (nat \<Rightarrow> bool) \<Rightarrow> nat option \<times> (nat \<Rightarrow> bool)) \<Rightarrow> (nat \<Rightarrow> cpumask) \<Rightarrow> nat \<Rightarrow> cpumask" where
  "sched_domain_node_span nodes_per_domain next_node cpumask_of_node node =
     node_span_loop (nodes_per_domain - 1) next_node cpumask_of_node node (\<lambda>n. n = node) (cpumask_of_node node)"

end
