(* ===== verification/Domain_Props.thy ===== *)
theory Domain_Props
  imports Sched_Domains Example_State
begin

text \<open>
  Properties of the scheduling domains: the circle of groups that \<open>build_sched_groups\<close> leaves, the
  change of the partition, and the choice of the next node.
\<close>

section \<open>The circle of groups\<close>

text \<open>The different members of a list in the order of their first occurrence, after \<open>acc\<close>.\<close>

fun uniq :: "'a list \<Rightarrow> 'a list \<Rightarrow> 'a list" where
  "uniq acc [] = acc"
| "uniq acc (x # xs) = uniq (if x \<in> set acc then acc else acc @ [x]) xs"

lemma uniq_set [simp]: "set (uniq acc xs) = set acc \<union> set xs"
  by (induction acc xs rule: uniq.induct) auto

lemma uniq_distinct [simp]: "distinct acc \<Longrightarrow> distinct (uniq acc xs)"
  by (induction acc xs rule: uniq.induct) auto

lemma get_group_cong: "dm s' = dm s \<Longrightarrow> get_group env l j s' = get_group env l j s"
  by (simp add: get_group_def split: option.split)

lemma get_group_ptr_simp:
  "get_group_ptr env l c s =
     (get_group env l c s,
      upd_sgp (l, get_group env l c s) (\<lambda>x. x\<lparr>sgp_ref := 1\<rparr>)
        (upd_sg (Base (l, get_group env l c s)) (\<lambda>x. x\<lparr>sg_sgp := (l, get_group env l c s)\<rparr>) s))"
  by (simp add: get_group_ptr_def Let_def)

lemma fill_group_Cons:
  "fill_group env l g (i # js) (cov, s) =
     (if get_group env l i s \<noteq> g then fill_group env l g js (cov, s)
      else fill_group env l g js (cov(i := True),
             upd_sg (Base (l, g)) (\<lambda>x. x\<lparr>sg_cpus := (sg_cpus x)(i := True)\<rparr>) s))"
  by (simp add: fill_group_def)

lemma fill_group_run:
  "fst (fill_group env l g js (cov, s)) = (\<lambda>j. cov j \<or> j \<in> set js \<and> get_group env l j s = g) \<and>
   dm (snd (fill_group env l g js (cov, s))) = dm s \<and>
   sg_next (sg (snd (fill_group env l g js (cov, s))) x) = sg_next (sg s x) \<and>
   sg_cpus (sg (snd (fill_group env l g js (cov, s))) x) =
     (\<lambda>j. sg_cpus (sg s x) j \<or> x = Base (l, g) \<and> j \<in> set js \<and> get_group env l j s = g)"
proof (induction js arbitrary: cov s)
  case Nil
  show ?case by (simp add: fill_group_def)
next
  case (Cons i js)
  let ?s = "upd_sg (Base (l, g)) (\<lambda>x. x\<lparr>sg_cpus := (sg_cpus x)(i := True)\<rparr>) s"
  have eq: "get_group env l j ?s = get_group env l j s" for j
    by (rule get_group_cong) simp
  show ?case
  proof (cases "get_group env l i s = g")
    case True
    then have run: "fill_group env l g (i # js) (cov, s) = fill_group env l g js (cov(i := True), ?s)"
      by (simp only: fill_group_Cons simp_thms if_False)
    obtain covF sF where F: "fill_group env l g js (cov(i := True), ?s) = (covF, sF)"
      by fastforce
    show ?thesis
      using Cons.IH [of "cov(i := True)" ?s] True unfolding run eq F by (auto simp: fun_eq_iff)
  next
    case False
    then have run: "fill_group env l g (i # js) (cov, s) = fill_group env l g js (cov, s)"
      by (simp only: fill_group_Cons simp_thms if_True)
    obtain covF sF where F: "fill_group env l g js (cov, s) = (covF, sF)"
      by fastforce
    show ?thesis
      using Cons.IH [of cov s] False unfolding run F by (auto simp: fun_eq_iff)
  qed
qed

text \<open>What the loop has built after the groups \<open>gs\<close>.\<close>

definition circle_part ::
  "'x env \<Rightarrow> nat \<Rightarrow> cpu list \<Rightarrow> (cpu \<Rightarrow> cpu) \<Rightarrow> cpu list \<Rightarrow> cpumask \<Rightarrow> sgid option \<Rightarrow> sgid option \<Rightarrow> domains \<Rightarrow> bool" where
  "circle_part env l cpus gr gs cov first last_g s \<longleftrightarrow>
     (\<forall>j. get_group env l j s = gr j) \<and> distinct gs \<and>
     (\<forall>j. cov j = (j \<in> set cpus \<and> gr j \<in> set gs)) \<and>
     first = (if gs = [] then None else Some (Base (l, hd gs))) \<and>
     last_g = (if gs = [] then None else Some (Base (l, last gs))) \<and>
     (\<forall>k. Suc k < length gs \<longrightarrow> sg_next (sg s (Base (l, gs ! k))) = Base (l, gs ! Suc k)) \<and>
     (\<forall>g \<in> set gs. sg_cpus (sg s (Base (l, g))) = (\<lambda>j. j \<in> set cpus \<and> gr j = g))"

lemma circle_part_append:
  assumes inv: "circle_part env l cpus gr gs cov first last_g s" and new: "gr i \<notin> set gs"
    and d: "dm s' = dm s"
    and n: "\<And>g. sg_next (sg s' (Base (l, g))) =
                  (if gs \<noteq> [] \<and> g = last gs then Base (l, gr i) else sg_next (sg s (Base (l, g))))"
    and c: "\<And>g. sg_cpus (sg s' (Base (l, g))) =
                  (if g = gr i then (\<lambda>j. j \<in> set cpus \<and> gr j = g) else sg_cpus (sg s (Base (l, g))))"
  shows "circle_part env l cpus gr (gs @ [gr i]) (\<lambda>j. cov j \<or> j \<in> set cpus \<and> gr j = gr i)
           (case first of None \<Rightarrow> Some (Base (l, gr i)) | Some f \<Rightarrow> Some f) (Some (Base (l, gr i))) s'"
proof -
  have next_of: "sg_next (sg s' (Base (l, (gs @ [gr i]) ! k))) = Base (l, (gs @ [gr i]) ! Suc k)"
    if k: "Suc k < length (gs @ [gr i])" for k
  proof (cases "Suc k < length gs")
    case True
    then have "gs ! k \<noteq> last gs"
      using inv True unfolding circle_part_def
      by (subst last_conv_nth) (auto simp: nth_eq_iff_index_eq)
    with True inv show ?thesis by (auto simp: n nth_append circle_part_def)
  next
    case False
    with k have "gs \<noteq> []" "k = length gs - 1" by auto
    then show ?thesis by (auto simp: n nth_append last_conv_nth)
  qed
  show ?thesis
    unfolding circle_part_def
    using inv new next_of by (auto simp: circle_part_def c get_group_cong [OF d] split: if_splits)
qed

lemma groups_loop_circle:
  assumes "circle_part env l cpus gr gs cov first last_g s" and "set is \<subseteq> set cpus"
  shows "\<exists>cov'. circle_part env l cpus gr (uniq gs (map gr is)) cov'
           (fst (groups_loop env l cpus is cov first last_g s))
           (fst (snd (groups_loop env l cpus is cov first last_g s)))
           (snd (snd (groups_loop env l cpus is cov first last_g s)))"
  using assms
proof (induction "is" arbitrary: gs cov first last_g s)
  case Nil
  then show ?case by auto
next
  case (Cons i "is")
  have inv: "circle_part env l cpus gr gs cov first last_g s" by fact
  have grp: "get_group env l i s = gr i" and i: "i \<in> set cpus"
    using Cons.prems by (auto simp: circle_part_def)
  have cov: "cov i \<longleftrightarrow> gr i \<in> set gs"
    using inv i by (auto simp: circle_part_def)
  let ?p = "get_group_ptr env l i s"
  have p: "fst ?p = gr i" "dm (snd ?p) = dm s" "\<And>x. sg_next (sg (snd ?p) x) = sg_next (sg s x)"
    "\<And>x. sg_cpus (sg (snd ?p) x) = sg_cpus (sg s x)"
    by (simp_all add: get_group_ptr_simp grp)
  obtain s0 where ptr: "get_group_ptr env l i s = (gr i, s0)"
    using p(1) by (cases "get_group_ptr env l i s") simp
  show ?case
  proof (cases "gr i \<in> set gs")
    case True
    have "circle_part env l cpus gr gs cov first last_g (snd ?p)"
      using inv p by (simp add: circle_part_def get_group_cong [OF p(2)])
    from Cons.IH [OF this] Cons.prems True cov show ?thesis
      by (auto simp: split_beta)
  next
    case False
    let ?g = "Base (l, gr i)"
    let ?s1 = "upd_sgp (l, gr i) (\<lambda>x. x\<lparr>sgp_power := 0\<rparr>)
                 (upd_sg ?g (\<lambda>x. x\<lparr>sg_cpus := (\<lambda>_. False)\<rparr>) (snd ?p))"
    let ?f = "fill_group env l (gr i) cpus (cov, ?s1)"
    let ?s2 = "case last_g of None \<Rightarrow> snd ?f | Some q \<Rightarrow> upd_sg q (\<lambda>x. x\<lparr>sg_next := ?g\<rparr>) (snd ?f)"
    let ?first = "case first of None \<Rightarrow> Some ?g | Some f \<Rightarrow> Some f"
    have last_g: "last_g = (if gs = [] then None else Some (Base (l, last gs)))"
      using inv by (simp add: circle_part_def)
    have d1: "get_group env l j ?s1 = gr j" for j
      using inv p(2) by (subst get_group_cong [of _ s]) (auto simp: circle_part_def)
    have f: "fst ?f = (\<lambda>j. cov j \<or> j \<in> set cpus \<and> gr j = gr i)" "dm (snd ?f) = dm s"
      "\<And>x. sg_next (sg (snd ?f) x) = sg_next (sg s x)"
      "\<And>x. sg_cpus (sg (snd ?f) x) =
         (if x = ?g then (\<lambda>j. j \<in> set cpus \<and> gr j = gr i) else sg_cpus (sg s x))"
      using fill_group_run [of env l "gr i" cpus cov ?s1] unfolding d1
      by (auto simp: p fun_eq_iff)
    have "circle_part env l cpus gr (gs @ [gr i]) (fst ?f) ?first (Some ?g) ?s2"
      unfolding f(1)
      by (rule circle_part_append [OF inv False]) (auto simp: f last_g)
    from Cons.IH [OF this] Cons.prems
    have "\<exists>cov'. circle_part env l cpus gr (uniq (gs @ [gr i]) (map gr is)) cov'
           (fst (groups_loop env l cpus is (fst ?f) ?first (Some ?g) ?s2))
           (fst (snd (groups_loop env l cpus is (fst ?f) ?first (Some ?g) ?s2)))
           (snd (snd (groups_loop env l cpus is (fst ?f) ?first (Some ?g) ?s2)))"
      by simp
    moreover have "groups_loop env l cpus (i # is) cov first last_g s =
                     groups_loop env l cpus is (fst ?f) ?first (Some ?g) ?s2"
      using False cov ptr by (simp add: split_beta Let_def cong: option.case_cong)
    ultimately show ?thesis using False by simp
  qed
qed

lemma uniq_hd: "uniq [] (x # xs) \<noteq> [] \<and> hd (uniq [] (x # xs)) = x"
proof -
  have "uniq (x # acc) xs \<noteq> [] \<and> hd (uniq (x # acc) xs) = x" for acc
    by (induction xs arbitrary: acc) auto
  then show ?thesis by simp
qed

lemma groups_loop_dm [simp]: "dm (snd (snd (groups_loop env l cpus is cov first last_g s))) = dm s"
proof (induction "is" arbitrary: cov first last_g s)
  case Nil
  show ?case by simp
next
  case (Cons i "is")
  have f: "dm (snd (fill_group env l g js x)) = dm (snd x)" for g js x
    using fill_group_run [of env l g js "fst x" "snd x"] by simp
  show ?case
    by (auto simp: split_beta Let_def Cons.IH f get_group_ptr_simp split: option.split)
qed

lemma get_group_cong_groups:
  "get_group env l j (upd_dm sd (\<lambda>d. d\<lparr>dm_groups := x\<rparr>) s) = get_group env l j s"
  by (auto simp: get_group_def split: option.split)

text \<open>
  For the first cpu of a domain, \<open>build_sched_groups\<close> leaves a circle: the groups \<open>gs\<close> are different,
  each one's \<open>next\<close> is the following one and the last one's is the first. The group of a cpu of the
  span consists of exactly the cpus of the span that share the first cpu of their child domain, so
  that the groups are disjoint and cover the span; the domain points to the group of its first cpu.
\<close>

theorem build_sched_groups_circle:
  assumes first: "cpumask_first env (dm_span (dm s (l, c))) = c" and c: "c < nr_cpu_ids env"
    and cpus: "cpus = for_each_cpu env (dm_span (dm s (l, c)))"
    and gs: "gs = uniq [] (map (\<lambda>j. get_group env l j s) cpus)"
    and s': "s' = build_sched_groups env (l, c) s"
  shows "distinct gs \<and> hd gs = get_group env l c s \<and>
         dm_groups (dm s' (l, c)) = Some (Base (l, hd gs)) \<and>
         (\<forall>n. n < length gs \<longrightarrow> sg_next (sg s' (Base (l, gs ! n))) = Base (l, gs ! (Suc n mod length gs))) \<and>
         (\<forall>j. j \<in> set cpus \<longrightarrow> get_group env l j s \<in> set gs) \<and>
         (\<forall>g \<in> set gs. sg_cpus (sg s' (Base (l, g))) = (\<lambda>j. j \<in> set cpus \<and> get_group env l j s = g))"
proof -
  let ?gr = "\<lambda>j. get_group env l j s"
  let ?p = "snd (get_group_ptr env l c s)"
  let ?s1 = "upd_sg (Base (l, ?gr c)) (\<lambda>x. x\<lparr>sg_ref := sg_ref x + 1\<rparr>)
               (upd_dm (l, c) (\<lambda>d. d\<lparr>dm_groups := Some (Base (l, ?gr c))\<rparr>) ?p)"
  obtain cs where cs: "cpus = c # cs"
    using first c by (cases cpus) (auto simp: cpumask_first_def cpus split: list.splits)
  have same: "get_group env l j ?s1 = ?gr j" for j
    using get_group_cong_groups [of env l j "(l, c)" "Some (Base (l, ?gr c))" ?p]
      get_group_cong [of ?p s env l j] get_group_cong [of ?s1 "upd_dm (l, c) (\<lambda>d. d\<lparr>dm_groups := Some (Base (l, ?gr c))\<rparr>) ?p" env l j]
    by (simp add: get_group_ptr_simp)
  then have "circle_part env l cpus ?gr [] (\<lambda>_. False) None None ?s1"
    by (simp add: circle_part_def)
  note circle = groups_loop_circle [OF this order_refl, folded gs]
  obtain fg lg s2 where run: "groups_loop env l cpus cpus (\<lambda>_. False) None None ?s1 = (fg, lg, s2)"
    by (rule prod_cases3)
  from circle obtain cov' where inv: "circle_part env l cpus ?gr gs cov' fg lg s2"
    unfolding run by auto
  have ne: "gs \<noteq> []" and hd: "hd gs = ?gr c"
    using uniq_hd [of "?gr c" "map ?gr cs"] by (simp_all add: gs cs)
  have dm2: "dm s2 = dm ?s1"
    using groups_loop_dm [of env l cpus cpus "\<lambda>_. False" None None ?s1] by (simp add: run)
  have fl: "fg = Some (Base (l, hd gs))" "lg = Some (Base (l, last gs))"
    using inv ne by (simp_all add: circle_part_def)
  have s'_eq: "s' = upd_sg (Base (l, last gs)) (\<lambda>x. x\<lparr>sg_next := Base (l, hd gs)\<rparr>) s2"
  proof -
    obtain p0 where p0: "get_group_ptr env l c s = (?gr c, p0)"
      by (cases "get_group_ptr env l c s") (simp add: get_group_ptr_simp)
    have d: "dm p0 = dm s"
      using p0 by (auto simp: get_group_ptr_simp)
    show ?thesis
      using run unfolding s' cpus
      by (simp add: build_sched_groups_def p0 d first fl Let_def cong: option.case_cong)
  qed
  have nxt: "sg_next (sg s' (Base (l, g))) =
               (if g = last gs then Base (l, hd gs) else sg_next (sg s2 (Base (l, g))))" for g
    by (simp add: s'_eq)
  have circle: "sg_next (sg s' (Base (l, gs ! n))) = Base (l, gs ! (Suc n mod length gs))"
    if n: "n < length gs" for n
  proof (cases "Suc n < length gs")
    case True
    then have "gs ! n \<noteq> last gs"
      using inv ne unfolding circle_part_def by (subst last_conv_nth) (auto simp: nth_eq_iff_index_eq)
    with True inv show ?thesis by (simp add: nxt circle_part_def)
  next
    case False
    with n have "n = length gs - 1" by simp
    with ne n False show ?thesis by (simp add: nxt last_conv_nth hd_conv_nth)
  qed
  have "dm_groups (dm s' (l, c)) = Some (Base (l, hd gs))"
    by (simp add: s'_eq dm2 hd)
  moreover have "sg_cpus (sg s' (Base (l, g))) = (\<lambda>j. j \<in> set cpus \<and> ?gr j = g)" if "g \<in> set gs" for g
    using inv that by (auto simp: s'_eq circle_part_def)
  moreover have "distinct gs" "\<forall>j. j \<in> set cpus \<longrightarrow> ?gr j \<in> set gs"
    by (simp_all add: gs)
  ultimately show ?thesis
    using hd circle by blast
qed

section \<open>The partition into domains\<close>

text \<open>
  The built domains as a set of pairs of a mask, as its first \<open>nr_cpu_ids\<close> bits, and the relax
  level; and the log of what a change of the partition does, replayed on such a set.
\<close>

datatype domain_event = Detached cpumask | Built cpumask "int option"

definition mask_bits :: "'x env \<Rightarrow> cpumask \<Rightarrow> bool list" where
  "mask_bits env m = map m [0..<nr_cpu_ids env]"

definition attr_of :: "int list option \<Rightarrow> nat \<Rightarrow> int" where
  "attr_of a i = (case a of None \<Rightarrow> -1 | Some xs \<Rightarrow> xs ! i)"

definition domain_at :: "'x env \<Rightarrow> cpumask list \<Rightarrow> int list option \<Rightarrow> nat \<Rightarrow> bool list \<times> int" where
  "domain_at env ds a i = (mask_bits env (ds ! i), attr_of a i)"

definition domain_set :: "'x env \<Rightarrow> partition \<Rightarrow> (bool list \<times> int) set" where
  "domain_set env pt = domain_at env (doms_cur pt) (dattr_cur pt) ` {..<length (doms_cur pt)}"

definition masks_differ :: "'x env \<Rightarrow> cpumask list \<Rightarrow> bool" where
  "masks_differ env ds \<longleftrightarrow> distinct (map (mask_bits env) ds)"

fun replay :: "'x env \<Rightarrow> domain_event list \<Rightarrow> (bool list \<times> int) set \<Rightarrow> (bool list \<times> int) set" where
  "replay env [] D = D"
| "replay env (Detached m # es) D = replay env es {d \<in> D. fst d \<noteq> mask_bits env m}"
| "replay env (Built m a # es) D =
     replay env es (insert (mask_bits env m, (case a of None \<Rightarrow> -1 | Some x \<Rightarrow> x)) D)"

definition log_detach :: "cpumask \<Rightarrow> domain_event list \<Rightarrow> domain_event list" where
  "log_detach m es = es @ [Detached m]"

definition log_build :: "cpumask \<Rightarrow> int option \<Rightarrow> domain_event list \<Rightarrow> domain_event list" where
  "log_build m a es = es @ [Built m a]"

lemma cpumask_equal_bits: "cpumask_equal env a b \<longleftrightarrow> mask_bits env a = mask_bits env b"
  by (auto simp: cpumask_equal_def mask_bits_def list_all_iff)

lemma dattrs_equal_attr: "dattrs_equal a i b j \<longleftrightarrow> attr_of a i = attr_of b j"
  by (auto simp: dattrs_equal_def attr_of_def split: option.splits)

lemma same_domain_at: "same_domain env ds a i es b j \<longleftrightarrow> domain_at env ds a i = domain_at env es b j"
  by (simp add: same_domain_def domain_at_def cpumask_equal_bits dattrs_equal_attr)

lemma replay_append: "replay env (xs @ ys) D = replay env ys (replay env xs D)"
  by (induction env xs D rule: replay.induct) auto

lemma fold_log_detach:
  "fold (\<lambda>i s. if P i then s else log_detach (f i) s) is log = log @ map (\<lambda>i. Detached (f i)) (filter (\<lambda>i. \<not> P i) is)"
  by (induction "is" arbitrary: log) (auto simp: log_detach_def)

lemma fold_log_build:
  "fold (\<lambda>i s. if P i then s else log_build (f i) (g i) s) is log =
     log @ map (\<lambda>i. Built (f i) (g i)) (filter (\<lambda>i. \<not> P i) is)"
  by (induction "is" arbitrary: log) (auto simp: log_build_def)

lemma replay_detached:
  "replay env (map (\<lambda>i. Detached (f i)) is) D = {d \<in> D. fst d \<notin> (\<lambda>i. mask_bits env (f i)) ` set is}"
  by (induction "is" arbitrary: D) auto

lemma replay_built:
  "replay env (map (\<lambda>i. Built (f i) (g i)) is) D =
     D \<union> (\<lambda>i. (mask_bits env (f i), (case g i of None \<Rightarrow> -1 | Some x \<Rightarrow> x))) ` set is"
  by (induction "is" arbitrary: D) auto

text \<open>Detaching the indices without a partner leaves exactly the domains with one.\<close>

lemma detach_rest:
  assumes "masks_differ env ds"
  shows "{d \<in> domain_at env ds a ` {..<length ds}.
            fst d \<notin> (\<lambda>i. mask_bits env (ds ! i)) ` set (filter (\<lambda>i. \<not> P i) [0..<length ds])}
         = domain_at env ds a ` {i. i < length ds \<and> P i}"
proof -
  have inj: "mask_bits env (ds ! i) = mask_bits env (ds ! j) \<longleftrightarrow> i = j"
    if "i < length ds" "j < length ds" for i j
    using assms that nth_eq_iff_index_eq [of "map (mask_bits env) ds" i j]
    by (simp add: masks_differ_def)
  show ?thesis
    by (auto simp: domain_at_def image_iff inj)
qed

fun event_bits :: "'x env \<Rightarrow> domain_event \<Rightarrow> bool list" where
  "event_bits env (Detached m) = mask_bits env m"
| "event_bits env (Built m a) = mask_bits env m"

lemma list_ex_upt: "list_ex P [0..<n] \<longleftrightarrow> (\<exists>i < n. P i)"
  by (auto simp: list_ex_iff)

lemma partition_log:
  assumes run: "partition_sched_domains env nt log_detach log_build active n doms dattr (pt, []) = (pt', log)"
    and n: "case doms of None \<Rightarrow> n \<le> 1 | Some ds \<Rightarrow> n \<le> length ds"
  obtains ds m P Q where
    "n \<le> length ds" "pt' = pt\<lparr>doms_cur := take n ds, dattr_cur := dattr\<rparr>"
    "m \<longleftrightarrow> \<not> nt \<and> doms \<noteq> None"
    "\<And>i. P i \<longleftrightarrow> m \<and> (\<exists>j < n. domain_at env (doms_cur pt) (dattr_cur pt) i = domain_at env ds dattr j)"
    "\<And>i. Q i \<longleftrightarrow> m \<and> (\<exists>j < length (doms_cur pt).
                     domain_at env ds dattr i = domain_at env (doms_cur pt) (dattr_cur pt) j)"
    "log = map (\<lambda>i. Detached (doms_cur pt ! i)) (filter (\<lambda>i. \<not> P i) [0..<length (doms_cur pt)]) @
           map (\<lambda>i. Built (ds ! i) (map_option (\<lambda>a. a ! i) dattr)) (filter (\<lambda>i. \<not> Q i) [0..<n])"
proof (cases doms)
  case None
  show thesis
    by (rule that [of "[\<lambda>i. active i \<and> \<not> cpu_isolated_map pt i]" False "\<lambda>_. False" "\<lambda>_. False"])
       (use run n None in \<open>auto simp: partition_sched_domains_def Let_def
          fold_log_detach [where P = "\<lambda>_. False", simplified] fold_log_build [where P = "\<lambda>_. False", simplified]\<close>)
next
  case (Some ds)
  define P where "P i \<longleftrightarrow> \<not> nt \<and> (\<exists>j < n. domain_at env (doms_cur pt) (dattr_cur pt) i = domain_at env ds dattr j)" for i
  define Q where "Q i \<longleftrightarrow> \<not> nt \<and> (\<exists>j < length (doms_cur pt).
                     domain_at env ds dattr i = domain_at env (doms_cur pt) (dattr_cur pt) j)" for i
  have P: "list_ex (same_domain env (doms_cur pt) (dattr_cur pt) i ds dattr) [0..<(if nt then 0 else n)] = P i" for i
    by (auto simp: P_def list_ex_upt same_domain_at)
  have Q: "list_ex (same_domain env ds dattr i (doms_cur pt) (dattr_cur pt))
             [0..<(if nt then 0 else length (doms_cur pt))] = Q i" for i
    by (auto simp: Q_def list_ex_upt same_domain_at)
  show thesis
    by (rule that [of ds "\<not> nt" P Q])
       (use run n Some in \<open>auto simp: partition_sched_domains_def Let_def P Q fold_log_detach fold_log_build,
        auto simp: P_def Q_def\<close>)
qed


section \<open>The next node\<close>

lemma nearest_fold:
  fixes f :: "nat \<Rightarrow> int"
  assumes "\<And>n. n \<in> set ns \<Longrightarrow> f n < M"
  shows "case fold (\<lambda>n (mv, best). if \<not> ok n then (mv, best)
                       else if f n < mv then (f n, Some n) else (mv, best)) ns (M, None) of
           (mv, None) \<Rightarrow> mv = M \<and> (\<forall>n \<in> set ns. \<not> ok n)
         | (mv, Some b) \<Rightarrow> b \<in> set ns \<and> ok b \<and> mv = f b \<and> (\<forall>n \<in> set ns. ok n \<longrightarrow> f b \<le> f n)"
  using assms
proof (induction ns rule: rev_induct)
  case Nil
  then show ?case by simp
next
  case (snoc n ns)
  then show ?case
    by (auto split: prod.splits option.splits)
qed

lemma rotated_nodes:
  assumes "n < (m :: nat)"
  shows "\<exists>i < m. (node + i) mod m = n"
proof (intro exI conjI)
  show "(n + (m - node mod m)) mod m < m" using assms by simp
  have "(node + (n + (m - node mod m)) mod m) mod m = (node mod m + (n + (m - node mod m))) mod m"
    by (metis mod_add_left_eq mod_add_right_eq)
  also have "node mod m + (n + (m - node mod m)) = n + m"
    using mod_less_divisor [of m node] assms by linarith
  finally show "(node + (n + (m - node mod m)) mod m) mod m = n" using assms by simp
qed

text \<open>
  \<open>find_next_best_node\<close> gives the nearest node that has cpus and is not used yet, and marks it;
  it gives -1, and leaves the mask as it is, exactly when there is no such node. The distances are
  those of the platform, of which only that they are below \<open>INT_MAX\<close> is used.
\<close>

theorem next_best_node_nearest:
  assumes dist: "\<And>n. n < nr \<Longrightarrow> distance node n < 2147483647"
    and run: "find_next_best_node nr nr_cpus distance node used = (best, used')"
  shows "case best of
           None \<Rightarrow> used' = used \<and> (\<forall>n < nr. nr_cpus n = 0 \<or> used n)
         | Some b \<Rightarrow> used' = used(b := True) \<and> b < nr \<and> nr_cpus b \<noteq> 0 \<and> \<not> used b \<and>
             (\<forall>n < nr. nr_cpus n \<noteq> 0 \<and> \<not> used n \<longrightarrow> distance node b \<le> distance node n)"
proof -
  let ?ns = "map (\<lambda>i. (node + i) mod nr) [0..<nr]"
  let ?ok = "\<lambda>n. nr_cpus n \<noteq> 0 \<and> \<not> used n"
  have nodes: "set ?ns = {..<nr}"
    using rotated_nodes [of _ nr node] by (force simp: image_iff)
  have fold_eq: "fold (\<lambda>i (mv, b). if nr_cpus ((node + i) mod nr) = 0 then (mv, b)
            else if used ((node + i) mod nr) then (mv, b)
            else if distance node ((node + i) mod nr) < mv
            then (distance node ((node + i) mod nr), Some ((node + i) mod nr)) else (mv, b)) is x =
          fold (\<lambda>n (mv, b). if \<not> ?ok n then (mv, b)
                  else if distance node n < mv then (distance node n, Some n) else (mv, b))
               (map (\<lambda>i. (node + i) mod nr) is) x" for "is" x
    by (induction "is" arbitrary: x) (auto split: prod.splits)
  have "case fold (\<lambda>n (mv, b). if \<not> ?ok n then (mv, b)
                       else if distance node n < mv then (distance node n, Some n) else (mv, b)) ?ns (2147483647, None) of
           (mv, None) \<Rightarrow> mv = 2147483647 \<and> (\<forall>n \<in> set ?ns. \<not> ?ok n)
         | (mv, Some b) \<Rightarrow> b \<in> set ?ns \<and> ?ok b \<and> mv = distance node b \<and> (\<forall>n \<in> set ?ns. ?ok n \<longrightarrow> distance node b \<le> distance node n)"
    by (rule nearest_fold) (use dist nodes in auto)
  then show ?thesis
    using run unfolding nodes find_next_best_node_def Let_def fold_eq
    by (auto split: prod.splits option.splits)
qed

section \<open>The theorems on a concrete machine\<close>

text \<open>Four cpus in two clusters of two: a level of clusters and a level of the whole machine.\<close>

definition env4 :: "unit env" where
  "env4 = env0\<lparr>nr_cpu_ids := 4\<rparr>"

definition dom_ex :: "sdid option \<Rightarrow> cpumask \<Rightarrow> dom" where
  "dom_ex ch m = \<lparr>dm_parent = None, dm_child = ch, dm_groups = None, dm_flags = 0, dm_level = 0,
                  dm_span = m, dm_span_weight = 0\<rparr>"

definition domains_ex :: domains where
  "domains_ex =
     \<lparr>dm = (\<lambda>(l, c). if l = 0 then dom_ex None (\<lambda>i. i div 2 = c div 2) else dom_ex (Some (0, c)) (\<lambda>i. i < 4)),
      sg = (\<lambda>g. \<lparr>sg_next = g, sg_ref = 0, group_weight = 0, sg_sgp = (0, 0), sg_cpus = (\<lambda>_. False)\<rparr>),
      sgp = (\<lambda>_. \<lparr>sgp_power = 0, sgp_ref = 0, nr_busy_cpus = 0\<rparr>),
      sdd_sd = (\<lambda>_. True), sdd_sg = (\<lambda>_. True), sdd_sgp = (\<lambda>_. True),
      sd_freed = (\<lambda>_. False), sg_freed = (\<lambda>_. False), sgp_freed = (\<lambda>_. False),
      sched_domain_level_max = 1, default_relax_domain_level = -1, llc_id = id\<rparr>"

lemma build_sched_groups_circle_witness:
  "(let s' = build_sched_groups env4 (1, 0) domains_ex in
      dm_groups (dm s' (1, 0)) = Some (Base (1, 0)) \<and>
      sg_next (sg s' (Base (1, 0))) = Base (1, 2) \<and> sg_next (sg s' (Base (1, 2))) = Base (1, 0) \<and>
      map (sg_cpus (sg s' (Base (1, 2)))) [0, 1, 2, 3] = [False, False, True, True])"
proof -
  have cpus: "for_each_cpu env4 (dm_span (dm domains_ex (1, 0))) = [0, 1, 2, 3]"
    by (simp add: for_each_cpu_def env4_def env0_def domains_ex_def dom_ex_def upt_rec)
  have group: "get_group env4 1 j domains_ex = (if j div 2 = 0 then 0 else 2)" if "j < 4" for j
  proof -
    have "j = 0 \<or> j = 1 \<or> j = 2 \<or> j = 3" using that by auto
    then show ?thesis
      by (auto simp: get_group_def cpumask_first_def for_each_cpu_def env4_def env0_def domains_ex_def
          dom_ex_def upt_rec)
  qed
  have gs: "get_group env4 (Suc 0) 0 domains_ex = 0" "get_group env4 (Suc 0) (Suc 0) domains_ex = 0"
    "get_group env4 (Suc 0) 2 domains_ex = 2" "get_group env4 (Suc 0) 3 domains_ex = 2"
    using group [of 0] group [of 1] group [of 2] group [of 3] by simp_all
  have first: "cpumask_first env4 (dm_span (dm domains_ex (1, 0))) = 0"
    unfolding cpumask_first_def cpus by simp
  have u: "uniq [] (map (\<lambda>j. get_group env4 1 j domains_ex) [0, 1, 2, 3]) = [0, 2]"
    using gs by simp
  note circle = build_sched_groups_circle [OF first _ cpus [symmetric] u [symmetric] refl]
  have four: "(0 :: nat) < nr_cpu_ids env4" by (simp add: env4_def)
  note nxt = circle [OF four, THEN conjunct2, THEN conjunct2, THEN conjunct2, THEN conjunct1]
  show ?thesis
    using circle [OF four] spec [OF nxt, of 0] spec [OF nxt, of 1] by (simp add: Let_def gs)
qed

definition part_ex :: partition where
  "part_ex = \<lparr>doms_cur = [\<lambda>i. i < 2, \<lambda>i. 2 \<le> i], dattr_cur = None, cpu_isolated_map = (\<lambda>_. False)\<rparr>"


text \<open>Four nodes the third without cpus: node 1 is nearer to node 0 than node 3 is.\<close>

lemma next_best_node_nearest_witness:
  "(let r = find_next_best_node 4 (\<lambda>n. if n = 2 then 0 else 2) (\<lambda>a b. if a = b then 10 else if a + b = 3 then 20 else 15)
              0 (\<lambda>n. n = 0) in
      fst r = Some 1 \<and> snd r 1 \<and> \<not> snd r 3)"
proof -
  let ?d = "\<lambda>a b :: nat. if a = b then 10 else if a + b = 3 then 20 else 15 :: int"
  let ?r = "find_next_best_node 4 (\<lambda>n. if n = 2 then 0 else 2) ?d 0 (\<lambda>n. n = 0)"
  have r: "fst ?r = Some 1"
    by (simp add: find_next_best_node_def upt_rec Let_def)
  have d: "?d 0 n < 2147483647" for n by simp
  note near = next_best_node_nearest [where nr = 4 and distance = ?d and node = 0 and best = "fst ?r" and
      used' = "snd ?r" and used = "\<lambda>n. n = 0" and nr_cpus = "\<lambda>n. if n = 2 then 0 else 2", OF d surjective_pairing]
  have "snd ?r = (\<lambda>n. n = 0)(1 := True)"
    using near by (simp add: r)
  then show ?thesis by (simp add: r Let_def)
qed

end
