(* ===== verification/Sched_Init.thy ===== *)
theory Sched_Init
  imports Sched_Domains Load_Avg Sched_Policy
begin

text \<open>
  \<open>sched_init\<close> and \<open>sched_init_smp\<close>. What the fair class sets up for itself (\<open>init_cfs_rq\<close>,
  \<open>init_cfs_bandwidth\<close>, \<open>init_tg_cfs_entry\<close>, \<open>init_sched_fair_class\<close>) is its own state and given by
  functions, as is \<open>cpupri_init\<close>. The memory that is allocated here, and the timers, have no
  counterpart in the model.
\<close>

section \<open>Runqueues\<close>

definition CPU_LOAD_IDX_MAX :: nat where "CPU_LOAD_IDX_MAX = 5"

record 'x boot_env =
  init_cfs_rq :: "cpu \<Rightarrow> 'x \<Rightarrow> 'x"
  init_cfs_root :: "cpu \<Rightarrow> 'x \<Rightarrow> 'x"
  init_sched_fair_class :: "'x \<Rightarrow> 'x"
  cpupri_init :: "(cpu \<Rightarrow> int) \<Rightarrow> cpu \<Rightarrow> int"

text \<open>The body of the loop over the possible cpus, in three parts.\<close>

definition init_rq_smp :: "'x env \<Rightarrow> cpu \<Rightarrow> 'x kernel \<Rightarrow> 'x kernel" where
  "init_rq_smp env i k =
     (if \<not> config_smp env then k
      else
        let k = sched_doms_update (\<lambda>m. m(i := [])) k;
            k = upd_rq i (\<lambda>r. r\<lparr>post_schedule := False, online := False, idle_stamp := 0,
                      avg_idle := 2 * sched_migration_cost env\<rparr>) k
        in rq_attach_root env False i k)"

definition init_root_rt_rq :: "'x env \<Rightarrow> cpu \<Rightarrow> 'x kernel \<Rightarrow> 'x kernel" where
  "init_root_rt_rq env i k =
     (let k = upd_rt_rq (root_rt i) (\<lambda>q. q\<lparr>rt_runtime := rtb_runtime (def_rt_bandwidth k)\<rparr>) k;
          k = upd_rq i (\<lambda>r. r\<lparr>leaf_rt_rq_list := []\<rparr>) k
      in init_tg_rt_entry ROOT_TG (root_rt i) None i None k)"

definition sched_init_rq :: "'x env \<Rightarrow> 'x boot_env \<Rightarrow> cpu \<Rightarrow> 'x kernel \<Rightarrow> 'x kernel" where
  "sched_init_rq env be i k =
     (let k = upd_rq i (\<lambda>r. r\<lparr>nr_running := 0, calc_load_active := 0,
                calc_load_update := jiffies k + LOAD_FREQ\<rparr>) k;
          k = ext_state_update (init_cfs_rq be i) k;
          k = init_rt_rq env (root_rt i) k;
          k = init_wrr_rq i k;
          k = ext_state_update (init_cfs_root be i) k;
          k = init_root_rt_rq env i k;
          k = upd_rq i (\<lambda>r. r\<lparr>cpu_load := (\<lambda>j. if j < CPU_LOAD_IDX_MAX then 0 else cpu_load r j),
                last_load_update_tick := jiffies k\<rparr>) k;
          k = init_rq_smp env i k
      in upd_rq i (\<lambda>r. r\<lparr>nr_iowait := 0\<rparr>) k)"

section \<open>The function\<close>

definition init_defrootdomain :: "'x env \<Rightarrow> 'x boot_env \<Rightarrow> 'x kernel \<Rightarrow> 'x kernel" where
  "init_defrootdomain env be k =
     (if config_smp env
      then k\<lparr>rd_span := (\<lambda>_. False), rd_online := (\<lambda>_. False), rto_mask := (\<lambda>_. False), rto_count := 0,
             cpupri := cpupri_init be (cpupri k)\<rparr>
      else k)"

text \<open>Up to the loop: the bandwidths, the root group, the root accounting group.\<close>

definition sched_init_groups :: "'x kernel \<Rightarrow> 'x kernel" where
  "sched_init_groups k =
     (let k = k\<lparr>def_rt_bandwidth :=
                init_rt_bandwidth (global_rt_period k) (global_rt_runtime k) (def_rt_bandwidth k)\<rparr>;
          k = upd_tg ROOT_TG (\<lambda>t. t\<lparr>tg_rt_bandwidth :=
                init_rt_bandwidth (global_rt_period k) (global_rt_runtime k) (tg_rt_bandwidth t)\<rparr>) k;
          k = task_groups_update (\<lambda>l. ROOT_TG # l) k;
          k = upd_tg ROOT_TG (\<lambda>t. t\<lparr>tg_children := []\<rparr>) k
      in cas_update (\<lambda>m. m(0 := (m 0)\<lparr>ca_cpuusage := (\<lambda>_. 0)\<rparr>)) k)"

text \<open>\<open>init\<close> is \<open>init_task\<close>, which is also the current task.\<close>

definition sched_init :: "'x env \<Rightarrow> 'x boot_env \<Rightarrow> tid \<Rightarrow> 'x kernel \<Rightarrow> 'x kernel" where
  "sched_init env be init k =
     (let k = init_defrootdomain env be k;
          k = sched_init_groups k;
          k = fold (sched_init_rq env be) (for_each_cpu env (cpu_possible_mask env)) k;
          k = set_load_weight init k;
          k = init_idle env init (this_cpu k) k;
          k = load_globals_update (\<lambda>g. g\<lparr>calc_load_next := jiffies k + LOAD_FREQ\<rparr>) k;
          k = upd_task init (\<lambda>t. t\<lparr>class_of := fair_sched_class\<rparr>) k;
          k = ext_state_update (init_sched_fair_class be) k
      in scheduler_running_update (\<lambda>_. True) k)"

section \<open>The other cpus\<close>

text \<open>
  \<open>init_sched_domains\<close>; \<open>build\<close> is \<open>build_sched_domains\<close>, whose result is the result.
\<close>

definition init_sched_domains ::
  "(cpumask \<Rightarrow> int option \<Rightarrow> 's \<Rightarrow> int \<times> 's) \<Rightarrow> cpumask \<Rightarrow> partition \<times> 's \<Rightarrow> int \<times> partition \<times> 's" where
  "init_sched_domains build cpu_map ps =
     (case ps of (pt, s) \<Rightarrow>
        let m = (\<lambda>i. cpu_map i \<and> \<not> cpu_isolated_map pt i);
            pt = pt\<lparr>doms_cur := [m], dattr_cur := None\<rparr>
        in case build m None s of (err, s) \<Rightarrow> (err, pt, s))"

definition sched_init_smp ::
  "'x env \<Rightarrow> (cpumask \<Rightarrow> int option \<Rightarrow> 'x kernel \<times> domains \<Rightarrow> int \<times> 'x kernel \<times> domains) \<Rightarrow> tid \<Rightarrow>
   partition \<times> 'x kernel \<times> domains \<Rightarrow> partition \<times> 'x kernel \<times> domains" where
  "sched_init_smp env build me ps =
     (case init_sched_domains build (cpu_active_mask (fst (snd ps))) ps of (err, pt, k, s) \<Rightarrow>
        let m = (\<lambda>i. cpu_possible_mask env i \<and> \<not> cpu_isolated_map pt i);
            m = (if list_ex m [0..<nr_cpu_ids env] then m else m(this_cpu k := True));
            (ret, k) = set_cpus_allowed_ptr env me m k
        in (pt, BUG_ON (ret < 0) k, s))"

end
