(* ===== verification/Init_Props.thy ===== *)
theory Init_Props
  imports Sched_Init Wrr_Lemmas Rt_Runs Load_Props Rt_Bandwidth
begin

text \<open>
  \<open>sched_init\<close> establishes the invariants of the other theories: with one processor, from the zeroed
  memory the kernel starts with.
\<close>

section \<open>Zeroed memory\<close>

text \<open>
  Nothing is queued or counted. Of the RT runqueues of groups that do not exist yet only their
  absence of entities is known; they are set up when the group is created.
\<close>

definition boot_lists :: "'x kernel \<Rightarrow> bool" where
  "boot_lists k \<longleftrightarrow>
     wrr_q k = no_lists \<and> rt_q k = no_lists
     \<and> (\<forall>c. wrr_nr_running (rqs k c) = 0 \<and> wrr_total_weight (rqs k c) = 0 \<and> calc_load_active (rqs k c) = 0)
     \<and> (\<forall>r. rt_nr_running (rt_rqs k r) = 0) \<and> (\<forall>s. rt_my_q (rt_ses k s) = None)
     \<and> calc_load_tasks (load_globals k) = 0 \<and> calc_load_idle (load_globals k) = (\<lambda>_. 0)"

text \<open>A root runqueue that has been set up.\<close>

definition rt_ready :: "u64 \<Rightarrow> rt_rq \<Rightarrow> bool" where
  "rt_ready R q \<longleftrightarrow>
     (\<forall>i<100. \<not> bitmap q i) \<and> bitmap q 100 \<and> highest_prio_curr q = MAX_RT_PRIO
     \<and> rt_tg q = Some ROOT_TG \<and> rt_time q = 0 \<and> \<not> rt_throttled q \<and> rt_runtime q = R"

lemma init_head_no_lists [simp]: "init_list_head h no_lists = no_lists"
  by (simp add: init_list_head_def no_lists_def fun_eq_iff)

lemma init_node_no_lists [simp]: "init_list_node n no_lists = no_lists"
  by (simp add: init_list_node_def no_lists_def fun_eq_iff)

lemma fold_init_heads [simp]: "fold (\<lambda>i. init_list_head (r, i)) is no_lists = no_lists"
  by (induction "is") simp_all

lemma init_root_rq:
  assumes "\<not> config_smp env" "boot_lists k"
  shows "boot_lists (sched_init_rq env be i k)"
    and "rt_ready (rtb_runtime (def_rt_bandwidth k)) (rt_rqs (sched_init_rq env be i k) (ROOT_TG, i))"
    and "r \<noteq> (ROOT_TG, i) \<Longrightarrow> rt_rqs (sched_init_rq env be i k) r = rt_rqs k r"
    and "def_rt_bandwidth (sched_init_rq env be i k) = def_rt_bandwidth k"
    and "task_groups (sched_init_rq env be i k) = task_groups k"
    and "tasks (sched_init_rq env be i k) = tasks k"
    and "rt_ses (sched_init_rq env be i k) = rt_ses k"
    and "this_cpu (sched_init_rq env be i k) = this_cpu k"
  using assms
  by (simp_all add: sched_init_rq_def init_rt_rq_def init_wrr_rq_def init_root_rt_rq_def init_tg_rt_entry_def
      init_rq_smp_def boot_lists_def rt_ready_def Let_def del: split_paired_All)

lemma init_root_rqs:
  fixes be
  assumes "\<not> config_smp env" "boot_lists k"
  defines "k' cs \<equiv> fold (sched_init_rq env be) cs k"
  shows "boot_lists (k' cs) \<and> def_rt_bandwidth (k' cs) = def_rt_bandwidth k
       \<and> task_groups (k' cs) = task_groups k \<and> tasks (k' cs) = tasks k \<and> rt_ses (k' cs) = rt_ses k
       \<and> this_cpu (k' cs) = this_cpu k
       \<and> (\<forall>i \<in> set cs. rt_ready (rtb_runtime (def_rt_bandwidth k)) (rt_rqs (k' cs) (ROOT_TG, i)))
       \<and> (\<forall>r. r \<notin> Pair ROOT_TG ` set cs \<longrightarrow> rt_rqs (k' cs) r = rt_rqs k r)"
proof (induction cs rule: rev_induct)
  case Nil
  show ?case using assms(2) by (simp add: k'_def)
next
  case (snoc i cs)
  have step: "k' (cs @ [i]) = sched_init_rq env be i (k' cs)" by (simp add: k'_def)
  note one = init_root_rq [OF assms(1) conjunct1 [OF snoc.IH], where be = be and i = i]
  have "rt_ready (rtb_runtime (def_rt_bandwidth k)) (rt_rqs (k' (cs @ [i])) (ROOT_TG, j))"
    if "j \<in> set (cs @ [i])" for j
  proof (cases "j = i")
    case True
    then show ?thesis using one(2) snoc.IH by (simp add: step)
  next
    case False
    then show ?thesis using one(3) [of "(ROOT_TG, j)"] snoc.IH that by (simp add: step)
  qed
  moreover have "rt_rqs (k' (cs @ [i])) r = rt_rqs k r" if "r \<notin> Pair ROOT_TG ` set (cs @ [i])" for r
  proof -
    have "rt_rqs (k' cs) r = rt_rqs k r"
      using snoc.IH that by (simp del: split_paired_All)
    with one(3) [of r] that show ?thesis by (simp add: step)
  qed
  ultimately show ?case
    using one(1,4-8) snoc.IH by (simp add: step del: split_paired_All)
qed

text \<open>The rest of \<open>sched_init\<close> makes the current task the idle task of its cpu.\<close>

lemmas init_idle_defs =
  init_idle_def sched_fork_init_def set_task_cpu_raw_def set_task_rq_def set_load_weight_def Let_def

lemma init_idle_effect:
  assumes "\<not> config_smp env"
  shows "boot_lists k \<Longrightarrow> boot_lists (init_idle env p c (set_load_weight p k))"
    and "rt_rqs (init_idle env p c (set_load_weight p k)) = rt_rqs k"
    and "task_groups (init_idle env p c (set_load_weight p k)) = task_groups k"
    and "this_cpu (init_idle env p c (set_load_weight p k)) = this_cpu k"
    and "rt_parent (rt_ses (init_idle env p c (set_load_weight p k)) (Task_se p)) = tg_rt_se (sched_task_group (tasks k p)) c"
    and "rt_rq_of (rt_ses (init_idle env p c (set_load_weight p k)) (Task_se p)) = (sched_task_group (tasks k p), c)"
  using assms by (simp_all add: init_idle_defs boot_lists_def del: split_paired_All)

lemma boot_lists_tail:
  "boot_lists k \<Longrightarrow> boot_lists (scheduler_running_update f1 (ext_state_update f2 (tasks_update f3
     (load_globals_update (\<lambda>g. g\<lparr>calc_load_next := x\<rparr>) k))))"
  by (simp add: boot_lists_def del: split_paired_All)

lemma sched_init_effect:
  fixes be
  assumes up: "\<not> config_smp env" and boot: "boot_lists k" and tg: "sched_task_group (tasks k init) = ROOT_TG"
  defines "cpus \<equiv> for_each_cpu env (cpu_possible_mask env)"
  defines "k' \<equiv> sched_init env be init k"
  shows "boot_lists k'" "task_groups k' = ROOT_TG # task_groups k" "scheduler_running k'"
    "rt_parent (rt_ses k' (Task_se init)) = None" "rt_rq_of (rt_ses k' (Task_se init)) = (ROOT_TG, this_cpu k)"
    "\<And>i. i \<in> set cpus \<Longrightarrow> rt_ready (global_rt_runtime k) (rt_rqs k' (ROOT_TG, i))"
    "\<And>r. r \<notin> Pair ROOT_TG ` set cpus \<Longrightarrow> rt_rqs k' r = rt_rqs k r"
proof -
  define k1 where "k1 = sched_init_groups (init_defrootdomain env be k)"
  define k2 where "k2 = fold (sched_init_rq env be) cpus k1"
  have k1: "boot_lists k1" "rtb_runtime (def_rt_bandwidth k1) = global_rt_runtime k"
    "task_groups k1 = ROOT_TG # task_groups k" "tasks k1 = tasks k" "rt_rqs k1 = rt_rqs k"
    "this_cpu k1 = this_cpu k"
    using up boot
    by (simp_all add: k1_def sched_init_groups_def init_defrootdomain_def boot_lists_def init_rt_bandwidth_def
        global_rt_runtime_def Let_def del: split_paired_All)
  note k2 = init_root_rqs [OF up k1(1), where be = be and cs = cpus, folded k2_def]
  define k3 where "k3 = init_idle env init (this_cpu (set_load_weight init k2)) (set_load_weight init k2)"
  have k': "k' = scheduler_running_update (\<lambda>_. True) (ext_state_update (init_sched_fair_class be)
      (upd_task init (\<lambda>t. t\<lparr>class_of := fair_sched_class\<rparr>)
        (load_globals_update (\<lambda>g. g\<lparr>calc_load_next := jiffies k3 + LOAD_FREQ\<rparr>) k3)))"
    by (simp add: k'_def sched_init_def cpus_def k1_def k2_def k3_def Let_def)
  have "this_cpu (set_load_weight init k2) = this_cpu k2"
    by (simp add: set_load_weight_def Let_def)
  note k3 = init_idle_effect [OF up, where k = k2 and p = init and c = "this_cpu (set_load_weight init k2)", folded k3_def, unfolded this]
  have tg2: "sched_task_group (tasks k2 init) = ROOT_TG"
    using k2 k1(4) tg by simp
  have rqs: "rt_rqs k' = rt_rqs k2" and t: "task_groups k' = task_groups k2"
    using k3(2,3) by (simp_all add: k')
  show "scheduler_running k'" by (simp add: k')
  show "boot_lists k'"
    unfolding k' by (rule boot_lists_tail) (use k3(1) k2 in simp)
  show "task_groups k' = ROOT_TG # task_groups k"
    using k2 k1(3) t by simp
  show "rt_parent (rt_ses k' (Task_se init)) = None" "rt_rq_of (rt_ses k' (Task_se init)) = (ROOT_TG, this_cpu k)"
    using tg2 k3(4-6) k2 k1(6) by (simp_all add: k' tg_rt_se_def)
  show "rt_ready (global_rt_runtime k) (rt_rqs k' (ROOT_TG, i))" if "i \<in> set cpus" for i
    using k2 k1(2) that by (simp add: rqs)
  show "rt_rqs k' r = rt_rqs k r" if "r \<notin> Pair ROOT_TG ` set cpus" for r
    using k2 k1(5) that by (simp add: rqs del: split_paired_All)
qed

section \<open>The invariants hold at the start\<close>

lemma find_first_100: "\<lbrakk>\<forall>i<100. \<not> bm i; bm 100\<rbrakk> \<Longrightarrow> sched_find_first_bit bm = 100"
proof -
  assume a: "\<forall>i<100. \<not> bm i" "bm 100"
  have "\<not> find_next_bit bm 101 0 < 100"
    using a find_next_bit_set [of bm 101 0] by auto
  moreover have "\<not> 100 < find_next_bit bm 101 0"
    using a find_next_bit_least [of 0 100 bm 101] by auto
  ultimately show ?thesis by (simp add: sched_find_first_bit_def)
qed

lemma array_ok_ready:
  "\<lbrakk>boot_lists k; rt_ready R (rt_rqs k r)\<rbrakk> \<Longrightarrow> array_ok k r"
  by (simp add: array_ok_def rt_ready_def boot_lists_def no_lists_def find_first_100 MAX_RT_PRIO_def
      MAX_USER_RT_PRIO_def
      del: split_paired_All)


section \<open>An example\<close>

definition boot_env0 :: "unit boot_env" where
  "boot_env0 = \<lparr>init_cfs_rq = (\<lambda>_ x. x), init_cfs_root = (\<lambda>_ x. x), init_sched_fair_class = (\<lambda>x. x),
                cpupri_init = (\<lambda>p. p)\<rparr>"

definition k_boot :: "unit kernel" where
  "k_boot = k0\<lparr>scheduler_running := False, task_groups := [],
       rt_rqs := (\<lambda>r. if r = (0, 0) \<or> r = (0, 1) then rt_rq0\<lparr>highest_prio_curr := 0, bitmap := (\<lambda>_. False), rt_tg := None\<rparr>
                      else rt_rq0\<lparr>rt_tg := Some (fst r)\<rparr>)\<rparr>"


end
