(* ===== verification/Rq_View.thy ===== *)
theory Rq_View
  imports Op_Rules Sched_Groups
begin

text \<open>
  What the core scheduler knows about where tasks are (the flags of the tasks, the counters of
  the runqueues, the queues of the two classes) as one abstract record, and which operations
  leave it alone. The facts are rules of the collection \<open>inqs\<close>, for any predicate \<open>W\<close> of the
  record, proved by following the structure of each operation.
\<close>

section \<open>The abstract record\<close>

record qview =
  v_on :: "tid \<Rightarrow> bool"
  v_cpu :: "tid \<Rightarrow> cpu"
  v_class :: "tid \<Rightarrow> sched_class"
  v_state :: "tid \<Rightarrow> u32"
  v_nr :: "cpu \<Rightarrow> u32"
  v_wrr :: "tid \<Rightarrow> cpu option"
  v_rt :: "tid \<Rightarrow> bool"
  v_rtcpu :: "tid \<Rightarrow> cpu"
  v_wake :: "cpu \<Rightarrow> tid list"

definition qview :: "'x kernel \<Rightarrow> qview" where
  "qview k = \<lparr>v_on = (\<lambda>p. on_rq (tasks k p)), v_cpu = (\<lambda>p. task_cpu (tasks k p)),
     v_class = (\<lambda>p. class_of (tasks k p)), v_state = (\<lambda>p. state (tasks k p)),
     v_nr = (\<lambda>c. nr_running (rqs k c)), v_wrr = home (wrr_q k),
     v_rt = (\<lambda>p. on_rt_rq k (Task_se p)),
     v_rtcpu = (\<lambda>p. snd (rt_rq_of (rt_ses k (Task_se p)))),
     v_wake = (\<lambda>c. wake_list (rqs k c))\<rparr>"

lemma qview_sel [simp]:
  "v_on (qview k) = (\<lambda>p. on_rq (tasks k p))" "v_cpu (qview k) = (\<lambda>p. task_cpu (tasks k p))"
  "v_class (qview k) = (\<lambda>p. class_of (tasks k p))" "v_state (qview k) = (\<lambda>p. state (tasks k p))"
  "v_nr (qview k) = (\<lambda>c. nr_running (rqs k c))" "v_wrr (qview k) = home (wrr_q k)"
  "v_rt (qview k) = (\<lambda>p. on_rt_rq k (Task_se p))"
  "v_rtcpu (qview k) = (\<lambda>p. snd (rt_rq_of (rt_ses k (Task_se p))))"
  "v_wake (qview k) = (\<lambda>c. wake_list (rqs k c))"
  by (simp_all add: qview_def)

lemma qview_eqI:
  "\<lbrakk>\<And>p. v_on v p = v_on w p; \<And>p. v_cpu v p = v_cpu w p; \<And>p. v_class v p = v_class w p;
    \<And>p. v_state v p = v_state w p; \<And>c. v_nr v c = v_nr w c; \<And>p. v_wrr v p = v_wrr w p;
    \<And>p. v_rt v p = v_rt w p; \<And>p. v_rtcpu v p = v_rtcpu w p; \<And>c. v_wake v c = v_wake w c\<rbrakk>
   \<Longrightarrow> v = (w :: qview)"
  by (cases v, cases w) (auto simp: fun_eq_iff)

section \<open>Well-formed queues\<close>

text \<open>
  The part of the state that the view rests on. A task is at most once on one RT queue, of
  the cpu that its entity names; only groups are parents, and an entity owns a queue exactly
  if it is a group's; a cpu's list of leaf runqueues has its own only.
\<close>

definition task_home_ok :: "'x kernel \<Rightarrow> bool" where
  "task_home_ok k \<longleftrightarrow>
     (\<forall>p h. count_list (elems (rt_q k) h) (Task_se p)
              = (if home (rt_q k) (Task_se p) = Some h then 1 else 0))
     \<and> (\<forall>p r i. home (rt_q k) (Task_se p) = Some (r, i)
          \<longrightarrow> snd r = snd (rt_rq_of (rt_ses k (Task_se p))))"

definition entities_ok :: "'x kernel \<Rightarrow> bool" where
  "entities_ok k \<longleftrightarrow>
     (\<forall>s q. rt_parent (rt_ses k s) = Some q \<longrightarrow> (\<exists>g c. q = Group_se g c))
     \<and> (\<forall>s. rt_my_q (rt_ses k s) = None \<longleftrightarrow> (\<exists>p. s = Task_se p))"

definition leaves_ok :: "'x kernel \<Rightarrow> bool" where
  "leaves_ok k \<longleftrightarrow> (\<forall>c. \<forall>r \<in> set (leaf_rt_rq_list (rqs k c)). snd r = c)"

definition queues_wf :: "'x kernel \<Rightarrow> bool" where
  "queues_wf k \<longleftrightarrow> lists_wf (wrr_q k) \<and> task_home_ok k \<and> entities_ok k \<and> leaves_ok k"

text \<open>A state with well-formed queues whose view satisfies \<open>W\<close>.\<close>

definition inq :: "(qview \<Rightarrow> bool) \<Rightarrow> 'x kernel \<Rightarrow> bool" where
  "inq W k \<longleftrightarrow> queues_wf k \<and> W (qview k)"

lemma inqI: "\<lbrakk>queues_wf k; W (qview k)\<rbrakk> \<Longrightarrow> inq W k"
  by (simp add: inq_def)

lemma inqD: "inq W k \<Longrightarrow> queues_wf k" "inq W k \<Longrightarrow> W (qview k)"
  by (simp_all add: inq_def)

lemma inq_mono: "\<lbrakk>inq W k; W (qview k) \<Longrightarrow> W' (qview k)\<rbrakk> \<Longrightarrow> inq W' k"
  by (simp add: inq_def)

named_theorems inqs \<open>operations that leave the view alone\<close>

lemmas inq_rules [inqs] = op_rules [where P = "inq W" for W]

lemmas inq_lets = op_lets [where P = "inq W" for W]

section \<open>Writes that the view does not see\<close>

lemma inq_same:
  assumes "inq W k" "qview k' = qview k" "wrr_q k' = wrr_q k" "rt_q k' = rt_q k"
    "\<And>s. rt_parent (rt_ses k' s) = rt_parent (rt_ses k s)"
    "\<And>s. rt_my_q (rt_ses k' s) = rt_my_q (rt_ses k s)"
    "\<And>c. leaf_rt_rq_list (rqs k' c) = leaf_rt_rq_list (rqs k c)"
  shows "inq W k'"
proof -
  have "snd (rt_rq_of (rt_ses k' (Task_se p))) = snd (rt_rq_of (rt_ses k (Task_se p)))" for p
    using arg_cong [OF assms(2), of "\<lambda>v. v_rtcpu v p"] by simp
  then show ?thesis using assms
    by (simp add: inq_def queues_wf_def task_home_ok_def entities_ok_def leaves_ok_def del: split_paired_All)
qed

lemma inq_other_fields [inqs]:
  "inq W a \<Longrightarrow> inq W (rt_rqs_update f3 a)"
  "inq W a \<Longrightarrow> inq W (tgs_update f5 a)"
  "inq W a \<Longrightarrow> inq W (cas_update f6 a)"
  "inq W a \<Longrightarrow> inq W (cpupri_update f7 a)"
  "inq W a \<Longrightarrow> inq W (rto_mask_update f8 a)"
  "inq W a \<Longrightarrow> inq W (rto_count_update f9 a)"
  "inq W a \<Longrightarrow> inq W (bug_update f10 a)"
  "inq W a \<Longrightarrow> inq W (ext_state_update f11 a)"
  "inq W a \<Longrightarrow> inq W (load_globals_update f12 a)"
  "inq W a \<Longrightarrow> inq W (rd_online_update f13 a)"
  "inq W a \<Longrightarrow> inq W (cpu_active_mask_update f14 a)"
  by (erule inq_same; simp add: qview_def on_rt_rq_def)+

lemma inq_upd_task:
  assumes "inq W a" "\<And>t. on_rq (g t) = on_rq t" "\<And>t. task_cpu (g t) = task_cpu t"
    "\<And>t. class_of (g t) = class_of t" "\<And>t. state (g t) = state t"
  shows "inq W (upd_task p g a)"
  by (rule inq_same [OF assms(1)]) (simp_all add: qview_def on_rt_rq_def assms fun_eq_iff)

lemma inq_task_fields [inqs]:
  "inq W a \<Longrightarrow> inq W (upd_task p (\<lambda>t. t\<lparr>need_resched := b\<rparr>) a)"
  "inq W a \<Longrightarrow> inq W (upd_task p (\<lambda>t. t\<lparr>se := f t\<rparr>) a)"
  "inq W a \<Longrightarrow> inq W (upd_task p (\<lambda>t. t\<lparr>wrr := g t\<rparr>) a)"
  "inq W a \<Longrightarrow> inq W (upd_task p (\<lambda>t. t\<lparr>sched_exp := h t\<rparr>) a)"
  "inq W a \<Longrightarrow> inq W (upd_task p (\<lambda>t. t\<lparr>prio := i t\<rparr>) a)"
  "inq W a \<Longrightarrow> inq W (upd_task p (\<lambda>t. t\<lparr>normal_prio := i t\<rparr>) a)"
  "inq W a \<Longrightarrow> inq W (upd_task p (\<lambda>t. t\<lparr>static_prio := i t\<rparr>) a)"
  "inq W a \<Longrightarrow> inq W (upd_task p (\<lambda>t. t\<lparr>rt_priority := i t\<rparr>) a)"
  "inq W a \<Longrightarrow> inq W (upd_task p (\<lambda>t. t\<lparr>policy := i t\<rparr>) a)"
  "inq W a \<Longrightarrow> inq W (upd_task p (\<lambda>t. t\<lparr>cpus_allowed := j t\<rparr>) a)"
  "inq W a \<Longrightarrow> inq W (upd_task p (\<lambda>t. t\<lparr>sched_task_group := tg t\<rparr>) a)"
  "inq W a \<Longrightarrow> inq W (upd_task p (\<lambda>t. t\<lparr>on_cpu := b' t\<rparr>) a)"
  "inq W a \<Longrightarrow> inq W (upd_task p (\<lambda>t. t\<lparr>sched_contributes_to_load := b' t\<rparr>) a)"
  "inq W a \<Longrightarrow> inq W (upd_task p (\<lambda>t. t\<lparr>sched_reset_on_fork := b' t\<rparr>) a)"
  "inq W a \<Longrightarrow> inq W (upd_task p (\<lambda>t. t\<lparr>active_mm := m t\<rparr>) a)"
  "inq W a \<Longrightarrow> inq W (upd_task p (\<lambda>t. t\<lparr>preempt_count := n t\<rparr>) a)"
  "inq W a \<Longrightarrow> inq W (upd_task p (\<lambda>t. t\<lparr>nvcsw := w t\<rparr>) a)"
  "inq W a \<Longrightarrow> inq W (upd_task p (\<lambda>t. t\<lparr>nivcsw := w t\<rparr>) a)"
  "inq W a \<Longrightarrow> inq W (upd_task p (\<lambda>t. t\<lparr>policy := i t, static_prio := i1 t, rt_priority := i2 t\<rparr>) a)"
  "inq W a \<Longrightarrow> inq W (upd_task p (\<lambda>t. t\<lparr>prio := i t, normal_prio := i1 t\<rparr>) a)"
  by (rule inq_upd_task; simp)+

lemma inq_upd_rq:
  assumes "inq W a" "\<And>r. nr_running (g r) = nr_running r" "\<And>r. wake_list (g r) = wake_list r"
    "\<And>r. leaf_rt_rq_list (g r) = leaf_rt_rq_list r"
  shows "inq W (upd_rq c g a)"
  by (rule inq_same [OF assms(1)]) (simp_all add: qview_def on_rt_rq_def assms fun_eq_iff)

lemma age_rt_avg_leaf [simp]: "leaf_rt_rq_list (age_rt_avg r) = leaf_rt_rq_list r"
  using age_rt_avg_fields [of r] by auto

lemma inq_rq_fields [inqs]:
  "inq W a \<Longrightarrow> inq W (upd_rq c (\<lambda>r. r\<lparr>clock := f r\<rparr>) a)"
  "inq W a \<Longrightarrow> inq W (upd_rq c (\<lambda>r. r\<lparr>clock_task := f r\<rparr>) a)"
  "inq W a \<Longrightarrow> inq W (upd_rq c age_rt_avg a)"
  "inq W a \<Longrightarrow> inq W (upd_rq c (\<lambda>r. r\<lparr>rt_avg := f r\<rparr>) a)"
  "inq W a \<Longrightarrow> inq W (upd_rq c (\<lambda>r. r\<lparr>skip_clock_update := g r\<rparr>) a)"
  "inq W a \<Longrightarrow> inq W (upd_rq c (\<lambda>r. r\<lparr>wrr_nr_running := h r\<rparr>) a)"
  "inq W a \<Longrightarrow> inq W (upd_rq c (\<lambda>r. r\<lparr>wrr_total_weight := h r\<rparr>) a)"
  "inq W a \<Longrightarrow> inq W (upd_rq c (\<lambda>r. r\<lparr>nr_uninterruptible := h r\<rparr>) a)"
  "inq W a \<Longrightarrow> inq W (upd_rq c (\<lambda>r. r\<lparr>post_schedule := b r\<rparr>) a)"
  "inq W a \<Longrightarrow> inq W (upd_rq c (\<lambda>r. r\<lparr>idle_balance := b r\<rparr>) a)"
  "inq W a \<Longrightarrow> inq W (upd_rq c (\<lambda>r. r\<lparr>online := b r\<rparr>) a)"
  "inq W a \<Longrightarrow> inq W (upd_rq c (\<lambda>r. r\<lparr>ttwu_count := h r\<rparr>) a)"
  "inq W a \<Longrightarrow> inq W (upd_rq c (\<lambda>r. r\<lparr>ttwu_local := h r\<rparr>) a)"
  "inq W a \<Longrightarrow> inq W (upd_rq c (\<lambda>r. r\<lparr>yld_count := h r\<rparr>) a)"
  "inq W a \<Longrightarrow> inq W (upd_rq c (\<lambda>r. r\<lparr>sched_count := h r\<rparr>) a)"
  "inq W a \<Longrightarrow> inq W (upd_rq c (\<lambda>r. r\<lparr>avg_idle := f r\<rparr>) a)"
  "inq W a \<Longrightarrow> inq W (upd_rq c (\<lambda>r. r\<lparr>idle_stamp := f r\<rparr>) a)"
  "inq W a \<Longrightarrow> inq W (upd_rq c (\<lambda>r. r\<lparr>prev_mm := m r\<rparr>) a)"
  "inq W a \<Longrightarrow> inq W (upd_rq c (\<lambda>r. r\<lparr>stop := s r\<rparr>) a)"
  "inq W a \<Longrightarrow> inq W (upd_rq c (\<lambda>r. r\<lparr>nr_switches := f r, curr := t r\<rparr>) a)"
  "inq W a \<Longrightarrow> inq W (upd_rq c (\<lambda>r. r\<lparr>nr_load_updates := h r\<rparr>) a)"
  "inq W a \<Longrightarrow> inq W (upd_rq c (\<lambda>r. r\<lparr>last_load_update_tick := h r\<rparr>) a)"
  "inq W a \<Longrightarrow> inq W (upd_rq c (\<lambda>r. r\<lparr>cpu_load := l r\<rparr>) a)"
  "inq W a \<Longrightarrow> inq W (upd_rq c (\<lambda>r. r\<lparr>calc_load_update := h r\<rparr>) a)"
  "inq W a \<Longrightarrow> inq W (upd_rq c (\<lambda>r. r\<lparr>calc_load_active := h r\<rparr>) a)"
  by (rule inq_upd_rq; simp)+

lemma inq_upd_rt_se:
  assumes "inq W a" "\<And>e. rt_rq_of (g e) = rt_rq_of e" "\<And>e. rt_parent (g e) = rt_parent e"
    "\<And>e. rt_my_q (g e) = rt_my_q e"
  shows "inq W (upd_rt_se s g a)"
  by (rule inq_same [OF assms(1)]) (simp_all add: qview_def on_rt_rq_def assms fun_eq_iff)

lemma inq_rt_se_fields [inqs]:
  "inq W a \<Longrightarrow> inq W (upd_rt_se s (\<lambda>e. e\<lparr>rt_timeout := f e\<rparr>) a)"
  "inq W a \<Longrightarrow> inq W (upd_rt_se s (\<lambda>e. e\<lparr>rt_time_slice := f' e\<rparr>) a)"
  "inq W a \<Longrightarrow> inq W (upd_rt_se s (\<lambda>e. e\<lparr>rt_nr_cpus_allowed := g e\<rparr>) a)"
  by (rule inq_upd_rt_se; simp)+

section \<open>The clock and the counters\<close>

lemma inq_update_rq_clock_task [inqs]: "inq W a \<Longrightarrow> inq W (update_rq_clock_task c d a)"
  unfolding update_rq_clock_task_def by (assumption | rule inqs | rule inq_lets)+

lemma inq_update_rq_clock [inqs]: "inq W a \<Longrightarrow> inq W (update_rq_clock c a)"
  unfolding update_rq_clock_def by (assumption | rule inqs | rule inq_lets)+

lemma inq_sched_avg_update [inqs]: "inq W a \<Longrightarrow> inq W (sched_avg_update env c a)"
  unfolding sched_avg_update_def by (assumption | rule inqs | rule inq_lets)+

lemma inq_sched_rt_avg_update [inqs]: "inq W a \<Longrightarrow> inq W (sched_rt_avg_update env c d a)"
  unfolding sched_rt_avg_update_def by (assumption | rule inqs | rule inq_lets)+

lemma inq_BUG_ON [inqs]: "inq W a \<Longrightarrow> inq W (BUG_ON b a)"
  unfolding BUG_ON_def by (assumption | rule inqs | rule inq_lets)+

lemma inq_resched_task [inqs]: "inq W a \<Longrightarrow> inq W (resched_task p a)"
  unfolding resched_task_def by (assumption | rule inqs | rule inq_lets)+

lemma inq_cpuacct_charge [inqs]: "inq W a \<Longrightarrow> inq W (cpuacct_charge p d a)"
  by (metis cpuacct_charge_is_cas_update inq_other_fields(3))

lemma inq_account_exec [inqs]: "inq W a \<Longrightarrow> inq W (account_exec env c d a)"
  unfolding account_exec_def by (assumption | rule inqs | rule inq_lets)+

section \<open>The WRR class, without its queue\<close>

lemma inq_update_curr_wrr [inqs]: "inq W a \<Longrightarrow> inq W (update_curr_wrr env c a)"
  unfolding update_curr_wrr_def by (assumption | rule inqs | rule inq_lets)+

lemma inq_refresh_group [inqs]: "inq W a \<Longrightarrow> inq W (refresh_group env p a)"
  unfolding refresh_group_def by (assumption | rule inqs | rule inq_lets)+

lemma inq_put_prev_task_wrr [inqs]: "inq W a \<Longrightarrow> inq W (put_prev_task_wrr env c p a)"
  unfolding put_prev_task_wrr_def by (assumption | rule inqs | rule inq_lets)+

lemma inq_set_curr_task_wrr [inqs]: "inq W a \<Longrightarrow> inq W (set_curr_task_wrr c a)"
  unfolding set_curr_task_wrr_def by (assumption | rule inqs | rule inq_lets)+

lemma inq_switched_to_wrr [inqs]: "inq W a \<Longrightarrow> inq W (switched_to_wrr env c p a)"
  unfolding switched_to_wrr_def by (assumption | rule inqs | rule inq_lets)+

lemma inq_wrr_hooks [inqs]:
  "inq W a \<Longrightarrow> inq W (check_preempt_curr_wrr c p fl a)"
  "inq W a \<Longrightarrow> inq W (switched_from_wrr c p a)"
  "inq W a \<Longrightarrow> inq W (task_woken_wrr c p a)"
  "inq W a \<Longrightarrow> inq W (pre_schedule_wrr c p a)"
  "inq W a \<Longrightarrow> inq W (post_schedule_wrr c a)"
  "inq W a \<Longrightarrow> inq W (prio_changed_wrr c p pr a)"
  "inq W a \<Longrightarrow> inq W (set_cpus_allowed_wrr p m a)"
  "inq W a \<Longrightarrow> inq W (rq_online_wrr c a)"
  "inq W a \<Longrightarrow> inq W (rq_offline_wrr c a)"
  by simp_all

section \<open>The RT class, without its queues\<close>

lemma inq_start_rt_bandwidth [inqs]: "inq W a \<Longrightarrow> inq W (start_rt_bandwidth g a)"
  unfolding start_rt_bandwidth_def by (assumption | rule inqs | rule inq_lets)+

lemma inq_rt_set_overload [inqs]: "inq W a \<Longrightarrow> inq W (rt_set_overload c a)"
  unfolding rt_set_overload_def by (assumption | rule inqs | rule inq_lets)+

lemma inq_rt_clear_overload [inqs]: "inq W a \<Longrightarrow> inq W (rt_clear_overload c a)"
  unfolding rt_clear_overload_def by (assumption | rule inqs | rule inq_lets)+

lemma inq_update_rt_migration [inqs]: "inq W a \<Longrightarrow> inq W (update_rt_migration r a)"
  unfolding update_rt_migration_def by (assumption | rule inqs | rule inq_lets)+

lemma inq_inc_rt_migration [inqs]: "inq W a \<Longrightarrow> inq W (inc_rt_migration env s r a)"
  unfolding inc_rt_migration_def by (assumption | rule inqs | rule inq_lets)+

lemma inq_dec_rt_migration [inqs]: "inq W a \<Longrightarrow> inq W (dec_rt_migration env s r a)"
  unfolding dec_rt_migration_def by (assumption | rule inqs | rule inq_lets)+

lemma inq_enqueue_pushable_task [inqs]: "inq W a \<Longrightarrow> inq W (enqueue_pushable_task env c p a)"
  unfolding enqueue_pushable_task_def by (assumption | rule inqs | rule inq_lets)+

lemma inq_dequeue_pushable_task [inqs]: "inq W a \<Longrightarrow> inq W (dequeue_pushable_task env c p a)"
  unfolding dequeue_pushable_task_def by (assumption | rule inqs | rule inq_lets)+

lemma inq_cpupri_set [inqs]: "inq W a \<Longrightarrow> inq W (cpupri_set c pr a)"
  unfolding cpupri_set_def by (assumption | rule inqs | rule inq_lets)+

lemma inq_inc_rt_prio_smp [inqs]: "inq W a \<Longrightarrow> inq W (inc_rt_prio_smp env r pr pp a)"
  unfolding inc_rt_prio_smp_def by (assumption | rule inqs | rule inq_lets)+

lemma inq_dec_rt_prio_smp [inqs]: "inq W a \<Longrightarrow> inq W (dec_rt_prio_smp env r pr pp a)"
  unfolding dec_rt_prio_smp_def by (assumption | rule inqs | rule inq_lets)+

lemma inq_inc_rt_prio [inqs]: "inq W a \<Longrightarrow> inq W (inc_rt_prio env r pr a)"
  unfolding inc_rt_prio_def by (assumption | rule inqs | rule inq_lets)+

lemma inq_dec_rt_prio [inqs]: "inq W a \<Longrightarrow> inq W (dec_rt_prio env r pr a)"
  unfolding dec_rt_prio_def by (assumption | rule inqs | rule inq_lets)+

lemma inq_inc_rt_group [inqs]: "inq W a \<Longrightarrow> inq W (inc_rt_group s r a)"
  unfolding inc_rt_group_def by (assumption | rule inqs | rule inq_lets)+

lemma inq_dec_rt_group [inqs]: "inq W a \<Longrightarrow> inq W (dec_rt_group s r a)"
  unfolding dec_rt_group_def by (assumption | rule inqs | rule inq_lets)+

lemma inq_inc_rt_tasks [inqs]: "inq W a \<Longrightarrow> inq W (inc_rt_tasks env s r a)"
  unfolding inc_rt_tasks_def by (assumption | rule inqs | rule inq_lets)+

lemma inq_dec_rt_tasks [inqs]: "inq W a \<Longrightarrow> inq W (dec_rt_tasks env s r a)"
  unfolding dec_rt_tasks_def by (assumption | rule inqs | rule inq_lets)+

lemma inq_leaf_add [inqs]:
  assumes "inq W a"
  shows "inq W (upd_rq (snd r) (\<lambda>q. q\<lparr>leaf_rt_rq_list := r # leaf_rt_rq_list q\<rparr>) a)"
proof -
  have "qview (upd_rq (snd r) (\<lambda>q. q\<lparr>leaf_rt_rq_list := r # leaf_rt_rq_list q\<rparr>) a) = qview a"
    by (rule qview_eqI) (simp_all add: on_rt_rq_def)
  then show ?thesis using assms
    by (auto simp: inq_def queues_wf_def task_home_ok_def entities_ok_def leaves_ok_def simp del: split_paired_All)
qed

lemma inq_leaf_remove [inqs]:
  assumes "inq W a"
  shows "inq W (upd_rq c (\<lambda>q. q\<lparr>leaf_rt_rq_list := remove1 r (leaf_rt_rq_list q)\<rparr>) a)"
proof -
  let ?b = "upd_rq c (\<lambda>q. q\<lparr>leaf_rt_rq_list := remove1 r (leaf_rt_rq_list q)\<rparr>) a"
  have v: "qview ?b = qview a" by (rule qview_eqI) (simp_all add: on_rt_rq_def)
  have "leaves_ok a" using assms by (simp add: inq_def queues_wf_def)
  then have "leaves_ok ?b"
    using subsetD [OF set_remove1_subset [of r "leaf_rt_rq_list (rqs a c)"]] by (simp add: leaves_ok_def)
  then show ?thesis using assms v
    by (simp add: inq_def queues_wf_def task_home_ok_def entities_ok_def del: split_paired_All)
qed

section \<open>The queues of the RT class\<close>

text \<open>An operation on the lists that moves group entities only.\<close>

lemma inq_rt_q_groups:
  assumes "inq W a" "\<And>p h. count_list (elems (f (rt_q a)) h) (Task_se p) = count_list (elems (rt_q a) h) (Task_se p)"
    "\<And>p. home (f (rt_q a)) (Task_se p) = home (rt_q a) (Task_se p)"
  shows "inq W (rt_q_update f a)"
proof -
  have "qview (rt_q_update f a) = qview a"
    by (rule qview_eqI) (simp_all add: assms(3) on_rt_rq_def node_empty_def)
  then have "W (qview (rt_q_update f a))" using assms(1) by (simp only: inq_def)
  then show ?thesis using assms(1)
    by (simp add: inq_def queues_wf_def task_home_ok_def entities_ok_def leaves_ok_def assms(2,3)
        del: split_paired_All)
qed

lemma count_list_remove1:
  "count_list (remove1 x xs) y = (if x = y then count_list xs y - 1 else count_list xs y)"
  by (induction xs) auto

lemma inq_rt_q_add_group [inqs]:
  "inq W a \<Longrightarrow> inq W (rt_q_update (if b then list_add (Group_se g c) h else list_add_tail (Group_se g c) h) a)"
  by (rule inq_rt_q_groups) (auto simp: list_add_def list_add_tail_def)

lemma inq_rt_q_del_group [inqs]:
  "inq W a \<Longrightarrow> inq W (rt_q_update (list_del_init (Group_se g c)) a)"
  by (rule inq_rt_q_groups) (auto simp: elems_list_del_init count_list_remove1)

lemma inq_enqueue1_group [inqs]:
  "inq W a \<Longrightarrow> inq W (enqueue_rt_entity1 env head (Group_se g c) a)"
  unfolding enqueue_rt_entity1_def by (assumption | rule inqs | rule inq_lets)+

lemma inq_dequeue1_group [inqs]:
  "inq W a \<Longrightarrow> inq W (dequeue_rt_entity1 env (Group_se g c) a)"
  unfolding dequeue_rt_entity1_def by (assumption | rule inqs | rule inq_lets)+

text \<open>The queueing of a task's entity, as an update of the view.\<close>

abbreviation set_rt :: "tid \<Rightarrow> bool \<Rightarrow> qview \<Rightarrow> qview" where
  "set_rt p b v \<equiv> v\<lparr>v_rt := (v_rt v)(p := b)\<rparr>"

lemma task_home_okD:
  assumes "inq W k"
  shows "count_list (elems (rt_q k) h) (Task_se p) = (if home (rt_q k) (Task_se p) = Some h then 1 else 0)"
    "home (rt_q k) (Task_se p) = Some (r, i) \<Longrightarrow> snd r = snd (rt_rq_of (rt_ses k (Task_se p)))"
  using assms unfolding inq_def queues_wf_def task_home_ok_def by blast+

lemma entities_okD:
  assumes "inq W k"
  shows "rt_parent (rt_ses k s) = Some q \<Longrightarrow> \<exists>g c. q = Group_se g c"
    "rt_my_q (rt_ses k (Task_se p)) = None" "rt_my_q (rt_ses k (Group_se g c)) \<noteq> None"
  using assms unfolding inq_def queues_wf_def entities_ok_def by blast+

lemma inq_rt_q_task:
  assumes a: "inq W a" and W': "W' (set_rt p b (qview a))"
    and b: "b \<longleftrightarrow> \<not> node_empty (Task_se p) (f (rt_q a))"
    and cnt: "\<And>q h. count_list (elems (f (rt_q a)) h) (Task_se q)
                = (if home (f (rt_q a)) (Task_se q) = Some h then 1 else 0)"
    and other: "\<And>q. q \<noteq> p \<Longrightarrow> home (f (rt_q a)) (Task_se q) = home (rt_q a) (Task_se q)"
    and here: "\<And>r i. home (f (rt_q a)) (Task_se p) = Some (r, i)
                \<Longrightarrow> snd r = snd (rt_rq_of (rt_ses a (Task_se p)))"
  shows "inq W' (rt_q_update f a)"
proof -
  have "qview (rt_q_update f a) = set_rt p b (qview a)"
    by (rule qview_eqI) (simp_all add: other b on_rt_rq_def node_empty_def)
  then have "W' (qview (rt_q_update f a))" using W' by (simp only:)
  moreover have "snd r = snd (rt_rq_of (rt_ses a (Task_se q)))"
    if "home (f (rt_q a)) (Task_se q) = Some (r, i)" for q r i
    using that here other [of q] task_home_okD(2) [OF a, of q r i] by (cases "q = p") simp_all
  then have "task_home_ok (rt_q_update f a)" unfolding task_home_ok_def using cnt by simp
  ultimately show ?thesis using a
    by (simp add: inq_def queues_wf_def entities_ok_def leaves_ok_def)
qed

lemma inq_del_task:
  assumes a: "inq W a" and W': "\<And>v. W v \<Longrightarrow> W' (set_rt p False v)"
  shows "inq W' (rt_q_update (list_del_init (Task_se p)) a)"
proof (rule inq_rt_q_task [OF a, where p = p and b = False])
  show "W' (set_rt p False (qview a))" by (rule W' [OF inqD(2) [OF a]])
qed (auto simp: node_empty_def elems_list_del_init count_list_remove1 task_home_okD(1) [OF a])

lemma inq_add_task:
  assumes a: "inq W a" and W': "\<And>v. W v \<Longrightarrow> \<not> v_rt v p \<and> W' (set_rt p True v)"
    and h: "snd (fst h) = snd (rt_rq_of (rt_ses a (Task_se p)))"
  shows "inq W' (rt_q_update (if b then list_add (Task_se p) h else list_add_tail (Task_se p) h) a)"
proof (rule inq_rt_q_task [OF a, where p = p and b = True])
  note w = W' [OF inqD(2) [OF a]]
  then show "W' (set_rt p True (qview a))" by blast
  have none: "home (rt_q a) (Task_se p) = None" using w
    by (simp add: on_rt_rq_def node_empty_def del: split_paired_All not_None_eq)
  then show "count_list (elems ((if b then list_add (Task_se p) h else list_add_tail (Task_se p) h) (rt_q a)) h') (Task_se q)
      = (if home ((if b then list_add (Task_se p) h else list_add_tail (Task_se p) h) (rt_q a)) (Task_se q) = Some h' then 1 else 0)" for q h'
    using task_home_okD(1) [OF a, of h' q] by auto
qed (use h in \<open>auto simp: node_empty_def simp del: not_None_eq split: if_splits\<close>)

lemma inq_move_task:
  assumes a: "inq W a" and h: "snd (fst h) = snd (rt_rq_of (rt_ses a s))" and on: "on_rt_rq a s"
  shows "inq W (rt_q_update ((if b then list_move else list_move_tail) s h) a)"
proof (cases s)
  case (Group_se g c)
  then show ?thesis using a
    by (intro inq_rt_q_groups) (auto simp: list_move_def list_move_tail_def elems_list_del_init count_list_remove1)
next
  case (Task_se p)
  have "set_rt p True (qview a) = qview a" using on Task_se by (intro qview_eqI) simp_all
  then have W: "W (set_rt p True (qview a))" using inqD(2) [OF a] by (simp only:)
  show ?thesis unfolding Task_se
  proof (rule inq_rt_q_task [where p = p and b = True and W' = W, OF a W])
    show "count_list (elems ((if b then list_move else list_move_tail) (Task_se p) h (rt_q a)) h') (Task_se q)
      = (if home ((if b then list_move else list_move_tail) (Task_se p) h (rt_q a)) (Task_se q) = Some h' then 1 else 0)" for q h'
      by (auto simp: list_move_def list_move_tail_def elems_list_del_init count_list_remove1 task_home_okD(1) [OF a])
  qed (use h Task_se in \<open>auto simp: node_empty_def list_move_def list_move_tail_def simp del: not_None_eq split: if_splits\<close>)
qed

lemma inq_dequeue1_task:
  assumes "inq W a" "\<And>v. W v \<Longrightarrow> W' (set_rt p False v)"
  shows "inq W' (dequeue_rt_entity1 env (Task_se p) a)"
proof -
  have d: "inq W' (rt_q_update (list_del_init (Task_se p)) a)"
    by (rule inq_del_task [OF assms(1)]) (rule assms(2))
  show ?thesis unfolding dequeue_rt_entity1_def by (assumption | rule d | rule inqs | rule inq_lets)+
qed

lemma inq_enqueue1_task:
  assumes a: "inq W a" and W': "\<And>v. W v \<Longrightarrow> \<not> v_rt v p \<and> W' (set_rt p True v)"
  shows "inq W' (enqueue_rt_entity1 env head (Task_se p) a)"
proof -
  let ?r = "rt_rq_of (rt_ses a (Task_se p))"
  let ?b = "if rt_nr_running (rt_rqs a ?r) = 0
    then upd_rq (snd ?r) (\<lambda>q. q\<lparr>leaf_rt_rq_list := ?r # leaf_rt_rq_list q\<rparr>) a else a"
  have b: "inq W ?b" by (intro inq_rules inq_leaf_add a)
  have "inq W' (rt_q_update (if head then list_add (Task_se p) (?r, n) else list_add_tail (Task_se p) (?r, n)) ?b)" for n
    by (rule inq_add_task [OF b]) (use W' in simp_all)
  then show ?thesis unfolding enqueue_rt_entity1_def Let_def entities_okD(2) [OF a] option.case if_False
    by (intro inqs)
qed

lemma op_fold_in: "\<lbrakk>P a; \<And>x b. \<lbrakk>x \<in> set xs; P b\<rbrakk> \<Longrightarrow> P (f x b)\<rbrakk> \<Longrightarrow> P (fold f xs a)"
  by (induction xs arbitrary: a) simp_all

lemma ancestors_groups:
  assumes "inq W k" "m = Some (Group_se g c) \<or> m = None"
    "s \<in> set (ancestors n (\<lambda>s. rt_parent (rt_ses k s)) m)"
  shows "\<exists>g c. s = Group_se g c"
  using assms(2,3)
proof (induction n "\<lambda>s. rt_parent (rt_ses k s)" m arbitrary: g c rule: ancestors.induct)
  case (3 n q)
  show ?case
  proof (cases "s = q")
    case False
    then have "s \<in> set (ancestors n (\<lambda>s. rt_parent (rt_ses k s)) (rt_parent (rt_ses k q)))" using 3 by simp
    moreover have "(\<exists>g c. rt_parent (rt_ses k q) = Some (Group_se g c)) \<or> rt_parent (rt_ses k q) = None"
      using entities_okD(1) [OF assms(1), of q] by (cases "rt_parent (rt_ses k q)") auto
    ultimately show ?thesis using "3.hyps" by blast
  qed (use 3 in auto)
qed simp_all

lemma chain_tail_groups:
  assumes "inq W k" "x \<in> set (tl (rt_chain k s))"
  shows "\<exists>g c. x = Group_se g c"
proof (cases "rt_parent (rt_ses k s)")
  case (Some q)
  then obtain g c where "q = Group_se g c" using entities_okD(1) [OF assms(1)] by blast
  with assms(2) Some have "x \<in> set (ancestors (rt_se_rank q) (\<lambda>s. rt_parent (rt_ses k s)) (Some (Group_se g c)))"
    by (simp add: rt_chain_def)
  then show ?thesis by (rule ancestors_groups [OF assms(1), rotated]) blast
qed (use assms(2) in \<open>simp add: rt_chain_def\<close>)

lemma chain_split: "rt_chain k s = s # tl (rt_chain k s)"
  by (simp add: rt_chain_def)

text \<open>Entities above a task, and everything a loop over them does, concern groups only.\<close>

lemma inq_dequeue_stack_group [inqs]:
  fixes a :: "'x kernel"
  assumes "inq W a"
  shows "inq W (dequeue_rt_stack env (Group_se g c) a)"
  unfolding dequeue_rt_stack_def
proof (rule op_fold_in [where P = "inq W", OF assms])
  fix s and b :: "'x kernel" assume s: "s \<in> set (rev (rt_chain a (Group_se g c)))" and b: "inq W b"
  then have "\<exists>g c. s = Group_se g c"
    using chain_tail_groups [OF assms] by (subst (asm) chain_split) auto
  then show "inq W (if on_rt_rq b s then dequeue_rt_entity1 env s b else b)" using b inq_dequeue1_group by auto
qed

lemma inq_dequeue_stack_task:
  fixes a :: "'x kernel"
  assumes a: "inq W a" and W': "\<And>v. W v \<Longrightarrow> W' (set_rt p False v)"
  shows "inq W' (dequeue_rt_stack env (Task_se p) a)"
proof -
  let ?f = "\<lambda>s k. if on_rt_rq k s then dequeue_rt_entity1 env s k else k"
  let ?b = "fold ?f (rev (tl (rt_chain a (Task_se p)))) a"
  have b: "inq W ?b"
  proof (rule op_fold_in [where P = "inq W", OF a])
    fix s and b :: "'x kernel" assume "s \<in> set (rev (tl (rt_chain a (Task_se p))))" and b: "inq W b"
    then have "\<exists>g c. s = Group_se g c" using chain_tail_groups [OF a] by simp
    then show "inq W (?f s b)" using b inq_dequeue1_group by auto
  qed
  have "inq W' (?f (Task_se p) ?b)"
  proof (cases "on_rt_rq ?b (Task_se p)")
    case True
    then show ?thesis using inq_dequeue1_task [OF b, of W' p] W' by simp
  next
    case False
    then have "set_rt p False (qview ?b) = qview ?b" by (intro qview_eqI) simp_all
    then have "W' (qview ?b)" using W' [OF inqD(2) [OF b]] by (simp only:)
    then show ?thesis using False inqD(1) [OF b] by (simp add: inq_def)
  qed
  then show ?thesis unfolding dequeue_rt_stack_def by (subst chain_split) simp
qed

lemma inq_enqueue_group [inqs]:
  fixes a :: "'x kernel"
  assumes "inq W a"
  shows "inq W (enqueue_rt_entity env (Group_se g c) head a)"
  unfolding enqueue_rt_entity_def Let_def
proof (rule op_fold_in [where P = "inq W"])
  show d: "inq W (dequeue_rt_stack env (Group_se g c) a)" by (rule inq_dequeue_stack_group [OF assms])
  fix s and b :: "'x kernel" assume s: "s \<in> set (rt_chain (dequeue_rt_stack env (Group_se g c) a) (Group_se g c))" and b: "inq W b"
  then have "\<exists>g c. s = Group_se g c"
    using chain_tail_groups [OF d] by (subst (asm) chain_split) auto
  then show "inq W (enqueue_rt_entity1 env head s b)" using b inq_enqueue1_group by auto
qed

lemma inq_dequeue_group [inqs]:
  fixes a :: "'x kernel"
  assumes "inq W a"
  shows "inq W (dequeue_rt_entity env (Group_se g c) a)"
  unfolding dequeue_rt_entity_def Let_def
proof (rule op_fold_in [where P = "inq W"])
  show d: "inq W (dequeue_rt_stack env (Group_se g c) a)" by (rule inq_dequeue_stack_group [OF assms])
  fix s and b :: "'x kernel" assume s: "s \<in> set (rt_chain (dequeue_rt_stack env (Group_se g c) a) (Group_se g c))" and b: "inq W b"
  then have "\<exists>g c. s = Group_se g c"
    using chain_tail_groups [OF d] by (subst (asm) chain_split) auto
  then show "inq W (case group_rt_rq b s of None \<Rightarrow> b
      | Some g \<Rightarrow> if rt_nr_running (rt_rqs b g) \<noteq> 0 then enqueue_rt_entity1 env False s b else b)"
    using b by (auto intro!: inqs)
qed

lemma inq_enqueue_task_entity:
  fixes a :: "'x kernel"
  assumes a: "inq W a" and W': "\<And>v. W v \<Longrightarrow> W' (set_rt p True v)"
  shows "inq W' (enqueue_rt_entity env (Task_se p) head a)"
proof -
  let ?d = "dequeue_rt_stack env (Task_se p) a"
  let ?U = "\<lambda>v. \<not> v_rt v p \<and> W' (set_rt p True v)"
  have d: "inq ?U ?d" by (rule inq_dequeue_stack_task [OF a]) (simp add: W')
  have "inq W' (enqueue_rt_entity1 env head (Task_se p) ?d)" by (rule inq_enqueue1_task [OF d]) simp
  then have "inq W' (fold (enqueue_rt_entity1 env head) (tl (rt_chain ?d (Task_se p)))
      (enqueue_rt_entity1 env head (Task_se p) ?d))"
    by (rule op_fold_in [where P = "inq W'"]) (use chain_tail_groups [OF d] inq_enqueue1_group in blast)
  then show ?thesis unfolding enqueue_rt_entity_def Let_def by (subst chain_split) simp
qed

lemma inq_dequeue_task_entity:
  fixes a :: "'x kernel"
  assumes a: "inq W a" and W': "\<And>v. W v \<Longrightarrow> W' (set_rt p False v)"
  shows "inq W' (dequeue_rt_entity env (Task_se p) a)"
proof -
  let ?d = "dequeue_rt_stack env (Task_se p) a"
  let ?f = "\<lambda>s k. case group_rt_rq k s of None \<Rightarrow> k
      | Some g \<Rightarrow> if rt_nr_running (rt_rqs k g) \<noteq> 0 then enqueue_rt_entity1 env False s k else k"
  have d: "inq W' ?d" by (rule inq_dequeue_stack_task [OF a]) (rule W')
  have "inq W' (fold ?f (tl (rt_chain ?d (Task_se p))) ?d)"
  proof (rule op_fold_in [where P = "inq W'", OF d])
    fix s and b :: "'x kernel" assume "s \<in> set (tl (rt_chain ?d (Task_se p)))" and b: "inq W' b"
    then have "\<exists>g c. s = Group_se g c" using chain_tail_groups [OF d] by simp
    then show "inq W' (?f s b)" using b by (auto intro!: inqs)
  qed
  moreover have "?f (Task_se p) ?d = ?d" using entities_okD(2) [OF d] by simp
  ultimately show ?thesis unfolding dequeue_rt_entity_def Let_def by (subst chain_split) simp
qed

lemma inq_tg_entity [inqs]:
  "tg_rt_se g c = Some s \<Longrightarrow> inq W a \<Longrightarrow> inq W (enqueue_rt_entity env s h a)"
  "tg_rt_se g c = Some s \<Longrightarrow> inq W a \<Longrightarrow> inq W (dequeue_rt_entity env s a)"
  by (auto simp: tg_rt_se_def split: if_splits intro: inqs)

section \<open>Bandwidth and accounting of the RT class\<close>

lemma inq_sched_rt_rq_enqueue [inqs]: "inq W a \<Longrightarrow> inq W (sched_rt_rq_enqueue env r a)"
  unfolding sched_rt_rq_enqueue_def
  by (cases "tg_rt_se (the (rt_tg (rt_rqs a r))) (snd r)")
    (simp_all add: Let_def inq_tg_entity inq_resched_task)

lemma inq_sched_rt_rq_dequeue [inqs]: "inq W a \<Longrightarrow> inq W (sched_rt_rq_dequeue env r a)"
  unfolding sched_rt_rq_dequeue_def
  by (cases "tg_rt_se (the (rt_tg (rt_rqs a r))) (snd r)") (simp_all add: inq_tg_entity)

lemma inq_balance_step [inqs]: "inq W (fst a) \<Longrightarrow> inq W (fst (balance_step r w pd a i))"
  unfolding balance_step_def by (assumption | rule inqs | rule inq_lets)+

lemma inq_do_balance_runtime [inqs]: "inq W a \<Longrightarrow> inq W (snd (do_balance_runtime env r a))"
  unfolding do_balance_runtime_def by (assumption | rule inqs | rule inq_lets)+

lemma inq_balance_runtime [inqs]: "inq W a \<Longrightarrow> inq W (snd (balance_runtime env r a))"
  unfolding balance_runtime_def by (assumption | rule inqs | rule inq_lets)+

lemma inq_reclaim_step [inqs]: "inq W (fst a) \<Longrightarrow> inq W (fst (reclaim_step r a i))"
  unfolding reclaim_step_def by (assumption | rule inqs | rule inq_lets)+

lemma inq_disable_runtime_rq [inqs]: "inq W a \<Longrightarrow> inq W (disable_runtime_rq env r a)"
  unfolding disable_runtime_rq_def by (assumption | rule inqs | rule inq_lets)+

lemma inq_disable_runtime [inqs]: "inq W a \<Longrightarrow> inq W (disable_runtime env c a)"
  unfolding disable_runtime_def by (assumption | rule inqs | rule inq_lets)+

lemma inq_enable_runtime [inqs]: "inq W a \<Longrightarrow> inq W (enable_runtime c a)"
  unfolding enable_runtime_def by (assumption | rule inqs | rule inq_lets)+

lemma inq_update_runtime [inqs]: "inq W a \<Longrightarrow> inq W (snd (update_runtime env act c a))"
  by (cases act) (simp_all add: update_runtime_def inqs)

lemma inq_rt_period_cpu [inqs]: "inq W (fst a) \<Longrightarrow> inq W (fst (rt_period_cpu env g ov a i))"
  unfolding rt_period_cpu_def by (assumption | rule inqs | rule inq_lets)+

lemma inq_do_sched_rt_period_timer [inqs]: "inq W a \<Longrightarrow> inq W (snd (do_sched_rt_period_timer env g ov a))"
  unfolding do_sched_rt_period_timer_def by (assumption | rule inqs | rule inq_lets)+

lemma inq_sched_rt_runtime_exceeded [inqs]: "inq W a \<Longrightarrow> inq W (snd (sched_rt_runtime_exceeded env r a))"
  unfolding sched_rt_runtime_exceeded_def by (assumption | rule inqs | rule inq_lets)+

lemma inq_charge_rt_rq [inqs]: "inq W a \<Longrightarrow> inq W (charge_rt_rq env p d s a)"
  unfolding charge_rt_rq_def by (assumption | rule inqs | rule inq_lets)+

lemma inq_update_curr_rt [inqs]: "inq W a \<Longrightarrow> inq W (update_curr_rt env c a)"
  unfolding update_curr_rt_def by (assumption | rule inqs | rule inq_lets)+

section \<open>Operations of the RT class that keep the queues\<close>

lemma inq_requeue_rt_entity: "inq W a \<Longrightarrow> inq W (requeue_rt_entity (rt_rq_of_se a s) s h a)"
  unfolding requeue_rt_entity_def by (simp add: inq_move_task)

lemma inq_requeue_task_rt [inqs]: "inq W a \<Longrightarrow> inq W (requeue_task_rt c p h a)"
  unfolding requeue_task_rt_def by (erule op_fold [where P = "inq W"]) (rule inq_requeue_rt_entity)

lemma inq_yield_task_rt [inqs]: "inq W a \<Longrightarrow> inq W (yield_task_rt c a)"
  unfolding yield_task_rt_def by (assumption | rule inqs | rule inq_lets)+

lemma inq_check_preempt_equal_prio [inqs]: "inq W a \<Longrightarrow> inq W (check_preempt_equal_prio env c p a)"
  unfolding check_preempt_equal_prio_def by (assumption | rule inqs | rule inq_lets)+

lemma inq_check_preempt_curr_rt [inqs]: "inq W a \<Longrightarrow> inq W (check_preempt_curr_rt env c p fl a)"
  unfolding check_preempt_curr_rt_def by (assumption | rule inqs | rule inq_lets)+

lemma inq_put_prev_task_rt [inqs]: "inq W a \<Longrightarrow> inq W (put_prev_task_rt env c p a)"
  unfolding put_prev_task_rt_def by (assumption | rule inqs | rule inq_lets)+

lemma inq_set_curr_task_rt [inqs]: "inq W a \<Longrightarrow> inq W (set_curr_task_rt env c a)"
  unfolding set_curr_task_rt_def by (assumption | rule inqs | rule inq_lets)+

lemma inq_watchdog [inqs]: "inq W a \<Longrightarrow> inq W (watchdog env p a)"
  unfolding watchdog_def by (assumption | rule inqs | rule inq_lets)+

lemma inq_task_tick_rt [inqs]: "inq W a \<Longrightarrow> inq W (task_tick_rt env c p q a)"
  unfolding task_tick_rt_def by (assumption | rule inqs | rule inq_lets)+

lemma inq_set_cpus_allowed_rt [inqs]: "inq W a \<Longrightarrow> inq W (set_cpus_allowed_rt env p m a)"
  unfolding set_cpus_allowed_rt_def by (assumption | rule inqs | rule inq_lets)+

lemma inq_rq_online_rt [inqs]: "inq W a \<Longrightarrow> inq W (rq_online_rt c a)"
  unfolding rq_online_rt_def by (assumption | rule inqs | rule inq_lets)+

lemma inq_rq_offline_rt [inqs]: "inq W a \<Longrightarrow> inq W (rq_offline_rt env c a)"
  unfolding rq_offline_rt_def by (assumption | rule inqs | rule inq_lets)+

lemma inq_pick_next_task_rt1 [inqs]: "inq W a \<Longrightarrow> inq W (snd (pick_next_task_rt1 c a))"
  unfolding pick_next_task_rt1_def by (assumption | rule inqs | rule inq_lets)+

lemma inq_pick_next_task_rt [inqs]: "inq W a \<Longrightarrow> inq W (snd (pick_next_task_rt env c a))"
  unfolding pick_next_task_rt_def by (assumption | rule inqs | rule inq_lets)+

lemma inq_pick_next_pushable_task [inqs]: "inq W a \<Longrightarrow> inq W (snd (pick_next_pushable_task c a))"
  unfolding pick_next_pushable_task_def by (assumption | rule inqs | rule inq_lets)+

section \<open>Load and counters of the core\<close>

lemma inq_calc_load_account_active [inqs]:
  assumes "inq W a"
  shows "inq W (calc_load_account_active c a)"
proof -
  have r: "inq W (upd_rq c (\<lambda>_. snd (calc_load_fold_active (rqs a c))) a)"
    by (rule inq_same [OF assms])
      (auto simp: qview_def calc_load_fold_active_def Let_def on_rt_rq_def fun_eq_iff)
  show ?thesis unfolding calc_load_account_active_def Let_def case_prod_unfold
    by (assumption | rule r | rule assms | rule inqs)+
qed

lemma inq_update_cpu_load [inqs]: "inq W a \<Longrightarrow> inq W (update_cpu_load env c a)"
  unfolding update_cpu_load_def by (assumption | rule inqs | rule inq_lets)+

lemma inq_update_cpu_load_active [inqs]: "inq W a \<Longrightarrow> inq W (update_cpu_load_active env c a)"
  unfolding update_cpu_load_active_def by (assumption | rule inqs | rule inq_lets)+

lemma inq_calc_global_load_remove [inqs]: "inq W a \<Longrightarrow> inq W (calc_global_load_remove c a)"
  unfolding calc_global_load_remove_def by (assumption | rule inqs | rule inq_lets)+

lemma inq_migrate_nr_uninterruptible [inqs]: "inq W a \<Longrightarrow> inq W (migrate_nr_uninterruptible env c a)"
  unfolding migrate_nr_uninterruptible_def by (assumption | rule inqs | rule inq_lets)+

lemma inq_set_load_weight [inqs]: "inq W a \<Longrightarrow> inq W (set_load_weight p a)"
  unfolding set_load_weight_def by (assumption | rule inqs | rule inq_lets)+

lemma inq_effective_prio [inqs]: "inq W a \<Longrightarrow> inq W (snd (effective_prio p a))"
  unfolding effective_prio_def by (assumption | rule inqs | rule inq_lets)+

lemma inq_ttwu_stat [inqs]: "inq W a \<Longrightarrow> inq W (ttwu_stat env p c fl a)"
  unfolding ttwu_stat_def by (assumption | rule inqs | rule inq_lets)+

lemma inq_wait_on_cpu [inqs]: "inq W a \<Longrightarrow> inq W (wait_on_cpu p a)"
  unfolding wait_on_cpu_def by (assumption | rule inqs | rule inq_lets)+

lemma inq_finish_task_switch [inqs]: "inq W a \<Longrightarrow> inq W (finish_task_switch env c p a)"
  unfolding finish_task_switch_def by (assumption | rule inqs | rule inq_lets)+

lemma inq_context_switch [inqs]: "inq W a \<Longrightarrow> inq W (context_switch env c p q a)"
  unfolding context_switch_def by (assumption | rule inqs | rule inq_lets)+

section \<open>The operations of the view\<close>

text \<open>
  Queueing a task on a cpu, taking it off, and moving it, as the classes do it: the fair and
  stop classes only count. A WRR task goes to the queue of the cpu given, an RT task to that
  of the cpu its entity names.
\<close>

definition q_enq :: "cpu \<Rightarrow> tid \<Rightarrow> qview \<Rightarrow> qview" where
  "q_enq c p v = v\<lparr>v_nr := (v_nr v)(c := v_nr v c + 1),
     v_wrr := (if v_class v p = wrr_sched_class then (v_wrr v)(p := Some c) else v_wrr v),
     v_rt := (if v_class v p = rt_sched_class then (v_rt v)(p := True) else v_rt v)\<rparr>"

definition q_deq :: "cpu \<Rightarrow> tid \<Rightarrow> qview \<Rightarrow> qview" where
  "q_deq c p v = v\<lparr>v_nr := (v_nr v)(c := v_nr v c - 1),
     v_wrr := (if v_class v p = wrr_sched_class then (v_wrr v)(p := None) else v_wrr v),
     v_rt := (if v_class v p = rt_sched_class then (v_rt v)(p := False) else v_rt v)\<rparr>"

definition q_move :: "bool \<Rightarrow> tid \<Rightarrow> cpu \<Rightarrow> qview \<Rightarrow> qview" where
  "q_move smp p d v =
     (if smp then v\<lparr>v_cpu := (v_cpu v)(p := d), v_rtcpu := (v_rtcpu v)(p := d)\<rparr> else v)"

abbreviation set_on :: "tid \<Rightarrow> bool \<Rightarrow> qview \<Rightarrow> qview" where
  "set_on p b v \<equiv> v\<lparr>v_on := (v_on v)(p := b)\<rparr>"

abbreviation set_state :: "tid \<Rightarrow> u32 \<Rightarrow> qview \<Rightarrow> qview" where
  "set_state p s v \<equiv> v\<lparr>v_state := (v_state v)(p := s)\<rparr>"

abbreviation set_class :: "tid \<Rightarrow> sched_class \<Rightarrow> qview \<Rightarrow> qview" where
  "set_class p cl v \<equiv> v\<lparr>v_class := (v_class v)(p := cl)\<rparr>"

lemmas q_ops = q_enq_def q_deq_def q_move_def

lemma inq_set_on:
  assumes "inq W a" "\<And>v. W v \<Longrightarrow> W' (set_on p b v)"
  shows "inq W' (upd_task p (\<lambda>t. t\<lparr>on_rq := b\<rparr>) a)"
proof -
  have "qview (upd_task p (\<lambda>t. t\<lparr>on_rq := b\<rparr>) a) = set_on p b (qview a)"
    by (rule qview_eqI) (simp_all add: on_rt_rq_def)
  then have "W' (qview (upd_task p (\<lambda>t. t\<lparr>on_rq := b\<rparr>) a))"
    using assms(2) [OF inqD(2) [OF assms(1)]] by (simp only:)
  then show ?thesis using inqD(1) [OF assms(1)]
    by (simp add: inq_def queues_wf_def task_home_ok_def entities_ok_def leaves_ok_def del: split_paired_All)
qed

lemma inq_set_state:
  assumes "inq W a" "\<And>v. W v \<Longrightarrow> W' (set_state p s v)"
  shows "inq W' (upd_task p (\<lambda>t. t\<lparr>state := s\<rparr>) a)"
proof -
  have "qview (upd_task p (\<lambda>t. t\<lparr>state := s\<rparr>) a) = (set_state p s (qview a))"
    by (rule qview_eqI) (simp_all add: on_rt_rq_def)
  then have "W' (qview (upd_task p (\<lambda>t. t\<lparr>state := s\<rparr>) a))"
    using assms(2) [OF inqD(2) [OF assms(1)]] by (simp only:)
  then show ?thesis using inqD(1) [OF assms(1)]
    by (simp add: inq_def queues_wf_def task_home_ok_def entities_ok_def leaves_ok_def del: split_paired_All)
qed

lemma inq_set_class:
  assumes a: "inq W a" and W': "\<And>v. W v \<Longrightarrow> W' (set_class p (cl (tasks a p)) v)"
  shows "inq W' (upd_task p (\<lambda>t. t\<lparr>class_of := cl t\<rparr>) a)"
proof -
  have "qview (upd_task p (\<lambda>t. t\<lparr>class_of := cl t\<rparr>) a) = set_class p (cl (tasks a p)) (qview a)"
    by (rule qview_eqI) (simp_all add: on_rt_rq_def)
  then have "W' (qview (upd_task p (\<lambda>t. t\<lparr>class_of := cl t\<rparr>) a))"
    using W' [OF inqD(2) [OF a]] by (simp only:)
  then show ?thesis using inqD(1) [OF a]
    by (simp add: inq_def queues_wf_def task_home_ok_def entities_ok_def leaves_ok_def del: split_paired_All)
qed

lemmas queue_wf_defs = queues_wf_def task_home_ok_def entities_ok_def leaves_ok_def

lemma inq_set_nr:
  assumes a: "inq W a" and W': "\<And>v. W v \<Longrightarrow> W' (v\<lparr>v_nr := (v_nr v)(c := f (v_nr v c))\<rparr>)"
  shows "inq W' (upd_rq c (\<lambda>r. r\<lparr>nr_running := f (nr_running r)\<rparr>) a)"
proof -
  have "qview (upd_rq c (\<lambda>r. r\<lparr>nr_running := f (nr_running r)\<rparr>) a)
      = (qview a)\<lparr>v_nr := (v_nr (qview a))(c := f (v_nr (qview a) c))\<rparr>"
    by (rule qview_eqI) (simp_all add: on_rt_rq_def)
  then have "W' (qview (upd_rq c (\<lambda>r. r\<lparr>nr_running := f (nr_running r)\<rparr>) a))"
    using W' [OF inqD(2) [OF a]] by (simp only:)
  then show ?thesis using inqD(1) [OF a] by (simp add: inq_def queue_wf_defs del: split_paired_All)
qed

lemma inq_set_wake:
  assumes a: "inq W a" and W': "\<And>v. W v \<Longrightarrow> W' (v\<lparr>v_wake := (v_wake v)(c := f (v_wake v c))\<rparr>)"
  shows "inq W' (upd_rq c (\<lambda>r. r\<lparr>wake_list := f (wake_list r)\<rparr>) a)"
proof -
  have "qview (upd_rq c (\<lambda>r. r\<lparr>wake_list := f (wake_list r)\<rparr>) a)
      = (qview a)\<lparr>v_wake := (v_wake (qview a))(c := f (v_wake (qview a) c))\<rparr>"
    by (rule qview_eqI) (simp_all add: on_rt_rq_def)
  then have "W' (qview (upd_rq c (\<lambda>r. r\<lparr>wake_list := f (wake_list r)\<rparr>) a))"
    using W' [OF inqD(2) [OF a]] by (simp only:)
  then show ?thesis using inqD(1) [OF a] by (simp add: inq_def queue_wf_defs del: split_paired_All)
qed

lemma inq_set_wrr_q:
  assumes a: "inq W a" and L: "lists_wf (f (wrr_q a))" "\<And>q. home (f (wrr_q a)) q = h (home (wrr_q a)) q"
    and W': "\<And>v. W v \<Longrightarrow> W' (v\<lparr>v_wrr := h (v_wrr v)\<rparr>)"
  shows "inq W' (wrr_q_update f a)"
proof -
  have "qview (wrr_q_update f a) = (qview a)\<lparr>v_wrr := h (v_wrr (qview a))\<rparr>"
    by (rule qview_eqI) (simp_all add: on_rt_rq_def L(2))
  then have "W' (qview (wrr_q_update f a))" using W' [OF inqD(2) [OF a]] by (simp only:)
  then show ?thesis using inqD(1) [OF a] L(1) by (simp add: inq_def queue_wf_defs del: split_paired_All)
qed

lemma inq_lists_wf: "inq W a \<Longrightarrow> lists_wf (wrr_q a)"
  by (simp add: inq_def queues_wf_def)

section \<open>The queue of the WRR class\<close>

lemma inq_enqueue_task_wrr:
  assumes a: "inq W a"
    and W': "\<And>v. W v \<Longrightarrow> v_class v p = wrr_sched_class \<and> v_wrr v p = None \<and> W' (q_enq c p v)"
  shows "inq W' (enqueue_task_wrr env c p fl a)"
proof -
  let ?W1 = "\<lambda>v. W' (v\<lparr>v_nr := (v_nr v)(c := v_nr v c + 1)\<rparr>)"
  let ?f = "\<lambda>h. if h then list_add p c else list_add_tail p c"
  have r: "inq W (refresh_group env p a)" by (rule inqs a)+
  then have none: "home (wrr_q (refresh_group env p a)) p = None" using W' [OF inqD(2) [OF r]] by simp
  then have "inq ?W1 (wrr_q_update (?f h) (refresh_group env p a))" for h
  proof (intro inq_set_wrr_q [OF r, where h = "\<lambda>m. m(p := Some c)"])
    show "?W1 (v\<lparr>v_wrr := (v_wrr v)(p := Some c)\<rparr>)" if "W v" for v
    proof -
      have "v\<lparr>v_wrr := (v_wrr v)(p := Some c), v_nr := (v_nr v)(c := v_nr v c + 1)\<rparr> = q_enq c p v"
        using W' [OF that] by (simp add: q_enq_def)
      then show ?thesis using W' [OF that] by simp
    qed
  qed (use inq_lists_wf [OF r] in auto)
  then have "inq ?W1 (enqueue_wrr_entity env c p h a)" for h
    unfolding enqueue_wrr_entity_def Let_def by (intro inqs)
  then show ?thesis unfolding enqueue_task_wrr_def inc_nr_running_def
    by (rule inq_set_nr [where f = "\<lambda>n. n + 1"])
qed

lemma inq_dequeue_task_wrr:
  assumes a: "inq W a" and W': "\<And>v. W v \<Longrightarrow> v_class v p = wrr_sched_class \<and> W' (q_deq c p v)"
  shows "inq W' (dequeue_task_wrr env c p fl a)"
proof -
  let ?W1 = "\<lambda>v. W' (v\<lparr>v_nr := (v_nr v)(c := v_nr v c - 1)\<rparr>)"
  have r: "inq W (update_curr_wrr env c a)" by (rule inqs a)+
  then have "inq ?W1 (wrr_q_update (list_del_init p) (update_curr_wrr env c a))"
  proof (intro inq_set_wrr_q [OF r, where h = "\<lambda>m. m(p := None)"])
    show "?W1 (v\<lparr>v_wrr := (v_wrr v)(p := None)\<rparr>)" if "W v" for v
    proof -
      have "v\<lparr>v_wrr := (v_wrr v)(p := None), v_nr := (v_nr v)(c := v_nr v c - 1)\<rparr> = q_deq c p v"
        using W' [OF that] by (simp add: q_deq_def)
      then show ?thesis using W' [OF that] by simp
    qed
  qed (use inq_lists_wf [OF r] in auto)
  then have "inq ?W1 (dequeue_wrr_entity c p (update_curr_wrr env c a))"
    unfolding dequeue_wrr_entity_def Let_def by (intro inqs)
  then show ?thesis unfolding dequeue_task_wrr_def dec_nr_running_def
    by (rule inq_set_nr [where f = "\<lambda>n. n - 1"])
qed

text \<open>Requeueing keeps a task on its queue, if it is on the queue of that cpu.\<close>

lemma inq_requeue_task_wrr:
  assumes a: "inq W a" and here: "home (wrr_q a) p = Some c"
  shows "inq W (requeue_task_wrr c p h a)"
  unfolding requeue_task_wrr_def
proof (rule inq_set_wrr_q [OF a, where h = "\<lambda>m. m"])
  show "home ((if h \<noteq> 0 then list_move p c else list_move_tail p c) (wrr_q a)) q = home (wrr_q a) q" for q
    using here by auto
qed (use inq_lists_wf [OF a] in auto)

lemma inq_yield_task_wrr:
  assumes "inq W a" "home (wrr_q a) (curr_of a c) = Some c"
  shows "inq W (yield_task_wrr c a)"
  unfolding yield_task_wrr_def by (rule inq_requeue_task_wrr [OF assms])

lemma inq_task_tick_wrr:
  assumes a: "inq W a" and here: "\<And>v. W v \<Longrightarrow> v_wrr v p = None \<or> v_wrr v p = Some c"
  shows "inq W (task_tick_wrr env c p q a)"
proof -
  let ?b = "upd_wrr p (\<lambda>e. e\<lparr>wrr_time_slice := wrr_time_slice e - 1\<rparr>) (update_curr_wrr env c a)"
  let ?d = "upd_wrr p (\<lambda>e. e\<lparr>wrr_time_slice :=
                  (if wrr_weight e = 1 then WRR_BG_TIMESLICE else WRR_FG_TIMESLICE)\<rparr>) ?b"
  have b: "inq W ?b" by (rule inqs a)+
  then have d: "inq W ?d" by (rule inqs)
  have "inq W (resched_task p (requeue_task_wrr c p 0 ?d))" if "link_prev p (wrr_q ?d) \<noteq> link_next p (wrr_q ?d)"
  proof -
    have "home (wrr_q ?d) p \<noteq> None" using that prev_next_unlinked [of "wrr_q ?d" p] by blast
    then have "home (wrr_q ?d) p = Some c" using here [OF inqD(2) [OF d]] by auto
    then show ?thesis by (intro inq_resched_task inq_requeue_task_wrr [OF d])
  qed
  then show ?thesis using b d unfolding task_tick_wrr_def Let_def by simp
qed

section \<open>Queueing RT tasks\<close>

lemma inq_enqueue_task_rt:
  assumes a: "inq W a" and W': "\<And>v. W v \<Longrightarrow> v_class v p = rt_sched_class \<and> W' (q_enq c p v)"
  shows "inq W' (enqueue_task_rt env c p fl a)"
proof -
  let ?W1 = "\<lambda>v. W' (v\<lparr>v_nr := (v_nr v)(c := v_nr v c + 1)\<rparr>)"
  let ?b = "if fl AND ENQUEUE_WAKEUP \<noteq> 0 then upd_rt_se (Task_se p) (\<lambda>e. e\<lparr>rt_timeout := 0\<rparr>) a else a"
  have b: "inq W ?b" by (rule inqs a)+
  have "?W1 (set_rt p True v)" if "W v" for v
  proof -
    have "v\<lparr>v_rt := (v_rt v)(p := True), v_nr := (v_nr v)(c := v_nr v c + 1)\<rparr> = q_enq c p v"
      using W' [OF that] by (simp add: q_enq_def)
    then show ?thesis using W' [OF that] by simp
  qed
  then have e: "inq ?W1 (enqueue_rt_entity env (Task_se p) h ?b)" for h by (rule inq_enqueue_task_entity [OF b])
  show ?thesis unfolding enqueue_task_rt_def Let_def inc_nr_running_def
    by (rule inq_set_nr [where f = "\<lambda>n. n + 1" and W = ?W1]) (rule inqs e | assumption)+
qed

lemma inq_dequeue_task_rt:
  assumes a: "inq W a" and W': "\<And>v. W v \<Longrightarrow> v_class v p = rt_sched_class \<and> W' (q_deq c p v)"
  shows "inq W' (dequeue_task_rt env c p fl a)"
proof -
  let ?W1 = "\<lambda>v. W' (v\<lparr>v_nr := (v_nr v)(c := v_nr v c - 1)\<rparr>)"
  have b: "inq W (update_curr_rt env c a)" by (rule inqs a)+
  have "?W1 (set_rt p False v)" if "W v" for v
  proof -
    have "v\<lparr>v_rt := (v_rt v)(p := False), v_nr := (v_nr v)(c := v_nr v c - 1)\<rparr> = q_deq c p v"
      using W' [OF that] by (simp add: q_deq_def)
    then show ?thesis using W' [OF that] by simp
  qed
  then have e: "inq ?W1 (dequeue_rt_entity env (Task_se p) (update_curr_rt env c a))"
    by (rule inq_dequeue_task_entity [OF b])
  show ?thesis unfolding dequeue_task_rt_def Let_def dec_nr_running_def
    by (rule inq_set_nr [where f = "\<lambda>n. n - 1" and W = ?W1]) (rule inqs e | assumption)+
qed

section \<open>Moves\<close>

lemma inq_set_task_rq:
  assumes a: "inq W a" and W': "\<And>v. W v \<Longrightarrow> \<not> v_rt v p \<and> W' (v\<lparr>v_rtcpu := (v_rtcpu v)(p := d)\<rparr>)"
  shows "inq W' (set_task_rq p d a)"
proof -
  let ?tg = "sched_task_group (tasks a p)"
  let ?b = "upd_task p (\<lambda>t. t\<lparr>se := (se t)\<lparr>se_group := Some (?tg, d)\<rparr>\<rparr>) a"
  let ?d = "upd_rt_se (Task_se p) (\<lambda>e. e\<lparr>rt_rq_of := (?tg, d), rt_parent := tg_rt_se ?tg d\<rparr>) ?b"
  have b: "inq W ?b" by (rule inqs a)+
  have "qview ?d = (qview ?b)\<lparr>v_rtcpu := (v_rtcpu (qview ?b))(p := d)\<rparr>"
    by (rule qview_eqI) (simp_all add: on_rt_rq_def)
  then have "W' (qview ?d)" using W' [OF inqD(2) [OF b]] by (simp only:)
  moreover have "home (rt_q ?b) (Task_se p) = None"
    using W' [OF inqD(2) [OF b]] by (simp add: on_rt_rq_def node_empty_def del: split_paired_All not_None_eq)
  then have "task_home_ok ?d" using inqD(1) [OF b] by (auto simp: queues_wf_def task_home_ok_def)
  moreover have "entities_ok ?d" using inqD(1) [OF b]
    by (auto simp: queues_wf_def entities_ok_def tg_rt_se_def)
  ultimately show ?thesis using inqD(1) [OF b]
    by (simp add: set_task_rq_def Let_def inq_def queues_wf_def leaves_ok_def)
qed

lemma inq_set_task_cpu:
  assumes a: "inq W a" and W': "\<And>v. W v \<Longrightarrow> \<not> v_rt v p \<and> W' (q_move (config_smp env) p d v)"
  shows "inq W' (set_task_cpu env p d a)"
proof (cases "config_smp env")
  case False
  then show ?thesis using W' inq_mono [OF a] by (simp add: set_task_cpu_def q_move_def)
next
  case True
  let ?W1 = "\<lambda>v. W' (v\<lparr>v_cpu := (v_cpu v)(p := d)\<rparr>)"
  let ?b = "if task_cpu (tasks a p) \<noteq> d
     then upd_task p (\<lambda>t. t\<lparr>se := (se t)\<lparr>nr_migrations := nr_migrations (se t) + 1\<rparr>\<rparr>) a else a"
  have b: "inq W ?b" by (rule inqs a)+
  have "inq ?W1 (set_task_rq p d ?b)"
  proof (rule inq_set_task_rq [OF b])
    fix v assume "W v"
    moreover have "v\<lparr>v_rtcpu := (v_rtcpu v)(p := d), v_cpu := (v_cpu v)(p := d)\<rparr> = q_move True p d v"
      by (simp add: q_move_def)
    ultimately show "\<not> v_rt v p \<and> ?W1 (v\<lparr>v_rtcpu := (v_rtcpu v)(p := d)\<rparr>)" using W' [of v] True by simp
  qed
  then have "inq W' (upd_task p (\<lambda>t. t\<lparr>task_cpu := d\<rparr>) (set_task_rq p d ?b))" (is "inq W' ?e")
  proof -
    assume c: "inq ?W1 (set_task_rq p d ?b)"
    have "qview ?e = (qview (set_task_rq p d ?b))\<lparr>v_cpu := (v_cpu (qview (set_task_rq p d ?b)))(p := d)\<rparr>"
      by (rule qview_eqI) (simp_all add: on_rt_rq_def)
    then have "W' (qview ?e)" using inqD(2) [OF c] by (simp only:)
    then show ?thesis using inqD(1) [OF c] by (simp add: inq_def queue_wf_defs del: split_paired_All)
  qed
  then show ?thesis using True by (simp add: set_task_cpu_def set_task_cpu_raw_def Let_def)
qed

end
