(* ===== verification/Rq_Count.thy ===== *)
theory Rq_Count
  imports Rq_View
begin

text \<open>
  The counters of the runqueues are exact: in every run of the core scheduler \<open>nr_running\<close> of a
  cpu is the number of tasks that are on its runqueue, and the queues of the WRR and the RT class
  hold exactly the queued tasks of the class, each on the cpu its \<open>task_cpu\<close> names. The theory
  states this of the abstract record of \<open>Rq_View\<close>, shows it of enqueueing, dequeueing and moving
  there, and carries it to the operations of the core.
\<close>

section \<open>What the invariant says\<close>

abbreviation on_cpu_rq :: "qview \<Rightarrow> cpu \<Rightarrow> tid set" where
  "on_cpu_rq v c \<equiv> {p. v_on v p \<and> v_cpu v p = c}"

text \<open>
  \<open>w c\<close> are the tasks that \<open>sched_ttwu_pending\<close> has taken off the wake list of \<open>c\<close> and not yet
  activated; between operations there are none. The idle tasks are never queued and never sleep.
\<close>

definition q_ok :: "(cpu \<Rightarrow> tid list) \<Rightarrow> qview \<Rightarrow> bool" where
  "q_ok w v \<longleftrightarrow>
     (\<forall>c. finite (on_cpu_rq v c) \<and> v_nr v c = of_nat (card (on_cpu_rq v c)))
     \<and> (\<forall>p. v_wrr v p = (if v_on v p \<and> v_class v p = wrr_sched_class then Some (v_cpu v p) else None))
     \<and> (\<forall>p. v_rt v p \<longleftrightarrow> v_on v p \<and> v_class v p = rt_sched_class)
     \<and> (\<forall>p. v_rtcpu v p = v_cpu v p)
     \<and> (\<forall>p. v_class v p = idle_sched_class \<longrightarrow> \<not> v_on v p \<and> v_state v p = 0)
     \<and> (\<forall>c. distinct (w c @ v_wake v c))
     \<and> (\<forall>c. \<forall>p \<in> set (w c @ v_wake v c). v_state v p = TASK_WAKING \<and> \<not> v_on v p \<and> v_cpu v p = c)"

text \<open>The same with \<open>p\<close> taken out: it is on no queue, not counted and waits on no list.\<close>

definition q_out :: "(cpu \<Rightarrow> tid list) \<Rightarrow> tid \<Rightarrow> qview \<Rightarrow> bool" where
  "q_out w p v \<longleftrightarrow> q_ok w (set_on p False v) \<and> (\<forall>c. p \<notin> set (w c @ v_wake v c))
     \<and> v_class v p \<noteq> idle_sched_class"

lemma q_okD:
  assumes "q_ok w v"
  shows "finite (on_cpu_rq v c)" "v_nr v c = of_nat (card (on_cpu_rq v c))"
    "v_wrr v p = (if v_on v p \<and> v_class v p = wrr_sched_class then Some (v_cpu v p) else None)"
    "v_rt v p \<longleftrightarrow> v_on v p \<and> v_class v p = rt_sched_class" "v_rtcpu v p = v_cpu v p"
    "v_class v p = idle_sched_class \<Longrightarrow> \<not> v_on v p" "v_class v p = idle_sched_class \<Longrightarrow> v_state v p = 0"
    "distinct (w c @ v_wake v c)"
    "p \<in> set (w c @ v_wake v c) \<Longrightarrow> v_state v p = TASK_WAKING"
    "p \<in> set (w c @ v_wake v c) \<Longrightarrow> \<not> v_on v p"
    "p \<in> set (w c @ v_wake v c) \<Longrightarrow> v_cpu v p = c"
  using assms unfolding q_ok_def by (blast | simp)+

lemma q_okI:
  assumes "\<And>c. finite (on_cpu_rq v c)" "\<And>c. v_nr v c = of_nat (card (on_cpu_rq v c))"
    "\<And>p. v_wrr v p = (if v_on v p \<and> v_class v p = wrr_sched_class then Some (v_cpu v p) else None)"
    "\<And>p. v_rt v p \<longleftrightarrow> v_on v p \<and> v_class v p = rt_sched_class" "\<And>p. v_rtcpu v p = v_cpu v p"
    "\<And>p. v_class v p = idle_sched_class \<Longrightarrow> \<not> v_on v p \<and> v_state v p = 0"
    "\<And>c. distinct (w c @ v_wake v c)"
    "\<And>c p. p \<in> set (w c @ v_wake v c) \<Longrightarrow> v_state v p = TASK_WAKING \<and> \<not> v_on v p \<and> v_cpu v p = c"
  shows "q_ok w v"
  using assms unfolding q_ok_def by blast

section \<open>Queueing and moving in the record\<close>

lemma on_cpu_rq_off: "on_cpu_rq (set_on p False v) c = on_cpu_rq v c - {p}"
  by auto

lemma card_out:
  assumes "finite A" "p \<in> A"
  shows "(of_nat (card (A - {p})) :: u32) = of_nat (card A) - 1"
  using assms card_Suc_Diff1 [OF assms] by (metis add_diff_cancel_left' of_nat_Suc)

lemma q_deq_out:
  assumes v: "q_ok w v" and on: "v_on v p" and c: "v_cpu v p = c"
  shows "q_out w p (q_deq c p v)"
proof -
  have cls: "v_class v p \<noteq> idle_sched_class" using q_okD(6) [OF v] on by blast
  have wake: "p \<notin> set (w d @ v_wake v d)" for d using q_okD(10) [OF v, of p d] on by blast
  let ?u = "set_on p False (q_deq c p v)"
  have "q_ok w ?u"
  proof (rule q_okI)
    fix d
    have s: "on_cpu_rq ?u d = on_cpu_rq v d - {p}" by (auto simp: q_deq_def)
    show "finite (on_cpu_rq ?u d)" unfolding s using q_okD(1) [OF v, of d] by (rule finite_Diff)
    show "v_nr ?u d = of_nat (card (on_cpu_rq ?u d))"
    proof (cases "d = c")
      case True
      then show ?thesis unfolding s
        using card_out [OF q_okD(1) [OF v, of d], of p] on c q_okD(2) [OF v, of d] by (simp add: q_deq_def)
    next
      case False
      then have "on_cpu_rq v d - {p} = on_cpu_rq v d" using c by auto
      then show ?thesis unfolding s using False q_okD(2) [OF v, of d] by (simp add: q_deq_def)
    qed
  next
    fix q d assume "q \<in> set (w d @ v_wake ?u d)"
    then show "v_state ?u q = TASK_WAKING \<and> \<not> v_on ?u q \<and> v_cpu ?u q = d"
      using q_okD(9-11) [OF v, of q d] by (simp add: q_deq_def)
  qed (use q_okD [OF v] on cls in \<open>auto simp: q_deq_def\<close>)
  then show ?thesis using wake cls by (simp add: q_out_def q_deq_def)
qed

lemma q_enq_back:
  assumes v: "q_out w p v" and c: "v_cpu v p = c"
  shows "q_ok w (set_on p True (q_enq c p v))"
proof -
  have o: "q_ok w (set_on p False v)" and wake: "\<And>d. p \<notin> set (w d @ v_wake v d)"
    and cls: "v_class v p \<noteq> idle_sched_class" using v by (simp_all add: q_out_def)
  let ?u = "set_on p True (q_enq c p v)"
  show ?thesis
  proof (rule q_okI)
    fix d
    have s: "on_cpu_rq ?u d = (if d = c then insert p (on_cpu_rq v d - {p}) else on_cpu_rq v d - {p})"
      using c by (auto simp: q_enq_def)
    note f = q_okD(1) [OF o, of d, unfolded on_cpu_rq_off]
      and n = q_okD(2) [OF o, of d, unfolded on_cpu_rq_off]
    show "finite (on_cpu_rq ?u d)" unfolding s using f by (simp only: finite_insert split: if_split) simp
    show "v_nr ?u d = of_nat (card (on_cpu_rq ?u d))"
    proof (cases "d = c")
      case True
      have "p \<notin> on_cpu_rq v d - {p}" by simp
      then have "card (on_cpu_rq ?u d) = Suc (card (on_cpu_rq v d - {p}))"
        unfolding s if_P [OF True] by (rule card_insert_disjoint [OF f])
      then show ?thesis using n True by (simp add: q_enq_def)
    next
      case False
      then show ?thesis unfolding s using n by (simp add: q_enq_def)
    qed
  next
    fix q d assume q: "q \<in> set (w d @ v_wake ?u d)"
    then have "q \<noteq> p" using wake [of d] by (auto simp: q_enq_def)
    then show "v_state ?u q = TASK_WAKING \<and> \<not> v_on ?u q \<and> v_cpu ?u q = d"
      using q q_okD(9-11) [OF o, of q d] by (simp add: q_enq_def)
  next
    fix q
    show "v_wrr ?u q = (if v_on ?u q \<and> v_class ?u q = wrr_sched_class then Some (v_cpu ?u q) else None)"
      using q_okD(3) [OF o, of q] c by (auto simp: q_enq_def)
    show "v_rt ?u q \<longleftrightarrow> v_on ?u q \<and> v_class ?u q = rt_sched_class"
      using q_okD(4) [OF o, of q] by (auto simp: q_enq_def)
    show "v_class ?u q = idle_sched_class \<Longrightarrow> \<not> v_on ?u q \<and> v_state ?u q = 0"
      using q_okD(6,7) [OF o, of q] cls by (auto simp: q_enq_def split: if_splits)
    show "v_rtcpu ?u q = v_cpu ?u q" using q_okD(5) [OF o, of q] by (simp add: q_enq_def)
    show "distinct (w d @ v_wake ?u d)" for d using q_okD(8) [OF o, of d] by (simp add: q_enq_def)
  qed
qed

lemma q_enq_again: "\<lbrakk>q_out w p v; v_cpu v p = c; v_on v p\<rbrakk> \<Longrightarrow> q_ok w (q_enq c p v)"
proof -
  assume a: "q_out w p v" "v_cpu v p = c" "v_on v p"
  then have "set_on p True (q_enq c p v) = q_enq c p v" by (intro qview_eqI) (auto simp: q_enq_def)
  then show ?thesis using q_enq_back [OF a(1,2)] by simp
qed

lemma q_out_queues: "q_out w p v \<Longrightarrow> \<not> v_rt v p \<and> v_wrr v p = None"
  using q_okD(3,4) [of w "set_on p False v" p] by (simp add: q_out_def)

lemma q_out_move:
  assumes "q_out w p v"
  shows "q_out w p (q_move smp p d v)"
proof -
  have o: "q_ok w (set_on p False v)" using assms by (simp add: q_out_def)
  have wake: "p \<notin> set (w e @ v_wake v e)" for e using assms by (simp add: q_out_def)
  have "q_ok w (set_on p False (q_move smp p d v))" (is "q_ok w ?u")
  proof (rule q_okI)
    fix e
    have s: "on_cpu_rq ?u e = on_cpu_rq (set_on p False v) e" by (auto simp: q_move_def)
    show "finite (on_cpu_rq ?u e)" unfolding s by (rule q_okD(1) [OF o])
    show "v_nr ?u e = of_nat (card (on_cpu_rq ?u e))"
      unfolding s using q_okD(2) [OF o, of e] by (simp add: q_move_def)
  next
    fix q e assume q: "q \<in> set (w e @ v_wake ?u e)"
    then have "q \<noteq> p" using wake [of e] by (auto simp: q_move_def split: if_splits)
    then show "v_state ?u q = TASK_WAKING \<and> \<not> v_on ?u q \<and> v_cpu ?u q = e"
      using q q_okD(9-11) [OF o, of q e] by (auto simp: q_move_def split: if_splits)
  next
    fix q show "v_class ?u q = idle_sched_class \<Longrightarrow> \<not> v_on ?u q \<and> v_state ?u q = 0"
      using q_okD(6,7) [OF o, of q] by (auto simp: q_move_def split: if_splits)
  qed (use q_okD(3-5,8) [OF o] in \<open>auto simp: q_move_def split: if_splits\<close>)
  then show ?thesis using assms by (simp add: q_out_def q_move_def)
qed

lemma q_out_class:
  assumes "q_out w p v" "cl \<noteq> idle_sched_class"
  shows "q_out w p (set_class p cl v)"
proof -
  have o: "q_ok w (set_on p False v)" using assms by (simp add: q_out_def)
  have "q_ok w (set_on p False (set_class p cl v))"
  proof (rule q_okI)
    fix q e assume q: "q \<in> set (w e @ v_wake (set_on p False (set_class p cl v)) e)"
    then show "v_state (set_on p False (set_class p cl v)) q = TASK_WAKING
        \<and> \<not> v_on (set_on p False (set_class p cl v)) q \<and> v_cpu (set_on p False (set_class p cl v)) q = e"
      using q_okD(9-11) [OF o, of q e] by simp
  next
    fix q show "v_class (set_on p False (set_class p cl v)) q = idle_sched_class \<Longrightarrow>
        \<not> v_on (set_on p False (set_class p cl v)) q \<and> v_state (set_on p False (set_class p cl v)) q = 0"
      using q_okD(6,7) [OF o, of q] assms(2) by (auto split: if_splits)
  next
    fix e show "finite (on_cpu_rq (set_on p False (set_class p cl v)) e)" using q_okD(1) [OF o, of e] by simp
    show "v_nr (set_on p False (set_class p cl v)) e = of_nat (card (on_cpu_rq (set_on p False (set_class p cl v)) e))"
      using q_okD(2) [OF o, of e] by simp
  qed (use q_okD(3-5,8) [OF o] assms(2) in \<open>auto split: if_splits\<close>)
  then show ?thesis using assms by (simp add: q_out_def)
qed

lemma q_out_off: "\<not> v_on v p \<Longrightarrow> set_on p False v = v"
  by (rule qview_eqI) auto

section \<open>The classes and the code outside the repository\<close>

text \<open>
  What is assumed of them. The fair and the stop class count the tasks they enqueue and dequeue;
  apart from that no operation of a class touches the flags, counters and queues that the
  record shows. \<open>idle_balance\<close> of the fair class may move queued fair tasks between cpus. The
  cpuset fallback and the softirq trigger touch nothing of it. The kernel is configured for SMP.
\<close>

definition unseen :: "('x kernel \<Rightarrow> 'x kernel) \<Rightarrow> bool" where
  "unseen f \<longleftrightarrow> (\<forall>k. queues_wf k \<longrightarrow> queues_wf (f k) \<and> qview (f k) = qview k)"

definition ops_unseen :: "'x class_ops \<Rightarrow> bool" where
  "ops_unseen f \<longleftrightarrow>
     (\<forall>c. unseen (op_yield_task f c)) \<and> (\<forall>c p fl. unseen (op_check_preempt_curr f c p fl))
     \<and> (\<forall>c. unseen (\<lambda>k. snd (op_pick_next_task f c k))) \<and> (\<forall>c p. unseen (op_put_prev_task f c p))
     \<and> (\<forall>c. unseen (op_set_curr_task f c)) \<and> (\<forall>c p q. unseen (op_task_tick f c p q))
     \<and> (\<forall>p. unseen (op_task_fork f p)) \<and> (\<forall>p. unseen (op_task_waking f p))
     \<and> (\<forall>c p. unseen (op_switched_from f c p)) \<and> (\<forall>c p. unseen (op_switched_to f c p))
     \<and> (\<forall>c p pr. unseen (op_prio_changed f c p pr)) \<and> (\<forall>c p. unseen (op_task_woken f c p))
     \<and> (\<forall>c p. unseen (op_pre_schedule f c p)) \<and> (\<forall>c. unseen (op_post_schedule f c))
     \<and> (\<forall>p m. unseen (op_set_cpus_allowed f p m)) \<and> (\<forall>c. unseen (op_rq_online f c))
     \<and> (\<forall>c. unseen (op_rq_offline f c)) \<and> (\<forall>p b. unseen (op_task_move_group f p b))"

definition ops_count :: "sched_class \<Rightarrow> 'x class_ops \<Rightarrow> bool" where
  "ops_count cls f \<longleftrightarrow>
     (\<forall>c p fl k. queues_wf k \<and> class_of (tasks k p) = cls
        \<longrightarrow> queues_wf (op_enqueue_task f c p fl k) \<and> qview (op_enqueue_task f c p fl k) = q_enq c p (qview k)
          \<and> queues_wf (op_dequeue_task f c p fl k) \<and> qview (op_dequeue_task f c p fl k) = q_deq c p (qview k))"

inductive fair_moves :: "qview \<Rightarrow> qview \<Rightarrow> bool" for v where
  stay: "fair_moves v v"
| move: "\<lbrakk>fair_moves v u; v_on u p; v_class u p = fair_sched_class\<rbrakk>
         \<Longrightarrow> fair_moves v (q_enq d p (q_move True p d (q_deq (v_cpu u p) p u)))"

definition env_counts :: "'x env \<Rightarrow> bool" where
  "env_counts env \<longleftrightarrow>
     config_smp env \<and> (\<forall>cls. ops_unseen (class_ext env cls))
     \<and> ops_count fair_sched_class (class_ext env fair_sched_class)
     \<and> ops_count stop_sched_class (class_ext env stop_sched_class)
     \<and> (\<forall>c k. queues_wf k \<longrightarrow> queues_wf (newidle_balance env c k)
               \<and> fair_moves (qview k) (qview (newidle_balance env c k)))
     \<and> (\<forall>c. unseen (trigger_load_balance env c)) \<and> (\<forall>p. unseen (cpuset_cpus_allowed_fallback env p))"

lemma unseenD: "\<lbrakk>unseen f; inq W a\<rbrakk> \<Longrightarrow> inq W (f a)"
  unfolding unseen_def inq_def by metis

lemma inq_class_ext [inqs]:
  assumes "env_counts env"
  shows
    "inq W a \<Longrightarrow> inq W (op_yield_task (class_ext env cls) c a)"
    "inq W a \<Longrightarrow> inq W (op_check_preempt_curr (class_ext env cls) c p fl a)"
    "inq W a \<Longrightarrow> inq W (snd (op_pick_next_task (class_ext env cls) c a))"
    "inq W a \<Longrightarrow> inq W (op_put_prev_task (class_ext env cls) c p a)"
    "inq W a \<Longrightarrow> inq W (op_set_curr_task (class_ext env cls) c a)"
    "inq W a \<Longrightarrow> inq W (op_task_tick (class_ext env cls) c p q a)"
    "inq W a \<Longrightarrow> inq W (op_task_fork (class_ext env cls) p a)"
    "inq W a \<Longrightarrow> inq W (op_task_waking (class_ext env cls) p a)"
    "inq W a \<Longrightarrow> inq W (op_switched_from (class_ext env cls) c p a)"
    "inq W a \<Longrightarrow> inq W (op_switched_to (class_ext env cls) c p a)"
    "inq W a \<Longrightarrow> inq W (op_prio_changed (class_ext env cls) c p pr a)"
    "inq W a \<Longrightarrow> inq W (op_task_woken (class_ext env cls) c p a)"
    "inq W a \<Longrightarrow> inq W (op_pre_schedule (class_ext env cls) c p a)"
    "inq W a \<Longrightarrow> inq W (op_post_schedule (class_ext env cls) c a)"
    "inq W a \<Longrightarrow> inq W (op_set_cpus_allowed (class_ext env cls) p m a)"
    "inq W a \<Longrightarrow> inq W (op_rq_online (class_ext env cls) c a)"
    "inq W a \<Longrightarrow> inq W (op_rq_offline (class_ext env cls) c a)"
    "inq W a \<Longrightarrow> inq W (op_task_move_group (class_ext env cls) p b a)"
    "inq W a \<Longrightarrow> inq W (trigger_load_balance env c a)"
    "inq W a \<Longrightarrow> inq W (cpuset_cpus_allowed_fallback env p a)"
  using assms
  by (auto simp: env_counts_def ops_unseen_def intro: unseenD
      unseenD [where f = "\<lambda>k. snd (op_pick_next_task (class_ext env cls) c k)"])

section \<open>Dispatch\<close>

lemma inq_class_check_preempt [inqs]: "\<lbrakk>env_counts env; inq W a\<rbrakk> \<Longrightarrow> inq W (class_check_preempt env cls c p fl a)"
  unfolding class_check_preempt_def by (assumption | rule inqs | rule inq_lets)+

lemma inq_class_pick_next_task [inqs]: "\<lbrakk>env_counts env; inq W a\<rbrakk> \<Longrightarrow> inq W (snd (class_pick_next_task env cls c a))"
  unfolding class_pick_next_task_def by (assumption | rule inqs | rule inq_lets)+

lemma inq_class_put_prev_task [inqs]: "\<lbrakk>env_counts env; inq W a\<rbrakk> \<Longrightarrow> inq W (class_put_prev_task env c p a)"
  unfolding class_put_prev_task_def by (assumption | rule inqs | rule inq_lets)+

lemma inq_class_set_curr_task [inqs]: "\<lbrakk>env_counts env; inq W a\<rbrakk> \<Longrightarrow> inq W (class_set_curr_task env cls c a)"
  unfolding class_set_curr_task_def by (assumption | rule inqs | rule inq_lets)+

lemma inq_class_set_cpus_allowed [inqs]: "\<lbrakk>env_counts env; inq W a\<rbrakk> \<Longrightarrow> inq W (class_set_cpus_allowed env cls p m a)"
  unfolding class_set_cpus_allowed_def by (assumption | rule inqs | rule inq_lets)+

lemma inq_class_rq_online [inqs]: "\<lbrakk>env_counts env; inq W a\<rbrakk> \<Longrightarrow> inq W (class_rq_online env cls c a)"
  unfolding class_rq_online_def by (assumption | rule inqs | rule inq_lets)+

lemma inq_class_rq_offline [inqs]: "\<lbrakk>env_counts env; inq W a\<rbrakk> \<Longrightarrow> inq W (class_rq_offline env cls c a)"
  unfolding class_rq_offline_def by (assumption | rule inqs | rule inq_lets)+

lemma inq_class_task_waking [inqs]: "\<lbrakk>env_counts env; inq W a\<rbrakk> \<Longrightarrow> inq W (class_task_waking env p a)"
  unfolding class_task_waking_def by (assumption | rule inqs | rule inq_lets)+

lemma inq_class_task_fork [inqs]: "\<lbrakk>env_counts env; inq W a\<rbrakk> \<Longrightarrow> inq W (class_task_fork env p a)"
  unfolding class_task_fork_def by (assumption | rule inqs | rule inq_lets)+

lemma inq_check_preempt_curr [inqs]: "\<lbrakk>env_counts env; inq W a\<rbrakk> \<Longrightarrow> inq W (check_preempt_curr env c p fl a)"
  unfolding check_preempt_curr_def by (assumption | rule inqs | rule inq_lets)+

lemma inq_put_prev_task [inqs]: "\<lbrakk>env_counts env; inq W a\<rbrakk> \<Longrightarrow> inq W (put_prev_task env c p a)"
  unfolding put_prev_task_def by (assumption | rule inqs | rule inq_lets)+

lemma inq_pick_classes [inqs]: "\<lbrakk>env_counts env; inq W a\<rbrakk> \<Longrightarrow> inq W (snd (pick_classes env cs c a))"
proof (induction cs arbitrary: a)
  case Nil
  then show ?case by (simp add: inqs)
next
  case (Cons cls cs)
  note p = inq_class_pick_next_task [OF Cons.prems, of cls c]
  show ?case
    using p Cons.IH [OF Cons.prems(1), of "snd (class_pick_next_task env cls c a)"]
    by (auto split: prod.splits option.splits)
qed

lemma inq_pick_next_task [inqs]: "\<lbrakk>env_counts env; inq W a\<rbrakk> \<Longrightarrow> inq W (snd (pick_next_task env c a))"
proof -
  assume a: "env_counts env" "inq W a"
  note p = inq_class_pick_next_task [OF a, of fair_sched_class c]
  show ?thesis unfolding pick_next_task_def
    using p inq_pick_classes [OF a] inq_pick_classes [OF a(1) p]
    by (auto split: prod.splits option.splits)
qed

lemma inq_do_set_cpus_allowed [inqs]: "\<lbrakk>env_counts env; inq W a\<rbrakk> \<Longrightarrow> inq W (do_set_cpus_allowed env p m a)"
  unfolding do_set_cpus_allowed_def by (assumption | rule inqs | rule inq_lets)+

lemma inq_fallback_loop [inqs]:
  "\<lbrakk>env_counts env; inq W a\<rbrakk> \<Longrightarrow> inq W (snd (fallback_loop n env p st a))"
proof (induction n arbitrary: st a)
  case 0
  then show ?case by simp
next
  case (Suc n)
  then show ?case
    by (auto split: option.splits fallback_state.splits intro!: Suc.IH inqs)
qed

lemma inq_select_fallback_rq [inqs]: "\<lbrakk>env_counts env; inq W a\<rbrakk> \<Longrightarrow> inq W (snd (select_fallback_rq env c p a))"
  unfolding select_fallback_rq_def by (assumption | rule inqs | rule inq_lets)+

lemma inq_select_task_rq [inqs]:
  "\<lbrakk>env_counts env; inq W a\<rbrakk> \<Longrightarrow> inq W (snd (select_task_rq env p sd fl a))"
  using inq_select_fallback_rq [of env W a "task_cpu (tasks a p)" p]
  unfolding select_task_rq_def Let_def by (auto split: prod.splits option.splits)

section \<open>Queueing through the classes\<close>

lemma inq_class_enqueue_task:
  assumes env: "env_counts env" and a: "inq W a"
    and W': "\<And>v. W v \<Longrightarrow> v_class v p \<noteq> idle_sched_class
               \<and> (v_class v p = wrr_sched_class \<longrightarrow> v_wrr v p = None) \<and> W' (q_enq c p v)"
  shows "inq W' (class_enqueue_task env c p fl a)"
proof -
  let ?W1 = "\<lambda>v. W v \<and> v_class v p = class_of (tasks a p)"
  have a1: "inq ?W1 a" by (rule inq_mono [OF a]) simp
  note w = W' [OF inqD(2) [OF a]]
  have cnt: "ops_count fair_sched_class (class_ext env fair_sched_class)"
    "ops_count stop_sched_class (class_ext env stop_sched_class)" using env by (simp_all add: env_counts_def)
  show ?thesis
  proof (cases "class_of (tasks a p)")
    case rt_sched_class
    then have "inq W' (enqueue_task_rt env c p fl a)" using W' by (intro inq_enqueue_task_rt [OF a1]) simp
    then show ?thesis using rt_sched_class by (simp add: class_enqueue_task_def)
  next
    case wrr_sched_class
    then have "inq W' (enqueue_task_wrr env c p fl a)" using W' by (intro inq_enqueue_task_wrr [OF a1]) simp
    then show ?thesis using wrr_sched_class by (simp add: class_enqueue_task_def)
  qed (use w cnt inqD(1) [OF a] in \<open>simp_all add: class_enqueue_task_def ops_count_def inq_def\<close>)
qed

lemma inq_class_dequeue_task:
  assumes env: "env_counts env" and a: "inq W a"
    and W': "\<And>v. W v \<Longrightarrow> v_class v p \<noteq> idle_sched_class \<and> W' (q_deq c p v)"
  shows "inq W' (class_dequeue_task env c p fl a)"
proof -
  let ?W1 = "\<lambda>v. W v \<and> v_class v p = class_of (tasks a p)"
  have a1: "inq ?W1 a" by (rule inq_mono [OF a]) simp
  note w = W' [OF inqD(2) [OF a]]
  have cnt: "ops_count fair_sched_class (class_ext env fair_sched_class)"
    "ops_count stop_sched_class (class_ext env stop_sched_class)" using env by (simp_all add: env_counts_def)
  show ?thesis
  proof (cases "class_of (tasks a p)")
    case rt_sched_class
    then have "inq W' (dequeue_task_rt env c p fl a)" using W' by (intro inq_dequeue_task_rt [OF a1]) simp
    then show ?thesis using rt_sched_class by (simp add: class_dequeue_task_def)
  next
    case wrr_sched_class
    then have "inq W' (dequeue_task_wrr env c p fl a)" using W' by (intro inq_dequeue_task_wrr [OF a1]) simp
    then show ?thesis using wrr_sched_class by (simp add: class_dequeue_task_def)
  qed (use w cnt inqD(1) [OF a] in \<open>simp_all add: class_dequeue_task_def ops_count_def inq_def\<close>)
qed

text \<open>A task taken out while its flag stays set, and one that sleeps; \<open>c\<close> is the cpu it names.\<close>

abbreviation held :: "(cpu \<Rightarrow> tid list) \<Rightarrow> tid \<Rightarrow> cpu \<Rightarrow> qview \<Rightarrow> bool" where
  "held w p c v \<equiv> q_out w p v \<and> v_on v p \<and> v_cpu v p = c"

abbreviation asleep :: "(cpu \<Rightarrow> tid list) \<Rightarrow> tid \<Rightarrow> cpu \<Rightarrow> qview \<Rightarrow> bool" where
  "asleep w p c v \<equiv> q_out w p v \<and> \<not> v_on v p \<and> v_cpu v p = c"

lemma q_deq_held: "\<lbrakk>q_ok w v; v_on v p; v_cpu v p = c\<rbrakk> \<Longrightarrow> held w p c (q_deq c p v)"
  using q_deq_out by (simp add: q_deq_def)

lemma q_out_enq: "q_out w p v \<Longrightarrow> v_class v p \<noteq> idle_sched_class
    \<and> (v_class v p = wrr_sched_class \<longrightarrow> v_wrr v p = None)"
  using q_out_queues [of w p v] by (auto simp: q_out_def)

lemma inq_dequeue_task:
  assumes env: "env_counts env" and a: "inq (q_ok w) a" and p: "on_rq (tasks a p)" "task_cpu (tasks a p) = c"
  shows "inq (held w p c) (dequeue_task env c p fl a)"
  unfolding dequeue_task_def
proof (rule inq_class_dequeue_task [OF env, where W = "\<lambda>v. q_ok w v \<and> v_on v p \<and> v_cpu v p = c"])
  show "inq (\<lambda>v. q_ok w v \<and> v_on v p \<and> v_cpu v p = c) (update_rq_clock c a)"
    by (rule inqs, rule inq_mono [OF a]) (simp add: p)
  show "v_class v p \<noteq> idle_sched_class \<and> held w p c (q_deq c p v)"
    if "q_ok w v \<and> v_on v p \<and> v_cpu v p = c" for v
    using that q_deq_held [of w v p c] q_okD(6) [of w v p] by blast
qed

lemma inq_deactivate_task:
  assumes env: "env_counts env" and a: "inq (q_ok w) a" and p: "on_rq (tasks a p)" "task_cpu (tasks a p) = c"
  shows "inq (held w p c) (deactivate_task env c p fl a)"
  unfolding deactivate_task_def Let_def
proof (rule inq_dequeue_task [OF env])
  let ?b = "if task_contributes_to_load a p
               then upd_rq c (\<lambda>r. r\<lparr>nr_uninterruptible := nr_uninterruptible r + 1\<rparr>) a else a"
  show "inq (q_ok w) ?b" by (rule inqs a)+
qed (use p in auto)

lemma inq_enqueue_held:
  assumes env: "env_counts env" and a: "inq (held w p c) a"
  shows "inq (q_ok w) (enqueue_task env c p fl a)"
  unfolding enqueue_task_def
proof (rule inq_class_enqueue_task [OF env, where W = "held w p c"])
  show "inq (held w p c) (update_rq_clock c a)" by (rule inqs a)+
qed (use q_out_enq q_enq_again in blast)

lemma inq_activate_held:
  assumes env: "env_counts env" and a: "inq (held w p c) a"
  shows "inq (q_ok w) (activate_task env c p fl a)"
  unfolding activate_task_def Let_def by (rule inq_enqueue_held [OF env]) (rule inqs a)+

lemma inq_activate_asleep:
  assumes env: "env_counts env" and a: "inq (asleep w p c) a"
  shows "inq (q_ok w) (upd_task p (\<lambda>t. t\<lparr>on_rq := True\<rparr>) (activate_task env c p fl a))"
proof (rule inq_set_on [where W = "\<lambda>v. q_ok w (set_on p True v)"])
  let ?b = "if task_contributes_to_load a p
               then upd_rq c (\<lambda>r. r\<lparr>nr_uninterruptible := nr_uninterruptible r - 1\<rparr>) a else a"
  have b: "inq (asleep w p c) (update_rq_clock c ?b)" by (rule inqs a)+
  show "inq (\<lambda>v. q_ok w (set_on p True v)) (activate_task env c p fl a)"
    unfolding activate_task_def enqueue_task_def Let_def
    by (rule inq_class_enqueue_task [OF env b]) (use q_out_enq q_enq_back in blast)
qed

lemma inq_move_held:
  assumes "inq (held w p c) a"
  shows "inq (\<lambda>v. if config_smp env then held w p d v else held w p c v) (set_task_cpu env p d a)"
  by (rule inq_set_task_cpu [OF assms])
    (use q_out_queues q_out_move [of w p _ "config_smp env" d] in \<open>auto simp: q_move_def\<close>)

lemma inq_move_task_to:
  assumes env: "env_counts env" and a: "inq (q_ok w) a" and p: "on_rq (tasks a p)" "task_cpu (tasks a p) = c"
  shows "inq (q_ok w) (activate_task env d p fl' (set_task_cpu env p d (deactivate_task env c p fl a)))"
    "inq (q_ok w) (enqueue_task env d p fl' (set_task_cpu env p d (dequeue_task env c p fl a)))"
proof -
  have smp: "config_smp env" using env by (simp add: env_counts_def)
  have "inq (held w p d) (set_task_cpu env p d (deactivate_task env c p fl a))"
    using inq_move_held [OF inq_deactivate_task [OF env a p], of env d] smp by simp
  then show "inq (q_ok w) (activate_task env d p fl' (set_task_cpu env p d (deactivate_task env c p fl a)))"
    by (rule inq_activate_held [OF env])
  have "inq (held w p d) (set_task_cpu env p d (dequeue_task env c p fl a))"
    using inq_move_held [OF inq_dequeue_task [OF env a p], of env d] smp by simp
  then show "inq (q_ok w) (enqueue_task env d p fl' (set_task_cpu env p d (dequeue_task env c p fl a)))"
    by (rule inq_enqueue_held [OF env])
qed

section \<open>Balancing\<close>

lemma lowest_rq_tries_here:
  "lowest_rq_tries n env p c k = Some l \<Longrightarrow> task_cpu (tasks k p) = c \<and> on_rq (tasks k p)"
  by (induction n) (auto split: option.splits if_splits)

lemma inq_push_rt_retry [inqs]:
  "\<lbrakk>env_counts env; inq (q_ok w) a\<rbrakk> \<Longrightarrow> inq (q_ok w) (snd (push_rt_retry n env c p a))"
proof (induction n arbitrary: p a)
  case 0
  then show ?case by simp
next
  case (Suc n)
  note a = Suc.prems
  note pick = inq_pick_next_pushable_task [OF a(2), of c]
  have move: "inq (q_ok w) (resched_task q (activate_task env l p 0 (set_task_cpu env p l (deactivate_task env c p 0 a))))"
    if "find_lock_lowest_rq env p c a = Some l" for l q
    using that lowest_rq_tries_here [of _ env p c a l]
    by (intro inq_resched_task inq_move_task_to [OF a]) (auto simp: find_lock_lowest_rq_def)
  show ?case
    using move pick Suc.IH [OF a(1) pick] inq_resched_task [OF a(2)] a(2)
    by (auto simp: Let_def split: option.splits prod.splits)
qed

lemma inq_push_rt_task [inqs]: "\<lbrakk>env_counts env; inq (q_ok w) a\<rbrakk> \<Longrightarrow> inq (q_ok w) (snd (push_rt_task env c a))"
  unfolding push_rt_task_def by (assumption | rule inqs | rule inq_lets)+

lemma inq_push_rt_loop [inqs]:
  "\<lbrakk>env_counts env; inq (q_ok w) a\<rbrakk> \<Longrightarrow> inq (q_ok w) (push_rt_loop n env c a)"
proof (induction n arbitrary: a)
  case (Suc n)
  show ?case using Suc.IH [OF Suc.prems(1) inq_push_rt_task [OF Suc.prems, of c]] inq_push_rt_task [OF Suc.prems, of c]
    by (auto split: prod.splits)
qed simp

lemma inq_push_rt_tasks [inqs]: "\<lbrakk>env_counts env; inq (q_ok w) a\<rbrakk> \<Longrightarrow> inq (q_ok w) (push_rt_tasks env c a)"
  unfolding push_rt_tasks_def by (assumption | rule inqs | rule inq_lets)+

text \<open>What \<open>pick_next_highest_task_rt\<close> finds on a cpu is queued there.\<close>

lemma scan_rt_rq_found:
  "scan_rt_rq env c target r k next i = Some p \<Longrightarrow>
     next = Some p \<or> (\<exists>s j. s \<in> set (elems (rt_q k) (r, j)) \<and> rt_entity_is_task k s \<and> p = rt_task_of s)"
proof (induction env c target r k "next" i rule: scan_rt_rq.induct)
  case (1 env c target r k nx idx)
  let ?f = "find (\<lambda>s. rt_entity_is_task k s \<and> pick_rt_task env c (rt_task_of s) target k) (elems (rt_q k) (r, idx))"
  show ?case
  proof (cases "100 \<le> idx \<or> (case nx of None \<Rightarrow> False | Some n \<Rightarrow> prio (tasks k n) \<le> int idx)")
    case True
    then show ?thesis using "1.prems" by (subst (asm) scan_rt_rq.simps) (auto split: if_splits)
  next
    case False
    show ?thesis
    proof (cases ?f)
      case None
      then have "scan_rt_rq env c target r k nx idx = (if nx = None
          then scan_rt_rq env c target r k nx (find_next_bit (bitmap (rt_rqs k r)) 100 (Suc idx)) else nx)"
        using False by (subst scan_rt_rq.simps) simp
      then show ?thesis using False None 1 by (cases nx) auto
    next
      case (Some s)
      then have "s \<in> set (elems (rt_q k) (r, idx)) \<and> rt_entity_is_task k s"
        by (auto simp: find_Some_iff)
      moreover have "p = rt_task_of s" using "1.prems" False Some
        by (subst (asm) scan_rt_rq.simps) simp
      ultimately show ?thesis by blast
    qed
  qed
qed

lemma queued_task_here:
  assumes a: "inq (q_ok w) a" and s: "s \<in> set (elems (rt_q a) (r, j))" "rt_entity_is_task a s" "snd r = c"
  shows "on_rq (tasks a (rt_task_of s)) \<and> task_cpu (tasks a (rt_task_of s)) = c"
proof -
  obtain p where p: "s = Task_se p"
    using s(2) entities_okD(3) [OF a] by (cases s) (auto simp: rt_entity_is_task_def)
  then have "count_list (elems (rt_q a) (r, j)) (Task_se p) \<noteq> 0" using s(1) by (simp add: count_list_0_iff)
  then have h: "home (rt_q a) (Task_se p) = Some (r, j)"
    using task_home_okD(1) [OF a, of "(r, j)" p] by (auto split: if_splits)
  then have "snd r = snd (rt_rq_of (rt_ses a (Task_se p)))" by (rule task_home_okD(2) [OF a])
  moreover have "on_rt_rq a (Task_se p)" using h by (simp add: on_rt_rq_def node_empty_def)
  ultimately show ?thesis
    using q_okD(4,5) [OF inqD(2) [OF a], of p] s(3) p by simp
qed

lemma pick_highest_here:
  assumes a: "inq (q_ok w) a" and p: "pick_next_highest_task_rt env c target a = Some p"
  shows "on_rq (tasks a p) \<and> task_cpu (tasks a p) = c"
proof -
  have "foldl (\<lambda>next r. scan_rt_rq env c target r a next
                       (nat (sched_find_first_bit (bitmap (rt_rqs a r))))) nx rs = Some p
    \<Longrightarrow> (nx = Some p \<longrightarrow> on_rq (tasks a p) \<and> task_cpu (tasks a p) = c)
    \<Longrightarrow> (\<forall>r \<in> set rs. snd r = c) \<Longrightarrow> on_rq (tasks a p) \<and> task_cpu (tasks a p) = c" for nx rs
  proof (induction rs arbitrary: nx)
    case (Cons r rs)
    let ?n = "scan_rt_rq env c target r a nx (nat (sched_find_first_bit (bitmap (rt_rqs a r))))"
    have "?n = Some p \<longrightarrow> on_rq (tasks a p) \<and> task_cpu (tasks a p) = c"
      using scan_rt_rq_found [of env c target r a nx _ p] Cons.prems(2,3) queued_task_here [OF a, of _ r _ c] by fastforce
    then show ?case using Cons.IH [of ?n] Cons.prems by simp
  qed simp
  moreover have "\<forall>r \<in> set (leaf_rt_rq_list (rqs a c)). snd r = c"
    using inqD(1) [OF a] by (simp add: queues_wf_def leaves_ok_def)
  ultimately show ?thesis using p unfolding pick_next_highest_task_rt_def by blast
qed

lemma inq_pull_rt_from [inqs]:
  assumes "env_counts env" "inq (q_ok w) (snd st)"
  shows "inq (q_ok w) (snd (pull_rt_from env this st src))"
proof -
  obtain ret k where st: "st = (ret, k)" by (cases st)
  have "inq (q_ok w) (activate_task env this p 0 (set_task_cpu env p this (deactivate_task env src p 0 k)))"
    if "pick_next_highest_task_rt env src (int this) k = Some p" for p
    using pick_highest_here [of w k env src "int this" p] that assms st by (intro inq_move_task_to) auto
  then show ?thesis using assms unfolding st
    by (auto simp: pull_rt_from_def Let_def split: option.splits)
qed

lemma inq_pull_rt_task [inqs]: "\<lbrakk>env_counts env; inq (q_ok w) a\<rbrakk> \<Longrightarrow> inq (q_ok w) (snd (pull_rt_task env c a))"
  unfolding pull_rt_task_def by (assumption | rule inqs | rule inq_lets)+

lemma inq_move_wrr_task:
  assumes "env_counts env" "inq (q_ok w) a" "on_rq (tasks a p)" "task_cpu (tasks a p) = src"
  shows "inq (q_ok w) (move_wrr_task env dst src p a)"
  unfolding move_wrr_task_def Let_def by (intro inq_check_preempt_curr inq_move_task_to assms)

lemma inq_pull_wrr_scan [inqs]:
  "\<lbrakk>env_counts env; inq (q_ok w) a\<rbrakk> \<Longrightarrow> inq (q_ok w) (pull_wrr_scan env dst cs a)"
proof (induction cs)
  case (Cons src cs)
  have "inq (q_ok w) (move_wrr_task env dst src p a)" if "pull_wrr_candidate env dst src a = Some p" for p
  proof -
    have "p \<in> set (elems (wrr_q a) src)" "on_rq (tasks a p)"
      using that by (auto simp: pull_wrr_candidate_def find_Some_iff)
    then have "home (wrr_q a) p = Some src" using wf_home [OF inq_lists_wf [OF Cons.prems(2)]] by blast
    then have "task_cpu (tasks a p) = src"
      using q_okD(3) [OF inqD(2) [OF Cons.prems(2)], of p] by (auto split: if_splits)
    then show ?thesis using Cons.prems \<open>on_rq (tasks a p)\<close> by (intro inq_move_wrr_task)
  qed
  then show ?case using Cons by (auto split: option.splits)
qed simp

lemma inq_pull_wrr_task [inqs]: "\<lbrakk>env_counts env; inq (q_ok w) a\<rbrakk> \<Longrightarrow> inq (q_ok w) (pull_wrr_task env c a)"
  unfolding pull_wrr_task_def by (assumption | rule inqs | rule inq_lets)+

lemma inq_pre_schedule_rt [inqs]: "\<lbrakk>env_counts env; inq (q_ok w) a\<rbrakk> \<Longrightarrow> inq (q_ok w) (pre_schedule_rt env c p a)"
  unfolding pre_schedule_rt_def by (assumption | rule inqs | rule inq_lets)+

lemma inq_post_schedule_rt [inqs]: "\<lbrakk>env_counts env; inq (q_ok w) a\<rbrakk> \<Longrightarrow> inq (q_ok w) (post_schedule_rt env c a)"
  unfolding post_schedule_rt_def by (assumption | rule inqs | rule inq_lets)+

lemma inq_task_woken_rt [inqs]: "\<lbrakk>env_counts env; inq (q_ok w) a\<rbrakk> \<Longrightarrow> inq (q_ok w) (task_woken_rt env c p a)"
  unfolding task_woken_rt_def by (assumption | rule inqs | rule inq_lets)+

lemma inq_switched_from_rt [inqs]: "\<lbrakk>env_counts env; inq (q_ok w) a\<rbrakk> \<Longrightarrow> inq (q_ok w) (switched_from_rt env c p a)"
  unfolding switched_from_rt_def by (assumption | rule inqs | rule inq_lets)+

lemma inq_switched_to_rt [inqs]: "\<lbrakk>env_counts env; inq (q_ok w) a\<rbrakk> \<Longrightarrow> inq (q_ok w) (switched_to_rt env c p a)"
  unfolding switched_to_rt_def by (assumption | rule inqs | rule inq_lets)+

lemma inq_prio_changed_rt [inqs]: "\<lbrakk>env_counts env; inq (q_ok w) a\<rbrakk> \<Longrightarrow> inq (q_ok w) (prio_changed_rt env c p pr a)"
  unfolding prio_changed_rt_def by (assumption | rule inqs | rule inq_lets)+

lemma inq_class_switched_from [inqs]: "\<lbrakk>env_counts env; inq (q_ok w) a\<rbrakk> \<Longrightarrow> inq (q_ok w) (class_switched_from env cls c p a)"
  unfolding class_switched_from_def by (assumption | rule inqs | rule inq_lets)+

lemma inq_class_switched_to [inqs]: "\<lbrakk>env_counts env; inq (q_ok w) a\<rbrakk> \<Longrightarrow> inq (q_ok w) (class_switched_to env cls c p a)"
  unfolding class_switched_to_def by (assumption | rule inqs | rule inq_lets)+

lemma inq_class_prio_changed [inqs]: "\<lbrakk>env_counts env; inq (q_ok w) a\<rbrakk> \<Longrightarrow> inq (q_ok w) (class_prio_changed env cls c p pr a)"
  unfolding class_prio_changed_def by (assumption | rule inqs | rule inq_lets)+

lemma inq_class_task_woken [inqs]: "\<lbrakk>env_counts env; inq (q_ok w) a\<rbrakk> \<Longrightarrow> inq (q_ok w) (class_task_woken env cls c p a)"
  unfolding class_task_woken_def by (assumption | rule inqs | rule inq_lets)+

lemma inq_pre_schedule [inqs]: "\<lbrakk>env_counts env; inq (q_ok w) a\<rbrakk> \<Longrightarrow> inq (q_ok w) (pre_schedule env c p a)"
  unfolding pre_schedule_def by (assumption | rule inqs | rule inq_lets)+

lemma inq_post_schedule_rq [inqs]: "\<lbrakk>env_counts env; inq (q_ok w) a\<rbrakk> \<Longrightarrow> inq (q_ok w) (post_schedule_rq env c a)"
  unfolding post_schedule_rq_def by (assumption | rule inqs | rule inq_lets)+

lemma inq_check_class_changed [inqs]: "\<lbrakk>env_counts env; inq (q_ok w) a\<rbrakk> \<Longrightarrow> inq (q_ok w) (check_class_changed env c p cls pr a)"
  unfolding check_class_changed_def by (assumption | rule inqs | rule inq_lets)+

end
