(* ===== verification/Rq_Runs.thy ===== *)
theory Rq_Runs
  imports Rq_Count Example_State
begin

text \<open>
  The operations of the core as steps of a machine, in any order and on any cpu: waking, forking,
  sleeping, scheduling, ticking, yielding, migration, hotplug, and the changes of priority, policy,
  affinity and group. Every step keeps the counters exact and the queues in agreement
  with the flags of the tasks.
\<close>

section \<open>Taking a task out and putting it back\<close>

lemma q_ok_state:
  assumes v: "q_ok w v" and p: "\<And>c. p \<notin> set (w c @ v_wake v c)" "v_class v p \<noteq> idle_sched_class \<or> s = 0"
  shows "q_ok w (set_state p s v)"
proof (rule q_okI)
  fix q c assume q: "q \<in> set (w c @ v_wake (set_state p s v) c)"
  then have "q \<noteq> p" using p(1) [of c] by auto
  then show "v_state (set_state p s v) q = TASK_WAKING \<and> \<not> v_on (set_state p s v) q \<and> v_cpu (set_state p s v) q = c"
    using q q_okD(9-11) [OF v, of q c] by simp
next
  fix q show "v_class (set_state p s v) q = idle_sched_class
      \<Longrightarrow> \<not> v_on (set_state p s v) q \<and> v_state (set_state p s v) q = 0"
    using q_okD(6,7) [OF v, of q] p(2) by auto
next
  fix c show "finite (on_cpu_rq (set_state p s v) c)" using q_okD(1) [OF v, of c] by simp
  show "v_nr (set_state p s v) c = of_nat (card (on_cpu_rq (set_state p s v) c))"
    using q_okD(2) [OF v, of c] by simp
qed (use q_okD(3-5,8) [OF v] in simp_all)

lemma q_ok_wakes: "\<lbrakk>q_ok w v; v_on v p\<rbrakk> \<Longrightarrow> p \<notin> set (w c @ v_wake v c)"
  using q_okD(10) by blast

lemma q_ok_awake: "\<lbrakk>q_ok w v; v_on v p\<rbrakk> \<Longrightarrow> q_ok w (set_state p s v)"
  using q_ok_state q_ok_wakes q_okD(6) by metis

lemma q_out_state:
  assumes "q_out w p v"
  shows "q_out w p (set_state p s v)"
proof -
  have "q_ok w (set_state p s (set_on p False v))"
    using assms by (intro q_ok_state) (simp_all add: q_out_def)
  moreover have "set_state p s (set_on p False v) = set_on p False (set_state p s v)"
    by (rule qview_eqI) simp_all
  ultimately have "q_ok w (set_on p False (set_state p s v))" by (simp only:)
  moreover have "(\<forall>c. p \<notin> set (w c @ v_wake v c)) \<and> v_class v p \<noteq> idle_sched_class"
    using assms by (simp add: q_out_def)
  ultimately show ?thesis unfolding q_out_def by simp
qed

lemma q_ok_class_off:
  assumes v: "q_ok w v" and p: "\<not> v_on v p" "cl \<noteq> idle_sched_class"
  shows "q_ok w (set_class p cl v)"
proof (rule q_okI)
  fix q c assume q: "q \<in> set (w c @ v_wake (set_class p cl v) c)"
  then show "v_state (set_class p cl v) q = TASK_WAKING \<and> \<not> v_on (set_class p cl v) q \<and> v_cpu (set_class p cl v) q = c"
    using q_okD(9-11) [OF v, of q c] by simp
next
  fix q
  show "v_class (set_class p cl v) q = idle_sched_class
      \<Longrightarrow> \<not> v_on (set_class p cl v) q \<and> v_state (set_class p cl v) q = 0"
    using q_okD(6,7) [OF v, of q] p(2) by (auto split: if_splits)
  show "v_wrr (set_class p cl v) q = (if v_on (set_class p cl v) q \<and> v_class (set_class p cl v) q = wrr_sched_class
      then Some (v_cpu (set_class p cl v) q) else None)"
    using q_okD(3) [OF v, of q] p(1) by auto
  show "v_rt (set_class p cl v) q \<longleftrightarrow> v_on (set_class p cl v) q \<and> v_class (set_class p cl v) q = rt_sched_class"
    using q_okD(4) [OF v, of q] p(1) by auto
next
  fix c show "finite (on_cpu_rq (set_class p cl v) c)" using q_okD(1) [OF v, of c] by simp
  show "v_nr (set_class p cl v) c = of_nat (card (on_cpu_rq (set_class p cl v) c))"
    using q_okD(2) [OF v, of c] by simp
qed (use q_okD(5,8) [OF v] in simp_all)

text \<open>The pattern of every change of a task's parameters, with \<open>b\<close> whether it was queued.\<close>

definition paused :: "(cpu \<Rightarrow> tid list) \<Rightarrow> tid \<Rightarrow> cpu \<Rightarrow> bool \<Rightarrow> qview \<Rightarrow> bool" where
  "paused w p c b v \<longleftrightarrow> (if b then held w p c v else q_ok w v \<and> \<not> v_on v p \<and> v_cpu v p = c)"

lemma paused_class: "\<lbrakk>paused w p c b v; cl \<noteq> idle_sched_class\<rbrakk> \<Longrightarrow> paused w p c b (set_class p cl v)"
  using q_out_class q_ok_class_off by (auto simp: paused_def split: if_splits)

lemma inq_pause:
  assumes env: "env_counts env" and a: "inq (q_ok w) a"
  shows "inq (paused w p (task_cpu (tasks a p)) (on_rq (tasks a p)))
           (if on_rq (tasks a p) then dequeue_task env (task_cpu (tasks a p)) p fl a else a)"
proof (cases "on_rq (tasks a p)")
  case True
  then show ?thesis using inq_dequeue_task [OF env a True refl] by (simp add: paused_def [abs_def])
next
  case False
  then show ?thesis using inq_mono [OF a, of "paused w p (task_cpu (tasks a p)) False"] by (simp add: paused_def)
qed

lemma inq_resume:
  assumes env: "env_counts env" and a: "inq (paused w p c b) a"
  shows "inq (q_ok w) (if b then enqueue_task env c p fl a else a)"
proof (cases b)
  case True
  then show ?thesis using inq_enqueue_held [OF env, of w p c a] a by (simp add: paused_def [abs_def])
next
  case False
  then show ?thesis using inq_mono [OF a, of "q_ok w"] by (simp add: paused_def)
qed

lemma inq_paused_class:
  assumes "inq (paused w p c b) a" "\<And>t. cl t \<noteq> idle_sched_class"
  shows "inq (paused w p c b) (upd_task p (\<lambda>t. t\<lparr>class_of := cl t\<rparr>) a)"
  by (rule inq_set_class [OF assms(1)]) (simp add: paused_class assms(2))

section \<open>Priorities, policies, groups\<close>

lemma inq_rt_mutex_setprio:
  assumes env: "env_counts env" and a: "inq (q_ok w) a"
  shows "inq (q_ok w) (rt_mutex_setprio env p pr a)"
proof -
  have b: "inq (q_ok w) (BUG_ON b a)" for b by (rule inqs a)+
  have d: "task_cpu (tasks (BUG_ON b a) p) = task_cpu (tasks a p)"
    "on_rq (tasks (BUG_ON b a) p) = on_rq (tasks a p)" for b by (simp_all add: BUG_ON_def)
  note pause = inq_pause [OF env b, where p = p, unfolded d]
  show ?thesis unfolding rt_mutex_setprio_def Let_def d
    by (rule env b pause inq_check_class_changed inq_resume inq_paused_class inqs | simp)+
qed

lemma inq_set_user_nice [inqs]:
  assumes env: "env_counts env" and a: "inq (q_ok w) a"
  shows "inq (q_ok w) (set_user_nice env p nice a)"
proof -
  let ?c = "task_cpu (tasks a p)" and ?on = "on_rq (tasks a p)"
  let ?b = "set_load_weight p (upd_task p (\<lambda>t. t\<lparr>static_prio := NICE_TO_PRIO nice\<rparr>)
      (if ?on then dequeue_task env ?c p 0 a else a))"
  let ?d = "upd_task p (\<lambda>t. t\<lparr>prio := fst (effective_prio p ?b)\<rparr>) (snd (effective_prio p ?b))"
  have "inq (paused w p ?c ?on) ?d" by (rule inqs inq_pause [OF env a])+
  then have e: "inq (q_ok w) (if ?on then enqueue_task env ?c p 0 ?d else ?d)" by (rule inq_resume [OF env])
  have "set_user_nice env p nice a =
     (if TASK_NICE a p = nice \<or> nice < -20 \<or> 19 < nice then a
      else if task_has_rt_policy a p then upd_task p (\<lambda>t. t\<lparr>static_prio := NICE_TO_PRIO nice\<rparr>) a
      else if ?on then
        if fst (effective_prio p ?b) - prio (tasks ?b p) < 0 \<or> 0 < fst (effective_prio p ?b) - prio (tasks ?b p)
             \<and> task_running env ?c p (enqueue_task env ?c p 0 ?d)
        then resched_task (curr_of (enqueue_task env ?c p 0 ?d) ?c) (enqueue_task env ?c p 0 ?d)
        else enqueue_task env ?c p 0 ?d
      else ?d)"
    unfolding set_user_nice_def Let_def case_prod_unfold by (simp only: if_cancel)
  then show ?thesis using e a by (auto intro!: inqs split: if_splits)
qed

lemma inq_setscheduler:
  assumes "inq (paused w p c b) a"
  shows "inq (paused w p c b) (setscheduler sys d p pol pr a)"
  unfolding setscheduler_def by (rule inqs inq_paused_class assms | simp)+

text \<open>
  \<open>rt_mutex_adjust_pi\<close> walks the chain of lock owners and boosts them with \<open>rt_mutex_setprio\<close>.
\<close>

definition sys_boosts :: "'x env \<Rightarrow> 'x sys \<Rightarrow> bool" where
  "sys_boosts env sys \<longleftrightarrow>
     (\<forall>p k. \<exists>owners. rt_mutex_adjust_pi sys p k
                       = fold (\<lambda>(q, pr). rt_mutex_setprio env q pr) owners k)"

lemma inq_rt_mutex_adjust_pi:
  assumes "env_counts env" "sys_boosts env sys" "inq (q_ok w) a"
  shows "inq (q_ok w) (rt_mutex_adjust_pi sys p a)"
proof -
  obtain owners where "rt_mutex_adjust_pi sys p a = fold (\<lambda>(q, pr). rt_mutex_setprio env q pr) owners a"
    using assms(2) unfolding sys_boosts_def by blast
  then show ?thesis using assms(1,3)
    by (auto intro!: op_fold [where P = "inq (q_ok w)"] inq_rt_mutex_setprio)
qed

lemma inq_change_scheduler:
  assumes env: "env_counts env" "sys_boosts env sys" and a: "inq (q_ok w) a"
  shows "inq (q_ok w) (change_scheduler env sys p pol pr reset a)"
  unfolding change_scheduler_def Let_def
  by (rule env a inq_pause [OF env(1) a, where p = p] inq_rt_mutex_adjust_pi inq_check_class_changed
      inq_resume inq_setscheduler inqs | simp)+

lemma inq_sched_setscheduler_user:
  assumes env: "env_counts env" "sys_boosts env sys" and a: "inq (q_ok w) a"
  shows "inq (q_ok w) (snd (sched_setscheduler_user env sys p pol pr user a))"
  unfolding sched_setscheduler_user_def Let_def
  by (rule inq_rules inq_change_scheduler env a)+

lemma inq_normalize_task:
  assumes env: "env_counts env" and a: "inq (q_ok w) a" and c: "c = task_cpu (tasks a p)"
  shows "inq (q_ok w) (normalize_task env sys c p a)"
proof -
  let ?b = "setscheduler sys c p SCHED_NORMAL 0 (if on_rq (tasks a p) then dequeue_task env c p 0 a else a)"
  have "inq (paused w p c (on_rq (tasks a p))) ?b"
    unfolding c by (intro inq_setscheduler inq_pause env a)
  then have e: "inq (q_ok w) (if on_rq (tasks a p) then enqueue_task env c p 0 ?b else ?b)"
    by (rule inq_resume [OF env])
  show ?thesis unfolding normalize_task_def Let_def
    using e by (intro inq_check_class_changed env) (auto intro: inqs split: if_splits)
qed

lemma inq_normalize_rt_tasks:
  assumes env: "env_counts env" and a: "inq (q_ok w) a"
  shows "inq (q_ok w) (normalize_rt_tasks env sys a)"
  unfolding normalize_rt_tasks_def
proof (rule op_fold [where P = "inq (q_ok w)", OF a])
  fix p and b :: "'a kernel" assume b: "inq (q_ok w) b"
  let ?d = "upd_stats p (\<lambda>s. s\<lparr>wait_start := 0, sleep_start := 0, block_start := 0\<rparr>)
      (upd_se p (\<lambda>e. e\<lparr>exec_start := 0\<rparr>) b)"
  have d: "inq (q_ok w) ?d" by (rule inqs b)+
  show "inq (q_ok w) (normalize_rt_task env sys p b)"
    unfolding normalize_rt_task_def Let_def
    by (rule inq_rules b d inq_set_user_nice inq_normalize_task env refl)+
qed

lemma inq_paused_set_task_rq:
  assumes a: "inq (paused w p c b) a"
  shows "inq (paused w p c b) (set_task_rq p (task_cpu (tasks a p)) a)"
proof (rule inq_set_task_rq [where W = "\<lambda>v. paused w p c b v \<and> task_cpu (tasks a p) = v_cpu v p"])
  show "inq (\<lambda>v. paused w p c b v \<and> task_cpu (tasks a p) = v_cpu v p) a" by (rule inq_mono [OF a]) simp
  fix v assume v: "paused w p c b v \<and> task_cpu (tasks a p) = v_cpu v p"
  have "\<not> v_rt v p"
    using v q_out_queues [of w p v] q_okD(4) [of w v p] by (auto simp: paused_def split: if_splits)
  moreover have "v_rtcpu v p = v_cpu v p"
    using v q_okD(5) [of w v p] q_okD(5) [of w "set_on p False v" p]
    by (auto simp: paused_def q_out_def split: if_splits)
  then have "v\<lparr>v_rtcpu := (v_rtcpu v)(p := task_cpu (tasks a p))\<rparr> = v"
    using v by (intro qview_eqI) auto
  ultimately show "\<not> v_rt v p \<and> paused w p c b (v\<lparr>v_rtcpu := (v_rtcpu v)(p := task_cpu (tasks a p))\<rparr>)"
    using v by simp
qed

lemma inq_sched_move_task:
  assumes env: "env_counts env" and a: "inq (q_ok w) a"
  shows "inq (q_ok w) (sched_move_task env p g a)"
  unfolding sched_move_task_def Let_def
  by (rule env a inq_pause [OF env a, where p = p] inq_resume inq_paused_set_task_rq inqs)+

section \<open>Waking up\<close>

text \<open>\<open>inq_activate_asleep\<close> with the flag it leaves.\<close>

lemma inq_activated:
  assumes env: "env_counts env" and a: "inq (asleep w p c) a"
  shows "inq (\<lambda>v. q_ok w v \<and> v_on v p) (upd_task p (\<lambda>t. t\<lparr>on_rq := True\<rparr>) (activate_task env c p fl a))"
  by (rule inq_mono [OF inq_activate_asleep [OF env a]]) simp

lemma inq_ttwu_activate:
  assumes env: "env_counts env" and a: "inq (asleep w p c) a"
  shows "inq (\<lambda>v. q_ok w v \<and> v_on v p) (ttwu_activate env c p fl a)"
  unfolding ttwu_activate_def Let_def by (rule inq_rules inq_other_fields inq_activated [OF env a])+

lemma inq_ttwu_do_wakeup:
  assumes env: "env_counts env" and a: "inq (\<lambda>v. q_ok w v \<and> v_on v p) a"
  shows "inq (q_ok w) (ttwu_do_wakeup env c p fl a)"
proof -
  let ?b = "upd_task p (\<lambda>t. t\<lparr>state := TASK_RUNNING\<rparr>) (check_preempt_curr env c p fl a)"
  have b: "inq (q_ok w) ?b"
    by (rule inq_set_state [OF inq_check_preempt_curr [OF env a]]) (simp add: q_ok_awake)
  show ?thesis unfolding ttwu_do_wakeup_def Let_def by (rule b env inqs)+
qed

lemma inq_ttwu_do_activate:
  assumes env: "env_counts env" and a: "inq (asleep w p c) a"
  shows "inq (q_ok w) (ttwu_do_activate env c p fl a)"
  unfolding ttwu_do_activate_def Let_def
  by (rule env inq_ttwu_do_wakeup inq_ttwu_activate inqs a)+

text \<open>Off the wake list of a cpu, onto its runqueue.\<close>

lemma q_ok_pending:
  assumes "q_ok w v" "v_wake v c = ps"
  shows "q_ok (w(c := w c @ ps)) (v\<lparr>v_wake := (v_wake v)(c := [])\<rparr>)"
  using assms unfolding q_ok_def by auto

lemma q_ok_next_pending:
  assumes "q_ok (w(c := p # ps)) v" "v_class v p \<noteq> idle_sched_class"
  shows "asleep (w(c := ps)) p c v"
proof -
  have p: "\<not> v_on v p" "v_cpu v p = c" using q_okD(10,11) [OF assms(1), of p c] by simp_all
  moreover have "q_ok (w(c := ps)) v" using assms(1) unfolding q_ok_def by (auto split: if_splits)
  moreover have "p \<notin> set ((w(c := ps)) d @ v_wake v d)" for d
  proof (cases "d = c")
    case True
    then show ?thesis using q_okD(8) [OF assms(1), of c] by auto
  next
    case False
    then show ?thesis using q_okD(11) [OF assms(1), of p d] p(2) by auto
  qed
  ultimately show ?thesis using assms(2) by (simp add: q_out_def q_out_off)
qed

lemma waking_not_idle: "\<lbrakk>q_ok w v; p \<in> set (w c @ v_wake v c)\<rbrakk> \<Longrightarrow> v_class v p \<noteq> idle_sched_class"
  using q_okD(7) [of w v p] q_okD(9) [of w v p c] by (auto simp: TASK_WAKING_def)

lemma inq_pending_fold:
  assumes env: "env_counts env"
  shows "inq (q_ok (w(c := ps))) a \<Longrightarrow> inq (q_ok (w(c := []))) (fold (\<lambda>p. ttwu_do_activate env c p 0) ps a)"
proof (induction ps arbitrary: a)
  case (Cons p ps)
  have "inq (asleep (w(c := ps)) p c) a"
  proof (rule inq_mono [OF Cons.prems])
    assume v: "q_ok (w(c := p # ps)) (qview a)"
    have "v_class (qview a) p \<noteq> idle_sched_class" by (rule waking_not_idle [OF v, of p c]) simp
    then show "asleep (w(c := ps)) p c (qview a)" by (rule q_ok_next_pending [OF v])
  qed
  then have "inq (q_ok (w(c := ps))) (ttwu_do_activate env c p 0 a)" by (rule inq_ttwu_do_activate [OF env])
  from Cons.IH [OF this] show ?case by simp
qed simp

lemma inq_sched_ttwu_pending:
  assumes env: "env_counts env" and a: "inq (q_ok (\<lambda>_. [])) a"
  shows "inq (q_ok (\<lambda>_. [])) (sched_ttwu_pending env c a)"
proof -
  let ?ps = "wake_list (rqs a c)"
  have "inq (q_ok ((\<lambda>_. [])(c := ?ps))) (upd_rq c (\<lambda>r. r\<lparr>wake_list := []\<rparr>) a)"
  proof (rule inq_set_wake [where f = "\<lambda>_. []" and W = "\<lambda>v. q_ok (\<lambda>_. []) v \<and> v_wake v c = ?ps"])
    show "inq (\<lambda>v. q_ok (\<lambda>_. []) v \<and> v_wake v c = ?ps) a" by (rule inq_mono [OF a]) simp
    show "q_ok ((\<lambda>_. [])(c := ?ps)) (v\<lparr>v_wake := (v_wake v)(c := [])\<rparr>)"
      if "q_ok (\<lambda>_. []) v \<and> v_wake v c = ?ps" for v using that q_ok_pending [of "\<lambda>_. []" v c ?ps] by simp
  qed
  then have "inq (q_ok ((\<lambda>_. [])(c := []))) (sched_ttwu_pending env c a)"
    unfolding sched_ttwu_pending_def Let_def by (rule inq_pending_fold [OF env])
  moreover have "(\<lambda>_. [])(c := []) = (\<lambda>_ :: cpu. [] :: tid list)" by auto
  ultimately show ?thesis by (simp only:)
qed

lemma q_ok_queue_remote:
  assumes v: "asleep w p c v" "v_state v p = TASK_WAKING"
  shows "q_ok w (v\<lparr>v_wake := (v_wake v)(c := p # v_wake v c)\<rparr>)"
proof -
  have o: "q_ok w v" using v q_out_off [of v p] by (simp add: q_out_def)
  have p: "p \<notin> set (w d @ v_wake v d)" for d using v by (simp add: q_out_def)
  show ?thesis using o v p unfolding q_ok_def by auto
qed

lemma inq_ttwu_queue:
  assumes env: "env_counts env" and a: "inq (\<lambda>v. asleep w p c v \<and> v_state v p = TASK_WAKING) a"
  shows "inq (q_ok w) (ttwu_queue env p c a)"
proof -
  have "inq (q_ok w) (ttwu_queue_remote p c a)"
    unfolding ttwu_queue_remote_def
    by (rule inq_set_wake [where f = "\<lambda>l. p # l", OF a]) (simp add: q_ok_queue_remote)
  moreover have "inq (asleep w p c) a" by (rule inq_mono [OF a]) simp
  ultimately show ?thesis unfolding ttwu_queue_def using inq_ttwu_do_activate [OF env] by auto
qed

lemma q_out_woken:
  assumes v: "q_ok w v" and p: "\<not> v_on v p" "v_state v p AND st \<noteq> 0" "st AND TASK_WAKING = 0"
  shows "q_out w p v"
proof -
  have "v_state v p \<noteq> TASK_WAKING" using p(2,3) by (auto simp: and.commute)
  then have "p \<notin> set (w c @ v_wake v c)" for c using q_okD(9) [OF v] by blast
  moreover have "v_class v p \<noteq> idle_sched_class" using q_okD(7) [OF v, of p] p(2) by auto
  ultimately show ?thesis using v p(1) by (simp add: q_out_def q_out_off)
qed

lemma inq_try_to_wake_up:
  assumes env: "env_counts env" and a: "inq (q_ok w) a" and st: "st AND TASK_WAKING = 0"
  shows "inq (q_ok w) (snd (try_to_wake_up env p st fl a))"
proof (cases "state (tasks a p) AND st = 0")
  case True
  then show ?thesis using a by (simp add: try_to_wake_up_def)
next
  case False
  have smp: "config_smp env" using env by (simp add: env_counts_def)
  show ?thesis
  proof (cases "on_rq (tasks a p)")
    case True
    have "inq (\<lambda>v. q_ok w v \<and> v_on v p) a" by (rule inq_mono [OF a]) (simp add: True)
    then have "inq (q_ok w) (ttwu_stat env p (task_cpu (tasks a p)) fl
        (ttwu_do_wakeup env (task_cpu (tasks a p)) p fl a))"
      by (intro inqs inq_ttwu_do_wakeup [OF env])
    then show ?thesis using False True by (simp add: try_to_wake_up_def ttwu_remote_def Let_def)
  next
    case off: False
    let ?b = "upd_task p (\<lambda>t. t\<lparr>sched_contributes_to_load := task_contributes_to_load (wait_on_cpu p a) p\<rparr>)
        (wait_on_cpu p a)"
    let ?W = "\<lambda>c v. asleep w p c v \<and> v_state v p = TASK_WAKING"
    let ?W1 = "\<lambda>v. q_out w p v \<and> \<not> v_on v p \<and> v_state v p = TASK_WAKING"
    let ?d = "class_task_waking env p (upd_task p (\<lambda>t. t\<lparr>state := TASK_WAKING\<rparr>) ?b)"
    let ?s = "select_task_rq env p SD_BALANCE_WAKE fl ?d"
    have b: "inq (\<lambda>v. q_out w p v \<and> \<not> v_on v p) ?b"
      by (rule inqs)+ (rule inq_mono [OF a], use q_out_woken off False st in simp)
    have "inq ?W1 (upd_task p (\<lambda>t. t\<lparr>state := TASK_WAKING\<rparr>) ?b)"
      by (rule inq_set_state [OF b]) (simp add: q_out_state)
    then have s: "inq ?W1 (snd ?s)" by (intro inq_select_task_rq inq_class_task_waking env)
    have "inq (?W (fst ?s)) (if task_cpu (tasks (snd ?s) p) \<noteq> fst ?s
        then set_task_cpu env p (fst ?s) (snd ?s) else snd ?s)"
    proof (cases "task_cpu (tasks (snd ?s) p) = fst ?s")
      case True
      then show ?thesis using inq_mono [OF s, of "?W (fst ?s)"] by simp
    next
      case False
      have "inq (?W (fst ?s)) (set_task_cpu env p (fst ?s) (snd ?s))"
        by (rule inq_set_task_cpu [OF s])
          (use q_out_queues q_out_move [of w p _ True "fst ?s"] smp in \<open>auto simp: q_move_def\<close>)
      then show ?thesis using False by simp
    qed
    note q = inq_ttwu_queue [OF env this]
    show ?thesis using q False off smp
      by (auto simp: try_to_wake_up_def Let_def case_prod_unfold intro!: inqs split: if_splits)
  qed
qed

lemma inq_try_to_wake_up_local:
  assumes env: "env_counts env" and a: "inq (q_ok w) a"
  shows "inq (q_ok w) (try_to_wake_up_local env p a)"
proof (cases "task_cpu (tasks a p) \<noteq> this_cpu a \<or> p = current a \<or> state (tasks a p) AND TASK_NORMAL = 0")
  case True
  then show ?thesis using a by (auto simp: try_to_wake_up_local_def Let_def)
next
  case False
  let ?c = "task_cpu (tasks a p)"
  have "inq (\<lambda>v. q_ok w v \<and> v_on v p)
      (if \<not> on_rq (tasks a p) then ttwu_activate env ?c p ENQUEUE_WAKEUP a else a)"
  proof (cases "on_rq (tasks a p)")
    case True
    then show ?thesis using inq_mono [OF a, of "\<lambda>v. q_ok w v \<and> v_on v p"] by simp
  next
    case off: False
    have "TASK_NORMAL AND TASK_WAKING = 0" by (simp add: state_defs)
    then have "inq (asleep w p ?c) a"
      using False off q_out_woken [of w "qview a" p TASK_NORMAL] by (intro inq_mono [OF a]) simp
    then show ?thesis using off inq_ttwu_activate [OF env] by simp
  qed
  then show ?thesis using False unfolding try_to_wake_up_local_def Let_def
    by (auto intro!: inqs inq_ttwu_do_wakeup [OF env])
qed

section \<open>Fork\<close>

text \<open>Initialising the list nodes of a task that is on no queue changes nothing.\<close>

lemma inq_init_nodes:
  assumes "inq W a" "\<And>v. W v \<Longrightarrow> \<not> v_rt v p \<and> v_wrr v p = None"
  shows "inq W (wrr_q_update (init_list_node p) (rt_q_update (init_list_node (Task_se p)) a))"
proof -
  have "home (rt_q a) (Task_se p) = None" "home (wrr_q a) p = None"
    using assms(2) [OF inqD(2) [OF assms(1)]]
    by (simp_all add: on_rt_rq_def node_empty_def del: split_paired_All not_None_eq)
  then have "init_list_node (Task_se p) (rt_q a) = rt_q a" "init_list_node p (wrr_q a) = wrr_q a"
    by (simp_all add: init_list_node_def fun_upd_idem)
  then have "wrr_q_update (init_list_node p) (rt_q_update (init_list_node (Task_se p)) a) = a"
    by (cases a) simp
  then show ?thesis using assms(1) by simp
qed

abbreviation forked :: "(cpu \<Rightarrow> tid list) \<Rightarrow> tid \<Rightarrow> qview \<Rightarrow> bool" where
  "forked w p v \<equiv> q_out w p v \<and> \<not> v_on v p"

lemma forked_ok: "forked w p v \<Longrightarrow> q_ok w v"
  using q_out_off [of v p] by (simp add: q_out_def)

lemma inq_sched_fork_init:
  assumes a: "inq (forked w p) a"
  shows "inq (forked w p) (sched_fork_init p a)"
proof -
  have b: "inq (forked w p) (upd_task p (\<lambda>t. t\<lparr>on_rq := False\<rparr>) a)"
    by (rule inq_set_on [OF a]) (simp add: q_out_off)
  show ?thesis unfolding sched_fork_init_def Let_def
    by (rule inq_init_nodes inqs b)+ (use q_out_queues in blast)
qed

lemma inq_forked_move:
  assumes "env_counts env" "inq (forked w p) a"
  shows "inq (forked w p) (set_task_cpu env p d a)"
  by (rule inq_set_task_cpu [OF assms(2)])
    (use q_out_queues q_out_move [of w p _ "config_smp env" d] in \<open>auto simp: q_move_def\<close>)

lemma inq_sched_fork:
  assumes env: "env_counts env" and a: "inq (forked w p) a"
  shows "inq (forked w p) (sched_fork env p a)"
proof -
  have st: "inq (forked w p) (upd_task p (\<lambda>t. t\<lparr>state := TASK_RUNNING\<rparr>) b)"
    if "inq (forked w p) b" for b :: "'a kernel"
    by (rule inq_set_state [OF that]) (simp add: q_out_state)
  have cl: "inq (forked w p) (upd_task p (\<lambda>t. t\<lparr>class_of := fair_sched_class\<rparr>) b)"
    if "inq (forked w p) b" for b :: "'a kernel"
    by (rule inq_set_class [OF that]) (simp add: q_out_class)
  show ?thesis unfolding sched_fork_def Let_def
    by (rule inq_forked_move env st cl inq_sched_fork_init inqs a)+
qed

lemma inq_wake_up_new_task:
  assumes env: "env_counts env" and a: "inq (forked w p) a"
  shows "inq (q_ok w) (wake_up_new_task env p a)"
proof -
  let ?b = "if config_smp env then (case select_task_rq env p SD_BALANCE_FORK 0 a of (d, k) \<Rightarrow> set_task_cpu env p d k) else a"
  let ?d = "if task_bg env p ?b
     then upd_wrr p (\<lambda>e. e\<lparr>wrr_time_slice := WRR_BG_TIMESLICE, wrr_weight := 1\<rparr>) ?b
     else upd_wrr p (\<lambda>e. e\<lparr>wrr_time_slice := WRR_FG_TIMESLICE, wrr_weight := 10\<rparr>) ?b"
  have b: "inq (forked w p) ?b" unfolding case_prod_unfold
    by (rule inq_rules inq_forked_move inq_select_task_rq env a)+
  have "inq (forked w p) ?d" by (rule b | rule inqs)+
  then have "inq (asleep w p (task_cpu (tasks ?b p))) ?d" by (rule inq_mono) simp
  note e = inq_activate_asleep [OF env this, of 0]
  show ?thesis unfolding wake_up_new_task_def Let_def
    by (rule e inq_class_task_woken inq_check_preempt_curr inq_rules env)+
qed

section \<open>Scheduling, ticking, yielding\<close>

lemma fair_moves_ok: "\<lbrakk>fair_moves v u; q_ok w v\<rbrakk> \<Longrightarrow> q_ok w u"
proof (induction rule: fair_moves.induct)
  case (move u p d)
  then have h: "held w p (v_cpu u p) (q_deq (v_cpu u p) p u)" using q_deq_held by blast
  then have "held w p d (q_move True p d (q_deq (v_cpu u p) p u))"
    using q_out_move [of w p "q_deq (v_cpu u p) p u" True d] by (simp add: q_move_def)
  then show ?case using q_enq_again by blast
qed

lemma inq_newidle_balance:
  assumes env: "env_counts env" and a: "inq (q_ok w) a"
  shows "inq (q_ok w) (newidle_balance env c a)"
  using assms fair_moves_ok unfolding env_counts_def inq_def by blast

lemma inq_deactivate_prev:
  assumes env: "env_counts env" and a: "inq (q_ok w) a" and p: "on_rq (tasks a p)" "task_cpu (tasks a p) = c"
  shows "inq (q_ok w) (deactivate_prev env c p a)"
proof -
  have "inq (\<lambda>v. q_ok w v \<and> v_on v p) a" by (rule inq_mono [OF a]) (simp add: p)
  then have s: "inq (q_ok w) (upd_task p (\<lambda>t. t\<lparr>state := TASK_RUNNING\<rparr>) a)"
    by (rule inq_set_state) (simp add: q_ok_awake)
  have d: "inq (q_ok w) (upd_task p (\<lambda>t. t\<lparr>on_rq := False\<rparr>) (deactivate_task env c p DEQUEUE_SLEEP a))"
    by (rule inq_set_on [OF inq_deactivate_task [OF env a p]]) (simp add: q_out_def)
  show ?thesis unfolding deactivate_prev_def Let_def
    by (rule inq_rules s d inq_try_to_wake_up_local env)+
qed

text \<open>A task that gives up its cpu is queued there.\<close>

lemma inq_schedule_once:
  assumes env: "env_counts env" and a: "inq (q_ok w) a"
    and p: "state (tasks a (curr_of a c)) \<noteq> 0
              \<longrightarrow> on_rq (tasks a (curr_of a c)) \<and> task_cpu (tasks a (curr_of a c)) = c"
  shows "inq (q_ok w) (schedule_once env c a)"
proof -
  let ?p = "curr_of a c"
  let ?b = "upd_rq c (\<lambda>r. r\<lparr>sched_count := sched_count r + 1\<rparr>) a"
  have b: "inq (q_ok w) ?b" by (rule inqs a)+
  let ?d = "if state (tasks ?b ?p) \<noteq> 0 \<and> \<not> preempt_active (tasks ?b ?p) then deactivate_prev env c ?p ?b else ?b"
  have d: "inq (q_ok w) ?d"
  proof (cases "state (tasks ?b ?p) \<noteq> 0 \<and> \<not> preempt_active (tasks ?b ?p)")
    case True
    then have "inq (q_ok w) (deactivate_prev env c ?p ?b)"
      using p by (intro inq_deactivate_prev env b) auto
    then show ?thesis unfolding if_P [OF True] .
  next
    case False
    show ?thesis unfolding if_not_P [OF False] by (rule b)
  qed
  show ?thesis unfolding schedule_once_def Let_def case_prod_unfold
    by (rule d env inq_newidle_balance | rule inqs | rule inq_lets)+
qed

lemma inq_scheduler_tick:
  assumes env: "env_counts env" and a: "inq (q_ok w) a"
    and here: "class_of (tasks a (current a)) = wrr_sched_class \<and> on_rq (tasks a (current a))
                 \<longrightarrow> task_cpu (tasks a (current a)) = this_cpu a"
  shows "inq (q_ok w) (scheduler_tick env a)"
proof -
  let ?c = "this_cpu a" and ?q = "current a"
  let ?W = "\<lambda>v. q_ok w v \<and> (v_class v ?q = wrr_sched_class \<and> v_on v ?q \<longrightarrow> v_cpu v ?q = ?c)"
  let ?b = "update_cpu_load_active env ?c (update_rq_clock ?c a)"
  have "inq ?W a" by (rule inq_mono [OF a]) (use here in simp)
  then have b: "inq ?W ?b" by (intro inqs)
  have w: "inq ?W (task_tick_wrr env ?c ?q 0 ?b)" if "class_of (tasks ?b ?q) = wrr_sched_class"
  proof -
    have "inq (\<lambda>v. ?W v \<and> v_class v ?q = wrr_sched_class) (task_tick_wrr env ?c ?q 0 ?b)"
    proof (rule inq_task_tick_wrr)
      show "inq (\<lambda>v. ?W v \<and> v_class v ?q = wrr_sched_class) ?b" by (rule inq_mono [OF b]) (simp add: that)
      fix v assume v: "?W v \<and> v_class v ?q = wrr_sched_class"
      then show "v_wrr v ?q = None \<or> v_wrr v ?q = Some ?c" using q_okD(3) [of w v ?q] by auto
    qed
    then show ?thesis by (rule inq_mono) simp
  qed
  have "inq ?W (class_task_tick env ?c ?q 0 ?b)"
    unfolding class_task_tick_def using w inq_task_tick_rt [OF b] inq_class_ext(6) [OF env b]
    by (simp split: sched_class.split)
  then have "inq (q_ok w) (class_task_tick env ?c ?q 0 ?b)" by (rule inq_mono) simp
  then show ?thesis unfolding scheduler_tick_def Let_def using env by (auto intro!: inqs)
qed

text \<open>The part of \<open>sys_sched_yield\<close> before it schedules.\<close>

definition yield_step :: "'x env \<Rightarrow> 'x kernel \<Rightarrow> 'x kernel" where
  "yield_step env k = class_yield_task env (class_of (tasks k (current k))) (this_cpu k)
     (upd_rq (this_cpu k) (\<lambda>r. r\<lparr>yld_count := yld_count r + 1\<rparr>) k)"

lemma sys_sched_yield_steps: "sys_sched_yield env k = schedule env (yield_step env k)"
  by (simp add: sys_sched_yield_def yield_step_def Let_def)

lemma inq_yield_step:
  assumes env: "env_counts env" and a: "inq (q_ok w) a"
    and here: "class_of (tasks a (current a)) = wrr_sched_class
                 \<longrightarrow> on_rq (tasks a (current a)) \<and> task_cpu (tasks a (current a)) = this_cpu a"
  shows "inq (q_ok w) (yield_step env a)"
proof -
  let ?b = "upd_rq (this_cpu a) (\<lambda>r. r\<lparr>yld_count := yld_count r + 1\<rparr>) a"
  have b: "inq (q_ok w) ?b" by (rule inqs a)+
  have "inq (q_ok w) (yield_task_wrr (this_cpu a) ?b)" if "class_of (tasks a (current a)) = wrr_sched_class"
    by (rule inq_yield_task_wrr [OF b]) (use here that q_okD(3) [OF inqD(2) [OF a], of "current a"] in simp)
  then show ?thesis unfolding yield_step_def class_yield_task_def
    using inq_yield_task_rt [OF b] inq_class_ext(1) [OF env b] by (simp split: sched_class.split)
qed

section \<open>Affinity, migration, hotplug\<close>

lemma inq_migrate_task:
  assumes env: "env_counts env" and a: "inq (q_ok w) a"
  shows "inq (q_ok w) (snd (migrate_task env p src dest a))"
proof -
  have "inq (q_ok w) (check_preempt_curr env dest p 0 (enqueue_task env dest p 0
      (set_task_cpu env p dest (dequeue_task env src p 0 a))))"
    if "on_rq (tasks a p)" "task_cpu (tasks a p) = src"
    using that by (intro inq_check_preempt_curr inq_move_task_to env a)
  then show ?thesis using a by (simp add: migrate_task_def Let_def)
qed

lemma inq_migration_cpu_stop:
  assumes "env_counts env" "inq (q_ok w) a"
  shows "inq (q_ok w) (migration_cpu_stop env c p dest a)"
  unfolding migration_cpu_stop_def by (rule inq_migrate_task [OF assms])

lemma inq_set_cpus_allowed_ptr:
  assumes env: "env_counts env" and a: "inq (q_ok w) a"
  shows "inq (q_ok w) (snd (set_cpus_allowed_ptr env p m a))"
  unfolding set_cpus_allowed_ptr_def Let_def
  by (rule inq_rules inq_migration_cpu_stop inq_do_set_cpus_allowed env a)+

lemma inq_sched_exec:
  assumes env: "env_counts env" and a: "inq (q_ok w) a"
  shows "inq (q_ok w) (sched_exec env a)"
  unfolding sched_exec_def Let_def by (rule inq_rules inq_migration_cpu_stop env a)+

lemma inq_migrate_loop:
  assumes "migrate_loop env c a = Some b" "env_counts env" "inq (q_ok w) a"
  shows "inq (q_ok w) b"
proof -
  have "env_counts env \<longrightarrow> inq (q_ok w) a \<longrightarrow> inq (q_ok w) b"
  proof (rule migrate_loop.raw_induct [where P = "\<lambda>env c a b. env_counts env \<longrightarrow> inq (q_ok w) a \<longrightarrow> inq (q_ok w) b",
        OF _ assms(1)], intro impI)
    fix loop and env :: "'a env" and c a b
    assume IH: "\<And>env c a b. loop env c a = Some b \<Longrightarrow> env_counts env \<longrightarrow> inq (q_ok w) a \<longrightarrow> inq (q_ok w) b"
      and b: "(if nr_running (rqs a c) = 1 then Some a
        else case pick_next_task env c a of
             (None, k) \<Rightarrow> Some (BUG_ON True k)
           | (Some p, k) \<Rightarrow>
               let k = class_put_prev_task env c p k in
               (case select_fallback_rq env c p k of
                  (None, k) \<Rightarrow> Some k
                | (Some d, k) \<Rightarrow> loop env c (snd (migrate_task env p c d k)))) = Some b"
      and env: "env_counts env" and a: "inq (q_ok w) a"
    obtain m k where mk: "pick_next_task env c a = (m, k)" by (cases "pick_next_task env c a")
    have k: "inq (q_ok w) k" using inq_pick_next_task [OF env a, of c] mk by simp
    show "inq (q_ok w) b"
    proof (cases m)
      case None
      then show ?thesis using b a mk inq_BUG_ON [OF k] by (auto split: if_splits)
    next
      case (Some p)
      obtain d k' where dk: "select_fallback_rq env c p (class_put_prev_task env c p k) = (d, k')"
        by (cases "select_fallback_rq env c p (class_put_prev_task env c p k)")
      have k': "inq (q_ok w) k'"
        using inq_select_fallback_rq [OF env inq_class_put_prev_task [OF env k], of c p c p] dk by simp
      show ?thesis
        using b a mk Some dk k' IH [of env c _ b] env inq_migrate_task [OF env k']
        by (auto simp: Let_def split: if_splits option.splits)
    qed
  qed
  then show ?thesis using assms by blast
qed

lemma inq_migrate_tasks:
  assumes "migrate_tasks env c a = Some b" "env_counts env" "inq (q_ok w) a"
  shows "inq (q_ok w) b"
proof -
  have "inq (q_ok w) (upd_rq c (\<lambda>r. r\<lparr>stop := None\<rparr>) a)" by (rule inqs assms)+
  then show ?thesis using assms(1) inq_migrate_loop [OF _ assms(2)]
    by (auto simp: migrate_tasks_def Let_def intro!: inqs split: option.splits)
qed

lemma inq_set_rq_online:
  assumes "env_counts env" "inq W a"
  shows "inq W (set_rq_online env c a)"
  unfolding set_rq_online_def Let_def by (rule inqs assms)+

lemma inq_set_rq_offline:
  assumes "env_counts env" "inq W a"
  shows "inq W (set_rq_offline env c a)"
  unfolding set_rq_offline_def Let_def by (rule inqs assms)+

lemma inq_migration_call:
  assumes "migration_call env act c a = Some (r, b)" "env_counts env" "inq (q_ok (\<lambda>_. [])) a"
  shows "inq (q_ok (\<lambda>_. [])) b"
proof (cases act)
  case CPU_DYING
  let ?b = "set_rq_offline env c (BUG_ON (\<not> rd_span (sched_ttwu_pending env c a) c) (sched_ttwu_pending env c a))"
  obtain d where d: "migrate_tasks env c ?b = Some d" using CPU_DYING assms(1)
    by (auto simp: migration_call_def Let_def split: option.splits)
  have "inq (q_ok (\<lambda>_. [])) ?b"
    by (intro inq_set_rq_offline inq_BUG_ON inq_sched_ttwu_pending assms)
  then have d': "inq (q_ok (\<lambda>_. [])) d" by (rule inq_migrate_tasks [OF d assms(2)])
  have "inq (q_ok (\<lambda>_. [])) (calc_global_load_remove c (migrate_nr_uninterruptible env c (BUG_ON (nr_running (rqs d c) \<noteq> 1) d)))"
    by (intro inqs d')
  then show ?thesis using CPU_DYING assms(1) d by (simp add: migration_call_def Let_def)
next
  case CPU_ONLINE
  then show ?thesis using assms by (auto simp: migration_call_def intro!: inq_set_rq_online inqs)
next
  case CPU_UP_PREPARE
  then show ?thesis using assms by (auto simp: migration_call_def intro!: inqs)
qed (use assms in \<open>simp_all add: migration_call_def\<close>)

end
