(* ===== verification/Rq_Props.thy ===== *)
theory Rq_Props
  imports Rq_Runs
begin

text \<open>
  The core scheduler as a machine whose steps are the operations of \<open>core.c\<close>, and what holds in
  every state it reaches: the counters of the runqueues are exact, and the queues of the
  classes hold the tasks whose flags say so, each on the cpu it names.
\<close>

section \<open>The machine\<close>

text \<open>
  A step is one operation, on any cpu. The guards are what the callers see to: a task being forked
  is new, a task that falls asleep is the running one and queued, a cpu that puts its task to
  sleep, ticks it or lets it yield has it on its own runqueue, no caller of
  \<open>try_to_wake_up\<close> waits for \<open>TASK_WAKING\<close>, and a priority that is lent is one.
\<close>

inductive core_step :: "'x env \<Rightarrow> 'x sys \<Rightarrow> 'x kernel \<Rightarrow> 'x kernel \<Rightarrow> bool" for env sys where
  elsewhere: "core_step env sys k (k\<lparr>this_cpu := c, sched_clock := t, jiffies := j\<rparr>)"
| wake: "st AND TASK_WAKING = 0 \<Longrightarrow> core_step env sys k (snd (try_to_wake_up env p st fl k))"
| pending: "core_step env sys k (sched_ttwu_pending env c k)"
| fork: "\<lbrakk>\<not> on_rq (tasks k p); state (tasks k p) \<noteq> TASK_WAKING; class_of (tasks k p) \<noteq> idle_sched_class\<rbrakk>
         \<Longrightarrow> core_step env sys k (sched_fork env p k)"
| start: "\<lbrakk>\<not> on_rq (tasks k p); state (tasks k p) \<noteq> TASK_WAKING; class_of (tasks k p) \<noteq> idle_sched_class\<rbrakk>
          \<Longrightarrow> core_step env sys k (wake_up_new_task env p k)"
| fall_asleep: "on_rq (tasks k (current k))
          \<Longrightarrow> core_step env sys k (upd_task (current k) (\<lambda>t. t\<lparr>state := s\<rparr>) k)"
| reschedule: "state (tasks k (curr_of k c)) \<noteq> 0
            \<longrightarrow> on_rq (tasks k (curr_of k c)) \<and> task_cpu (tasks k (curr_of k c)) = c
          \<Longrightarrow> core_step env sys k (schedule_once env c k)"
| tick: "class_of (tasks k (current k)) = wrr_sched_class \<and> on_rq (tasks k (current k))
            \<longrightarrow> task_cpu (tasks k (current k)) = this_cpu k
          \<Longrightarrow> core_step env sys k (scheduler_tick env k)"
| yielding: "class_of (tasks k (current k)) = wrr_sched_class
            \<longrightarrow> on_rq (tasks k (current k)) \<and> task_cpu (tasks k (current k)) = this_cpu k
          \<Longrightarrow> core_step env sys k (yield_step env k)"
| period: "core_step env sys k (snd (do_sched_rt_period_timer env g ov k))"
| boost: "\<lbrakk>0 \<le> pr; pr \<le> MAX_PRIO\<rbrakk> \<Longrightarrow> core_step env sys k (rt_mutex_setprio env p pr k)"
| nice: "core_step env sys k (set_user_nice env p n k)"
| setsched: "core_step env sys k (snd (sched_setscheduler_user env sys p pol pr user k))"
| normalize: "core_step env sys k (normalize_rt_tasks env sys k)"
| regroup: "core_step env sys k (sched_move_task env p g k)"
| affinity: "core_step env sys k (snd (set_cpus_allowed_ptr env p m k))"
| migration: "core_step env sys k (migration_cpu_stop env c p d k)"
| exec: "core_step env sys k (sched_exec env k)"
| hotplug: "migration_call env act c k = Some (r, k') \<Longrightarrow> core_step env sys k k'"

definition nothing_queued :: "'x kernel \<Rightarrow> bool" where
  "nothing_queued k \<longleftrightarrow>
     wrr_q k = no_lists \<and> rt_q k = no_lists \<and> entities_ok k
     \<and> (\<forall>c. nr_running (rqs k c) = 0 \<and> wake_list (rqs k c) = [] \<and> leaf_rt_rq_list (rqs k c) = [])
     \<and> (\<forall>p. \<not> on_rq (tasks k p) \<and> snd (rt_rq_of (rt_ses k (Task_se p))) = task_cpu (tasks k p))
     \<and> (\<forall>p. class_of (tasks k p) = idle_sched_class \<longrightarrow> state (tasks k p) = 0)"

inductive core_reach :: "'x env \<Rightarrow> 'x sys \<Rightarrow> 'x kernel \<Rightarrow> bool" for env sys where
  boot: "nothing_queued k \<Longrightarrow> core_reach env sys k"
| step: "\<lbrakk>core_reach env sys k; core_step env sys k k'\<rbrakk> \<Longrightarrow> core_reach env sys k'"

section \<open>The invariant\<close>

abbreviation exact :: "'x kernel \<Rightarrow> bool" where
  "exact k \<equiv> inq (q_ok (\<lambda>_. [])) k"

lemma nothing_queued_exact: "nothing_queued k \<Longrightarrow> exact k"
  by (simp add: nothing_queued_def inq_def queues_wf_def task_home_ok_def leaves_ok_def q_ok_def
      no_lists_def lists_wf_def on_rt_rq_def node_empty_def)

lemma exact_forked:
  assumes "exact k" "\<not> on_rq (tasks k p)" "state (tasks k p) \<noteq> TASK_WAKING"
    "class_of (tasks k p) \<noteq> idle_sched_class"
  shows "inq (forked (\<lambda>_. []) p) k"
proof (rule inq_mono [OF assms(1)])
  assume v: "q_ok (\<lambda>_. []) (qview k)"
  have "p \<notin> set ((\<lambda>_. []) c @ v_wake (qview k) c)" for c
    using q_okD(9) [OF v, of p c] assms(3) by auto
  moreover have o: "set_on p False (qview k) = qview k" by (rule q_out_off) (simp add: assms(2))
  have "q_ok (\<lambda>_. []) (set_on p False (qview k))" unfolding o by (rule v)
  moreover have "v_class (qview k) p \<noteq> idle_sched_class" "\<not> v_on (qview k) p" using assms(2,4) by simp_all
  ultimately show "forked (\<lambda>_. []) p (qview k)" unfolding q_out_def by blast
qed

lemma exact_elsewhere: "exact k \<Longrightarrow> exact (k\<lparr>this_cpu := c, sched_clock := t, jiffies := j\<rparr>)"
  by (erule inq_same) (simp_all add: qview_def on_rt_rq_def)

lemma exact_fall_asleep:
  assumes "exact k" "on_rq (tasks k p)"
  shows "exact (upd_task p (\<lambda>t. t\<lparr>state := s\<rparr>) k)"
proof (rule inq_set_state)
  show "inq (\<lambda>v. q_ok (\<lambda>_. []) v \<and> v_on v p) k" by (rule inq_mono [OF assms(1)]) (simp add: assms(2))
qed (simp add: q_ok_awake)

lemma core_step_exact:
  assumes "core_step env sys k k'" "env_counts env" "sys_boosts env sys" "exact k"
  shows "exact k'"
  using assms(1)
proof cases
  case (fork p)
  have "inq (forked (\<lambda>_. []) p) k'" unfolding fork(1) by (intro inq_sched_fork assms exact_forked fork)
  then show ?thesis using forked_ok by (rule inq_mono)
next
  case (hotplug act c r)
  then show ?thesis using inq_migration_call assms by blast
qed (simp_all add: assms exact_elsewhere inq_try_to_wake_up inq_sched_ttwu_pending inq_wake_up_new_task
    exact_forked exact_fall_asleep inq_schedule_once inq_scheduler_tick inq_yield_step
    inq_do_sched_rt_period_timer inq_rt_mutex_setprio inq_set_user_nice inq_sched_setscheduler_user
    inq_normalize_rt_tasks inq_sched_move_task inq_set_cpus_allowed_ptr inq_migration_cpu_stop
    inq_sched_exec)

lemma core_reach_exact:
  assumes "core_reach env sys k" "env_counts env" "sys_boosts env sys"
  shows "exact k"
  using assms by (induction) (auto intro: nothing_queued_exact core_step_exact)

lemma exact_rt_queues:
  assumes k: "exact k"
  shows "(\<exists>g i. Task_se p \<in> set (elems (rt_q k) ((g, c), i)))
    \<longleftrightarrow> on_rq (tasks k p) \<and> class_of (tasks k p) = rt_sched_class \<and> task_cpu (tasks k p) = c"
proof
  assume "\<exists>g i. Task_se p \<in> set (elems (rt_q k) ((g, c), i))"
  then obtain g i where "count_list (elems (rt_q k) ((g, c), i)) (Task_se p) \<noteq> 0" by (auto simp: count_list_0_iff)
  then have "home (rt_q k) (Task_se p) = Some ((g, c), i)"
    using task_home_okD(1) [OF k, of "((g, c), i)" p] by (auto split: if_splits)
  then show "on_rq (tasks k p) \<and> class_of (tasks k p) = rt_sched_class \<and> task_cpu (tasks k p) = c"
    using q_okD(4,5) [OF inqD(2) [OF k], of p] task_home_okD(2) [OF k, of p "(g, c)" i]
    by (simp add: on_rt_rq_def node_empty_def)
next
  assume p: "on_rq (tasks k p) \<and> class_of (tasks k p) = rt_sched_class \<and> task_cpu (tasks k p) = c"
  then have "home (rt_q k) (Task_se p) \<noteq> None"
    using q_okD(4) [OF inqD(2) [OF k], of p] by (simp add: on_rt_rq_def node_empty_def)
  then obtain r i where h: "home (rt_q k) (Task_se p) = Some (r, i)" by (metis not_None_eq prod.exhaust)
  moreover have "snd r = c" using task_home_okD(2) [OF k h] q_okD(5) [OF inqD(2) [OF k], of p] p by simp
  ultimately have "count_list (elems (rt_q k) ((fst r, c), i)) (Task_se p) = 1"
    using task_home_okD(1) [OF k, of "((fst r, c), i)" p] by (cases r) simp
  then have "Task_se p \<in> set (elems (rt_q k) ((fst r, c), i))" by (metis count_list_0_iff zero_neq_one)
  then show "\<exists>g i. Task_se p \<in> set (elems (rt_q k) ((g, c), i))" by blast
qed


text \<open>
  A machine for it: the example's, with classes outside the repository that count their tasks,
  and with the entities of the RT class set up. Task 2 is forked and started.
\<close>

definition counting_ops :: "unit class_ops" where
  "counting_ops = ops0\<lparr>op_enqueue_task := (\<lambda>c p fl. inc_nr_running c),
     op_dequeue_task := (\<lambda>c p fl. dec_nr_running c)\<rparr>"

definition env_c :: "unit env" where
  "env_c = env0\<lparr>class_ext := (\<lambda>_. counting_ops)\<rparr>"

definition sys_c :: "unit sys" where
  "sys_c = \<lparr>capable_sys_nice = (\<lambda>_. True), ns_capable_sys_nice = (\<lambda>_ _. True), cred_user_ns = (\<lambda>_. 0),
     cred_euid = (\<lambda>_. 0), cred_uid = (\<lambda>_. 0), cred_suid = (\<lambda>_. 0),
     security_task_setscheduler = (\<lambda>_. 0), security_task_getscheduler = (\<lambda>_. 0),
     security_task_setnice = (\<lambda>_ _. 0), find_task_by_vpid = (\<lambda>i. Some (nat i)),
     cpuset_cpus_allowed = (\<lambda>_ _ _. True), rt_mutex_getprio = (\<lambda>k p. normal_prio (tasks k p)),
     rt_mutex_adjust_pi = (\<lambda>p k. k)\<rparr>"

definition k_c :: "unit kernel" where
  "k_c = k0\<lparr>rt_ses := (\<lambda>s. case s of
       Task_se p \<Rightarrow> rt_se0\<lparr>rt_rq_of := (0, if p = 1 then 1 else 0)\<rparr>
     | Group_se g c \<Rightarrow> rt_se0\<lparr>rt_my_q := Some (g, c)\<rparr>)\<rparr>"

lemma env_c_counts: "env_counts env_c"
proof -
  have l: "leaf_rt_rq_list (rqs (inc_nr_running c k) d) = leaf_rt_rq_list (rqs k d)"
    "leaf_rt_rq_list (rqs (dec_nr_running c k) d) = leaf_rt_rq_list (rqs k d)"
    for c d and k :: "unit kernel" by (simp_all add: inc_nr_running_def dec_nr_running_def)
  have f: "wrr_q (inc_nr_running c k) = wrr_q k" "rt_q (inc_nr_running c k) = rt_q k"
    "rt_ses (inc_nr_running c k) = rt_ses k" "wrr_q (dec_nr_running c k) = wrr_q k"
    "rt_q (dec_nr_running c k) = rt_q k" "rt_ses (dec_nr_running c k) = rt_ses k"
    for c and k :: "unit kernel" by (simp_all add: inc_nr_running_def dec_nr_running_def)
  have wf: "queues_wf (inc_nr_running c k) = queues_wf k" "queues_wf (dec_nr_running c k) = queues_wf k"
    for c and k :: "unit kernel"
    by (simp_all only: queue_wf_defs l f)
  have v: "qview (inc_nr_running c k) = (qview k)\<lparr>v_nr := (v_nr (qview k))(c := v_nr (qview k) c + 1)\<rparr>"
    "qview (dec_nr_running c k) = (qview k)\<lparr>v_nr := (v_nr (qview k))(c := v_nr (qview k) c - 1)\<rparr>"
    for c and k :: "unit kernel"
    by (rule qview_eqI; simp add: inc_nr_running_def dec_nr_running_def on_rt_rq_def)+
  have "ops_count cls counting_ops" if "cls = fair_sched_class \<or> cls = stop_sched_class" for cls
    using that unfolding ops_count_def
    by (auto simp: counting_ops_def wf v q_enq_def q_deq_def)
  then show ?thesis
    by (simp add: env_counts_def env_c_def env0_def ops_unseen_def unseen_def counting_ops_def ops0_def
        fair_moves.stay)
qed

lemma sys_c_boosts: "sys_boosts env_c sys_c"
  unfolding sys_boosts_def by (auto simp: sys_c_def intro!: exI [of _ "[]"])

lemma k_c_nothing: "nothing_queued k_c"
  by (auto simp: nothing_queued_def k_c_def k0_def rq0_def task0_def rt_se0_def entities_ok_def
      split: rt_se_ref.splits)

lemma k_c_start: "core_reach env_c sys_c (wake_up_new_task env_c 2 k_c)"
proof -
  have "core_step env_c sys_c k_c (wake_up_new_task env_c 2 k_c)"
    by (rule core_step.start) (simp_all add: k_c_def k0_def task0_def state_defs)
  then show ?thesis using core_reach.boot [OF k_c_nothing] by (rule core_reach.step [rotated])
qed


end
