(* ===== verification/Task_Types.thy ===== *)
theory Task_Types
  imports Sched_Frame Rq_Props
begin

text \<open>
  The types of a task's parameters: policies, nice levels and priorities are C \<open>int\<close>s of which the
  code uses a small range, and it indexes with them: \<open>prio_to_weight\<close> with the static priority and
  the priority array of the RT class with the priority. In every state the core reaches they
  are in range.
\<close>

section \<open>Well-typed tasks\<close>

definition well_typed :: "task_struct \<Rightarrow> bool" where
  "well_typed t \<longleftrightarrow>
     MAX_RT_PRIO \<le> static_prio t \<and> static_prio t < MAX_PRIO
     \<and> 0 \<le> rt_priority t \<and> rt_priority t < MAX_RT_PRIO
     \<and> 0 \<le> normal_prio t \<and> normal_prio t < MAX_PRIO
     \<and> 0 \<le> prio t \<and> prio t \<le> MAX_PRIO
     \<and> valid_policy (policy t) \<and> (rt_policy (policy t) \<longleftrightarrow> rt_priority t \<noteq> 0)
     \<and> (class_of t = rt_sched_class \<longrightarrow> prio t < MAX_RT_PRIO)"

definition typed :: "'x kernel \<Rightarrow> bool" where
  "typed k \<longleftrightarrow> (\<forall>p. well_typed (tasks k p))"

lemma typedD: "typed k \<Longrightarrow> well_typed (tasks k p)"
  by (simp add: typed_def)

lemma well_typed_params: "params_of t = params_of u \<Longrightarrow> well_typed t = well_typed u"
  using params_of_eqD [of t u] by (simp add: well_typed_def)

lemma typed_keep: "\<lbrakk>keep a b; typed a\<rbrakk> \<Longrightarrow> typed b"
  using keepD well_typed_params unfolding typed_def by metis

named_theorems types \<open>operations that keep the tasks well typed\<close>

lemmas typed_rules [types] = op_rules [where P = typed]

lemmas typed_lets = op_lets [where P = typed]

lemma typed_same: "\<lbrakk>typed a; tasks b = tasks a\<rbrakk> \<Longrightarrow> typed b"
  by (simp add: typed_def)

lemma typed_other_fields [types]:
  "typed a \<Longrightarrow> typed (rqs_update f a)" "typed a \<Longrightarrow> typed (wrr_q_update f1 a)"
  "typed a \<Longrightarrow> typed (rt_q_update f2 a)" "typed a \<Longrightarrow> typed (rt_rqs_update f3 a)"
  "typed a \<Longrightarrow> typed (rt_ses_update f4 a)" "typed a \<Longrightarrow> typed (tgs_update f5 a)"
  "typed a \<Longrightarrow> typed (rd_online_update f6 a)" "typed a \<Longrightarrow> typed (load_globals_update f7 a)"
  "typed a \<Longrightarrow> typed (bug_update f8 a)" "typed a \<Longrightarrow> typed (ext_state_update f9 a)"
  by (simp_all add: typed_def)

lemma typed_upd_task: "\<lbrakk>typed a; well_typed (g (tasks a p))\<rbrakk> \<Longrightarrow> typed (upd_task p g a)"
  by (simp add: typed_def)

lemma typed_task_fields [types]:
  "typed a \<Longrightarrow> typed (upd_task p (\<lambda>t. t\<lparr>need_resched := b t\<rparr>) a)"
  "typed a \<Longrightarrow> typed (upd_task p (\<lambda>t. t\<lparr>on_rq := b t\<rparr>) a)"
  "typed a \<Longrightarrow> typed (upd_task p (\<lambda>t. t\<lparr>on_cpu := b t\<rparr>) a)"
  "typed a \<Longrightarrow> typed (upd_task p (\<lambda>t. t\<lparr>state := s t\<rparr>) a)"
  "typed a \<Longrightarrow> typed (upd_task p (\<lambda>t. t\<lparr>se := f t\<rparr>) a)"
  "typed a \<Longrightarrow> typed (upd_task p (\<lambda>t. t\<lparr>wrr := g t\<rparr>) a)"
  "typed a \<Longrightarrow> typed (upd_task p (\<lambda>t. t\<lparr>cpus_allowed := m t\<rparr>) a)"
  "typed a \<Longrightarrow> typed (upd_task p (\<lambda>t. t\<lparr>sched_task_group := tg t\<rparr>) a)"
  "typed a \<Longrightarrow> typed (upd_task p (\<lambda>t. t\<lparr>sched_contributes_to_load := b t\<rparr>) a)"
  "typed a \<Longrightarrow> typed (upd_task p (\<lambda>t. t\<lparr>sched_reset_on_fork := b t\<rparr>) a)"
  "typed a \<Longrightarrow> typed (upd_task p (\<lambda>t. t\<lparr>active_mm := x t\<rparr>) a)"
  "typed a \<Longrightarrow> typed (upd_task p (\<lambda>t. t\<lparr>preempt_count := n t\<rparr>) a)"
  "typed a \<Longrightarrow> typed (upd_task p (\<lambda>t. t\<lparr>nvcsw := w t\<rparr>) a)"
  "typed a \<Longrightarrow> typed (upd_task p (\<lambda>t. t\<lparr>nivcsw := w t\<rparr>) a)"
  by (simp_all add: typed_def well_typed_def)

lemma typed_one_changed:
  assumes "typed a" "well_typed (tasks b p)" "\<And>q. q \<noteq> p \<Longrightarrow> tasks b q = tasks a q"
  shows "typed b"
  unfolding typed_def
proof
  fix q show "well_typed (tasks b q)" using assms typedD [OF assms(1), of q] by (cases "q = p") simp_all
qed

section \<open>The code outside the repository\<close>

text \<open>
  The other classes, the balancer of the fair class and the cpuset code set no parameters, apart from
  the mask of allowed cpus; the priority that \<open>rtmutex.c\<close> computes is one of a task.
\<close>

definition env_types :: "'x env \<Rightarrow> bool" where
  "env_types env \<longleftrightarrow>
     env_ok env
     \<and> (\<forall>cls p k. keep k (op_task_waking (class_ext env cls) p k))
     \<and> (\<forall>cls p m k. keep k (op_set_cpus_allowed (class_ext env cls) p m k))
     \<and> (\<forall>cls c k. keep k (op_rq_online (class_ext env cls) c k))
     \<and> (\<forall>cls c k. keep k (op_rq_offline (class_ext env cls) c k))
     \<and> (\<forall>cls p b k. keep k (op_task_move_group (class_ext env cls) p b k))
     \<and> (\<forall>c k. keep k (newidle_balance env c k)) \<and> (\<forall>c k. keep k (trigger_load_balance env c k))
     \<and> (\<forall>p q k. \<exists>m. tasks (cpuset_cpus_allowed_fallback env p k) q = (tasks k q)\<lparr>cpus_allowed := m\<rparr>)"

definition sys_types :: "'x env \<Rightarrow> 'x sys \<Rightarrow> bool" where
  "sys_types env sys \<longleftrightarrow>
     (\<forall>k p. 0 \<le> normal_prio (tasks k p) \<and> normal_prio (tasks k p) < MAX_PRIO
        \<longrightarrow> 0 \<le> rt_mutex_getprio sys k p \<and> rt_mutex_getprio sys k p < MAX_PRIO)
     \<and> (\<forall>p k. \<exists>owners. (\<forall>(q, pr) \<in> set owners. 0 \<le> pr \<and> pr \<le> MAX_PRIO)
            \<and> rt_mutex_adjust_pi sys p k = fold (\<lambda>(q, pr). rt_mutex_setprio env q pr) owners k)"

lemma env_types_ok: "env_types env \<Longrightarrow> env_ok env"
  by (simp add: env_types_def)

lemma typed_class_ext [types]:
  assumes "env_types env"
  shows "typed a \<Longrightarrow> typed (op_task_waking (class_ext env cls) p a)"
    "typed a \<Longrightarrow> typed (op_set_cpus_allowed (class_ext env cls) p m a)"
    "typed a \<Longrightarrow> typed (op_rq_online (class_ext env cls) c a)"
    "typed a \<Longrightarrow> typed (op_rq_offline (class_ext env cls) c a)"
    "typed a \<Longrightarrow> typed (op_task_move_group (class_ext env cls) p b a)"
    "typed a \<Longrightarrow> typed (op_task_fork (class_ext env cls) p a)"
    "typed a \<Longrightarrow> typed (newidle_balance env c a)"
    "typed a \<Longrightarrow> typed (trigger_load_balance env c a)"
proof -
  have k: "keep a (op_task_waking (class_ext env cls) p a)"
    "keep a (op_set_cpus_allowed (class_ext env cls) p m a)"
    "keep a (op_rq_online (class_ext env cls) c a)"
    "keep a (op_rq_offline (class_ext env cls) c a)"
    "keep a (op_task_move_group (class_ext env cls) p b a)"
    "keep a (op_task_fork (class_ext env cls) p a)"
    "keep a (newidle_balance env c a)"
    "keep a (trigger_load_balance env c a)"
    using assms by (simp_all add: env_types_def env_ok_def ops_ok_def)
  assume a: "typed a"
  show "typed (op_task_waking (class_ext env cls) p a)" by (rule typed_keep [OF k(1) a])
  show "typed (op_set_cpus_allowed (class_ext env cls) p m a)" by (rule typed_keep [OF k(2) a])
  show "typed (op_rq_online (class_ext env cls) c a)" by (rule typed_keep [OF k(3) a])
  show "typed (op_rq_offline (class_ext env cls) c a)" by (rule typed_keep [OF k(4) a])
  show "typed (op_task_move_group (class_ext env cls) p b a)" by (rule typed_keep [OF k(5) a])
  show "typed (op_task_fork (class_ext env cls) p a)" by (rule typed_keep [OF k(6) a])
  show "typed (newidle_balance env c a)" by (rule typed_keep [OF k(7) a])
  show "typed (trigger_load_balance env c a)" by (rule typed_keep [OF k(8) a])
qed

lemma well_typed_allowed: "well_typed (t\<lparr>cpus_allowed := m\<rparr>) = well_typed t"
  by (simp add: well_typed_def)

lemma typed_cpuset [types]:
  assumes "env_types env" "typed a"
  shows "typed (cpuset_cpus_allowed_fallback env p a)"
proof -
  have "\<exists>m. tasks (cpuset_cpus_allowed_fallback env p a) q = (tasks a q)\<lparr>cpus_allowed := m\<rparr>" for q
    using assms(1) by (simp add: env_types_def)
  then have "well_typed (tasks (cpuset_cpus_allowed_fallback env p a) q)" for q
    using typedD [OF assms(2), of q] by (metis well_typed_allowed)
  then show ?thesis by (simp add: typed_def)
qed

section \<open>Operations that change no parameter\<close>

text \<open>From the facts of \<open>Sched_Frame\<close>.\<close>

lemma typed_activate_task [types]: "\<lbrakk>env_types env; typed a\<rbrakk> \<Longrightarrow> typed (activate_task env c p fl a)"
  by (rule typed_keep [OF keep_activate_task [OF env_types_ok keep_refl]])

lemma typed_deactivate_task [types]: "\<lbrakk>env_types env; typed a\<rbrakk> \<Longrightarrow> typed (deactivate_task env c p fl a)"
  by (rule typed_keep [OF keep_deactivate_task [OF env_types_ok keep_refl]])

lemma typed_enqueue_task [types]: "\<lbrakk>env_types env; typed a\<rbrakk> \<Longrightarrow> typed (enqueue_task env c p fl a)"
  by (rule typed_keep [OF keep_enqueue_task [OF env_types_ok keep_refl]])

lemma typed_dequeue_task [types]: "\<lbrakk>env_types env; typed a\<rbrakk> \<Longrightarrow> typed (dequeue_task env c p fl a)"
  by (rule typed_keep [OF keep_dequeue_task [OF env_types_ok keep_refl]])

lemma typed_check_preempt_curr [types]: "\<lbrakk>env_types env; typed a\<rbrakk> \<Longrightarrow> typed (check_preempt_curr env c p fl a)"
  by (rule typed_keep [OF keep_check_preempt_curr [OF env_types_ok keep_refl]])

lemma typed_class_task_woken [types]: "\<lbrakk>env_types env; typed a\<rbrakk> \<Longrightarrow> typed (class_task_woken env cls c p a)"
  by (rule typed_keep [OF keep_class_task_woken [OF env_types_ok keep_refl]])

lemma typed_pre_schedule [types]: "\<lbrakk>env_types env; typed a\<rbrakk> \<Longrightarrow> typed (pre_schedule env c p a)"
  by (rule typed_keep [OF keep_pre_schedule [OF env_types_ok keep_refl]])

lemma typed_post_schedule_rq [types]: "\<lbrakk>env_types env; typed a\<rbrakk> \<Longrightarrow> typed (post_schedule_rq env c a)"
  by (rule typed_keep [OF keep_post_schedule_rq [OF env_types_ok keep_refl]])

lemma typed_put_prev_task [types]: "\<lbrakk>env_types env; typed a\<rbrakk> \<Longrightarrow> typed (put_prev_task env c p a)"
  by (rule typed_keep [OF keep_put_prev_task [OF env_types_ok keep_refl]])

lemma typed_class_put_prev_task [types]: "\<lbrakk>env_types env; typed a\<rbrakk> \<Longrightarrow> typed (class_put_prev_task env c p a)"
  by (rule typed_keep [OF keep_class_put_prev_task [OF env_types_ok keep_refl]])

lemma typed_class_set_curr_task [types]: "\<lbrakk>env_types env; typed a\<rbrakk> \<Longrightarrow> typed (class_set_curr_task env cls c a)"
  by (rule typed_keep [OF keep_class_set_curr_task [OF env_types_ok keep_refl]])

lemma typed_class_yield_task [types]: "\<lbrakk>env_types env; typed a\<rbrakk> \<Longrightarrow> typed (class_yield_task env cls c a)"
  by (rule typed_keep [OF keep_class_yield_task [OF env_types_ok keep_refl]])

lemma typed_class_task_tick [types]: "\<lbrakk>env_types env; typed a\<rbrakk> \<Longrightarrow> typed (class_task_tick env c p q a)"
  by (rule typed_keep [OF keep_class_task_tick [OF env_types_ok keep_refl]])

lemma typed_check_class_changed [types]: "\<lbrakk>env_types env; typed a\<rbrakk> \<Longrightarrow> typed (check_class_changed env c p cls pr a)"
  by (rule typed_keep [OF keep_check_class_changed [OF env_types_ok keep_refl]])

lemma typed_class_pick_next_task [types]: "\<lbrakk>env_types env; typed a\<rbrakk> \<Longrightarrow> typed (snd (class_pick_next_task env cls c a))"
  by (rule typed_keep [OF keep_class_pick_next_task [OF env_types_ok keep_refl]])

lemma typed_pull_wrr_task [types]: "\<lbrakk>env_types env; typed a\<rbrakk> \<Longrightarrow> typed (pull_wrr_task env c a)"
  by (rule typed_keep [OF keep_pull_wrr_task [OF env_types_ok keep_refl]])

lemma typed_set_task_cpu [types]: "typed a \<Longrightarrow> typed (set_task_cpu env p c a)"
  by (rule typed_keep [OF keep_set_task_cpu [OF keep_refl]])

lemma typed_set_task_rq [types]: "typed a \<Longrightarrow> typed (set_task_rq p c a)"
  by (rule typed_keep [OF keep_set_task_rq [OF keep_refl]])

lemma typed_update_rq_clock [types]: "typed a \<Longrightarrow> typed (update_rq_clock c a)"
  by (rule typed_keep [OF keep_update_rq_clock [OF keep_refl]])

lemma typed_sched_avg_update [types]: "typed a \<Longrightarrow> typed (sched_avg_update env c a)"
  by (rule typed_keep [OF keep_sched_avg_update [OF keep_refl]])

lemma typed_BUG_ON [types]: "typed a \<Longrightarrow> typed (BUG_ON b a)"
  by (rule typed_keep [OF keep_BUG_ON [OF keep_refl]])

lemma typed_resched_task [types]: "typed a \<Longrightarrow> typed (resched_task p a)"
  by (rule typed_keep [OF keep_resched_task [OF keep_refl]])

lemma typed_do_sched_rt_period_timer [types]: "typed a \<Longrightarrow> typed (snd (do_sched_rt_period_timer env g ov a))"
  by (rule typed_keep [OF keep_do_sched_rt_period_timer [OF keep_refl]])

text \<open>The rest of the core.\<close>

lemma typed_pick_next_task [types]: "\<lbrakk>env_types env; typed a\<rbrakk> \<Longrightarrow> typed (snd (pick_next_task env c a))"
  by (rule typed_keep [OF keep_pick_next_task [OF env_types_ok keep_refl]])

lemma typed_set_load_weight [types]: "typed a \<Longrightarrow> typed (set_load_weight p a)"
  unfolding set_load_weight_def by (assumption | rule types | rule typed_lets)+

lemma typed_rt_set_overload [types]: "typed a \<Longrightarrow> typed (rt_set_overload c a)"
  by (rule typed_keep [OF keep_rt_set_overload [OF keep_refl]])

lemma typed_rt_clear_overload [types]: "typed a \<Longrightarrow> typed (rt_clear_overload c a)"
  by (rule typed_keep [OF keep_rt_clear_overload [OF keep_refl]])

lemma typed_update_rt_migration [types]: "typed a \<Longrightarrow> typed (update_rt_migration r a)"
  by (rule typed_keep [OF keep_update_rt_migration [OF keep_refl]])

lemma typed_enqueue_pushable_task [types]: "typed a \<Longrightarrow> typed (enqueue_pushable_task env c p a)"
  by (rule typed_keep [OF keep_enqueue_pushable_task [OF keep_refl]])

lemma typed_dequeue_pushable_task [types]: "typed a \<Longrightarrow> typed (dequeue_pushable_task env c p a)"
  by (rule typed_keep [OF keep_dequeue_pushable_task [OF keep_refl]])

lemma typed_cpupri_set [types]: "typed a \<Longrightarrow> typed (cpupri_set c pr a)"
  by (rule typed_keep [OF keep_cpupri_set [OF keep_refl]])

lemma typed_set_cpus_allowed_rt [types]: "typed a \<Longrightarrow> typed (set_cpus_allowed_rt env p m a)"
  unfolding set_cpus_allowed_rt_def by (assumption | rule types | rule typed_lets)+

lemma typed_enable_runtime [types]: "typed a \<Longrightarrow> typed (enable_runtime c a)"
  unfolding enable_runtime_def by (assumption | rule types)+

lemma typed_disable_runtime [types]: "typed a \<Longrightarrow> typed (disable_runtime env c a)"
proof -
  have r: "typed (fst st) \<Longrightarrow> typed (fst (reclaim_step r st i))" for r i and st :: "'a kernel \<times> u64"
    unfolding reclaim_step_def by (assumption | rule types | rule typed_lets)+
  assume a: "typed a"
  show ?thesis unfolding disable_runtime_def disable_runtime_rq_def
    by (rule a | rule r | assumption | rule types | rule typed_lets)+
qed

lemma typed_rq_online_rt [types]: "typed a \<Longrightarrow> typed (rq_online_rt c a)"
  unfolding rq_online_rt_def by (assumption | rule types)+

lemma typed_rq_offline_rt [types]: "typed a \<Longrightarrow> typed (rq_offline_rt env c a)"
  unfolding rq_offline_rt_def by (assumption | rule types)+

lemma typed_wrr_hooks [types]:
  "typed a \<Longrightarrow> typed (set_cpus_allowed_wrr p m a)" "typed a \<Longrightarrow> typed (rq_online_wrr c a)"
  "typed a \<Longrightarrow> typed (rq_offline_wrr c a)"
  by simp_all

lemma typed_calc_load_account_active [types]: "typed a \<Longrightarrow> typed (calc_load_account_active c a)"
  unfolding calc_load_account_active_def Let_def case_prod_unfold by (assumption | rule types)+

lemma typed_update_cpu_load [types]: "typed a \<Longrightarrow> typed (update_cpu_load env c a)"
  unfolding update_cpu_load_def by (assumption | rule types | rule typed_lets)+

lemma typed_update_cpu_load_active [types]: "typed a \<Longrightarrow> typed (update_cpu_load_active env c a)"
  unfolding update_cpu_load_active_def by (assumption | rule types | rule typed_lets)+

lemma typed_calc_global_load_remove [types]: "typed a \<Longrightarrow> typed (calc_global_load_remove c a)"
  unfolding calc_global_load_remove_def by (assumption | rule types | rule typed_lets)+

lemma typed_migrate_nr_uninterruptible [types]: "typed a \<Longrightarrow> typed (migrate_nr_uninterruptible env c a)"
  unfolding migrate_nr_uninterruptible_def by (assumption | rule types | rule typed_lets)+

lemma typed_class_set_cpus_allowed [types]: "\<lbrakk>env_types env; typed a\<rbrakk> \<Longrightarrow> typed (class_set_cpus_allowed env cls p m a)"
  unfolding class_set_cpus_allowed_def by (assumption | rule types | rule typed_lets)+

lemma typed_class_rq_online [types]: "\<lbrakk>env_types env; typed a\<rbrakk> \<Longrightarrow> typed (class_rq_online env cls c a)"
  unfolding class_rq_online_def by (assumption | rule types | rule typed_lets)+

lemma typed_class_rq_offline [types]: "\<lbrakk>env_types env; typed a\<rbrakk> \<Longrightarrow> typed (class_rq_offline env cls c a)"
  unfolding class_rq_offline_def by (assumption | rule types | rule typed_lets)+

lemma typed_class_task_waking [types]: "\<lbrakk>env_types env; typed a\<rbrakk> \<Longrightarrow> typed (class_task_waking env p a)"
  unfolding class_task_waking_def by (assumption | rule types | rule typed_lets)+

lemma typed_class_task_fork [types]: "\<lbrakk>env_types env; typed a\<rbrakk> \<Longrightarrow> typed (class_task_fork env p a)"
  unfolding class_task_fork_def by (assumption | rule types | rule typed_lets)+

lemma typed_do_set_cpus_allowed [types]: "\<lbrakk>env_types env; typed a\<rbrakk> \<Longrightarrow> typed (do_set_cpus_allowed env p m a)"
  unfolding do_set_cpus_allowed_def by (assumption | rule types | rule typed_lets)+

lemma typed_fallback_loop [types]:
  "\<lbrakk>env_types env; typed a\<rbrakk> \<Longrightarrow> typed (snd (fallback_loop n env p st a))"
proof (induction n arbitrary: st a)
  case (Suc n)
  note IH = Suc.IH [OF Suc.prems(1) typed_cpuset [OF Suc.prems]]
    Suc.IH [OF Suc.prems(1) typed_do_set_cpus_allowed [OF Suc.prems]]
  show ?case using IH Suc.prems(2) typed_BUG_ON [OF Suc.prems(2)]
    by (auto split: option.splits fallback_state.splits)
qed simp

lemma typed_select_fallback_rq [types]: "\<lbrakk>env_types env; typed a\<rbrakk> \<Longrightarrow> typed (snd (select_fallback_rq env c p a))"
  unfolding select_fallback_rq_def by (assumption | rule types | rule typed_lets)+

lemma typed_select_task_rq [types]:
  "\<lbrakk>env_types env; typed a\<rbrakk> \<Longrightarrow> typed (snd (select_task_rq env p sd fl a))"
  using typed_select_fallback_rq [of env a "task_cpu (tasks a p)" p]
  unfolding select_task_rq_def Let_def by (auto split: prod.splits option.splits)

lemma typed_ttwu_stat [types]: "typed a \<Longrightarrow> typed (ttwu_stat env p c fl a)"
  by (rule typed_keep [OF keep_ttwu_stat [OF keep_refl]])

lemma typed_wait_on_cpu [types]: "typed a \<Longrightarrow> typed (wait_on_cpu p a)"
  unfolding wait_on_cpu_def by (assumption | rule types | rule typed_lets)+

lemma typed_ttwu_activate [types]: "\<lbrakk>env_types env; typed a\<rbrakk> \<Longrightarrow> typed (ttwu_activate env c p fl a)"
  unfolding ttwu_activate_def by (assumption | rule types | rule typed_lets)+

lemma typed_ttwu_do_wakeup [types]: "\<lbrakk>env_types env; typed a\<rbrakk> \<Longrightarrow> typed (ttwu_do_wakeup env c p fl a)"
  unfolding ttwu_do_wakeup_def by (assumption | rule types | rule typed_lets)+

lemma typed_ttwu_do_activate [types]: "\<lbrakk>env_types env; typed a\<rbrakk> \<Longrightarrow> typed (ttwu_do_activate env c p fl a)"
  unfolding ttwu_do_activate_def by (assumption | rule types | rule typed_lets)+

lemma typed_ttwu_remote [types]: "\<lbrakk>env_types env; typed a\<rbrakk> \<Longrightarrow> typed (snd (ttwu_remote env p fl a))"
  unfolding ttwu_remote_def by (assumption | rule types | rule typed_lets)+

lemma typed_sched_ttwu_pending [types]: "\<lbrakk>env_types env; typed a\<rbrakk> \<Longrightarrow> typed (sched_ttwu_pending env c a)"
  unfolding sched_ttwu_pending_def by (assumption | rule types | rule typed_lets)+

lemma typed_ttwu_queue_remote [types]: "typed a \<Longrightarrow> typed (ttwu_queue_remote p c a)"
  unfolding ttwu_queue_remote_def by (assumption | rule types | rule typed_lets)+

lemma typed_ttwu_queue [types]: "\<lbrakk>env_types env; typed a\<rbrakk> \<Longrightarrow> typed (ttwu_queue env p c a)"
  unfolding ttwu_queue_def by (assumption | rule types | rule typed_lets)+

lemma typed_try_to_wake_up [types]:
  assumes env: "env_types env" and a: "typed a"
  shows "typed (snd (try_to_wake_up env p st fl a))"
proof -
  let ?b = "upd_task p (\<lambda>t. t\<lparr>state := TASK_WAKING\<rparr>) (upd_task p (\<lambda>t. t\<lparr>sched_contributes_to_load :=
      task_contributes_to_load (wait_on_cpu p a) p\<rparr>) (wait_on_cpu p a))"
  have b: "typed (class_task_waking env p ?b)" by (intro types env a)
  show ?thesis
    using typed_ttwu_remote [OF env a, of p fl] typed_select_task_rq [OF env b, of p SD_BALANCE_WAKE fl] a env
    by (auto simp: try_to_wake_up_def Let_def case_prod_unfold ttwu_remote_def split: if_splits intro!: types)
qed

lemma typed_try_to_wake_up_local [types]: "\<lbrakk>env_types env; typed a\<rbrakk> \<Longrightarrow> typed (try_to_wake_up_local env p a)"
  unfolding try_to_wake_up_local_def by (assumption | rule types | rule typed_lets)+

lemma typed_finish_task_switch [types]: "typed a \<Longrightarrow> typed (finish_task_switch env c p a)"
  unfolding finish_task_switch_def by (assumption | rule types | rule typed_lets)+

lemma typed_context_switch [types]: "typed a \<Longrightarrow> typed (context_switch env c p q a)"
  unfolding context_switch_def by (assumption | rule types | rule typed_lets)+

lemma typed_deactivate_prev [types]: "\<lbrakk>env_types env; typed a\<rbrakk> \<Longrightarrow> typed (deactivate_prev env c p a)"
  unfolding deactivate_prev_def by (assumption | rule types | rule typed_lets)+

lemma typed_schedule_once [types]: "\<lbrakk>env_types env; typed a\<rbrakk> \<Longrightarrow> typed (schedule_once env c a)"
  unfolding schedule_once_def by (assumption | rule types | rule typed_lets)+

lemma typed_scheduler_tick [types]: "\<lbrakk>env_types env; typed a\<rbrakk> \<Longrightarrow> typed (scheduler_tick env a)"
  unfolding scheduler_tick_def by (assumption | rule types | rule typed_lets)+

lemma typed_yield_step [types]: "\<lbrakk>env_types env; typed a\<rbrakk> \<Longrightarrow> typed (yield_step env a)"
  unfolding yield_step_def by (assumption | rule types | rule typed_lets)+

lemma typed_migrate_task [types]: "\<lbrakk>env_types env; typed a\<rbrakk> \<Longrightarrow> typed (snd (migrate_task env p s d a))"
  unfolding migrate_task_def by (assumption | rule types | rule typed_lets)+

lemma typed_migration_cpu_stop [types]: "\<lbrakk>env_types env; typed a\<rbrakk> \<Longrightarrow> typed (migration_cpu_stop env c p d a)"
  unfolding migration_cpu_stop_def by (assumption | rule types | rule typed_lets)+

lemma typed_set_cpus_allowed_ptr [types]: "\<lbrakk>env_types env; typed a\<rbrakk> \<Longrightarrow> typed (snd (set_cpus_allowed_ptr env p m a))"
  unfolding set_cpus_allowed_ptr_def by (assumption | rule types | rule typed_lets)+

lemma typed_sched_exec [types]: "\<lbrakk>env_types env; typed a\<rbrakk> \<Longrightarrow> typed (sched_exec env a)"
  unfolding sched_exec_def by (assumption | rule types | rule typed_lets)+

lemma typed_set_rq_online [types]: "\<lbrakk>env_types env; typed a\<rbrakk> \<Longrightarrow> typed (set_rq_online env c a)"
  unfolding set_rq_online_def by (assumption | rule types | rule typed_lets)+

lemma typed_set_rq_offline [types]: "\<lbrakk>env_types env; typed a\<rbrakk> \<Longrightarrow> typed (set_rq_offline env c a)"
  unfolding set_rq_offline_def by (assumption | rule types | rule typed_lets)+

lemma typed_sched_move_task [types]: "\<lbrakk>env_types env; typed a\<rbrakk> \<Longrightarrow> typed (sched_move_task env p g a)"
  unfolding sched_move_task_def by (assumption | rule types | rule typed_lets)+

lemma typed_wake_up_new_task [types]: "\<lbrakk>env_types env; typed a\<rbrakk> \<Longrightarrow> typed (wake_up_new_task env p a)"
  unfolding wake_up_new_task_def by (assumption | rule types | rule typed_lets)+


section \<open>Operations that set parameters\<close>

lemma well_typed_normal:
  assumes "well_typed (tasks a p)"
  shows "0 \<le> calc_normal_prio a p \<and> calc_normal_prio a p < MAX_PRIO"
  using assms by (auto simp: well_typed_def calc_normal_prio_def task_has_rt_policy_def prio_defs)

lemma typed_effective_prio:
  assumes a: "typed a"
  shows "typed (upd_task p (\<lambda>t. t\<lparr>prio := fst (effective_prio p a)\<rparr>) (snd (effective_prio p a)))"
proof -
  note t = typedD [OF a, of p] and n = well_typed_normal [OF typedD [OF a, of p]]
  have "well_typed ((tasks (snd (effective_prio p a)) p)\<lparr>prio := fst (effective_prio p a)\<rparr>)"
    using t n by (auto simp: effective_prio_def Let_def well_typed_def rt_prio_def)
  moreover have "typed (snd (effective_prio p a))"
    using a n t by (auto simp: effective_prio_def Let_def typed_def well_typed_def)
  ultimately show ?thesis by (intro typed_upd_task) auto
qed

lemma typed_static:
  assumes "typed a" "-20 \<le> n" "n \<le> 19"
  shows "typed (upd_task p (\<lambda>t. t\<lparr>static_prio := NICE_TO_PRIO n\<rparr>) a)"
  using assms(2,3) typedD [OF assms(1), of p]
  by (intro typed_upd_task [OF assms(1)]) (simp add: well_typed_def NICE_TO_PRIO_def prio_defs)

lemma typed_set_user_nice:
  assumes env: "env_types env" and a: "typed a"
  shows "typed (set_user_nice env p n a)"
proof (cases "TASK_NICE a p = n \<or> n < -20 \<or> 19 < n")
  case False
  let ?b = "if on_rq (tasks a p) then dequeue_task env (task_cpu (tasks a p)) p 0 a else a"
  let ?c = "set_load_weight p (upd_task p (\<lambda>t. t\<lparr>static_prio := NICE_TO_PRIO n\<rparr>) ?b)"
  let ?d = "upd_task p (\<lambda>t. t\<lparr>prio := fst (effective_prio p ?c)\<rparr>) (snd (effective_prio p ?c))"
  have b: "typed ?b" by (intro types env a)
  have "typed ?c" using False by (intro typed_set_load_weight typed_static b) auto
  then have d: "typed ?d" by (rule typed_effective_prio)
  have s: "typed (upd_task p (\<lambda>t. t\<lparr>static_prio := NICE_TO_PRIO n\<rparr>) a)"
    using False by (intro typed_static a) auto
  show ?thesis unfolding set_user_nice_def Let_def case_prod_unfold
    by (rule a s d env | rule types)+
qed (simp add: set_user_nice_def a)

lemma typed_setscheduler:
  assumes a: "typed a" and pol: "valid_policy pol" "rt_policy pol \<longleftrightarrow> pr \<noteq> 0" "0 \<le> pr" "pr < MAX_RT_PRIO"
    and sys: "sys_types env sys"
  shows "typed (setscheduler sys c p pol pr a)"
proof -
  let ?b = "upd_task p (\<lambda>t. t\<lparr>rt_priority := pr\<rparr>) (upd_task p (\<lambda>t. t\<lparr>policy := pol\<rparr>) a)"
  let ?d = "upd_task p (\<lambda>t. t\<lparr>normal_prio := calc_normal_prio ?b p\<rparr>) ?b"
  have n: "0 \<le> calc_normal_prio ?b p \<and> calc_normal_prio ?b p < MAX_PRIO"
    using typedD [OF a, of p] pol(3,4)
    by (simp add: calc_normal_prio_def task_has_rt_policy_def well_typed_def prio_defs)
  then have g: "0 \<le> rt_mutex_getprio sys ?d p \<and> rt_mutex_getprio sys ?d p < MAX_PRIO"
    using sys unfolding sys_types_def by simp
  have "typed (upd_task p (\<lambda>t. t\<lparr>class_of := (if pol = SCHED_WRR then wrr_sched_class
                 else if rt_prio (prio t) then rt_sched_class else fair_sched_class)\<rparr>)
            (upd_task p (\<lambda>t. t\<lparr>prio := rt_mutex_getprio sys ?d p\<rparr>) ?d))" (is "typed ?e")
  proof -
    have f: "policy (tasks ?e p) = pol" "rt_priority (tasks ?e p) = pr" "static_prio (tasks ?e p) = static_prio (tasks a p)"
      "normal_prio (tasks ?e p) = calc_normal_prio ?b p" "prio (tasks ?e p) = rt_mutex_getprio sys ?d p"
      "class_of (tasks ?e p) = (if pol = SCHED_WRR then wrr_sched_class
          else if rt_prio (rt_mutex_getprio sys ?d p) then rt_sched_class else fair_sched_class)" by simp_all
    have "well_typed (tasks ?e p)" unfolding well_typed_def f
      using typedD [OF a, of p] pol n g by (simp add: well_typed_def rt_prio_def)
    then show ?thesis by (rule typed_one_changed [OF a]) simp
  qed
  then show ?thesis unfolding setscheduler_def Let_def by (rule typed_set_load_weight)
qed

lemma typed_lend:
  assumes a: "typed a" and pr: "0 \<le> pr" "pr \<le> MAX_PRIO"
  shows "typed (upd_task p (\<lambda>t. t\<lparr>prio := pr\<rparr>) (upd_task p (\<lambda>t. t\<lparr>class_of :=
                  (if policy t = SCHED_WRR then wrr_sched_class
                   else if rt_prio pr then rt_sched_class else fair_sched_class)\<rparr>) a))" (is "typed ?b")
proof -
  have "well_typed (tasks ?b p)" using typedD [OF a, of p] pr by (simp add: well_typed_def rt_prio_def)
  then show ?thesis by (rule typed_one_changed [OF a]) simp
qed

lemma typed_rt_mutex_setprio:
  assumes env: "env_types env" and pr: "0 \<le> pr" "pr \<le> MAX_PRIO" and a: "typed a"
  shows "typed (rt_mutex_setprio env p pr a)"
  unfolding rt_mutex_setprio_def Let_def
  by (rule a env pr typed_lend | rule types)+

lemma typed_adjust_pi:
  assumes env: "env_types env" and sys: "sys_types env sys" and a: "typed a"
  shows "typed (rt_mutex_adjust_pi sys p a)"
proof -
  obtain owners where o: "\<forall>(q, pr) \<in> set owners. 0 \<le> pr \<and> pr \<le> MAX_PRIO"
    "rt_mutex_adjust_pi sys p a = fold (\<lambda>(q, pr). rt_mutex_setprio env q pr) owners a"
    using sys unfolding sys_types_def by blast
  show ?thesis unfolding o(2)
  proof (rule op_fold_in [where P = typed, OF a])
    fix x and b :: "'a kernel" assume "x \<in> set owners" "typed b"
    then show "typed ((case x of (q, pr) \<Rightarrow> rt_mutex_setprio env q pr) b)"
      using o(1) by (auto intro: typed_rt_mutex_setprio [OF env])
  qed
qed

lemma typed_change_scheduler:
  assumes env: "env_types env" and sys: "sys_types env sys" and a: "typed a"
    and pol: "valid_policy pol" "rt_policy pol \<longleftrightarrow> pr \<noteq> 0" "0 \<le> pr" "pr < MAX_RT_PRIO"
  shows "typed (change_scheduler env sys p pol pr reset a)"
  unfolding change_scheduler_def Let_def
  by (rule a env pol typed_adjust_pi [OF env sys] typed_setscheduler [OF _ _ _ _ _ sys] | rule types)+

lemma typed_sched_setscheduler_user:
  assumes env: "env_types env" and sys: "sys_types env sys" and a: "typed a"
  shows "typed (snd (sched_setscheduler_user env sys p pol pr user a))"
proof -
  let ?pol = "if pol < 0 then policy (tasks a p) else pol AND NOT SCHED_RESET_ON_FORK"
  have "typed (change_scheduler env sys p ?pol pr reset a)"
    if v: "\<not> (0 \<le> pol \<and> \<not> valid_policy ?pol)" and c: "check_sched_priority p ?pol pr a" for reset
  proof (rule typed_change_scheduler [OF env sys a])
    show "valid_policy ?pol" using v typedD [OF a, of p] by (auto simp: well_typed_def)
    show "rt_policy ?pol \<longleftrightarrow> pr \<noteq> 0" using c by (simp add: check_sched_priority_def)
    show "0 \<le> pr" "pr < MAX_RT_PRIO" using c
      by (cases "mm (tasks a p)"; simp add: check_sched_priority_def prio_defs)+
  qed
  note change = this
  have snd_if: "typed (snd (if x then r else t))" if "x \<Longrightarrow> typed (snd r)" "\<not> x \<Longrightarrow> typed (snd t)"
    for x and r t :: "int \<times> 'a kernel"
    using that by simp
  show ?thesis unfolding sched_setscheduler_user_def Let_def
    by (intro snd_if; simp only: snd_conv a not_not; rule change; assumption?; simp only: not_not)
qed

lemma typed_normalize_rt_tasks:
  assumes env: "env_types env" and sys: "sys_types env sys" and a: "typed a"
  shows "typed (normalize_rt_tasks env sys a)"
proof -
  have v: "valid_policy SCHED_NORMAL" "rt_policy SCHED_NORMAL \<longleftrightarrow> (0::int) \<noteq> 0" "(0::int) \<le> 0" "0 < MAX_RT_PRIO"
    by (simp_all add: valid_policy_def rt_policy_def policy_defs prio_defs)
  show ?thesis unfolding normalize_rt_tasks_def normalize_rt_task_def normalize_task_def
    by (rule a env v typed_set_user_nice [OF env] typed_setscheduler [OF _ v sys]
        | assumption | rule types | rule typed_lets)+
qed

definition lasting :: "task_struct \<Rightarrow> bool" where
  "lasting t \<longleftrightarrow>
     MAX_RT_PRIO \<le> static_prio t \<and> static_prio t < MAX_PRIO
     \<and> 0 \<le> rt_priority t \<and> rt_priority t < MAX_RT_PRIO
     \<and> 0 \<le> normal_prio t \<and> normal_prio t < MAX_PRIO
     \<and> valid_policy (policy t) \<and> (rt_policy (policy t) \<longleftrightarrow> rt_priority t \<noteq> 0)"

lemma well_typed_lasting_iff:
  "well_typed t \<longleftrightarrow> lasting t \<and> 0 \<le> prio t \<and> prio t \<le> MAX_PRIO
     \<and> (class_of t = rt_sched_class \<longrightarrow> prio t < MAX_RT_PRIO)"
  unfolding well_typed_def lasting_def by blast

lemma well_typed_lasting: "well_typed t \<Longrightarrow> lasting t"
  by (simp add: well_typed_lasting_iff)

lemma lasting_params: "params_of t = params_of u \<Longrightarrow> lasting t = lasting u"
  using params_of_eqD [of t u] by (simp add: lasting_def)

text \<open>
  \<open>sched_fork\<close> takes the parent's normal priority and may then reset policy and priority; the class
  agrees with them again when it has been set.
\<close>

lemma typed_fork_params:
  fixes a :: "'x kernel" and p :: tid
  assumes a: "typed a"
  defines "b \<equiv> upd_task p (\<lambda>t. t\<lparr>prio := normal_prio (tasks a (current a))\<rparr>) a"
  defines "c \<equiv> (if task_has_rt_policy b p
      then upd_task p (\<lambda>t. t\<lparr>policy := SCHED_NORMAL, static_prio := NICE_TO_PRIO 0, rt_priority := 0\<rparr>) b
      else if PRIO_TO_NICE (static_prio (tasks b p)) < 0
      then upd_task p (\<lambda>t. t\<lparr>static_prio := NICE_TO_PRIO 0\<rparr>) b else b)"
  defines "d \<equiv> (if sched_reset_on_fork (tasks b p)
      then upd_task p (\<lambda>t. t\<lparr>sched_reset_on_fork := False\<rparr>)
        (set_load_weight p (upd_task p (\<lambda>t. t\<lparr>prio := static_prio t, normal_prio := static_prio t\<rparr>) c))
      else b)"
  shows "typed (if \<not> rt_prio (prio (tasks d p))
    then upd_task p (\<lambda>t. t\<lparr>class_of := fair_sched_class\<rparr>) d else d)"
proof -
  have v: "valid_policy SCHED_NORMAL" "\<not> rt_policy SCHED_NORMAL"
    by (simp_all add: valid_policy_def rt_policy_def policy_defs)
  have z: "MAX_RT_PRIO \<le> NICE_TO_PRIO 0" "NICE_TO_PRIO 0 < MAX_PRIO" "0 < MAX_RT_PRIO"
    by (simp_all add: NICE_TO_PRIO_def prio_defs)
  have "lasting (tasks a p)" "lasting (tasks a (current a))"
    using typedD [OF a] well_typed_lasting by blast+
  moreover have b: "tasks b p = (tasks a p)\<lparr>prio := normal_prio (tasks a (current a))\<rparr>" by (simp add: b_def)
  ultimately have lb: "lasting (tasks b p)" "0 \<le> prio (tasks b p)" "prio (tasks b p) < MAX_PRIO"
    by (simp_all add: lasting_def)
  have lc: "lasting (tasks c p)" using lb(1) v z by (simp add: c_def lasting_def)
  let ?t = "(tasks c p)\<lparr>prio := static_prio (tasks c p), normal_prio := static_prio (tasks c p),
                   sched_reset_on_fork := False\<rparr>"
  have t: "lasting ?t" "0 \<le> prio ?t" "prio ?t < MAX_PRIO"
    using lc z(3) by (simp_all add: lasting_def)
  have dp: "params_of (tasks d p) = params_of ((if sched_reset_on_fork (tasks b p) then ?t else tasks b p))"
    by (simp add: d_def set_load_weight_def Let_def params_of_def)
  have ld: "lasting (tasks d p)" "0 \<le> prio (tasks d p)" "prio (tasks d p) < MAX_PRIO"
    using params_of_eqD [OF dp] lb t lasting_params [OF dp] by (auto split: if_splits)
  have ob: "tasks b q = tasks a q" if "q \<noteq> p" for q using that by (simp add: b_def)
  have oc: "tasks c q = tasks a q" if "q \<noteq> p" for q using that ob by (simp add: c_def)
  have os: "tasks (set_load_weight p k) q = tasks k q" if "q \<noteq> p" for q and k :: "'x kernel"
    using that by (simp add: set_load_weight_def Let_def)
  have od: "tasks d q = tasks a q" if "q \<noteq> p" for q using that ob oc os by (simp add: d_def)
  show ?thesis
  proof (cases "rt_prio (prio (tasks d p))")
    case True
    then have "well_typed (tasks d p)" using ld by (simp add: well_typed_lasting_iff rt_prio_def)
    then have "typed d" using od by (rule typed_one_changed [OF a])
    then show ?thesis using True by simp
  next
    case False
    have "well_typed ((tasks d p)\<lparr>class_of := fair_sched_class\<rparr>)"
      using ld by (simp add: well_typed_lasting_iff lasting_def)
    then have "typed (upd_task p (\<lambda>t. t\<lparr>class_of := fair_sched_class\<rparr>) d)"
      using od by (intro typed_one_changed [OF a, of _ p]) simp_all
    then show ?thesis using False by simp
  qed
qed

lemma typed_sched_fork:
  assumes env: "env_types env" and a: "typed a"
  shows "typed (sched_fork env p a)"
proof -
  let ?a = "upd_task p (\<lambda>t. t\<lparr>state := TASK_RUNNING\<rparr>) (sched_fork_init p a)"
  have b: "typed ?a" unfolding sched_fork_init_def Let_def by (rule a | rule types)+
  show ?thesis unfolding sched_fork_def Let_def
    by (rule typed_fork_params [OF b] env | rule types)+
qed

lemma typed_migrate_loop:
  assumes "migrate_loop env c a = Some b" "env_types env" "typed a"
  shows "typed b"
proof -
  have "env_types env \<longrightarrow> typed a \<longrightarrow> typed b"
  proof (rule migrate_loop.raw_induct [where P = "\<lambda>env c a b. env_types env \<longrightarrow> typed a \<longrightarrow> typed b",
        OF _ assms(1)], intro impI)
    fix loop and env :: "'a env" and c a b
    assume IH: "\<And>env c a b. loop env c a = Some b \<Longrightarrow> env_types env \<longrightarrow> typed a \<longrightarrow> typed b"
      and b: "(if nr_running (rqs a c) = 1 then Some a
        else case pick_next_task env c a of
             (None, k) \<Rightarrow> Some (BUG_ON True k)
           | (Some p, k) \<Rightarrow>
               let k = class_put_prev_task env c p k in
               (case select_fallback_rq env c p k of
                  (None, k) \<Rightarrow> Some k
                | (Some d, k) \<Rightarrow> loop env c (snd (migrate_task env p c d k)))) = Some b"
      and env: "env_types env" and a: "typed a"
    obtain m k where mk: "pick_next_task env c a = (m, k)" by (cases "pick_next_task env c a")
    have k: "typed k" using typed_pick_next_task [OF env a, of c] mk by simp
    show "typed b"
    proof (cases m)
      case None
      then show ?thesis using b a mk typed_BUG_ON [OF k] by (auto split: if_splits)
    next
      case (Some p)
      obtain d k' where dk: "select_fallback_rq env c p (class_put_prev_task env c p k) = (d, k')"
        by (cases "select_fallback_rq env c p (class_put_prev_task env c p k)")
      have k': "typed k'"
        using typed_select_fallback_rq [OF env typed_class_put_prev_task [OF env k], of c p c p] dk by simp
      show ?thesis
        using b a mk Some dk k' IH [of env c _ b] env typed_migrate_task [OF env k']
        by (auto simp: Let_def split: if_splits option.splits)
    qed
  qed
  then show ?thesis using assms by blast
qed

lemma typed_migration_call:
  assumes "migration_call env act c a = Some (r, b)" "env_types env" "typed a"
  shows "typed b"
proof (cases act)
  case CPU_DYING
  let ?b = "set_rq_offline env c (BUG_ON (\<not> rd_span (sched_ttwu_pending env c a) c) (sched_ttwu_pending env c a))"
  obtain d where d: "migrate_tasks env c ?b = Some d" using CPU_DYING assms(1)
    by (auto simp: migration_call_def Let_def split: option.splits)
  have "typed (upd_rq c (\<lambda>r. r\<lparr>stop := None\<rparr>) ?b)" by (intro types assms)
  then have d': "typed d" using d typed_migrate_loop [OF _ assms(2)]
    by (auto simp: migrate_tasks_def Let_def intro!: types split: option.splits)
  have "typed (calc_global_load_remove c (migrate_nr_uninterruptible env c (BUG_ON (nr_running (rqs d c) \<noteq> 1) d)))"
    by (intro types d')
  then show ?thesis using CPU_DYING assms(1) d by (simp add: migration_call_def Let_def)
next
  case CPU_ONLINE
  then show ?thesis using assms by (auto simp: migration_call_def intro!: types)
next
  case CPU_UP_PREPARE
  then show ?thesis using assms by (auto simp: migration_call_def intro!: types)
qed (use assms in \<open>simp_all add: migration_call_def\<close>)

section \<open>Every run is well typed\<close>

lemma core_step_typed:
  assumes "core_step env sys k k'" "env_types env" "sys_types env sys" "typed k"
  shows "typed k'"
  using assms(1)
proof cases
  case (hotplug act c r)
  then show ?thesis using typed_migration_call assms by blast
next
  case (fall_asleep s)
  then show ?thesis using typed_task_fields(4) [OF assms(4), of _ "\<lambda>_. s"] by simp
qed (simp_all add: assms typed_same [OF assms(4)] typed_try_to_wake_up typed_sched_ttwu_pending typed_sched_fork
    typed_wake_up_new_task typed_task_fields typed_schedule_once typed_scheduler_tick typed_yield_step
    typed_do_sched_rt_period_timer typed_rt_mutex_setprio typed_set_user_nice typed_sched_setscheduler_user [where env = env]
    typed_normalize_rt_tasks [where env = env] typed_sched_move_task typed_set_cpus_allowed_ptr typed_migration_cpu_stop
    typed_sched_exec)

text \<open>
  C22. In every run of the core, whatever is asked of it, the parameters of every task stay in
  their ranges: the static priority is one of the 40 nice levels, so the tables of weights are
  indexed within bounds, a task of the RT class has one of the 100 RT priorities, so the
  priority array is indexed within bounds, and a task has an RT priority exactly if its
  policy is \<open>SCHED_FIFO\<close> or \<open>SCHED_RR\<close>.
\<close>

theorem task_parameters_typed:
  assumes "(core_step env sys)\<^sup>*\<^sup>* k k'" "env_types env" "sys_types env sys" "typed k"
  shows "nat (static_prio (tasks k' p) - MAX_RT_PRIO) < length prio_to_weight
    \<and> nat (static_prio (tasks k' p) - MAX_RT_PRIO) < length prio_to_wmult
    \<and> 0 \<le> prio (tasks k' p) \<and> prio (tasks k' p) \<le> MAX_PRIO
    \<and> (class_of (tasks k' p) \<noteq> rt_sched_class \<or> prio (tasks k' p) < MAX_RT_PRIO)
    \<and> valid_policy (policy (tasks k' p))
    \<and> (rt_policy (policy (tasks k' p)) \<longleftrightarrow> rt_priority (tasks k' p) \<noteq> 0)
    \<and> 0 \<le> rt_priority (tasks k' p) \<and> rt_priority (tasks k' p) < MAX_RT_PRIO"
proof -
  have "typed k'" using assms(1,4) by (induction) (auto intro: core_step_typed assms(2,3))
  then show ?thesis using typedD [of k' p]
    by (auto simp: well_typed_def prio_defs prio_to_weight_def prio_to_wmult_def)
qed

text \<open>In the example, task 2 is given the policy \<open>SCHED_FIFO\<close> with priority 50, and then started.\<close>

lemma env_c_types: "env_types env_c"
proof -
  have "keep k (inc_nr_running c k)" "keep k (dec_nr_running c k)" for c and k :: "unit kernel"
    by (rule keeps keep_refl)+
  moreover have "\<exists>m. t = t\<lparr>cpus_allowed := m\<rparr>" for t :: task_struct
    by (rule exI [of _ "cpus_allowed t"]) simp
  ultimately show ?thesis
    by (simp add: env_types_def env_ok_def ops_ok_def env_c_def counting_ops_def env0_def ops0_def keep_refl)
qed

lemma sys_c_types: "sys_types env_c sys_c"
  unfolding sys_types_def by (auto simp: sys_c_def prio_defs intro!: exI [of _ "[]"])

lemma k_c_typed: "typed k_c"
  by (simp add: typed_def well_typed_def k_c_def k0_def task0_def prio_defs valid_policy_def rt_policy_def
      policy_defs)

theorem task_parameters_typed_witness:
  "let k = snd (sched_setscheduler_user env_c sys_c 2 SCHED_FIFO 50 False k_c)
   in 0 \<le> prio (tasks k 2) \<and> prio (tasks k 2) \<le> MAX_PRIO
      \<and> (rt_policy (policy (tasks k 2)) \<longleftrightarrow> rt_priority (tasks k 2) \<noteq> 0)
      \<and> rt_priority (tasks k 2) < MAX_RT_PRIO"
proof -
  let ?k = "snd (sched_setscheduler_user env_c sys_c 2 SCHED_FIFO 50 False k_c)"
  have "core_step env_c sys_c k_c ?k" by (rule core_step.setsched)
  then have "(core_step env_c sys_c)\<^sup>*\<^sup>* k_c ?k" by (rule r_into_rtranclp)
  then show ?thesis
    using task_parameters_typed [OF _ env_c_types sys_c_types k_c_typed, of ?k 2] by (simp add: Let_def)
qed

end
