(* ===== verification/Sched_Preempt.thy ===== *)
theory Sched_Preempt
  imports Sched_Hotplug
begin

text \<open>
  The ways into \<open>__schedule\<close> (\<open>core.c\<close>): \<open>schedule\<close>, kernel preemption, \<open>cond_resched\<close> and its
  relatives, \<open>io_schedule\<close>, \<open>yield_to\<close>, with the preemption count of the tasks and the interrupts of
  the cpus.

  A call of \<open>__schedule\<close> begins in the task that runs and ends in that task when it runs again,
  maybe on another cpu. So each entry point is two definitions: what it does up to
  the switch, and what it does after it. \<open>inside\<close> remembers for every task which call
  it is in, as its stack does.
\<close>

section \<open>The preemption count\<close>

text \<open>
  Constants of \<open>linux/hardirq.h\<close> and of the architecture. \<open>PREEMPT_CHECK_OFFSET\<close> is 1 with
  \<open>CONFIG_PREEMPT\<close>.
\<close>

definition PREEMPT_ACTIVE :: u32 where "PREEMPT_ACTIVE = 0x40000000"
definition PREEMPT_MASK :: u32 where "PREEMPT_MASK = 0xff"
definition SOFTIRQ_MASK :: u32 where "SOFTIRQ_MASK = 0xff00"
definition SOFTIRQ_DISABLE_OFFSET :: u32 where "SOFTIRQ_DISABLE_OFFSET = 0x200"
definition PREEMPT_CHECK_OFFSET :: u32 where "PREEMPT_CHECK_OFFSET = 1"

lemmas preempt_defs = PREEMPT_ACTIVE_def PREEMPT_MASK_def SOFTIRQ_MASK_def SOFTIRQ_DISABLE_OFFSET_def
  PREEMPT_CHECK_OFFSET_def

text \<open>
  What the entry points use of the configuration and of the code outside the repository: the block
  layer, the state of exiting tasks, and the \<open>yield_to_task\<close> of the classes outside the
  repository.
\<close>

record 'x pcfg =
  debug_preempt :: bool           \<comment> \<open>\<open>CONFIG_DEBUG_PREEMPT\<close>\<close>
  oops_in_progress :: bool
  tsk_is_pi_blocked :: "tid \<Rightarrow> 'x kernel \<Rightarrow> bool"
  blk_needs_flush_plug :: "tid \<Rightarrow> 'x kernel \<Rightarrow> bool"
  blk_schedule_flush_plug :: "tid \<Rightarrow> 'x \<Rightarrow> 'x"
  blk_flush_plug :: "tid \<Rightarrow> 'x \<Rightarrow> 'x"
  exit_state :: "tid \<Rightarrow> 'x kernel \<Rightarrow> u32"
  yield_to_ext :: "sched_class \<Rightarrow> (cpu \<Rightarrow> tid \<Rightarrow> bool \<Rightarrow> 'x kernel \<Rightarrow> bool \<times> 'x kernel) option"

text \<open>\<open>preempt_count()\<close> is a C \<open>int\<close>, read here as a word of 32 bits.\<close>

definition pcount :: "'x kernel \<Rightarrow> tid \<Rightarrow> u32" where
  "pcount k p = word_of_nat (preempt_count (tasks k p))"

definition set_pcount :: "tid \<Rightarrow> u32 \<Rightarrow> 'x kernel \<Rightarrow> 'x kernel" where
  "set_pcount p v = upd_task p (\<lambda>t. t\<lparr>preempt_count := unat v\<rparr>)"

text \<open>\<open>DEBUG_LOCKS_WARN_ON\<close> is false during an oops.\<close>

definition warn_on :: "'x pcfg \<Rightarrow> bool \<Rightarrow> bool" where
  "warn_on cfg b \<longleftrightarrow> debug_preempt cfg \<and> \<not> oops_in_progress cfg \<and> b"

definition add_preempt_count :: "'x pcfg \<Rightarrow> u32 \<Rightarrow> tid \<Rightarrow> 'x kernel \<Rightarrow> 'x kernel" where
  "add_preempt_count cfg val p k =
     (if warn_on cfg (sint (pcount k p) < 0) then k else set_pcount p (pcount k p + val) k)"

definition sub_preempt_count :: "'x pcfg \<Rightarrow> u32 \<Rightarrow> tid \<Rightarrow> 'x kernel \<Rightarrow> 'x kernel" where
  "sub_preempt_count cfg val p k =
     (if warn_on cfg (sint (pcount k p) < sint val) then k
      else if warn_on cfg (val < PREEMPT_MASK \<and> pcount k p AND PREEMPT_MASK = 0) then k
      else set_pcount p (pcount k p - val) k)"

definition in_atomic_preempt_off :: "'x kernel \<Rightarrow> tid \<Rightarrow> bool" where
  "in_atomic_preempt_off k p \<longleftrightarrow> pcount k p AND NOT PREEMPT_ACTIVE \<noteq> PREEMPT_CHECK_OFFSET"

definition in_softirq :: "'x kernel \<Rightarrow> tid \<Rightarrow> bool" where
  "in_softirq k p \<longleftrightarrow> pcount k p AND SOFTIRQ_MASK \<noteq> 0"

definition should_resched :: "'x kernel \<Rightarrow> tid \<Rightarrow> bool" where
  "should_resched k p \<longleftrightarrow> need_resched (tasks k p) \<and> pcount k p AND PREEMPT_ACTIVE = 0"

section \<open>The state\<close>

text \<open>
  Who called \<open>__schedule\<close>. \<open>By_unlock\<close> and \<open>By_bh_enable\<close> are the calls of \<open>preempt_schedule\<close>
  that \<open>spin_unlock\<close> and \<open>local_bh_enable\<close> make inside \<open>__cond_resched_lock\<close> and
  \<open>__cond_resched_softirq\<close>; \<open>By_io c\<close> is \<open>io_schedule\<close> called on cpu \<open>c\<close>.
\<close>

datatype caller = By_schedule | By_preempt_disabled | By_io cpu
  | By_preempt | By_preempt_irq | By_cond | By_unlock | By_cond_lock | By_bh_enable | By_cond_softirq

text \<open>\<open>Switching\<close>: in \<open>__schedule\<close>; \<open>Back\<close>: it has returned to the caller.\<close>

datatype phase = Switching | Back

record 'x pstate =
  kern :: "'x kernel"
  irqs_disabled :: "cpu \<Rightarrow> bool"
  inside :: "tid \<Rightarrow> (caller \<times> phase) option"
  atomic_bugs :: nat        \<comment> \<open>reports of "scheduling while atomic"\<close>

definition on_kern :: "('x kernel \<Rightarrow> 'x kernel) \<Rightarrow> 'x pstate \<Rightarrow> 'x pstate" where
  "on_kern f s = s\<lparr>kern := f (kern s)\<rparr>"

definition set_irqs :: "cpu \<Rightarrow> bool \<Rightarrow> 'x pstate \<Rightarrow> 'x pstate" where
  "set_irqs c b s = s\<lparr>irqs_disabled := (irqs_disabled s)(c := b)\<rparr>"

definition set_inside :: "tid \<Rightarrow> (caller \<times> phase) option \<Rightarrow> 'x pstate \<Rightarrow> 'x pstate" where
  "set_inside p x s = s\<lparr>inside := (inside s)(p := x)\<rparr>"

section \<open>The body of \<open>__schedule\<close>\<close>

definition schedule_debug :: "'x pcfg \<Rightarrow> tid \<Rightarrow> 'x pstate \<Rightarrow> 'x pstate" where
  "schedule_debug cfg prev s =
     (if in_atomic_preempt_off (kern s) prev \<and> exit_state cfg prev (kern s) = 0
      then (if oops_in_progress cfg then s else s\<lparr>atomic_bugs := atomic_bugs s + 1\<rparr>)
      else s)"

text \<open>
  From \<open>need_resched:\<close> to the release of the runqueue's lock by the task that runs then. The lock is
  taken and released with interrupts off and counts once in the preemption count of its holder.
\<close>

definition schedule_turn :: "'x env \<Rightarrow> 'x pcfg \<Rightarrow> cpu \<Rightarrow> 'x pstate \<Rightarrow> 'x pstate" where
  "schedule_turn env cfg c s =
     (let prev = curr_of (kern s) c;
          s = on_kern (add_preempt_count cfg 1 prev) s;
          s = schedule_debug cfg prev s;
          s = on_kern (add_preempt_count cfg 1 prev) (set_irqs c True s);
          s = on_kern (schedule_once env c) s
      in set_irqs c False (on_kern (sub_preempt_count cfg 1 (curr_of (kern s) c)) s))"

definition call_schedule :: "'x env \<Rightarrow> 'x pcfg \<Rightarrow> caller \<Rightarrow> cpu \<Rightarrow> 'x pstate \<Rightarrow> 'x pstate" where
  "call_schedule env cfg e c s =
     schedule_turn env cfg c (set_inside (curr_of (kern s) c) (Some (e, Switching)) s)"

text \<open>
  The end of \<open>__schedule\<close>: \<open>sched_preempt_enable_no_resched\<close> and the test that repeats it. A
  task that runs for the first time is not inside a call: it starts in \<open>schedule_tail\<close>.
\<close>

definition schedule_end :: "'x env \<Rightarrow> 'x pcfg \<Rightarrow> cpu \<Rightarrow> 'x pstate \<Rightarrow> 'x pstate" where
  "schedule_end env cfg c s =
     (let p = curr_of (kern s) c in
      case inside s p of
        Some (e, Switching) \<Rightarrow>
          let s = on_kern (sub_preempt_count cfg 1 p) s in
          if need_resched (tasks (kern s) p) then schedule_turn env cfg c s
          else set_inside p (Some (e, Back)) s
      | _ \<Rightarrow> s)"

section \<open>Going to sleep\<close>

definition sched_submit_work :: "'x pcfg \<Rightarrow> tid \<Rightarrow> 'x kernel \<Rightarrow> 'x kernel" where
  "sched_submit_work cfg p k =
     (if state (tasks k p) = 0 \<or> tsk_is_pi_blocked cfg p k then k
      else if blk_needs_flush_plug cfg p k then ext_state_update (blk_schedule_flush_plug cfg p) k
      else k)"

definition schedule_call :: "'x env \<Rightarrow> 'x pcfg \<Rightarrow> caller \<Rightarrow> cpu \<Rightarrow> 'x pstate \<Rightarrow> 'x pstate" where
  "schedule_call env cfg e c s =
     call_schedule env cfg e c (on_kern (sched_submit_work cfg (curr_of (kern s) c)) s)"

definition schedule_preempt_disabled :: "'x env \<Rightarrow> 'x pcfg \<Rightarrow> cpu \<Rightarrow> 'x pstate \<Rightarrow> 'x pstate" where
  "schedule_preempt_disabled env cfg c s =
     schedule_call env cfg By_preempt_disabled c
       (on_kern (sub_preempt_count cfg 1 (curr_of (kern s) c)) s)"

definition schedule_preempt_disabled_end :: "'x pcfg \<Rightarrow> tid \<Rightarrow> 'x pstate \<Rightarrow> 'x pstate" where
  "schedule_preempt_disabled_end cfg p s = set_inside p None (on_kern (add_preempt_count cfg 1 p) s)"

definition io_schedule :: "'x env \<Rightarrow> 'x pcfg \<Rightarrow> cpu \<Rightarrow> 'x pstate \<Rightarrow> 'x pstate" where
  "io_schedule env cfg c s =
     (let p = curr_of (kern s) c;
          s = on_kern (upd_rq c (\<lambda>r. r\<lparr>nr_iowait := nr_iowait r + 1\<rparr>)) s;
          s = on_kern (ext_state_update (blk_flush_plug cfg p)) s;
          s = on_kern (upd_task p (\<lambda>t. t\<lparr>in_iowait := True\<rparr>)) s
      in schedule_call env cfg (By_io c) c s)"

text \<open>The end of \<open>io_schedule\<close> counts down on the runqueue it counted up, wherever the task is now.\<close>

definition io_schedule_end :: "cpu \<Rightarrow> tid \<Rightarrow> 'x pstate \<Rightarrow> 'x pstate" where
  "io_schedule_end c0 p s =
     (let s = on_kern (upd_task p (\<lambda>t. t\<lparr>in_iowait := False\<rparr>)) s;
          s = on_kern (upd_rq c0 (\<lambda>r. r\<lparr>nr_iowait := nr_iowait r - 1\<rparr>)) s
      in set_inside p None s)"

section \<open>Kernel preemption\<close>

definition preempt_schedule_by :: "'x env \<Rightarrow> 'x pcfg \<Rightarrow> caller \<Rightarrow> cpu \<Rightarrow> 'x pstate \<Rightarrow> 'x pstate" where
  "preempt_schedule_by env cfg e c s =
     (let p = curr_of (kern s) c in
      if pcount (kern s) p \<noteq> 0 \<or> irqs_disabled s c then s
      else call_schedule env cfg e c (on_kern (set_pcount p (pcount (kern s) p + PREEMPT_ACTIVE)) s))"

definition preempt_schedule :: "'x env \<Rightarrow> 'x pcfg \<Rightarrow> cpu \<Rightarrow> 'x pstate \<Rightarrow> 'x pstate" where
  "preempt_schedule env cfg = preempt_schedule_by env cfg By_preempt"

text \<open>\<open>sub_preempt_count_notrace\<close> and the test of the loop; \<open>rest\<close> is what follows the loop.\<close>

definition preempt_schedule_end ::
  "'x env \<Rightarrow> 'x pcfg \<Rightarrow> caller \<Rightarrow> ('x pstate \<Rightarrow> 'x pstate) \<Rightarrow> cpu \<Rightarrow> tid \<Rightarrow> 'x pstate \<Rightarrow> 'x pstate" where
  "preempt_schedule_end env cfg e rest c p s =
     (let s = on_kern (\<lambda>k. set_pcount p (pcount k p - PREEMPT_ACTIVE) k) s in
      if need_resched (tasks (kern s) p)
      then call_schedule env cfg e c (on_kern (\<lambda>k. set_pcount p (pcount k p + PREEMPT_ACTIVE) k) s)
      else rest (set_inside p None s))"

definition preempt_schedule_irq :: "'x env \<Rightarrow> 'x pcfg \<Rightarrow> cpu \<Rightarrow> 'x pstate \<Rightarrow> 'x pstate" where
  "preempt_schedule_irq env cfg c s =
     (let p = curr_of (kern s) c;
          s = on_kern (BUG_ON (pcount (kern s) p \<noteq> 0 \<or> \<not> irqs_disabled s c)) s;
          s = on_kern (add_preempt_count cfg PREEMPT_ACTIVE p) s
      in call_schedule env cfg By_preempt_irq c (set_irqs c False s))"

definition preempt_schedule_irq_end :: "'x env \<Rightarrow> 'x pcfg \<Rightarrow> cpu \<Rightarrow> tid \<Rightarrow> 'x pstate \<Rightarrow> 'x pstate" where
  "preempt_schedule_irq_end env cfg c p s =
     (let s = on_kern (sub_preempt_count cfg PREEMPT_ACTIVE p) (set_irqs c True s) in
      if need_resched (tasks (kern s) p)
      then call_schedule env cfg By_preempt_irq c
             (set_irqs c False (on_kern (add_preempt_count cfg PREEMPT_ACTIVE p) s))
      else set_inside p None s)"

text \<open>
  \<open>preempt_enable\<close>, and with it \<open>spin_unlock\<close>: the count goes down, and a task that is to be
  rescheduled calls \<open>preempt_schedule\<close>.
\<close>

definition preempt_enable_by :: "'x env \<Rightarrow> 'x pcfg \<Rightarrow> caller \<Rightarrow> u32 \<Rightarrow> cpu \<Rightarrow> 'x pstate \<Rightarrow> 'x pstate" where
  "preempt_enable_by env cfg e val c s =
     (let p = curr_of (kern s) c;
          s = on_kern (sub_preempt_count cfg val p) s
      in if need_resched (tasks (kern s) p) then preempt_schedule_by env cfg e c s else s)"

definition preempt_disable :: "'x pcfg \<Rightarrow> cpu \<Rightarrow> 'x pstate \<Rightarrow> 'x pstate" where
  "preempt_disable cfg c s = on_kern (add_preempt_count cfg 1 (curr_of (kern s) c)) s"

section \<open>Voluntary preemption\<close>

definition cond_resched_by :: "'x env \<Rightarrow> 'x pcfg \<Rightarrow> caller \<Rightarrow> cpu \<Rightarrow> 'x pstate \<Rightarrow> 'x pstate" where
  "cond_resched_by env cfg e c s =
     call_schedule env cfg e c (on_kern (add_preempt_count cfg PREEMPT_ACTIVE (curr_of (kern s) c)) s)"

definition cond_resched :: "'x env \<Rightarrow> 'x pcfg \<Rightarrow> cpu \<Rightarrow> 'x pstate \<Rightarrow> bool \<times> 'x pstate" where
  "cond_resched env cfg c s =
     (if should_resched (kern s) (curr_of (kern s) c) then (True, cond_resched_by env cfg By_cond c s)
      else (False, s))"

definition cond_resched_end :: "'x pcfg \<Rightarrow> tid \<Rightarrow> 'x pstate \<Rightarrow> 'x pstate" where
  "cond_resched_end cfg p s = set_inside p None (on_kern (sub_preempt_count cfg PREEMPT_ACTIVE p) s)"

text \<open>
  \<open>__cond_resched_lock\<close>, whose lock is held and counts once; \<open>contended\<close> is \<open>spin_needbreak\<close>. If
  \<open>spin_unlock\<close> has called \<open>preempt_schedule\<close>, \<open>__cond_resched\<close> follows when that has returned.
\<close>

definition cond_resched_lock :: "'x env \<Rightarrow> 'x pcfg \<Rightarrow> bool \<Rightarrow> cpu \<Rightarrow> 'x pstate \<Rightarrow> bool \<times> 'x pstate" where
  "cond_resched_lock env cfg contended c s =
     (let p = curr_of (kern s) c; resched = should_resched (kern s) p in
      if contended \<or> resched then
        if resched then
          let s' = preempt_enable_by env cfg By_unlock 1 c s in
          (True, if inside s' p = None then cond_resched_by env cfg By_cond_lock c s' else s')
        else (True, preempt_disable cfg c (preempt_enable_by env cfg By_unlock 1 c s))
      else (False, s))"

definition cond_resched_lock_end :: "'x pcfg \<Rightarrow> tid \<Rightarrow> 'x pstate \<Rightarrow> 'x pstate" where
  "cond_resched_lock_end cfg p s =
     set_inside p None (on_kern (\<lambda>k. add_preempt_count cfg 1 p (sub_preempt_count cfg PREEMPT_ACTIVE p k)) s)"

definition cond_resched_softirq :: "'x env \<Rightarrow> 'x pcfg \<Rightarrow> cpu \<Rightarrow> 'x pstate \<Rightarrow> bool \<times> 'x pstate" where
  "cond_resched_softirq env cfg c s =
     (let p = curr_of (kern s) c;
          s = on_kern (BUG_ON (\<not> in_softirq (kern s) p)) s in
      if should_resched (kern s) p then
        let s' = preempt_enable_by env cfg By_bh_enable SOFTIRQ_DISABLE_OFFSET c s in
        (True, if inside s' p = None then cond_resched_by env cfg By_cond_softirq c s' else s')
      else (False, s))"

definition cond_resched_softirq_end :: "'x pcfg \<Rightarrow> tid \<Rightarrow> 'x pstate \<Rightarrow> 'x pstate" where
  "cond_resched_softirq_end cfg p s =
     set_inside p None (on_kern (\<lambda>k. add_preempt_count cfg SOFTIRQ_DISABLE_OFFSET p
       (sub_preempt_count cfg PREEMPT_ACTIVE p k)) s)"

section \<open>Returning to the caller\<close>

definition caller_end :: "'x env \<Rightarrow> 'x pcfg \<Rightarrow> cpu \<Rightarrow> 'x pstate \<Rightarrow> 'x pstate" where
  "caller_end env cfg c s =
     (let p = curr_of (kern s) c in
      case inside s p of
        Some (e, Back) \<Rightarrow>
          (case e of
             By_schedule \<Rightarrow> set_inside p None s
           | By_preempt_disabled \<Rightarrow> schedule_preempt_disabled_end cfg p s
           | By_io c0 \<Rightarrow> io_schedule_end c0 p s
           | By_preempt \<Rightarrow> preempt_schedule_end env cfg By_preempt id c p s
           | By_preempt_irq \<Rightarrow> preempt_schedule_irq_end env cfg c p s
           | By_cond \<Rightarrow> cond_resched_end cfg p s
           | By_unlock \<Rightarrow>
               preempt_schedule_end env cfg By_unlock (cond_resched_by env cfg By_cond_lock c) c p s
           | By_cond_lock \<Rightarrow> cond_resched_lock_end cfg p s
           | By_bh_enable \<Rightarrow>
               preempt_schedule_end env cfg By_bh_enable (cond_resched_by env cfg By_cond_softirq c) c p s
           | By_cond_softirq \<Rightarrow> cond_resched_softirq_end cfg p s)
      | _ \<Rightarrow> s)"

section \<open>Yielding to a task\<close>

text \<open>The classes of the repository have no \<open>yield_to_task\<close>.\<close>

definition class_yield_to_task ::
  "'x pcfg \<Rightarrow> sched_class \<Rightarrow> (cpu \<Rightarrow> tid \<Rightarrow> bool \<Rightarrow> 'x kernel \<Rightarrow> bool \<times> 'x kernel) option" where
  "class_yield_to_task cfg cls =
     (case cls of rt_sched_class \<Rightarrow> None | wrr_sched_class \<Rightarrow> None | _ \<Rightarrow> yield_to_ext cfg cls)"

definition yield_to :: "'x env \<Rightarrow> 'x pcfg \<Rightarrow> tid \<Rightarrow> bool \<Rightarrow> cpu \<Rightarrow> 'x pstate \<Rightarrow> bool \<times> 'x pstate" where
  "yield_to env cfg p preempt c s =
     (let k = kern s; me = curr_of k c; pc = task_cpu (tasks k p) in
      case class_yield_to_task cfg (class_of (tasks k me)) of
        None \<Rightarrow> (False, s)
      | Some f \<Rightarrow>
          if class_of (tasks k me) \<noteq> class_of (tasks k p) then (False, s)
          else if task_running env pc p k \<or> state (tasks k p) \<noteq> 0 then (False, s)
          else
            (case f c p preempt k of
               (True, k) \<Rightarrow>
                 let k = upd_rq c (\<lambda>r. r\<lparr>yld_count := yld_count r + 1\<rparr>) k;
                     k = (if preempt \<and> c \<noteq> pc then resched_task (curr_of k pc) k else k)
                 in (True, schedule_call env cfg By_schedule c (s\<lparr>kern := k\<rparr>))
             | (False, k) \<Rightarrow>
                 (False, s\<lparr>kern := upd_rq c (\<lambda>r. r\<lparr>skip_clock_update := 0\<rparr>) k\<rparr>)))"

end
