(* ===== verification/Preempt_Props.thy ===== *)
theory Preempt_Props
  imports Sched_Preempt Task_Types
begin

text \<open>
  Kernel preemption is sound: whatever the cpus do, every call that ends in \<open>__schedule\<close> returns with
  the preemption count it was made with, \<open>PREEMPT_ACTIVE\<close> marks exactly the tasks inside a
  preempting call, none of those is taken off its runqueue, and \<open>nr_iowait\<close> counts the tasks
  inside \<open>io_schedule\<close>.
\<close>

section \<open>What \<open>__schedule\<close> leaves alone\<close>

text \<open>
  Unlike \<open>keep\<close>, this leaves open the state of tasks and which task runs on the cpu itself.
\<close>

definition still :: "cpu \<Rightarrow> 'x kernel \<Rightarrow> 'x kernel \<Rightarrow> bool" where
  "still c k a \<longleftrightarrow> (\<forall>p. preempt_count (tasks a p) = preempt_count (tasks k p))
     \<and> (\<forall>d. nr_iowait (rqs a d) = nr_iowait (rqs k d))
     \<and> (\<forall>d. d \<noteq> c \<longrightarrow> curr (rqs a d) = curr (rqs k d))"

lemma still_refl: "still c k k"
  by (simp add: still_def)

lemma still_trans: "\<lbrakk>still c k a; still c a b\<rbrakk> \<Longrightarrow> still c k b"
  by (simp add: still_def)

lemma still_keep: "\<lbrakk>still c k a; keep a b\<rbrakk> \<Longrightarrow> still c k b"
  using params_of_eqD(14) [OF keepD] keep_rqD unfolding still_def by metis

named_theorems stills \<open>operations on another cpu leave the counts alone\<close>

lemmas still_lets = op_lets [where P = "still c k" for c k]

lemma still_fields [stills]:
  "still c k a \<Longrightarrow> still c k (upd_task p (\<lambda>t. t\<lparr>need_resched := x1 t\<rparr>) a)"
  "still c k a \<Longrightarrow> still c k (upd_task p (\<lambda>t. t\<lparr>state := x2 t\<rparr>) a)"
  "still c k a \<Longrightarrow> still c k (upd_task p (\<lambda>t. t\<lparr>on_rq := x3 t\<rparr>) a)"
  "still c k a \<Longrightarrow> still c k (upd_task p (\<lambda>t. t\<lparr>on_cpu := x4 t\<rparr>) a)"
  "still c k a \<Longrightarrow> still c k (upd_task p (\<lambda>t. t\<lparr>active_mm := x5 t\<rparr>) a)"
  "still c k a \<Longrightarrow> still c k (upd_task p (\<lambda>t. t\<lparr>nvcsw := x6 t\<rparr>) a)"
  "still c k a \<Longrightarrow> still c k (upd_task p (\<lambda>t. t\<lparr>nivcsw := x7 t\<rparr>) a)"
  "still c k a \<Longrightarrow> still c k (upd_rq d (\<lambda>r. r\<lparr>prev_mm := y1 r\<rparr>) a)"
  "still c k a \<Longrightarrow> still c k (upd_rq d (\<lambda>r. r\<lparr>sched_count := y2 r\<rparr>) a)"
  "still c k a \<Longrightarrow> still c k (upd_rq d (\<lambda>r. r\<lparr>skip_clock_update := y3 r\<rparr>) a)"
  "still c k a \<Longrightarrow> still c k (upd_rq d (\<lambda>r. r\<lparr>avg_idle := y4 r\<rparr>) a)"
  "still c k a \<Longrightarrow> still c k (upd_rq d (\<lambda>r. r\<lparr>idle_stamp := y5 r\<rparr>) a)"
  "still c k a \<Longrightarrow> still c k (upd_rq c (\<lambda>r. r\<lparr>nr_switches := y6 r, curr := y7 r\<rparr>) a)"
  "still c k a \<Longrightarrow> still c k (ext_state_update f a)"
  by (simp_all add: still_def)

lemmas still_rules [stills] = op_rules [where P = "still c k" for c k]

lemma still_kept [stills]:
  assumes env: "env_types env" and a: "still c k a"
  shows "still c k (activate_task env d p fl a)" "still c k (deactivate_task env d p fl a)"
    "still c k (check_preempt_curr env d p fl a)" "still c k (class_task_woken env cls d p a)"
    "still c k (ttwu_stat env p d fl a)" "still c k (pre_schedule env d p a)"
    "still c k (put_prev_task env d p a)" "still c k (snd (pick_next_task env d a))"
    "still c k (post_schedule_rq env d a)" "still c k (newidle_balance env d a)"
  using env
  by (auto simp: env_types_def intro: still_keep [OF a] keep_activate_task [OF _ keep_refl]
      keep_deactivate_task [OF _ keep_refl] keep_check_preempt_curr [OF _ keep_refl]
      keep_class_task_woken [OF _ keep_refl] keep_ttwu_stat [OF keep_refl] keep_pre_schedule [OF _ keep_refl]
      keep_put_prev_task [OF _ keep_refl] keep_pick_next_task [OF _ keep_refl]
      keep_post_schedule_rq [OF _ keep_refl])

lemma still_try_to_wake_up_local [stills]:
  "\<lbrakk>env_types env; still c k a\<rbrakk> \<Longrightarrow> still c k (try_to_wake_up_local env p a)"
  unfolding try_to_wake_up_local_def ttwu_activate_def ttwu_do_wakeup_def
  by (assumption | rule stills | rule still_lets)+

lemma still_schedule_once: "env_types env \<Longrightarrow> still c k (schedule_once env c k)"
  unfolding schedule_once_def deactivate_prev_def context_switch_def finish_task_switch_def
  by (assumption | rule still_refl | rule stills | rule still_lets)+

section \<open>The preemption count\<close>

lemma pcount_set [simp]: "pcount (set_pcount p v k) q = (if q = p then v else pcount k q)"
  by (simp add: pcount_def set_pcount_def)

lemma set_pcount_frame [simp]:
  "curr (rqs (set_pcount p v k) c) = curr (rqs k c)" "rqs (set_pcount p v k) = rqs k"
  "this_cpu (set_pcount p v k) = this_cpu k" "need_resched (tasks (set_pcount p v k) q) = need_resched (tasks k q)"
  by (simp_all add: set_pcount_def)

lemma sint_count:
  assumes "x < 0x80000000"
  shows "sint (x :: u32) = uint x"
proof -
  have u: "0 \<le> uint x" "uint x < 2147483648" using assms by (simp_all add: word_less_def)
  have lo: "- 2147483648 \<le> uint x" using u by linarith
  have "sint x = signed_take_bit 31 (uint x)" by (simp add: sint_uint)
  also have "\<dots> = uint x" by (rule signed_take_bit_int_eq_self) (use u lo in simp_all)
  finally show ?thesis .
qed

lemma add_count_ok: "pcount k p < 0x80000000 \<Longrightarrow> add_preempt_count cfg v p k = set_pcount p (pcount k p + v) k"
  by (simp add: add_preempt_count_def warn_on_def sint_count)

lemma sub_count_ok:
  assumes "pcount k p < 0x80000000" "v \<le> pcount k p" "PREEMPT_MASK \<le> v \<or> pcount k p AND PREEMPT_MASK \<noteq> 0"
  shows "sub_preempt_count cfg v p k = set_pcount p (pcount k p - v) k"
proof -
  have "sint v \<le> sint (pcount k p)"
    using assms(1,2) sint_count [of v] sint_count [of "pcount k p"] order.strict_trans1 [OF assms(2,1)]
    by (simp add: word_le_def)
  then show ?thesis using assms(3)
    by (auto simp: sub_preempt_count_def warn_on_def)
qed

definition preempting :: "caller \<Rightarrow> bool" where
  "preempting e \<longleftrightarrow> e \<in> {By_preempt, By_preempt_irq, By_cond, By_unlock, By_cond_lock, By_bh_enable, By_cond_softirq}"

definition active :: "caller \<Rightarrow> u32" where
  "active e = (if preempting e then PREEMPT_ACTIVE else 0)"

text \<open>The count of a task inside a call, while it runs and while it does not.\<close>

definition expected :: "caller \<Rightarrow> phase \<Rightarrow> bool \<Rightarrow> u32" where
  "expected e ph r = active e + (case ph of Switching \<Rightarrow> if r then 1 else 2 | Back \<Rightarrow> 0)"

definition entry_count :: "caller \<Rightarrow> u32" where
  "entry_count e = (case e of By_preempt_disabled \<Rightarrow> 1 | By_unlock \<Rightarrow> 1 | By_cond_lock \<Rightarrow> 1
     | By_bh_enable \<Rightarrow> SOFTIRQ_DISABLE_OFFSET | By_cond_softirq \<Rightarrow> SOFTIRQ_DISABLE_OFFSET | _ \<Rightarrow> 0)"

definition running :: "'x pstate \<Rightarrow> tid \<Rightarrow> bool" where
  "running s p \<longleftrightarrow> (\<exists>c. curr_of (kern s) c = p)"

definition apart :: "'x kernel \<Rightarrow> bool" where
  "apart k \<longleftrightarrow> inj (curr_of k)"

definition task_ok :: "'x pstate \<Rightarrow> tid \<Rightarrow> bool" where
  "task_ok s p \<longleftrightarrow>
     (case inside s p of
        Some (e, ph) \<Rightarrow> pcount (kern s) p = expected e ph (running s p) \<and> (ph = Back \<longrightarrow> running s p)
      | None \<Rightarrow> if running s p then pcount (kern s) p < PREEMPT_ACTIVE else pcount (kern s) p = 1)"

definition io_waiters :: "'x pstate \<Rightarrow> cpu \<Rightarrow> tid set" where
  "io_waiters s c = {p. \<exists>ph. inside s p = Some (By_io c, ph)}"

definition io_ok :: "'x pstate \<Rightarrow> bool" where
  "io_ok s \<longleftrightarrow> (\<forall>c. finite (io_waiters s c) \<and> nr_iowait (rqs (kern s) c) = int (card (io_waiters s c)))"

lemma on_kern_simps [simp]:
  "kern (on_kern f s) = f (kern s)" "inside (on_kern f s) = inside s"
  "irqs_disabled (on_kern f s) = irqs_disabled s" "atomic_bugs (on_kern f s) = atomic_bugs s"
  by (simp_all add: on_kern_def)

lemma set_irqs_simps [simp]:
  "kern (set_irqs c b s) = kern s" "inside (set_irqs c b s) = inside s"
  "atomic_bugs (set_irqs c b s) = atomic_bugs s"
  by (simp_all add: set_irqs_def)

lemma set_inside_simps [simp]:
  "kern (set_inside p x s) = kern s" "inside (set_inside p x s) = (inside s)(p := x)"
  "atomic_bugs (set_inside p x s) = atomic_bugs s" "irqs_disabled (set_inside p x s) = irqs_disabled s"
  by (simp_all add: set_inside_def)

lemma active_cases: "active e = 0 \<or> active e = PREEMPT_ACTIVE"
  by (simp add: active_def)

lemma count_frame [simp]:
  "rqs (add_preempt_count cfg v p k) = rqs k" "rqs (sub_preempt_count cfg v p k) = rqs k"
  by (simp_all add: add_preempt_count_def sub_preempt_count_def)

section \<open>One turn of \<open>__schedule\<close>\<close>

lemma turn_inside [simp]: "inside (schedule_turn env cfg c s) = inside s"
  by (simp add: schedule_turn_def Let_def schedule_debug_def)

lemma turn_curr:
  assumes "env_types env" "d \<noteq> c"
  shows "curr_of (kern (schedule_turn env cfg c s)) d = curr_of (kern s) d"
  using still_schedule_once [OF assms(1), of c] assms(2)
  by (simp add: schedule_turn_def Let_def still_def schedule_debug_def)

lemma turn_kern:
  fixes s :: "'x pstate" and cfg :: "'x pcfg" and env :: "'x env"
  assumes p: "p = curr_of (kern s) c" and act: "pcount (kern s) p = active e"
  defines "k2 \<equiv> schedule_once env c (set_pcount p (active e + 2) (kern s))"
  shows "kern (schedule_turn env cfg c s) = sub_preempt_count cfg 1 (curr_of k2 c) k2"
    "atomic_bugs (schedule_turn env cfg c s) = atomic_bugs s"
proof -
  note ac = active_cases [of e]
  have a1: "add_preempt_count cfg 1 p (kern s) = set_pcount p (active e + 1) (kern s)"
    using ac by (subst add_count_ok) (auto simp: act PREEMPT_ACTIVE_def)
  have a2: "add_preempt_count cfg 1 p (set_pcount p (active e + 1) (kern s))
      = set_pcount p (active e + 2) (set_pcount p (active e + 1) (kern s))"
    using ac by (subst add_count_ok) (auto simp: PREEMPT_ACTIVE_def)
  have a3: "set_pcount p (active e + 2) (set_pcount p (active e + 1) (kern s)) = set_pcount p (active e + 2) (kern s)"
    by (simp add: set_pcount_def)
  have dbg: "schedule_debug cfg p (on_kern (add_preempt_count cfg 1 p) s) = on_kern (add_preempt_count cfg 1 p) s"
    using ac by (auto simp: schedule_debug_def in_atomic_preempt_off_def a1 preempt_defs)
  show "kern (schedule_turn env cfg c s) = sub_preempt_count cfg 1 (curr_of k2 c) k2"
    "atomic_bugs (schedule_turn env cfg c s) = atomic_bugs s"
    unfolding schedule_turn_def Let_def p [symmetric] dbg k2_def by (simp_all add: a1 a2 a3)
qed

lemma turn_counts:
  fixes s :: "'x pstate" and cfg :: "'x pcfg"
  assumes env: "env_types env" and p: "p = curr_of (kern s) c" and act: "pcount (kern s) p = active e"
  defines "s' \<equiv> schedule_turn env cfg c s"
  defines "q \<equiv> curr_of (kern s') c"
  assumes q: "q = p \<or> pcount (kern s) q \<in> {1, 2, PREEMPT_ACTIVE + 2}"
  shows "pcount (kern s') x =
      (if x = q then (if x = p then active e + 1 else pcount (kern s) x - 1)
       else if x = p then active e + 2 else pcount (kern s) x)"
    and "nr_iowait (rqs (kern s') d) = nr_iowait (rqs (kern s) d)"
proof -
  let ?k1 = "set_pcount p (active e + 2) (kern s)"
  let ?k2 = "schedule_once env c ?k1"
  let ?k3 = "sub_preempt_count cfg 1 (curr_of ?k2 c) ?k2"
  have s': "kern s' = ?k3" unfolding s'_def by (rule turn_kern [OF p act])
  have still: "still c ?k1 ?k2" by (rule still_schedule_once [OF env])
  have k2: "pcount ?k2 x = (if x = p then active e + 2 else pcount (kern s) x)" for x
    using still pcount_set [of p "active e + 2" "kern s" x] by (simp add: still_def pcount_def)
  have qq: "q = curr_of ?k2 c" unfolding q_def s' by simp
  have "pcount ?k2 q \<in> {1, 2, PREEMPT_ACTIVE + 1, PREEMPT_ACTIVE + 2}"
    using q active_cases [of e] unfolding k2 by auto
  then have k3: "?k3 = set_pcount q (pcount ?k2 q - 1) ?k2"
    unfolding qq [symmetric] by (intro sub_count_ok) (auto simp: preempt_defs)
  show "pcount (kern s') x =
      (if x = q then (if x = p then active e + 1 else pcount (kern s) x - 1)
       else if x = p then active e + 2 else pcount (kern s) x)"
    unfolding s' k3 pcount_set k2 by simp
  show "nr_iowait (rqs (kern s') d) = nr_iowait (rqs (kern s) d)"
    unfolding s' using still by (simp add: still_def)
qed

lemma not_Back: "ph \<noteq> Back \<longleftrightarrow> ph = Switching"
  by (cases ph) simp_all

lemma task_ok_waits:
  assumes "task_ok s q" "\<not> running s q"
  shows "(\<exists>e. inside s q = Some (e, Switching) \<and> pcount (kern s) q = active e + 2)
    \<or> inside s q = None \<and> pcount (kern s) q = 1"
  using assms by (auto simp: task_ok_def expected_def not_Back split: option.splits)

lemma turn_ok:
  fixes s :: "'x pstate"
  assumes env: "env_types env" and p: "p = curr_of (kern s) c" and act: "pcount (kern s) p = active e"
    and ins: "inside s p = Some (e, Switching)" and others: "\<And>q. q \<noteq> p \<Longrightarrow> task_ok s q"
    and io: "io_ok s" and ap: "apart (kern s)" "apart (kern (schedule_turn env cfg c s))"
  shows "task_ok (schedule_turn env cfg c s) x" "io_ok (schedule_turn env cfg c s)"
    "atomic_bugs (schedule_turn env cfg c s) = atomic_bugs s"
proof -
  let ?s = "schedule_turn env cfg c s"
  let ?q = "curr_of (kern ?s) c"
  note cs = turn_curr [OF env]
  have q: "?q = p \<or> \<not> running s ?q"
  proof (rule disjCI)
    assume "\<not> \<not> running s ?q"
    then obtain d where d: "curr_of (kern s) d = ?q" by (auto simp: running_def)
    show "?q = p"
    proof (cases "d = c")
      case False
      then have "curr_of (kern ?s) d = ?q" using cs d by simp
      then show ?thesis using ap(2) False by (auto simp: apart_def dest: injD)
    qed (use d p in simp)
  qed
  then have wait: "?q = p \<or> pcount (kern s) ?q \<in> {1, 2, PREEMPT_ACTIVE + 2}"
    using task_ok_waits [OF others, of ?q] active_cases by fastforce
  note t = turn_counts [OF env p act wait]
  show "atomic_bugs ?s = atomic_bugs s" by (rule turn_kern(2) [OF p act])
  show "io_ok ?s" using io unfolding io_ok_def io_waiters_def t(2) turn_inside by simp
  have run: "running ?s x \<longleftrightarrow> x = ?q \<or> x \<noteq> p \<and> running s x" for x
  proof
    assume "running ?s x"
    then obtain d where "curr_of (kern ?s) d = x" by (auto simp: running_def)
    then show "x = ?q \<or> x \<noteq> p \<and> running s x"
      using cs [of d] ap(1) p by (cases "d = c") (auto simp: running_def apart_def dest: injD)
  next
    assume "x = ?q \<or> x \<noteq> p \<and> running s x"
    then show "running ?s x"
      using cs p unfolding running_def by metis
  qed
  show "task_ok ?s x"
  proof (cases "x = p")
    case True
    then show ?thesis using ins run [of p] t(1) [of p]
      by (auto simp: task_ok_def expected_def)
  next
    case False
    note o = others [OF False]
    show ?thesis
    proof (cases "x = ?q")
      case True
      then show ?thesis using False q task_ok_waits [OF o] run [of x] t(1) [of x]
        by (auto simp: task_ok_def expected_def preempt_defs)
    next
      case xq: False
      have same: "running ?s x = running s x" "pcount (kern ?s) x = pcount (kern s) x"
        using run [of x] t(1) [of x] False xq by auto
      show ?thesis using o unfolding task_ok_def turn_inside same .
    qed
  qed
qed

section \<open>Calls and returns\<close>

definition all_ok :: "'x pstate \<Rightarrow> bool" where
  "all_ok s \<longleftrightarrow> (\<forall>p. task_ok s p) \<and> io_ok s \<and> atomic_bugs s = 0"

text \<open>A call of \<open>__schedule\<close> is about to be made by the task that runs on the cpu.\<close>

definition calling :: "caller \<Rightarrow> cpu \<Rightarrow> 'x pstate \<Rightarrow> bool" where
  "calling e c s \<longleftrightarrow> pcount (kern s) (curr_of (kern s) c) = active e
     \<and> (\<forall>q. q \<noteq> curr_of (kern s) c \<longrightarrow> task_ok s q)
     \<and> io_ok (set_inside (curr_of (kern s) c) (Some (e, Switching)) s) \<and> atomic_bugs s = 0"

lemma task_ok_cong:
  assumes "inside t q = inside s q" "pcount (kern t) q = pcount (kern s) q"
    "\<And>c. curr_of (kern t) c = curr_of (kern s) c"
  shows "task_ok t q = task_ok s q"
  unfolding task_ok_def running_def assms by (rule refl)

lemma call_ok:
  assumes env: "env_types env" and s: "calling e c s"
    and ap: "apart (kern s)" "apart (kern (call_schedule env cfg e c s))"
  shows "all_ok (call_schedule env cfg e c s)"
proof -
  let ?p = "curr_of (kern s) c"
  let ?s = "set_inside ?p (Some (e, Switching)) s"
  have o: "task_ok ?s q" if "q \<noteq> ?p" for q
    using s that task_ok_cong [of ?s q s] by (simp add: calling_def)
  have "pcount (kern ?s) ?p = active e" "io_ok ?s" "atomic_bugs ?s = 0" "inside ?s ?p = Some (e, Switching)"
    "curr_of (kern ?s) c = ?p"
    using s by (simp_all add: calling_def)
  then show ?thesis
    using turn_ok [OF env, of ?p ?s c e cfg] o ap by (simp add: all_ok_def call_schedule_def)
qed

lemma io_ok_set_inside:
  assumes "io_ok s" "\<And>c ph. inside s p \<noteq> Some (By_io c, ph)" "\<And>c ph. x \<noteq> Some (By_io c, ph)"
  shows "io_ok (set_inside p x s)"
proof -
  have "io_waiters (set_inside p x s) c = io_waiters s c" for c
    using assms(2,3) by (auto simp: io_waiters_def)
  then show ?thesis using assms(1) by (simp add: io_ok_def)
qed

text \<open>Steps of the running task that leave everything but its own count alone.\<close>

lemma io_ok_cong:
  assumes "inside t = inside s" "\<And>c. nr_iowait (rqs (kern t) c) = nr_iowait (rqs (kern s) c)"
  shows "io_ok t = io_ok s"
  unfolding io_ok_def io_waiters_def assms by (rule refl)

definition aside :: "tid \<Rightarrow> 'x pstate \<Rightarrow> 'x pstate \<Rightarrow> bool" where
  "aside p s t \<longleftrightarrow> (\<forall>q. q \<noteq> p \<longrightarrow> inside t q = inside s q \<and> pcount (kern t) q = pcount (kern s) q)
     \<and> (\<forall>d. curr_of (kern t) d = curr_of (kern s) d \<and> nr_iowait (rqs (kern t) d) = nr_iowait (rqs (kern s) d))
     \<and> atomic_bugs t = atomic_bugs s"

lemma asideD:
  assumes "aside p s t"
  shows "\<And>q. q \<noteq> p \<Longrightarrow> inside t q = inside s q" "\<And>q. q \<noteq> p \<Longrightarrow> pcount (kern t) q = pcount (kern s) q"
    "\<And>d. curr_of (kern t) d = curr_of (kern s) d" "\<And>d. nr_iowait (rqs (kern t) d) = nr_iowait (rqs (kern s) d)"
    "atomic_bugs t = atomic_bugs s"
  using assms by (simp_all add: aside_def)

lemma calling_intro:
  assumes ok: "all_ok s" and p: "p = curr_of (kern s) c" and e: "\<And>d. e \<noteq> By_io d"
    and ni: "\<And>d ph. inside s p \<noteq> Some (By_io d, ph)"
    and aside: "aside p s t"
    and cnt: "pcount (kern t) p = active e"
  shows "calling e c t"
proof -
  note same = asideD [OF aside]
  have "io_ok (set_inside p (Some (e, Switching)) s)"
    using ok e ni by (intro io_ok_set_inside) (auto simp: all_ok_def)
  moreover have "inside (set_inside p (Some (e, Switching)) t) = inside (set_inside p (Some (e, Switching)) s)"
    using same(1) by (auto simp: fun_eq_iff)
  ultimately have "io_ok (set_inside p (Some (e, Switching)) t)"
    using io_ok_cong same(4) by (metis set_inside_simps(1))
  then show ?thesis using ok same cnt p task_ok_cong [of t _ s]
    by (simp add: calling_def all_ok_def)
qed

text \<open>Returning from a call, and steps outside a call.\<close>

lemma outside_ok:
  assumes ok: "all_ok s" and p: "p = curr_of (kern s) c"
    and ni: "\<And>d ph. inside s p \<noteq> Some (By_io d, ph)"
    and aside: "aside p s t"
    and cnt: "inside t p = None" "pcount (kern t) p < PREEMPT_ACTIVE"
  shows "all_ok t"
proof -
  note same = asideD [OF aside]
  have "io_ok (set_inside p None s)"
    using ok ni by (intro io_ok_set_inside) (auto simp: all_ok_def)
  moreover have "inside t = inside (set_inside p None s)"
    using same(1) cnt(1) by (auto simp: fun_eq_iff)
  ultimately have "io_ok t" using io_ok_cong same(4) by (metis set_inside_simps(1))
  moreover have "task_ok t p" using cnt p same(3) by (auto simp: task_ok_def running_def)
  moreover have "task_ok t q" if "q \<noteq> p" for q
    using ok that same task_ok_cong [of t q s] by (simp add: all_ok_def)
  ultimately have "io_ok t" "\<forall>q. task_ok t q" by metis+
  then show ?thesis using ok same(5) by (simp add: all_ok_def)
qed

section \<open>The machine\<close>

text \<open>
  A step of cpu \<open>c\<close>. The task that runs is outside a call when it makes one, with the count the call
  is made for: 0 where the caller may sleep, 1 with the lock of \<open>__cond_resched_lock\<close> and before
  \<open>schedule_preempt_disabled\<close>, and with softirqs disabled once. \<open>rest\<close> is any other part of the kernel:
  it does what it likes with the state, but enters no call, switches no cpu and leaves the counts.
\<close>

definition outside :: "'x pstate \<Rightarrow> cpu \<Rightarrow> bool" where
  "outside s c \<longleftrightarrow> inside s (curr_of (kern s) c) = None"

definition count_at :: "'x pstate \<Rightarrow> cpu \<Rightarrow> u32" where
  "count_at s c = pcount (kern s) (curr_of (kern s) c)"

definition cfg_ok :: "'x pcfg \<Rightarrow> bool" where
  "cfg_ok cfg \<longleftrightarrow> (\<forall>cls f c p b k. yield_to_ext cfg cls = Some f \<longrightarrow> keep k (snd (f c p b k)))"

inductive preempt_step :: "'x env \<Rightarrow> 'x pcfg \<Rightarrow> 'x pstate \<Rightarrow> 'x pstate \<Rightarrow> bool" for env cfg where
  schedule: "\<lbrakk>outside s c; count_at s c = 0\<rbrakk> \<Longrightarrow> preempt_step env cfg s (schedule_call env cfg By_schedule c s)"
| preempt_disabled: "\<lbrakk>outside s c; count_at s c = 1\<rbrakk>
    \<Longrightarrow> preempt_step env cfg s (schedule_preempt_disabled env cfg c s)"
| io: "\<lbrakk>outside s c; count_at s c = 0\<rbrakk> \<Longrightarrow> preempt_step env cfg s (io_schedule env cfg c s)"
| preempt: "outside s c \<Longrightarrow> preempt_step env cfg s (preempt_schedule env cfg c s)"
| preempt_irq: "\<lbrakk>outside s c; count_at s c = 0; irqs_disabled s c\<rbrakk>
    \<Longrightarrow> preempt_step env cfg s (preempt_schedule_irq env cfg c s)"
| disable: "\<lbrakk>outside s c; count_at s c + 1 < PREEMPT_ACTIVE\<rbrakk>
    \<Longrightarrow> preempt_step env cfg s (preempt_disable cfg c s)"
| enable: "\<lbrakk>outside s c; count_at s c AND PREEMPT_MASK \<noteq> 0\<rbrakk>
    \<Longrightarrow> preempt_step env cfg s (preempt_enable_by env cfg By_preempt 1 c s)"
| cond: "\<lbrakk>outside s c; count_at s c = 0\<rbrakk> \<Longrightarrow> preempt_step env cfg s (snd (cond_resched env cfg c s))"
| cond_lock: "\<lbrakk>outside s c; count_at s c = 1\<rbrakk>
    \<Longrightarrow> preempt_step env cfg s (snd (cond_resched_lock env cfg contended c s))"
| cond_softirq: "\<lbrakk>outside s c; count_at s c = SOFTIRQ_DISABLE_OFFSET\<rbrakk>
    \<Longrightarrow> preempt_step env cfg s (snd (cond_resched_softirq env cfg c s))"
| yield_to: "\<lbrakk>outside s c; count_at s c = 0\<rbrakk> \<Longrightarrow> preempt_step env cfg s (snd (yield_to env cfg p b c s))"
| finish: "preempt_step env cfg s (schedule_end env cfg c s)"
| leave: "preempt_step env cfg s (caller_end env cfg c s)"
| irqs: "outside s c \<Longrightarrow> preempt_step env cfg s (set_irqs c b s)"
| fork: "\<lbrakk>\<not> running s p; inside s p = None\<rbrakk> \<Longrightarrow> preempt_step env cfg s (on_kern (sched_fork env p) s)"
| rest: "\<lbrakk>\<And>p. preempt_count (tasks k' p) = preempt_count (tasks (kern s) p);
    \<And>d. nr_iowait (rqs k' d) = nr_iowait (rqs (kern s) d); \<And>d. curr_of k' d = curr_of (kern s) d\<rbrakk>
    \<Longrightarrow> preempt_step env cfg s (s\<lparr>kern := k'\<rparr>)"

definition preempt_boot :: "'x pstate \<Rightarrow> bool" where
  "preempt_boot s \<longleftrightarrow> apart (kern s) \<and> atomic_bugs s = 0 \<and> (\<forall>c. nr_iowait (rqs (kern s) c) = 0)
     \<and> (\<forall>p. inside s p = None \<and> pcount (kern s) p = (if running s p then 0 else 1))"

text \<open>No two cpus run the same task: what the classes see to, and a guard here.\<close>

inductive preempt_reach :: "'x env \<Rightarrow> 'x pcfg \<Rightarrow> 'x pstate \<Rightarrow> bool" for env cfg where
  boot: "preempt_boot s \<Longrightarrow> preempt_reach env cfg s"
| step: "\<lbrakk>preempt_reach env cfg s; preempt_step env cfg s s'; apart (kern s')\<rbrakk> \<Longrightarrow> preempt_reach env cfg s'"

text \<open>The entry points that end in a call do so in a state that is ready for it.\<close>

lemma submit_frame [simp]:
  "tasks (sched_submit_work cfg p k) = tasks k" "rqs (sched_submit_work cfg p k) = rqs k"
  "this_cpu (sched_submit_work cfg p k) = this_cpu k" "pcount (sched_submit_work cfg p k) q = pcount k q"
  by (simp_all add: sched_submit_work_def pcount_def)

lemma BUG_ON_frame [simp]: "tasks (BUG_ON b k) = tasks k" "rqs (BUG_ON b k) = rqs k"
  "pcount (BUG_ON b k) q = pcount k q"
  by (simp_all add: BUG_ON_def pcount_def)

lemma count_frame2 [simp]:
  "q \<noteq> p \<Longrightarrow> pcount (add_preempt_count cfg v p k) q = pcount k q"
  "q \<noteq> p \<Longrightarrow> pcount (sub_preempt_count cfg v p k) q = pcount k q"
  by (simp_all add: add_preempt_count_def sub_preempt_count_def)

lemma active_values:
  "active By_schedule = 0" "active By_preempt_disabled = 0" "active (By_io d) = 0"
  "active By_preempt = PREEMPT_ACTIVE" "active By_preempt_irq = PREEMPT_ACTIVE" "active By_cond = PREEMPT_ACTIVE"
  "active By_unlock = PREEMPT_ACTIVE" "active By_cond_lock = PREEMPT_ACTIVE"
  "active By_bh_enable = PREEMPT_ACTIVE" "active By_cond_softirq = PREEMPT_ACTIVE"
  by (simp_all add: active_def preempting_def)

lemma call_from:
  assumes env: "env_types env" and ok: "all_ok s" and ap: "apart (kern s)" "apart (kern (call_schedule env cfg e c t))"
    and p: "p = curr_of (kern s) c" and e: "\<And>d. e \<noteq> By_io d"
    and ni: "\<And>d ph. inside s p \<noteq> Some (By_io d, ph)"
    and aside: "aside p s t"
    and cnt: "pcount (kern t) p = active e"
  shows "all_ok (call_schedule env cfg e c t)"
proof (rule call_ok [OF env _ _ ap(2)])
  show "calling e c t" by (rule calling_intro [OF ok p e ni aside cnt])
  show "apart (kern t)" using ap(1) asideD(3) [OF aside] by (simp add: apart_def fun_eq_iff inj_def)
qed

lemma small_count: "x < PREEMPT_ACTIVE \<Longrightarrow> x < 0x80000000"
  by (simp add: PREEMPT_ACTIVE_def word_less_def)

lemma outside_count:
  assumes "all_ok s" "outside s c"
  shows "count_at s c < PREEMPT_ACTIVE"
proof -
  have "task_ok s (curr_of (kern s) c)" "running s (curr_of (kern s) c)"
    using assms(1) by (auto simp: all_ok_def running_def)
  then show ?thesis using assms(2) by (simp add: task_ok_def outside_def count_at_def)
qed

lemma schedule_call_ok:
  assumes "env_types env" "all_ok s" "outside s c" "count_at s c = 0"
    and "apart (kern s)" "apart (kern (schedule_call env cfg By_schedule c s))"
  shows "all_ok (schedule_call env cfg By_schedule c s)"
  using assms(3,4,6) unfolding schedule_call_def
  by (intro call_from [OF assms(1,2,5) _ refl])
    (simp_all add: aside_def outside_def count_at_def active_values)

lemma preempt_disabled_ok:
  assumes "env_types env" "all_ok s" "outside s c" "count_at s c = 1"
    and "apart (kern s)" "apart (kern (schedule_preempt_disabled env cfg c s))"
  shows "all_ok (schedule_preempt_disabled env cfg c s)"
proof -
  let ?p = "curr_of (kern s) c"
  have "sub_preempt_count cfg 1 ?p (kern s) = set_pcount ?p 0 (kern s)"
    using assms(4) by (subst sub_count_ok) (simp_all add: count_at_def preempt_defs)
  then show ?thesis
    using assms(3,6) unfolding schedule_preempt_disabled_def schedule_call_def
    by (intro call_from [OF assms(1,2,5) _ refl])
      (simp_all add: aside_def outside_def count_at_def active_values)
qed

lemma preempt_by_ok:
  assumes env: "env_types env" "all_ok s" "outside s c"
    and e: "e \<in> {By_preempt, By_unlock, By_bh_enable}"
    and ap: "apart (kern s)" "apart (kern (preempt_schedule_by env cfg e c s))"
  shows "all_ok (preempt_schedule_by env cfg e c s)"
proof (cases "pcount (kern s) (curr_of (kern s) c) \<noteq> 0 \<or> irqs_disabled s c")
  case True
  then show ?thesis by (simp add: preempt_schedule_by_def Let_def env(2))
next
  case False
  have "active e = PREEMPT_ACTIVE" using e by (auto simp: active_values)
  then show ?thesis
    using False env(3) e ap(2) unfolding preempt_schedule_by_def Let_def
    by (auto intro!: call_from [OF env(1,2) ap(1) _ refl] simp: aside_def outside_def)
qed

lemma add_active:
  "pcount k p = 0 \<Longrightarrow> add_preempt_count cfg PREEMPT_ACTIVE p k = set_pcount p PREEMPT_ACTIVE k"
  by (subst add_count_ok) simp_all

lemma preempt_irq_ok:
  assumes "env_types env" "all_ok s" "outside s c" "count_at s c = 0"
    and "apart (kern s)" "apart (kern (preempt_schedule_irq env cfg c s))"
  shows "all_ok (preempt_schedule_irq env cfg c s)"
proof -
  let ?p = "curr_of (kern s) c"
  have "add_preempt_count cfg PREEMPT_ACTIVE ?p (BUG_ON b (kern s)) = set_pcount ?p PREEMPT_ACTIVE (BUG_ON b (kern s))" for b
    using assms(4) by (intro add_active) (simp add: count_at_def)
  then show ?thesis
    using assms(3,6) unfolding preempt_schedule_irq_def Let_def
    by (intro call_from [OF assms(1,2,5) _ refl])
      (simp_all add: aside_def outside_def count_at_def active_values)
qed

lemma own_count_ok:
  assumes "all_ok s" "outside s c" "v < PREEMPT_ACTIVE" "p = curr_of (kern s) c"
  shows "all_ok (on_kern (set_pcount p v) s)"
  using assms(2,3) unfolding assms(4)
  by (intro outside_ok [OF assms(1) refl]) (auto simp: aside_def outside_def)

lemma outside_on_kern [simp]:
  "(\<And>k. curr_of (f k) c = curr_of k c) \<Longrightarrow> outside (on_kern f s) c = outside s c"
  by (simp add: outside_def)

lemma apart_cong: "(\<And>d. curr_of k d = curr_of k' d) \<Longrightarrow> apart k = apart k'"
  by (simp add: apart_def inj_def)

lemma disable_ok:
  assumes "all_ok s" "outside s c" "count_at s c + 1 < PREEMPT_ACTIVE"
  shows "all_ok (preempt_disable cfg c s)"
proof -
  let ?p = "curr_of (kern s) c"
  have "add_preempt_count cfg 1 ?p (kern s) = set_pcount ?p (count_at s c + 1) (kern s)"
    using outside_count [OF assms(1,2)] by (subst add_count_ok) (simp_all add: count_at_def small_count)
  then have "preempt_disable cfg c s = on_kern (set_pcount ?p (count_at s c + 1)) s"
    by (simp add: preempt_disable_def on_kern_def)
  then show ?thesis using own_count_ok [OF assms refl] by simp
qed

lemma enable_ok:
  assumes env: "env_types env" "all_ok s" "outside s c" "val \<le> count_at s c"
    and v: "PREEMPT_MASK \<le> val \<or> count_at s c AND PREEMPT_MASK \<noteq> 0" "0 < val"
    and e: "e \<in> {By_preempt, By_unlock, By_bh_enable}"
    and ap: "apart (kern s)" "apart (kern (preempt_enable_by env cfg e val c s))"
  shows "all_ok (preempt_enable_by env cfg e val c s)"
proof -
  let ?p = "curr_of (kern s) c" and ?v = "count_at s c - val"
  let ?t = "on_kern (set_pcount ?p ?v) s"
  have "?v < PREEMPT_ACTIVE"
    using outside_count [OF env(2,3)] env(4) by (meson le_less_trans word_sub_le)
  then have t: "all_ok ?t" by (rule own_count_ok [OF env(2,3) _ refl])
  have o: "outside ?t c" using env(3) by (simp add: outside_def)
  have at: "apart (kern ?t)" using ap(1) apart_cong [of "kern ?t" "kern s"] by simp
  have "sub_preempt_count cfg val ?p (kern s) = set_pcount ?p ?v (kern s)"
    using env(4) v(1) small_count [OF outside_count [OF env(2,3)]]
    by (subst sub_count_ok) (auto simp: count_at_def)
  then have "on_kern (sub_preempt_count cfg val ?p) s = ?t" by (simp add: on_kern_def)
  then have eq: "preempt_enable_by env cfg e val c s
      = (if need_resched (tasks (kern ?t) ?p) then preempt_schedule_by env cfg e c ?t else ?t)"
    unfolding preempt_enable_by_def Let_def by (simp only:)
  show ?thesis
  proof (cases "need_resched (tasks (kern ?t) ?p)")
    case True
    then show ?thesis using preempt_by_ok [OF env(1) t o e at] ap(2) unfolding eq by simp
  next
    case False
    then show ?thesis unfolding eq using t by simp
  qed
qed

lemma cond_by_ok:
  assumes "env_types env" "all_ok s" "outside s c" "count_at s c = 0"
    and e: "e \<in> {By_cond, By_cond_lock, By_cond_softirq}"
    and ap: "apart (kern s)" "apart (kern (cond_resched_by env cfg e c s))"
  shows "all_ok (cond_resched_by env cfg e c s)"
proof -
  have "active e = PREEMPT_ACTIVE" using e by (auto simp: active_values)
  then show ?thesis
    using assms(3,4) e ap(2) add_active [of "kern s" "curr_of (kern s) c" cfg] unfolding cond_resched_by_def
    by (intro call_from [OF assms(1,2) ap(1) _ refl]) (auto simp: aside_def outside_def count_at_def)
qed

lemma cond_ok:
  assumes "env_types env" "all_ok s" "outside s c" "count_at s c = 0"
    and "apart (kern s)" "apart (kern (snd (cond_resched env cfg c s)))"
  shows "all_ok (snd (cond_resched env cfg c s))"
  using assms(6) cond_by_ok [OF assms(1-4) _ assms(5), of By_cond cfg] assms(2)
  by (auto simp: cond_resched_def split: if_splits)

lemma preempt_by_stays:
  assumes "inside (preempt_schedule_by env cfg e c s) (curr_of (kern s) c) = None"
  shows "preempt_schedule_by env cfg e c s = s"
  using assms by (auto simp: preempt_schedule_by_def call_schedule_def Let_def split: if_splits)

lemma io_schedule_ok:
  assumes env: "env_types env" and ok: "all_ok s" and "outside s c" "count_at s c = 0"
    and ap: "apart (kern s)" "apart (kern (io_schedule env cfg c s))"
  shows "all_ok (io_schedule env cfg c s)"
proof -
  let ?p = "curr_of (kern s) c"
  define t where "t = on_kern (sched_submit_work cfg ?p)
     (on_kern (upd_task ?p (\<lambda>t. t\<lparr>in_iowait := True\<rparr>)) (on_kern (ext_state_update (blk_flush_plug cfg ?p))
     (on_kern (upd_rq c (\<lambda>r. r\<lparr>nr_iowait := nr_iowait r + 1\<rparr>)) s)))"
  have eq: "io_schedule env cfg c s = call_schedule env cfg (By_io c) c t"
    by (simp add: io_schedule_def schedule_call_def t_def Let_def)
  have cur: "curr_of (kern t) d = curr_of (kern s) d" for d by (simp add: t_def)
  have cnt: "pcount (kern t) q = pcount (kern s) q" for q by (simp add: t_def pcount_def)
  have ins: "inside t = inside s" "atomic_bugs t = atomic_bugs s" by (simp_all add: t_def)
  have nri: "nr_iowait (rqs (kern t) d) = nr_iowait (rqs (kern s) d) + (if d = c then 1 else 0)" for d
    by (simp add: t_def)
  have w: "io_waiters (set_inside ?p (Some (By_io c, Switching)) t) d
      = (if d = c then insert ?p (io_waiters s d) else io_waiters s d)" for d
    using assms(3) by (auto simp: io_waiters_def ins outside_def)
  have n: "?p \<notin> io_waiters s c" using assms(3) by (simp add: io_waiters_def outside_def)
  have "io_ok (set_inside ?p (Some (By_io c, Switching)) t)"
    using ok n unfolding io_ok_def w by (auto simp: all_ok_def io_ok_def nri)
  moreover have "task_ok t q" if "q \<noteq> ?p" for q
    using ok task_ok_cong [of t q s] by (simp add: all_ok_def ins cnt cur)
  ultimately have "calling (By_io c) c t"
    using ok assms(4) by (simp add: calling_def cur cnt ins active_values count_at_def all_ok_def)
  moreover have "apart (kern t)" using ap(1) apart_cong [of "kern t" "kern s"] cur by simp
  ultimately show ?thesis using call_ok [OF env, of "By_io c" c t cfg] ap(2) unfolding eq by blast
qed

text \<open>\<open>__cond_resched_lock\<close> and \<open>__cond_resched_softirq\<close>: enable, then schedule if that has not.\<close>

lemma enable_stays:
  assumes "inside (preempt_enable_by env cfg e val c s) (curr_of (kern s) c) = None" "outside s c"
  shows "preempt_enable_by env cfg e val c s = on_kern (sub_preempt_count cfg val (curr_of (kern s) c)) s"
  using assms(1) preempt_by_stays
    [of env cfg e c "on_kern (sub_preempt_count cfg val (curr_of (kern s) c)) s"]
  by (simp add: preempt_enable_by_def Let_def split: if_splits)

lemma enable_then_cond_ok:
  fixes s :: "'x pstate" and cfg :: "'x pcfg"
  assumes env: "env_types env" and ok: "all_ok s" and o: "outside s c" and v: "count_at s c = val"
    "val = 1 \<or> val = SOFTIRQ_DISABLE_OFFSET"
    and e: "e \<in> {By_preempt, By_unlock, By_bh_enable}" "e' \<in> {By_cond, By_cond_lock, By_cond_softirq}"
    and ap: "apart (kern s)"
  defines "t \<equiv> preempt_enable_by env cfg e val c s"
  defines "u \<equiv> (if inside t (curr_of (kern s) c) = None then cond_resched_by env cfg e' c t else t)"
  assumes u: "apart (kern u)"
  shows "all_ok u"
proof (cases "inside t (curr_of (kern s) c) = None")
  case True
  have t: "t = on_kern (sub_preempt_count cfg val (curr_of (kern s) c)) s"
    using enable_stays True o unfolding t_def by blast
  have "sub_preempt_count cfg val (curr_of (kern s) c) (kern s) = set_pcount (curr_of (kern s) c) 0 (kern s)"
    using v by (subst sub_count_ok) (auto simp: count_at_def preempt_defs)
  then have t': "t = on_kern (set_pcount (curr_of (kern s) c) 0) s" unfolding t by (simp add: on_kern_def)
  have "all_ok t" unfolding t' by (rule own_count_ok [OF ok o _ refl]) (simp add: PREEMPT_ACTIVE_def)
  moreover have "outside t c" "count_at t c = 0" using o by (simp_all add: t' outside_def count_at_def)
  moreover have "apart (kern t)" using ap apart_cong [of "kern t" "kern s"] by (simp add: t')
  ultimately show ?thesis using cond_by_ok [OF env] e(2) u True by (simp add: u_def)
next
  case False
  have "all_ok t" unfolding t_def
    by (rule enable_ok [OF env ok o _ _ _ e(1) ap])
      (use v u False in \<open>auto simp: u_def t_def preempt_defs\<close>)
  then show ?thesis using False by (simp only: u_def if_False)
qed

lemma cond_lock_ok:
  assumes env: "env_types env" and ok: "all_ok s" and o: "outside s c" and v: "count_at s c = 1"
    and ap: "apart (kern s)" "apart (kern (snd (cond_resched_lock env cfg contended c s)))"
  shows "all_ok (snd (cond_resched_lock env cfg contended c s))"
proof (cases "should_resched (kern s) (curr_of (kern s) c)")
  case True
  then show ?thesis
    using enable_then_cond_ok [OF env ok o v _ _ _ ap(1), of By_unlock By_cond_lock cfg] ap(2)
    by (simp add: cond_resched_lock_def Let_def)
next
  case False
  let ?p = "curr_of (kern s) c"
  have "pcount (kern s) ?p AND PREEMPT_ACTIVE = 0" using v by (simp add: count_at_def PREEMPT_ACTIVE_def)
  then have nr: "\<not> need_resched (tasks (kern s) ?p)" using False by (simp add: should_resched_def)
  have "sub_preempt_count cfg 1 ?p (kern s) = set_pcount ?p 0 (kern s)"
    using v by (subst sub_count_ok) (auto simp: count_at_def preempt_defs)
  then have s0: "on_kern (sub_preempt_count cfg 1 ?p) s = on_kern (set_pcount ?p 0) s" by (simp add: on_kern_def)
  have e: "preempt_enable_by env cfg By_unlock 1 c s = on_kern (set_pcount ?p 0) s"
    using nr unfolding preempt_enable_by_def Let_def s0 by simp
  have z: "all_ok (on_kern (set_pcount ?p 0) s)"
    by (rule own_count_ok [OF ok o _ refl]) (simp add: PREEMPT_ACTIVE_def)
  have "all_ok (preempt_disable cfg c (on_kern (set_pcount ?p 0) s))"
    by (rule disable_ok [OF z]) (use o in \<open>simp_all add: outside_def count_at_def PREEMPT_ACTIVE_def\<close>)
  then show ?thesis using False ok by (simp add: cond_resched_lock_def Let_def e)
qed

lemma cond_softirq_ok:
  assumes env: "env_types env" and ok: "all_ok s" and o: "outside s c"
    and v: "count_at s c = SOFTIRQ_DISABLE_OFFSET"
    and ap: "apart (kern s)" "apart (kern (snd (cond_resched_softirq env cfg c s)))"
  shows "all_ok (snd (cond_resched_softirq env cfg c s))"
proof -
  let ?p = "curr_of (kern s) c"
  have "\<not> \<not> in_softirq (kern s) ?p" using v by (simp add: in_softirq_def count_at_def preempt_defs)
  then have b: "on_kern (BUG_ON (\<not> in_softirq (kern s) ?p)) s = s" by (simp add: on_kern_def BUG_ON_def)
  show ?thesis
    using enable_then_cond_ok [OF env ok o v _ _ _ ap(1), of By_bh_enable By_cond_softirq cfg] ap(2) ok
    unfolding cond_resched_softirq_def Let_def b by (auto split: if_splits)
qed

lemma yield_to_ok:
  fixes s :: "'x pstate"
  assumes env: "env_types env" "cfg_ok cfg" and ok: "all_ok s" and o: "outside s c" and v: "count_at s c = 0"
    and ap: "apart (kern s)" "apart (kern (snd (yield_to env cfg p b c s)))"
  shows "all_ok (snd (yield_to env cfg p b c s))"
proof -
  let ?me = "curr_of (kern s) c"
  have frame: "\<And>q. pcount k q = pcount (kern s) q" "\<And>d. curr_of k d = curr_of (kern s) d"
      "\<And>d. nr_iowait (rqs k d) = nr_iowait (rqs (kern s) d)" if "keep (kern s) k" for k
    using params_of_eqD(14) [OF keepD [OF that]] keep_rqD [OF that] by (simp_all add: pcount_def)
  have one: "all_ok (s\<lparr>kern := k\<rparr>)" if "keep (kern s) k" for k
    by (rule outside_ok [OF ok refl])
      (use o frame [OF that] outside_count [OF ok o] in \<open>auto simp: aside_def outside_def count_at_def\<close>)
  have two: "all_ok (schedule_call env cfg By_schedule c (s\<lparr>kern := k\<rparr>))"
    if "keep (kern s) k" "apart (kern (schedule_call env cfg By_schedule c (s\<lparr>kern := k\<rparr>)))" for k
  proof (rule schedule_call_ok [OF env(1) one [OF that(1)] _ _ _ that(2)])
    show "outside (s\<lparr>kern := k\<rparr>) c" "count_at (s\<lparr>kern := k\<rparr>) c = 0"
      using o v frame [OF that(1)] by (simp_all add: outside_def count_at_def)
    show "apart (kern (s\<lparr>kern := k\<rparr>))"
      using ap(1) apart_cong [of k "kern s"] frame(2) [OF that(1)] by simp
  qed
  show ?thesis
  proof (cases "class_yield_to_task cfg (class_of (tasks (kern s) ?me))")
    case None
    then show ?thesis using ok by (simp add: yield_to_def Let_def)
  next
    case (Some f)
    then have "yield_to_ext cfg (class_of (tasks (kern s) ?me)) = Some f"
      by (auto simp: class_yield_to_task_def split: sched_class.splits)
    then have f: "keep (kern s) (snd (f c p b (kern s)))" using env(2) by (simp add: cfg_ok_def)
    obtain r k where fk: "f c p b (kern s) = (r, k)" by (cases "f c p b (kern s)")
    have k: "keep (kern s) k" using f fk by simp
    have k1: "keep (kern s) (upd_rq c (\<lambda>q. q\<lparr>skip_clock_update := 0\<rparr>) k)" by (rule keeps k)+
    have k2: "keep (kern s) (upd_rq c (\<lambda>q. q\<lparr>yld_count := yld_count q + 1\<rparr>) k)" by (rule keeps k)+
    have k3: "keep (kern s) (resched_task y (upd_rq c (\<lambda>q. q\<lparr>yld_count := yld_count q + 1\<rparr>) k))" for y
      by (rule keeps k)+
    show ?thesis
      using ok one [OF k1] two [OF k2] two [OF k3] ap(2) Some fk
      by (auto simp: yield_to_def Let_def split: if_splits bool.splits)
  qed
qed

lemma end_ok:
  assumes env: "env_types env" and ok: "all_ok s"
    and ap: "apart (kern s)" "apart (kern (schedule_end env cfg c s))"
  shows "all_ok (schedule_end env cfg c s)"
proof -
  let ?p = "curr_of (kern s) c"
  have t: "task_ok s ?p" "running s ?p" using ok by (auto simp: all_ok_def running_def)
  show ?thesis
  proof (cases "\<exists>e. inside s ?p = Some (e, Switching)")
    case True
    then obtain e where ins: "inside s ?p = Some (e, Switching)" by blast
    have cnt: "pcount (kern s) ?p = active e + 1" using t ins by (simp add: task_ok_def expected_def)
    let ?t = "on_kern (set_pcount ?p (active e)) s"
    have "sub_preempt_count cfg 1 ?p (kern s) = set_pcount ?p (active e) (kern s)"
      using active_cases [of e] by (subst sub_count_ok) (auto simp: cnt preempt_defs)
    then have s0: "on_kern (sub_preempt_count cfg 1 ?p) s = ?t" by (simp add: on_kern_def)
    have eq: "schedule_end env cfg c s
        = (if need_resched (tasks (kern ?t) ?p) then schedule_turn env cfg c ?t
           else set_inside ?p (Some (e, Back)) ?t)"
      unfolding schedule_end_def Let_def ins s0 by simp
    have others: "task_ok ?t q" if "q \<noteq> ?p" for q
      using ok that task_ok_cong [of ?t q s] by (simp add: all_ok_def)
    have io: "io_ok ?t" using ok io_ok_cong [of ?t s] by (simp add: all_ok_def)
    show ?thesis
    proof (cases "need_resched (tasks (kern ?t) ?p)")
      case True
      have "apart (kern ?t)" using ap(1) apart_cong [of "kern ?t" "kern s"] by simp
      then show ?thesis
        using turn_ok [OF env, of ?p ?t c e cfg] others io True ins ap(2) ok unfolding eq
        by (simp add: all_ok_def)
    next
      case False
      let ?u = "set_inside ?p (Some (e, Back)) ?t"
      have "task_ok ?u ?p" by (auto simp: task_ok_def expected_def running_def)
      moreover have "task_ok ?u q" if "q \<noteq> ?p" for q
        using others [OF that] that task_ok_cong [of ?u q ?t] by simp
      ultimately have "\<forall>q. task_ok ?u q" by metis
      moreover have "io_waiters ?u d = io_waiters ?t d" for d
        using ins by (auto simp: io_waiters_def)
      then have "io_ok ?u" using io by (simp add: io_ok_def)
      ultimately show ?thesis using False ok unfolding eq by (simp add: all_ok_def)
    qed
  next
    case False
    then have "schedule_end env cfg c s = s"
      by (auto simp: schedule_end_def Let_def not_Back split: option.splits phase.splits)
    then show ?thesis using ok by simp
  qed
qed

lemma back_ok:
  assumes ok: "all_ok s" and ins: "inside s p = Some (e, Back)" and p: "p = curr_of (kern s) c"
  shows "pcount (kern s) p = active e"
  using ok ins p by (auto simp: all_ok_def task_ok_def expected_def dest!: spec [of _ p])

lemma sub_active:
  "pcount k p = PREEMPT_ACTIVE \<Longrightarrow> sub_preempt_count cfg PREEMPT_ACTIVE p k = set_pcount p 0 k"
  by (subst sub_count_ok) (simp_all add: preempt_defs)

text \<open>Leaving a call for good: the count is the one the call was made with.\<close>

lemma return_ok:
  assumes ok: "all_ok s" and ins: "inside s p = Some (e, Back)" and p: "p = curr_of (kern s) c"
    and e: "\<And>d. e \<noteq> By_io d" and v: "v < PREEMPT_ACTIVE"
  shows "all_ok (set_inside p None (on_kern (set_pcount p v) s))"
  by (rule outside_ok [OF ok p]) (use ins e v in \<open>auto simp: aside_def\<close>)

lemma io_end_ok:
  assumes ok: "all_ok s" and ins: "inside s p = Some (By_io c0, Back)" and p: "p = curr_of (kern s) c"
  shows "all_ok (io_schedule_end c0 p s)" "pcount (kern (io_schedule_end c0 p s)) p = 0"
proof -
  let ?t = "io_schedule_end c0 p s"
  have cnt: "pcount (kern ?t) q = pcount (kern s) q" for q by (simp add: io_schedule_end_def Let_def pcount_def)
  have ins': "inside ?t = (inside s)(p := None)" "atomic_bugs ?t = atomic_bugs s"
    by (simp_all add: io_schedule_end_def Let_def)
  have cur: "curr_of (kern ?t) d = curr_of (kern s) d" for d by (simp add: io_schedule_end_def Let_def)
  have nri: "nr_iowait (rqs (kern ?t) d) = nr_iowait (rqs (kern s) d) - (if d = c0 then 1 else 0)" for d
    by (simp add: io_schedule_end_def Let_def)
  have w: "io_waiters ?t d = (if d = c0 then io_waiters s d - {p} else io_waiters s d)" for d
    using ins by (auto simp: io_waiters_def ins')
  have m: "p \<in> io_waiters s c0" using ins by (auto simp: io_waiters_def)
  have io: "io_ok s" using ok by (simp add: all_ok_def)
  have "card (io_waiters s c0) \<noteq> 0" using m io by (auto simp: io_ok_def)
  then have "int (card (io_waiters s c0 - {p})) = int (card (io_waiters s c0)) - 1"
    using m io by (simp add: io_ok_def)
  then have "io_ok ?t" using io by (auto simp: io_ok_def w nri)
  moreover show z: "pcount (kern ?t) p = 0" using back_ok [OF ok ins p] by (simp add: cnt active_values)
  have none: "inside ?t p = None" by (simp add: ins')
  have "running ?t p" using p cur unfolding running_def by metis
  then have "task_ok ?t p" using z by (simp add: task_ok_def none PREEMPT_ACTIVE_def)
  moreover have "task_ok ?t q" if "q \<noteq> p" for q
    using ok that task_ok_cong [of ?t q s] by (simp add: all_ok_def ins' cnt cur)
  ultimately have "io_ok ?t" "\<forall>q. task_ok ?t q" by metis+
  then show "all_ok ?t" using ok by (simp add: all_ok_def ins')
qed

lemma preempt_end_ok:
  assumes env: "env_types env" and ok: "all_ok s" and p: "p = curr_of (kern s) c"
    and ins: "inside s p = Some (e, Back)" and e: "e \<in> {By_preempt, By_unlock, By_bh_enable}"
    and rest: "\<And>t. \<lbrakk>all_ok t; outside t c; count_at t c = 0; apart (kern t); apart (kern (rest t))\<rbrakk> \<Longrightarrow> all_ok (rest t)"
    and ap: "apart (kern s)" "apart (kern (preempt_schedule_end env cfg e rest c p s))"
  shows "all_ok (preempt_schedule_end env cfg e rest c p s)"
proof -
  have cnt: "pcount (kern s) p = PREEMPT_ACTIVE" using back_ok [OF ok ins p] e by (auto simp: active_values)
  let ?t = "on_kern (set_pcount p 0) s"
  have z: "set_pcount p PREEMPT_ACTIVE (set_pcount p 0 (kern s)) = set_pcount p PREEMPT_ACTIVE (kern s)"
    by (simp add: set_pcount_def)
  have s0: "on_kern (\<lambda>k. set_pcount p (pcount k p - PREEMPT_ACTIVE) k) s = ?t"
    "on_kern (\<lambda>k. set_pcount p (pcount k p + PREEMPT_ACTIVE) k) ?t = on_kern (set_pcount p PREEMPT_ACTIVE) s"
    by (simp_all add: on_kern_def cnt z)
  have eq: "preempt_schedule_end env cfg e rest c p s
      = (if need_resched (tasks (kern ?t) p) then call_schedule env cfg e c (on_kern (set_pcount p PREEMPT_ACTIVE) s)
         else rest (set_inside p None ?t))"
    unfolding preempt_schedule_end_def Let_def s0 by (rule refl)
  show ?thesis
  proof (cases "need_resched (tasks (kern ?t) p)")
    case True
    have act: "active e = PREEMPT_ACTIVE" using e by (auto simp: active_values)
    have "all_ok (call_schedule env cfg e c (on_kern (set_pcount p PREEMPT_ACTIVE) s))"
      by (rule call_from [OF env ok ap(1) _ p])
        (use ap(2) True e act ins eq in \<open>auto simp: aside_def\<close>)
    then show ?thesis using True unfolding eq by simp
  next
    case False
    let ?u = "set_inside p None ?t"
    have "all_ok ?u" by (rule return_ok [OF ok ins p]) (use e in \<open>auto simp: PREEMPT_ACTIVE_def\<close>)
    moreover have "outside ?u c" "count_at ?u c = 0" using p by (simp_all add: outside_def count_at_def)
    moreover have "apart (kern ?u)" using ap(1) apart_cong [of "kern ?u" "kern s"] by simp
    ultimately show ?thesis using rest [of ?u] False ap(2) unfolding eq by simp
  qed
qed

lemma preempt_irq_end_ok:
  assumes env: "env_types env" and ok: "all_ok s" and p: "p = curr_of (kern s) c"
    and ins: "inside s p = Some (By_preempt_irq, Back)"
    and ap: "apart (kern s)" "apart (kern (preempt_schedule_irq_end env cfg c p s))"
  shows "all_ok (preempt_schedule_irq_end env cfg c p s)"
proof -
  have cnt: "pcount (kern s) p = PREEMPT_ACTIVE" using back_ok [OF ok ins p] by (simp add: active_values)
  let ?i = "set_irqs c True s"
  let ?t = "on_kern (set_pcount p 0) ?i"
  let ?u = "set_irqs c False (on_kern (set_pcount p PREEMPT_ACTIVE) ?t)"
  have s0: "on_kern (sub_preempt_count cfg PREEMPT_ACTIVE p) ?i = ?t"
    using sub_active [OF cnt, of cfg] by (simp add: on_kern_def)
  have s1: "on_kern (add_preempt_count cfg PREEMPT_ACTIVE p) ?t = on_kern (set_pcount p PREEMPT_ACTIVE) ?t"
    using add_active [of "kern ?t" p cfg] by (simp add: on_kern_def)
  have eq: "preempt_schedule_irq_end env cfg c p s
      = (if need_resched (tasks (kern ?t) p) then call_schedule env cfg By_preempt_irq c ?u
         else set_inside p None ?t)"
    unfolding preempt_schedule_irq_end_def Let_def s0 s1 by (rule refl)
  show ?thesis
  proof (cases "need_resched (tasks (kern ?t) p)")
    case True
    have "all_ok (call_schedule env cfg By_preempt_irq c ?u)"
      by (rule call_from [OF env ok ap(1) _ p])
        (use ap(2) True ins eq in \<open>auto simp: aside_def active_values\<close>)
    then show ?thesis using True unfolding eq by simp
  next
    case False
    have "all_ok (set_inside p None ?t)"
      by (rule outside_ok [OF ok p]) (use ins in \<open>auto simp: aside_def PREEMPT_ACTIVE_def\<close>)
    then show ?thesis using False unfolding eq by simp
  qed
qed

lemma leave_values:
  fixes s :: "'x pstate"
  assumes ok: "all_ok s" and ins: "inside s p = Some (e, Back)" and p: "p = curr_of (kern s) c"
  shows "e = By_preempt_disabled \<Longrightarrow> schedule_preempt_disabled_end cfg p s = set_inside p None (on_kern (set_pcount p 1) s)"
    "e = By_cond \<Longrightarrow> cond_resched_end cfg p s = set_inside p None (on_kern (set_pcount p 0) s)"
    "e = By_cond_lock \<Longrightarrow> cond_resched_lock_end cfg p s = set_inside p None (on_kern (set_pcount p 1) s)"
    "e = By_cond_softirq \<Longrightarrow>
       cond_resched_softirq_end cfg p s = set_inside p None (on_kern (set_pcount p SOFTIRQ_DISABLE_OFFSET) s)"
proof -
  have add: "pcount k p = 0 \<Longrightarrow> add_preempt_count cfg v p k = set_pcount p v k" for k :: "'x kernel" and v
    by (subst add_count_ok) simp_all
  have twice: "set_pcount p v (set_pcount p w k) = set_pcount p v k" for v w and k :: "'x kernel"
    by (simp add: set_pcount_def)
  note b = back_ok [OF ok ins p]
  show "e = By_preempt_disabled \<Longrightarrow> schedule_preempt_disabled_end cfg p s = set_inside p None (on_kern (set_pcount p 1) s)"
    using add b by (simp add: schedule_preempt_disabled_end_def active_values on_kern_def)
  show "e = By_cond \<Longrightarrow> cond_resched_end cfg p s = set_inside p None (on_kern (set_pcount p 0) s)"
    using b by (simp add: sub_active cond_resched_end_def active_values on_kern_def)
  show "e = By_cond_lock \<Longrightarrow> cond_resched_lock_end cfg p s = set_inside p None (on_kern (set_pcount p 1) s)"
    using b add by (simp add: sub_active cond_resched_lock_end_def active_values on_kern_def twice)
  show "e = By_cond_softirq \<Longrightarrow>
       cond_resched_softirq_end cfg p s = set_inside p None (on_kern (set_pcount p SOFTIRQ_DISABLE_OFFSET) s)"
    using b add by (simp add: sub_active cond_resched_softirq_end_def active_values on_kern_def twice)
qed

lemma leave_ok:
  assumes env: "env_types env" and ok: "all_ok s"
    and ap: "apart (kern s)" "apart (kern (caller_end env cfg c s))"
  shows "all_ok (caller_end env cfg c s)"
proof -
  let ?p = "curr_of (kern s) c"
  show ?thesis
  proof (cases "\<exists>e. inside s ?p = Some (e, Back)")
    case True
    then obtain e where ins: "inside s ?p = Some (e, Back)" by blast
    note v = leave_values [OF ok ins refl] and r = return_ok [OF ok ins refl]
    note b = back_ok [OF ok ins refl]
    have small: "(0 :: u32) < PREEMPT_ACTIVE" "(1 :: u32) < PREEMPT_ACTIVE" "SOFTIRQ_DISABLE_OFFSET < PREEMPT_ACTIVE"
      by (simp_all add: preempt_defs)
    have run: "caller_end env cfg c s = (case e of
             By_schedule \<Rightarrow> set_inside ?p None s
           | By_preempt_disabled \<Rightarrow> schedule_preempt_disabled_end cfg ?p s
           | By_io c0 \<Rightarrow> io_schedule_end c0 ?p s
           | By_preempt \<Rightarrow> preempt_schedule_end env cfg By_preempt id c ?p s
           | By_preempt_irq \<Rightarrow> preempt_schedule_irq_end env cfg c ?p s
           | By_cond \<Rightarrow> cond_resched_end cfg ?p s
           | By_unlock \<Rightarrow>
               preempt_schedule_end env cfg By_unlock (cond_resched_by env cfg By_cond_lock c) c ?p s
           | By_cond_lock \<Rightarrow> cond_resched_lock_end cfg ?p s
           | By_bh_enable \<Rightarrow>
               preempt_schedule_end env cfg By_bh_enable (cond_resched_by env cfg By_cond_softirq c) c ?p s
           | By_cond_softirq \<Rightarrow> cond_resched_softirq_end cfg ?p s)"
      unfolding caller_end_def Let_def ins by simp
    note ap2 = ap(2) [unfolded run]
    show ?thesis
    proof (cases e)
      case By_schedule
      have "all_ok (set_inside ?p None s)"
        by (rule outside_ok [OF ok refl]) (use ins b By_schedule small in \<open>auto simp: aside_def active_values\<close>)
      then show ?thesis unfolding run By_schedule by simp
    next
      case By_preempt_disabled
      show ?thesis unfolding run using v(1) r small(2) By_preempt_disabled by simp
    next
      case (By_io d)
      show ?thesis unfolding run using io_end_ok(1) [OF ok _ refl] ins By_io by simp
    next
      case By_preempt
      show ?thesis unfolding run
        using preempt_end_ok [OF env ok refl ins, of id cfg] By_preempt ap ap2 by simp
    next
      case By_preempt_irq
      show ?thesis unfolding run
        using preempt_irq_end_ok [OF env ok refl _ ap(1)] ins By_preempt_irq ap2 by simp
    next
      case By_cond
      show ?thesis unfolding run using v(2) r small(1) By_cond by simp
    next
      case By_unlock
      show ?thesis unfolding run
        using preempt_end_ok [OF env ok refl ins _ cond_by_ok [OF env, where e = By_cond_lock] ap(1)] By_unlock ap2
        by simp
    next
      case By_cond_lock
      show ?thesis unfolding run using v(3) r small(2) By_cond_lock by simp
    next
      case By_bh_enable
      show ?thesis unfolding run
        using preempt_end_ok [OF env ok refl ins _ cond_by_ok [OF env, where e = By_cond_softirq] ap(1)] By_bh_enable ap2
        by simp
    next
      case By_cond_softirq
      show ?thesis unfolding run using v(4) r small(3) By_cond_softirq by simp
    qed
  next
    case False
    then have "caller_end env cfg c s = s"
      by (auto simp: caller_end_def Let_def not_Back split: option.splits phase.splits)
    then show ?thesis using ok by simp
  qed
qed

lemma leave_count:
  fixes s :: "'x pstate" and cfg :: "'x pcfg"
  assumes ok: "all_ok s" and ins: "inside s (curr_of (kern s) c) = Some (e, Back)"
    and none: "inside (caller_end env cfg c s) (curr_of (kern s) c) = None"
  shows "pcount (kern (caller_end env cfg c s)) (curr_of (kern s) c) = entry_count e"
proof -
  let ?p = "curr_of (kern s) c"
  note v = leave_values [OF ok ins refl] and b = back_ok [OF ok ins refl]
  have pe: "inside (preempt_schedule_end env cfg e' (cond_resched_by env cfg e'' c) c ?p s) ?p \<noteq> None" for e' e''
    by (simp add: preempt_schedule_end_def Let_def call_schedule_def cond_resched_by_def)
  have id: "pcount (kern (preempt_schedule_end env cfg By_preempt id c ?p s)) ?p = 0"
    if "e = By_preempt" "inside (preempt_schedule_end env cfg By_preempt id c ?p s) ?p = None"
    using that b by (simp add: preempt_schedule_end_def Let_def call_schedule_def active_values split: if_splits)
  have irq: "pcount (kern (preempt_schedule_irq_end env cfg c ?p s)) ?p = 0"
    if "e = By_preempt_irq" "inside (preempt_schedule_irq_end env cfg c ?p s) ?p = None"
    using that b sub_active [of "kern s" ?p cfg]
    by (simp add: preempt_schedule_irq_end_def Let_def call_schedule_def active_values split: if_splits)
  show ?thesis
    using none ins v b pe id irq io_end_ok(2) [OF ok _ refl]
    by (cases e) (simp_all add: caller_end_def Let_def entry_count_def active_values)
qed

section \<open>New tasks\<close>

definition elsewhere :: "tid \<Rightarrow> 'x kernel \<Rightarrow> 'x kernel \<Rightarrow> bool" where
  "elsewhere p k a \<longleftrightarrow> (\<forall>q. q \<noteq> p \<longrightarrow> preempt_count (tasks a q) = preempt_count (tasks k q))
     \<and> (\<forall>d. nr_iowait (rqs a d) = nr_iowait (rqs k d) \<and> curr (rqs a d) = curr (rqs k d))"

named_theorems elsewheres \<open>operations that change the count of one task only\<close>

lemmas elsewhere_rules [elsewheres] = op_rules [where P = "elsewhere p k" for p k]

lemmas elsewhere_lets = op_lets [where P = "elsewhere p k" for p k]

lemma elsewhere_refl: "elsewhere p k k"
  by (simp add: elsewhere_def)

lemma elsewhere_upd [elsewheres]: "elsewhere p k a \<Longrightarrow> elsewhere p k (upd_task p g a)"
  "elsewhere p k a \<Longrightarrow> elsewhere p k (rt_q_update h1 a)" "elsewhere p k a \<Longrightarrow> elsewhere p k (wrr_q_update h2 a)"
  by (simp_all add: elsewhere_def)

lemma elsewhere_keep: "\<lbrakk>elsewhere p k a; keep a b\<rbrakk> \<Longrightarrow> elsewhere p k b"
  using params_of_eqD(14) [OF keepD] keep_rqD unfolding elsewhere_def by metis

lemma elsewhere_kept [elsewheres]:
  assumes "env_types env" "elsewhere p k a"
  shows "elsewhere p k (class_task_fork env q a)" "elsewhere p k (set_task_cpu env q c a)"
    "elsewhere p k (set_load_weight q a)"
  using assms(1)
  by (auto simp: class_task_fork_def env_types_def set_load_weight_def Let_def
      intro!: elsewhere_keep [OF assms(2)] keep_set_task_cpu keep_class_ext keep_refl keep_task_fields
      split: sched_class.splits)

lemma sched_fork_counts:
  assumes env: "env_types env"
  shows "elsewhere p k (sched_fork env p k)" "preempt_count (tasks (sched_fork env p k) p) = 1"
proof -
  show "elsewhere p k (sched_fork env p k)"
    unfolding sched_fork_def sched_fork_init_def
    by (assumption | rule env elsewhere_refl | rule elsewheres | rule elsewhere_lets)+
  show "preempt_count (tasks (sched_fork env p k) p) = 1"
    by (simp add: sched_fork_def Let_def)
qed

lemma fork_ok:
  assumes env: "env_types env" and ok: "all_ok s" and p: "\<not> running s p" "inside s p = None"
  shows "all_ok (on_kern (sched_fork env p) s)"
proof -
  let ?t = "on_kern (sched_fork env p) s"
  have e: "elsewhere p (kern s) (kern ?t)" "preempt_count (tasks (kern ?t) p) = 1"
    using sched_fork_counts [OF env] by simp_all
  have cur: "curr_of (kern ?t) d = curr_of (kern s) d" for d using e(1) by (simp only: elsewhere_def)
  have "task_ok ?t q" if "q \<noteq> p" for q
    using ok that task_ok_cong [of ?t q s] cur e(1) by (simp add: all_ok_def elsewhere_def pcount_def)
  moreover have "task_ok ?t p"
    using p cur e(2) by (simp add: task_ok_def running_def pcount_def)
  ultimately have "\<forall>q. task_ok ?t q" by metis
  moreover have "io_ok ?t" using ok io_ok_cong [of ?t s] e(1) by (simp add: all_ok_def elsewhere_def)
  ultimately show ?thesis using ok by (simp add: all_ok_def)
qed

section \<open>In every run\<close>

lemma rest_ok:
  assumes ok: "all_ok s" and k': "\<And>p. preempt_count (tasks k' p) = preempt_count (tasks (kern s) p)"
    "\<And>d. nr_iowait (rqs k' d) = nr_iowait (rqs (kern s) d)" "\<And>d. curr_of k' d = curr_of (kern s) d"
  shows "all_ok (s\<lparr>kern := k'\<rparr>)"
proof -
  have "task_ok (s\<lparr>kern := k'\<rparr>) q" for q
    using ok task_ok_cong [of "s\<lparr>kern := k'\<rparr>" q s] k' by (simp add: all_ok_def pcount_def)
  moreover have "io_ok (s\<lparr>kern := k'\<rparr>)"
    using ok io_ok_cong [of "s\<lparr>kern := k'\<rparr>" s] k' by (simp add: all_ok_def)
  ultimately show ?thesis using ok by (simp add: all_ok_def)
qed

lemma irqs_ok: "all_ok s \<Longrightarrow> all_ok (set_irqs c b s)"
  using task_ok_cong [of "set_irqs c b s" _ s] io_ok_cong [of "set_irqs c b s" s] by (simp add: all_ok_def)

lemma preempt_step_ok:
  assumes "preempt_step env cfg s s'" "env_types env" "cfg_ok cfg" "all_ok s" "apart (kern s)" "apart (kern s')"
  shows "all_ok s'"
  using assms(1)
proof cases
  case (preempt c)
  then show ?thesis
    using preempt_by_ok [OF assms(2,4) _ _ assms(5), of c By_preempt cfg] assms(6) by (simp add: preempt_schedule_def)
next
  case (enable c)
  have "count_at s c \<noteq> 0" using enable(3) by auto
  then have "1 \<le> count_at s c" by (simp add: word_le_nat_alt Suc_le_eq unat_gt_0)
  then show ?thesis
    using enable_ok [OF assms(2,4) enable(2), of 1 By_preempt cfg] enable assms(5,6) by simp
next
  case rest
  then show ?thesis using rest_ok [OF assms(4)] by simp
qed (use assms in \<open>simp_all add: schedule_call_ok preempt_disabled_ok io_schedule_ok preempt_irq_ok disable_ok
    cond_ok cond_lock_ok cond_softirq_ok yield_to_ok end_ok leave_ok irqs_ok fork_ok\<close>)

lemma boot_ok:
  assumes "preempt_boot s"
  shows "all_ok s"
proof -
  have "io_waiters s c = {}" for c using assms by (simp add: preempt_boot_def io_waiters_def)
  then have "io_ok s" using assms by (simp add: preempt_boot_def io_ok_def)
  moreover have "task_ok s p" for p using assms by (simp add: preempt_boot_def task_ok_def PREEMPT_ACTIVE_def)
  ultimately show ?thesis using assms by (simp add: preempt_boot_def all_ok_def)
qed

lemma reach_ok:
  assumes "preempt_reach env cfg s" "env_types env" "cfg_ok cfg"
  shows "all_ok s \<and> apart (kern s)"
  using assms
proof induction
  case (boot s)
  then show ?case using boot_ok by (simp add: preempt_boot_def)
next
  case (step s s')
  then show ?case using preempt_step_ok by blast
qed

lemma bit_30: "x < PREEMPT_ACTIVE \<Longrightarrow> \<not> bit (x :: u32) 30"
  by (simp add: bit_iff_odd PREEMPT_ACTIVE_def div_word_less)

lemma bit_expected: "bit (expected e ph r) 30 \<longleftrightarrow> preempting e"
proof -
  have "bit (PREEMPT_ACTIVE + n) 30" "\<not> bit n 30" if "n \<in> {0, 1, 2}" for n
    using that by (auto simp: PREEMPT_ACTIVE_def bit_iff_odd)
  from this [of 0] this [of 1] this [of 2] show ?thesis by (cases ph; cases r; cases "preempting e"; simp add: expected_def active_def)
qed

text \<open>
  C9. Preemption counts in every run. Whatever calls of \<open>__schedule\<close> the tasks make on the cpus, and
  wherever they run again: a task inside a call has exactly the count of that call, so
  \<open>PREEMPT_ACTIVE\<close> marks the tasks inside a preempting call and no others; when a call returns, the
  count is the one the call is made with; scheduling while atomic is never reported; and
  \<open>nr_iowait\<close> of a cpu is the number of tasks inside an \<open>io_schedule\<close> that began there.
\<close>

theorem preempt_counts_exact:
  assumes "preempt_reach env cfg s" "env_types env" "cfg_ok cfg"
  shows "(\<forall>p e ph. inside s p = Some (e, ph) \<longrightarrow>
        pcount (kern s) p = (if preempting e then PREEMPT_ACTIVE else 0)
          + (case ph of Switching \<Rightarrow> if running s p then 1 else 2 | Back \<Rightarrow> 0))
    \<and> (\<forall>p. bit (pcount (kern s) p) 30 \<longleftrightarrow> (\<exists>e ph. inside s p = Some (e, ph) \<and> preempting e))
    \<and> (\<forall>c e. let p = curr_of (kern s) c; s' = caller_end env cfg c s in
         inside s p = Some (e, Back) \<and> inside s' p = None \<longrightarrow> pcount (kern s') p = entry_count e)
    \<and> atomic_bugs s = 0
    \<and> (\<forall>c. finite (io_waiters s c) \<and> nr_iowait (rqs (kern s) c) = int (card (io_waiters s c)))"
proof -
  have ok: "all_ok s" "apart (kern s)" using reach_ok [OF assms] by blast+
  have t: "task_ok s p" for p using ok by (simp add: all_ok_def)
  have ex: "pcount (kern s) p = expected e ph (running s p)" if "inside s p = Some (e, ph)" for p e ph
    using t [of p] that by (simp add: task_ok_def)
  have "bit (pcount (kern s) p) 30 \<longleftrightarrow> (\<exists>e ph. inside s p = Some (e, ph) \<and> preempting e)" for p
  proof (cases "inside s p")
    case None
    then have "pcount (kern s) p < PREEMPT_ACTIVE"
      using t [of p] by (auto simp: task_ok_def PREEMPT_ACTIVE_def split: if_splits)
    then show ?thesis using None bit_30 by simp
  next
    case (Some x)
    then show ?thesis using ex [of p "fst x" "snd x"] by (cases x) (simp add: bit_expected)
  qed
  moreover have "pcount (kern (caller_end env cfg c s)) (curr_of (kern s) c) = entry_count e"
    if "inside s (curr_of (kern s) c) = Some (e, Back)" "inside (caller_end env cfg c s) (curr_of (kern s) c) = None"
    for c e by (rule leave_count [OF ok(1) that])
  ultimately show ?thesis using ok ex by (simp add: all_ok_def io_ok_def expected_def active_def Let_def)
qed

section \<open>A preempted task stays on its runqueue\<close>

definition same_queued :: "'x kernel \<Rightarrow> 'x kernel \<Rightarrow> bool" where
  "same_queued k a \<longleftrightarrow> (\<forall>p. on_rq (tasks a p) = on_rq (tasks k p) \<and> state (tasks a p) = state (tasks k p))"

named_theorems same_queueds \<open>operations that put no task on a runqueue and take none off\<close>

lemmas same_queued_rules [same_queueds] = op_rules [where P = "same_queued k" for k]

lemmas same_queued_lets = op_lets [where P = "same_queued k" for k]

lemma same_queued_fields [same_queueds]:
  "same_queued k a \<Longrightarrow> same_queued k (upd_task p (\<lambda>t. t\<lparr>need_resched := x1 t\<rparr>) a)"
  "same_queued k a \<Longrightarrow> same_queued k (upd_task p (\<lambda>t. t\<lparr>on_cpu := x4 t\<rparr>) a)"
  "same_queued k a \<Longrightarrow> same_queued k (upd_task p (\<lambda>t. t\<lparr>active_mm := x5 t\<rparr>) a)"
  "same_queued k a \<Longrightarrow> same_queued k (upd_task p (\<lambda>t. t\<lparr>nvcsw := x6 t\<rparr>) a)"
  "same_queued k a \<Longrightarrow> same_queued k (upd_task p (\<lambda>t. t\<lparr>nivcsw := x7 t\<rparr>) a)"
  "same_queued k a \<Longrightarrow> same_queued k (rqs_update f a)"
  by (simp_all add: same_queued_def)

lemma same_queued_refl: "same_queued k k"
  by (simp add: same_queued_def)

lemma same_queued_keep: "\<lbrakk>same_queued k a; keep a b\<rbrakk> \<Longrightarrow> same_queued k b"
  using params_of_eqD(10,11) [OF keepD] unfolding same_queued_def by metis

lemma same_queued_kept [same_queueds]:
  assumes env: "env_types env" and a: "same_queued k a"
  shows "same_queued k (pre_schedule env d p a)" "same_queued k (put_prev_task env d p a)"
    "same_queued k (snd (pick_next_task env d a))" "same_queued k (post_schedule_rq env d a)"
    "same_queued k (newidle_balance env d a)"
  using env
  by (auto simp: env_types_def intro: same_queued_keep [OF a] keep_pre_schedule [OF _ keep_refl]
      keep_put_prev_task [OF _ keep_refl] keep_pick_next_task [OF _ keep_refl]
      keep_post_schedule_rq [OF _ keep_refl])

lemma schedule_queued:
  fixes k :: "'x kernel" and c :: cpu
  assumes env: "env_types env"
  defines "a \<equiv> upd_rq c (\<lambda>r. r\<lparr>sched_count := sched_count r + 1\<rparr>) k"
  shows "same_queued (if state (tasks k (curr_of k c)) \<noteq> 0 \<and> \<not> preempt_active (tasks k (curr_of k c))
                      then deactivate_prev env c (curr_of k c) a else a) (schedule_once env c k)"
proof -
  let ?b = "if state (tasks k (curr_of k c)) \<noteq> 0 \<and> \<not> preempt_active (tasks k (curr_of k c))
            then deactivate_prev env c (curr_of k c) a else a"
  define b where "b = ?b"
  have t: "tasks a = tasks k" by (simp add: a_def)
  have "same_queued b (schedule_once env c k)"
    unfolding schedule_once_def context_switch_def finish_task_switch_def Let_def
      a_def [symmetric] t b_def [symmetric]
    by (assumption | rule env same_queued_refl | rule same_queueds | rule same_queued_lets)+
  then show ?thesis unfolding b_def .
qed

lemma preempt_active_count: "preempt_active (tasks k p) \<longleftrightarrow> bit (pcount k p) 30"
  by (simp add: preempt_active_def pcount_def bit_of_nat_iff possible_bit_def)

lemma deactivate_prev_off:
  assumes env: "env_types env" and "\<not> signal_pending_state (state (tasks k p)) p k" "flags (tasks k p) AND PF_WQ_WORKER = 0"
  shows "\<not> on_rq (tasks (deactivate_prev env c p k) p)"
proof -
  have "keep k (deactivate_task env c p DEQUEUE_SLEEP k)"
    by (rule keep_deactivate_task [OF env_types_ok [OF env] keep_refl])
  then have "flags (tasks (deactivate_task env c p DEQUEUE_SLEEP k) p) = flags (tasks k p)"
    by (rule params_of_eqD(12) [OF keepD])
  then show ?thesis using assms(2,3) by (simp add: deactivate_prev_def Let_def)
qed

lemma count_fields [simp]:
  "on_rq (tasks (sub_preempt_count cfg v q k) p) = on_rq (tasks k p)"
  "state (tasks (sub_preempt_count cfg v q k) p) = state (tasks k p)"
  "on_rq (tasks (set_pcount q v k) p) = on_rq (tasks k p)" "state (tasks (set_pcount q v k) p) = state (tasks k p)"
  "flags (tasks (set_pcount q v k) p) = flags (tasks k p)"
  by (simp_all add: sub_preempt_count_def set_pcount_def)

text \<open>
  C10. What \<open>PREEMPT_ACTIVE\<close> is for. A task preempted by the kernel stays on its runqueue, even if it has
  already set its state in order to sleep: preemption puts no task on a runqueue, takes none off, and
  leaves every task's state alone. A call of \<open>schedule\<close> in the same state takes the task off
  (unless a signal is pending).
\<close>

theorem preempted_stays_queued:
  assumes env: "env_types env" and "count_at s c = 0" "\<not> irqs_disabled s c"
  shows "let k = kern s; p = curr_of k c; k' = kern (preempt_schedule env cfg c s) in
    (\<forall>q. on_rq (tasks k' q) = on_rq (tasks k q) \<and> state (tasks k' q) = state (tasks k q))
    \<and> (state (tasks k p) \<noteq> 0 \<and> \<not> signal_pending_state (state (tasks k p)) p k
         \<and> flags (tasks k p) AND PF_WQ_WORKER = 0
       \<longrightarrow> \<not> on_rq (tasks (kern (schedule_call env cfg By_schedule c s)) p))"
proof -
  let ?k = "kern s" and ?p = "curr_of (kern s) c"
  have z: "pcount ?k ?p = 0" using assms(2) by (simp add: count_at_def)
  let ?t = "set_inside ?p (Some (By_preempt, Switching)) (on_kern (set_pcount ?p PREEMPT_ACTIVE) s)"
  let ?k1 = "set_pcount ?p (PREEMPT_ACTIVE + 2) (kern ?t)"
  have "preempt_schedule env cfg c s = schedule_turn env cfg c ?t"
    using z assms(3) by (simp add: preempt_schedule_def preempt_schedule_by_def Let_def call_schedule_def)
  moreover have "kern (schedule_turn env cfg c ?t)
      = sub_preempt_count cfg 1 (curr_of (schedule_once env c ?k1) c) (schedule_once env c ?k1)"
    using turn_kern(1) [of ?p ?t c By_preempt env cfg] by (simp add: active_values)
  moreover have "preempt_active (tasks ?k1 ?p)"
    unfolding preempt_active_count by (simp add: PREEMPT_ACTIVE_def bit_iff_odd)
  then have "same_queued (upd_rq c (\<lambda>r. r\<lparr>sched_count := sched_count r + 1\<rparr>) ?k1) (schedule_once env c ?k1)"
    using schedule_queued [OF env, of ?k1 c] by simp
  ultimately have one: "\<forall>q. on_rq (tasks (kern (preempt_schedule env cfg c s)) q) = on_rq (tasks ?k q)
      \<and> state (tasks (kern (preempt_schedule env cfg c s)) q) = state (tasks ?k q)"
    by (simp add: same_queued_def)
  let ?u = "set_inside ?p (Some (By_schedule, Switching)) (on_kern (sched_submit_work cfg ?p) s)"
  let ?k2 = "set_pcount ?p 2 (kern ?u)"
  let ?a = "upd_rq c (\<lambda>r. r\<lparr>sched_count := sched_count r + 1\<rparr>) ?k2"
  have two: "\<not> on_rq (tasks (kern (schedule_call env cfg By_schedule c s)) ?p)"
    if st: "state (tasks ?k ?p) \<noteq> 0" "\<not> signal_pending_state (state (tasks ?k ?p)) ?p ?k"
      "flags (tasks ?k ?p) AND PF_WQ_WORKER = 0"
  proof -
    have "schedule_call env cfg By_schedule c s = schedule_turn env cfg c ?u"
      by (simp add: schedule_call_def call_schedule_def)
    moreover have "kern (schedule_turn env cfg c ?u)
        = sub_preempt_count cfg 1 (curr_of (schedule_once env c ?k2) c) (schedule_once env c ?k2)"
      using turn_kern(1) [of ?p ?u c By_schedule env cfg] z by (simp add: active_values)
    moreover have "\<not> preempt_active (tasks ?k2 ?p)"
      unfolding preempt_active_count by (simp add: bit_iff_odd)
    then have "same_queued (deactivate_prev env c ?p ?a) (schedule_once env c ?k2)"
      using schedule_queued [OF env, of ?k2 c] st(1) by simp
    moreover have "\<not> on_rq (tasks (deactivate_prev env c ?p ?a) ?p)"
      by (rule deactivate_prev_off [OF env])
        (use st in \<open>simp_all add: signal_pending_state_def set_pcount_def\<close>)
    ultimately show ?thesis by (simp add: same_queued_def)
  qed
  show ?thesis using one two unfolding Let_def by blast
qed

section \<open>\<open>__cond_resched_lock\<close> schedules twice\<close>

text \<open>
  The comment of \<open>__cond_resched_lock\<close> says that \<open>schedule\<close> is not called twice. It is: \<open>spin_unlock\<close>
  finds the task to be rescheduled and calls \<open>preempt_schedule\<close>, and when that has returned
  \<open>__cond_resched\<close> calls \<open>__schedule\<close> once more.
\<close>

lemma cond_resched_lock_schedules_twice:
  assumes "outside s c" "count_at s c = 1" "need_resched (tasks (kern s) (curr_of (kern s) c))" "\<not> irqs_disabled s c"
    and "inside t (curr_of (kern t) d) = Some (By_unlock, Back)" "\<not> need_resched (tasks (kern t) (curr_of (kern t) d))"
  shows "inside (snd (cond_resched_lock env cfg contended c s)) (curr_of (kern s) c) = Some (By_unlock, Switching)
    \<and> inside (caller_end env cfg d t) (curr_of (kern t) d) = Some (By_cond_lock, Switching)"
proof -
  let ?p = "curr_of (kern s) c"
  have one: "pcount (kern s) ?p = 1" using assms(2) by (simp add: count_at_def)
  have "pcount (kern s) ?p AND PREEMPT_ACTIVE = 0" by (simp add: one PREEMPT_ACTIVE_def)
  then have r: "should_resched (kern s) ?p" using assms(3) by (simp add: should_resched_def)
  have "sub_preempt_count cfg 1 ?p (kern s) = set_pcount ?p 0 (kern s)"
    using one by (subst sub_count_ok) (simp_all add: preempt_defs)
  then have "inside (preempt_enable_by env cfg By_unlock 1 c s) ?p = Some (By_unlock, Switching)"
    using assms(3,4) by (simp add: preempt_enable_by_def Let_def preempt_schedule_by_def call_schedule_def)
  moreover have "inside (caller_end env cfg d t) (curr_of (kern t) d) = Some (By_cond_lock, Switching)"
    using assms(5,6) by (simp add: caller_end_def Let_def preempt_schedule_end_def cond_resched_by_def call_schedule_def)
  ultimately show ?thesis using r by (simp add: cond_resched_lock_def Let_def)
qed

section \<open>A run\<close>

text \<open>
  Task 0, the idle task, runs on cpu 0 and is to be rescheduled; task 2 of the fair class waits there. The
  other cpus run tasks of their own.
\<close>

definition cfg0 :: "unit pcfg" where
  "cfg0 = \<lparr>debug_preempt = True, oops_in_progress = False, tsk_is_pi_blocked = (\<lambda>_ _. False),
     blk_needs_flush_plug = (\<lambda>_ _. False), blk_schedule_flush_plug = (\<lambda>_ x. x),
     blk_flush_plug = (\<lambda>_ x. x), exit_state = (\<lambda>_ _. 0), yield_to_ext = (\<lambda>_. None)\<rparr>"

definition env_p :: "unit env" where
  "env_p = env_c\<lparr>class_ext := (\<lambda>_. counting_ops\<lparr>op_pick_next_task := (\<lambda>c k. (Some 2, k))\<rparr>)\<rparr>"

definition k_p :: "unit kernel" where
  "k_p = k0\<lparr>tasks := (\<lambda>p. (tasks k0 p)\<lparr>preempt_count := (if p = 0 \<or> 10 < p then 0 else 1),
            state := (if p = 0 then 1 else 0), on_rq := p = 0 \<or> p = 2, need_resched := p = 0\<rparr>),
         rqs := (\<lambda>c. (rqs k0 c)\<lparr>curr := (if c = 0 then 0 else c + 10)\<rparr>)\<rparr>"

definition s_p :: "unit pstate" where
  "s_p = \<lparr>kern = k_p, irqs_disabled = (\<lambda>_. False), inside = (\<lambda>_. None), atomic_bugs = 0\<rparr>"

lemma k_p_fields:
  "preempt_count (tasks k_p p) = (if p = 0 \<or> 10 < p then 0 else 1)"
  "curr (rqs k_p c) = (if c = 0 then 0 else c + 10)" "nr_iowait (rqs k_p c) = 0"
  by (simp_all add: k_p_def k0_def rq0_def)

lemma env_p_types: "env_types env_p"
  using env_c_types by (simp add: env_p_def env_types_def env_ok_def ops_ok_def env_c_def keep_refl)

lemma cfg0_ok: "cfg_ok cfg0"
  by (simp add: cfg_ok_def cfg0_def)

lemma s_p_boot: "preempt_boot s_p"
proof -
  have r: "running s_p p \<longleftrightarrow> p = 0 \<or> 10 < p" for p
  proof
    assume "p = 0 \<or> 10 < p"
    then have "curr_of (kern s_p) (p - 10) = p" by (auto simp: s_p_def k_p_fields)
    then show "running s_p p" unfolding running_def by blast
  qed (auto simp: running_def s_p_def k_p_fields split: if_splits)
  then show ?thesis
    by (auto simp: preempt_boot_def r s_p_def k_p_fields pcount_def apart_def inj_def)
qed

definition s_q :: "unit pstate" where
  "s_q = preempt_schedule env_p cfg0 0 s_p"

lemma s_q_call:
  "s_q = call_schedule env_p cfg0 By_preempt 0 (on_kern (set_pcount 0 (pcount k_p 0 + PREEMPT_ACTIVE)) s_p)"
  by (simp add: s_q_def preempt_schedule_def preempt_schedule_by_def Let_def s_p_def k_p_fields pcount_def)

lemma s_q_inside: "inside s_q 0 = Some (By_preempt, Switching)"
  by (simp add: s_q_call call_schedule_def s_p_def k_p_fields)

lemma env_p_ops:
  "class_of (tasks k p) = idle_sched_class \<Longrightarrow> pre_schedule env_p c p k = k"
  "newidle_balance env_p c k = k" "class_pick_next_task env_p fair_sched_class c k = (Some 2, k)"
  "class_of (tasks k p) = idle_sched_class \<Longrightarrow> class_put_prev_task env_p c p k = k"
  by (simp_all add: pre_schedule_def class_pick_next_task_def class_put_prev_task_def
      env_p_def env_c_def env0_def counting_ops_def ops0_def)

lemma clock_frame:
  "nr_running (rqs (update_rq_clock c k) d) = nr_running (rqs k d)"
  "cfs_h_nr_running (rqs (update_rq_clock c k) d) = cfs_h_nr_running (rqs k d)"
  "tasks (update_rq_clock c k) = tasks k"
  by (simp_all add: update_rq_clock_def update_rq_clock_task_def Let_def)

lemma once_switches:
  assumes "preempt_active (tasks k 0)" "curr (rqs k 0) = 0" "class_of (tasks k 0) = idle_sched_class"
    "nr_running (rqs k 0) = cfs_h_nr_running (rqs k 0)"
  shows "curr (rqs (schedule_once env_p 0 k) 0) = 2"
proof -
  let ?a = "upd_rq 0 (\<lambda>r. r\<lparr>sched_count := sched_count r + 1\<rparr>) k"
  define b where "b = put_prev_task env_p 0 0 ?a"
  have b: "b = update_rq_clock 0 ?a \<or> b = ?a"
    using assms(3) by (simp add: b_def put_prev_task_def Let_def env_p_ops(4) clock_frame)
  then have "nr_running (rqs b 0) = cfs_h_nr_running (rqs b 0)" using assms(4) by (auto simp: clock_frame)
  then have pick: "pick_next_task env_p 0 b = (Some 2, b)" by (simp add: pick_next_task_def env_p_ops(3))
  have post: "curr (rqs (post_schedule_rq env_p d x) e) = curr (rqs x e)" for d e x
    by (rule keep_rqD(2) [OF keep_post_schedule_rq [OF env_types_ok [OF env_p_types] keep_refl]])
  have "pre_schedule env_p 0 0 ?a = ?a" using assms(3) by (intro env_p_ops(1)) simp
  then have "schedule_once env_p 0 k = (let k = upd_task 0 (\<lambda>t. t\<lparr>need_resched := False\<rparr>) b;
              k = upd_rq 0 (\<lambda>r. r\<lparr>skip_clock_update := 0\<rparr>) k;
              k = upd_rq 0 (\<lambda>r. r\<lparr>nr_switches := nr_switches r + 1, curr := 2\<rparr>) k;
              k = upd_task 0 (\<lambda>t. t\<lparr>nivcsw := nivcsw t + 1\<rparr>) k
          in post_schedule_rq env_p 0 (context_switch env_p 0 0 2 k))"
    using assms(1,2) pick unfolding schedule_once_def Let_def b_def by (simp add: env_p_ops(2))
  then show ?thesis by (simp add: Let_def post context_switch_def finish_task_switch_def)
qed

lemma s_q_switched: "curr_of (kern s_q) 0 = 2"
proof -
  let ?s = "set_inside 0 (Some (By_preempt, Switching)) (on_kern (set_pcount 0 (pcount k_p 0 + PREEMPT_ACTIVE)) s_p)"
  let ?k = "set_pcount 0 (PREEMPT_ACTIVE + 2) (kern ?s)"
  have "s_q = schedule_turn env_p cfg0 0 ?s"
    by (simp add: s_q_call call_schedule_def s_p_def k_p_fields)
  moreover have "pcount k_p 0 = 0" by (simp add: pcount_def k_p_fields)
  then have "pcount (kern ?s) 0 = active By_preempt" "curr_of (kern ?s) 0 = 0"
    by (simp_all add: active_values s_p_def k_p_fields)
  note turn_kern(1) [OF this(2) [symmetric] this(1), of env_p cfg0]
  moreover have "preempt_active (tasks ?k 0)"
    unfolding preempt_active_count by (simp add: PREEMPT_ACTIVE_def bit_iff_odd)
  then have "curr (rqs (schedule_once env_p 0 ?k) 0) = 2"
    by (rule once_switches)
      (simp_all add: set_pcount_def s_p_def k_p_def k0_def rq0_def task0_def)
  ultimately show ?thesis by (simp add: active_values)
qed

lemma s_q_reach: "preempt_reach env_p cfg0 s_q"
proof (rule preempt_reach.step [OF preempt_reach.boot [OF s_p_boot]])
  show "preempt_step env_p cfg0 s_p s_q"
    unfolding s_q_def by (rule preempt_step.preempt) (simp add: outside_def s_p_def)
  have "curr_of (kern s_q) c = c + 10" if "c \<noteq> 0" for c
    unfolding s_q_call call_schedule_def turn_curr [OF env_p_types that]
    using that by (simp add: s_p_def k_p_fields)
  then have "curr_of (kern s_q) = (\<lambda>c. if c = 0 then 2 else c + 10)"
    using s_q_switched by (auto simp: fun_eq_iff)
  then show "apart (kern s_q)" by (simp add: apart_def inj_def)
qed

theorem preempt_counts_exact_witness:
  "inside s_q 0 = Some (By_preempt, Switching) \<and> bit (pcount (kern s_q) 0) 30 \<and> atomic_bugs s_q = 0
   \<and> nr_iowait (rqs (kern s_q) 0) = int (card (io_waiters s_q 0))"
proof -
  have "preempting By_preempt" by (simp add: preempting_def)
  then show ?thesis
    using preempt_counts_exact [OF s_q_reach env_p_types cfg0_ok] s_q_inside by blast
qed

theorem preempted_stays_queued_witness:
  "on_rq (tasks (kern (preempt_schedule env_p cfg0 0 s_p)) 0)
   \<and> \<not> on_rq (tasks (kern (schedule_call env_p cfg0 By_schedule 0 s_p)) 0)"
proof -
  have z: "count_at s_p 0 = 0" "\<not> irqs_disabled s_p 0"
    by (simp_all add: count_at_def pcount_def s_p_def k_p_fields)
  have p: "curr_of (kern s_p) 0 = 0" by (simp add: s_p_def k_p_fields)
  have "on_rq (tasks (kern s_p) 0)" "state (tasks (kern s_p) 0) \<noteq> 0"
    "\<not> signal_pending_state (state (tasks (kern s_p) 0)) 0 (kern s_p)"
    "flags (tasks (kern s_p) 0) AND PF_WQ_WORKER = 0"
    by (simp_all add: s_p_def k_p_def k0_def task0_def signal_pending_state_def)
  then show ?thesis using preempted_stays_queued [OF env_p_types z, of cfg0] unfolding Let_def p by blast
qed

end
