(* ===== verification/Sched_Remote.thy ===== *)
theory Sched_Remote
  imports Sched_Hotplug
begin

text \<open>
  What a cpu does about tasks and runqueues of other cpus (\<open>core.c\<close>): interrupting them, waiting
  for a task to leave its cpu, spinning on a mutex, the high-resolution tick, and the check that
  a caller may sleep.

  Loops that read what other cpus change take the sequence of states they see as an argument:
  \<open>v n\<close> is the kernel at the \<open>n\<close>th moment, and every read is a moment of its own.
\<close>

section \<open>Locking a task's runqueue\<close>

text \<open>
  \<open>__task_rq_lock\<close> and \<open>task_rq_lock\<close> read the runqueue, lock it and read it again. \<open>None\<close> is a task
  that is moved every time.
\<close>

partial_function (option) task_rq_lock :: "tid \<Rightarrow> (nat \<Rightarrow> 'x kernel) \<Rightarrow> nat \<Rightarrow> (cpu \<times> nat) option" where
  "task_rq_lock p v n =
     (let c = task_cpu (tasks (v n) p) in
      if c = task_cpu (tasks (v (Suc n)) p) then Some (c, Suc n) else task_rq_lock p v (Suc (Suc n)))"

section \<open>Waiting for a task to be inactive\<close>

definition LONG_MIN :: u32 where "LONG_MIN = 0x80000000"

text \<open>
  The busy loop while the task runs on another cpu: \<open>Some None\<close> is \<open>return 0\<close>, \<open>Some (Some n)\<close> that
  the task was seen not running at moment \<open>n\<close>.
\<close>

partial_function (option) spin_running ::
  "'x env \<Rightarrow> tid \<Rightarrow> u32 \<Rightarrow> (nat \<Rightarrow> 'x kernel) \<Rightarrow> cpu \<Rightarrow> nat \<Rightarrow> nat option option" where
  "spin_running env p match_state v c n =
     (if \<not> task_running env c p (v n) then Some (Some n)
      else if match_state \<noteq> 0 \<and> state (tasks (v (Suc n)) p) \<noteq> match_state then Some None
      else spin_running env p match_state v c (Suc (Suc n)))"

text \<open>
  The reads with the runqueue locked are one moment. A task that is queued but does not run is waited
  for with a sleep of a tick, which concerns the caller only.
\<close>

partial_function (option) wait_task_inactive ::
  "'x env \<Rightarrow> tid \<Rightarrow> u32 \<Rightarrow> (nat \<Rightarrow> 'x kernel) \<Rightarrow> nat \<Rightarrow> u32 option" where
  "wait_task_inactive env p match_state v n =
     Option.bind (spin_running env p match_state v (task_cpu (tasks (v n) p)) (Suc n))
       (\<lambda>r. case r of
          None \<Rightarrow> Some 0
        | Some m \<Rightarrow>
            let k = v (Suc m);
                running = task_running env (task_cpu (tasks k p)) p k;
                ncsw = (if match_state = 0 \<or> state (tasks k p) = match_state
                        then nvcsw (tasks k p) OR LONG_MIN else 0) in
            if ncsw = 0 then Some 0
            else if running then wait_task_inactive env p match_state v (Suc (Suc m))
            else if on_rq (tasks k p) then wait_task_inactive env p match_state v (Suc (Suc m))
            else Some ncsw)"

section \<open>Spinning on the owner of a mutex\<close>

text \<open>\<open>ow n\<close> is the owner of the mutex at moment \<open>n\<close>, \<open>me\<close> the task that spins.\<close>

definition owner_running :: "(nat \<Rightarrow> tid option) \<Rightarrow> tid \<Rightarrow> (nat \<Rightarrow> 'x kernel) \<Rightarrow> nat \<Rightarrow> bool" where
  "owner_running ow t v n \<longleftrightarrow> (if ow n \<noteq> Some t then False else on_cpu (tasks (v n) t))"

partial_function (option) spin_owner ::
  "(nat \<Rightarrow> tid option) \<Rightarrow> tid \<Rightarrow> tid \<Rightarrow> (nat \<Rightarrow> 'x kernel) \<Rightarrow> nat \<Rightarrow> nat option" where
  "spin_owner ow t me v n =
     (if owner_running ow t v n then
        if need_resched (tasks (v n) me) then Some n else spin_owner ow t me v (Suc n)
      else Some n)"

definition mutex_spin_on_owner ::
  "bool \<Rightarrow> (nat \<Rightarrow> tid option) \<Rightarrow> tid \<Rightarrow> tid \<Rightarrow> (nat \<Rightarrow> 'x kernel) \<Rightarrow> nat \<Rightarrow> bool option" where
  "mutex_spin_on_owner feat_owner_spin ow t me v n =
     (if \<not> feat_owner_spin then Some False
      else map_option (\<lambda>m. ow (Suc m) = None) (spin_owner ow t me v n))"

section \<open>Interrupting other cpus\<close>

text \<open>
  \<open>polling p\<close> is \<open>tsk_is_polling\<close>, \<open>kicked c\<close> is the bit \<open>NOHZ_BALANCE_KICK\<close> of a cpu. The cpus that
  are sent a reschedule interrupt are returned next to the state.
\<close>

definition resched_task_ipi :: "(tid \<Rightarrow> bool) \<Rightarrow> tid \<Rightarrow> 'x kernel \<Rightarrow> cpu list \<times> 'x kernel" where
  "resched_task_ipi polling p k =
     (if need_resched (tasks k p) then ([], k)
      else
        let k = upd_task p (\<lambda>t. t\<lparr>need_resched := True\<rparr>) k; c = task_cpu (tasks k p) in
        if c = this_cpu k then ([], k)
        else if \<not> polling p then ([c], k) else ([], k))"

text \<open>\<open>free\<close>: the runqueue's lock is taken at the first try.\<close>

definition resched_cpu :: "(tid \<Rightarrow> bool) \<Rightarrow> bool \<Rightarrow> cpu \<Rightarrow> 'x kernel \<Rightarrow> cpu list \<times> 'x kernel" where
  "resched_cpu polling free c k = (if \<not> free then ([], k) else resched_task_ipi polling (curr_of k c) k)"

text \<open>The first busy cpu of the lowest domain that has one.\<close>

fun nohz_search :: "'x env \<Rightarrow> sched_domain list \<Rightarrow> 'x kernel \<Rightarrow> cpu option" where
  "nohz_search env [] k = None"
| "nohz_search env (sd # sds) k =
     (case find (\<lambda>i. \<not> idle_cpu env i k) (for_each_cpu env (sd_span sd)) of
        Some i \<Rightarrow> Some i | None \<Rightarrow> nohz_search env sds k)"

definition get_nohz_timer_target :: "'x env \<Rightarrow> 'x kernel \<Rightarrow> cpu" where
  "get_nohz_timer_target env k =
     (case nohz_search env (sched_doms k (this_cpu k)) k of Some i \<Rightarrow> i | None \<Rightarrow> this_cpu k)"

definition wake_up_idle_cpu :: "(tid \<Rightarrow> bool) \<Rightarrow> cpu \<Rightarrow> 'x kernel \<Rightarrow> cpu list \<times> 'x kernel" where
  "wake_up_idle_cpu polling c k =
     (if c = this_cpu k then ([], k)
      else if curr (rqs k c) \<noteq> idle (rqs k c) then ([], k)
      else
        let k = upd_task (idle (rqs k c)) (\<lambda>t. t\<lparr>need_resched := True\<rparr>) k in
        if \<not> polling (idle (rqs k c)) then ([c], k) else ([], k))"

definition got_nohz_idle_kick :: "'x env \<Rightarrow> (cpu \<Rightarrow> bool) \<Rightarrow> 'x kernel \<Rightarrow> bool" where
  "got_nohz_idle_kick env kicked k \<longleftrightarrow> idle_cpu env (this_cpu k) k \<and> kicked (this_cpu k)"

text \<open>The result tells whether \<open>SCHED_SOFTIRQ\<close> is raised.\<close>

definition scheduler_ipi :: "'x env \<Rightarrow> (cpu \<Rightarrow> bool) \<Rightarrow> 'x kernel \<Rightarrow> bool \<times> 'x kernel" where
  "scheduler_ipi env kicked k =
     (if wake_list (rqs k (this_cpu k)) = [] \<and> \<not> got_nohz_idle_kick env kicked k then (False, k)
      else
        let k = sched_ttwu_pending env (this_cpu k) k in
        if got_nohz_idle_kick env kicked k \<and> \<not> need_resched (tasks k (current k))
        then (True, upd_rq (this_cpu k) (\<lambda>r. r\<lparr>idle_balance := True\<rparr>) k)
        else (False, k))"

definition kick_process :: "tid \<Rightarrow> 'x kernel \<Rightarrow> cpu list" where
  "kick_process p k =
     (let c = task_cpu (tasks k p) in if c \<noteq> this_cpu k \<and> task_curr p k then [c] else [])"

definition ttwu_activate_remote :: "'x env \<Rightarrow> tid \<Rightarrow> u32 \<Rightarrow> 'x kernel \<Rightarrow> bool \<times> 'x kernel" where
  "ttwu_activate_remote env p wake_flags k =
     (let c = task_cpu (tasks k p) in
      if on_cpu (tasks k p)
      then (True, ttwu_do_wakeup env c p wake_flags (ttwu_activate env c p ENQUEUE_WAKEUP k))
      else (False, k))"

section \<open>The idle task of a cpu that goes away, and the task of a stopped cpu\<close>

text \<open>
  \<open>mmdrop\<close> gives up a reference to an address space, outside the repository; the switch to \<open>init_mm\<close>
  is one of page tables.
\<close>

definition idle_task_exit :: "(nat option \<Rightarrow> 'x \<Rightarrow> 'x) \<Rightarrow> 'x kernel \<Rightarrow> 'x kernel" where
  "idle_task_exit mmdrop k =
     (let m = active_mm (tasks k (current k));
          k = BUG_ON (cpu_online_mask k (this_cpu k)) k
      in ext_state_update (mmdrop m) k)"

definition init_idle_bootup_task :: "tid \<Rightarrow> 'x kernel \<Rightarrow> 'x kernel" where
  "init_idle_bootup_task p = upd_task p (\<lambda>t. t\<lparr>class_of := idle_sched_class\<rparr>)"

definition curr_task :: "cpu \<Rightarrow> 'x kernel \<Rightarrow> tid" where
  "curr_task c k = curr_of k c"

definition set_curr_task :: "cpu \<Rightarrow> tid \<Rightarrow> 'x kernel \<Rightarrow> 'x kernel" where
  "set_curr_task c p = upd_rq c (\<lambda>r. r\<lparr>curr := p\<rparr>)"

section \<open>The high-resolution tick\<close>

text \<open>
  The timer of each runqueue, the flag that an interrupt to restart it is on its way, and the
  interrupts that are. A timer that fires is no longer active.
\<close>

record hrticks =
  hr_active :: "cpu \<Rightarrow> bool"
  hr_expires :: "cpu \<Rightarrow> u64"
  csd_pending :: "cpu \<Rightarrow> bool"
  csd_sent :: "cpu list"

definition hrtick_clear :: "cpu \<Rightarrow> hrticks \<Rightarrow> hrticks" where
  "hrtick_clear c h = (if hr_active h c then h\<lparr>hr_active := (hr_active h)(c := False)\<rparr> else h)"

definition hrtick :: "'x env \<Rightarrow> cpu \<Rightarrow> hrticks \<times> 'x kernel \<Rightarrow> hrticks \<times> 'x kernel" where
  "hrtick env c hk =
     (let (h, k) = hk; k = update_rq_clock c k
      in (h\<lparr>hr_active := (hr_active h)(c := False)\<rparr>, class_task_tick env c (curr_of k c) 1 k))"

definition hrtimer_restart :: "cpu \<Rightarrow> hrticks \<Rightarrow> hrticks" where
  "hrtimer_restart c h = h\<lparr>hr_active := (hr_active h)(c := True)\<rparr>"

definition hrtick_start_ipi :: "cpu \<Rightarrow> hrticks \<Rightarrow> hrticks" where
  "hrtick_start_ipi c h =
     (let h = hrtimer_restart c (h\<lparr>csd_sent := remove1 c (csd_sent h)\<rparr>)
      in h\<lparr>csd_pending := (csd_pending h)(c := False)\<rparr>)"

definition hrtick_start :: "cpu \<Rightarrow> cpu \<Rightarrow> u64 \<Rightarrow> u64 \<Rightarrow> hrticks \<Rightarrow> hrticks" where
  "hrtick_start this c now delay h =
     (let h = h\<lparr>hr_expires := (hr_expires h)(c := now + delay)\<rparr> in
      if c = this then hrtimer_restart c h
      else if \<not> csd_pending h c
      then h\<lparr>csd_sent := c # csd_sent h, csd_pending := (csd_pending h)(c := True)\<rparr>
      else h)"

definition hotplug_hrtick :: "hotplug_action \<Rightarrow> cpu \<Rightarrow> hrticks \<Rightarrow> notify \<times> hrticks" where
  "hotplug_hrtick act c h =
     (if act \<in> {CPU_UP_CANCELED, CPU_DOWN_PREPARE, CPU_DEAD} then (NOTIFY_OK, hrtick_clear c h)
      else (NOTIFY_DONE, h))"

definition init_rq_hrtick :: "cpu \<Rightarrow> hrticks \<Rightarrow> hrticks" where
  "init_rq_hrtick c h = h\<lparr>csd_pending := (csd_pending h)(c := False), hr_active := (hr_active h)(c := False)\<rparr>"

section \<open>May the caller sleep?\<close>

text \<open>\<open>PREEMPT_ACTIVE\<close> is bit 30 of the count.\<close>

definition preempt_count_equals :: "u32 \<Rightarrow> u32 \<Rightarrow> u32 \<Rightarrow> bool" where
  "preempt_count_equals count rcu_depth offset \<longleftrightarrow> (count AND NOT 0x40000000) + rcu_depth = offset"

datatype system_states = SYSTEM_BOOTING | SYSTEM_RUNNING | SYSTEM_HALT | SYSTEM_POWER_OFF | SYSTEM_RESTART

text \<open>
  \<open>__might_sleep\<close>: whether it reports, and the static variable \<open>prev_jiffy\<close> that limits the rate.
  \<open>inited\<close> is \<open>__might_sleep_init_called\<close>.
\<close>

definition might_sleep ::
  "u32 \<Rightarrow> u32 \<Rightarrow> u32 \<Rightarrow> bool \<Rightarrow> bool \<Rightarrow> system_states \<Rightarrow> bool \<Rightarrow> u32 \<Rightarrow> u32 \<Rightarrow> bool \<times> u32" where
  "might_sleep count rcu_depth offset irqs_off oops st inited now prev_jiffy =
     (if preempt_count_equals count rcu_depth offset \<and> \<not> irqs_off \<or> oops then (False, prev_jiffy)
      else if st \<noteq> SYSTEM_RUNNING \<and> (\<not> inited \<or> st \<noteq> SYSTEM_BOOTING) then (False, prev_jiffy)
      else if sint (now - (prev_jiffy + HZ)) < 0 \<and> prev_jiffy \<noteq> 0 then (False, prev_jiffy)
      else (True, now))"

end
