(* ===== verification/Remote_Props.thy ===== *)
theory Remote_Props
  imports Sched_Remote Example_State
begin

text \<open>
  The loops that read what other cpus change: what their results tell, and when they end. The
  high-resolution tick: one restart at most is on its way to a cpu.
\<close>

section \<open>Loops\<close>

lemma task_rq_lock_sound:
  assumes "task_rq_lock p v n = Some (c, m)"
  shows "n < m \<and> task_cpu (tasks (v m) p) = c"
proof -
  have "\<forall>c m. r = (c, m) \<longrightarrow> n < m \<and> task_cpu (tasks (v m) p) = c" if "task_rq_lock p v n = Some r" for r
  proof (rule task_rq_lock.raw_induct
      [where P = "\<lambda>p v n r. \<forall>c m. r = (c, m) \<longrightarrow> n < m \<and> task_cpu (tasks (v m) p) = c", OF _ that])
    fix loop p and v :: "nat \<Rightarrow> 'a kernel" and n r
    assume IH: "\<And>p v n r. loop p v n = Some r \<Longrightarrow> \<forall>c m. r = (c, m) \<longrightarrow> n < m \<and> task_cpu (tasks (v m) p) = c"
      and r: "(let c = task_cpu (tasks (v n) p) in
          if c = task_cpu (tasks (v (Suc n)) p) then Some (c, Suc n) else loop p v (Suc (Suc n))) = Some r"
    show "\<forall>c m. r = (c, m) \<longrightarrow> n < m \<and> task_cpu (tasks (v m) p) = c"
      using r IH [of p v "Suc (Suc n)" r] by (auto simp: Let_def split: if_splits)
  qed
  then show ?thesis using assms by blast
qed

lemma spin_running_sound:
  assumes "spin_running env p ms v c n = Some r"
  shows "case r of None \<Rightarrow> ms \<noteq> 0 \<and> (\<exists>m \<ge> n. state (tasks (v m) p) \<noteq> ms) | Some m \<Rightarrow> n \<le> m"
proof (rule spin_running.raw_induct
    [where P = "\<lambda>env p ms v c n r. case r of None \<Rightarrow> ms \<noteq> 0 \<and> (\<exists>m \<ge> n. state (tasks (v m) p) \<noteq> ms) | Some m \<Rightarrow> n \<le> m",
      OF _ assms])
  fix loop and env :: "'a env" and p ms v c n r
  assume IH: "\<And>env p ms v c n r. loop env p ms v c n = Some r \<Longrightarrow>
      case r of None \<Rightarrow> ms \<noteq> 0 \<and> (\<exists>m \<ge> n. state (tasks (v m) p) \<noteq> ms) | Some m \<Rightarrow> n \<le> m"
    and r: "(if \<not> task_running env c p (v n) then Some (Some n)
      else if ms \<noteq> 0 \<and> state (tasks (v (Suc n)) p) \<noteq> ms then Some None
      else loop env p ms v c (Suc (Suc n))) = Some r"
  show "case r of None \<Rightarrow> ms \<noteq> 0 \<and> (\<exists>m \<ge> n. state (tasks (v m) p) \<noteq> ms) | Some m \<Rightarrow> n \<le> m"
  proof (cases "task_running env c p (v n) \<and> \<not> (ms \<noteq> 0 \<and> state (tasks (v (Suc n)) p) \<noteq> ms)")
    case True
    then have "loop env p ms v c (Suc (Suc n)) = Some r" using r by (simp split: if_splits)
    from IH [OF this] show ?thesis
      by (auto split: option.splits dest: Suc_leD)
  next
    case False
    then show ?thesis using r by (auto split: if_splits intro: exI [of _ "Suc n"])
  qed
qed

text \<open>From moment \<open>N\<close> on the task neither runs nor is queued.\<close>

definition inactive_from :: "'x env \<Rightarrow> tid \<Rightarrow> (nat \<Rightarrow> 'x kernel) \<Rightarrow> nat \<Rightarrow> bool" where
  "inactive_from env p v N \<longleftrightarrow>
     (\<forall>m \<ge> N. (\<forall>c. \<not> task_running env c p (v m)) \<and> \<not> on_rq (tasks (v m) p))"

lemma spin_running_ends:
  assumes "inactive_from env p v N"
  shows "\<exists>r. spin_running env p ms v c n = Some r"
proof (induction "N - n" arbitrary: n rule: less_induct)
  case less
  show ?case
  proof (cases "n < N")
    case True
    then have "N - Suc (Suc n) < N - n" by linarith
    from less [OF this] obtain r where "spin_running env p ms v c (Suc (Suc n)) = Some r" by blast
    then show ?thesis by (subst spin_running.simps) simp
  next
    case False
    then show ?thesis using assms by (subst spin_running.simps) (simp add: inactive_from_def)
  qed
qed

definition inactive_at :: "'x env \<Rightarrow> tid \<Rightarrow> u32 \<Rightarrow> 'x kernel \<Rightarrow> bool" where
  "inactive_at env p ms k \<longleftrightarrow> \<not> task_running env (task_cpu (tasks k p)) p k \<and> \<not> on_rq (tasks k p)
     \<and> (ms = 0 \<or> state (tasks k p) = ms)"

lemma wait_task_inactive_sound:
  assumes "wait_task_inactive env p ms v n = Some r"
  shows "if r = 0 then ms \<noteq> 0 \<and> (\<exists>m \<ge> n. state (tasks (v m) p) \<noteq> ms)
    else \<exists>m \<ge> n. inactive_at env p ms (v m) \<and> r = nvcsw (tasks (v m) p) OR LONG_MIN"
proof (rule wait_task_inactive.raw_induct
    [where P = "\<lambda>env p ms v n r. if r = 0 then ms \<noteq> 0 \<and> (\<exists>m \<ge> n. state (tasks (v m) p) \<noteq> ms)
      else \<exists>m \<ge> n. inactive_at env p ms (v m) \<and> r = nvcsw (tasks (v m) p) OR LONG_MIN", OF _ assms])
  let ?P = "\<lambda>env p ms v n r. if r = 0 then ms \<noteq> 0 \<and> (\<exists>m \<ge> n. state (tasks (v m) p) \<noteq> ms)
      else \<exists>m \<ge> n. inactive_at env p ms (v m) \<and> r = nvcsw (tasks (v m) p) OR LONG_MIN"
  fix loop and env :: "'a env" and p ms and v :: "nat \<Rightarrow> 'a kernel" and n and r :: u32
  assume IH: "\<And>env p ms v n r. loop env p ms v n = Some r \<Longrightarrow> ?P env p ms v n r"
    and r: "Option.bind (spin_running env p ms v (task_cpu (tasks (v n) p)) (Suc n))
       (\<lambda>r. case r of
          None \<Rightarrow> Some 0
        | Some m \<Rightarrow>
            let k = v (Suc m);
                running = task_running env (task_cpu (tasks k p)) p k;
                ncsw = (if ms = 0 \<or> state (tasks k p) = ms then nvcsw (tasks k p) OR LONG_MIN else 0) in
            if ncsw = 0 then Some 0
            else if running then loop env p ms v (Suc (Suc m))
            else if on_rq (tasks k p) then loop env p ms v (Suc (Suc m))
            else Some ncsw) = Some r"
  obtain s where s: "spin_running env p ms v (task_cpu (tasks (v n) p)) (Suc n) = Some s"
    using r by (cases "spin_running env p ms v (task_cpu (tasks (v n) p)) (Suc n)") auto
  note sound = spin_running_sound [OF s]
  show "?P env p ms v n r"
  proof (cases s)
    case None
    then have "r = 0" using r s by simp
    then show ?thesis using sound None by (auto intro: Suc_leD)
  next
    case (Some m)
    have m: "n \<le> Suc m" using sound Some by simp
    let ?k = "v (Suc m)"
    have later: "?P env p ms v n r" if "loop env p ms v (Suc (Suc m)) = Some r"
    proof -
      have mono: "n \<le> x" if "Suc (Suc m) \<le> x" for x using m that by linarith
      show ?thesis using IH [OF that] mono by (auto split: if_splits)
    qed
    show ?thesis
    proof (cases "ms = 0 \<or> state (tasks ?k p) = ms")
      case True
      have "bit LONG_MIN 31" by (simp add: LONG_MIN_def bit_iff_odd)
      then have "bit (nvcsw (tasks ?k p) OR LONG_MIN) 31" by (simp add: bit_or_iff)
      then have "nvcsw (tasks ?k p) OR LONG_MIN \<noteq> 0" by auto
      then show ?thesis
        using r s Some True m later
        by (auto simp: Let_def inactive_at_def split: if_splits intro!: exI [of _ "Suc m"])
    next
      case False
      then show ?thesis using r s Some m by (auto simp: Let_def intro!: exI [of _ "Suc m"])
    qed
  qed
qed

lemma wait_task_inactive_ends:
  assumes "inactive_from env p v N"
  shows "\<exists>r. wait_task_inactive env p ms v n = Some r"
proof (induction "N - n" arbitrary: n rule: less_induct)
  case less
  obtain s where s: "spin_running env p ms v (task_cpu (tasks (v n) p)) (Suc n) = Some s"
    using spin_running_ends [OF assms] by blast
  show ?case
  proof (cases s)
    case None
    then show ?thesis using s by (subst wait_task_inactive.simps) simp
  next
    case (Some m)
    have m: "Suc n \<le> m" using spin_running_sound [OF s] Some by simp
    show ?thesis
    proof (cases "Suc m < N")
      case True
      then have "N - Suc (Suc m) < N - n" using m by linarith
      from less [OF this] obtain r where "wait_task_inactive env p ms v (Suc (Suc m)) = Some r" by blast
      then show ?thesis using s Some by (subst wait_task_inactive.simps) (auto simp: Let_def)
    next
      case False
      then show ?thesis using s Some assms
        by (subst wait_task_inactive.simps) (simp add: Let_def inactive_from_def)
    qed
  qed
qed

text \<open>
  C37. Waiting for a task to leave its cpu. If \<open>wait_task_inactive\<close> returns a number other than 0, there was
  a moment at which the task was neither running nor queued and in the state asked for, and the
  number is its count of switches with the top bit set; if it returns 0, a state was asked for and
  the task was seen in another. It returns if from some moment on the task stays
  inactive.
\<close>

theorem wait_task_inactive_correct:
  "(\<forall>r. wait_task_inactive env p match_state v n = Some r \<longrightarrow>
      (if r = 0 then match_state \<noteq> 0 \<and> (\<exists>m \<ge> n. state (tasks (v m) p) \<noteq> match_state)
       else \<exists>m \<ge> n. \<not> task_running env (task_cpu (tasks (v m) p)) p (v m) \<and> \<not> on_rq (tasks (v m) p)
              \<and> (match_state = 0 \<or> state (tasks (v m) p) = match_state)
              \<and> r = nvcsw (tasks (v m) p) OR LONG_MIN))
   \<and> ((\<exists>N. \<forall>m \<ge> N. (\<forall>c. \<not> task_running env c p (v m)) \<and> \<not> on_rq (tasks (v m) p))
      \<longrightarrow> (\<exists>r. wait_task_inactive env p match_state v n = Some r))"
  using wait_task_inactive_sound [of env p match_state v n]
    wait_task_inactive_ends [of env p v _ match_state n]
  by (auto simp: inactive_at_def inactive_from_def split: if_splits)

text \<open>Task 2 runs until moment 4 and sleeps afterwards.\<close>

theorem wait_task_inactive_correct_witness:
  "\<exists>r. wait_task_inactive env0 2 0
     (\<lambda>m. upd_task 2 (\<lambda>t. t\<lparr>on_cpu := m < 4, on_rq := m < 4, state := (if m < 4 then 0 else 1)\<rparr>) k0) 0 = Some r
   \<and> r \<noteq> 0"
proof -
  let ?v = "\<lambda>m :: nat. upd_task 2 (\<lambda>t. t\<lparr>on_cpu := m < 4, on_rq := m < 4, state := (if m < 4 then 0 else 1)\<rparr>) k0"
  have "\<exists>N. \<forall>m \<ge> N. (\<forall>c. \<not> task_running env0 c 2 (?v m)) \<and> \<not> on_rq (tasks (?v m) 2)"
    by (rule exI [of _ 4]) (simp add: task_running_def env0_def)
  then show ?thesis using wait_task_inactive_correct [of env0 2 0 ?v 0] by auto
qed

section \<open>Spinning on a mutex\<close>

lemma spin_owner_sound:
  assumes "spin_owner ow t me v n = Some m"
  shows "n \<le> m \<and> (need_resched (tasks (v m) me) \<or> ow m \<noteq> Some t \<or> \<not> on_cpu (tasks (v m) t))"
proof (rule spin_owner.raw_induct
    [where P = "\<lambda>ow t me v n m. n \<le> m \<and> (need_resched (tasks (v m) me) \<or> ow m \<noteq> Some t \<or> \<not> on_cpu (tasks (v m) t))",
      OF _ assms])
  fix loop ow t me and v :: "nat \<Rightarrow> 'a kernel" and n m
  assume IH: "\<And>ow t me v n m. loop ow t me v n = Some m \<Longrightarrow>
      n \<le> m \<and> (need_resched (tasks (v m) me) \<or> ow m \<noteq> Some t \<or> \<not> on_cpu (tasks (v m) t))"
    and m: "(if owner_running ow t v n then
        if need_resched (tasks (v n) me) then Some n else loop ow t me v (Suc n)
      else Some n) = Some m"
  show "n \<le> m \<and> (need_resched (tasks (v m) me) \<or> ow m \<noteq> Some t \<or> \<not> on_cpu (tasks (v m) t))"
    using m IH [of ow t me v "Suc n" m] by (auto simp: owner_running_def split: if_splits)
qed

section \<open>The high-resolution tick\<close>

text \<open>A cpu's restart is pending exactly if one interrupt for it is on its way.\<close>

inductive hr_reach :: "hrticks \<Rightarrow> bool" where
  init: "\<lbrakk>\<And>c. \<not> csd_pending h c; csd_sent h = []\<rbrakk> \<Longrightarrow> hr_reach h"
| start: "hr_reach h \<Longrightarrow> hr_reach (hrtick_start this c now delay h)"
| ipi: "\<lbrakk>hr_reach h; c \<in> set (csd_sent h)\<rbrakk> \<Longrightarrow> hr_reach (hrtick_start_ipi c h)"
| clear: "hr_reach h \<Longrightarrow> hr_reach (hrtick_clear c h)"
| fire: "\<lbrakk>hr_reach h; hr_active h c\<rbrakk> \<Longrightarrow> hr_reach (fst (hrtick env c (h, k :: unit kernel)))"

lemma hr_reach_pending:
  assumes "hr_reach h"
  shows "distinct (csd_sent h) \<and> (\<forall>c. csd_pending h c \<longleftrightarrow> c \<in> set (csd_sent h))"
  using assms
  by (induction) (auto simp: hrtick_start_def hrtick_start_ipi_def hrtimer_restart_def hrtick_clear_def
      hrtick_def Let_def)

end
