(* ===== verification/Kthread_Worker.thy ===== *)
theory Kthread_Worker
  imports Kernel_Prelude
begin

text \<open>
  Works for a kernel thread: \<open>kthread_worker_fn\<close>, \<open>queue_kthread_work\<close>, \<open>flush_kthread_work\<close> and
  \<open>flush_kthread_worker\<close> of tergra/kernel/kthread.c.

  One worker with its thread, any number of works, any number of threads that queue and flush. A
  step of a thread is a piece of its code that the others see as one: a section under
  \<open>worker->lock\<close>, or one access to a shared variable. The memory barriers of the code order these
  accesses, so that they are taken in program order. \<open>wait_event\<close> and \<open>schedule\<close> are given by what
  is documented of them: a thread that calls \<open>schedule\<close> goes on only when its state is
  TASK_RUNNING, and \<open>wait_event\<close> puts the caller on the wait queue, not running, before it tests
  the condition, and sleeps only if it does not hold.
\<close>

section \<open>State\<close>

type_synonym wid = nat    \<comment> \<open>the address of a \<open>struct kthread_work\<close>\<close>

text \<open>
  A work. The last three fields are not in the code: how often the work was queued, how often its
  function has been completed, and what the first number was when \<open>done_seq\<close> was last set.
\<close>

record kthread_work =
  queue_seq :: u32
  done_seq :: u32
  flushing :: nat
  n_queued :: nat
  n_finished :: nat
  n_at_done :: nat

text \<open>The program points of the worker's thread, of a caller of the flush functions and of \<open>kthread_stop\<close>.\<close>

datatype worker_pc =
    W_start | W_repeat | W_should_stop | W_clear | W_take | W_state wid | W_func wid | W_seq wid
  | W_flushing wid | W_wake wid | W_schedule | W_exited

datatype flush_pc =
    F_idle | F_inc wid u32 | F_prepare wid u32 | F_test wid u32 | F_schedule wid u32 | F_dec wid | F_complete wid

datatype stop_pc = S_idle | S_wake | S_exited

text \<open>
  A caller: its place, whether its state is TASK_RUNNING, and, not in the code, how often each work
  had been queued when it called.
\<close>

record flusher =
  fpc :: flush_pc
  frunning :: bool
  asked :: "wid \<Rightarrow> nat"

text \<open>
  The worker and those around it. \<open>fwork_done\<close> is the counter of the completion in a
  \<open>struct kthread_flush_work\<close>; \<open>fworks\<close> are the addresses used for such structures, and
  \<open>requeued\<close> are the works that were queued again while being executed (not in the code).
\<close>

record kworker =
  work_list :: "wid list"
  worker_task :: bool
  wrunning :: bool
  wshould_stop :: bool
  wpc :: worker_pc
  spc :: stop_pc
  works :: "wid \<Rightarrow> kthread_work"
  flushers :: "nat \<Rightarrow> flusher"
  fworks :: "wid set"
  fwork_done :: "wid \<Rightarrow> nat"
  requeued :: "wid set"

definition KTHREAD_WORK_INIT :: kthread_work where
  "KTHREAD_WORK_INIT = \<lparr>queue_seq = 0, done_seq = 0, flushing = 0, n_queued = 0, n_finished = 0, n_at_done = 0\<rparr>"

text \<open>A worker as \<open>__init_kthread_worker\<close> leaves it, its thread about to call \<open>kthread_worker_fn\<close>.\<close>

definition init_kthread_worker :: kworker where
  "init_kthread_worker = \<lparr>work_list = [], worker_task = False, wrunning = True, wshould_stop = False, wpc = W_start,
     spc = S_idle, works = (\<lambda>_. KTHREAD_WORK_INIT), flushers = (\<lambda>_. \<lparr>fpc = F_idle, frunning = True, asked = (\<lambda>_. 0)\<rparr>),
     fworks = {}, fwork_done = (\<lambda>_. 0), requeued = {}\<rparr>"

abbreviation upd_work :: "wid \<Rightarrow> (kthread_work \<Rightarrow> kthread_work) \<Rightarrow> kworker \<Rightarrow> kworker" where
  "upd_work w f s \<equiv> s\<lparr>works := (works s)(w := f (works s w))\<rparr>"

abbreviation upd_flusher :: "nat \<Rightarrow> (flusher \<Rightarrow> flusher) \<Rightarrow> kworker \<Rightarrow> kworker" where
  "upd_flusher i f s \<equiv> s\<lparr>flushers := (flushers s)(i := f (flushers s i))\<rparr>"

abbreviation go_flusher :: "nat \<Rightarrow> flush_pc \<Rightarrow> kworker \<Rightarrow> kworker" where
  "go_flusher i l s \<equiv> upd_flusher i (\<lambda>c. c\<lparr>fpc := l\<rparr>) s"

section \<open>Queueing\<close>

text \<open>The work being executed: from the call of its function to the store of \<open>done_seq\<close>.\<close>

fun executing :: "worker_pc \<Rightarrow> wid option" where
  "executing (W_state w) = Some w" | "executing (W_func w) = Some w" | "executing (W_seq w) = Some w"
| "executing _ = None"

text \<open>
  \<open>queue_kthread_work\<close>, all under the lock. \<open>list_empty(&work->node)\<close> says that the work is not on the
  list, because \<open>list_del_init\<close> takes it off.
\<close>

definition queue_kthread_work :: "wid \<Rightarrow> kworker \<Rightarrow> kworker \<times> bool" where
  "queue_kthread_work w s =
     (if w \<notin> set (work_list s) then
        let s = s\<lparr>work_list := work_list s @ [w]\<rparr>;
            s = upd_work w (\<lambda>k. k\<lparr>queue_seq := queue_seq k + 1, n_queued := n_queued k + 1\<rparr>) s;
            s = (if worker_task s then s\<lparr>wrunning := True\<rparr> else s);
            s = (if executing (wpc s) = Some w then s\<lparr>requeued := insert w (requeued s)\<rparr> else s)
        in (s, True)
      else (s, False))"

section \<open>The worker's thread\<close>

text \<open>\<open>wake_up_all(&work->done)\<close>: all callers that are on the wait queue of the work are running.\<close>

fun waits_on :: "wid \<Rightarrow> flush_pc \<Rightarrow> bool" where
  "waits_on w (F_test v q) = (v = w)" | "waits_on w (F_schedule v q) = (v = w)" | "waits_on w _ = False"

definition wake_flushers :: "wid \<Rightarrow> kworker \<Rightarrow> kworker" where
  "wake_flushers w s = s\<lparr>flushers := (\<lambda>i. if waits_on w (fpc (flushers s i)) then (flushers s i)\<lparr>frunning := True\<rparr> else flushers s i)\<rparr>"

text \<open>
  What the return of \<open>work->func(work)\<close> means: for the work of \<open>flush_kthread_worker\<close> that
  \<open>kthread_flush_work_fn\<close> has completed the waiting thread; for other works the function is any
  code, and what it does to the worker (queueing works) are steps of others before this one.
\<close>

definition kthread_flush_work_fn :: "wid \<Rightarrow> kworker \<Rightarrow> kworker" where
  "kthread_flush_work_fn w s = s\<lparr>fwork_done := (fwork_done s)(w := fwork_done s w + 1)\<rparr>"

definition work_func :: "wid \<Rightarrow> kworker \<Rightarrow> kworker" where
  "work_func w s = upd_work w (\<lambda>k. k\<lparr>n_finished := n_finished k + 1\<rparr>)
     (if w \<in> fworks s then kthread_flush_work_fn w s else s)"

text \<open>A step of \<open>kthread_worker_fn\<close>; \<open>freezing\<close> is what \<open>freezing(current)\<close> returns. \<open>None\<close>: the thread cannot go on.\<close>

definition kthread_worker_fn :: "bool \<Rightarrow> kworker \<Rightarrow> kworker option" where
  "kthread_worker_fn freezing s = (case wpc s of
     W_start \<Rightarrow> Some (s\<lparr>worker_task := True, wpc := W_repeat\<rparr>)
   | W_repeat \<Rightarrow> Some (s\<lparr>wrunning := False, wpc := W_should_stop\<rparr>)
   | W_should_stop \<Rightarrow> Some (if wshould_stop s then s\<lparr>wrunning := True, wpc := W_clear\<rparr> else s\<lparr>wpc := W_take\<rparr>)
   | W_clear \<Rightarrow> Some (s\<lparr>worker_task := False, wpc := W_exited\<rparr>)
   | W_take \<Rightarrow> Some (case work_list s of
         [] \<Rightarrow> s\<lparr>wpc := W_schedule\<rparr>
       | w # ws \<Rightarrow> s\<lparr>work_list := ws, wpc := W_state w\<rparr>)
   | W_state w \<Rightarrow> Some (s\<lparr>wrunning := True, wpc := W_func w\<rparr>)
   | W_func w \<Rightarrow> Some ((work_func w s)\<lparr>wpc := W_seq w\<rparr>)
   | W_seq w \<Rightarrow> Some ((upd_work w (\<lambda>k. k\<lparr>done_seq := queue_seq k, n_at_done := n_queued k\<rparr>) s)\<lparr>wpc := W_flushing w\<rparr>)
   | W_flushing w \<Rightarrow> Some (s\<lparr>wpc := if flushing (works s w) \<noteq> 0 then W_wake w else W_repeat\<rparr>)
   | W_wake w \<Rightarrow> Some ((wake_flushers w s)\<lparr>wpc := W_repeat\<rparr>)
   | W_schedule \<Rightarrow> (if freezing \<or> wrunning s then Some (s\<lparr>wpc := W_repeat\<rparr>) else None)
   | W_exited \<Rightarrow> None)"

section \<open>Flushing\<close>

text \<open>The test of \<open>flush_kthread_work\<close>: \<open>seq - work->done_seq <= 0\<close>, on \<open>int\<close> with wrap-around.\<close>

definition seq_done :: "u32 \<Rightarrow> kthread_work \<Rightarrow> bool" where
  "seq_done sq k \<longleftrightarrow> sint (sq - done_seq k) \<le> 0"

text \<open>The calls: \<open>flush_kthread_work\<close> reads \<open>queue_seq\<close>; \<open>flush_kthread_worker\<close> queues a work of its own.\<close>

definition flush_kthread_work :: "nat \<Rightarrow> wid \<Rightarrow> kworker \<Rightarrow> kworker option" where
  "flush_kthread_work i w s =
     (if fpc (flushers s i) = F_idle
      then Some (upd_flusher i (\<lambda>c. c\<lparr>fpc := F_inc w (queue_seq (works s w)), asked := (\<lambda>v. n_queued (works s v))\<rparr>) s)
      else None)"

definition flush_kthread_worker :: "nat \<Rightarrow> wid \<Rightarrow> kworker \<Rightarrow> kworker option" where
  "flush_kthread_worker i f s =
     (if fpc (flushers s i) = F_idle \<and> f \<notin> fworks s \<and> n_queued (works s f) = 0
      then Some (upd_flusher i (\<lambda>c. c\<lparr>fpc := F_complete f, asked := (\<lambda>v. n_queued (works s v))\<rparr>)
        (fst (queue_kthread_work f (s\<lparr>fworks := insert f (fworks s)\<rparr>))))
      else None)"

text \<open>The further steps of a caller.\<close>

definition flush_step :: "nat \<Rightarrow> kworker \<Rightarrow> kworker option" where
  "flush_step i s = (case fpc (flushers s i) of
     F_idle \<Rightarrow> None
   | F_inc w sq \<Rightarrow> Some (go_flusher i (F_prepare w sq) (upd_work w (\<lambda>k. k\<lparr>flushing := flushing k + 1\<rparr>) s))
   | F_prepare w sq \<Rightarrow> Some (upd_flusher i (\<lambda>c. c\<lparr>fpc := F_test w sq, frunning := False\<rparr>) s)
   | F_test w sq \<Rightarrow> Some (if seq_done sq (works s w)
       then upd_flusher i (\<lambda>c. c\<lparr>fpc := F_dec w, frunning := True\<rparr>) s
       else go_flusher i (F_schedule w sq) s)
   | F_schedule w sq \<Rightarrow> (if frunning (flushers s i) then Some (go_flusher i (F_prepare w sq) s) else None)
   | F_dec w \<Rightarrow> Some (go_flusher i F_idle (upd_work w (\<lambda>k. k\<lparr>flushing := flushing k - 1\<rparr>) s))
   | F_complete f \<Rightarrow> (if fwork_done s f > 0
       then Some (go_flusher i F_idle (s\<lparr>fwork_done := (fwork_done s)(f := fwork_done s f - 1)\<rparr>)) else None))"

section \<open>All threads\<close>

text \<open>
  \<open>kthread_stop\<close>, as far as the worker sees it: \<open>should_stop\<close> is set, then the thread is woken, then
  its end is awaited. \<open>Wakeup\<close> is a wakeup of the worker's thread by any other code.
\<close>

definition stop_step :: "kworker \<Rightarrow> kworker option" where
  "stop_step s = (case spc s of
     S_idle \<Rightarrow> Some (s\<lparr>wshould_stop := True, spc := S_wake\<rparr>)
   | S_wake \<Rightarrow> Some (s\<lparr>wrunning := True, spc := S_exited\<rparr>)
   | S_exited \<Rightarrow> None)"

datatype kw_event = Work bool | Queue wid | Stop | Wakeup | Flush_work nat wid | Flush_worker nat wid | Flusher nat

fun kw_step :: "kw_event \<Rightarrow> kworker \<Rightarrow> kworker option" where
  "kw_step (Work freezing) s = kthread_worker_fn freezing s"
| "kw_step (Queue w) s = (if w \<in> fworks s then None else Some (fst (queue_kthread_work w s)))"
| "kw_step Stop s = stop_step s"
| "kw_step Wakeup s = Some (s\<lparr>wrunning := True\<rparr>)"
| "kw_step (Flush_work i w) s = (if w \<in> fworks s then None else flush_kthread_work i w s)"
| "kw_step (Flush_worker i f) s = flush_kthread_worker i f s"
| "kw_step (Flusher i) s = flush_step i s"

fun kw_run :: "kw_event list \<Rightarrow> kworker \<Rightarrow> kworker option" where
  "kw_run [] s = Some s"
| "kw_run (e # es) s = (case kw_step e s of None \<Rightarrow> None | Some s' \<Rightarrow> kw_run es s')"

inductive kw_reach :: "kworker \<Rightarrow> bool" where
  start: "kw_reach init_kthread_worker"
| step: "kw_reach s \<Longrightarrow> kw_step e s = Some s' \<Longrightarrow> kw_reach s'"

lemma kw_run_append: "kw_run (es @ fs) s = (case kw_run es s of None \<Rightarrow> None | Some s' \<Rightarrow> kw_run fs s')"
  by (induction es arbitrary: s) (auto split: option.splits)

lemma kw_run_reach: "kw_run es s = Some s' \<Longrightarrow> kw_reach s \<Longrightarrow> kw_reach s'"
  by (induction es arbitrary: s) (auto split: option.splits intro: kw_reach.step)

end
