(* ===== verification/Kthread_Flush.thy ===== *)
theory Kthread_Flush
  imports Kthread_Worker
begin

text \<open>
  Invariants of a worker and those around it: the sequence numbers count the instances of a work,
  what a caller of the flush functions has asked for is accounted for, nobody sleeps who should be
  running; and the worker alone executes what is on its list.
\<close>

text \<open>What queueing leaves alone.\<close>

lemma queue_frame [simp]:
  "flushers (fst (queue_kthread_work w s)) = flushers s" "wpc (fst (queue_kthread_work w s)) = wpc s"
  "done_seq (works (fst (queue_kthread_work w s)) v) = done_seq (works s v)"
  "wshould_stop (fst (queue_kthread_work w s)) = wshould_stop s"
  by (simp_all add: queue_kthread_work_def Let_def)

section \<open>Counting\<close>

text \<open>The work whose function has been taken from the list and has not returned.\<close>

fun in_func :: "worker_pc \<Rightarrow> wid option" where
  "in_func (W_state w) = Some w" | "in_func (W_func w) = Some w" | "in_func _ = None"

text \<open>What holds of a work that is on the list or not, in its function, being executed, requeued.\<close>

definition count_ok :: "kthread_work \<Rightarrow> bool \<Rightarrow> bool \<Rightarrow> bool \<Rightarrow> bool \<Rightarrow> bool" where
  "count_ok k listed infn ex rq \<longleftrightarrow>
     n_queued k = n_finished k + of_bool infn + of_bool listed
   \<and> queue_seq k = of_nat (n_queued k) \<and> done_seq k = of_nat (n_at_done k)
   \<and> n_at_done k \<le> n_queued k \<and> n_queued k \<le> n_at_done k + of_bool listed + of_bool ex
   \<and> n_at_done k \<le> n_finished k + of_bool rq
   \<and> (ex \<and> \<not> rq \<longrightarrow> \<not> listed)"

lemma count_ok_init: "count_ok KTHREAD_WORK_INIT False False False False"
  by (simp add: count_ok_def KTHREAD_WORK_INIT_def)

lemma count_ok_queue:
  "count_ok k False f x r \<Longrightarrow> count_ok (k\<lparr>queue_seq := queue_seq k + 1, n_queued := n_queued k + 1\<rparr>) True f x (x \<or> r)"
  by (cases r) (auto simp: count_ok_def)

lemma count_ok_take: "count_ok k True False False r \<Longrightarrow> count_ok k False True True r"
  by (auto simp: count_ok_def)

lemma count_ok_func: "count_ok k l True x r \<Longrightarrow> count_ok (k\<lparr>n_finished := n_finished k + 1\<rparr>) l False x r"
  by (auto simp: count_ok_def)

lemma count_ok_seq:
  "count_ok k l False True r \<Longrightarrow> count_ok (k\<lparr>done_seq := queue_seq k, n_at_done := n_queued k\<rparr>) l False False r"
  by (cases r; cases l) (auto simp: count_ok_def)

lemma count_ok_flushing [simp]: "count_ok (k\<lparr>flushing := n\<rparr>) = count_ok k"
  by (intro ext) (simp add: count_ok_def)

definition work_ok :: "kworker \<Rightarrow> wid \<Rightarrow> bool" where
  "work_ok s w \<longleftrightarrow> count_ok (works s w) (w \<in> set (work_list s)) (in_func (wpc s) = Some w)
     (executing (wpc s) = Some w) (w \<in> requeued s)"

definition counts_inv :: "kworker \<Rightarrow> bool" where
  "counts_inv s \<longleftrightarrow> distinct (work_list s) \<and> (\<forall>w. work_ok s w)"

lemma counts_frame [simp]:
  "counts_inv (s\<lparr>fworks := X\<rparr>) = counts_inv s" "counts_inv (s\<lparr>flushers := F\<rparr>) = counts_inv s"
  "counts_inv (s\<lparr>wrunning := r\<rparr>) = counts_inv s" "counts_inv (s\<lparr>fwork_done := D\<rparr>) = counts_inv s"
  "counts_inv (s\<lparr>wshould_stop := b\<rparr>) = counts_inv s" "counts_inv (s\<lparr>worker_task := b\<rparr>) = counts_inv s"
  "counts_inv (s\<lparr>spc := t\<rparr>) = counts_inv s"
  "counts_inv (s\<lparr>works := (works s)(w := (works s w)\<lparr>flushing := n\<rparr>)\<rparr>) = counts_inv s"
  by (auto simp: counts_inv_def work_ok_def)

lemma counts_pc:
  "in_func l = in_func (wpc s) \<Longrightarrow> executing l = executing (wpc s) \<Longrightarrow> counts_inv (s\<lparr>wpc := l\<rparr>) = counts_inv s"
  by (simp add: counts_inv_def work_ok_def)

lemma counts_queue:
  assumes "counts_inv s"
  shows "counts_inv (fst (queue_kthread_work w s))"
proof (cases "w \<in> set (work_list s)")
  case False
  define s' where "s' = fst (queue_kthread_work w s)"
  have s': "work_list s' = work_list s @ [w]" "wpc s' = wpc s"
    "works s' = (works s)(w := (works s w)\<lparr>queue_seq := queue_seq (works s w) + 1, n_queued := n_queued (works s w) + 1\<rparr>)"
    "requeued s' = (if executing (wpc s) = Some w then insert w (requeued s) else requeued s)"
    using False by (auto simp: s'_def queue_kthread_work_def Let_def)
  have "work_ok s' v" for v
  proof (cases "v = w")
    case True
    have "count_ok (works s w) False (in_func (wpc s) = Some w) (executing (wpc s) = Some w) (w \<in> requeued s)"
      using assms False by (auto simp: counts_inv_def work_ok_def dest!: spec [of _ w])
    from count_ok_queue [OF this] show ?thesis using True by (auto simp: work_ok_def s')
  next
    case False
    moreover have "work_ok s v" using assms by (simp add: counts_inv_def)
    ultimately show ?thesis by (auto simp: work_ok_def s')
  qed
  then show ?thesis using assms False by (simp add: counts_inv_def s'(1) flip: s'_def)
qed (use assms in \<open>simp add: queue_kthread_work_def\<close>)

lemma counts_worker:
  assumes inv: "counts_inv s" and st: "kthread_worker_fn fr s = Some s'"
  shows "counts_inv s'"
proof (cases "wpc s")
  case W_take
  show ?thesis
  proof (cases "work_list s")
    case (Cons w ws)
    have "work_ok s w" "w \<notin> set ws" using inv Cons by (simp_all add: counts_inv_def)
    then have "count_ok (works s w) False True True (w \<in> requeued s)"
      using W_take Cons by (intro count_ok_take) (simp add: work_ok_def)
    then have "count_ok (works s v) (v \<in> set ws) (w = v) (w = v) (v \<in> requeued s)" for v
      using W_take Cons inv by (cases "v = w") (auto simp: counts_inv_def work_ok_def dest!: spec [of _ v])
    then show ?thesis using W_take Cons st inv
      by (auto simp: kthread_worker_fn_def counts_inv_def work_ok_def)
  qed (use W_take st inv in \<open>auto simp: kthread_worker_fn_def counts_pc\<close>)
next
  case (W_func w)
  have "count_ok ((works s w)\<lparr>n_finished := n_finished (works s w) + 1\<rparr>) (w \<in> set (work_list s)) False True (w \<in> requeued s)"
    using inv W_func by (intro count_ok_func) (auto simp: counts_inv_def work_ok_def dest!: spec [of _ w])
  moreover have "count_ok (works s v) (v \<in> set (work_list s)) False False (v \<in> requeued s)" if "v \<noteq> w" for v
    using inv W_func that by (auto simp: counts_inv_def work_ok_def dest!: spec [of _ v])
  ultimately show ?thesis using W_func st inv
    by (auto simp: kthread_worker_fn_def counts_inv_def work_ok_def work_func_def kthread_flush_work_fn_def)
next
  case (W_seq w)
  have "count_ok ((works s w)\<lparr>done_seq := queue_seq (works s w), n_at_done := n_queued (works s w)\<rparr>)
      (w \<in> set (work_list s)) False False (w \<in> requeued s)"
    using inv W_seq by (intro count_ok_seq) (auto simp: counts_inv_def work_ok_def dest!: spec [of _ w])
  moreover have "count_ok (works s v) (v \<in> set (work_list s)) False False (v \<in> requeued s)" if "v \<noteq> w" for v
    using inv W_seq that by (auto simp: counts_inv_def work_ok_def dest!: spec [of _ v])
  ultimately show ?thesis using W_seq st inv
    by (auto simp: kthread_worker_fn_def counts_inv_def work_ok_def)
qed (use st inv in \<open>auto simp: kthread_worker_fn_def counts_pc wake_flushers_def split: if_splits\<close>)

lemma counts_flush: "counts_inv s \<Longrightarrow> flush_step i s = Some s' \<Longrightarrow> counts_inv s'"
  by (auto simp: flush_step_def split: flush_pc.splits if_splits)

lemma counts_step:
  assumes "counts_inv s" "kw_step e s = Some s'"
  shows "counts_inv s'"
proof (cases e)
  case (Flush_worker i f)
  then have "s' = upd_flusher i (\<lambda>c. c\<lparr>fpc := F_complete f, asked := (\<lambda>v. n_queued (works s v))\<rparr>)
      (fst (queue_kthread_work f (s\<lparr>fworks := insert f (fworks s)\<rparr>)))"
    using assms(2) by (simp add: flush_kthread_worker_def split: if_splits)
  then show ?thesis using assms(1) by (simp add: counts_queue)
next
  case Stop
  then show ?thesis using assms by (auto simp: stop_step_def split: stop_pc.splits)
next
  case (Flush_work i w)
  then show ?thesis using assms by (auto simp: flush_kthread_work_def split: if_splits)
next
  case (Work fr)
  then show ?thesis using assms counts_worker by simp
next
  case (Flusher i)
  then show ?thesis using assms counts_flush by simp
qed (use assms in \<open>auto simp: counts_queue split: if_splits\<close>)

lemma counts_reach: "kw_reach s \<Longrightarrow> counts_inv s"
proof (induction rule: kw_reach.induct)
  case start
  then show ?case by (simp add: counts_inv_def work_ok_def init_kthread_worker_def count_ok_init)
qed (rule counts_step)

lemma countsD:
  assumes "counts_inv s"
  shows "n_queued (works s w) = n_finished (works s w) + of_bool (in_func (wpc s) = Some w) + of_bool (w \<in> set (work_list s))"
    and "queue_seq (works s w) = of_nat (n_queued (works s w))" "done_seq (works s w) = of_nat (n_at_done (works s w))"
    and "n_at_done (works s w) \<le> n_queued (works s w)" "n_queued (works s w) \<le> n_at_done (works s w) + 2"
    and "n_at_done (works s w) \<le> n_finished (works s w) + of_bool (w \<in> requeued s)"
proof -
  have "work_ok s w" using assms by (simp add: counts_inv_def)
  then show "n_queued (works s w) = n_finished (works s w) + of_bool (in_func (wpc s) = Some w) + of_bool (w \<in> set (work_list s))"
    "queue_seq (works s w) = of_nat (n_queued (works s w))" "done_seq (works s w) = of_nat (n_at_done (works s w))"
    "n_at_done (works s w) \<le> n_queued (works s w)" "n_at_done (works s w) \<le> n_finished (works s w) + of_bool (w \<in> requeued s)"
    by (simp_all add: work_ok_def count_ok_def)
  have "n_queued (works s w) \<le> n_at_done (works s w) + of_bool (w \<in> set (work_list s)) + of_bool (executing (wpc s) = Some w)"
    using \<open>work_ok s w\<close> by (simp add: work_ok_def count_ok_def)
  then show "n_queued (works s w) \<le> n_at_done (works s w) + 2" by (simp add: of_bool_def split: if_splits)
qed

text \<open>The comparison of sequence numbers is right whatever has wrapped, as at most two instances are not done.\<close>

lemma seq_done_iff:
  assumes "done_seq k = of_nat n" "m \<le> n + 2" "n < m + 2 ^ 31"
  shows "seq_done (of_nat m) k \<longleftrightarrow> m \<le> n"
proof (cases "m \<le> n")
  case True
  then have "(of_nat m :: u32) - of_nat n = - of_nat (n - m)" by simp
  moreover have "sint (- (of_nat (n - m) :: u32)) \<le> 0"
  proof -
    have "- (of_nat (n - m) :: u32) = of_int (- int (n - m))" by simp
    moreover have "sint (of_int (- int (n - m)) :: u32) = - int (n - m)"
      using assms(3) True unfolding sint_sbintrunc' by (intro signed_take_bit_int_eq_self) auto
    ultimately show ?thesis by simp
  qed
  ultimately show ?thesis using True assms(1) by (simp add: seq_done_def)
next
  case False
  then have "m = n + 1 \<or> m = n + 2" using assms(2) by auto
  then show ?thesis using False assms(1) by (auto simp: seq_done_def)
qed

lemma seq_done_sound:
  assumes "done_seq k = of_nat n" "m \<le> n + 2" "seq_done (of_nat m) k"
  shows "m \<le> n"
proof (rule ccontr)
  assume "\<not> m \<le> n"
  with assms(2) have "m = n + 1 \<or> m = n + 2" by auto
  then show False using assms(1,3) by (auto simp: seq_done_def)
qed

section \<open>What a caller has asked for\<close>

text \<open>
  What will be finished when the work \<open>f\<close> of \<open>flush_kthread_worker\<close> is called: what is finished now,
  and, while \<open>f\<close> is on the list, what is in its function or before \<open>f\<close> on the list.
\<close>

definition finished_by :: "kworker \<Rightarrow> wid \<Rightarrow> wid \<Rightarrow> nat" where
  "finished_by s f v = n_finished (works s v)
     + (if f \<in> set (work_list s) then of_bool (in_func (wpc s) = Some v) + of_bool (v \<in> set (takeWhile (\<lambda>x. x \<noteq> f) (work_list s))) else 0)"

definition before_ok :: "kworker \<Rightarrow> wid \<Rightarrow> (wid \<Rightarrow> nat) \<Rightarrow> bool" where
  "before_ok s f a \<longleftrightarrow> (\<forall>v. a v \<le> finished_by s f v)"

definition asked_ok :: "kworker \<Rightarrow> flusher \<Rightarrow> bool" where
  "asked_ok s c \<longleftrightarrow> (let waits = (\<lambda>w sq. sq = of_nat (asked c w) \<and> asked c w \<le> n_queued (works s w)) in
     case fpc c of
       F_idle \<Rightarrow> True | F_inc w sq \<Rightarrow> waits w sq | F_prepare w sq \<Rightarrow> waits w sq | F_test w sq \<Rightarrow> waits w sq
     | F_schedule w sq \<Rightarrow> waits w sq | F_dec w \<Rightarrow> asked c w \<le> n_at_done (works s w)
     | F_complete f \<Rightarrow> f \<in> fworks s \<and> before_ok s f (asked c))"

definition fworks_inv :: "kworker \<Rightarrow> bool" where
  "fworks_inv s \<longleftrightarrow> (\<forall>f. fwork_done s f \<le> n_finished (works s f) \<and> (f \<in> fworks s \<longrightarrow> n_queued (works s f) = 1))"

lemma asked_ok_cong:
  assumes "asked_ok s c" "fpc c' = fpc c" "asked c' = asked c"
    and "\<And>w. n_queued (works s w) \<le> n_queued (works s' w)" "\<And>w. n_at_done (works s w) \<le> n_at_done (works s' w)"
    and "fworks s \<subseteq> fworks s'" "\<And>f. f \<in> fworks s \<Longrightarrow> before_ok s f (asked c) \<Longrightarrow> before_ok s' f (asked c)"
  shows "asked_ok s' c'"
proof (cases "fpc c")
  case (F_dec w)
  then show ?thesis using assms(1-3) assms(5) [of w] by (auto simp: asked_ok_def Let_def)
next
  case (F_complete f)
  then show ?thesis using assms(1-3,6,7) by (auto simp: asked_ok_def Let_def)
qed (use assms(1-3) assms(4) [THEN order_trans [rotated]] in \<open>auto simp: asked_ok_def Let_def\<close>)

lemma before_ok_mono: "before_ok s f a \<Longrightarrow> (\<And>v. finished_by s f v \<le> finished_by s' f v) \<Longrightarrow> before_ok s' f a"
  unfolding before_ok_def by (blast intro: order_trans)

text \<open>A queue operation on another work, and a step of the worker, keep what a caller waits for.\<close>

lemma finished_by_queue: "w \<noteq> f \<Longrightarrow> finished_by (fst (queue_kthread_work w s)) f v = finished_by s f v"
  by (cases "f \<in> set (work_list s)") (auto simp: finished_by_def queue_kthread_work_def Let_def)

lemma finished_by_take:
  assumes "counts_inv s" "wpc s = W_take" "work_list s = w # ws"
  shows "finished_by (s\<lparr>work_list := ws, wpc := W_state w\<rparr>) f v \<ge> finished_by s f v"
proof -
  have w: "w \<notin> set ws" using assms(1,3) by (simp add: counts_inv_def)
  show ?thesis
  proof (cases "f = w")
    case True
    with w assms(2,3) show ?thesis by (simp add: finished_by_def)
  next
    case False
    have "w \<notin> set (takeWhile (\<lambda>x. x \<noteq> f) ws)" using w by (auto dest: set_takeWhileD)
    with False assms(2,3) show ?thesis by (cases "w = v"; cases "f \<in> set ws") (simp_all add: finished_by_def)
  qed
qed

lemma finished_by_worker:
  assumes "kthread_worker_fn fr s = Some s'" "counts_inv s"
  shows "finished_by s f v \<le> finished_by s' f v"
proof (cases "wpc s")
  case W_take
  show ?thesis
  proof (cases "work_list s")
    case (Cons w ws)
    with W_take finished_by_take [OF assms(2) W_take this] assms(1) show ?thesis
      by (auto simp: kthread_worker_fn_def)
  qed (use W_take assms(1) in \<open>auto simp: kthread_worker_fn_def finished_by_def\<close>)
next
  case (W_func w)
  with assms(1) have s': "s' = (work_func w s)\<lparr>wpc := W_seq w\<rparr>" by (simp add: kthread_worker_fn_def)
  have "n_finished (works s' v) = n_finished (works s v) + of_bool (w = v)" "work_list s' = work_list s"
    by (simp_all add: s' work_func_def kthread_flush_work_fn_def)
  moreover have "in_func (wpc s) = Some w" "in_func (wpc s') = None" by (simp_all add: W_func s')
  ultimately show ?thesis by (simp add: finished_by_def)
qed (use assms(1) in \<open>auto simp: kthread_worker_fn_def wake_flushers_def finished_by_def split: if_splits\<close>)

section \<open>What flushing promises\<close>

text \<open>How the counters of the works change: they grow.\<close>

definition counters_grow :: "kworker \<Rightarrow> kworker \<Rightarrow> bool" where
  "counters_grow s s' \<longleftrightarrow> (\<forall>w. n_queued (works s w) \<le> n_queued (works s' w) \<and> n_at_done (works s w) \<le> n_at_done (works s' w)
     \<and> n_finished (works s w) \<le> n_finished (works s' w))"

lemma counters_grow_queue: "counters_grow s (fst (queue_kthread_work w s))"
  by (simp add: counters_grow_def queue_kthread_work_def Let_def)

lemma counters_grow_worker:
  assumes "kthread_worker_fn fr s = Some s'" "counts_inv s"
  shows "counters_grow s s'"
proof (cases "wpc s")
  case (W_seq w)
  then show ?thesis using assms countsD(4) [OF assms(2), of w]
    by (auto simp: kthread_worker_fn_def counters_grow_def)
next
  case W_take
  then show ?thesis using assms by (cases "work_list s") (auto simp: kthread_worker_fn_def counters_grow_def)
qed (use assms(1) in \<open>auto simp: kthread_worker_fn_def counters_grow_def wake_flushers_def work_func_def
  kthread_flush_work_fn_def split: if_splits\<close>)

lemma counters_grow_flush: "flush_step i s = Some s' \<Longrightarrow> counters_grow s s'"
  by (auto simp: flush_step_def counters_grow_def split: flush_pc.splits if_splits)

text \<open>What other steps leave of what a caller has asked for.\<close>

lemma asked_ok_step:
  assumes "asked_ok s c" "fpc c' = fpc c" "asked c' = asked c" "counters_grow s s'" "fworks s \<subseteq> fworks s'"
    and "\<And>f. f \<in> fworks s \<Longrightarrow> before_ok s f (asked c) \<Longrightarrow> before_ok s' f (asked c)"
  shows "asked_ok s' c'"
  using assms(1-3) _ _ assms(5,6) by (rule asked_ok_cong) (use assms(4) in \<open>auto simp: counters_grow_def\<close>)

definition flush_inv :: "kworker \<Rightarrow> bool" where
  "flush_inv s \<longleftrightarrow> fworks_inv s \<and> (\<forall>i. asked_ok s (flushers s i))"

lemma flush_inv_queue:
  assumes "flush_inv s" "w \<notin> fworks s"
  shows "flush_inv (fst (queue_kthread_work w s))"
proof -
  define s' where "s' = fst (queue_kthread_work w s)"
  have fr: "flushers s' = flushers s" "fworks s' = fworks s" "fwork_done s' = fwork_done s"
    "\<And>f. n_finished (works s' f) = n_finished (works s f)" "\<And>f. f \<noteq> w \<Longrightarrow> n_queued (works s' f) = n_queued (works s f)"
    by (simp_all add: s'_def queue_kthread_work_def Let_def)
  have "before_ok s' f a" if "f \<in> fworks s" "before_ok s f a" for f a
  proof -
    have "w \<noteq> f" using that(1) assms(2) by auto
    then show ?thesis using that(2) by (simp add: before_ok_def s'_def finished_by_queue)
  qed
  then have "asked_ok s' (flushers s' i)" for i
    using assms(1) asked_ok_step [of s "flushers s i" "flushers s' i" s'] counters_grow_queue [of s w]
    by (auto simp: flush_inv_def fr simp flip: s'_def)
  moreover have "f \<noteq> w" if "f \<in> fworks s" for f using that assms(2) by auto
  then have "fworks_inv s'" using assms(1) fr by (simp add: flush_inv_def fworks_inv_def)
  ultimately show ?thesis by (simp add: flush_inv_def flip: s'_def)
qed

lemma fworks_inv_worker:
  assumes "fworks_inv s" "kthread_worker_fn fr s = Some s'"
  shows "fworks_inv s' \<and> fworks s' = fworks s"
  using assms
  by (cases "wpc s"; cases "work_list s";
    auto simp: kthread_worker_fn_def fworks_inv_def wake_flushers_def work_func_def kthread_flush_work_fn_def
      split: if_splits; metis le_SucI)

lemma flush_inv_worker:
  assumes "flush_inv s" "kthread_worker_fn fr s = Some s'" "counts_inv s"
  shows "flush_inv s'"
proof -
  have fw: "fworks_inv s'" "fworks s' = fworks s"
    using fworks_inv_worker [OF _ assms(2)] assms(1) by (simp_all add: flush_inv_def)
  have "fpc (flushers s' i) = fpc (flushers s i) \<and> asked (flushers s' i) = asked (flushers s i)" for i
    using assms(2) by (auto simp: kthread_worker_fn_def wake_flushers_def work_func_def kthread_flush_work_fn_def
      split: worker_pc.splits if_splits list.splits)
  moreover have "before_ok s' f a" if "before_ok s f a" for f a
    using that finished_by_worker [OF assms(2,3)] by (rule before_ok_mono)
  ultimately have "asked_ok s' (flushers s' i)" for i
    using assms(1) asked_ok_step [of s "flushers s i" "flushers s' i" s'] counters_grow_worker [OF assms(2,3)] fw(2)
    by (auto simp: flush_inv_def)
  with fw(1) show ?thesis by (simp add: flush_inv_def)
qed

text \<open>The caller itself: what it reads, and when it takes the work for done.\<close>

lemma flush_invI:
  assumes "fworks_inv s'" "asked_ok s' (flushers s' i)" "\<And>j. j \<noteq> i \<Longrightarrow> asked_ok s' (flushers s' j)"
  shows "flush_inv s'"
proof -
  have "asked_ok s' (flushers s' j)" for j using assms(2,3) by (cases "j = i") auto
  with assms(1) show ?thesis by (simp add: flush_inv_def)
qed

lemma flush_invD: "flush_inv s \<Longrightarrow> fworks_inv s" "flush_inv s \<Longrightarrow> asked_ok s (flushers s i)"
  by (simp_all add: flush_inv_def)

lemma flush_step_frame:
  assumes "flush_step i s = Some s'"
  shows "fworks s' = fworks s" "work_list s' = work_list s" "wpc s' = wpc s"
    and "n_finished (works s' w) = n_finished (works s w)" "n_queued (works s' w) = n_queued (works s w)"
    and "n_at_done (works s' w) = n_at_done (works s w)" "fwork_done s' w \<le> fwork_done s w"
    and "j \<noteq> i \<Longrightarrow> flushers s' j = flushers s j" "asked (flushers s' i) = asked (flushers s i)"
  using assms by (auto simp: flush_step_def split: flush_pc.splits if_splits)

text \<open>What a caller has asked for depends on the counters and the list alone.\<close>

lemma asked_ok_same:
  assumes "fworks s' = fworks s" "work_list s' = work_list s" "wpc s' = wpc s"
    "\<And>w. n_finished (works s' w) = n_finished (works s w)" "\<And>w. n_queued (works s' w) = n_queued (works s w)"
    "\<And>w. n_at_done (works s' w) = n_at_done (works s w)"
  shows "asked_ok s' c = asked_ok s c"
proof -
  have "before_ok s' = before_ok s" by (intro ext) (simp add: before_ok_def finished_by_def assms)
  then show ?thesis by (cases "fpc c") (simp_all add: asked_ok_def assms)
qed

lemma asked_ok_flusher:
  assumes "asked_ok s c" "flush_step i s = Some s'" "counts_inv s" "c = flushers s i"
  shows "asked_ok s (flushers s' i)"
proof (cases "fpc c")
  case (F_test w sq)
  show ?thesis
  proof (cases "seq_done sq (works s w)")
    case True
    have "asked c w \<le> n_queued (works s w)" and sq: "sq = of_nat (asked c w)"
      using assms(1) F_test by (simp_all add: asked_ok_def)
    then have "asked c w \<le> n_at_done (works s w) + 2" using countsD(5) [OF assms(3), of w] by simp
    from seq_done_sound [OF countsD(3) [OF assms(3)] this] True sq have "asked c w \<le> n_at_done (works s w)" by simp
    then show ?thesis using assms(2,4) F_test True by (auto simp: flush_step_def asked_ok_def)
  qed (use assms F_test in \<open>auto simp: flush_step_def asked_ok_def\<close>)
qed (use assms in \<open>auto simp: flush_step_def asked_ok_def split: if_splits\<close>)

lemma flush_inv_flusher:
  assumes "flush_inv s" "flush_step i s = Some s'" "counts_inv s"
  shows "flush_inv s'"
proof (rule flush_invI)
  note fr = flush_step_frame [OF assms(2)]
  have same: "asked_ok s' c = asked_ok s c" for c by (rule asked_ok_same) (rule fr)+
  show "asked_ok s' (flushers s' i)"
    unfolding same by (rule asked_ok_flusher [OF flush_invD(2) [OF assms(1)] assms(2,3) refl])
  show "asked_ok s' (flushers s' j)" if "j \<noteq> i" for j
    unfolding same fr(8) [OF that] by (rule flush_invD(2) [OF assms(1)])
  show "fworks_inv s'"
    using flush_invD(1) [OF assms(1)] order_trans [OF fr(7)] by (simp add: fworks_inv_def fr(1,4,5))
qed

lemma flush_inv_flush_worker:
  assumes "flush_inv s" "flush_kthread_worker i f s = Some s'" "counts_inv s"
  shows "flush_inv s'"
proof (rule flush_invI)
  have g: "fpc (flushers s i) = F_idle" "f \<notin> fworks s" "n_queued (works s f) = 0"
    using assms(2) by (simp_all add: flush_kthread_worker_def split: if_splits)
  then have l: "f \<notin> set (work_list s)" using countsD(1) [OF assms(3), of f] by simp
  define s1 where "s1 = fst (queue_kthread_work f s)"
  have inv1: "flush_inv s1" unfolding s1_def by (rule flush_inv_queue [OF assms(1) g(2)])
  have s1: "work_list s1 = work_list s @ [f]" "wpc s1 = wpc s" "\<And>v. n_finished (works s1 v) = n_finished (works s v)"
    "n_queued (works s1 f) = 1" using l g(3) by (simp_all add: s1_def queue_kthread_work_def Let_def)
  have "s' = upd_flusher i (\<lambda>c. c\<lparr>fpc := F_complete f, asked := (\<lambda>v. n_queued (works s v))\<rparr>)
      (fst (queue_kthread_work f (s\<lparr>fworks := insert f (fworks s)\<rparr>)))"
    using assms(2) g by (simp add: flush_kthread_worker_def)
  then have s': "s' = upd_flusher i (\<lambda>c. c\<lparr>fpc := F_complete f, asked := (\<lambda>v. n_queued (works s v))\<rparr>) (s1\<lparr>fworks := insert f (fworks s1)\<rparr>)"
    using l by (simp add: s1_def queue_kthread_work_def Let_def)
  have tw: "takeWhile (\<lambda>x. x \<noteq> f) (work_list s @ [f]) = work_list s"
    using l by (subst takeWhile_append2) auto
  have "finished_by s' f v = n_queued (works s v)" for v
    using tw by (simp add: finished_by_def s' s1 countsD(1) [OF assms(3), of v])
  then have "before_ok s' f (\<lambda>v. n_queued (works s v))" by (simp add: before_ok_def)
  then show "asked_ok s' (flushers s' i)" by (simp add: s' asked_ok_def)
  have before: "before_ok s' = before_ok s1" by (intro ext) (simp add: s' before_ok_def finished_by_def)
  show "asked_ok s' (flushers s' j)" if "j \<noteq> i" for j
  proof (rule asked_ok_step)
    show "asked_ok s1 (flushers s1 j)" by (rule flush_invD(2) [OF inv1])
  qed (simp_all add: before, simp_all add: s' that counters_grow_def subset_insertI)
  show "fworks_inv s'" using flush_invD(1) [OF inv1] by (simp add: s' fworks_inv_def s1(4))
qed

lemma flush_inv_call:
  assumes "flush_inv s" "flush_kthread_work i w s = Some s'" "counts_inv s"
  shows "flush_inv s'"
proof (rule flush_invI)
  have s': "s' = upd_flusher i (\<lambda>c. c\<lparr>fpc := F_inc w (queue_seq (works s w)), asked := (\<lambda>v. n_queued (works s v))\<rparr>) s"
    using assms(2) by (simp add: flush_kthread_work_def split: if_splits)
  have same: "asked_ok s' c = asked_ok s c" for c by (rule asked_ok_same) (simp_all add: s')
  show "asked_ok s' (flushers s' i)" unfolding same by (simp add: s' asked_ok_def countsD(2) [OF assms(3)])
  show "asked_ok s' (flushers s' j)" if "j \<noteq> i" for j
    unfolding same using flush_invD(2) [OF assms(1), of j] by (simp add: s' that)
  show "fworks_inv s'" using flush_invD(1) [OF assms(1)] by (simp add: s' fworks_inv_def)
qed

lemma asked_ok_frame [simp]:
  "asked_ok (s\<lparr>wrunning := r\<rparr>) c = asked_ok s c" "asked_ok (s\<lparr>wshould_stop := b\<rparr>) c = asked_ok s c"
  "asked_ok (s\<lparr>spc := t\<rparr>) c = asked_ok s c"
  by (cases "fpc c"; simp add: asked_ok_def before_ok_def finished_by_def)+

lemma flush_inv_frame [simp]:
  "flush_inv (s\<lparr>wrunning := r\<rparr>) = flush_inv s" "flush_inv (s\<lparr>wshould_stop := b\<rparr>) = flush_inv s"
  "flush_inv (s\<lparr>spc := t\<rparr>) = flush_inv s"
  by (simp_all add: flush_inv_def fworks_inv_def)

lemma flush_reach: "kw_reach s \<Longrightarrow> flush_inv s"
proof (induction rule: kw_reach.induct)
  case start
  then show ?case
    by (simp add: flush_inv_def fworks_inv_def asked_ok_def init_kthread_worker_def KTHREAD_WORK_INIT_def)
next
  case (step s e s')
  note inv = step.IH counts_reach [OF step.hyps(1)]
  show ?case
  proof (cases e)
    case Stop
    then show ?thesis using step.hyps(2) inv by (auto simp: stop_step_def split: stop_pc.splits)
  qed (use step.hyps(2) inv in \<open>auto split: if_splits intro: flush_inv_queue flush_inv_worker flush_inv_flusher
    flush_inv_flush_worker flush_inv_call\<close>)
qed

section \<open>No wakeup is lost\<close>

text \<open>
  The worker has looked at \<open>should_stop\<close> and at the list after it has set its state, so that a thread
  that stops it or queues a work later makes it running again.
\<close>

definition worker_wake_inv :: "kworker \<Rightarrow> bool" where
  "worker_wake_inv s \<longleftrightarrow> (worker_task s \<longleftrightarrow> wpc s \<noteq> W_start \<and> wpc s \<noteq> W_exited)
   \<and> (wshould_stop s \<longrightarrow> spc s \<noteq> S_idle) \<and> (wpc s = W_clear \<or> wpc s = W_exited \<longrightarrow> wshould_stop s)
   \<and> ((wpc s = W_take \<or> wpc s = W_schedule) \<and> \<not> wrunning s \<and> wshould_stop s \<longrightarrow> spc s = S_wake)
   \<and> (wpc s = W_schedule \<and> \<not> wrunning s \<longrightarrow> work_list s = [])"

lemma worker_wake_queue: "worker_wake_inv s \<Longrightarrow> worker_wake_inv (fst (queue_kthread_work w s))"
  by (simp add: worker_wake_inv_def queue_kthread_work_def Let_def)

lemma worker_wake_worker:
  assumes "worker_wake_inv s" "kthread_worker_fn fr s = Some s'"
  shows "worker_wake_inv s'"
  using assms
  by (cases "wpc s"; cases "work_list s")
    (auto simp: worker_wake_inv_def kthread_worker_fn_def wake_flushers_def work_func_def kthread_flush_work_fn_def
      split: if_splits)

lemma worker_wake_frame [simp]:
  "worker_wake_inv (s\<lparr>flushers := F\<rparr>) = worker_wake_inv s" "worker_wake_inv (s\<lparr>fworks := X\<rparr>) = worker_wake_inv s"
  "worker_wake_inv (s\<lparr>fwork_done := D\<rparr>) = worker_wake_inv s" "worker_wake_inv (s\<lparr>works := K\<rparr>) = worker_wake_inv s"
  by (simp_all add: worker_wake_inv_def)

lemma worker_wake_flusher: "worker_wake_inv s \<Longrightarrow> flush_step i s = Some s' \<Longrightarrow> worker_wake_inv s'"
  by (cases "fpc (flushers s i)") (auto simp: flush_step_def split: if_splits)

lemma worker_wake_stop: "worker_wake_inv s \<Longrightarrow> stop_step s = Some s' \<Longrightarrow> worker_wake_inv s'"
  by (cases "spc s") (auto simp: stop_step_def worker_wake_inv_def)

lemma worker_wake_run: "worker_wake_inv s \<Longrightarrow> worker_wake_inv (s\<lparr>wrunning := True\<rparr>)"
  by (simp add: worker_wake_inv_def)

lemma worker_wake_reach: "kw_reach s \<Longrightarrow> worker_wake_inv s"
proof (induction rule: kw_reach.induct)
  case (step s e s')
  show ?case
  proof (cases e)
    case (Work fr)
    then show ?thesis using step.hyps(2) step.IH worker_wake_worker by simp
  next
    case (Queue w)
    then have "s' = fst (queue_kthread_work w s)" using step.hyps(2) by (simp split: if_splits)
    then show ?thesis using step.IH worker_wake_queue by simp
  next
    case (Flush_worker i f)
    then have "s' = upd_flusher i (\<lambda>c. c\<lparr>fpc := F_complete f, asked := (\<lambda>v. n_queued (works s v))\<rparr>)
        (fst (queue_kthread_work f (s\<lparr>fworks := insert f (fworks s)\<rparr>)))"
      using step.hyps(2) by (simp add: flush_kthread_worker_def split: if_splits)
    then show ?thesis using step.IH worker_wake_queue [of "s\<lparr>fworks := insert f (fworks s)\<rparr>" f] by simp
  next
    case (Flusher i)
    then show ?thesis using step.hyps(2) step.IH worker_wake_flusher by simp
  next
    case Stop
    then show ?thesis using step.hyps(2) step.IH worker_wake_stop by simp
  next
    case (Flush_work i w)
    then show ?thesis using step.hyps(2) step.IH by (auto simp: flush_kthread_work_def split: if_splits)
  next
    case Wakeup
    then show ?thesis using step.hyps(2) step.IH worker_wake_run by auto
  qed
next
  case start
  show ?case by (simp add: worker_wake_inv_def init_kthread_worker_def)
qed

text \<open>The callers between the increment and the decrement of \<open>flushing\<close>, which counts them.\<close>

fun in_flush :: "wid \<Rightarrow> flush_pc \<Rightarrow> bool" where
  "in_flush w (F_prepare v q) = (v = w)" | "in_flush w (F_test v q) = (v = w)" | "in_flush w (F_schedule v q) = (v = w)"
| "in_flush w (F_dec v) = (v = w)" | "in_flush w _ = False"

definition flushers_of :: "kworker \<Rightarrow> wid \<Rightarrow> nat set" where
  "flushers_of s w = {i. in_flush w (fpc (flushers s i))}"

definition flushing_inv :: "kworker \<Rightarrow> bool" where
  "flushing_inv s \<longleftrightarrow> (\<forall>w. finite (flushers_of s w) \<and> flushing (works s w) = card (flushers_of s w))"

lemma flushing_inv_cong:
  assumes "\<And>w. flushers_of s' w = flushers_of s w" "\<And>w. flushing (works s' w) = flushing (works s w)"
  shows "flushing_inv s' = flushing_inv s"
  by (simp add: flushing_inv_def assms)

lemma flushers_of_upd:
  "flushers_of (s\<lparr>flushers := (flushers s)(i := c)\<rparr>) w =
     (if in_flush w (fpc c) then insert i (flushers_of s w) else flushers_of s w - {i})"
  by (auto simp: flushers_of_def)

lemma flushers_of_works [simp]: "flushers_of (s\<lparr>works := K\<rparr>) = flushers_of s"
  "flushers_of (s\<lparr>fwork_done := D\<rparr>) = flushers_of s" "flushers_of (s\<lparr>works := K, flushers := F\<rparr>) = flushers_of (s\<lparr>flushers := F\<rparr>)"
  by (simp_all add: flushers_of_def fun_eq_iff)

lemma flushing_inv_keep:
  assumes "\<And>v. in_flush v (fpc c) = in_flush v (fpc (flushers s i))"
  shows "flushing_inv (s\<lparr>flushers := (flushers s)(i := c)\<rparr>) = flushing_inv s"
proof (rule flushing_inv_cong)
  show "flushers_of (s\<lparr>flushers := (flushers s)(i := c)\<rparr>) w = flushers_of s w" for w
    using assms by (auto simp: flushers_of_def)
qed simp

lemma flushing_inv_frame [simp]:
  "flushing_inv (s\<lparr>fwork_done := D\<rparr>) = flushing_inv s" "flushing_inv (s\<lparr>fworks := X\<rparr>) = flushing_inv s"
  "flushing_inv (s\<lparr>wrunning := r\<rparr>) = flushing_inv s" "flushing_inv (s\<lparr>wshould_stop := b\<rparr>) = flushing_inv s"
  "flushing_inv (s\<lparr>spc := t\<rparr>) = flushing_inv s" "flushing_inv (s\<lparr>wpc := l\<rparr>) = flushing_inv s"
  by (simp_all add: flushing_inv_def flushers_of_def)

lemma flushing_inv_flusher:
  assumes "flushing_inv s" "flush_step i s = Some s'"
  shows "flushing_inv s'"
proof (cases "fpc (flushers s i)")
  case (F_inc w sq)
  then have "i \<notin> flushers_of s w" "\<And>v. v \<noteq> w \<Longrightarrow> i \<notin> flushers_of s v" by (auto simp: flushers_of_def)
  then show ?thesis using assms F_inc by (auto simp: flush_step_def flushing_inv_def flushers_of_upd)
next
  case (F_dec w)
  then have "i \<in> flushers_of s w" "\<And>v. v \<noteq> w \<Longrightarrow> i \<notin> flushers_of s v" by (auto simp: flushers_of_def)
  then show ?thesis using assms F_dec by (auto simp: flush_step_def flushing_inv_def flushers_of_upd)
next
  case (F_complete f)
  let ?t = "s\<lparr>fwork_done := (fwork_done s)(f := fwork_done s f - 1)\<rparr>"
  have "s' = go_flusher i F_idle ?t"
    using assms(2) F_complete by (simp add: flush_step_def split: if_splits)
  then show ?thesis using assms(1) F_complete flushing_inv_keep [of "(flushers s i)\<lparr>fpc := F_idle\<rparr>" ?t i] by simp
qed (use assms in \<open>auto simp: flush_step_def flushing_inv_keep split: if_splits\<close>)

lemma flushing_inv_queue: "flushing_inv s \<Longrightarrow> flushing_inv (fst (queue_kthread_work w s))"
  by (subst flushing_inv_cong [where s = s]) (simp_all add: queue_kthread_work_def Let_def flushers_of_def)

lemma flushing_inv_worker:
  assumes "flushing_inv s" "kthread_worker_fn fr s = Some s'"
  shows "flushing_inv s'"
proof -
  have "fpc (flushers s' i) = fpc (flushers s i)" "flushing (works s' w) = flushing (works s w)" for i w
    using assms(2) by (auto simp: kthread_worker_fn_def wake_flushers_def work_func_def kthread_flush_work_fn_def
      split: worker_pc.splits if_splits list.splits)
  then show ?thesis using assms(1) by (subst flushing_inv_cong [where s = s]) (simp_all add: flushers_of_def)
qed

lemma flushing_reach: "kw_reach s \<Longrightarrow> flushing_inv s"
proof (induction rule: kw_reach.induct)
  case start
  then show ?case by (simp add: flushing_inv_def flushers_of_def init_kthread_worker_def KTHREAD_WORK_INIT_def)
next
  case (step s e s')
  show ?case
  proof (cases e)
    case (Work fr)
    then show ?thesis using step flushing_inv_worker by simp
  next
    case (Queue w)
    then show ?thesis using step flushing_inv_queue by (auto split: if_splits)
  next
    case (Flush_worker i f)
    let ?t = "fst (queue_kthread_work f (s\<lparr>fworks := insert f (fworks s)\<rparr>))"
    have s': "s' = upd_flusher i (\<lambda>c. c\<lparr>fpc := F_complete f, asked := (\<lambda>v. n_queued (works s v))\<rparr>) ?t"
      and l: "fpc (flushers s i) = F_idle"
      using step.hyps(2) Flush_worker by (simp_all add: flush_kthread_worker_def split: if_splits)
    moreover have "flushers ?t = flushers s" by (simp add: queue_kthread_work_def Let_def)
    ultimately show ?thesis using step.IH flushing_inv_queue [of "s\<lparr>fworks := insert f (fworks s)\<rparr>" f]
        flushing_inv_keep [of "(flushers s i)\<lparr>fpc := F_complete f, asked := (\<lambda>v. n_queued (works s v))\<rparr>" ?t i]
      by simp
  next
    case (Flusher i)
    then show ?thesis using step flushing_inv_flusher by simp
  next
    case (Flush_work i w)
    then show ?thesis using step.hyps(2) step.IH by (auto simp: flush_kthread_work_def flushing_inv_keep split: if_splits)
  next
    case Stop
    then show ?thesis using step.hyps(2) step.IH by (auto simp: stop_step_def split: stop_pc.splits)
  qed (use step.hyps(2) step.IH in auto)
qed

text \<open>A caller that sleeps although its work is done is about to be woken.\<close>

definition flush_wake_inv :: "kworker \<Rightarrow> bool" where
  "flush_wake_inv s \<longleftrightarrow> (\<forall>i w sq. fpc (flushers s i) = F_schedule w sq \<and> \<not> frunning (flushers s i) \<and> seq_done sq (works s w)
     \<longrightarrow> wpc s = W_flushing w \<or> wpc s = W_wake w)"

lemma flush_wake_cong:
  assumes "flush_wake_inv s" "wpc s' = wpc s" "\<And>w. done_seq (works s' w) = done_seq (works s w)"
    and "\<And>i w sq. fpc (flushers s' i) = F_schedule w sq \<Longrightarrow> \<not> frunning (flushers s' i) \<Longrightarrow> seq_done sq (works s w) \<Longrightarrow>
      fpc (flushers s i) = F_schedule w sq \<and> \<not> frunning (flushers s i)"
  shows "flush_wake_inv s'"
  using assms unfolding flush_wake_inv_def seq_done_def by metis

lemma flush_wake_flusher:
  assumes "flush_wake_inv s" "flush_step i s = Some s'"
  shows "flush_wake_inv s'"
proof (rule flush_wake_cong [OF assms(1)])
  show "wpc s' = wpc s" "done_seq (works s' w) = done_seq (works s w)" for w
    using assms(2) by (auto simp: flush_step_def split: flush_pc.splits if_splits)
  show "fpc (flushers s j) = F_schedule w sq \<and> \<not> frunning (flushers s j)"
    if "fpc (flushers s' j) = F_schedule w sq" "\<not> frunning (flushers s' j)" "seq_done sq (works s w)" for j w sq
    using that assms(2) by (cases "j = i") (auto simp: flush_step_def split: flush_pc.splits if_splits)
qed

lemma flush_wake_worker:
  assumes "flush_wake_inv s" "kthread_worker_fn fr s = Some s'" "flushing_inv s"
  shows "flush_wake_inv s'"
proof -
  have busy: "flushing (works s w) \<noteq> 0" if "fpc (flushers s i) = F_schedule w sq" for i w sq
  proof -
    have "i \<in> flushers_of s w" using that by (simp add: flushers_of_def)
    moreover have "finite (flushers_of s w)" "flushing (works s w) = card (flushers_of s w)"
      using assms(3) by (simp_all add: flushing_inv_def)
    ultimately show ?thesis by (metis card_0_eq empty_iff)
  qed
  have asleep: "wpc s = W_flushing w \<or> wpc s = W_wake w"
    if "fpc (flushers s i) = F_schedule w sq" "\<not> frunning (flushers s i)" "seq_done sq (works s w)" for i w sq
    using assms(1) that by (auto simp: flush_wake_inv_def)
  show ?thesis
  proof (cases "wpc s")
    case (W_flushing w)
    then have s': "s' = s\<lparr>wpc := if flushing (works s w) \<noteq> 0 then W_wake w else W_repeat\<rparr>"
      using assms(2) by (simp add: kthread_worker_fn_def)
    show ?thesis unfolding flush_wake_inv_def
    proof (intro allI impI, elim conjE)
      fix i v sq
      assume "fpc (flushers s' i) = F_schedule v sq" "\<not> frunning (flushers s' i)" "seq_done sq (works s' v)"
      then have a: "fpc (flushers s i) = F_schedule v sq" "\<not> frunning (flushers s i)" "seq_done sq (works s v)"
        by (simp_all add: s')
      from asleep [OF this] W_flushing busy [OF a(1)] show "wpc s' = W_flushing v \<or> wpc s' = W_wake v"
        by (simp add: s')
    qed
  next
    case (W_wake w)
    then have s': "s' = (wake_flushers w s)\<lparr>wpc := W_repeat\<rparr>" using assms(2) by (simp add: kthread_worker_fn_def)
    show ?thesis unfolding flush_wake_inv_def
    proof (intro allI impI, elim conjE)
      fix i v sq
      assume a: "fpc (flushers s' i) = F_schedule v sq" "\<not> frunning (flushers s' i)" "seq_done sq (works s' v)"
      then have "fpc (flushers s i) = F_schedule v sq" "v \<noteq> w" "\<not> frunning (flushers s i)" "seq_done sq (works s v)"
        by (auto simp: s' wake_flushers_def split: if_splits)
      from asleep [OF this(1,3,4)] W_wake \<open>v \<noteq> w\<close> show "wpc s' = W_flushing v \<or> wpc s' = W_wake v" by simp
    qed
  next
    case (W_seq w)
    then have s': "s' = (upd_work w (\<lambda>k. k\<lparr>done_seq := queue_seq k, n_at_done := n_queued k\<rparr>) s)\<lparr>wpc := W_flushing w\<rparr>"
      using assms(2) by (simp add: kthread_worker_fn_def)
    show ?thesis unfolding flush_wake_inv_def
    proof (intro allI impI, elim conjE)
      fix i v sq
      assume a: "fpc (flushers s' i) = F_schedule v sq" "\<not> frunning (flushers s' i)" "seq_done sq (works s' v)"
      show "wpc s' = W_flushing v \<or> wpc s' = W_wake v"
      proof (cases "v = w")
        case False
        with a have "fpc (flushers s i) = F_schedule v sq" "\<not> frunning (flushers s i)" "seq_done sq (works s v)"
          by (simp_all add: s')
        from asleep [OF this] W_seq show ?thesis by simp
      qed (simp add: s')
    qed
  next
    case W_take
    then have "wpc s' \<noteq> wpc s \<and> works s' = works s \<and> flushers s' = flushers s"
      using assms(2) by (cases "work_list s") (auto simp: kthread_worker_fn_def)
    with W_take asleep show ?thesis by (auto simp: flush_wake_inv_def)
  next
    case (W_func w)
    then have "flushers s' = flushers s" "\<And>v. done_seq (works s' v) = done_seq (works s v)"
      using assms(2) by (auto simp: kthread_worker_fn_def work_func_def kthread_flush_work_fn_def)
    then show ?thesis using W_func asleep by (fastforce simp: flush_wake_inv_def seq_done_def)
  qed (use assms(2) asleep in \<open>auto simp: kthread_worker_fn_def flush_wake_inv_def split: if_splits\<close>)
qed

lemma flush_wake_queue: "flush_wake_inv s \<Longrightarrow> flush_wake_inv (fst (queue_kthread_work w s))"
  by (erule flush_wake_cong) simp_all

lemma flush_wake_reach: "kw_reach s \<Longrightarrow> flush_wake_inv s"
proof (induction rule: kw_reach.induct)
  case start
  then show ?case by (simp add: flush_wake_inv_def init_kthread_worker_def)
next
  case (step s e s')
  show ?case
  proof (cases e)
    case (Work fr)
    then show ?thesis using step.hyps(2) step.IH flush_wake_worker flushing_reach [OF step.hyps(1)] by simp
  next
    case (Queue w)
    then have "s' = fst (queue_kthread_work w s)" using step.hyps(2) by (simp split: if_splits)
    then show ?thesis using step.IH flush_wake_queue by simp
  next
    case (Flush_worker i f)
    let ?t = "fst (queue_kthread_work f (s\<lparr>fworks := insert f (fworks s)\<rparr>))"
    have "s' = upd_flusher i (\<lambda>c. c\<lparr>fpc := F_complete f, asked := (\<lambda>v. n_queued (works s v))\<rparr>) ?t"
      using step.hyps(2) Flush_worker by (simp add: flush_kthread_worker_def split: if_splits)
    then show ?thesis by (intro flush_wake_cong [OF step.IH]) (auto simp: queue_kthread_work_def Let_def split: if_splits)
  next
    case (Flusher i)
    then show ?thesis using step.hyps(2) step.IH flush_wake_flusher by simp
  next
    case (Flush_work i w)
    then show ?thesis using step.hyps(2)
      by (intro flush_wake_cong [OF step.IH]) (auto simp: flush_kthread_work_def split: if_splits)
  next
    case Stop
    then show ?thesis using step.hyps(2)
      by (intro flush_wake_cong [OF step.IH]) (auto simp: stop_step_def split: stop_pc.splits)
  next
    case Wakeup
    then show ?thesis using step.hyps(2) by (intro flush_wake_cong [OF step.IH]) auto
  qed
qed

section \<open>The worker alone\<close>

text \<open>The worker's thread for some steps, when nobody freezes it.\<close>

abbreviation work_steps :: "nat \<Rightarrow> kworker \<Rightarrow> kworker option" where
  "work_steps n s \<equiv> kw_run (replicate n (Work False)) s"

lemma work_steps_add: "work_steps m s = Some s' \<Longrightarrow> work_steps n s' = Some s'' \<Longrightarrow> work_steps (m + n) s = Some s''"
  by (simp add: replicate_add kw_run_append)

lemma work_steps_Suc: "work_steps (Suc n) s = (case kthread_worker_fn False s of None \<Rightarrow> None | Some s' \<Rightarrow> work_steps n s')"
  by simp

lemma worker_keeps:
  assumes "kthread_worker_fn fr s = Some s'"
  shows "wshould_stop s' = wshould_stop s" "n_queued (works s' w) = n_queued (works s w)"
  using assms by (cases "wpc s"; cases "work_list s";
    auto simp: kthread_worker_fn_def wake_flushers_def work_func_def kthread_flush_work_fn_def split: if_splits)+

lemma work_steps_keeps:
  "work_steps n s = Some s' \<Longrightarrow> wshould_stop s' = wshould_stop s \<and> n_queued (works s' w) = n_queued (works s w)"
proof (induction n arbitrary: s)
  case (Suc n)
  then obtain t where "kthread_worker_fn False s = Some t" "work_steps n t = Some s'"
    by (auto split: option.splits)
  with Suc.IH [of t] worker_keeps [of False s t] show ?case by simp
qed simp

text \<open>From every place but its end the worker gets back to the top of its loop, or sleeps with nothing to do.\<close>

lemma finish_work:
  assumes "wpc s = W_state w \<or> wpc s = W_func w \<or> wpc s = W_seq w \<or> wpc s = W_flushing w \<or> wpc s = W_wake w"
  shows "\<exists>n s'. work_steps n s = Some s' \<and> wpc s' = W_repeat \<and> work_list s' = work_list s"
proof -
  have wake: "\<exists>n s'. work_steps n s = Some s' \<and> wpc s' = W_repeat \<and> work_list s' = work_list s"
    if "wpc s = W_wake w" for s
    using that by (intro exI [of _ 1]) (simp add: kthread_worker_fn_def wake_flushers_def)
  have flsh: "\<exists>n s'. work_steps n s = Some s' \<and> wpc s' = W_repeat \<and> work_list s' = work_list s"
    if pc: "wpc s = W_flushing w" for s
  proof (cases "flushing (works s w) = 0")
    case True
    then show ?thesis using pc by (intro exI [of _ 1]) (simp add: kthread_worker_fn_def)
  next
    case False
    then have "work_steps 1 s = Some (s\<lparr>wpc := W_wake w\<rparr>)" using pc by (simp add: kthread_worker_fn_def)
    with wake [of "s\<lparr>wpc := W_wake w\<rparr>"] show ?thesis using work_steps_add by fastforce
  qed
  have sq: "\<exists>n s'. work_steps n s = Some s' \<and> wpc s' = W_repeat \<and> work_list s' = work_list s"
    if pc: "wpc s = W_seq w" for s
  proof -
    let ?t = "(upd_work w (\<lambda>k. k\<lparr>done_seq := queue_seq k, n_at_done := n_queued k\<rparr>) s)\<lparr>wpc := W_flushing w\<rparr>"
    have "work_steps 1 s = Some ?t" using pc by (simp add: kthread_worker_fn_def)
    with flsh [of ?t] show ?thesis using work_steps_add by fastforce
  qed
  have fn: "\<exists>n s'. work_steps n s = Some s' \<and> wpc s' = W_repeat \<and> work_list s' = work_list s"
    if pc: "wpc s = W_func w" for s
  proof -
    let ?t = "(work_func w s)\<lparr>wpc := W_seq w\<rparr>"
    have "work_steps 1 s = Some ?t" "work_list ?t = work_list s"
      using pc by (simp_all add: kthread_worker_fn_def work_func_def kthread_flush_work_fn_def)
    with sq [of ?t] show ?thesis using work_steps_add by fastforce
  qed
  have st: "\<exists>n s'. work_steps n s = Some s' \<and> wpc s' = W_repeat \<and> work_list s' = work_list s"
    if pc: "wpc s = W_state w" for s
  proof -
    let ?t = "s\<lparr>wrunning := True, wpc := W_func w\<rparr>"
    have "work_steps 1 s = Some ?t" using pc by (simp add: kthread_worker_fn_def)
    with fn [of ?t] show ?thesis using work_steps_add by fastforce
  qed
  from assms wake flsh sq fn st show ?thesis by blast
qed

lemma execute_all:
  assumes "wpc s = W_repeat" "\<not> wshould_stop s"
  shows "\<exists>n s'. work_steps n s = Some s' \<and> wpc s' = W_schedule \<and> work_list s' = []"
  using assms
proof (induction "length (work_list s)" arbitrary: s rule: less_induct)
  case less
  let ?t = "s\<lparr>wrunning := False, wpc := W_take\<rparr>"
  have t: "work_steps 2 s = Some ?t"
    using less.prems by (simp add: kthread_worker_fn_def numeral_2_eq_2)
  show ?case
  proof (cases "work_list s")
    case Nil
    then have "work_steps 1 ?t = Some (?t\<lparr>wpc := W_schedule\<rparr>)" by (simp add: kthread_worker_fn_def)
    from work_steps_add [OF t this] Nil show ?thesis
      by (intro exI [of _ "2 + 1"] exI [of _ "?t\<lparr>wpc := W_schedule\<rparr>"]) simp
  next
    case (Cons w ws)
    let ?u = "?t\<lparr>work_list := ws, wpc := W_state w\<rparr>"
    have u: "work_steps 1 ?t = Some ?u" using Cons by (simp add: kthread_worker_fn_def)
    obtain n v where v: "work_steps n ?u = Some v" "wpc v = W_repeat" "work_list v = ws"
      using finish_work [of ?u w] by auto
    have "\<not> wshould_stop v" using work_steps_keeps [OF v(1)] less.prems(2) by simp
    with less.hyps [of v] v(2,3) Cons obtain m x where "work_steps m v = Some x" "wpc x = W_schedule" "work_list x = []"
      by auto
    with work_steps_add [OF work_steps_add [OF t u] work_steps_add [OF v(1)]] show ?thesis by blast
  qed
qed

lemma worker_drains_list:
  assumes "kw_reach s" "\<not> wshould_stop s"
  shows "\<exists>n s'. work_steps n s = Some s' \<and> wpc s' = W_schedule \<and> work_list s' = []"
proof -
  note inv = worker_wake_reach [OF assms(1)]
  have again: ?thesis if r: "work_steps n s = Some t" "wpc t = W_repeat" for n t
  proof -
    have "\<not> wshould_stop t" using work_steps_keeps [OF r(1)] assms(2) by simp
    from execute_all [OF r(2) this] work_steps_add [OF r(1)] show ?thesis by blast
  qed
  let ?t = "s\<lparr>wpc := W_take\<rparr>"
  consider "wpc s = W_start" | "wpc s = W_repeat" | "wpc s = W_should_stop \<or> wpc s = W_take"
    | w where "wpc s = W_state w \<or> wpc s = W_func w \<or> wpc s = W_seq w \<or> wpc s = W_flushing w \<or> wpc s = W_wake w"
    | "wpc s = W_schedule"
    using inv assms(2) by (cases "wpc s") (auto simp: worker_wake_inv_def)
  then show ?thesis
  proof cases
    case 1
    then show ?thesis
      by (intro again [of 1 "s\<lparr>worker_task := True, wpc := W_repeat\<rparr>"]) (simp_all add: kthread_worker_fn_def)
  next
    case 2
    then show ?thesis by (intro again [of 0 s]) simp_all
  next
    case 3
    then have "\<exists>n. work_steps n s = Some ?t"
    proof
      assume "wpc s = W_should_stop"
      then show ?thesis using assms(2) by (intro exI [of _ 1]) (simp add: kthread_worker_fn_def)
    next
      assume "wpc s = W_take"
      then show ?thesis by (intro exI [of _ 0]) simp
    qed
    then obtain n where n: "work_steps n s = Some ?t" ..
    show ?thesis
    proof (cases "work_list s")
      case Nil
      then have "work_steps 1 ?t = Some (?t\<lparr>wpc := W_schedule\<rparr>)" by (simp add: kthread_worker_fn_def)
      from work_steps_add [OF n this] Nil show ?thesis
        by (intro exI [of _ "n + 1"] exI [of _ "?t\<lparr>wpc := W_schedule\<rparr>"]) simp
    next
      case (Cons w ws)
      let ?u = "?t\<lparr>work_list := ws, wpc := W_state w\<rparr>"
      have u: "work_steps 1 ?t = Some ?u" using Cons by (simp add: kthread_worker_fn_def)
      obtain m v where "work_steps m ?u = Some v" "wpc v = W_repeat"
        using finish_work [of ?u w] by auto
      with work_steps_add [OF n work_steps_add [OF u]] show ?thesis by (blast intro: again)
    qed
  next
    case (4 w)
    from finish_work [OF this] show ?thesis by (blast intro: again)
  next
    case 5
    show ?thesis
    proof (cases "wrunning s")
      case True
      with 5 show ?thesis by (intro again [of 1 "s\<lparr>wpc := W_repeat\<rparr>"]) (simp_all add: kthread_worker_fn_def)
    next
      case False
      with 5 inv have "work_list s = []" by (simp add: worker_wake_inv_def)
      with 5 show ?thesis by (intro exI [of _ 0] exI [of _ s]) simp
    qed
  qed
qed

end
