(* ===== verification/Kthread_Props.thy ===== *)
theory Kthread_Props
  imports Kthread_Flush
begin

text \<open>
  What the functions for works of a kernel thread promise, in every reachable state: what is
  finished when a flush returns, that no wakeup is lost, that the worker executes what is queued;
  and two runs in which they do not do what they should.
\<close>

section \<open>Runs\<close>

text \<open>A run up to the call of the function of work 0, which was queued once.\<close>

definition run_to_func :: "kw_event list" where
  "run_to_func = Queue 0 # replicate 5 (Work False)"

text \<open>The state after a run of the worker.\<close>

definition kw_after :: "kw_event list \<Rightarrow> kworker" where
  "kw_after es = (case kw_run es init_kthread_worker of Some s \<Rightarrow> s | None \<Rightarrow> init_kthread_worker)"

lemma kw_after_reach: "kw_reach (kw_after es)"
  by (auto simp: kw_after_def kw_reach.start split: option.splits intro: kw_run_reach)

text \<open>
  A work that is queued again while it is executed, and flushed then: the worker stores the number of
  the second instance as done when the first is finished, and \<open>flush_kthread_work\<close> returns while the
  work is on the list.
\<close>

theorem flush_misses_requeued_work:
  "case kw_run (run_to_func @ [Queue 0, Flush_work 7 0, Work False, Work False, Flusher 7, Flusher 7, Flusher 7, Flusher 7])
      init_kthread_worker of None \<Rightarrow> False
   | Some s \<Rightarrow> fpc (flushers s 7) = F_idle \<and> asked (flushers s 7) 0 = 2 \<and> n_finished (works s 0) = 1 \<and> 0 \<in> set (work_list s)"
  by code_simp

text \<open>
  The work of \<open>flush_kthread_worker\<close> is on its stack. The function of the work completes the caller,
  which can return before the worker stores \<open>done_seq\<close> into the work.
\<close>

theorem flush_work_outlived:
  "case kw_run ([Flush_worker 7 3] @ replicate 6 (Work False) @ [Flusher 7]) init_kthread_worker of None \<Rightarrow> False
   | Some s \<Rightarrow> fpc (flushers s 7) = F_idle \<and> wpc s = W_seq 3"
  by code_simp

text \<open>A caller that sleeps until the worker wakes it, and one that waits for the whole worker.\<close>

definition run_flush :: "kw_event list" where
  "run_flush = run_to_func @ [Flush_work 7 0] @ replicate 3 (Flusher 7) @ replicate 4 (Work False) @ replicate 3 (Flusher 7)"

definition run_idle :: "kw_event list" where
  "run_idle = replicate 4 (Work False)"

definition run_flush_worker :: "kw_event list" where
  "run_flush_worker = run_to_func @ [Queue 1, Flush_worker 7 3, Queue 0] @ replicate 15 (Work False)"

lemma run_flush_end:
  "fpc (flushers (kw_after run_flush) 7) = F_dec 0 \<and> asked (flushers (kw_after run_flush) 7) 0 = 1 \<and> requeued (kw_after run_flush) = {}
   \<and> flush_step 7 (kw_after run_flush) \<noteq> None"
  by code_simp

lemma run_flush_worker_end:
  "fpc (flushers (kw_after run_flush_worker) 7) = F_complete 3 \<and> asked (flushers (kw_after run_flush_worker) 7) 1 = 1
   \<and> flush_step 7 (kw_after run_flush_worker) \<noteq> None"
  by code_simp

section \<open>The properties\<close>

text \<open>
  C11. \<open>flush_kthread_work\<close> waits for the work: when it returns, in any interleaving with other
  callers, queueing threads, the worker and its stop, and whatever sequence number has wrapped
  around, every instance of the work that was queued before the call has been executed to its end;
  except that the last of them may still be waiting on the list if the work has ever been queued
  again while it was being executed.
\<close>

theorem flush_kthread_work_waits:
  assumes "kw_reach s" "fpc (flushers s i) = F_dec w" "flush_step i s = Some s'"
  shows "fpc (flushers s' i) = F_idle \<and> asked (flushers s' i) w \<le> n_finished (works s' w) + of_bool (w \<in> requeued s')"
proof -
  have "asked (flushers s i) w \<le> n_at_done (works s w)"
    using flush_invD(2) [OF flush_reach [OF assms(1)], of i] assms(2) by (simp add: asked_ok_def)
  then have "asked (flushers s i) w \<le> n_finished (works s w) + of_bool (w \<in> requeued s)"
    using countsD(6) [OF counts_reach [OF assms(1)], of w] by simp
  with assms(2,3) show ?thesis by (auto simp: flush_step_def)
qed

lemma flush_kthread_work_waits_witness:
  "\<exists>s'. flush_step 7 (kw_after run_flush) = Some s' \<and> asked (flushers s' 7) 0 \<le> n_finished (works s' 0) + of_bool (0 \<in> requeued s')"
proof -
  obtain s' where s': "flush_step 7 (kw_after run_flush) = Some s'" using run_flush_end by blast
  with flush_kthread_work_waits [OF kw_after_reach _ s', of 0] run_flush_end show ?thesis by blast
qed

text \<open>
  C12. \<open>flush_kthread_worker\<close> waits for all works: when it returns, every instance of every work that
  was queued before the call has been executed to its end, whatever was queued since then.
\<close>

theorem flush_kthread_worker_waits:
  assumes "kw_reach s" "fpc (flushers s i) = F_complete f" "flush_step i s = Some s'"
  shows "fpc (flushers s' i) = F_idle \<and> asked (flushers s' i) w \<le> n_finished (works s' w)"
proof -
  note inv = flush_reach [OF assms(1)]
  have d: "fwork_done s f > 0"
    and s': "s' = go_flusher i F_idle (s\<lparr>fwork_done := (fwork_done s)(f := fwork_done s f - 1)\<rparr>)"
    using assms(2,3) by (simp_all add: flush_step_def split: if_splits)
  have f: "f \<in> fworks s" "before_ok s f (asked (flushers s i))"
    using flush_invD(2) [OF inv, of i] assms(2) by (simp_all add: asked_ok_def)
  have "n_queued (works s f) = 1" "fwork_done s f \<le> n_finished (works s f)"
    using flush_invD(1) [OF inv] f(1) by (simp_all add: fworks_inv_def)
  with d countsD(1) [OF counts_reach [OF assms(1)], of f] have "f \<notin> set (work_list s)" by auto
  with f(2) show ?thesis by (simp add: s' before_ok_def finished_by_def)
qed

lemma flush_kthread_worker_waits_witness:
  "\<exists>s'. flush_step 7 (kw_after run_flush_worker) = Some s' \<and> asked (flushers s' 7) 1 \<le> n_finished (works s' 1)"
proof -
  obtain s' where s': "flush_step 7 (kw_after run_flush_worker) = Some s'" using run_flush_worker_end by blast
  with flush_kthread_worker_waits [OF kw_after_reach _ s', of 3 1] run_flush_worker_end show ?thesis by blast
qed

text \<open>
  C13. No wakeup is lost. In every reachable state, if the worker's thread cannot go on, then it has
  ended, or it sleeps while its list is empty, and a stop that is under way has its wakeup still to
  come. And if a caller of \<open>flush_kthread_work\<close> sleeps, then the work it waits for is on the list or
  being executed, or the worker is about to wake it, unless \<open>2 ^ 31\<close> instances have been finished
  since it called.
\<close>

theorem kthread_wakeups_not_lost:
  assumes "kw_reach s"
  shows "(kthread_worker_fn False s = None \<longrightarrow>
       wpc s = W_exited \<or> wpc s = W_schedule \<and> work_list s = [] \<and> (wshould_stop s \<longrightarrow> spc s = S_wake))
   \<and> (fpc (flushers s i) = F_schedule w sq \<and> flush_step i s = None \<longrightarrow>
       w \<in> set (work_list s) \<or> executing (wpc s) = Some w \<or> wpc s = W_flushing w \<or> wpc s = W_wake w
     \<or> asked (flushers s i) w + 2 ^ 31 \<le> n_finished (works s w) + 1)"
proof (intro conjI impI)
  assume "kthread_worker_fn False s = None"
  then show "wpc s = W_exited \<or> wpc s = W_schedule \<and> work_list s = [] \<and> (wshould_stop s \<longrightarrow> spc s = S_wake)"
    using worker_wake_reach [OF assms]
    by (cases "wpc s") (auto simp: worker_wake_inv_def kthread_worker_fn_def split: if_splits)
next
  assume a: "fpc (flushers s i) = F_schedule w sq \<and> flush_step i s = None"
  then have r: "\<not> frunning (flushers s i)" by (auto simp: flush_step_def split: if_splits)
  note C = countsD [OF counts_reach [OF assms], of w]
  have sq: "sq = of_nat (asked (flushers s i) w)" "asked (flushers s i) w \<le> n_queued (works s w)"
    using flush_invD(2) [OF flush_reach [OF assms], of i] a by (simp_all add: asked_ok_def)
  show "w \<in> set (work_list s) \<or> executing (wpc s) = Some w \<or> wpc s = W_flushing w \<or> wpc s = W_wake w
     \<or> asked (flushers s i) w + 2 ^ 31 \<le> n_finished (works s w) + 1"
  proof (rule ccontr)
    assume n: "\<not> ?thesis"
    have "work_ok s w" using counts_reach [OF assms] by (simp add: counts_inv_def)
    then have "n_queued (works s w) \<le> n_at_done (works s w) + of_bool (w \<in> set (work_list s)) + of_bool (executing (wpc s) = Some w)"
      unfolding work_ok_def count_ok_def by blast
    with n C(4) have "n_queued (works s w) = n_at_done (works s w)" by simp
    moreover have "n_at_done (works s w) < asked (flushers s i) w + 2 ^ 31"
      using n C(6) by (simp add: of_bool_def split: if_splits)
    ultimately have "seq_done sq (works s w)"
      unfolding sq(1) using seq_done_iff [OF C(3)] sq(2) by simp
    with flush_wake_reach [OF assms] a r n show False by (auto simp: flush_wake_inv_def)
  qed
qed

lemma kthread_wakeups_not_lost_witness:
  "work_list (kw_after run_idle) = [] \<and> wpc (kw_after run_idle) = W_schedule"
proof -
  have "kthread_worker_fn False (kw_after run_idle) = None" "wpc (kw_after run_idle) \<noteq> W_exited" by code_simp+
  then show ?thesis
    using kthread_wakeups_not_lost [OF kw_after_reach, of run_idle 0 0 0, THEN conjunct1] by simp
qed



end
