(* ===== verification/Kthread_Create.thy ===== *)
theory Kthread_Create
  imports Sched_Types
begin

text \<open>
  Creating and stopping kernel threads: \<open>kthread_create_on_node\<close>, \<open>kthreadd\<close>, \<open>create_kthread\<close>,
  \<open>kthread\<close> and \<open>kthread_stop\<close> of tergra/kernel/kthread.c.

  Any number of threads that ask for kernel threads, the daemon that creates them, the threads
  created, any number of threads that stop them, all interleaved; the sections under
  \<open>kthread_create_lock\<close> are single steps. \<open>kernel_thread\<close>, which is in fork.c, is an argument of the
  daemon's step: an error, or the address of a new task, which inherits from the daemon. Of
  \<open>do_exit\<close> the code relies on the exit code being kept, and on \<open>vfork_done\<close> being completed and reset.
\<close>

section \<open>State\<close>

type_synonym rid = nat    \<comment> \<open>the address of a \<open>struct kthread_create_info\<close>, one for each call\<close>

text \<open>A call of \<open>kthread_create_on_node\<close>: its place, what is on its list entry, and its result.\<close>

datatype request_pc = R_idle | R_wake | R_wait | R_setup | R_returned

record kthread_create_info =
  rpc :: request_pc
  ki_node :: int
  ki_result :: "(int + tid) option"
  ki_done :: bool

text \<open>
  A thread that executes \<open>kthread\<close>: its place and state, the fields of its \<open>struct kthread\<close>, what
  it inherits. The last three fields are not in the code: whether anyone has woken it since it said
  that it is there, whether \<open>threadfn\<close> has been called, and what it returned.
\<close>

datatype thread_pc =
  T_absent | T_self | T_state | T_result | T_complete | T_schedule | T_test | T_func | T_exit int | T_dead

record kthread_task =
  tpc :: thread_pc
  trunning :: bool
  create :: rid
  kt_should_stop :: bool
  vfork_done :: bool
  exited :: bool
  exit_code :: int
  kt_policy :: int
  kt_all_cpus :: bool
  pref_node :: int
  woken :: bool
  called :: bool
  returned :: int

datatype daemon_pc = D_init | D_state | D_test | D_schedule | D_running | D_loop | D_create rid

datatype stopper = K_idle | K_test tid | K_set tid | K_wake tid | K_wait tid | K_returned tid int

text \<open>All of it. \<open>thread_of\<close>, not in the code, is the thread created for a request.\<close>

record kthreads =
  create_list :: "rid list"
  requests :: "rid \<Rightarrow> kthread_create_info"
  kthreads :: "tid \<Rightarrow> kthread_task"
  known :: "tid set"
  stoppers :: "nat \<Rightarrow> stopper"
  dpc :: daemon_pc
  drunning :: bool
  d_policy :: int
  d_all_cpus :: bool
  pref_node_fork :: int
  thread_of :: "rid \<Rightarrow> tid option"

definition kthreads_init :: kthreads where
  "kthreads_init = \<lparr>create_list = [], requests = (\<lambda>_. \<lparr>rpc = R_idle, ki_node = 0, ki_result = None, ki_done = False\<rparr>),
     kthreads = (\<lambda>_. \<lparr>tpc = T_absent, trunning = False, create = 0, kt_should_stop = False, vfork_done = False,
       exited = False, exit_code = 0, kt_policy = 0, kt_all_cpus = True, pref_node = 0, woken = False, called = False, returned = 0\<rparr>),
     known = {}, stoppers = (\<lambda>_. K_idle), dpc = D_init, drunning = True, d_policy = 0, d_all_cpus = True,
     pref_node_fork = -1, thread_of = (\<lambda>_. None)\<rparr>"

abbreviation upd_req :: "rid \<Rightarrow> (kthread_create_info \<Rightarrow> kthread_create_info) \<Rightarrow> kthreads \<Rightarrow> kthreads" where
  "upd_req r f s \<equiv> s\<lparr>requests := (requests s)(r := f (requests s r))\<rparr>"

abbreviation upd_kt :: "tid \<Rightarrow> (kthread_task \<Rightarrow> kthread_task) \<Rightarrow> kthreads \<Rightarrow> kthreads" where
  "upd_kt t f s \<equiv> s\<lparr>kthreads := (kthreads s)(t := f (kthreads s t))\<rparr>"

abbreviation go_stopper :: "nat \<Rightarrow> stopper \<Rightarrow> kthreads \<Rightarrow> kthreads" where
  "go_stopper i l s \<equiv> s\<lparr>stoppers := (stoppers s)(i := l)\<rparr>"

text \<open>\<open>wake_up_process\<close> of the daemon, and of a kernel thread.\<close>

definition wake_daemon :: "kthreads \<Rightarrow> kthreads" where
  "wake_daemon s = s\<lparr>drunning := True\<rparr>"

definition wake_kthread :: "tid \<Rightarrow> kthreads \<Rightarrow> kthreads" where
  "wake_kthread t s = upd_kt t (\<lambda>k. k\<lparr>trunning := True, woken := True\<rparr>) s"

section \<open>Asking for a thread\<close>

text \<open>
  \<open>kthread_create_on_node\<close>. The call puts its structure on the list and wakes the daemon; when it
  has been answered with a thread it gives the thread back its policy and its cpus, which the daemon
  may have had changed.
\<close>

definition kthread_create_on_node :: "rid \<Rightarrow> int \<Rightarrow> kthreads \<Rightarrow> kthreads option" where
  "kthread_create_on_node r nd s =
     (if rpc (requests s r) = R_idle
      then Some (upd_req r (\<lambda>q. q\<lparr>rpc := R_wake, ki_node := nd, ki_done := False\<rparr>) s\<lparr>create_list := create_list s @ [r]\<rparr>)
      else None)"

definition request_step :: "rid \<Rightarrow> kthreads \<Rightarrow> kthreads option" where
  "request_step r s = (case rpc (requests s r) of
     R_idle \<Rightarrow> None
   | R_wake \<Rightarrow> Some (upd_req r (\<lambda>q. q\<lparr>rpc := R_wait\<rparr>) (wake_daemon s))
   | R_wait \<Rightarrow> (if ki_done (requests s r)
       then Some (upd_req r (\<lambda>q. q\<lparr>rpc := R_setup, ki_done := False\<rparr>) s) else None)
   | R_setup \<Rightarrow> Some (upd_req r (\<lambda>q. q\<lparr>rpc := R_returned\<rparr>) (case ki_result (requests s r) of
         Some (Inr t) \<Rightarrow> (upd_kt t (\<lambda>k. k\<lparr>kt_policy := SCHED_NORMAL, kt_all_cpus := True\<rparr>) s)\<lparr>known := insert t (known s)\<rparr>
       | _ \<Rightarrow> s))
   | R_returned \<Rightarrow> None)"

section \<open>The daemon\<close>

text \<open>\<open>create_kthread\<close> with what \<open>kernel_thread\<close> returns: the number of an error, or a task not in use.\<close>

definition create_kthread :: "rid \<Rightarrow> int + tid \<Rightarrow> kthreads \<Rightarrow> kthreads option" where
  "create_kthread r res s =
     (let s = s\<lparr>pref_node_fork := ki_node (requests s r)\<rparr> in
      case res of
        Inl e \<Rightarrow> Some (upd_req r (\<lambda>q. q\<lparr>ki_result := Some (Inl (- e)), ki_done := True\<rparr>) s)
      | Inr t \<Rightarrow> (if tpc (kthreads s t) = T_absent
          then Some (upd_kt t (\<lambda>k. k\<lparr>tpc := T_self, trunning := True, create := r, kt_policy := d_policy s,
            kt_all_cpus := d_all_cpus s, pref_node := pref_node_fork s\<rparr>) s\<lparr>thread_of := (thread_of s)(r := Some t)\<rparr>)
          else None))"

definition kthreadd :: "int + tid \<Rightarrow> kthreads \<Rightarrow> kthreads option" where
  "kthreadd res s = (case dpc s of
     D_init \<Rightarrow> Some (s\<lparr>d_all_cpus := True, dpc := D_state\<rparr>)
   | D_state \<Rightarrow> Some (s\<lparr>drunning := False, dpc := D_test\<rparr>)
   | D_test \<Rightarrow> Some (s\<lparr>dpc := if create_list s = [] then D_schedule else D_running\<rparr>)
   | D_schedule \<Rightarrow> (if drunning s then Some (s\<lparr>dpc := D_running\<rparr>) else None)
   | D_running \<Rightarrow> Some (s\<lparr>drunning := True, dpc := D_loop\<rparr>)
   | D_loop \<Rightarrow> Some (case create_list s of
         [] \<Rightarrow> s\<lparr>dpc := D_state\<rparr>
       | r # rs \<Rightarrow> s\<lparr>create_list := rs, dpc := D_create r\<rparr>)
   | D_create r \<Rightarrow> map_option (\<lambda>s'. s'\<lparr>dpc := D_loop\<rparr>) (create_kthread r res s))"

section \<open>The new thread\<close>

text \<open>
  \<open>kthread\<close>, up to the end of the thread; \<open>ret\<close> is what \<open>threadfn\<close> returns. The thread sets its
  state before it tells that it is there, so that a wakeup that comes before it calls \<open>schedule\<close> is
  not lost.
\<close>

definition kthread :: "tid \<Rightarrow> int \<Rightarrow> kthreads \<Rightarrow> kthreads option" where
  "kthread t ret s = (let k = kthreads s t; go = (\<lambda>f. Some (upd_kt t f s)) in case tpc k of
     T_absent \<Rightarrow> None
   | T_self \<Rightarrow> go (\<lambda>k. k\<lparr>kt_should_stop := False, exited := False, vfork_done := True, tpc := T_state\<rparr>)
   | T_state \<Rightarrow> go (\<lambda>k. k\<lparr>trunning := False, tpc := T_result\<rparr>)
   | T_result \<Rightarrow> Some (upd_req (create k) (\<lambda>q. q\<lparr>ki_result := Some (Inr t)\<rparr>) (upd_kt t (\<lambda>k. k\<lparr>tpc := T_complete\<rparr>) s))
   | T_complete \<Rightarrow> Some (upd_req (create k) (\<lambda>q. q\<lparr>ki_done := True\<rparr>) (upd_kt t (\<lambda>k. k\<lparr>tpc := T_schedule\<rparr>) s))
   | T_schedule \<Rightarrow> (if trunning k then go (\<lambda>k. k\<lparr>tpc := T_test\<rparr>) else None)
   | T_test \<Rightarrow> go (\<lambda>k. if kt_should_stop k then k\<lparr>tpc := T_exit (- EINTR)\<rparr> else k\<lparr>tpc := T_func, called := True\<rparr>)
   | T_func \<Rightarrow> go (\<lambda>k. k\<lparr>tpc := T_exit ret, returned := ret\<rparr>)
   | T_exit c \<Rightarrow> go (\<lambda>k. k\<lparr>exit_code := c, vfork_done := False, exited := True, tpc := T_dead\<rparr>)
   | T_dead \<Rightarrow> None)"

section \<open>Stopping a thread\<close>

text \<open>\<open>kthread_stop\<close>, called on a thread that \<open>kthread_create_on_node\<close> has returned.\<close>

definition kthread_stop :: "nat \<Rightarrow> tid \<Rightarrow> kthreads \<Rightarrow> kthreads option" where
  "kthread_stop i t s = (if t \<in> known s \<and> stoppers s i = K_idle then Some (go_stopper i (K_test t) s) else None)"

definition kt_stop_step :: "nat \<Rightarrow> kthreads \<Rightarrow> kthreads option" where
  "kt_stop_step i s = (case stoppers s i of
     K_idle \<Rightarrow> None
   | K_test t \<Rightarrow> Some (go_stopper i (if vfork_done (kthreads s t) then K_set t else K_returned t (exit_code (kthreads s t))) s)
   | K_set t \<Rightarrow> Some (go_stopper i (K_wake t) (upd_kt t (\<lambda>k. k\<lparr>kt_should_stop := True\<rparr>) s))
   | K_wake t \<Rightarrow> Some (go_stopper i (K_wait t) (wake_kthread t s))
   | K_wait t \<Rightarrow> (if exited (kthreads s t) then Some (go_stopper i (K_returned t (exit_code (kthreads s t))) s) else None)
   | K_returned t c \<Rightarrow> None)"

section \<open>All threads\<close>

text \<open>
  The events: a call and a step of a request, a step of the daemon, of a kernel thread, a wakeup of
  a kernel thread by anyone who knows it, a call and a step of \<open>kthread_stop\<close>, and root changing the
  policy and the cpus of the daemon.
\<close>

datatype kt_event =
    Ask rid int | Request rid | Daemon "int + tid" | Kthread tid int | Wake_kthread tid
  | Stop_kthread nat tid | Stopper nat | Change_daemon int bool

fun kt_step :: "kt_event \<Rightarrow> kthreads \<Rightarrow> kthreads option" where
  "kt_step (Ask r nd) s = kthread_create_on_node r nd s"
| "kt_step (Request r) s = request_step r s"
| "kt_step (Daemon res) s = kthreadd res s"
| "kt_step (Kthread t ret) s = kthread t ret s"
| "kt_step (Wake_kthread t) s = (if t \<in> known s then Some (wake_kthread t s) else None)"
| "kt_step (Stop_kthread i t) s = kthread_stop i t s"
| "kt_step (Stopper i) s = kt_stop_step i s"
| "kt_step (Change_daemon pol cpus) s = Some (s\<lparr>d_policy := pol, d_all_cpus := cpus\<rparr>)"

fun kt_run :: "kt_event list \<Rightarrow> kthreads \<Rightarrow> kthreads option" where
  "kt_run [] s = Some s"
| "kt_run (e # es) s = (case kt_step e s of None \<Rightarrow> None | Some s' \<Rightarrow> kt_run es s')"

inductive kt_reach :: "kthreads \<Rightarrow> bool" where
  start: "kt_reach kthreads_init"
| step: "kt_reach s \<Longrightarrow> kt_step e s = Some s' \<Longrightarrow> kt_reach s'"

lemma kt_run_reach: "kt_run es s = Some s' \<Longrightarrow> kt_reach s \<Longrightarrow> kt_reach s'"
  by (induction es arbitrary: s) (auto split: option.splits intro: kt_reach.step)

end
