(* ===== verification/Kthread_Life.thy ===== *)
theory Kthread_Life
  imports Kthread_Create
begin

text \<open>
  Invariants of the creation of kernel threads: where each request is and how far its thread has come,
  what a thread has done according to its place, and that the daemon does not sleep on a request.
\<close>

section \<open>Requests and their threads\<close>

text \<open>How far a new thread has come: not yet at the store of its address, at the completion, or past it.\<close>

fun birth :: "thread_pc \<Rightarrow> nat" where
  "birth T_absent = 0" | "birth T_self = 0" | "birth T_state = 0" | "birth T_result = 0" | "birth T_complete = 1"
| "birth T_schedule = 2" | "birth T_test = 2" | "birth T_func = 2" | "birth (T_exit c) = 2" | "birth T_dead = 2"

definition answered :: "kthreads \<Rightarrow> rid \<Rightarrow> bool" where
  "answered s r \<longleftrightarrow> (case thread_of s r of
     None \<Rightarrow> (\<exists>e. ki_result (requests s r) = Some (Inl e))
   | Some t \<Rightarrow> ki_result (requests s r) = Some (Inr t) \<and> birth (tpc (kthreads s t)) = 2)"

definition being_born :: "kthreads \<Rightarrow> rid \<Rightarrow> bool" where
  "being_born s r \<longleftrightarrow> (case thread_of s r of
     None \<Rightarrow> False
   | Some t \<Rightarrow> ki_result (requests s r) = None \<and> birth (tpc (kthreads s t)) = 0
       \<or> ki_result (requests s r) = Some (Inr t) \<and> birth (tpc (kthreads s t)) = 1)"

definition untouched :: "kthreads \<Rightarrow> rid \<Rightarrow> bool" where
  "untouched s r \<longleftrightarrow> thread_of s r = None \<and> ki_result (requests s r) = None \<and> \<not> ki_done (requests s r)"

text \<open>
  A request that waits is on the list, or in the hands of the daemon, or its thread is on the way, or
  it has been answered.
\<close>

fun pc_ok :: "request_pc \<Rightarrow> bool \<Rightarrow> bool \<Rightarrow> bool \<Rightarrow> bool \<Rightarrow> bool \<Rightarrow> bool \<Rightarrow> bool" where
  "pc_ok R_idle listed creating dn new ans born \<longleftrightarrow> \<not> listed \<and> \<not> creating \<and> new"
| "pc_ok R_setup listed creating dn new ans born \<longleftrightarrow> \<not> listed \<and> \<not> creating \<and> \<not> dn \<and> ans"
| "pc_ok R_returned listed creating dn new ans born \<longleftrightarrow> \<not> listed \<and> \<not> creating \<and> \<not> dn \<and> ans"
| "pc_ok _ listed creating dn new ans born \<longleftrightarrow>
     (if listed \<or> creating then \<not> (listed \<and> creating) \<and> new else if dn then ans else born)"

definition req_ok :: "kthreads \<Rightarrow> rid \<Rightarrow> bool" where
  "req_ok s r \<longleftrightarrow> pc_ok (rpc (requests s r)) (r \<in> set (create_list s)) (dpc s = D_create r) (ki_done (requests s r))
     (untouched s r) (answered s r) (being_born s r)"

definition th_ok :: "kthreads \<Rightarrow> tid \<Rightarrow> bool" where
  "th_ok s t \<longleftrightarrow> (tpc (kthreads s t) \<noteq> T_absent \<longrightarrow> thread_of s (create (kthreads s t)) = Some t)
     \<and> (\<forall>r. thread_of s r = Some t \<longrightarrow> create (kthreads s t) = r \<and> tpc (kthreads s t) \<noteq> T_absent
          \<and> pref_node (kthreads s t) = ki_node (requests s r))"

definition birth_inv :: "kthreads \<Rightarrow> bool" where
  "birth_inv s \<longleftrightarrow> distinct (create_list s) \<and> (\<forall>r. req_ok s r) \<and> (\<forall>t. th_ok s t)"

lemma birth_invD:
  assumes "birth_inv s"
  shows "distinct (create_list s)" "req_ok s r" "th_ok s t"
  using assms by (simp_all add: birth_inv_def)

lemma req_ok_frame:
  assumes "req_ok s r" "requests s' r = requests s r" "r \<in> set (create_list s') \<longleftrightarrow> r \<in> set (create_list s)"
    and "dpc s' = D_create r \<longleftrightarrow> dpc s = D_create r" "thread_of s' r = thread_of s r"
    and "\<And>t. thread_of s r = Some t \<Longrightarrow> birth (tpc (kthreads s' t)) = birth (tpc (kthreads s t))"
  shows "req_ok s' r"
proof -
  have "answered s' r = answered s r" "being_born s' r = being_born s r" "untouched s' r = untouched s r"
    using assms(2,5,6) by (auto simp: answered_def being_born_def untouched_def split: option.splits)
  then show ?thesis using assms(1) by (simp add: req_ok_def assms(2-4))
qed

lemma th_ok_frame:
  assumes "th_ok s t" "create (kthreads s' t) = create (kthreads s t)"
    and "tpc (kthreads s' t) = T_absent \<longleftrightarrow> tpc (kthreads s t) = T_absent" "thread_of s' = thread_of s"
    and "pref_node (kthreads s' t) = pref_node (kthreads s t)"
    and "\<And>r. thread_of s r = Some t \<Longrightarrow> ki_node (requests s' r) = ki_node (requests s r)"
  shows "th_ok s' t"
  using assms by (simp add: th_ok_def)

lemma birth_invI:
  assumes "distinct (create_list s)" "\<And>r. req_ok s r" "\<And>t. th_ok s t"
  shows "birth_inv s"
  using assms by (simp add: birth_inv_def)

text \<open>The events one by one.\<close>

lemma birth_ask:
  assumes inv: "birth_inv s" and st: "kthread_create_on_node r nd s = Some s'"
  shows "birth_inv s'"
proof -
  note D = birth_invD [OF inv]
  have i: "rpc (requests s r) = R_idle"
    and s': "s' = upd_req r (\<lambda>q. q\<lparr>rpc := R_wake, ki_node := nd, ki_done := False\<rparr>) s\<lparr>create_list := create_list s @ [r]\<rparr>"
    using st by (simp_all add: kthread_create_on_node_def split: if_splits)
  have r: "r \<notin> set (create_list s)" "dpc s \<noteq> D_create r" "untouched s r"
    using D(2) [of r] i by (simp_all add: req_ok_def)
  show ?thesis
  proof (rule birth_invI)
    show "distinct (create_list s')" using D(1) r(1) by (simp add: s')
    show "req_ok s' v" for v
    proof (cases "v = r")
      case True
      then show ?thesis using r by (simp add: req_ok_def s' untouched_def)
    next
      case False
      then show ?thesis by (intro req_ok_frame [OF D(2)]) (simp_all add: s')
    qed
    show "th_ok s' t" for t
      using r(3) by (intro th_ok_frame [OF D(3)]) (auto simp: s' untouched_def)
  qed
qed

lemma birth_request:
  assumes inv: "birth_inv s" and st: "request_step r s = Some s'"
  shows "birth_inv s'"
proof -
  note D = birth_invD [OF inv]
  have fr: "create_list s' = create_list s" "dpc s' = dpc s" "thread_of s' = thread_of s"
    "\<And>t. tpc (kthreads s' t) = tpc (kthreads s t)" "\<And>t. create (kthreads s' t) = create (kthreads s t)"
    "\<And>t. pref_node (kthreads s' t) = pref_node (kthreads s t)" "\<And>v. v \<noteq> r \<Longrightarrow> requests s' v = requests s v"
    "\<And>v. ki_node (requests s' v) = ki_node (requests s v)"
    "ki_result (requests s' r) = ki_result (requests s r)"
    using st by (auto simp: request_step_def wake_daemon_def split: request_pc.splits option.splits sum.splits if_splits)
  have a: "answered s' r = answered s r" "being_born s' r = being_born s r"
    by (simp_all add: answered_def being_born_def fr split: option.splits)
  show ?thesis
  proof (rule birth_invI)
    show "distinct (create_list s')" using D(1) by (simp add: fr)
    show "th_ok s' t" for t by (intro th_ok_frame [OF D(3)]) (simp_all add: fr)
    show "req_ok s' v" for v
    proof (cases "v = r")
      case True
      consider "rpc (requests s r) = R_wake" "rpc (requests s' r) = R_wait" "ki_done (requests s' r) = ki_done (requests s r)"
        | "rpc (requests s r) = R_wait" "ki_done (requests s r)" "rpc (requests s' r) = R_setup" "\<not> ki_done (requests s' r)"
        | "rpc (requests s r) = R_setup" "rpc (requests s' r) = R_returned" "ki_done (requests s' r) = ki_done (requests s r)"
        using st by (auto simp: request_step_def wake_daemon_def split: request_pc.splits option.splits sum.splits if_splits)
      then show ?thesis using D(2) [of r] True
        by cases (auto simp: req_ok_def fr(1,2,3,9) a untouched_def split: if_splits)
    next
      case False
      then show ?thesis by (intro req_ok_frame [OF D(2)]) (simp_all add: fr)
    qed
  qed
qed

lemma birth_create:
  assumes inv: "birth_inv s" and st: "create_kthread r res s = Some s1" and dr: "dpc s = D_create r"
  shows "birth_inv (s1\<lparr>dpc := D_loop\<rparr>)"
proof -
  note D = birth_invD [OF inv]
  have r: "rpc (requests s r) = R_wake \<or> rpc (requests s r) = R_wait" "r \<notin> set (create_list s)" "untouched s r"
    using D(2) [of r] dr by (cases "rpc (requests s r)"; simp add: req_ok_def split: if_splits)+
  show ?thesis
  proof (cases res)
    case (Inl e)
    then have s1: "s1 = upd_req r (\<lambda>q. q\<lparr>ki_result := Some (Inl (- e)), ki_done := True\<rparr>) (s\<lparr>pref_node_fork := ki_node (requests s r)\<rparr>)"
      using st by (simp add: create_kthread_def)
    show ?thesis
    proof (rule birth_invI)
      show "distinct (create_list (s1\<lparr>dpc := D_loop\<rparr>))" using D(1) by (simp add: s1)
      show "th_ok (s1\<lparr>dpc := D_loop\<rparr>) t" for t by (intro th_ok_frame [OF D(3)]) (simp_all add: s1)
      show "req_ok (s1\<lparr>dpc := D_loop\<rparr>) v" for v
      proof (cases "v = r")
        case True
        then show ?thesis using r by (auto simp: req_ok_def s1 answered_def untouched_def)
      next
        case False
        then show ?thesis using dr by (intro req_ok_frame [OF D(2)]) (simp_all add: s1)
      qed
    qed
  next
    case (Inr t)
    have ab: "tpc (kthreads s t) = T_absent" using st Inr by (simp add: create_kthread_def Let_def split: if_splits)
    have s1: "s1 = upd_kt t (\<lambda>k. k\<lparr>tpc := T_self, trunning := True, create := r, kt_policy := d_policy s,
        kt_all_cpus := d_all_cpus s, pref_node := ki_node (requests s r)\<rparr>)
        (s\<lparr>pref_node_fork := ki_node (requests s r)\<rparr>)\<lparr>thread_of := (thread_of s)(r := Some t)\<rparr>"
      using st Inr ab by (simp add: create_kthread_def)
    have no: "thread_of s v \<noteq> Some t" for v using D(3) [of t] ab by (auto simp: th_ok_def)
    show ?thesis
    proof (rule birth_invI)
      show "distinct (create_list (s1\<lparr>dpc := D_loop\<rparr>))" using D(1) by (simp add: s1)
      show "th_ok (s1\<lparr>dpc := D_loop\<rparr>) u" for u
      proof (cases "u = t")
        case True
        then show ?thesis using no by (simp add: th_ok_def s1)
      next
        case False
        have n: "thread_of s r = None" using r(3) by (simp add: untouched_def)
        have "kthreads (s1\<lparr>dpc := D_loop\<rparr>) u = kthreads s u" "ki_node (requests (s1\<lparr>dpc := D_loop\<rparr>) v) = ki_node (requests s v)"
          "thread_of (s1\<lparr>dpc := D_loop\<rparr>) v = (if v = r then Some t else thread_of s v)" for v
          using False by (simp_all add: s1)
        then show ?thesis using D(3) [of u] n False unfolding th_ok_def by (metis option.distinct(1) option.inject)
      qed
      show "req_ok (s1\<lparr>dpc := D_loop\<rparr>) v" for v
      proof (cases "v = r")
        case True
        then show ?thesis using r by (elim disjE) (simp_all add: req_ok_def s1 being_born_def untouched_def)
      next
        case False
        have "birth (tpc (kthreads (s1\<lparr>dpc := D_loop\<rparr>) u)) = birth (tpc (kthreads s u))" if "thread_of s v = Some u" for u
          using that no [of v] by (auto simp: s1)
        then show ?thesis using dr False by (intro req_ok_frame [OF D(2)]) (simp_all add: s1)
      qed
    qed
  qed
qed

lemma birth_daemon:
  assumes inv: "birth_inv s" and st: "kthreadd res s = Some s'"
  shows "birth_inv s'"
proof -
  note D = birth_invD [OF inv]
  have quiet: "birth_inv s'" if "create_list s' = create_list s" "requests s' = requests s" "kthreads s' = kthreads s"
    "thread_of s' = thread_of s" "\<And>r. dpc s \<noteq> D_create r" "\<And>r. dpc s' \<noteq> D_create r"
  proof (rule birth_invI)
    show "distinct (create_list s')" using D(1) that(1) by simp
    show "req_ok s' r" for r by (intro req_ok_frame [OF D(2)]) (simp_all add: that)
    show "th_ok s' t" for t by (intro th_ok_frame [OF D(3)]) (simp_all add: that)
  qed
  show ?thesis
  proof (cases "dpc s")
    case (D_create r)
    then show ?thesis using st birth_create [OF inv _ D_create] by (auto simp: kthreadd_def)
  next
    case D_loop
    show ?thesis
    proof (cases "create_list s")
      case Nil
      then show ?thesis using st D_loop by (intro quiet) (auto simp: kthreadd_def)
    next
      case (Cons r rs)
      then have s': "s' = s\<lparr>create_list := rs, dpc := D_create r\<rparr>" using st D_loop by (simp add: kthreadd_def)
      have r: "rpc (requests s r) = R_wake \<or> rpc (requests s r) = R_wait" "untouched s r"
        using D(2) [of r] Cons by (cases "rpc (requests s r)"; simp add: req_ok_def split: if_splits)+
      show ?thesis
      proof (rule birth_invI)
        show "distinct (create_list s')" using D(1) Cons by (simp add: s')
        show "th_ok s' t" for t by (intro th_ok_frame [OF D(3)]) (simp_all add: s')
        show "req_ok s' v" for v
        proof (cases "v = r")
          case True
          then show ?thesis using r D(1) Cons by (auto simp: req_ok_def s' untouched_def)
        next
          case False
          then show ?thesis using D_loop Cons by (intro req_ok_frame [OF D(2)]) (auto simp: s')
        qed
      qed
    qed
  qed (use st in \<open>(intro quiet; auto simp: kthreadd_def split: if_splits)+\<close>)
qed

text \<open>A step after which a thread is as far as before.\<close>

lemma birth_same:
  assumes inv: "birth_inv s" and "create_list s' = create_list s" "requests s' = requests s" "dpc s' = dpc s"
    and "thread_of s' = thread_of s" "\<And>t. birth (tpc (kthreads s' t)) = birth (tpc (kthreads s t))"
    and "\<And>t. tpc (kthreads s' t) = T_absent \<longleftrightarrow> tpc (kthreads s t) = T_absent"
    and "\<And>t. create (kthreads s' t) = create (kthreads s t)" "\<And>t. pref_node (kthreads s' t) = pref_node (kthreads s t)"
  shows "birth_inv s'"
proof (rule birth_invI)
  note D = birth_invD [OF inv]
  show "distinct (create_list s')" using D(1) by (simp add: assms)
  show "req_ok s' r" for r by (intro req_ok_frame [OF D(2)]) (simp_all add: assms)
  show "th_ok s' t" for t by (intro th_ok_frame [OF D(3)]) (simp_all add: assms)
qed

lemma birth_kthread:
  assumes inv: "birth_inv s" and st: "kthread t ret s = Some s'"
  shows "birth_inv s'"
proof -
  note D = birth_invD [OF inv]
  let ?r = "create (kthreads s t)"
  have of: "tpc (kthreads s t) \<noteq> T_absent \<Longrightarrow> thread_of s ?r = Some t" using D(3) [of t] by (simp add: th_ok_def)
  have other: "req_ok s' v" if "v \<noteq> ?r" "requests s' = (requests s)(?r := q)" "kthreads s' = (kthreads s)(t := k)"
    "create_list s' = create_list s" "dpc s' = dpc s" "thread_of s' = thread_of s" for v q k
  proof (rule req_ok_frame [OF D(2)])
    show "birth (tpc (kthreads s' u)) = birth (tpc (kthreads s u))" if "thread_of s v = Some u" for u
      using that \<open>v \<noteq> ?r\<close> D(3) [of u] \<open>kthreads s' = _\<close> by (auto simp: th_ok_def)
  qed (simp_all add: that)
  show ?thesis
  proof (cases "tpc (kthreads s t)")
    case T_result
    then have s': "s' = upd_req ?r (\<lambda>q. q\<lparr>ki_result := Some (Inr t)\<rparr>) (upd_kt t (\<lambda>k. k\<lparr>tpc := T_complete\<rparr>) s)"
      using st by (simp add: kthread_def Let_def)
    have r: "rpc (requests s ?r) = R_wake \<or> rpc (requests s ?r) = R_wait" "?r \<notin> set (create_list s)" "dpc s \<noteq> D_create ?r"
      "\<not> ki_done (requests s ?r)" "being_born s ?r"
      using D(2) [of ?r] of T_result
      by (cases "rpc (requests s ?r)"; simp add: req_ok_def untouched_def answered_def split: if_splits)+
    show ?thesis
    proof (rule birth_invI)
      show "distinct (create_list s')" using D(1) by (simp add: s')
      show "th_ok s' u" for u using T_result by (intro th_ok_frame [OF D(3)]) (simp_all add: s')
      show "req_ok s' v" for v
      proof (cases "v = ?r")
        case True
        then show ?thesis using r of T_result by (auto simp: req_ok_def s' being_born_def)
      next
        case False
        then show ?thesis by (rule other) (simp_all add: s')
      qed
    qed
  next
    case T_complete
    then have s': "s' = upd_req ?r (\<lambda>q. q\<lparr>ki_done := True\<rparr>) (upd_kt t (\<lambda>k. k\<lparr>tpc := T_schedule\<rparr>) s)"
      using st by (simp add: kthread_def Let_def)
    have r: "rpc (requests s ?r) = R_wake \<or> rpc (requests s ?r) = R_wait" "?r \<notin> set (create_list s)" "dpc s \<noteq> D_create ?r"
      "being_born s ?r"
      using D(2) [of ?r] of T_complete
      by (cases "rpc (requests s ?r)"; simp add: req_ok_def untouched_def answered_def split: if_splits)+
    show ?thesis
    proof (rule birth_invI)
      show "distinct (create_list s')" using D(1) by (simp add: s')
      show "th_ok s' u" for u using T_complete by (intro th_ok_frame [OF D(3)]) (simp_all add: s')
      show "req_ok s' v" for v
      proof (cases "v = ?r")
        case True
        then show ?thesis using r of T_complete by (auto simp: req_ok_def s' being_born_def answered_def)
      next
        case False
        then show ?thesis by (rule other) (simp_all add: s')
      qed
    qed
  qed (use st in \<open>(intro birth_same [OF inv]; auto simp: kthread_def Let_def split: if_splits)+\<close>)
qed

lemma birth_reach: "kt_reach s \<Longrightarrow> birth_inv s"
proof (induction rule: kt_reach.induct)
  case start
  show ?case by (simp add: birth_inv_def req_ok_def th_ok_def untouched_def kthreads_init_def)
next
  case (step s e s')
  show ?case
  proof (cases e)
    case (Wake_kthread t)
    then show ?thesis using step.hyps(2)
      by (intro birth_same [OF step.IH]) (auto simp: wake_kthread_def split: if_splits)
  next
    case (Stop_kthread i t)
    then show ?thesis using step.hyps(2)
      by (intro birth_same [OF step.IH]) (auto simp: kthread_stop_def split: if_splits)
  next
    case (Stopper i)
    then show ?thesis using step.hyps(2)
      by (intro birth_same [OF step.IH]) (auto simp: kt_stop_step_def wake_kthread_def split: stopper.splits if_splits)
  next
    case (Change_daemon p c)
    then show ?thesis using step.hyps(2) by (intro birth_same [OF step.IH]) auto
  next
    case (Ask r nd)
    then show ?thesis using step.hyps(2) birth_ask [OF step.IH] by simp
  next
    case (Request r)
    then show ?thesis using step.hyps(2) birth_request [OF step.IH] by simp
  next
    case (Daemon res)
    then show ?thesis using step.hyps(2) birth_daemon [OF step.IH] by simp
  next
    case (Kthread t ret)
    then show ?thesis using step.hyps(2) birth_kthread [OF step.IH] by simp
  qed
qed

section \<open>The life of a thread\<close>

text \<open>What becomes the exit code: what \<open>threadfn\<close> returned, or the error if it was never called.\<close>

definition outcome :: "kthread_task \<Rightarrow> int" where
  "outcome k = (if called k then returned k else - EINTR)"

text \<open>A thread, according to its place; \<open>kn\<close> says whether it has been returned to a caller.\<close>

fun life_ok :: "thread_pc \<Rightarrow> kthread_task \<Rightarrow> bool \<Rightarrow> bool" where
  "life_ok T_absent k kn \<longleftrightarrow> \<not> kn \<and> \<not> woken k \<and> \<not> called k"
| "life_ok T_self k kn \<longleftrightarrow> \<not> kn \<and> \<not> woken k \<and> \<not> called k"
| "life_ok T_state k kn \<longleftrightarrow> \<not> kn \<and> \<not> woken k \<and> \<not> called k \<and> vfork_done k \<and> \<not> exited k"
| "life_ok T_result k kn \<longleftrightarrow> \<not> kn \<and> \<not> woken k \<and> \<not> called k \<and> vfork_done k \<and> \<not> exited k \<and> \<not> trunning k"
| "life_ok T_complete k kn \<longleftrightarrow> \<not> kn \<and> \<not> woken k \<and> \<not> called k \<and> vfork_done k \<and> \<not> exited k \<and> \<not> trunning k"
| "life_ok T_schedule k kn \<longleftrightarrow> (woken k \<longrightarrow> kn) \<and> \<not> called k \<and> vfork_done k \<and> \<not> exited k \<and> (trunning k \<longrightarrow> woken k)"
| "life_ok T_test k kn \<longleftrightarrow> kn \<and> woken k \<and> \<not> called k \<and> vfork_done k \<and> \<not> exited k"
| "life_ok T_func k kn \<longleftrightarrow> kn \<and> woken k \<and> called k \<and> vfork_done k \<and> \<not> exited k"
| "life_ok (T_exit c) k kn \<longleftrightarrow> kn \<and> woken k \<and> c = outcome k \<and> (\<not> called k \<longrightarrow> kt_should_stop k) \<and> vfork_done k \<and> \<not> exited k"
| "life_ok T_dead k kn \<longleftrightarrow> kn \<and> woken k \<and> exit_code k = outcome k \<and> (\<not> called k \<longrightarrow> kt_should_stop k) \<and> \<not> vfork_done k \<and> exited k"

abbreviation alive :: "kthreads \<Rightarrow> tid \<Rightarrow> bool" where
  "alive s t \<equiv> life_ok (tpc (kthreads s t)) (kthreads s t) (t \<in> known s)"

definition stop_ok :: "kthreads \<Rightarrow> stopper \<Rightarrow> bool" where
  "stop_ok s x \<longleftrightarrow> (case x of
     K_idle \<Rightarrow> True | K_test t \<Rightarrow> t \<in> known s | K_set t \<Rightarrow> t \<in> known s
   | K_wake t \<Rightarrow> t \<in> known s \<and> kt_should_stop (kthreads s t) | K_wait t \<Rightarrow> t \<in> known s \<and> kt_should_stop (kthreads s t)
   | K_returned t c \<Rightarrow> t \<in> known s \<and> tpc (kthreads s t) = T_dead \<and> c = outcome (kthreads s t))"

definition life_inv :: "kthreads \<Rightarrow> bool" where
  "life_inv s \<longleftrightarrow> (\<forall>t. alive s t) \<and> (\<forall>i. stop_ok s (stoppers s i))
     \<and> (\<forall>t \<in> known s. rpc (requests s (create (kthreads s t))) = R_returned \<and> birth (tpc (kthreads s t)) = 2)"

lemma life_invD:
  assumes "life_inv s"
  shows "alive s t" "stop_ok s (stoppers s i)"
    "t \<in> known s \<Longrightarrow> rpc (requests s (create (kthreads s t))) = R_returned \<and> birth (tpc (kthreads s t)) = 2"
  using assms by (simp_all add: life_inv_def)

lemma life_invI:
  assumes "\<And>t. alive s t" "\<And>i. stop_ok s (stoppers s i)"
    "\<And>t. t \<in> known s \<Longrightarrow> rpc (requests s (create (kthreads s t))) = R_returned \<and> birth (tpc (kthreads s t)) = 2"
  shows "life_inv s"
  using assms by (simp add: life_inv_def)

lemma stop_ok_frame:
  assumes "stop_ok s x" "known s \<subseteq> known s'"
    "\<And>t. t \<in> known s \<Longrightarrow> kt_should_stop (kthreads s t) \<Longrightarrow> kt_should_stop (kthreads s' t)"
    "\<And>t. t \<in> known s \<Longrightarrow> tpc (kthreads s t) = T_dead \<Longrightarrow> tpc (kthreads s' t) = T_dead \<and> outcome (kthreads s' t) = outcome (kthreads s t)"
  shows "stop_ok s' x"
  using assms by (cases x) (auto simp: stop_ok_def)

text \<open>A step that changes neither the threads nor those who stop them.\<close>

lemma life_same:
  assumes "life_inv s" "kthreads s' = kthreads s" "known s' = known s" "stoppers s' = stoppers s"
    and "\<And>r. rpc (requests s r) = R_returned \<Longrightarrow> rpc (requests s' r) = R_returned"
  shows "life_inv s'"
proof (rule life_invI)
  note D = life_invD [OF assms(1)]
  show "alive s' t" for t using D(1) by (simp add: assms)
  show "stop_ok s' (stoppers s' i)" for i
    unfolding assms(4) by (rule stop_ok_frame [OF D(2)]) (simp_all add: assms)
  show "rpc (requests s' (create (kthreads s' t))) = R_returned \<and> birth (tpc (kthreads s' t)) = 2" if "t \<in> known s'" for t
    using D(3) [of t] that assms(5) by (simp add: assms(2,3))
qed

text \<open>A step of one thread.\<close>

lemma life_thread:
  assumes inv: "life_inv s" and k: "kthreads s' = (kthreads s)(t := k)" and s': "known s' = known s"
    "\<And>r. rpc (requests s r) = R_returned \<Longrightarrow> rpc (requests s' r) = R_returned"
    and ok: "life_ok (tpc k) k (t \<in> known s)"
    and "\<And>i. stop_ok s' (stoppers s' i)"
    and "t \<in> known s \<Longrightarrow> create k = create (kthreads s t) \<and> birth (tpc k) = 2"
  shows "life_inv s'"
proof (rule life_invI)
  note D = life_invD [OF inv]
  show "alive s' u" for u using D(1) [of u] ok by (cases "u = t") (simp_all add: k s'(1))
  show "stop_ok s' (stoppers s' i)" for i by fact
  show "rpc (requests s' (create (kthreads s' u))) = R_returned \<and> birth (tpc (kthreads s' u)) = 2" if "u \<in> known s'" for u
    using D(3) [of u] that s'(2) assms(7) by (cases "u = t") (simp_all add: k s'(1))
qed

lemma life_kthread:
  assumes inv: "life_inv s" and st: "kthread t ret s = Some s'"
  shows "life_inv s'"
proof -
  note D = life_invD [OF inv]
  have fr: "known s' = known s" "stoppers s' = stoppers s" "\<And>r. rpc (requests s' r) = rpc (requests s r)"
    "\<And>u. u \<noteq> t \<Longrightarrow> kthreads s' u = kthreads s u"
    using st by (auto simp: kthread_def Let_def split: thread_pc.splits if_splits)
  then have k: "kthreads s' = (kthreads s)(t := kthreads s' t)" by (auto simp: fun_eq_iff)
  have a: "life_ok (tpc (kthreads s' t)) (kthreads s' t) (t \<in> known s)"
    using D(1) [of t] st by (cases "tpc (kthreads s t)") (auto simp: kthread_def Let_def outcome_def split: if_splits)
  have b: "create (kthreads s' t) = create (kthreads s t)"
    "t \<in> known s \<Longrightarrow> birth (tpc (kthreads s' t)) = 2" "t \<in> known s \<Longrightarrow> kt_should_stop (kthreads s' t) = kt_should_stop (kthreads s t)"
    "tpc (kthreads s t) \<noteq> T_dead"
    using D(1) [of t] st by (cases "tpc (kthreads s t)"; auto simp: kthread_def Let_def split: if_splits)+
  show ?thesis
  proof (rule life_thread [OF inv k fr(1) _ a])
    show "stop_ok s' (stoppers s' i)" for i
      unfolding fr(2)
    proof (rule stop_ok_frame [OF D(2)])
      show "kt_should_stop (kthreads s' u)" if "u \<in> known s" "kt_should_stop (kthreads s u)" for u
        using that b(3) fr(4) [of u] by (cases "u = t") simp_all
      show "tpc (kthreads s' u) = T_dead \<and> outcome (kthreads s' u) = outcome (kthreads s u)"
        if "u \<in> known s" "tpc (kthreads s u) = T_dead" for u
        using that b(4) fr(4) [of u] by (cases "u = t") simp_all
    qed (simp add: fr)
  qed (simp_all add: fr b)
qed

lemma life_daemon:
  assumes inv: "life_inv s" and st: "kthreadd res s = Some s'"
  shows "life_inv s'"
proof (cases "\<exists>r t. dpc s = D_create r \<and> res = Inr t")
  case True
  then obtain r t where rt: "dpc s = D_create r" "res = Inr t" by blast
  note D = life_invD [OF inv]
  have ab: "tpc (kthreads s t) = T_absent"
    using st rt by (simp add: kthreadd_def create_kthread_def Let_def split: if_splits)
  have k: "kthreads s' = (kthreads s)(t := kthreads s' t)" "known s' = known s" "stoppers s' = stoppers s"
    "requests s' = requests s" "tpc (kthreads s' t) = T_self" "woken (kthreads s' t) = woken (kthreads s t)"
    "called (kthreads s' t) = called (kthreads s t)"
  proof -
    have "s' = upd_kt t (\<lambda>k. k\<lparr>tpc := T_self, trunning := True, create := r, kt_policy := d_policy s,
        kt_all_cpus := d_all_cpus s, pref_node := ki_node (requests s r)\<rparr>)
        (s\<lparr>pref_node_fork := ki_node (requests s r)\<rparr>)\<lparr>thread_of := (thread_of s)(r := Some t), dpc := D_loop\<rparr>"
      using st rt ab by (simp add: kthreadd_def create_kthread_def Let_def)
    then show "kthreads s' = (kthreads s)(t := kthreads s' t)" by simp
    from \<open>s' = _\<close> show "known s' = known s" "stoppers s' = stoppers s"
      "requests s' = requests s" "tpc (kthreads s' t) = T_self" "woken (kthreads s' t) = woken (kthreads s t)"
      "called (kthreads s' t) = called (kthreads s t)" by simp_all
  qed
  have n: "t \<notin> known s" "\<not> woken (kthreads s t)" "\<not> called (kthreads s t)" using D(1) [of t] ab by simp_all
  show ?thesis
  proof (rule life_thread [OF inv k(1,2)])
    have same: "kthreads s' u = kthreads s u" if "u \<in> known s" for u
      using that n(1) k(1) fun_upd_other [of u t "kthreads s" "kthreads s' t"] by (cases "u = t") auto
    show "stop_ok s' (stoppers s' i)" for i
      unfolding k(3) by (rule stop_ok_frame [OF D(2)]) (simp_all add: k(2) same)
  qed (simp_all add: k(2-7) n)
next
  case False
  have "kthreads s' = kthreads s \<and> known s' = known s \<and> stoppers s' = stoppers s \<and> (\<forall>r. rpc (requests s' r) = rpc (requests s r))"
  proof (cases "dpc s")
    case (D_create r)
    then obtain e where "res = Inl e" using False by (cases res) auto
    then have "s' = upd_req r (\<lambda>q. q\<lparr>ki_result := Some (Inl (- e)), ki_done := True\<rparr>)
        (s\<lparr>pref_node_fork := ki_node (requests s r)\<rparr>)\<lparr>dpc := D_loop\<rparr>"
      using st D_create by (simp add: kthreadd_def create_kthread_def Let_def)
    then show ?thesis by simp
  next
    case D_loop
    then show ?thesis using st by (cases "create_list s") (auto simp: kthreadd_def)
  qed (use st in \<open>auto simp: kthreadd_def split: if_splits\<close>)
  then show ?thesis by (intro life_same [OF inv]) simp_all
qed

lemma life_known:
  assumes inv: "life_inv s" and bt: "birth (tpc (kthreads s t)) = 2" and cr: "create (kthreads s t) = r"
  shows "life_inv (upd_req r (\<lambda>q. q\<lparr>rpc := R_returned\<rparr>)
      ((upd_kt t (\<lambda>k. k\<lparr>kt_policy := SCHED_NORMAL, kt_all_cpus := True\<rparr>) s)\<lparr>known := insert t (known s)\<rparr>))"
    (is "life_inv ?s")
proof (rule life_invI)
  note D = life_invD [OF inv]
  have f: "tpc (kthreads ?s u) = tpc (kthreads s u)" "create (kthreads ?s u) = create (kthreads s u)"
    "kt_should_stop (kthreads ?s u) = kt_should_stop (kthreads s u)" "outcome (kthreads ?s u) = outcome (kthreads s u)" for u
    by (simp_all add: outcome_def)
  show "alive ?s u" for u
  proof (cases "u = t")
    case True
    let ?k = "(kthreads s t)\<lparr>kt_policy := SCHED_NORMAL, kt_all_cpus := True\<rparr>"
    have "life_ok (tpc (kthreads s t)) ?k True"
      using D(1) [of t] bt by (cases "tpc (kthreads s t)") (simp_all add: outcome_def)
    then show ?thesis using True by simp
  next
    case False
    then show ?thesis using D(1) [of u] by simp
  qed
  have st: "stoppers ?s = stoppers s" by simp
  show "stop_ok ?s (stoppers ?s i)" for i
    unfolding st by (rule stop_ok_frame [OF D(2)]) (auto simp: outcome_def)
  show "rpc (requests ?s (create (kthreads ?s u))) = R_returned \<and> birth (tpc (kthreads ?s u)) = 2" if "u \<in> known ?s" for u
  proof (cases "u = t")
    case True
    then show ?thesis using cr bt by simp
  next
    case False
    then show ?thesis using that D(3) [of u] by simp
  qed
qed

lemma life_request:
  assumes inv: "life_inv s" and st: "request_step r s = Some s'" and b: "birth_inv s"
  shows "life_inv s'"
proof (cases "\<exists>t. rpc (requests s r) = R_setup \<and> ki_result (requests s r) = Some (Inr t)")
  case True
  then obtain t where t: "rpc (requests s r) = R_setup" "ki_result (requests s r) = Some (Inr t)" by blast
  have "answered s r" using birth_invD(2) [OF b, of r] t by (simp add: req_ok_def)
  then have t': "thread_of s r = Some t" "birth (tpc (kthreads s t)) = 2"
    using t(2) by (auto simp: answered_def split: option.splits)
  then have "create (kthreads s t) = r" using birth_invD(3) [OF b, of t] by (simp add: th_ok_def)
  from life_known [OF inv t'(2) this] show ?thesis using st t by (simp add: request_step_def)
next
  case False
  have "kthreads s' = kthreads s \<and> known s' = known s \<and> stoppers s' = stoppers s
      \<and> (\<forall>v. rpc (requests s v) = R_returned \<longrightarrow> rpc (requests s' v) = R_returned)"
  proof (cases "rpc (requests s r)")
    case R_setup
    then have "s' = upd_req r (\<lambda>q. q\<lparr>rpc := R_returned\<rparr>) s"
      using st False by (auto simp: request_step_def split: option.splits sum.splits)
    then show ?thesis by simp
  qed (use st in \<open>auto simp: request_step_def wake_daemon_def split: if_splits\<close>)
  then show ?thesis by (intro life_same [OF inv]) simp_all
qed

lemma life_wake:
  assumes inv: "life_inv s" and t: "t \<in> known s"
  shows "life_inv (wake_kthread t s)"
proof (rule life_thread [OF inv])
  note D = life_invD [OF inv]
  show "kthreads (wake_kthread t s) = (kthreads s)(t := (kthreads s t)\<lparr>trunning := True, woken := True\<rparr>)"
    by (simp add: wake_kthread_def)
  show "life_ok (tpc ((kthreads s t)\<lparr>trunning := True, woken := True\<rparr>)) ((kthreads s t)\<lparr>trunning := True, woken := True\<rparr>) (t \<in> known s)"
    using D(1) [of t] D(3) [OF t] t by (cases "tpc (kthreads s t)") (auto simp: outcome_def)
  show "stop_ok (wake_kthread t s) (stoppers (wake_kthread t s) i)" for i
  proof -
    have "stoppers (wake_kthread t s) = stoppers s" by (simp add: wake_kthread_def)
    moreover have "stop_ok (wake_kthread t s) (stoppers s i)"
      by (rule stop_ok_frame [OF D(2)]) (auto simp: wake_kthread_def outcome_def)
    ultimately show ?thesis by simp
  qed
qed (use life_invD(3) [OF inv t] in \<open>simp_all add: wake_kthread_def\<close>)

lemma life_stoppers:
  assumes "life_inv s" "stop_ok s x"
  shows "life_inv (go_stopper i x s)"
proof (rule life_invI)
  note D = life_invD [OF assms(1)]
  show "alive (go_stopper i x s) t" for t using D(1) [of t] by simp
  show "stop_ok (go_stopper i x s) (stoppers (go_stopper i x s) j)" for j
    using assms(2) D(2) [of j] stop_ok_frame [of s _ "go_stopper i x s"] by (cases "j = i") simp_all
qed (use life_invD(3) [OF assms(1)] in simp)

lemma life_set_stop:
  assumes inv: "life_inv s" and t: "t \<in> known s"
  shows "life_inv (upd_kt t (\<lambda>k. k\<lparr>kt_should_stop := True\<rparr>) s)" (is "life_inv ?s")
proof (rule life_thread [OF inv])
  note D = life_invD [OF inv]
  show "kthreads ?s = (kthreads s)(t := (kthreads s t)\<lparr>kt_should_stop := True\<rparr>)" by simp
  show "life_ok (tpc ((kthreads s t)\<lparr>kt_should_stop := True\<rparr>)) ((kthreads s t)\<lparr>kt_should_stop := True\<rparr>) (t \<in> known s)"
    using D(1) [of t] D(3) [OF t] t by (cases "tpc (kthreads s t)") (auto simp: outcome_def)
  show "stop_ok ?s (stoppers ?s i)" for i
  proof -
    have "stop_ok ?s (stoppers s i)" by (rule stop_ok_frame [OF D(2)]) (auto simp: outcome_def)
    then show ?thesis by simp
  qed
qed (use life_invD(3) [OF inv t] in simp_all)

lemma life_stop:
  assumes inv: "life_inv s" and st: "kt_stop_step i s = Some s'"
  shows "life_inv s'"
proof (cases "stoppers s i")
  case (K_test t)
  note D = life_invD [OF inv]
  have t: "t \<in> known s" using D(2) [of i] K_test by (simp add: stop_ok_def)
  have x: "stop_ok s (if vfork_done (kthreads s t) then K_set t else K_returned t (exit_code (kthreads s t)))"
    using t D(3) [OF t] D(1) [of t] by (cases "tpc (kthreads s t)") (auto simp: stop_ok_def)
  from life_stoppers [OF inv this, of i] show ?thesis using st K_test by (simp add: kt_stop_step_def split: if_splits)
next
  case (K_set t)
  let ?s = "upd_kt t (\<lambda>k. k\<lparr>kt_should_stop := True\<rparr>) s"
  have t: "t \<in> known s" using life_invD(2) [OF inv, of i] K_set by (simp add: stop_ok_def)
  then have "stop_ok ?s (K_wake t)" by (simp add: stop_ok_def)
  from life_stoppers [OF life_set_stop [OF inv t] this, of i] show ?thesis using st K_set by (simp add: kt_stop_step_def)
next
  case (K_wake t)
  have t: "t \<in> known s" "kt_should_stop (kthreads s t)" using life_invD(2) [OF inv, of i] K_wake by (simp_all add: stop_ok_def)
  then have "stop_ok (wake_kthread t s) (K_wait t)" by (simp add: stop_ok_def wake_kthread_def)
  from life_stoppers [OF life_wake [OF inv t(1)] this, of i] show ?thesis using st K_wake by (simp add: kt_stop_step_def)
next
  case (K_wait t)
  note D = life_invD [OF inv]
  have t: "t \<in> known s" using D(2) [of i] K_wait by (simp add: stop_ok_def)
  have ex: "exited (kthreads s t)" and s': "s' = go_stopper i (K_returned t (exit_code (kthreads s t))) s"
    using st K_wait by (simp_all add: kt_stop_step_def split: if_splits)
  then have "stop_ok s (K_returned t (exit_code (kthreads s t)))"
    using t D(3) [OF t] D(1) [of t] by (cases "tpc (kthreads s t)") (auto simp: stop_ok_def)
  from life_stoppers [OF inv this, of i] show ?thesis by (simp add: s')
qed (use st in \<open>simp_all add: kt_stop_step_def\<close>)

lemma life_reach: "kt_reach s \<Longrightarrow> life_inv s"
proof (induction rule: kt_reach.induct)
  case start
  show ?case by (simp add: life_inv_def stop_ok_def kthreads_init_def)
next
  case (step s e s')
  show ?case
  proof (cases e)
    case (Ask r nd)
    then show ?thesis using step.hyps(2)
      by (intro life_same [OF step.IH]) (auto simp: kthread_create_on_node_def split: if_splits)
  next
    case (Request r)
    then show ?thesis using step.hyps(2) life_request [OF step.IH _ birth_reach [OF step.hyps(1)]] by simp
  next
    case (Daemon res)
    then show ?thesis using step.hyps(2) life_daemon [OF step.IH] by simp
  next
    case (Kthread t ret)
    then show ?thesis using step.hyps(2) life_kthread [OF step.IH] by simp
  next
    case (Wake_kthread t)
    then have "t \<in> known s" "s' = wake_kthread t s" using step.hyps(2) by (simp_all split: if_splits)
    then show ?thesis using life_wake [OF step.IH] by simp
  next
    case (Stop_kthread i t)
    then have t: "t \<in> known s" "s' = go_stopper i (K_test t) s" using step.hyps(2) by (simp_all add: kthread_stop_def split: if_splits)
    then have "stop_ok s (K_test t)" by (simp add: stop_ok_def)
    from life_stoppers [OF step.IH this] t(2) show ?thesis by simp
  next
    case (Stopper i)
    then show ?thesis using step.hyps(2) life_stop [OF step.IH] by simp
  next
    case (Change_daemon p c)
    then show ?thesis using step.hyps(2) by (intro life_same [OF step.IH]) auto
  qed
qed

section \<open>The daemon does not oversleep\<close>

definition daemon_inv :: "kthreads \<Rightarrow> bool" where
  "daemon_inv s \<longleftrightarrow> (dpc s = D_schedule \<and> \<not> drunning s \<longrightarrow> (\<forall>r \<in> set (create_list s). rpc (requests s r) = R_wake))"

lemma daemon_same:
  assumes "daemon_inv s" "dpc s' = dpc s" "drunning s' = drunning s" "create_list s' = create_list s"
    "\<And>r. rpc (requests s r) = R_wake \<Longrightarrow> rpc (requests s' r) = R_wake"
  shows "daemon_inv s'"
  using assms by (simp add: daemon_inv_def)

lemma daemon_reach: "kt_reach s \<Longrightarrow> daemon_inv s"
proof (induction rule: kt_reach.induct)
  case start
  show ?case by (simp add: daemon_inv_def kthreads_init_def)
next
  case (step s e s')
  note inv = step.IH
  show ?case
  proof (cases e)
    case (Ask r nd)
    then have "s' = upd_req r (\<lambda>q. q\<lparr>rpc := R_wake, ki_node := nd, ki_done := False\<rparr>) s\<lparr>create_list := create_list s @ [r]\<rparr>"
      using step.hyps(2) by (simp add: kthread_create_on_node_def split: if_splits)
    then show ?thesis using inv by (simp add: daemon_inv_def)
  next
    case (Request r)
    show ?thesis
    proof (cases "rpc (requests s r)")
      case R_wake
      then have "drunning s'" using step.hyps(2) Request by (auto simp: request_step_def wake_daemon_def)
      then show ?thesis by (simp add: daemon_inv_def)
    next
      case R_setup
      then show ?thesis using step.hyps(2) Request
        by (intro daemon_same [OF inv]) (auto simp: request_step_def split: option.splits sum.splits if_splits)
    qed (use step.hyps(2) Request in \<open>(intro daemon_same [OF inv]; auto simp: request_step_def split: if_splits)+\<close>)
  next
    case (Daemon res)
    then show ?thesis using step.hyps(2)
      by (cases "dpc s"; cases "create_list s")
        (auto simp: daemon_inv_def kthreadd_def split: if_splits)
  next
    case (Kthread t ret)
    then show ?thesis using step.hyps(2) 
      by (intro daemon_same [OF inv]; cases "tpc (kthreads s t)") (auto simp: kthread_def Let_def split: if_splits)
  next
    case (Wake_kthread t)
    then show ?thesis using step.hyps(2)
      by (intro daemon_same [OF inv]) (auto simp: wake_kthread_def split: if_splits)
  next
    case (Stop_kthread i t)
    then show ?thesis using step.hyps(2)
      by (intro daemon_same [OF inv]) (auto simp: kthread_stop_def split: if_splits)
  next
    case (Stopper i)
    then show ?thesis using step.hyps(2)
      by (intro daemon_same [OF inv]; cases "stoppers s i") (auto simp: kt_stop_step_def wake_kthread_def split: if_splits)
  next
    case (Change_daemon p c)
    then show ?thesis using step.hyps(2) by (intro daemon_same [OF inv]) auto
  qed
qed

end
