(* ===== verification/Kthread_Create_Props.thy ===== *)
theory Kthread_Create_Props
  imports Kthread_Life
begin

text \<open>
  What the creation and the stopping of kernel threads promise, in every reachable state.
\<close>

section \<open>Runs\<close>

text \<open>The state after a run.\<close>

definition kt_after :: "kt_event list \<Rightarrow> kthreads" where
  "kt_after es = (case kt_run es kthreads_init of Some s \<Rightarrow> s | None \<Rightarrow> kthreads_init)"

lemma kt_after_reach: "kt_reach (kt_after es)"
  by (auto simp: kt_after_def kt_reach.start split: option.splits intro: kt_run_reach)

text \<open>A thread is created while root changes the policy of the daemon, up to the last step of the call; then it is stopped.\<close>

definition run_create :: "kt_event list" where
  "run_create = [Change_daemon SCHED_FIFO False, Ask 1 0, Request 1] @ replicate 6 (Daemon (Inr 5)) @ replicate 4 (Kthread 5 0) @ [Request 1]"

definition run_stop_event :: "kt_event list" where
  "run_stop_event = [Request 1, Stop_kthread 3 5, Stopper 3, Stopper 3]"

definition run_stop_end :: "kt_event list" where
  "run_stop_end = [Wake_kthread 5, Stopper 3, Kthread 5 7, Kthread 5 7, Kthread 5 7, Stopper 3]"

lemma run_create_end:
  "rpc (requests (kt_after run_create) 1) = R_setup" "ki_result (requests (kt_after run_create) 1) = Some (Inr 5)"
  "request_step 1 (kt_after run_create) \<noteq> None"
  by code_simp+

lemma run_stop_states:
  "5 \<in> known (kt_after (run_create @ run_stop_event))" "kt_should_stop (kthreads (kt_after (run_create @ run_stop_event)) 5)"
  "\<not> called (kthreads (kt_after (run_create @ run_stop_event)) 5)"
  "case kt_run run_stop_end (kt_after (run_create @ run_stop_event)) of None \<Rightarrow> False | Some s' \<Rightarrow> stoppers s' 3 = K_returned 5 (- EINTR)"
  by code_simp+

definition run_ask :: "kt_event list" where
  "run_ask = [Ask 1 0, Request 1]"

lemma run_ask_end: "rpc (requests (kt_after run_ask) 1) = R_wait" "request_step 1 (kt_after run_ask) = None"
  by code_simp+

section \<open>The properties\<close>



text \<open>
  No request is left lying. In every reachable state, a call of \<open>kthread_create_on_node\<close> that
  cannot go on is one that waits for its answer, and it is on its way: the thread created for it can
  take a step that leads to its completion; or the daemon, which has the call on its list or in its hands,
  is not asleep, or is about to be woken by a call that has just put itself on the list.
\<close>

theorem kthread_create_progress:
  assumes "kt_reach s" "rpc (requests s r) \<noteq> R_idle" "rpc (requests s r) \<noteq> R_returned" "request_step r s = None"
  shows "rpc (requests s r) = R_wait
    \<and> ((\<exists>t. thread_of s r = Some t \<and> birth (tpc (kthreads s t)) < 2 \<and> kthread t ret s \<noteq> None)
     \<or> (r \<in> set (create_list s) \<or> dpc s = D_create r)
        \<and> (kthreadd (Inl e) s \<noteq> None \<or> (\<exists>v \<in> set (create_list s). rpc (requests s v) = R_wake \<and> request_step v s \<noteq> None)))"
proof -
  have w: "rpc (requests s r) = R_wait" "\<not> ki_done (requests s r)"
    using assms(2-4) by (cases "rpc (requests s r)"; simp add: request_step_def split: if_splits)+
  show ?thesis
  proof (cases "r \<in> set (create_list s) \<or> dpc s = D_create r")
    case True
    have "kthreadd (Inl e) s \<noteq> None \<or> (\<exists>v \<in> set (create_list s). rpc (requests s v) = R_wake \<and> request_step v s \<noteq> None)"
    proof (cases "dpc s = D_schedule \<and> \<not> drunning s")
      case True
      then have "r \<in> set (create_list s)" using \<open>r \<in> set (create_list s) \<or> dpc s = D_create r\<close> by auto
      moreover from this have "rpc (requests s r) = R_wake"
        using daemon_reach [OF assms(1)] True by (simp add: daemon_inv_def)
      ultimately show ?thesis using w(1) by simp
    next
      case False
      then show ?thesis by (cases "dpc s") (auto simp: kthreadd_def create_kthread_def Let_def)
    qed
    with True w(1) show ?thesis by blast
  next
    case False
    then have "being_born s r" using birth_invD(2) [OF birth_reach [OF assms(1)], of r] w by (simp add: req_ok_def)
    then obtain t where t: "thread_of s r = Some t" "birth (tpc (kthreads s t)) < 2"
      by (auto simp: being_born_def split: option.splits)
    moreover have "tpc (kthreads s t) \<noteq> T_absent"
      using birth_invD(3) [OF birth_reach [OF assms(1)], of t] t(1) by (simp add: th_ok_def)
    ultimately have "kthread t ret s \<noteq> None" by (cases "tpc (kthreads s t)") (simp_all add: kthread_def Let_def)
    with t w(1) show ?thesis by blast
  qed
qed

lemma kthread_create_progress_witness: "rpc (requests (kt_after run_ask) 1) = R_wait"
proof -
  have "rpc (requests (kt_after run_ask) 1) \<noteq> R_idle" "rpc (requests (kt_after run_ask) 1) \<noteq> R_returned"
    unfolding run_ask_end(1) by simp_all
  from kthread_create_progress [OF kt_after_reach this run_ask_end(2)] show ?thesis by blast
qed

text \<open>A thread that is to stop and has not called \<open>threadfn\<close> never calls it.\<close>

definition stopped_early :: "tid \<Rightarrow> kthreads \<Rightarrow> bool" where
  "stopped_early t s \<longleftrightarrow> t \<in> known s \<and> kt_should_stop (kthreads s t) \<and> \<not> called (kthreads s t)"

lemma stopped_early_same:
  assumes "stopped_early t s" "known s \<subseteq> known s'" "kt_should_stop (kthreads s t) \<Longrightarrow> kt_should_stop (kthreads s' t)"
    "called (kthreads s' t) = called (kthreads s t)"
  shows "stopped_early t s'"
  using assms by (auto simp: stopped_early_def)

lemma stopped_early_step:
  assumes "stopped_early t s" "kt_step e s = Some s'" "kt_reach s"
  shows "stopped_early t s'"
proof (cases e)
  case (Ask r nd)
  then show ?thesis using assms(2)
    by (intro stopped_early_same [OF assms(1)]) (auto simp: kthread_create_on_node_def split: if_splits)
next
  case (Request r)
  then show ?thesis using assms(2)
    by (intro stopped_early_same [OF assms(1)]; cases "rpc (requests s r)")
      (auto simp: request_step_def wake_daemon_def split: option.splits sum.splits if_splits)
next
  case (Daemon res)
  have "tpc (kthreads s t) \<noteq> T_absent"
    using assms(1) life_invD(3) [OF life_reach [OF assms(3)], of t] by (auto simp: stopped_early_def)
  then have "known s' = known s \<and> kthreads s' t = kthreads s t"
    using assms(2) Daemon
    by (cases "dpc s"; cases res; cases "create_list s") (auto simp: kthreadd_def create_kthread_def Let_def split: if_splits)
  then show ?thesis using assms(1) by (simp add: stopped_early_def)
next
  case (Kthread u ret)
  have "birth (tpc (kthreads s t)) = 2" "kt_should_stop (kthreads s t)"
    using assms(1) life_invD(3) [OF life_reach [OF assms(3)], of t] by (auto simp: stopped_early_def)
  then show ?thesis using assms(2) Kthread
    by (intro stopped_early_same [OF assms(1)]; cases "tpc (kthreads s u)"; cases "u = t")
      (auto simp: kthread_def Let_def split: if_splits)
next
  case (Wake_kthread u)
  then show ?thesis using assms(2)
    by (intro stopped_early_same [OF assms(1)]) (auto simp: wake_kthread_def split: if_splits)
next
  case (Stop_kthread i u)
  then show ?thesis using assms(2)
    by (intro stopped_early_same [OF assms(1)]) (auto simp: kthread_stop_def split: if_splits)
next
  case (Stopper i)
  then show ?thesis using assms(2)
    by (intro stopped_early_same [OF assms(1)]; cases "stoppers s i") (auto simp: kt_stop_step_def wake_kthread_def split: if_splits)
next
  case (Change_daemon p c)
  then show ?thesis using assms(2) by (intro stopped_early_same [OF assms(1)]) auto
qed

lemma stopped_early_run: "kt_run es s = Some s' \<Longrightarrow> stopped_early t s \<Longrightarrow> kt_reach s \<Longrightarrow> stopped_early t s'"
  by (induction es arbitrary: s) (auto split: option.splits intro: stopped_early_step kt_reach.step)

text \<open>
  C17. \<open>kthread_stop\<close> returns what became of the thread. When it returns for a thread, the thread has
  ended, and the result is what \<open>threadfn\<close> returned, or -EINTR if \<open>threadfn\<close> was never called. And
  if \<open>should_stop\<close> was set before the thread had come to call \<open>threadfn\<close>, whether or not it had been
  woken, then, whatever all others do, \<open>threadfn\<close> is not called and the result is -EINTR.
\<close>

theorem kthread_stop_result:
  assumes "kt_reach s" "t \<in> known s" "kt_run es s = Some s'" "stoppers s' i = K_returned t c"
  shows "tpc (kthreads s' t) = T_dead
    \<and> c = (if called (kthreads s' t) then returned (kthreads s' t) else - EINTR)
    \<and> (kt_should_stop (kthreads s t) \<and> \<not> called (kthreads s t) \<longrightarrow> \<not> called (kthreads s' t) \<and> c = - EINTR)"
proof -
  have "kt_reach s'" by (rule kt_run_reach [OF assms(3,1)])
  then have "stop_ok s' (K_returned t c)" using life_invD(2) [OF life_reach, of s' i] assms(4) by simp
  then have r: "tpc (kthreads s' t) = T_dead" "c = outcome (kthreads s' t)" by (simp_all add: stop_ok_def)
  have "\<not> called (kthreads s' t)" if "kt_should_stop (kthreads s t)" "\<not> called (kthreads s t)"
    using stopped_early_run [OF assms(3), of t] that assms(1,2) by (simp add: stopped_early_def)
  with r show ?thesis by (simp add: outcome_def)
qed

lemma kthread_stop_result_witness:
  "\<exists>s'. kt_run run_stop_end (kt_after (run_create @ run_stop_event)) = Some s' \<and> stoppers s' 3 = K_returned 5 (- EINTR)
     \<and> \<not> called (kthreads s' 5)"
proof -
  obtain s' where s': "kt_run run_stop_end (kt_after (run_create @ run_stop_event)) = Some s'" "stoppers s' 3 = K_returned 5 (- EINTR)"
    using run_stop_states(4) by (auto split: option.splits)
  from kthread_stop_result [OF kt_after_reach run_stop_states(1) s'] run_stop_states(2,3) s' show ?thesis by blast
qed

end
