(* ===== verification/Tablet_Sched.thy ===== *)
theory Tablet_Sched
  imports Sched_Hotplug Sched_Remote
begin

text \<open>
  The scheduler of the tablet kernel (tergra/kernel/sched.c, sched_wrr.c), where it differs from the
  goldfish kernel: activating and deactivating tasks, migration, affinity, fork, and the binding of
  kernel threads (kthread.c).

  The WRR class is the same code, up to the output and to how the group of a task is found. The
  other classes are arguments here (\<open>class_ext\<close>), also the RT class, whose older version is not
  translated.
\<close>

section \<open>Activating tasks\<close>

text \<open>
  In this kernel \<open>activate_task\<close> counts the task in \<open>nr_running\<close>, and the other classes do not. The
  WRR class counts, as it does in the other kernel.
\<close>

definition tablet_enqueue_task :: "'x env \<Rightarrow> cpu \<Rightarrow> tid \<Rightarrow> u32 \<Rightarrow> 'x kernel \<Rightarrow> 'x kernel" where
  "tablet_enqueue_task env c p fl k =
     (let k = update_rq_clock c k in
      case class_of (tasks k p) of
        wrr_sched_class \<Rightarrow> enqueue_task_wrr env c p fl k
      | cls \<Rightarrow> op_enqueue_task (class_ext env cls) c p fl k)"

definition tablet_dequeue_task :: "'x env \<Rightarrow> cpu \<Rightarrow> tid \<Rightarrow> u32 \<Rightarrow> 'x kernel \<Rightarrow> 'x kernel" where
  "tablet_dequeue_task env c p fl k =
     (let k = update_rq_clock c k in
      case class_of (tasks k p) of
        wrr_sched_class \<Rightarrow> dequeue_task_wrr env c p fl k
      | cls \<Rightarrow> op_dequeue_task (class_ext env cls) c p fl k)"

definition tablet_activate_task :: "'x env \<Rightarrow> cpu \<Rightarrow> tid \<Rightarrow> u32 \<Rightarrow> 'x kernel \<Rightarrow> 'x kernel" where
  "tablet_activate_task env c p fl k =
     (let k = (if task_contributes_to_load k p
               then upd_rq c (\<lambda>r. r\<lparr>nr_uninterruptible := nr_uninterruptible r - 1\<rparr>) k else k);
          k = tablet_enqueue_task env c p fl k
      in inc_nr_running c k)"

definition tablet_deactivate_task :: "'x env \<Rightarrow> cpu \<Rightarrow> tid \<Rightarrow> u32 \<Rightarrow> 'x kernel \<Rightarrow> 'x kernel" where
  "tablet_deactivate_task env c p fl k =
     (let k = (if task_contributes_to_load k p
               then upd_rq c (\<lambda>r. r\<lparr>nr_uninterruptible := nr_uninterruptible r + 1\<rparr>) k else k);
          k = tablet_dequeue_task env c p fl k
      in dec_nr_running c k)"

section \<open>Affinity\<close>

definition tablet_migrate_task :: "'x env \<Rightarrow> tid \<Rightarrow> cpu \<Rightarrow> cpu \<Rightarrow> 'x kernel \<Rightarrow> bool \<times> 'x kernel" where
  "tablet_migrate_task env p src dest k =
     (if \<not> cpu_active_mask k dest then (False, k)
      else if task_cpu (tasks k p) \<noteq> src then (True, k)
      else if \<not> cpus_allowed (tasks k p) dest then (False, k)
      else if on_rq (tasks k p) then
        let k = tablet_deactivate_task env src p 0 k;
            k = set_task_cpu env p dest k;
            k = tablet_activate_task env dest p 0 k
        in (True, check_preempt_curr env dest p 0 k)
      else (True, k))"

text \<open>
  \<open>do_set_cpus_allowed\<close> leaves the work to the class, if it has an operation for it. \<open>hook\<close> says which
  of the other classes do. The WRR class has one, and it is empty.
\<close>

type_synonym 'x affinity_hook = "sched_class \<Rightarrow> (tid \<Rightarrow> cpumask \<Rightarrow> 'x kernel \<Rightarrow> 'x kernel) option"

definition tablet_class_hook :: "'x affinity_hook \<Rightarrow> 'x affinity_hook" where
  "tablet_class_hook hook cls = (case cls of wrr_sched_class \<Rightarrow> Some set_cpus_allowed_wrr | _ \<Rightarrow> hook cls)"

definition tablet_do_set_cpus_allowed :: "'x env \<Rightarrow> 'x affinity_hook \<Rightarrow> tid \<Rightarrow> cpumask \<Rightarrow> 'x kernel \<Rightarrow> 'x kernel" where
  "tablet_do_set_cpus_allowed env hook p new_mask k =
     (case tablet_class_hook hook (class_of (tasks k p)) of
        Some f \<Rightarrow> f p new_mask k
      | None \<Rightarrow>
          let k = upd_task p (\<lambda>t. t\<lparr>cpus_allowed := new_mask\<rparr>) k;
              k = upd_rt_se (Task_se p) (\<lambda>e. e\<lparr>rt_nr_cpus_allowed := cpumask_weight env new_mask\<rparr>) k
          in upd_wrr p (\<lambda>e. e\<lparr>wrr_nr_cpus_allowed := cpumask_weight env new_mask\<rparr>) k)"

definition tablet_set_cpus_allowed_ptr ::
  "'x env \<Rightarrow> 'x affinity_hook \<Rightarrow> tid \<Rightarrow> cpumask \<Rightarrow> 'x kernel \<Rightarrow> int \<times> 'x kernel" where
  "tablet_set_cpus_allowed_ptr env hook p new_mask k =
     (let c = task_cpu (tasks k p) in
      if list_all (\<lambda>i. cpus_allowed (tasks k p) i = new_mask i) [0..<nr_cpu_ids env] then (0, k)
      else if \<not> list_ex (\<lambda>i. new_mask i \<and> cpu_active_mask k i) [0..<nr_cpu_ids env]
      then (- EINVAL, k)
      else if flags (tasks k p) AND PF_THREAD_BOUND \<noteq> 0 \<and> p \<noteq> current k then (- EINVAL, k)
      else
        let k = tablet_do_set_cpus_allowed env hook p new_mask k in
        if new_mask (task_cpu (tasks k p)) then (0, k)
        else
          let dest = hd (for_each_cpu env (\<lambda>i. cpu_active_mask k i \<and> new_mask i)) in
          if on_rq (tasks k p) then (0, snd (tablet_migrate_task env p c dest k)) else (0, k))"

text \<open>
  \<open>kthread_bind\<close>. \<open>v\<close> is how the state develops while \<open>wait_task_inactive\<close> waits, \<open>k\<close> the state when
  it returns; the result says whether the warning was given. \<open>None\<close>: it does not return.
\<close>

definition kthread_bind ::
  "'x env \<Rightarrow> 'x affinity_hook \<Rightarrow> tid \<Rightarrow> cpu \<Rightarrow> (nat \<Rightarrow> 'x kernel) \<Rightarrow> 'x kernel \<Rightarrow> (bool \<times> 'x kernel) option" where
  "kthread_bind env hook p c v k =
     (case wait_task_inactive env p TASK_UNINTERRUPTIBLE v 0 of
        None \<Rightarrow> None
      | Some r \<Rightarrow>
          if r = 0 then Some (True, k)
          else
            let k = tablet_do_set_cpus_allowed env hook p (\<lambda>i. i = c) k
            in Some (False, upd_task p (\<lambda>t. t\<lparr>flags := flags t OR PF_THREAD_BOUND\<rparr>) k))"

section \<open>Fork\<close>

text \<open>
  \<open>sched_fork\<close>. The priority of the parent is taken after the reset that SCHED_RESET_ON_FORK asks
  for, and the class is set twice.
\<close>

definition tablet_fork_reset :: "tid \<Rightarrow> 'x kernel \<Rightarrow> 'x kernel" where
  "tablet_fork_reset p k =
     (let k = (if policy (tasks k p) = SCHED_FIFO \<or> policy (tasks k p) = SCHED_RR
               then upd_task p (\<lambda>t. t\<lparr>policy := SCHED_NORMAL, normal_prio := static_prio t\<rparr>) k else k);
          k = (if PRIO_TO_NICE (static_prio (tasks k p)) < 0
               then set_load_weight p (upd_task p (\<lambda>t. t\<lparr>static_prio := NICE_TO_PRIO 0, normal_prio := NICE_TO_PRIO 0\<rparr>) k)
               else k)
      in upd_task p (\<lambda>t. t\<lparr>sched_reset_on_fork := False\<rparr>) k)"

definition tablet_sched_fork :: "'x env \<Rightarrow> tid \<Rightarrow> 'x kernel \<Rightarrow> 'x kernel" where
  "tablet_sched_fork env p k =
     (let c = this_cpu k;
          k = sched_fork_init p k;
          k = upd_task p (\<lambda>t. t\<lparr>state := TASK_RUNNING\<rparr>) k;
          k = (if sched_reset_on_fork (tasks k p) then tablet_fork_reset p k else k);
          k = upd_task p (\<lambda>t. t\<lparr>prio := normal_prio (tasks k (current k))\<rparr>) k;
          k = (if policy (tasks k p) = SCHED_WRR
               then upd_task p (\<lambda>t. t\<lparr>class_of := wrr_sched_class\<rparr>) k else k);
          k = (if \<not> rt_prio (prio (tasks k p))
               then upd_task p (\<lambda>t. t\<lparr>class_of := fair_sched_class\<rparr>) k else k);
          k = class_task_fork env p k;
          k = set_task_cpu env p c k;
          k = (if config_smp env then upd_task p (\<lambda>t. t\<lparr>on_cpu := False\<rparr>) k else k)
      in upd_task p (\<lambda>t. t\<lparr>preempt_count := 1\<rparr>) k)"

end
