(* ===== verification/Tablet_Props.thy ===== *)
theory Tablet_Props
  imports Tablet_Sched Rq_Props Policy_Props
begin

text \<open>
  The differences of the tablet kernel, and what they lead to: WRR tasks are counted twice, their
  affinity cannot be changed, and SCHED_RESET_ON_FORK does not take a child out of the RT class.
\<close>

section \<open>Counting tasks\<close>

text \<open>
  The other classes put the task on their queues, and do not count it: their code has no call of
  \<open>inc_nr_running\<close>.
\<close>

definition ops_silent :: "sched_class \<Rightarrow> 'x class_ops \<Rightarrow> bool" where
  "ops_silent cls f \<longleftrightarrow>
     (\<forall>c p fl k. queues_wf k \<and> class_of (tasks k p) = cls
        \<longrightarrow> queues_wf (op_enqueue_task f c p fl k)
          \<and> qview (op_enqueue_task f c p fl k) = (q_enq c p (qview k))\<lparr>v_nr := v_nr (qview k)\<rparr>
          \<and> queues_wf (op_dequeue_task f c p fl k)
          \<and> qview (op_dequeue_task f c p fl k) = (q_deq c p (qview k))\<lparr>v_nr := v_nr (qview k)\<rparr>)"

definition env_silent :: "'x env \<Rightarrow> bool" where
  "env_silent env \<longleftrightarrow> (\<forall>cls. cls \<noteq> wrr_sched_class \<longrightarrow> ops_silent cls (class_ext env cls))"

text \<open>How often a task of a class is counted, and what activating a task does to the view.\<close>

definition weight_in_nr :: "sched_class \<Rightarrow> nat" where
  "weight_in_nr cls = (if cls = wrr_sched_class then 2 else 1)"

definition q_act :: "cpu \<Rightarrow> tid \<Rightarrow> qview \<Rightarrow> qview" where
  "q_act c p v = (q_enq c p v)\<lparr>v_nr := (v_nr v)(c := v_nr v c + of_nat (weight_in_nr (v_class v p)))\<rparr>"

definition q_deact :: "cpu \<Rightarrow> tid \<Rightarrow> qview \<Rightarrow> qview" where
  "q_deact c p v = (q_deq c p v)\<lparr>v_nr := (v_nr v)(c := v_nr v c - of_nat (weight_in_nr (v_class v p)))\<rparr>"

lemma inq_tablet_enqueue:
  assumes env: "env_silent env" and a: "inq W a"
    and W': "\<And>v. W v \<Longrightarrow> (v_class v p = wrr_sched_class \<longrightarrow> v_wrr v p = None) \<and> W' (q_act c p v)"
  shows "inq W' (inc_nr_running c (tablet_enqueue_task env c p fl a))"
proof -
  define b where "b = update_rq_clock c a"
  let ?W1 = "\<lambda>v. W' (v\<lparr>v_nr := (v_nr v)(c := v_nr v c + 1)\<rparr>)"
  have b: "inq (\<lambda>v. W v \<and> v_class v p = class_of (tasks b p)) b"
    unfolding b_def by (rule inq_mono, rule inqs, rule a) simp
  have "inq ?W1 (tablet_enqueue_task env c p fl a)"
  proof (cases "class_of (tasks b p) = wrr_sched_class")
    case True
    have "inq ?W1 (enqueue_task_wrr env c p fl b)"
    proof (rule inq_enqueue_task_wrr [OF b])
      fix v assume v: "W v \<and> v_class v p = class_of (tasks b p)"
      have "(q_enq c p v)\<lparr>v_nr := (v_nr (q_enq c p v))(c := v_nr (q_enq c p v) c + 1)\<rparr> = q_act c p v"
        using v True by (simp add: q_act_def q_enq_def weight_in_nr_def add.commute)
      then show "v_class v p = wrr_sched_class \<and> v_wrr v p = None \<and> ?W1 (q_enq c p v)" using v W' [of v] True by simp
    qed
    then show ?thesis using True by (simp add: tablet_enqueue_task_def flip: b_def)
  next
    case False
    have o: "ops_silent (class_of (tasks b p)) (class_ext env (class_of (tasks b p)))"
      using env False by (simp add: env_silent_def)
    note v = inqD [OF b]
    have "inq ?W1 (op_enqueue_task (class_ext env (class_of (tasks b p))) c p fl b)"
    proof (rule inqI)
      have q: "qview (op_enqueue_task (class_ext env (class_of (tasks b p))) c p fl b)
          = (q_enq c p (qview b))\<lparr>v_nr := v_nr (qview b)\<rparr>"
        using o v(1) unfolding ops_silent_def by blast
      have "((q_enq c p (qview b))\<lparr>v_nr := v_nr (qview b)\<rparr>)\<lparr>v_nr := (v_nr (qview b))(c := v_nr (qview b) c + 1)\<rparr>
          = q_act c p (qview b)"
        using False by (simp add: q_act_def q_enq_def weight_in_nr_def)
      then show "?W1 (qview (op_enqueue_task (class_ext env (class_of (tasks b p))) c p fl b))"
        unfolding q using W' [of "qview b"] v(2) by simp
      show "queues_wf (op_enqueue_task (class_ext env (class_of (tasks b p))) c p fl b)"
        using o v(1) unfolding ops_silent_def by blast
    qed
    then show ?thesis using False
      by (cases "class_of (tasks b p)") (simp_all add: tablet_enqueue_task_def flip: b_def)
  qed
  then show ?thesis unfolding inc_nr_running_def by (rule inq_set_nr [where f = "\<lambda>n. n + 1"])
qed

lemma inq_tablet_dequeue:
  assumes env: "env_silent env" and a: "inq W a" and W': "\<And>v. W v \<Longrightarrow> W' (q_deact c p v)"
  shows "inq W' (dec_nr_running c (tablet_dequeue_task env c p fl a))"
proof -
  define b where "b = update_rq_clock c a"
  let ?W1 = "\<lambda>v. W' (v\<lparr>v_nr := (v_nr v)(c := v_nr v c - 1)\<rparr>)"
  have b: "inq (\<lambda>v. W v \<and> v_class v p = class_of (tasks b p)) b"
    unfolding b_def by (rule inq_mono, rule inqs, rule a) simp
  have "inq ?W1 (tablet_dequeue_task env c p fl a)"
  proof (cases "class_of (tasks b p) = wrr_sched_class")
    case True
    have "inq ?W1 (dequeue_task_wrr env c p fl b)"
    proof (rule inq_dequeue_task_wrr [OF b])
      fix v assume v: "W v \<and> v_class v p = class_of (tasks b p)"
      have "(q_deq c p v)\<lparr>v_nr := (v_nr (q_deq c p v))(c := v_nr (q_deq c p v) c - 1)\<rparr> = q_deact c p v"
        using v True by (simp add: q_deact_def q_deq_def weight_in_nr_def)
      then show "v_class v p = wrr_sched_class \<and> ?W1 (q_deq c p v)" using v W' [of v] True by simp
    qed
    then show ?thesis using True by (simp add: tablet_dequeue_task_def flip: b_def)
  next
    case False
    have o: "ops_silent (class_of (tasks b p)) (class_ext env (class_of (tasks b p)))"
      using env False by (simp add: env_silent_def)
    note v = inqD [OF b]
    have "inq ?W1 (op_dequeue_task (class_ext env (class_of (tasks b p))) c p fl b)"
    proof (rule inqI)
      have q: "qview (op_dequeue_task (class_ext env (class_of (tasks b p))) c p fl b)
          = (q_deq c p (qview b))\<lparr>v_nr := v_nr (qview b)\<rparr>"
        using o v(1) unfolding ops_silent_def by blast
      have "((q_deq c p (qview b))\<lparr>v_nr := v_nr (qview b)\<rparr>)\<lparr>v_nr := (v_nr (qview b))(c := v_nr (qview b) c - 1)\<rparr>
          = q_deact c p (qview b)"
        using False by (simp add: q_deact_def q_deq_def weight_in_nr_def)
      then show "?W1 (qview (op_dequeue_task (class_ext env (class_of (tasks b p))) c p fl b))"
        unfolding q using W' [of "qview b"] v(2) by simp
      show "queues_wf (op_dequeue_task (class_ext env (class_of (tasks b p))) c p fl b)"
        using o v(1) unfolding ops_silent_def by blast
    qed
    then show ?thesis using False
      by (cases "class_of (tasks b p)") (simp_all add: tablet_dequeue_task_def flip: b_def)
  qed
  then show ?thesis unfolding dec_nr_running_def by (rule inq_set_nr [where f = "\<lambda>n. n - 1"])
qed

lemma inq_tablet_activate:
  assumes "env_silent env" "inq W a"
    "\<And>v. W v \<Longrightarrow> (v_class v p = wrr_sched_class \<longrightarrow> v_wrr v p = None) \<and> W' (q_act c p v)"
  shows "inq W' (tablet_activate_task env c p fl a)"
  unfolding tablet_activate_task_def Let_def
  by (rule inq_tablet_enqueue [where W = W and W' = W', OF assms(1) _ assms(3)]) (rule inqs assms(2) | assumption)+

lemma inq_tablet_deactivate:
  assumes "env_silent env" "inq W a" "\<And>v. W v \<Longrightarrow> W' (q_deact c p v)"
  shows "inq W' (tablet_deactivate_task env c p fl a)"
  unfolding tablet_deactivate_task_def Let_def
  by (rule inq_tablet_dequeue [where W = W and W' = W', OF assms(1) _ assms(3)]) (rule inqs assms(2) | assumption)+

text \<open>
  Runs: starting with nothing queued, tasks are activated, deactivated, and change their class as
  \<open>__sched_setscheduler\<close> makes them, which deactivates and activates a queued task.
\<close>

inductive tablet_reach :: "'x env \<Rightarrow> 'x kernel \<Rightarrow> bool" for env where
  boot: "nothing_queued k \<Longrightarrow> tablet_reach env k"
| wake: "\<lbrakk>tablet_reach env k; \<not> on_rq (tasks k p); task_cpu (tasks k p) = c\<rbrakk>
     \<Longrightarrow> tablet_reach env (upd_task p (\<lambda>t. t\<lparr>on_rq := True\<rparr>) (tablet_activate_task env c p fl k))"
| sleep: "\<lbrakk>tablet_reach env k; on_rq (tasks k p); task_cpu (tasks k p) = c\<rbrakk>
     \<Longrightarrow> tablet_reach env (upd_task p (\<lambda>t. t\<lparr>on_rq := False\<rparr>) (tablet_deactivate_task env c p fl k))"
| change: "\<lbrakk>tablet_reach env k; on_rq (tasks k p); task_cpu (tasks k p) = c\<rbrakk>
     \<Longrightarrow> tablet_reach env (tablet_activate_task env c p 0
           (upd_task p (\<lambda>t. t\<lparr>class_of := cls\<rparr>) (tablet_deactivate_task env c p 0 k)))"
| change_off: "\<lbrakk>tablet_reach env k; \<not> on_rq (tasks k p)\<rbrakk>
     \<Longrightarrow> tablet_reach env (upd_task p (\<lambda>t. t\<lparr>class_of := cls\<rparr>) k)"

definition doubly :: "qview \<Rightarrow> bool" where
  "doubly v \<longleftrightarrow> (\<forall>c. finite (on_cpu_rq v c) \<and> v_nr v c = of_nat (\<Sum>p \<in> on_cpu_rq v c. weight_in_nr (v_class v p)))
     \<and> (\<forall>p. v_wrr v p \<noteq> None \<longrightarrow> v_on v p \<and> v_class v p = wrr_sched_class)"

lemma doubly_act:
  assumes "doubly (set_on p False v)" "v_cpu v p = c"
  shows "(v_class v p = wrr_sched_class \<longrightarrow> v_wrr v p = None) \<and> doubly (set_on p True (q_act c p v))"
proof -
  have n: "v_wrr v p = None" using assms(1) by (auto simp: doubly_def)
  have on: "on_cpu_rq (set_on p True (q_act c p v)) d
      = (if d = c then insert p (on_cpu_rq (set_on p False v) d) else on_cpu_rq (set_on p False v) d)" for d
    using assms(2) by (auto simp: q_act_def q_enq_def)
  have "p \<notin> on_cpu_rq (set_on p False v) d" for d by simp
  then have "doubly (set_on p True (q_act c p v))"
    using assms n unfolding doubly_def on
    by (auto simp: q_act_def q_enq_def add.commute split: if_splits)
  with n show ?thesis by simp
qed

lemma doubly_deact:
  assumes "doubly v" "v_cpu v p = c" "v_on v p"
  shows "doubly (set_on p False (q_deact c p v))"
proof -
  have on: "on_cpu_rq (set_on p False (q_deact c p v)) d = on_cpu_rq v d - {p}" for d
    by (auto simp: q_deact_def q_deq_def)
  have s: "(\<Sum>q \<in> on_cpu_rq v d. weight_in_nr (v_class v q))
      = (\<Sum>q \<in> on_cpu_rq v d - {p}. weight_in_nr (v_class v q)) + (if d = c then weight_in_nr (v_class v p) else 0)" for d
  proof (cases "d = c")
    case True
    then have "p \<in> on_cpu_rq v d" "finite (on_cpu_rq v d)" using assms by (simp_all add: doubly_def)
    then show ?thesis using True by (simp add: sum.remove)
  next
    case False
    then have "on_cpu_rq v d - {p} = on_cpu_rq v d" using assms(2) by auto
    then show ?thesis using False by simp
  qed
  show ?thesis
    unfolding doubly_def on
  proof (intro conjI allI)
    fix d
    show "finite (on_cpu_rq v d - {p})" using assms(1) by (simp add: doubly_def)
    have "v_nr v d = of_nat (\<Sum>q \<in> on_cpu_rq v d. weight_in_nr (v_class v q))" using assms(1) by (simp add: doubly_def)
    then show "v_nr (set_on p False (q_deact c p v)) d
        = of_nat (\<Sum>q \<in> on_cpu_rq v d - {p}. weight_in_nr (v_class (set_on p False (q_deact c p v)) q))"
      unfolding s by (auto simp: q_deact_def q_deq_def)
  next
    fix q
    show "v_wrr (set_on p False (q_deact c p v)) q \<noteq> None \<longrightarrow> v_on (set_on p False (q_deact c p v)) q
        \<and> v_class (set_on p False (q_deact c p v)) q = wrr_sched_class"
      using assms(1) by (auto simp: doubly_def q_deact_def q_deq_def)
  qed
qed

lemma doubly_class: "doubly (set_on p False v) \<Longrightarrow> doubly (set_on p False (set_class p cls v))"
proof -
  assume a: "doubly (set_on p False v)"
  have on: "on_cpu_rq (set_on p False (set_class p cls v)) d = on_cpu_rq (set_on p False v) d"
    "p \<notin> on_cpu_rq (set_on p False v) d" for d by auto
  have "(\<Sum>q \<in> on_cpu_rq (set_on p False v) d. weight_in_nr (v_class (set_on p False (set_class p cls v)) q))
      = (\<Sum>q \<in> on_cpu_rq (set_on p False v) d. weight_in_nr (v_class (set_on p False v) q))" for d
    using on(2) by (intro sum.cong) auto
  then show "doubly (set_on p False (set_class p cls v))"
    using a unfolding doubly_def on by auto
qed

lemma set_on_same: "v_on v p = b \<Longrightarrow> set_on p b v = v"
  by (rule qview_eqI) auto

lemma tablet_reach_doubly:
  assumes env: "env_silent env"
  shows "tablet_reach env k \<Longrightarrow> inq doubly k"
proof (induction rule: tablet_reach.induct)
  case (boot k)
  then show ?case
    by (simp add: nothing_queued_def inq_def queues_wf_def task_home_ok_def leaves_ok_def doubly_def
        no_lists_def lists_wf_def on_rt_rq_def node_empty_def)
next
  case (wake k p c fl)
  have "set_on p False (qview k) = qview k" using wake.hyps(2) by (intro set_on_same) simp
  then have "inq (\<lambda>v. doubly (set_on p False v) \<and> v_cpu v p = c) k"
    using wake.hyps(3) by (intro inq_mono [OF wake.IH]) simp
  then have "inq (\<lambda>v. doubly (set_on p True v)) (tablet_activate_task env c p fl k)"
    by (rule inq_tablet_activate [OF env]) (use doubly_act in blast)
  then show ?case by (rule inq_set_on)
next
  case (sleep k p c fl)
  have "inq (\<lambda>v. doubly v \<and> v_cpu v p = c \<and> v_on v p) k"
    using sleep.hyps(2,3) by (intro inq_mono [OF sleep.IH]) simp
  then have "inq (\<lambda>v. doubly (set_on p False v)) (tablet_deactivate_task env c p fl k)"
    by (rule inq_tablet_deactivate [OF env]) (use doubly_deact in blast)
  then show ?case by (rule inq_set_on)
next
  case (change k p c cls)
  let ?W = "\<lambda>v. doubly (set_on p False v) \<and> v_cpu v p = c \<and> v_on v p"
  have "inq (\<lambda>v. doubly v \<and> v_cpu v p = c \<and> v_on v p) k"
    using change.hyps(2,3) by (intro inq_mono [OF change.IH]) simp
  then have "inq ?W (tablet_deactivate_task env c p 0 k)"
    by (rule inq_tablet_deactivate [OF env]) (auto simp: doubly_deact, simp_all add: q_deact_def q_deq_def)
  then have "inq ?W (upd_task p (\<lambda>t. t\<lparr>class_of := cls\<rparr>) (tablet_deactivate_task env c p 0 k))"
    by (rule inq_set_class) (use doubly_class in simp)
  then show ?case
  proof (rule inq_tablet_activate [OF env])
    fix v assume v: "?W v"
    have "doubly (q_act c p v)" using doubly_act [where p = p and v = v and c = c] v set_on_same [where v = "q_act c p v" and p = p and b = True]
      by (simp add: q_act_def q_enq_def)
    with v show "(v_class v p = wrr_sched_class \<longrightarrow> v_wrr v p = None) \<and> doubly (q_act c p v)"
      using doubly_act [where p = p and v = v and c = c] by blast
  qed
next
  case (change_off k p cls)
  have "set_on p False (qview k) = qview k" using change_off.hyps(2) by (intro set_on_same) simp
  then have "inq (\<lambda>v. doubly (set_on p False v) \<and> \<not> v_on v p) k"
    using change_off.hyps(2) by (intro inq_mono [OF change_off.IH]) simp
  then show ?case
  proof (rule inq_set_class)
    fix v assume v: "doubly (set_on p False v) \<and> \<not> v_on v p"
    have "set_on p False (set_class p cls v) = set_class p cls v" using v by (intro set_on_same) simp
    then show "doubly (set_class p cls v)" using doubly_class [where p = p and v = v and cls = cls] v by simp
  qed
qed

text \<open>
  C14. The tablet kernel counts WRR tasks twice: in every state that tasks reach by being activated,
  deactivated and changing their class, \<open>nr_running\<close> of a cpu is the number of its queued tasks plus
  the number of those that are in the WRR class. \<open>activate_task\<close> counts every task, and
  \<open>enqueue_task_wrr\<close> counts it again.
\<close>

theorem tablet_wrr_counted_twice:
  assumes "env_silent env" "tablet_reach env k"
  shows "nr_running (rqs k c) = of_nat (card {p. on_rq (tasks k p) \<and> task_cpu (tasks k p) = c}
    + card {p. on_rq (tasks k p) \<and> task_cpu (tasks k p) = c \<and> class_of (tasks k p) = wrr_sched_class})"
proof -
  let ?S = "{p. on_rq (tasks k p) \<and> task_cpu (tasks k p) = c}"
  let ?T = "{p. on_rq (tasks k p) \<and> task_cpu (tasks k p) = c \<and> class_of (tasks k p) = wrr_sched_class}"
  have d: "finite ?S" "nr_running (rqs k c) = of_nat (\<Sum>p \<in> ?S. weight_in_nr (class_of (tasks k p)))"
    using inqD(2) [OF tablet_reach_doubly [OF assms]] by (simp_all add: doubly_def)
  have "(\<Sum>p \<in> ?S. weight_in_nr (class_of (tasks k p)))
      = (\<Sum>p \<in> ?S. 1 + (if class_of (tasks k p) = wrr_sched_class then 1 else 0))"
    by (rule sum.cong) (simp_all add: weight_in_nr_def)
  also have "\<dots> = card ?S + card (?S \<inter> {p. class_of (tasks k p) = wrr_sched_class})"
    by (subst sum.distrib) (simp add: sum.If_cases d(1))
  also have "?S \<inter> {p. class_of (tasks k p) = wrr_sched_class} = ?T" by auto
  finally show ?thesis unfolding d(2) by simp
qed

text \<open>
  Other classes that behave as assumed: an RT class made of that of the other kernel, without its
  counting, and no work for the rest.
\<close>

definition silent_rt :: "unit class_ops" where
  "silent_rt = ops0\<lparr>op_enqueue_task := (\<lambda>c p fl k. dec_nr_running c (enqueue_task_rt env0 c p fl k)),
     op_dequeue_task := (\<lambda>c p fl k. inc_nr_running c (dequeue_task_rt env0 c p fl k))\<rparr>"

definition env_t :: "unit env" where
  "env_t = env0\<lparr>class_ext := (\<lambda>cls. if cls = rt_sched_class then silent_rt else ops0)\<rparr>"

lemma silent_rt_silent: "ops_silent rt_sched_class silent_rt"
proof -
  have "inq (\<lambda>v. v = (q_enq c p (qview k))\<lparr>v_nr := v_nr (qview k)\<rparr>) (dec_nr_running c (enqueue_task_rt env0 c p fl k))"
    if k: "queues_wf k" "class_of (tasks k p) = rt_sched_class" for c p fl and k :: "unit kernel"
    unfolding dec_nr_running_def
  proof (rule inq_set_nr [where f = "\<lambda>n. n - 1"])
    show "inq (\<lambda>v. v = q_enq c p (qview k)) (enqueue_task_rt env0 c p fl k)"
    proof (rule inq_enqueue_task_rt)
      show "inq (\<lambda>v. v = qview k) k" using k(1) by (rule inqI) simp
    qed (use k(2) in simp)
  qed (auto simp: q_enq_def intro!: qview_eqI)
  moreover have "inq (\<lambda>v. v = (q_deq c p (qview k))\<lparr>v_nr := v_nr (qview k)\<rparr>) (inc_nr_running c (dequeue_task_rt env0 c p fl k))"
    if k: "queues_wf k" "class_of (tasks k p) = rt_sched_class" for c p fl and k :: "unit kernel"
    unfolding inc_nr_running_def
  proof (rule inq_set_nr [where f = "\<lambda>n. n + 1"])
    show "inq (\<lambda>v. v = q_deq c p (qview k)) (dequeue_task_rt env0 c p fl k)"
    proof (rule inq_dequeue_task_rt)
      show "inq (\<lambda>v. v = qview k) k" using k(1) by (rule inqI) simp
    qed (use k(2) in simp)
  qed (auto simp: q_deq_def intro!: qview_eqI)
  ultimately show ?thesis by (simp add: ops_silent_def silent_rt_def inq_def)
qed

lemma env_t_silent: "env_silent env_t"
proof -
  have "ops_silent cls ops0" if "cls \<noteq> rt_sched_class" "cls \<noteq> wrr_sched_class" for cls
    using that by (auto simp: ops_silent_def ops0_def q_enq_def q_deq_def)
  then show ?thesis using silent_rt_silent by (simp add: env_silent_def env_t_def)
qed

text \<open>One task, in the WRR class, and the cpu has two.\<close>

definition k_two :: "unit kernel" where
  "k_two = upd_task 2 (\<lambda>t. t\<lparr>on_rq := True\<rparr>)
     (tablet_activate_task env_t 0 2 0 (upd_task 2 (\<lambda>t. t\<lparr>class_of := wrr_sched_class\<rparr>) k_c))"

theorem tablet_wrr_counted_twice_witness:
  "nr_running (rqs k_two 0) = 2
   \<and> nr_running (rqs k_two 0) = of_nat (card {p. on_rq (tasks k_two p) \<and> task_cpu (tasks k_two p) = 0}
       + card {p. on_rq (tasks k_two p) \<and> task_cpu (tasks k_two p) = 0 \<and> class_of (tasks k_two p) = wrr_sched_class})"
proof -
  have "tablet_reach env_t k_two"
    unfolding k_two_def
  proof (rule tablet_reach.wake)
    show "tablet_reach env_t (upd_task 2 (\<lambda>t. t\<lparr>class_of := wrr_sched_class\<rparr>) k_c)"
      by (rule tablet_reach.change_off [OF tablet_reach.boot [OF k_c_nothing]]) code_simp
    show "\<not> on_rq (tasks (upd_task 2 (\<lambda>t. t\<lparr>class_of := wrr_sched_class\<rparr>) k_c) 2)" by code_simp
    show "task_cpu (tasks (upd_task 2 (\<lambda>t. t\<lparr>class_of := wrr_sched_class\<rparr>) k_c) 2) = 0" by code_simp
  qed
  note E = tablet_wrr_counted_twice [OF env_t_silent this, of 0]
  have "nr_running (rqs k_two 0) = 2" by code_simp
  then show ?thesis using E by (rule conjI)
qed

section \<open>Affinity\<close>

lemma keep_tablet_wrr:
  assumes "env_ok env" "class_of (tasks k p) = wrr_sched_class" "keep k a"
  shows "keep k (tablet_activate_task env c p fl a)" "keep k (tablet_deactivate_task env c p fl a)"
proof -
  have m: "keep k b \<Longrightarrow> class_of (tasks b p) = wrr_sched_class" for b
    using assms(2) params_of_eqD(6) [OF keepD [of k b p]] by simp
  have e: "keep k b \<Longrightarrow> tablet_enqueue_task env c p fl b = enqueue_task_wrr env c p fl (update_rq_clock c b)"
    "keep k b \<Longrightarrow> tablet_dequeue_task env c p fl b = dequeue_task_wrr env c p fl (update_rq_clock c b)" for b
    using m [OF keep_update_rq_clock] by (simp_all add: tablet_enqueue_task_def tablet_dequeue_task_def)
  let ?a = "\<lambda>f. if task_contributes_to_load a p then upd_rq c (\<lambda>r. r\<lparr>nr_uninterruptible := f (nr_uninterruptible r)\<rparr>) a else a"
  have k: "keep k (?a f)" for f by (assumption | rule keeps assms(3))+
  show "keep k (tablet_activate_task env c p fl a)"
    unfolding tablet_activate_task_def Let_def e(1) [OF k [of "\<lambda>n. n - 1"]] by (assumption | rule keeps assms(3))+
  show "keep k (tablet_deactivate_task env c p fl a)"
    unfolding tablet_deactivate_task_def Let_def e(2) [OF k [of "\<lambda>n. n + 1"]] by (assumption | rule keeps assms(3))+
qed

text \<open>
  On the tablet the affinity of a WRR task cannot be changed: \<open>set_cpus_allowed_ptr\<close>, with any
  mask that contains an active cpu, reports success for a WRR task that is not bound, but leaves the
  allowed cpus of every task as they are; and when no active cpu of the new mask was allowed before,
  it does nothing at all, so that the task stays on a cpu it was to leave.
\<close>

theorem tablet_wrr_affinity_ignored:
  assumes "env_ok env" "class_of (tasks k p) = wrr_sched_class"
    and "list_ex (\<lambda>i. m i \<and> cpu_active_mask k i) [0..<nr_cpu_ids env]"
    and "flags (tasks k p) AND PF_THREAD_BOUND = 0 \<or> p = current k"
  shows "fst (tablet_set_cpus_allowed_ptr env hook p m k) = 0
    \<and> (\<forall>q. cpus_allowed (tasks (snd (tablet_set_cpus_allowed_ptr env hook p m k)) q) = cpus_allowed (tasks k q))
    \<and> ((\<forall>i. m i \<and> cpu_active_mask k i \<longrightarrow> \<not> cpus_allowed (tasks k p) i)
        \<longrightarrow> snd (tablet_set_cpus_allowed_ptr env hook p m k) = k)"
proof -
  let ?d = "hd (for_each_cpu env (\<lambda>i. cpu_active_mask k i \<and> m i))"
  have noop: "tablet_do_set_cpus_allowed env hook p m k = k"
    using assms(2) by (simp add: tablet_do_set_cpus_allowed_def tablet_class_hook_def)
  have b: "\<not> (flags (tasks k p) AND PF_THREAD_BOUND \<noteq> 0 \<and> p \<noteq> current k)" using assms(4) by blast
  consider "tablet_set_cpus_allowed_ptr env hook p m k = (0, k)"
    | "tablet_set_cpus_allowed_ptr env hook p m k = (0, snd (tablet_migrate_task env p (task_cpu (tasks k p)) ?d k))"
    unfolding tablet_set_cpus_allowed_ptr_def Let_def noop if_not_P [OF b] using assms(3)
    by (cases "list_all (\<lambda>i. cpus_allowed (tasks k p) i = m i) [0..<nr_cpu_ids env]";
        cases "m (task_cpu (tasks k p))"; cases "on_rq (tasks k p)") simp_all
  then show ?thesis
  proof cases
    case 2
    have "for_each_cpu env (\<lambda>i. cpu_active_mask k i \<and> m i) \<noteq> []"
      using assms(3) by (auto simp: for_each_cpu_def filter_empty_conv list_ex_iff)
    from hd_in_set [OF this] have d: "cpu_active_mask k ?d" "m ?d" by (simp_all add: for_each_cpu_def)
    have "keep k (snd (tablet_migrate_task env p (task_cpu (tasks k p)) ?d k))"
    proof -
      note t = keep_tablet_wrr [OF assms(1,2)]
      show ?thesis unfolding tablet_migrate_task_def Let_def
        by (simp add: keep_refl, intro impI keep_check_preempt_curr [OF assms(1)] t keep_set_task_cpu keep_refl)
    qed
    then have "cpus_allowed (tasks (snd (tablet_migrate_task env p (task_cpu (tasks k p)) ?d k)) q) = cpus_allowed (tasks k q)" for q
      by (rule params_of_eqD(8) [OF keepD])
    moreover have "snd (tablet_migrate_task env p (task_cpu (tasks k p)) ?d k) = k" if "\<not> cpus_allowed (tasks k p) ?d"
      using that by (simp add: tablet_migrate_task_def)
    ultimately show ?thesis using d unfolding 2 by auto
  qed simp
qed

text \<open>Task 2, in the WRR class and on cpu 0, may run on cpu 0 only and is asked to run on cpu 1.\<close>

definition k_affine :: "unit kernel" where
  "k_affine = upd_task 2 (\<lambda>t. t\<lparr>class_of := wrr_sched_class, cpus_allowed := (\<lambda>i. i = 0)\<rparr>) k0"

theorem tablet_wrr_affinity_ignored_witness:
  "fst (tablet_set_cpus_allowed_ptr env0 (\<lambda>_. None) 2 (\<lambda>i. i = 1) k_affine) = 0
   \<and> cpus_allowed (tasks (snd (tablet_set_cpus_allowed_ptr env0 (\<lambda>_. None) 2 (\<lambda>i. i = 1) k_affine)) 2) 1 = False
   \<and> snd (tablet_set_cpus_allowed_ptr env0 (\<lambda>_. None) 2 (\<lambda>i. i = 1) k_affine) = k_affine"
proof -
  have "class_of (tasks k_affine 2) = wrr_sched_class" "list_ex (\<lambda>i. i = 1 \<and> cpu_active_mask k_affine i) [0..<nr_cpu_ids env0]"
    "flags (tasks k_affine 2) AND PF_THREAD_BOUND = 0 \<or> 2 = current k_affine" "cpus_allowed (tasks k_affine 2) 1 = False"
    by code_simp+
  with tablet_wrr_affinity_ignored [OF env_ok_env0 this(1,2,3), of "\<lambda>_. None"] show ?thesis by simp
qed

text \<open>
  A thread that \<open>kthread_bind\<close> has bound, without a warning, to a cpu is allowed on that cpu only, and
  \<open>set_cpus_allowed_ptr\<close> refuses to let it go elsewhere, unless it calls for itself. This is for a
  thread of a class without an operation for it, as the fair class.
\<close>

theorem kthread_bind_sticks:
  assumes "kthread_bind env hook p c v k = Some (False, k')"
    and "tablet_class_hook hook (class_of (tasks k p)) = None" "p \<noteq> current k"
    and "i < nr_cpu_ids env" "m i \<noteq> (i = c)"
  shows "cpus_allowed (tasks k' p) = (\<lambda>i. i = c) \<and> tablet_set_cpus_allowed_ptr env hook p m k' = (- EINVAL, k')"
proof -
  let ?k = "tablet_do_set_cpus_allowed env hook p (\<lambda>i. i = c) k"
  have k': "k' = upd_task p (\<lambda>t. t\<lparr>flags := flags t OR PF_THREAD_BOUND\<rparr>) ?k"
    using assms(1) by (auto simp: kthread_bind_def Let_def split: option.splits if_splits)
  have a: "cpus_allowed (tasks k' p) = (\<lambda>i. i = c)"
    using assms(2) by (simp add: k' tablet_do_set_cpus_allowed_def Let_def)
  have "(flags (tasks ?k p) OR PF_THREAD_BOUND) AND PF_THREAD_BOUND = PF_THREAD_BOUND"
    by (rule bit_eqI) (auto simp: bit_simps)
  then have f: "flags (tasks k' p) AND PF_THREAD_BOUND \<noteq> 0" by (simp add: k' PF_THREAD_BOUND_def)
  have c: "p \<noteq> current k'" using assms(2,3) by (simp add: k' tablet_do_set_cpus_allowed_def Let_def)
  have "\<not> list_all (\<lambda>i. cpus_allowed (tasks k' p) i = m i) [0..<nr_cpu_ids env]"
    using assms(4,5) by (auto simp: list_all_iff a)
  then show ?thesis using a f c by (simp add: tablet_set_cpus_allowed_ptr_def)
qed

section \<open>Fork\<close>

text \<open>The parameters of the child after the reset.\<close>

definition reset_params :: "task_params \<Rightarrow> task_params" where
  "reset_params t = (if \<not> tp_reset_on_fork t then t else
     let t = (if tp_policy t = SCHED_FIFO \<or> tp_policy t = SCHED_RR
              then t\<lparr>tp_policy := SCHED_NORMAL, tp_normal_prio := tp_static_prio t\<rparr> else t);
         t = (if PRIO_TO_NICE (tp_static_prio t) < 0
              then t\<lparr>tp_static_prio := NICE_TO_PRIO 0, tp_normal_prio := NICE_TO_PRIO 0\<rparr> else t)
     in t\<lparr>tp_reset_on_fork := False\<rparr>)"

definition child_class :: "int \<Rightarrow> int \<Rightarrow> sched_class \<Rightarrow> sched_class" where
  "child_class pol pr cls = (if \<not> rt_prio pr then fair_sched_class else if pol = SCHED_WRR then wrr_sched_class else cls)"

lemma tablet_fork_reset_params:
  assumes "sched_reset_on_fork (tasks k p)"
  shows "params_of (tasks (tablet_fork_reset p k) p) = reset_params (params_of (tasks k p))"
    and "current (tablet_fork_reset p k) = current k" "q \<noteq> p \<Longrightarrow> tasks (tablet_fork_reset p k) q = tasks k q"
  using assms
  by (simp_all add: tablet_fork_reset_def set_load_weight_def Let_def params_of_def reset_params_def)

text \<open>
  Fork on the tablet, by the parameters of the child (a copy of its parent's): the reset that
  SCHED_RESET_ON_FORK asks for gives it the policy and the static priority of a normal task, but its
  effective priority is that of the running parent, and the class goes by that alone. So a child of a
  SCHED_WRR parent is put into the fair class, the assignment of the WRR class being overwritten; and
  a child of an RT parent stays in the RT class even when the parent has asked for the reset.
\<close>

theorem tablet_fork_spec:
  assumes "env_ok env" "p \<noteq> current k"
  shows "params_of (tasks (tablet_sched_fork env p k) p) = (let t = reset_params (params_of (tasks k p)) in
      t\<lparr>tp_on_rq := False, tp_state := TASK_RUNNING, tp_prio := normal_prio (tasks k (current k)),
        tp_class := child_class (tp_policy t) (normal_prio (tasks k (current k))) (tp_class t), tp_preempt_count := 1\<rparr>)"
proof -
  let ?n = "normal_prio (tasks k (current k))"
  define a where "a = upd_task p (\<lambda>t. t\<lparr>state := TASK_RUNNING\<rparr>) (sched_fork_init p k)"
  define r where "r = (if sched_reset_on_fork (tasks a p) then tablet_fork_reset p a else a)"
  define b where "b = upd_task p (\<lambda>t. t\<lparr>prio := normal_prio (tasks r (current r))\<rparr>) r"
  define w where "w = (if policy (tasks b p) = SCHED_WRR
      then upd_task p (\<lambda>t. t\<lparr>class_of := wrr_sched_class\<rparr>) b else b)"
  define d where "d = (if \<not> rt_prio (prio (tasks w p))
      then upd_task p (\<lambda>t. t\<lparr>class_of := fair_sched_class\<rparr>) w else w)"
  have a: "params_of (tasks a p) = (params_of (tasks k p))\<lparr>tp_on_rq := False, tp_state := TASK_RUNNING\<rparr>"
    "current a = current k" "normal_prio (tasks a (current k)) = ?n"
    using assms(2) by (simp_all add: a_def sched_fork_init_def Let_def params_of_def)
  have r: "params_of (tasks r p) = reset_params (params_of (tasks a p))" "normal_prio (tasks r (current r)) = ?n"
    using tablet_fork_reset_params [of a p] a(2,3) assms(2)
    by (auto simp: r_def reset_params_def params_of_def [of "tasks a p"])
  have "params_of (tasks b p) = (params_of (tasks r p))\<lparr>tp_prio := ?n\<rparr>"
    unfolding b_def r(2) by (simp add: params_of_def)
  moreover have "params_of (tasks d p) = (params_of (tasks b p))
      \<lparr>tp_class := child_class (policy (tasks b p)) (prio (tasks b p)) (class_of (tasks b p))\<rparr>"
    by (simp add: d_def w_def params_of_def child_class_def)
  ultimately have d: "params_of (tasks d p) = (params_of (tasks r p))
      \<lparr>tp_prio := ?n, tp_class := child_class (policy (tasks r p)) ?n (class_of (tasks r p))\<rparr>"
    by (simp add: params_of_def)
  have oc: "keep d (upd_task p (\<lambda>t. t\<lparr>on_cpu := False\<rparr>) x)" if "keep d x" for x
    using that by (simp add: keep_def params_of_def)
  define m where "m = (if config_smp env
      then upd_task p (\<lambda>t. t\<lparr>on_cpu := False\<rparr>) (set_task_cpu env p (this_cpu k) (class_task_fork env p d))
      else set_task_cpu env p (this_cpu k) (class_task_fork env p d))"
  have m: "tablet_sched_fork env p k = upd_task p (\<lambda>t. t\<lparr>preempt_count := 1\<rparr>) m"
    unfolding tablet_sched_fork_def Let_def a_def [symmetric] r_def [symmetric] b_def [symmetric] w_def [symmetric]
      d_def [symmetric] m_def by (rule refl)
  have "keep d m" unfolding m_def by (assumption | rule assms(1) oc keeps)+
  then have "params_of (tasks m p) = params_of (tasks d p)" by (rule keepD)
  then have f: "params_of (tasks (tablet_sched_fork env p k) p) = (params_of (tasks d p))\<lparr>tp_preempt_count := 1\<rparr>"
    by (simp add: m)
  have pr: "policy (tasks r p) = tp_policy (params_of (tasks r p))" "class_of (tasks r p) = tp_class (params_of (tasks r p))"
    by (simp_all add: params_of_def)
  have ra: "reset_params (t\<lparr>tp_on_rq := x, tp_state := y\<rparr>) = (reset_params t)\<lparr>tp_on_rq := x, tp_state := y\<rparr>" for t x y
    by (simp add: reset_params_def Let_def)
  show ?thesis unfolding f d pr r(1) a(1) ra by (simp add: Let_def)
qed

text \<open>Task 0 runs with SCHED_FIFO at priority 50 and has asked for the reset; task 2 is its child.\<close>

definition k_fifo_parent :: "unit kernel" where
  "k_fifo_parent = upd_task 2 (\<lambda>t. t\<lparr>policy := SCHED_FIFO, class_of := rt_sched_class, normal_prio := 49, rt_priority := 50,
       sched_reset_on_fork := True\<rparr>)
     (upd_task 0 (\<lambda>t. t\<lparr>policy := SCHED_FIFO, class_of := rt_sched_class, normal_prio := 49, rt_priority := 50\<rparr>) k0)"

theorem tablet_fork_spec_witness:
  "policy (tasks (tablet_sched_fork env0 2 k_fifo_parent) 2) = SCHED_NORMAL
   \<and> prio (tasks (tablet_sched_fork env0 2 k_fifo_parent) 2) = 49
   \<and> class_of (tasks (tablet_sched_fork env0 2 k_fifo_parent) 2) = rt_sched_class"
proof -
  have "(2 :: nat) \<noteq> current k_fifo_parent" by code_simp
  note F = tablet_fork_spec [OF env_ok_env0 this]
  let ?t = "reset_params (params_of (tasks k_fifo_parent 2))"
  have t: "tp_policy ?t = SCHED_NORMAL" "tp_class ?t = rt_sched_class" "normal_prio (tasks k_fifo_parent (current k_fifo_parent)) = 49"
    by code_simp+
  have P: "policy x = tp_policy (params_of x)" "prio x = tp_prio (params_of x)" "class_of x = tp_class (params_of x)" for x
    by (simp_all add: params_of_def)
  show ?thesis unfolding P F by (simp add: Let_def t child_class_def rt_prio_def policy_defs MAX_RT_PRIO_def MAX_USER_RT_PRIO_def)
qed

text \<open>Without the reset, and but for WRR tasks with an RT priority, both kernels do the same.\<close>

theorem tablet_fork_agrees:
  assumes "\<not> sched_reset_on_fork (tasks k p)"
    and "policy (tasks k p) \<noteq> SCHED_WRR \<or> \<not> rt_prio (normal_prio (tasks k (current k)))" "p \<noteq> current k"
  shows "tablet_sched_fork env p k = sched_fork env p k"
proof -
  define a where "a = upd_task p (\<lambda>t. t\<lparr>state := TASK_RUNNING\<rparr>) (sched_fork_init p k)"
  define b where "b = upd_task p (\<lambda>t. t\<lparr>prio := normal_prio (tasks a (current a))\<rparr>) a"
  have r: "\<not> sched_reset_on_fork (tasks a p)" "\<not> sched_reset_on_fork (tasks b p)"
    using assms(1) by (simp_all add: a_def b_def sched_fork_init_def Let_def)
  have q: "policy (tasks b p) \<noteq> SCHED_WRR \<or> \<not> rt_prio (prio (tasks b p))"
    using assms(2,3) by (simp add: a_def b_def sched_fork_init_def Let_def)
  have "(if \<not> rt_prio (prio (tasks (if policy (tasks b p) = SCHED_WRR then upd_task p (\<lambda>t. t\<lparr>class_of := wrr_sched_class\<rparr>) b else b) p))
      then upd_task p (\<lambda>t. t\<lparr>class_of := fair_sched_class\<rparr>)
        (if policy (tasks b p) = SCHED_WRR then upd_task p (\<lambda>t. t\<lparr>class_of := wrr_sched_class\<rparr>) b else b)
      else (if policy (tasks b p) = SCHED_WRR then upd_task p (\<lambda>t. t\<lparr>class_of := wrr_sched_class\<rparr>) b else b))
    = (if \<not> rt_prio (prio (tasks b p)) then upd_task p (\<lambda>t. t\<lparr>class_of := fair_sched_class\<rparr>) b else b)"
    using q by (auto simp: comp_def)
  then show ?thesis
    unfolding tablet_sched_fork_def sched_fork_def Let_def a_def [symmetric] if_not_P [OF r(1)] b_def [symmetric] if_not_P [OF r(2)]
    by simp
qed

end
