(* ===== verification/Spec2Isabelle.thy ===== *)
theory Spec2Isabelle
  imports Wrr_Props Load_Props Queue_Props Policy_Props Group_Props Rt_Props Rt_Runs Rt_Bandwidth
    Ptree_Props Cipher_Session Wait_Props Cpu_Time_Props Cfs_Props Domain_Props Init_Props
    Rq_Props Task_Types Preempt_Props Remote_Props Kthread_Props Kthread_Create_Props Tablet_Props
begin

text \<open>
  The scheduler of an Android kernel with a weighted round-robin class, and the two programs of the
  project before it.

  The repository holds the two projects of an operating systems course. Project 2 adds the policy
  \<open>SCHED_WRR\<close> with a scheduling class of its own (\<open>kernel/sched/wrr.c\<close>) to the scheduler of a Linux
  3.4 kernel for ARM, and carries the files of that scheduler that it changed: for the emulator,
  \<open>Project2/goldfish/kernel/sched/{core,rt,wrr}.c\<close>, \<open>sched.h\<close> and \<open>include/linux/sched.h\<close>. This
  development models those five files: the whole of \<open>wrr.c\<close>, nearly all of \<open>rt.c\<close>, and of
  \<open>core.c\<close> what the two classes and the system calls on scheduling rest on, kernel preemption, the
  wait queues, the accounting of cpu time, and the scheduling domains. For the tablet the repository
  carries the same work on an older kernel (\<open>Project2/tergra\<close>); of its files \<open>kthread.c\<close> is modelled, and of
  \<open>sched.c\<close> and \<open>sched_wrr.c\<close> what behaves differently there. Project 1 is a kernel module with a system call
  that reports the tree of processes (\<open>Project1/submit/Prom1/ptree.c\<close>) and an encryption server with
  its client (\<open>Prom4/server.c\<close>, \<open>client.c\<close>); both are modelled.

  \<^bold>\<open>How the program is modelled\<close>

  All state that an operation can reach is one record, \<open>kernel\<close> (\<open>Sched_Types\<close>): the tasks, the
  runqueues of the cpus, the RT runqueues and entities of every pair of group and cpu, the groups,
  the accounting groups, the root domain's masks, and the load counters. Each C structure is a
  record with the fields that the modelled operations read or write. Pointers are numbers: a task is
  a \<open>tid\<close>, a runqueue the number of its cpu, a group a \<open>tgid\<close>, an RT runqueue a pair of group and
  cpu, and an RT entity either a task's or a group's on a cpu (\<open>rt_se_ref\<close>). The lists that link
  nodes embedded in structures (\<open>run_list\<close>) are families of lists in which a node knows its list
  (\<open>Kernel_Lists\<close>), which is what \<open>list_del_init\<close> and \<open>list_empty(&node)\<close> need.

  An operation of the code is a function from kernel to kernel, with its result paired in front
  when it has one. C integers keep their width: \<open>unsigned long\<close> and \<open>unsigned int\<close> are 32-bit words
  on these machines, times are 64-bit words, and wrap-around is that of the words; \<open>int\<close> values that
  the code keeps within a small range (priorities, nice values, policies, error numbers) are \<open>int\<close>.
  A \<open>BUG_ON\<close> that fires sets the flag \<open>bug\<close>. An operation runs under its locks without interference;
  locks, barriers, \<open>printk\<close>, tracing, lockdep and the statistics of the scheduling domains have no
  effect.

  Where what a component keeps is read by nothing else in the development, it has a state of its own
  beside the kernel: the times of the tasks (\<open>cpu_times\<close>), the bandwidth of the fair class
  (\<open>cfs_state\<close>), the structures of the scheduling domains (\<open>domains\<close>), a completion. An operation that
  sleeps is cut where it calls \<open>schedule_timeout\<close>: one function up to there, one from there on, so
  that anything can happen between, and a call of \<open>__schedule\<close> where the cpu changes tasks
  (\<open>Sched_Preempt\<close>). A loop that waits for another cpu takes the states it sees as an argument. The threads of the server are a step relation over the
  interleavings of their statements. So are the kernel threads of \<open>kthread.c\<close>, whose steps are functions,
  so that a run can be evaluated; a step is a section under the lock or one access to shared memory, in
  program order, and fields marked as not in the code count what the theorems speak of.

  What is not in the repository is a parameter, collected in the record \<open>env\<close>: the other classes
  (stop, fair, idle) as records of their operations (\<open>class_ops\<close>), \<open>cpupri_find\<close>, the resource
  limits, \<open>cgroup_path\<close> and \<open>autogroup_path\<close>, the workqueue hooks, and whether \<open>CONFIG_SMP\<close> is set.
  Their own state is the field \<open>ext_state\<close> of the kernel. The record \<open>sys\<close> of \<open>Sched_Policy\<close> collects
  what the system calls take from outside: credentials, capabilities, the security module, cpusets
  and the PI code of \<open>rtmutex.c\<close>. Configuration: \<open>CONFIG_RT_GROUP_SCHED\<close>, \<open>CONFIG_NO_HZ\<close>,
  \<open>CONFIG_CGROUP_CPUACCT\<close>, \<open>CONFIG_PREEMPT\<close> and \<open>HZ = 100\<close> as in \<open>goldfish_armv7_defconfig\<close>;
  \<open>CONFIG_SMP\<close>, which only the tablet's kernel sets, is left open.

  \<^bold>\<open>The parts and their theories\<close>

  \<^item> \<open>Kernel_Prelude\<close>: machine integers, error numbers, generic facts; the collections \<open>frame\<close> and \<open>keeps\<close>.
  \<^item> \<open>Kernel_Lists\<close>: the linked lists, their well-formedness, and what the neighbour test
    \<open>run_list.prev != run_list.next\<close> of both round-robin schedulers means.
  \<^item> \<open>Sched_Types\<close>, \<open>Kernel_State\<close>: \<open>include/linux/sched.h\<close> and \<open>kernel/sched/sched.h\<close>.
  \<^item> \<open>Cpuacct\<close>: \<open>cpuacct_charge\<close>.
  \<^item> \<open>Rq_Clock\<close>: \<open>update_rq_clock\<close>, the average of RT time, \<open>__set_task_cpu\<close>.
  \<^item> \<open>Wrr_Class\<close>: \<open>wrr.c\<close>. \<open>Wrr_Lemmas\<close>, \<open>Wrr_Props\<close>: its invariant under every operation, what
    enqueueing, picking, choosing a cpu and a whole round do. \<open>Round_Robin\<close> is the contract of a
    round-robin discipline as a locale; the WRR class interprets it.
  \<^item> \<open>Rt_Class\<close>: \<open>rt.c\<close> but for what moves tasks between cpus. \<open>Rt_Props\<close>: lending runtime
    between cpus, the list of pushable tasks. \<open>Rt_Array\<close>: the well-formedness of the priority arrays
    (bitmaps, counters, best priorities, the links between the levels of the group hierarchy) and
    that enqueueing and dequeueing an entity keep it; \<open>Rt_Runs\<close>: it holds in every reachable state,
    and the entity picked is one of the best priority. \<open>Rt_Bandwidth\<close>: without lending, a
    group's runqueue is a token bucket. \<open>Op_Rules\<close> holds the rules by which a property
    of two states passes from an operation's parts to the operation.
  \<^item> \<open>Sched_Queue\<close>: \<open>core.c\<close> from \<open>enqueue_task\<close> to \<open>pick_next_task\<close>, and the dispatch over classes.
  \<^item> \<open>Sched_Balance\<close>: push and pull of RT tasks, \<open>pull_wrr_task\<close>, the class-change hooks.
    \<open>Queue_Props\<close>: preemption, order of the classes, pulling, charging.
  \<^item> \<open>Load_Avg\<close>: the load average with its NO_HZ deltas, and the cpu load with its decay tables.
    \<open>Load_Props\<close>: nothing is lost in the folding; bounds of the averages.
  \<^item> \<open>Sched_Core\<close>, \<open>Sched_Hotplug\<close>: wakeup, fork, \<open>__schedule\<close>, yield; ticks, migration, hotplug.
  \<^item> \<open>Sched_Preempt\<close>: the ways into \<open>__schedule\<close> (\<open>core.c\<close>): kernel preemption, \<open>cond_resched\<close>, \<open>io_schedule\<close>,
    \<open>yield_to\<close>, with the preemption counts. A call begins in one task and ends when that task runs
    again. \<open>Preempt_Props\<close>: the counts in every run; what \<open>PREEMPT_ACTIVE\<close> is for.
  \<^item> \<open>Sched_Remote\<close>: what a cpu does about others (\<open>core.c\<close>): waiting for a task to be inactive, spinning on
    a mutex, interrupts, the high-resolution tick. \<open>Remote_Props\<close>: what the loops' results mean.
  \<^item> \<open>Sched_Policy\<close>: nice values, \<open>__sched_setscheduler\<close>, priority inheritance, the system calls.
    \<open>Policy_Props\<close>: what they change, refuse and return. It rests on \<open>Sched_Frame\<close>: everything else in
    the scheduler leaves the parameters of the tasks alone, with the locale \<open>keeping_class\<close> as
    the contract of a class, interpreted for RT and WRR.
  \<^item> \<open>Tg_Walk\<close>: \<open>walk_tg_tree_from\<close>, a loop with \<open>goto\<close>s, and its equivalence with a recursive
    traversal. \<open>Sched_Groups\<close>: task groups and RT bandwidth. \<open>Group_Props\<close>: admission of bandwidth.
  \<^item> \<open>Rq_View\<close>, \<open>Rq_Count\<close>, \<open>Rq_Runs\<close>, \<open>Rq_Props\<close>: the core as a machine whose steps are its
    operations (wakeup, fork, sleep, \<open>__schedule\<close>, ticks, moves, changes of parameters, hotplug). The
    flags, counters and queues are one abstract record; in every reachable state they agree.
    \<open>Task_Types\<close>: in every run the parameters of the tasks stay in the ranges that are indexed with.
  \<^item> \<open>Wait_Queue\<close>: wakeups, completions, sleeping on a queue (\<open>core.c\<close>). \<open>Wait_Props\<close>: whom a wakeup
    reaches, the balance of a completion in every run, that a signal reaches the first waiter.
  \<^item> \<open>Cpu_Time\<close>: where a tick is counted, the times reported of a task, the files of the accounting
    groups (\<open>core.c\<close>). \<open>Cpu_Time_Props\<close>: a tick is counted once, reported times do not decrease.
  \<^item> \<open>Cfs_Bandwidth\<close>: quota and period of a group of the fair class (\<open>core.c\<close>); what \<open>fair.c\<close> does
    with them is an argument. \<open>Cfs_Props\<close>: when a change is admitted, and what it does.
  \<^item> \<open>Sched_Domains\<close>: domains, groups, their attachment, the partition, NUMA nodes (\<open>core.c\<close>).
    \<open>Domain_Props\<close>: the circle of groups, the change of the partition, the nearest node.
  \<^item> \<open>Sched_Init\<close>: \<open>sched_init\<close> and \<open>sched_init_smp\<close>. \<open>Init_Props\<close>: the invariants hold at the start.
  \<^item> \<open>Kthread_Worker\<close>: works for a kernel thread (tergra \<open>kthread.c\<close>): queueing, the worker's loop, both
    flush functions. \<open>Kthread_Flush\<close>: its invariants, and that a worker left alone drains its list.
    \<open>Kthread_Props\<close>: what is finished when a flush returns, no lost wakeup, two runs that go wrong.
  \<^item> \<open>Kthread_Create\<close>: creating and stopping kernel threads (tergra \<open>kthread.c\<close>). \<open>Kthread_Life\<close>: its
    invariants. \<open>Kthread_Create_Props\<close>: what a caller gets, and when.
  \<^item> \<open>Tablet_Sched\<close>: activation, migration, affinity and fork in tergra \<open>sched.c\<close>, \<open>kthread_bind\<close>.
    \<open>Tablet_Props\<close>: what the differences to \<open>core.c\<close> lead to.
  \<^item> \<open>Ptree\<close>: the module; the memory around its two buffers is modelled so far that a store
    past them is a value of its own. \<open>Ptree_Props\<close>: the report is the preorder of the tree.
  \<^item> \<open>Cipher_Server\<close>: threads, main loop and client. \<open>Cipher_Props\<close>: refinement of a service of two
    places under every interleaving, answers, the cipher. \<open>Cipher_Session\<close>: client and server
    together, and what goes wrong in the code.
  \<^item> \<open>Example_State\<close>: a machine of two cpus on which the theorems are applied.

  \<^bold>\<open>Loops and their bounds\<close>

  Loops over cpus, classes, tasks and groups are folds over lists. The walk over the group tree is a
  \<open>partial_function\<close>, so that a walk that does not end is \<open>None\<close>; it is proved to end on every
  tree. Chains of parents (of RT entities and accounting groups) are bounded by the number of the
  first group, since groups are numbered in the order of creation. \<open>pick_rt_loop\<close> descends one group
  per turn and has one turn more than there are groups. The retry loops of \<open>push_rt_task\<close> and
  \<open>select_fallback_rq\<close> have the number of turns that a run without interference can take. A loop
  around a circle of groups has as many turns as there are cpus, since a group has at least one; a
  loop up a chain of domains as many as there are levels. The recursion of the process tree module
  has the depth of the tree as fuel, which is proved to be enough.

  \<^bold>\<open>What is not modelled\<close>

  Of \<open>core.c\<close>: the sysctl tables, the feature files, debug and \<open>/proc\<close> code, and the release of root
  domains and domains after a grace period. The classes stop, fair and idle, which are not in the
  repository. Concurrency between cpus other than in the wait queues, the loops of \<open>Sched_Remote\<close> and the
  kernel threads; weak memory order.

  Of the tablet's tree: \<open>sched_rt.c\<close>, an older version of \<open>rt.c\<close>, and its headers are not translated. \<open>sched_wrr.c\<close>
  is the same class as \<open>wrr.c\<close> up to the output and to how the group of a task is found. \<open>sched.c\<close>
  is the older form of \<open>core.c\<close>; besides the functions named above it is not translated. Of \<open>kthread.c\<close>
  the names of the threads and the freezer are left out.

  The test programs only call what is modelled and print.
\<close>

end
